(* ===== verification/Prelude.thy ===== *)
theory Prelude
  imports Main "HOL-Library.Word" "HOL-Library.Monad_Syntax"
begin

unbundle bit_operations_syntax

text \<open>
  The conventions every component theory of the adv_jtag_bridge development shares.

  \<^item> Machine integers: \<open>u8\<close>, \<open>u16\<close>, \<open>u32\<close> are C's uint8_t, uint16_t, uint32_t.
    \<open>unsigned long\<close> is 32 bits wide (ILP32, the data model the sources assume when they
    cast data buffers to \<open>unsigned long *\<close>). A C \<open>int\<close> that counts or indexes is an \<open>int\<close>.
  \<^item> An operation on a state of type \<open>'st\<close> is a function \<open>'st \<Rightarrow> (r \<times> 'st) option\<close>.
    \<open>None\<close> means that the call does not come back: the source calls \<open>exit(1)\<close>, an assertion
    fails, a lock is taken twice, or the behaviour of the C program is undefined at that point
    (an index past the end of a buffer, a negative shift count).
  \<^item> Error codes are the 32-bit masks of errcodes.h, accumulated with bitwise or.
  \<^item> Buffers are lists; \<open>word_at\<close> is the guarded read of one element.
  \<^item> Messages printed to the terminal and delays (\<open>usleep\<close>) have no counterpart.
\<close>

type_synonym u8 = "8 word"
type_synonym u16 = "16 word"
type_synonym u32 = "32 word"

type_synonym 'st op = "'st \<Rightarrow> (u32 \<times> 'st) option"

named_theorems err_simps \<open>rewrite rules for accumulated error masks\<close>
named_theorems keeps_intros \<open>what an operation leaves unchanged\<close>

subsection \<open>Guarded access to buffers\<close>

definition word_at :: "'a list \<Rightarrow> nat \<Rightarrow> 'a option" where
  "word_at ws i = (if i < length ws then Some (ws ! i) else None)"

definition put_at :: "'a list \<Rightarrow> nat \<Rightarrow> 'a \<Rightarrow> 'a list option" where
  "put_at ws i x = (if i < length ws then Some (ws[i := x]) else None)"

lemma word_at_Some_iff: "word_at ws i = Some w \<longleftrightarrow> i < length ws \<and> w = ws ! i"
  by (auto simp: word_at_def)

lemma word_at_lt [simp]: "i < length ws \<Longrightarrow> word_at ws i = Some (ws ! i)"
  by (simp add: word_at_def)

lemma put_at_lt [simp]: "i < length ws \<Longrightarrow> put_at ws i x = Some (ws[i := x])"
  by (simp add: put_at_def)

lemma put_at_length: "put_at ws i x = Some ws' \<Longrightarrow> length ws' = length ws"
  by (auto simp: put_at_def split: if_splits)

subsection \<open>Sequences of calls that accumulate an error mask\<close>

text \<open>
  The idiom \<open>err |= f(); err |= g(); ...\<close>: every call is made whatever the earlier ones
  returned, and the masks are or-ed together.
\<close>

fun run_all :: "'st op list \<Rightarrow> 'st op" where
  "run_all [] st = Some (0, st)"
| "run_all (f # fs) st =
     do { (e, st) \<leftarrow> f st; (e', st) \<leftarrow> run_all fs st; Some (e OR e', st) }"

lemma run_all_append:
  "run_all (fs @ gs) st =
     do { (e, st) \<leftarrow> run_all fs st; (e', st) \<leftarrow> run_all gs st; Some (e OR e', st) }"
proof (induction fs arbitrary: st)
  case Nil
  show ?case by (cases "run_all gs st") auto
next
  case (Cons f fs)
  then show ?case
    by (cases "f st")
      (auto simp: or.assoc Cons split: Option.bind_splits)
qed

lemma or_zero_iff [err_simps]: "a OR b = 0 \<longleftrightarrow> a = 0 \<and> b = (0 :: 'a :: len word)"
proof
  assume "a OR b = 0"
  then have "\<And>n. \<not> (bit a n \<or> bit b n)"
    by (metis bit_0_eq bit_or_iff bot_apply bot_bool_def)
  then show "a = 0 \<and> b = 0"
    by (auto intro!: bit_word_eqI)
qed simp

text \<open>The idiom \<open>if((err = f())) return err; if((err = g())) return err; ...\<close>.\<close>

fun run_until_err :: "'st op list \<Rightarrow> 'st op" where
  "run_until_err [] st = Some (0, st)"
| "run_until_err (f # fs) st =
     do { (e, st) \<leftarrow> f st; (if e \<noteq> 0 then Some (e, st) else run_until_err fs st) }"

subsection \<open>Frame conditions\<close>

text \<open>
  \<open>keeps g f\<close>: whenever \<open>f\<close> returns, the part \<open>g\<close> of the state is what it was; \<open>keeps2\<close> is the same
  for operations that also return a value.
\<close>

definition keeps :: "('st \<Rightarrow> 'v) \<Rightarrow> ('st \<Rightarrow> ('e \<times> 'st) option) \<Rightarrow> bool" where
  "keeps g f \<longleftrightarrow> (\<forall>st e st'. f st = Some (e, st') \<longrightarrow> g st' = g st)"

definition keeps2 :: "('st \<Rightarrow> 'v) \<Rightarrow> ('st \<Rightarrow> ('e \<times> 'a \<times> 'st) option) \<Rightarrow> bool" where
  "keeps2 g f \<longleftrightarrow> (\<forall>st e x st'. f st = Some (e, x, st') \<longrightarrow> g st' = g st)"

lemma keepsI: "(\<And>st e st'. f st = Some (e, st') \<Longrightarrow> g st' = g st) \<Longrightarrow> keeps g f"
  by (simp add: keeps_def)

lemma keepsD: "keeps g f \<Longrightarrow> f st = Some (e, st') \<Longrightarrow> g st' = g st"
  by (simp add: keeps_def)

lemma keeps2I: "(\<And>st e x st'. f st = Some (e, x, st') \<Longrightarrow> g st' = g st) \<Longrightarrow> keeps2 g f"
  by (simp add: keeps2_def)

lemma keeps2D: "keeps2 g f \<Longrightarrow> f st = Some (e, x, st') \<Longrightarrow> g st' = g st"
  by (simp add: keeps2_def)

lemma keeps_run_all [keeps_intros]: "(\<And>f. f \<in> set fs \<Longrightarrow> keeps g f) \<Longrightarrow> keeps g (run_all fs)"
proof (induction fs)
  case Nil
  show ?case by (simp add: keeps_def)
next
  case (Cons f fs)
  then have "keeps g f" "keeps g (run_all fs)" by simp_all
  then show ?case
    by (auto simp: keeps_def split: Option.bind_splits)
qed

lemma keeps_run_until_err [keeps_intros]:
  "(\<And>f. f \<in> set fs \<Longrightarrow> keeps g f) \<Longrightarrow> keeps g (run_until_err fs)"
proof (induction fs)
  case Nil
  show ?case by (simp add: keeps_def)
next
  case (Cons f fs)
  then have "keeps g f" "keeps g (run_until_err fs)" by simp_all
  then show ?case
    by (auto simp: keeps_def split: Option.bind_splits if_splits)
qed

subsection \<open>Bits of word buffers\<close>

definition stream_bit :: "u32 list \<Rightarrow> nat \<Rightarrow> bool" where
  "stream_bit ws i \<longleftrightarrow> bit (ws ! (i div 32)) (i mod 32)"

definition stream_bits :: "u32 list \<Rightarrow> nat \<Rightarrow> bool list" where
  "stream_bits ws n = map (stream_bit ws) [0..<n]"

lemma length_stream_bits [simp]: "length (stream_bits ws n) = n"
  by (simp add: stream_bits_def)

lemma stream_bits_cong:
  "(\<And>i. i < n \<Longrightarrow> stream_bit ws i = stream_bit ws' i) \<Longrightarrow> stream_bits ws n = stream_bits ws' n"
  by (simp add: stream_bits_def)

lemma stream_bits_prefix:
  "n \<le> 32 * length ws \<Longrightarrow> stream_bits (ws @ ws') n = stream_bits ws n"
  by (rule stream_bits_cong) (auto simp: stream_bit_def nth_append less_mult_imp_div_less)

lemma stream_bits_single: "n \<le> 32 \<Longrightarrow> stream_bits (w # ws) n = map (bit w) [0..<n]"
  by (auto simp: stream_bits_def stream_bit_def)

subsection \<open>Bytes in memory, little endian\<close>

text \<open>
  The sources view byte buffers as arrays of uint32_t on a little-endian host. A last word that
  is only partly inside the buffer is completed with zero bytes.
\<close>

definition byte_of :: "u32 \<Rightarrow> nat \<Rightarrow> u8" where
  "byte_of w k = ucast (drop_bit (8 * k) w)"

definition word_of_bytes :: "u8 \<Rightarrow> u8 \<Rightarrow> u8 \<Rightarrow> u8 \<Rightarrow> u32" where
  "word_of_bytes b0 b1 b2 b3 =
     ucast b0 OR push_bit 8 (ucast b1) OR push_bit 16 (ucast b2) OR push_bit 24 (ucast b3)"

fun words_of_bytes :: "u8 list \<Rightarrow> u32 list" where
  "words_of_bytes (b0 # b1 # b2 # b3 # bs) = word_of_bytes b0 b1 b2 b3 # words_of_bytes bs"
| "words_of_bytes [] = []"
| "words_of_bytes [b0] = [word_of_bytes b0 0 0 0]"
| "words_of_bytes [b0, b1] = [word_of_bytes b0 b1 0 0]"
| "words_of_bytes [b0, b1, b2] = [word_of_bytes b0 b1 b2 0]"

fun bytes_of_words :: "u32 list \<Rightarrow> u8 list" where
  "bytes_of_words [] = []"
| "bytes_of_words (w # ws) = [byte_of w 0, byte_of w 1, byte_of w 2, byte_of w 3] @ bytes_of_words ws"

lemma bit_word_of_bytes:
  "bit (word_of_bytes b0 b1 b2 b3) n \<longleftrightarrow>
     (if n < 8 then bit b0 n else if n < 16 then bit b1 (n - 8)
      else if n < 24 then bit b2 (n - 16) else if n < 32 then bit b3 (n - 24) else False)"
  by (auto simp: word_of_bytes_def bit_or_iff bit_push_bit_iff bit_ucast_iff
      dest: bit_imp_le_length)

lemma byte_of_word_of_bytes [simp]:
  "byte_of (word_of_bytes b0 b1 b2 b3) 0 = b0"
  "byte_of (word_of_bytes b0 b1 b2 b3) 1 = b1"
  "byte_of (word_of_bytes b0 b1 b2 b3) (Suc 0) = b1"
  "byte_of (word_of_bytes b0 b1 b2 b3) 2 = b2"
  "byte_of (word_of_bytes b0 b1 b2 b3) 3 = b3"
  by (auto intro!: bit_word_eqI simp: byte_of_def bit_ucast_iff bit_drop_bit_eq bit_word_of_bytes)

lemma length_bytes_of_words [simp]: "length (bytes_of_words ws) = 4 * length ws"
  by (induction ws) auto

lemma length_words_of_bytes: "length (words_of_bytes bs) = (length bs + 3) div 4"
  by (induction bs rule: words_of_bytes.induct) auto

lemma bytes_of_words_of_bytes:
  "take (length bs) (bytes_of_words (words_of_bytes bs)) = bs"
  by (induction bs rule: words_of_bytes.induct) auto

subsection \<open>Character strings\<close>

text \<open>A C string literal as the bytes of its characters, without the terminating zero.\<close>

definition str :: "string \<Rightarrow> u8 list" where
  "str cs = map of_char cs"

lemma length_str [simp]: "length (str cs) = length cs"
  by (simp add: str_def)

text \<open>The C string that starts at the head of a buffer: the bytes before the first zero.\<close>

definition c_string :: "u8 list \<Rightarrow> u8 list" where
  "c_string bs = takeWhile (\<lambda>b. b \<noteq> 0) bs"

end
