(* ===== verification/Rsp_Codec.thy ===== *)
theory Rsp_Codec
  imports Prelude
begin

unbundle bit_operations_syntax

text \<open>
  rsp-server.c: the encodings of the remote serial protocol, as far as they do not touch the
  connection. Hexadecimal digits, registers and strings as hex digits, the escapes of binary data,
  the frame that \<open>put_packet\<close> builds, and the conversions of \<open>sscanf\<close> that the handlers use.

  A C string is the list of its characters without the terminating zero. The packet buffer
  \<open>char data[GDB_BUF_MAX]\<close> is a function from indices to bytes (\<open>buffer\<close>): every handler gets a
  pointer to the one static buffer, and the bytes behind a short packet are those of earlier packets.
\<close>

type_synonym buffer = "nat \<Rightarrow> u8"

definition GDB_BUF_MAX :: nat where "GDB_BUF_MAX = 16 * 1024"

definition hexchars :: "u8 list" where "hexchars = str ''0123456789abcdef''"

subsection \<open>Buffers\<close>

definition store_at :: "buffer \<Rightarrow> nat \<Rightarrow> u8 list \<Rightarrow> buffer" where
  "store_at d off bs = (\<lambda>i. if off \<le> i \<and> i < off + length bs then bs ! (i - off) else d i)"

definition slice_at :: "buffer \<Rightarrow> nat \<Rightarrow> nat \<Rightarrow> u8 list" where
  "slice_at d off n = map d [off..<off + n]"

text \<open>The C string that starts at an index, up to the end of the buffer at most.\<close>

function c_string_at :: "buffer \<Rightarrow> nat \<Rightarrow> u8 list" where
  "c_string_at d i = (if GDB_BUF_MAX \<le> i \<or> d i = 0 then [] else d i # c_string_at d (i + 1))"
  by pat_completeness auto
termination by (relation "measure (\<lambda>(d, i). GDB_BUF_MAX - i)") auto

declare c_string_at.simps [simp del]

subsection \<open>Hexadecimal digits\<close>

definition hex :: "int \<Rightarrow> int" where
  "hex c =
     (if c \<ge> 97 \<and> c \<le> 102 then c - 97 + 10
      else if c \<ge> 48 \<and> c \<le> 57 then c - 48
      else if c \<ge> 65 \<and> c \<le> 70 then c - 65 + 10 else -1)"

definition hexchar :: "'a :: len word \<Rightarrow> u8" where
  "hexchar nyb = hexchars ! unat (nyb AND 0xf)"

text \<open>\<open>reg2hex\<close> fills nine bytes: eight digits, the most significant first, and a zero.\<close>

definition reg2hex :: "u32 \<Rightarrow> u8 list" where
  "reg2hex val = map (\<lambda>n. hexchar (drop_bit (28 - n * 4) val)) [0..<8] @ [0]"

text \<open>
  \<open>hex\<close> gives -1 for a character that is no digit, and \<open>-1 << nyb_shift\<close> sets every bit from there on.
  Fewer than eight characters: the source reads what it has not been given.
\<close>

definition hex2reg :: "u8 list \<Rightarrow> u32 option" where
  "hex2reg buf =
     (if length buf < 8 then None
      else Some (foldl (\<lambda>val n. val OR push_bit (28 - n * 4) (word_of_int (hex (uint (buf ! n))))) 0 [0..<8]))"

definition ascii2hex :: "u8 list \<Rightarrow> u8 list" where
  "ascii2hex src = concat (map (\<lambda>ch. [hexchar (drop_bit 4 ch), hexchar ch]) src)"

definition nibble :: "u8 \<Rightarrow> u8" where
  "nibble ch = word_of_int (hex (uint ch)) AND 0xf"

fun hex2ascii :: "u8 list \<Rightarrow> u8 list" where
  "hex2ascii (h # l # src) = (push_bit 4 (nibble h) OR nibble l) # hex2ascii src"
| "hex2ascii src = []"

subsection \<open>Escapes\<close>

definition escaped :: "u8 \<Rightarrow> bool" where
  "escaped ch \<longleftrightarrow> ch = 0x24 \<or> ch = 0x23 \<or> ch = 0x2a \<or> ch = 0x7d"

text \<open>The body of a packet as \<open>put_packet\<close> sends it, and the checksum over the characters sent.\<close>

definition escape_char :: "u8 \<Rightarrow> u8 list" where
  "escape_char ch = (if escaped ch then [0x7d, ch XOR 0x20] else [ch])"

definition packet_body :: "u8 list \<Rightarrow> u8 list" where
  "packet_body bs = concat (map escape_char bs)"

definition packet_chars :: "u8 list \<Rightarrow> u8 list" where
  "packet_chars bs =
     (let body = packet_body bs; checksum = sum_list body in
      [0x24] @ body @ [0x23, hexchar (drop_bit 4 checksum), hexchar checksum])"

text \<open>
  \<open>rsp_unescape\<close> works in place, with one index for reading and one for writing, from the byte
  \<open>base\<close> of the buffer on. A \<open>}\<close> as the last character is completed by the byte behind the data.
\<close>

function unescape_loop :: "nat \<Rightarrow> nat \<Rightarrow> nat \<Rightarrow> nat \<Rightarrow> buffer \<Rightarrow> nat \<times> buffer" where
  "unescape_loop base len from_off to_off d =
     (if from_off < len
      then (if d (base + from_off) = 0x7d
            then unescape_loop base len (from_off + 2) (to_off + 1)
                   (d(base + to_off := d (base + (from_off + 1)) XOR 0x20))
            else unescape_loop base len (from_off + 1) (to_off + 1)
                   (d(base + to_off := d (base + from_off))))
      else (to_off, d))"
  by pat_completeness auto
termination by (relation "measure (\<lambda>(base, len, from_off, to_off, d). len - from_off)") auto

declare unescape_loop.simps [simp del]

definition rsp_unescape :: "nat \<Rightarrow> nat \<Rightarrow> buffer \<Rightarrow> nat \<times> buffer" where
  "rsp_unescape base len d = unescape_loop base len 0 0 d"

subsection \<open>Conversions of sscanf\<close>

text \<open>
  Each conversion takes the characters that are left and returns the value and what is left then, or
  fails. A number that does not fit saturates, as \<open>strtoul\<close> does; a minus sign negates modulo $2^{32}$.
\<close>

definition isspace :: "u8 \<Rightarrow> bool" where
  "isspace ch \<longleftrightarrow> ch = 0x20 \<or> (0x09 \<le> ch \<and> ch \<le> 0x0d)"

definition skip_space :: "u8 list \<Rightarrow> u8 list" where
  "skip_space cs = dropWhile isspace cs"

fun scan_char :: "u8 \<Rightarrow> u8 list \<Rightarrow> u8 list option" where
  "scan_char ch (x # cs) = (if x = ch then Some cs else None)"
| "scan_char ch [] = None"

definition scan_string :: "string \<Rightarrow> u8 list \<Rightarrow> u8 list option" where
  "scan_string lit cs = (if take (length lit) cs = str lit then Some (drop (length lit) cs) else None)"

definition ishex :: "u8 \<Rightarrow> bool" where
  "ishex ch \<longleftrightarrow> hex (uint ch) \<noteq> -1"

definition hex_value :: "u8 list \<Rightarrow> nat" where
  "hex_value ds = foldl (\<lambda>v d. v * 16 + nat (hex (uint d))) 0 ds"

fun scan_sign :: "nat \<Rightarrow> u8 list \<Rightarrow> bool \<times> nat \<times> u8 list" where
  "scan_sign (Suc w) (ch # cs) =
     (if ch = 0x2d then (True, w, cs) else if ch = 0x2b then (False, w, cs) else (False, Suc w, ch # cs))"
| "scan_sign w cs = (False, w, cs)"

fun scan_prefix :: "nat \<Rightarrow> u8 list \<Rightarrow> nat \<times> u8 list" where
  "scan_prefix w (z # x # cs) =
     (if 2 \<le> w \<and> z = 0x30 \<and> (x = 0x78 \<or> x = 0x58) then (w - 2, cs) else (w, z # x # cs))"
| "scan_prefix w cs = (w, cs)"

definition scan_hex_width :: "nat \<Rightarrow> u8 list \<Rightarrow> (u32 \<times> u8 list) option" where
  "scan_hex_width w cs =
     (let (neg, w, cs) = scan_sign w (skip_space cs);
          (w, cs) = scan_prefix w cs;
          ds = takeWhile ishex (take w cs);
          v = hex_value ds
      in if ds = [] then None
         else Some (if v > 0xFFFFFFFF then 0xFFFFFFFF else if neg then - of_nat v else of_nat v,
                    drop (length ds) cs))"

definition scan_hex :: "u8 list \<Rightarrow> (u32 \<times> u8 list) option" where
  "scan_hex cs = scan_hex_width (length cs) cs"

text \<open>\<open>%1d\<close>: one character, so a sign leaves no room for a digit.\<close>

definition scan_digit :: "u8 list \<Rightarrow> (int \<times> u8 list) option" where
  "scan_digit cs =
     (case skip_space cs of
        [] \<Rightarrow> None
      | ch # cs \<Rightarrow> if 0x30 \<le> ch \<and> ch \<le> 0x39 then Some (uint ch - 48, cs) else None)"

text \<open>\<open>%8s\<close>: up to eight characters that are not white space, and the terminating zero.\<close>

definition scan_word8 :: "u8 list \<Rightarrow> u8 list option" where
  "scan_word8 cs =
     (let s = takeWhile (\<lambda>ch. \<not> isspace ch) (take 8 (skip_space cs)) in
      if s = [] then None else Some (s @ [0]))"


subsection \<open>Facts about buffers\<close>

lemma length_slice_at [simp]: "length (slice_at d off n) = n"
  by (simp add: slice_at_def)

lemma nth_slice_at [simp]: "i < n \<Longrightarrow> slice_at d off n ! i = d (off + i)"
  by (simp add: slice_at_def)

lemma slice_at_Suc: "slice_at d off (Suc n) = d off # slice_at d (Suc off) n"
  by (simp add: slice_at_def upt_conv_Cons del: upt_Suc)

lemma slice_at_eqI: "(\<And>i. i < n \<Longrightarrow> d (off + i) = bs ! i) \<Longrightarrow> length bs = n \<Longrightarrow> slice_at d off n = bs"
  by (auto intro: nth_equalityI)

lemma slice_store_at [simp]: "slice_at (store_at d off bs) off (length bs) = bs"
  by (rule slice_at_eqI) (auto simp: store_at_def)

lemma slice_at_cong:
  "(\<And>i. off \<le> i \<Longrightarrow> i < off + n \<Longrightarrow> d i = d' i) \<Longrightarrow> slice_at d off n = slice_at d' off n"
  by (simp add: slice_at_def)

lemma c_string_at_slice:
  "d (off + n) = 0 \<Longrightarrow> 0 \<notin> set (slice_at d off n) \<Longrightarrow> off + n < GDB_BUF_MAX \<Longrightarrow>
     c_string_at d off = slice_at d off n"
proof (induction n arbitrary: off)
  case 0
  then show ?case by (simp add: c_string_at.simps slice_at_def)
next
  case (Suc n)
  from Suc.prems have "d off \<noteq> 0" "0 \<notin> set (slice_at d (Suc off) n)"
    by (auto simp: slice_at_Suc)
  with Suc.prems Suc.IH [of "Suc off"] show ?case
    by (subst c_string_at.simps) (simp add: slice_at_Suc)
qed

lemma c_string_at_nonzero: "0 \<notin> set (c_string_at d i)"
  by (induction d i rule: c_string_at.induct) (subst c_string_at.simps, auto)

subsection \<open>Hexadecimal round trips\<close>

lemma hex_hexchars: "k < 16 \<Longrightarrow> hex (uint (hexchars ! k)) = int k"
proof -
  have "list_all (\<lambda>k. hex (uint (hexchars ! k)) = int k) [0..<16]" by code_simp
  then show "k < 16 \<Longrightarrow> ?thesis" by (auto simp: list_all_iff)
qed

lemma and_15_take_bit: "w AND 15 = take_bit 4 w" for w :: "'a :: len word"
  by (simp add: take_bit_eq_mask mask_eq_exp_minus_1)

lemma unat_take_bit_4: "unat (take_bit 4 w :: 'a :: len word) < 16"
  by (simp add: unsigned_take_bit_eq) (simp add: take_bit_eq_mod)

lemma hex_hexchar [simp]: "hex (uint (hexchar w)) = uint (take_bit 4 w)"
  by (simp add: hexchar_def and_15_take_bit hex_hexchars unat_take_bit_4)

lemma nibble_hexchar [simp]: "nibble (hexchar w) = take_bit 4 w" for w :: u8
  by (simp add: nibble_def and_15_take_bit)

lemma reg2hex_Cons:
  "reg2hex val =
     [hexchar (drop_bit 28 val), hexchar (drop_bit 24 val), hexchar (drop_bit 20 val),
      hexchar (drop_bit 16 val), hexchar (drop_bit 12 val), hexchar (drop_bit 8 val),
      hexchar (drop_bit 4 val), hexchar val, 0]"
  by (simp add: reg2hex_def upt_rec)

lemma length_reg2hex [simp]: "length (reg2hex val) = 9"
  by (simp add: reg2hex_def)

lemma bit_nibble [simp]:
  "bit (push_bit s (take_bit 4 (drop_bit s w))) k \<longleftrightarrow> s \<le> k \<and> k < s + 4 \<and> bit w k"
  for w :: "'a :: len word"
  by (auto simp: bit_push_bit_iff bit_take_bit_iff bit_drop_bit_eq dest: bit_imp_le_length)

lemma nibbles_of_word:
  "0 OR push_bit 28 (take_bit 4 (drop_bit 28 w)) OR push_bit 24 (take_bit 4 (drop_bit 24 w))
     OR push_bit 20 (take_bit 4 (drop_bit 20 w)) OR push_bit 16 (take_bit 4 (drop_bit 16 w))
     OR push_bit 12 (take_bit 4 (drop_bit 12 w)) OR push_bit 8 (take_bit 4 (drop_bit 8 w))
     OR push_bit 4 (take_bit 4 (drop_bit 4 w)) OR push_bit 0 (take_bit 4 w) = w" (is "?v = w")
  for w :: u32
proof (rule bit_word_eqI)
  fix k assume "k < LENGTH(32)"
  then have "k \<ge> 28 \<or> 24 \<le> k \<and> k < 28 \<or> 20 \<le> k \<and> k < 24 \<or> 16 \<le> k \<and> k < 20 \<or>
      12 \<le> k \<and> k < 16 \<or> 8 \<le> k \<and> k < 12 \<or> 4 \<le> k \<and> k < 8 \<or> k < 4" by auto
  with \<open>k < LENGTH(32)\<close> show "bit ?v k = bit w k"
    unfolding bit_or_iff bit_nibble by (elim disjE) (auto simp: bit_take_bit_iff)
qed

lemma hex2reg_reg2hex: "hex2reg (reg2hex val @ rest) = Some val"
proof -
  have "[0..<8] = [0, 1, 2, 3, 4, 5, 6, 7 :: nat]" by (simp add: upt_rec)
  then show ?thesis
    using nibbles_of_word [of val] by (simp add: hex2reg_def reg2hex_Cons or.assoc)
qed

lemma hex_pair: "push_bit 4 (take_bit 4 (drop_bit 4 ch)) OR take_bit 4 ch = ch" for ch :: u8
proof (rule bit_word_eqI)
  fix n assume "n < LENGTH(8)"
  then show "bit (push_bit 4 (take_bit 4 (drop_bit 4 ch)) OR take_bit 4 ch) n = bit ch n"
    unfolding bit_or_iff bit_nibble by (auto simp: bit_take_bit_iff)
qed

lemma hex2ascii_ascii2hex: "hex2ascii (ascii2hex src) = src"
  by (induction src) (simp_all add: ascii2hex_def hex_pair)

subsection \<open>Escapes are undone\<close>

lemma escaped_char:
  "escaped ch \<Longrightarrow> ch XOR 0x20 \<noteq> 0x24 \<and> ch XOR 0x20 \<noteq> 0x23 \<and> ch XOR 0x20 \<noteq> 0x7d"
  by (auto simp: escaped_def)

lemma xor_twice [simp]: "(ch XOR k) XOR k = ch" for ch :: "'a :: len word"
  by (simp add: xor.assoc)

lemma packet_body_simps [simp]:
  "packet_body [] = []"
  "packet_body (b # bs) = escape_char b @ packet_body bs"
  by (simp_all add: packet_body_def)

lemma packet_body_plain: "ch \<in> set (packet_body bs) \<Longrightarrow> ch \<noteq> 0x24 \<and> ch \<noteq> 0x23"
  by (induction bs) (auto simp: escape_char_def dest: escaped_char split: if_splits, auto simp: escaped_def)

lemma packet_body_id: "(\<And>b. b \<in> set bs \<Longrightarrow> \<not> escaped b) \<Longrightarrow> packet_body bs = bs"
  by (induction bs) (auto simp: escape_char_def)


text \<open>
  The loop, started anywhere in escaped data: it leaves the plain data at the write index, returns
  where that ends, and changes nothing before the write index or behind the data.
\<close>

lemma unescape_loop_body:
  assumes "slice_at d (base + from_off) (length (packet_body bs)) = packet_body bs"
    and "to_off \<le> from_off" "len = from_off + length (packet_body bs)"
  shows "\<exists>d'. unescape_loop base len from_off to_off d = (to_off + length bs, d')
     \<and> slice_at d' (base + to_off) (length bs) = bs
     \<and> (\<forall>i. i < base + to_off \<or> base + len \<le> i \<longrightarrow> d' i = d i)"
  using assms
proof (induction bs arbitrary: from_off to_off d)
  case Nil
  then show ?case by (simp add: unescape_loop.simps slice_at_def)
next
  case (Cons b bs)
  let ?k = "length (escape_char b)"
  define d1 where "d1 = d(base + to_off := b)"
  have first: "unescape_loop base len from_off to_off d = unescape_loop base len (from_off + ?k) (to_off + 1) d1"
  proof (cases "escaped b")
    case True
    with Cons.prems(1) have "d (base + from_off) = 0x7d" "d (base + Suc from_off) = b XOR 0x20"
      by (simp_all add: escape_char_def slice_at_Suc)
    moreover have "?k = 2" using True by (simp add: escape_char_def)
    moreover have "from_off < len" using Cons.prems(3) \<open>?k = 2\<close> by simp
    ultimately show ?thesis by (subst unescape_loop.simps) (simp add: d1_def)
  next
    case False
    with Cons.prems(1) have "d (base + from_off) = b" by (simp add: escape_char_def slice_at_Suc)
    moreover have "b \<noteq> 0x7d" using False by (simp add: escaped_def)
    moreover have "?k = 1" using False by (simp add: escape_char_def)
    moreover have "from_off < len" using Cons.prems(3) \<open>?k = 1\<close> by simp
    ultimately show ?thesis by (subst unescape_loop.simps) (simp add: d1_def)
  qed
  have k: "?k \<ge> 1" by (simp add: escape_char_def)
  have src: "slice_at d1 (base + (from_off + ?k)) (length (packet_body bs)) = packet_body bs"
  proof (rule slice_at_eqI)
    fix i assume i: "i < length (packet_body bs)"
    have "slice_at d (base + from_off) (?k + length (packet_body bs)) ! (?k + i) = packet_body bs ! i"
      using Cons.prems(1) by simp
    with i k Cons.prems(2) show "d1 (base + (from_off + ?k) + i) = packet_body bs ! i"
      by (simp add: d1_def add.assoc)
  qed simp
  have "to_off + 1 \<le> from_off + ?k" "len = from_off + ?k + length (packet_body bs)"
    using k Cons.prems(2,3) by simp_all
  from Cons.IH [OF src this] obtain d' where d':
    "unescape_loop base len (from_off + ?k) (to_off + 1) d1 = (to_off + 1 + length bs, d')"
    "slice_at d' (base + (to_off + 1)) (length bs) = bs"
    "\<forall>i. i < base + (to_off + 1) \<or> base + len \<le> i \<longrightarrow> d' i = d1 i"
    by blast
  from d'(3) have "d' (base + to_off) = b" by (simp add: d1_def)
  with d'(2) have "slice_at d' (base + to_off) (length (b # bs)) = b # bs"
    by (simp add: slice_at_Suc)
  moreover have "\<forall>i. i < base + to_off \<or> base + len \<le> i \<longrightarrow> d' i = d i"
    using d'(3) k Cons.prems(2,3) by (auto simp: d1_def)
  ultimately show ?case using first d'(1) by simp
qed

text \<open>
  C12. Escaping and unescaping binary data. When the buffer holds, from the byte \<open>base\<close> on, the body
  \<open>put_packet\<close> would send for \<open>bs\<close>, the in-place loop of \<open>rsp_unescape\<close> returns the number of plain
  bytes, leaves exactly \<open>bs\<close> there, and changes nothing in front of the data or behind it.
\<close>

theorem rsp_unescape_body:
  assumes "slice_at d base (length (packet_body bs)) = packet_body bs"
  shows "\<exists>d'. rsp_unescape base (length (packet_body bs)) d = (length bs, d')
     \<and> slice_at d' base (length bs) = bs
     \<and> (\<forall>i. i < base \<or> base + length (packet_body bs) \<le> i \<longrightarrow> d' i = d i)"
  using unescape_loop_body [of d base 0 bs 0 "length (packet_body bs)"] assms
  by (simp add: rsp_unescape_def)

theorem rsp_unescape_body_witness:
  "\<exists>d'. rsp_unescape 1 3 (store_at (\<lambda>_. 0) 1 [0x41, 0x7d, 0x5d]) = (2, d')
     \<and> slice_at d' 1 2 = [0x41, 0x7d] \<and> (\<forall>i. i < 1 \<or> 1 + 3 \<le> i \<longrightarrow> d' i = 0)"
proof -
  have body: "packet_body [0x41, 0x7d] = [0x41, 0x7d, 0x5d]" by code_simp
  have zero: "i < 1 \<or> 1 + 3 \<le> i \<Longrightarrow> store_at (\<lambda>_. 0) 1 [0x41, 0x7d, 0x5d] i = 0" for i
    by (auto simp: store_at_def)
  have "slice_at (store_at (\<lambda>_. 0) 1 [0x41, 0x7d, 0x5d]) 1 3 = [0x41, 0x7d, 0x5d]"
    by (simp add: slice_at_def store_at_def numeral_eq_Suc)
  with rsp_unescape_body [of "store_at (\<lambda>_. 0) 1 [0x41, 0x7d, 0x5d]" 1 "[0x41, 0x7d]", unfolded body]
  show ?thesis using zero by (simp only: list.size) (auto simp: numeral_eq_Suc)
qed

subsection \<open>Numbers printed and scanned again\<close>

lemma ishex_hexchar [simp]: "ishex (hexchar w)"
proof -
  have "0 \<le> uint (take_bit 4 w)" by simp
  then show ?thesis unfolding ishex_def hex_hexchar by linarith
qed

lemma hexchar_plain: "hexchar w \<noteq> 0x2d \<and> hexchar w \<noteq> 0x2b \<and> hexchar w \<noteq> 0x78 \<and> hexchar w \<noteq> 0x58
    \<and> \<not> isspace (hexchar w) \<and> \<not> escaped (hexchar w) \<and> hexchar w \<noteq> 0"
proof -
  have "list_all (\<lambda>ch. ch \<noteq> 0x2d \<and> ch \<noteq> 0x2b \<and> ch \<noteq> 0x78 \<and> ch \<noteq> 0x58 \<and> \<not> isspace ch \<and> \<not> escaped ch \<and> ch \<noteq> 0)
      hexchars" by code_simp
  moreover have "hexchar w \<in> set hexchars"
    using unat_take_bit_4 [of w] by (simp add: hexchar_def and_15_take_bit hexchars_def)
  ultimately show ?thesis by (auto simp: list_all_iff)
qed


lemma scan_hex_digits:
  assumes "ds \<noteq> []" "\<And>d. d \<in> set ds \<Longrightarrow> \<exists>w :: u32. d = hexchar w"
    and "rest = [] \<or> \<not> ishex (hd rest) \<and> hd rest \<noteq> 0x78 \<and> hd rest \<noteq> 0x58"
    and "hex_value ds \<le> 0xFFFFFFFF"
  shows "scan_hex (ds @ rest) = Some (of_nat (hex_value ds), rest)"
proof -
  obtain d ds' where ds: "ds = d # ds'" using assms(1) by (cases ds) auto
  obtain w :: u32 where d: "d = hexchar w" using assms(2) ds by auto
  have skip: "skip_space (ds @ rest) = ds @ rest"
    using hexchar_plain [of w] by (simp add: skip_space_def ds d)
  have sign: "scan_sign (length (ds @ rest)) (ds @ rest) = (False, length (ds @ rest), ds @ rest)"
    using hexchar_plain [of w] by (simp add: ds d)
  have pre: "scan_prefix (length (ds @ rest)) (ds @ rest) = (length (ds @ rest), ds @ rest)"
  proof (cases ds')
    case Nil
    then show ?thesis using assms(3) by (cases rest) (auto simp: ds)
  next
    case (Cons e ds'')
    with assms(2) ds obtain v :: u32 where "e = hexchar v" by auto
    then show ?thesis using hexchar_plain [of v] by (simp add: ds Cons)
  qed
  have "\<forall>d \<in> set ds. ishex d" using assms(2) ishex_hexchar by blast
  then have tw: "takeWhile ishex (ds @ rest) = ds"
    using assms(3) by (cases rest) (auto simp: takeWhile_append2)
  show ?thesis
    unfolding scan_hex_def scan_hex_width_def skip sign pre Let_def split
    using assms(1,4) by (simp add: tw)
qed

text \<open>The value of the digits of \<open>reg2hex\<close>.\<close>

lemma hex_value_reg2hex: "hex_value (take 8 (reg2hex val)) = unat val"
proof -
  have digit: "unat (take_bit 4 (drop_bit s val)) = unat val div 2 ^ s mod 16" for s
    using unsigned_less [of val, where ?'a = nat]
    by (simp only: unsigned_take_bit_eq unsigned_drop_bit_eq)
      (simp add: take_bit_nat_eq_self, simp add: take_bit_eq_mod drop_bit_eq_div)
  have digit0: "unat (take_bit 4 val) = unat val mod 16" using digit [of 0] by simp
  have step: "N div (m * 16) * 16 + N div m mod 16 = N div m" for N m :: nat
    by (simp add: div_mult2_eq)
  have top: "unat val div 268435456 mod 16 = unat val div 268435456"
    using unsigned_less [of val, where ?'a = nat] by simp
  note steps = step [of "unat val" 1] step [of "unat val" 16] step [of "unat val" 256]
    step [of "unat val" 4096] step [of "unat val" 65536] step [of "unat val" 1048576]
    step [of "unat val" 16777216]
  have "hex_value (take 8 (reg2hex val)) =
      ((((((unat val div 268435456 * 16 + unat val div 16777216 mod 16) * 16
        + unat val div 1048576 mod 16) * 16 + unat val div 65536 mod 16) * 16
        + unat val div 4096 mod 16) * 16 + unat val div 256 mod 16) * 16 + unat val div 16 mod 16) * 16
        + unat val mod 16"
    using top by (simp add: hex_value_def reg2hex_Cons digit digit0)
  also have "\<dots> = unat val" using steps by simp
  finally show ?thesis .
qed

text \<open>A number as a peer writes it: lower-case digits, with or without leading zeros.\<close>

definition hexnum :: "u8 list \<Rightarrow> u32 \<Rightarrow> bool" where
  "hexnum ds v \<longleftrightarrow> ds \<noteq> [] \<and> set ds \<subseteq> set hexchars \<and> hex_value ds = unat v"

lemma hexchars_hexchar: "d \<in> set hexchars \<Longrightarrow> \<exists>w :: u32. d = hexchar w"
proof -
  assume "d \<in> set hexchars"
  moreover have "length hexchars = 16" by code_simp
  ultimately obtain k where k: "k < 16" "d = hexchars ! k"
    by (metis in_set_conv_nth)
  then have "unat (take_bit 4 (of_nat k :: u32)) = k"
    by (simp add: unsigned_take_bit_eq unsigned_of_nat take_bit_nat_eq_self)
  with k have "d = hexchar (of_nat k :: u32)" by (simp add: hexchar_def and_15_take_bit)
  then show ?thesis by blast
qed

lemma scan_hexnum:
  assumes "hexnum ds v" "rest = [] \<or> \<not> ishex (hd rest) \<and> hd rest \<noteq> 0x78 \<and> hd rest \<noteq> 0x58"
  shows "scan_hex (ds @ rest) = Some (v, rest)"
proof -
  have "\<exists>w :: u32. d = hexchar w" if "d \<in> set ds" for d
    using assms(1) that hexchars_hexchar by (auto simp: hexnum_def)
  then show ?thesis
    using scan_hex_digits [of ds rest] assms unsigned_less [of v, where ?'a = nat] by (simp add: hexnum_def)
qed

lemma hexchar_in_hexchars: "hexchar w \<in> set hexchars"
  using unat_take_bit_4 [of w] by (simp add: hexchar_def and_15_take_bit hexchars_def)

lemma hexnum_reg2hex: "hexnum (take 8 (reg2hex v)) v"
  unfolding hexnum_def hex_value_reg2hex by (simp add: reg2hex_Cons hexchar_in_hexchars)

lemma hexnum_chars: "hexnum ds v \<Longrightarrow> d \<in> set ds \<Longrightarrow> d \<noteq> 0 \<and> d \<noteq> 0x3a \<and> \<not> escaped d"
proof -
  have "list_all (\<lambda>d. d \<noteq> 0 \<and> d \<noteq> 0x3a \<and> \<not> escaped d) hexchars" by code_simp
  then show "hexnum ds v \<Longrightarrow> d \<in> set ds \<Longrightarrow> ?thesis" by (auto simp: hexnum_def list_all_iff)
qed

text \<open>
  Hexadecimal numbers in packets. The eight digits \<open>reg2hex\<close> prints for a 32-bit value are read
  back by \<open>hex2reg\<close>; any spelling of the value in lower-case digits is read back by the conversion
  \<open>%x\<close> of the request parsers, whatever follows that is not itself a digit (or an \<open>x\<close>); and ASCII
  text turned into digit pairs by \<open>ascii2hex\<close> is what \<open>hex2ascii\<close> makes of them.
\<close>

theorem hex_roundtrip:
  "hex2reg (reg2hex val) = Some val
   \<and> (hexnum ds val \<and> (rest = [] \<or> \<not> ishex (hd rest) \<and> hd rest \<noteq> 0x78 \<and> hd rest \<noteq> 0x58) \<longrightarrow>
        scan_hex (ds @ rest) = Some (val, rest))
   \<and> hex2ascii (ascii2hex txt) = txt"
  using hex2reg_reg2hex [of val "[]"] hex2ascii_ascii2hex scan_hexnum by simp

theorem hex_roundtrip_witness:
  "scan_hex (str ''3e8,4'') = Some (1000, str '',4'')"
proof -
  have "hexnum (str ''3e8'') 1000 \<and> \<not> ishex (hd (str '',4'')) \<and> hd (str '',4'') \<noteq> 0x78 \<and> hd (str '',4'') \<noteq> 0x58"
    by (simp only: hexnum_def) code_simp
  then show ?thesis using hex_roundtrip [of 1000 "str ''3e8''" "str '',4''" "[]"] by (simp add: str_def)
qed

end
