(* ===== verification/C_Strings.thy ===== *)
theory C_Strings
  imports Rsp_Codec
begin

unbundle bit_operations_syntax

text \<open>
  The functions of string.h, ctype.h and stdlib.h that the BSDL reader and the main program use. A
  \<open>char *\<close> to a string is the list of the characters from there to the terminating zero; a null pointer
  is \<open>None\<close>. Characters are classified as in the C locale.
\<close>

definition isdigit :: "u8 \<Rightarrow> bool" where
  "isdigit ch \<longleftrightarrow> 0x30 \<le> ch \<and> ch \<le> 0x39"

definition iscntrl :: "u8 \<Rightarrow> bool" where
  "iscntrl ch \<longleftrightarrow> ch < 0x20 \<or> ch = 0x7f"

definition toupper :: "u8 \<Rightarrow> u8" where
  "toupper ch = (if 0x61 \<le> ch \<and> ch \<le> 0x7a then ch - 0x20 else ch)"

definition strtoupper :: "u8 list \<Rightarrow> u8 list" where
  "strtoupper s = map toupper s"

fun strchr :: "u8 \<Rightarrow> u8 list \<Rightarrow> u8 list option" where
  "strchr ch [] = None"
| "strchr ch (x # s) = (if x = ch then Some (x # s) else strchr ch s)"

fun strrchr :: "u8 \<Rightarrow> u8 list \<Rightarrow> u8 list option" where
  "strrchr ch [] = None"
| "strrchr ch (x # s) = (case strrchr ch s of Some t \<Rightarrow> Some t | None \<Rightarrow> if x = ch then Some (x # s) else None)"

fun strstr :: "u8 list \<Rightarrow> u8 list \<Rightarrow> u8 list option" where
  "strstr pat [] = (if pat = [] then Some [] else None)"
| "strstr pat (x # s) = (if take (length pat) (x # s) = pat then Some (x # s) else strstr pat s)"

text \<open>The first character of \<open>s\<close> that is one of \<open>chars\<close>: \<open>strchr_s\<close> of bsdl_parse.c.\<close>

fun strchr_s :: "u8 list \<Rightarrow> u8 list \<Rightarrow> u8 list option" where
  "strchr_s chars [] = None"
| "strchr_s chars (x # s) = (if x \<in> set chars then Some (x # s) else strchr_s chars s)"

text \<open>One call of \<open>strtok_r\<close>: the token, and what \<open>saveptr\<close> points to afterwards.\<close>

definition strtok :: "u8 list \<Rightarrow> u8 list \<Rightarrow> u8 list option \<times> u8 list" where
  "strtok delims s =
     (let t = dropWhile (\<lambda>ch. ch \<in> set delims) s in
      if t = [] then (None, [])
      else (Some (takeWhile (\<lambda>ch. ch \<notin> set delims) t), drop 1 (dropWhile (\<lambda>ch. ch \<notin> set delims) t)))"

text \<open>\<open>strtoul\<close> with \<open>unsigned long\<close> of 32 bits: white space, a sign, a prefix, digits; it saturates.\<close>

definition digit_value :: "u8 \<Rightarrow> nat" where
  "digit_value ch =
     (if isdigit ch then unat ch - 48
      else if 0x61 \<le> toupper ch + 0x20 \<and> toupper ch + 0x20 \<le> 0x7a then unat (toupper ch) - 55
      else 36)"

fun strtoul_prefix :: "nat \<Rightarrow> u8 list \<Rightarrow> nat \<times> u8 list" where
  "strtoul_prefix base (z # x # d # s) =
     (if (base = 0 \<or> base = 16) \<and> z = 0x30 \<and> toupper x = 0x58 \<and> digit_value d < 16 then (16, d # s)
      else if base = 0 then (if z = 0x30 then 8 else 10, z # x # d # s)
      else (base, z # x # d # s))"
| "strtoul_prefix base s =
     (if base = 0 then (case s of z # _ \<Rightarrow> (if z = 0x30 then 8 else 10) | [] \<Rightarrow> 10, s) else (base, s))"

definition digits_value :: "nat \<Rightarrow> u8 list \<Rightarrow> int" where
  "digits_value base ds = foldl (\<lambda>v d. v * int base + int (digit_value d)) 0 ds"

definition strtoul :: "nat \<Rightarrow> u8 list \<Rightarrow> u32" where
  "strtoul base s =
     (let (neg, _, s) = scan_sign (length s) (skip_space s);
          (base, s) = strtoul_prefix base s;
          v = digits_value base (takeWhile (\<lambda>d. digit_value d < base) s)
      in if v > 0xFFFFFFFF then 0xFFFFFFFF else if neg then - of_int v else of_int v)"

text \<open>\<open>strtol\<close> in base ten: the value, and what \<open>endptr\<close> points to; the whole string if there is no digit.\<close>

definition strtol10 :: "u8 list \<Rightarrow> int \<times> u8 list" where
  "strtol10 s0 =
     (let (neg, _, s) = scan_sign (length s0) (skip_space s0);
          ds = takeWhile isdigit s;
          v = digits_value 10 ds
      in if ds = [] then (0, s0)
         else (if neg then max (- (2 ^ 31)) (- v) else min (2 ^ 31 - 1) v, drop (length ds) s))"

subsection \<open>Facts\<close>

lemma length_strtoupper [simp]: "length (strtoupper s) = length s"
  by (simp add: strtoupper_def)

lemma strtoupper_append [simp]: "strtoupper (s @ t) = strtoupper s @ strtoupper t"
  by (simp add: strtoupper_def)

lemma strchr_append [simp]: "ch \<notin> set s \<Longrightarrow> strchr ch (s @ t) = strchr ch t"
  by (induction s) auto

lemma strchr_None_iff: "strchr ch s = None \<longleftrightarrow> ch \<notin> set s"
  by (induction s) auto

lemma strchr_SomeD: "strchr ch s = Some t \<Longrightarrow> \<exists>u. s = u @ t \<and> hd t = ch \<and> t \<noteq> []"
proof (induction s)
  case (Cons x s)
  then show ?case by (cases "x = ch") (auto simp: Cons_eq_append_conv)
qed simp

lemma strstr_SomeD: "strstr pat s = Some t \<Longrightarrow> \<exists>u. s = u @ t \<and> take (length pat) t = pat"
proof (induction s)
  case (Cons x s)
  then show ?case
    by (cases "take (length pat) (x # s) = pat") (auto simp: Cons_eq_append_conv)
qed (auto split: if_splits)

lemma strchr_s_SomeD: "strchr_s chars s = Some t \<Longrightarrow> \<exists>u. s = u @ t \<and> t \<noteq> [] \<and> hd t \<in> set chars"
proof (induction s)
  case (Cons x s)
  then show ?case by (cases "x \<in> set chars") (auto simp: Cons_eq_append_conv)
qed simp

lemma strtok_rest: "strtok delims s = (Some tok, rest) \<Longrightarrow> length rest < length s"
proof -
  assume tok: "strtok delims s = (Some tok, rest)"
  let ?t = "dropWhile (\<lambda>ch. ch \<in> set delims) s"
  have ne: "?t \<noteq> []" and rest: "rest = drop 1 (dropWhile (\<lambda>ch. ch \<notin> set delims) ?t)"
    using tok by (auto simp: strtok_def Let_def split: if_splits)
  have "hd ?t \<notin> set delims" using ne hd_dropWhile [of "\<lambda>ch. ch \<in> set delims" s] by simp
  with ne have "length (dropWhile (\<lambda>ch. ch \<notin> set delims) ?t) < length ?t"
    by (cases ?t) (auto simp: le_imp_less_Suc length_dropWhile_le)
  then show ?thesis using rest length_dropWhile_le [of "\<lambda>ch. ch \<in> set delims" s] by simp
qed

lemma dropWhile_none: "(\<And>ch. ch \<in> set w \<Longrightarrow> \<not> P ch) \<Longrightarrow> dropWhile P w = w"
  by (cases w) auto

lemma takeWhile_all: "(\<And>ch. ch \<in> set w \<Longrightarrow> P ch) \<Longrightarrow> takeWhile P w = w"
  by (simp add: takeWhile_eq_all_conv)

lemma dropWhile_all: "(\<And>ch. ch \<in> set w \<Longrightarrow> P ch) \<Longrightarrow> dropWhile P w = []"
  by simp

text \<open>A token and the delimiter behind it.\<close>

lemma strtok_word:
  assumes "w \<noteq> []" "\<And>ch. ch \<in> set w \<Longrightarrow> ch \<notin> set delims" "d \<in> set delims" "set ds \<subseteq> set delims"
  shows "strtok delims (ds @ w @ d # s) = (Some w, s)" "strtok delims (ds @ w) = (Some w, [])"
proof -
  have skip: "dropWhile (\<lambda>ch. ch \<in> set delims) (ds @ w @ u) = w @ u" for u
    using assms(1,2,4) by (cases w) (auto simp: dropWhile_append2 subset_iff)
  have "dropWhile (\<lambda>ch. ch \<notin> set delims) (w @ d # s) = d # s"
    "takeWhile (\<lambda>ch. ch \<notin> set delims) (w @ d # s) = w"
    using assms(2,3) by (auto simp: dropWhile_append2 takeWhile_append2)
  with skip [of "d # s"] assms(1) show "strtok delims (ds @ w @ d # s) = (Some w, s)"
    by (simp add: strtok_def)
  show "strtok delims (ds @ w) = (Some w, [])"
    using skip [of "[]"] assms(1,2) by (simp add: strtok_def takeWhile_all dropWhile_all)
qed

end
