(* ===== verification/Bsdl_Parse.thy ===== *)
theory Bsdl_Parse
  imports C_Strings
begin

unbundle bit_operations_syntax

text \<open>
  bsdl_parse.c: reading a device description. The position in the file is represented by the
  characters from there to the end, so \<open>filesize - filepos\<close> is its length. \<open>get_line\<close> writes zeros into
  the file behind the line it returns, where nothing is read again, so a line is a string of its own.
  The loops that ask for more lines until they find something do not end when the file does; \<open>None\<close>
  is that, too.
\<close>

definition TAP_CMD_INVALID :: u32 where "TAP_CMD_INVALID = 0xFFFFFFFF"
definition IDCODE_INVALID :: u32 where "IDCODE_INVALID = 0xFFFFFFFF"
definition TMPBUF_SIZE :: nat where "TMPBUF_SIZE = 128"

record bsdlinfo =
  bi_name :: "u8 list option"
  bi_idcode :: u32
  bi_idcode_mask :: u32
  bi_IR_size :: int
  bi_cmd_debug :: u32
  bi_cmd_user1 :: u32
  bi_cmd_idcode :: u32

subsection \<open>Lines\<close>

text \<open>The start of the next line that is not a comment; nothing if at most one character is left.\<close>

function skip_comments :: "u8 list \<Rightarrow> u8 list" where
  "skip_comments s =
     (let t = dropWhile isspace s in
      if length t \<le> 1 then []
      else if take 2 t = str ''--'' then skip_comments (dropWhile (\<lambda>ch. ch \<noteq> 0x0a \<and> ch \<noteq> 0x0d) t)
      else t)"
  by pat_completeness auto
termination
proof (relation "measure length")
  show "wf (measure length)" by simp
next
  fix s t :: "u8 list" assume t: "t = dropWhile isspace s" "\<not> length t \<le> 1" "take 2 t = str ''--''"
  obtain x u where xu: "t = x # u" using t(2) by (cases t) auto
  with t(3) have u: "t = 0x2d # u" by (simp add: str_def take_Cons')
  have "length (dropWhile (\<lambda>ch. ch \<noteq> 0x0a \<and> ch \<noteq> 0x0d) t) < length t"
    by (simp add: u length_dropWhile_le le_imp_less_Suc)
  also have "length t \<le> length s" by (simp add: t(1) length_dropWhile_le)
  finally show "(dropWhile (\<lambda>ch. ch \<noteq> 0x0a \<and> ch \<noteq> 0x0d) t, s) \<in> measure length" by simp
qed

declare skip_comments.simps [simp del]

definition cut_comment :: "u8 list \<Rightarrow> u8 list" where
  "cut_comment line =
     (case strstr (str ''--'') line of None \<Rightarrow> line | Some r \<Rightarrow> take (length line - length r) line)"

text \<open>When the file does not end in a control character its last character gives way to the zero.\<close>

definition get_line :: "u8 list \<Rightarrow> u8 list \<times> u8 list" where
  "get_line s =
     (let t = skip_comments s in
      if t = [] then ([], [])
      else (let line = takeWhile (\<lambda>ch. \<not> iscntrl ch) t in
            (cut_comment (if length line = length t then butlast line else line), drop (length line + 1) t)))"

subsection \<open>Searching\<close>

text \<open>The loops \<open>while((last = f(last)) == NULL) get_line(&last)\<close>.\<close>

partial_function (option) seek ::
  "(u8 list \<Rightarrow> u8 list option) \<Rightarrow> u8 list \<Rightarrow> u8 list \<Rightarrow> (u8 list \<times> u8 list) option" where
  "seek f line rest =
     (case f line of
        Some l \<Rightarrow> Some (l, rest)
      | None \<Rightarrow> (let (l, rest) = get_line rest in seek f l rest))"

declare seek.simps [code]

definition skip_statement :: "u8 list \<Rightarrow> u8 list \<Rightarrow> u8 list option" where
  "skip_statement lastp rest = do { (_, rest) \<leftarrow> seek (strchr 0x3b) lastp rest; Some rest }"

text \<open>The counter of open parentheses is a \<open>char\<close>.\<close>

partial_function (option) port_parens :: "u8 \<Rightarrow> u8 list \<Rightarrow> u8 list \<Rightarrow> (u8 list \<times> u8 list) option" where
  "port_parens opens line rest =
     do { (l, rest) \<leftarrow> seek (strchr_s (str ''()'')) line rest;
          let opens = (if hd l = 0x28 then opens + 1 else if hd l = 0x29 then opens - 1 else opens);
          (if opens = 0 then Some (tl l, rest) else port_parens opens (tl l) rest) }"

declare port_parens.simps [code]

definition skip_port :: "u8 list \<Rightarrow> u8 list \<Rightarrow> u8 list option" where
  "skip_port lastp rest =
     do { (l, rest) \<leftarrow> seek (strchr 0x28) lastp rest;
          (l, rest) \<leftarrow> port_parens 1 (tl l) rest;
          skip_statement l rest }"

definition seek_entity_is :: "u8 list \<Rightarrow> u8 list \<Rightarrow> (u8 list \<times> u8 list) option" where
  "seek_entity_is lastp rest =
     do { (l, rest) \<leftarrow> seek (strchr 0x3a) lastp rest;
          (l, rest) \<leftarrow> seek (strstr (str ''entity'')) l rest;
          seek (strstr (str ''is'')) l rest }"

subsection \<open>Values\<close>

text \<open>
  The scans of one line: what is collected, whether the semicolon was found, whether the line ends
  inside quotes. The scan of the first line of a quoted value ends at a semicolon in quotes, too.
\<close>

fun scan_digits :: "bool \<Rightarrow> u8 list \<Rightarrow> u8 list \<times> bool \<times> bool" where
  "scan_digits valid [] = ([], False, valid)"
| "scan_digits valid (ch # s) =
     (if isdigit ch then (let (bs, fin, valid) = scan_digits valid s in (ch # bs, fin, valid))
      else if ch = 0x3b then ([], True, valid)
      else scan_digits valid s)"

fun scan_first :: "bool \<Rightarrow> u8 list \<Rightarrow> u8 list \<times> bool \<times> bool" where
  "scan_first valid [] = ([], False, valid)"
| "scan_first valid (ch # s) =
     (if ch = 0x3b then ([], True, valid)
      else if valid \<and> ch \<noteq> 0x22 then (let (bs, fin, valid) = scan_first valid s in (ch # bs, fin, valid))
      else if ch = 0x22 then scan_first (\<not> valid) s
      else scan_first valid s)"

fun scan_quoted :: "bool \<Rightarrow> u8 list \<Rightarrow> u8 list \<times> bool \<times> bool" where
  "scan_quoted valid [] = ([], False, valid)"
| "scan_quoted valid (ch # s) =
     (if valid \<and> ch \<noteq> 0x22 then (let (bs, fin, valid) = scan_quoted valid s in (ch # bs, fin, valid))
      else if ch = 0x22 then scan_quoted (\<not> valid) s
      else if ch = 0x3b then ([], True, valid)
      else scan_quoted valid s)"

text \<open>The loop \<open>while(!done)\<close> over further lines.\<close>

partial_function (option) collect ::
  "(bool \<Rightarrow> u8 list \<Rightarrow> u8 list \<times> bool \<times> bool) \<Rightarrow> bool \<Rightarrow> bool \<Rightarrow> u8 list \<Rightarrow> u8 list \<Rightarrow> (u8 list \<times> u8 list) option" where
  "collect scan fin valid acc rest =
     (if fin then Some (acc, rest)
      else (let (line, rest) = get_line rest; (bs, fin, valid) = scan valid line in
            collect scan fin valid (acc @ bs) rest))"

declare collect.simps [code]

text \<open>A value collected into a buffer of \<open>cap\<close> bytes, with its terminating zero.\<close>

definition read_value ::
  "(bool \<Rightarrow> u8 list \<Rightarrow> u8 list \<times> bool \<times> bool) \<Rightarrow> (bool \<Rightarrow> u8 list \<Rightarrow> u8 list \<times> bool \<times> bool) \<Rightarrow> nat
     \<Rightarrow> u8 list \<Rightarrow> u8 list \<Rightarrow> (u8 list \<times> u8 list) option" where
  "read_value first further cap lastp rest =
     (let (bs, fin, valid) = first False lastp in
      do { (bs, rest) \<leftarrow> collect further fin valid bs rest;
           (if length bs \<ge> cap then None else Some (bs, rest)) })"

subsection \<open>Opcodes\<close>

record tap_cmds =
  cmd_debug :: u32
  cmd_user1 :: u32
  cmd_idcode :: u32

definition parse_opcode :: "u8 list \<Rightarrow> tap_cmds \<Rightarrow> tap_cmds option" where
  "parse_opcode cmd cmds =
     (case strtok (str '' '' @ [0x09] @ str ''('') cmd of
        (None, _) \<Rightarrow> None
      | (Some token, save) \<Rightarrow>
          (let name = strtoupper token in
           if name \<in> {str ''DEBUG'', str ''USER1'', str ''IDCODE''} then
             (case strtok (str '' '' @ [0x09] @ str ''()'') save of
                (None, _) \<Rightarrow> Some cmds
              | (Some token, _) \<Rightarrow>
                  (let opcode = strtoul 2 token in
                   Some (if name = str ''DEBUG'' then cmds\<lparr>cmd_debug := opcode\<rparr>
                         else if name = str ''USER1'' then cmds\<lparr>cmd_user1 := opcode\<rparr>
                         else cmds\<lparr>cmd_idcode := opcode\<rparr>)))
           else Some cmds))"

function parse_opcodes :: "u8 list \<Rightarrow> tap_cmds \<Rightarrow> tap_cmds option" where
  "parse_opcodes cmdbuf cmds =
     (case strtok (str '','') cmdbuf of
        (None, _) \<Rightarrow> Some cmds
      | (Some cmd, save) \<Rightarrow> (case parse_opcode cmd cmds of None \<Rightarrow> None | Some cmds \<Rightarrow> parse_opcodes save cmds))"
  by pat_completeness auto
termination
  by (relation "measure (\<lambda>(s, _). length s)") (auto dest: strtok_rest [OF sym])

declare parse_opcodes.simps [simp del]

text \<open>The characters of an IDCODE, from position \<open>i\<close> on. A shift by a negative count has no meaning.\<close>

fun idcode_bits :: "nat \<Rightarrow> u8 list \<Rightarrow> u32 \<times> u32 \<Rightarrow> (u32 \<times> u32) option" where
  "idcode_bits i [] (idcode, msk) = Some (idcode, msk)"
| "idcode_bits i (ch # s) (idcode, msk) =
     (if ch = 0x31 then
        (if i > 31 then None else idcode_bits (i + 1) s (idcode OR push_bit (31 - i) 1, msk))
      else if toupper ch = 0x58 then
        (if i > 31 then None else idcode_bits (i + 1) s (idcode, msk AND NOT (push_bit (31 - i) 1)))
      else idcode_bits (i + 1) s (idcode, msk))"

subsection \<open>Statements\<close>

text \<open>The answers of the system for one file: the contents, if it can be opened, and the allocations.\<close>

record bsdl_os =
  os_contents :: "u8 list option"
  os_filedata :: bool
  os_strdup :: bool
  os_cmdbuf :: bool
  os_info :: bool

record bsdl_scan =
  sc_IR_size :: int
  sc_found_IR_size :: bool
  sc_cmds :: tap_cmds
  sc_found_cmds :: bool
  sc_idcode :: u32
  sc_idcode_mask :: u32
  sc_found_idcode :: bool
  sc_entityname :: "u8 list option"

definition init_scan :: bsdl_scan where
  "init_scan =
     \<lparr>sc_IR_size = -1, sc_found_IR_size = False,
      sc_cmds = \<lparr>cmd_debug = TAP_CMD_INVALID, cmd_user1 = TAP_CMD_INVALID, cmd_idcode = TAP_CMD_INVALID\<rparr>,
      sc_found_cmds = False, sc_idcode = 0, sc_idcode_mask = 0xFFFFFFFF, sc_found_idcode = False,
      sc_entityname = None\<rparr>"

definition blanks :: "u8 list" where "blanks = [0x20, 0x09]"

definition parse_entity :: "bool \<Rightarrow> u8 list \<Rightarrow> bsdl_scan \<Rightarrow> bsdl_scan" where
  "parse_entity dup lastp sc =
     (case strtok blanks lastp of
        (Some token, _) \<Rightarrow> sc\<lparr>sc_entityname := (if dup then Some token else None)\<rparr>
      | (None, _) \<Rightarrow> sc)"

definition parse_length :: "u8 list \<Rightarrow> u8 list \<Rightarrow> bsdl_scan \<Rightarrow> (u8 list \<times> bsdl_scan) option" where
  "parse_length lastp rest sc =
     do { (l, rest) \<leftarrow> seek_entity_is lastp rest;
          (tmpbuf, rest) \<leftarrow> read_value scan_digits scan_digits TMPBUF_SIZE l rest;
          Some (rest, sc\<lparr>sc_IR_size := sint (strtoul 0 tmpbuf), sc_found_IR_size := True\<rparr>) }"

definition parse_opcode_table :: "bool \<Rightarrow> u8 list \<Rightarrow> u8 list \<Rightarrow> bsdl_scan \<Rightarrow> (u8 list \<times> bsdl_scan) option" where
  "parse_opcode_table alloc lastp rest sc =
     do { (l, rest) \<leftarrow> seek_entity_is lastp rest;
          (if \<not> alloc then None
           else
             do { (cmdbuf, rest') \<leftarrow> read_value scan_first scan_quoted (length rest) l rest;
                  cmds \<leftarrow> parse_opcodes cmdbuf (sc_cmds sc);
                  Some (rest', sc\<lparr>sc_cmds := cmds, sc_found_cmds := True\<rparr>) }) }"

definition parse_idcode :: "u8 list \<Rightarrow> u8 list \<Rightarrow> bsdl_scan \<Rightarrow> (u8 list \<times> bsdl_scan) option" where
  "parse_idcode lastp rest sc =
     do { (l, rest) \<leftarrow> seek_entity_is lastp rest;
          (tmpbuf, rest) \<leftarrow> read_value scan_first scan_quoted TMPBUF_SIZE l rest;
          (code, msk) \<leftarrow> idcode_bits 0 tmpbuf (sc_idcode sc, sc_idcode_mask sc);
          Some (rest, sc\<lparr>sc_idcode := code, sc_idcode_mask := msk, sc_found_idcode := True\<rparr>) }"

definition parse_attribute :: "bool \<Rightarrow> u8 list \<Rightarrow> u8 list \<Rightarrow> bsdl_scan \<Rightarrow> (u8 list \<times> bsdl_scan) option" where
  "parse_attribute alloc lastp rest sc =
     (case strtok blanks lastp of
        (None, _) \<Rightarrow> None
      | (Some token, lastp) \<Rightarrow>
          (let name = strtoupper token in
           if name = str ''INSTRUCTION_LENGTH'' then parse_length lastp rest sc
           else if name = str ''INSTRUCTION_OPCODE'' then parse_opcode_table alloc lastp rest sc
           else if name = str ''IDCODE_REGISTER'' then parse_idcode lastp rest sc
           else do { rest \<leftarrow> skip_statement lastp rest; Some (rest, sc) }))"

text \<open>One statement: whether the END statement was found, the rest of the file and what is known.\<close>

definition parse_statement ::
  "bsdl_os \<Rightarrow> u8 list \<Rightarrow> u8 list \<Rightarrow> u8 list \<Rightarrow> bsdl_scan \<Rightarrow> (bool \<times> u8 list \<times> bsdl_scan) option" where
  "parse_statement os token lastp rest sc =
     (let name = strtoupper token; on = (\<lambda>rest. Some (False, rest, sc)) in
      if name = str ''ENTITY'' then Some (False, rest, parse_entity (os_strdup os) lastp sc)
      else if name = str ''CONSTANT'' \<or> name = str ''GENERIC'' then skip_statement (snd (strtok blanks lastp)) rest \<bind> on
      else if name = str ''USE'' then skip_statement (snd (strtok (blanks @ [0x3b]) lastp)) rest \<bind> on
      else if name = str ''END'' then Some (True, rest, sc)
      else if name = str ''PORT'' then skip_port lastp rest \<bind> on
      else if name = str ''ATTRIBUTE'' then
        do { (rest, sc) \<leftarrow> parse_attribute (os_cmdbuf os) lastp rest sc; Some (False, rest, sc) }
      else on rest)"

definition all_found :: "bsdl_scan \<Rightarrow> bool" where
  "all_found sc \<longleftrightarrow> sc_found_IR_size sc \<and> sc_found_cmds sc \<and> sc_found_idcode sc"

partial_function (option) parse_loop :: "bsdl_os \<Rightarrow> u8 list \<Rightarrow> bsdl_scan \<Rightarrow> bsdl_scan option" where
  "parse_loop os rest sc =
     (if rest = [] \<or> all_found sc then Some sc
      else (let (line, rest) = get_line rest in
            case strtok blanks line of
              (None, _) \<Rightarrow> Some sc
            | (Some token, lastp) \<Rightarrow>
                do { (fin, rest, sc) \<leftarrow> parse_statement os token lastp rest sc;
                     (if fin then Some sc else parse_loop os rest sc) }))"

declare parse_loop.simps [code]

definition scan_result :: "bsdl_scan \<Rightarrow> bsdlinfo" where
  "scan_result sc =
     \<lparr>bi_name = sc_entityname sc, bi_idcode = sc_idcode sc, bi_idcode_mask = sc_idcode_mask sc,
      bi_IR_size = sc_IR_size sc, bi_cmd_debug = cmd_debug (sc_cmds sc),
      bi_cmd_user1 = cmd_user1 (sc_cmds sc), bi_cmd_idcode = cmd_idcode (sc_cmds sc)\<rparr>"

definition parse_extract_values :: "bsdl_os \<Rightarrow> bsdlinfo option option" where
  "parse_extract_values os =
     (case os_contents os of
        None \<Rightarrow> Some None
      | Some filedata \<Rightarrow>
          (if \<not> os_filedata os then Some None
           else do { sc \<leftarrow> parse_loop os filedata init_scan;
                     Some (if os_info os then Some (scan_result sc) else None) }))"

end
