(* ===== verification/Bsdl_Files.thy ===== *)
theory Bsdl_Files
  imports Bsdl_Parse "HOL-Library.Sublist"
begin

text \<open>
  What the reader of device descriptions achieves: lines, a round trip through a description in the
  usual layout, and the layouts on which it goes wrong.
\<close>

subsection \<open>Lines\<close>

definition plain :: "u8 \<Rightarrow> bool" where
  "plain ch \<longleftrightarrow> \<not> iscntrl ch \<and> ch \<noteq> 0x2d"

definition text_line :: "u8 list \<Rightarrow> bool" where
  "text_line l \<longleftrightarrow> l \<noteq> [] \<and> \<not> isspace (hd l) \<and> list_all plain l"

lemma text_line_Cons [simp]: "text_line (ch # l) \<longleftrightarrow> \<not> isspace ch \<and> plain ch \<and> list_all plain l"
  by (simp add: text_line_def)

lemma no_comment: "list_all plain l \<Longrightarrow> strstr (str ''--'') l = None"
  by (induction l) (auto simp: str_def plain_def take_Cons')

lemma get_line_text:
  assumes "text_line l"
  shows "get_line (l @ 0x0a # s) = (l, s)"
proof -
  obtain x u where l: "l = x # u" using assms by (cases l) (simp_all add: text_line_def)
  have chars: "\<not> isspace x" "x \<noteq> 0x2d" "list_all plain l" using assms by (simp_all add: l plain_def)
  then have "skip_comments (l @ 0x0a # s) = l @ 0x0a # s"
    by (subst skip_comments.simps) (simp add: l str_def take_Cons')
  moreover have "takeWhile (\<lambda>ch. \<not> iscntrl ch) (l @ 0x0a # s) = l"
    using chars(3) by (simp add: takeWhile_append2 list_all_iff plain_def iscntrl_def)
  moreover have "cut_comment l = l" using no_comment [OF chars(3)] by (simp add: cut_comment_def)
  ultimately show ?thesis by (simp add: get_line_def l)
qed

lemma skip_comments_suffix: "suffix (skip_comments s) s"
proof (induction s rule: skip_comments.induct)
  case (1 s)
  let ?t = "dropWhile isspace s"
  have t: "suffix ?t s" by (rule suffix_dropWhile)
  have "suffix (skip_comments (dropWhile (\<lambda>ch. ch \<noteq> 0x0a \<and> ch \<noteq> 0x0d) ?t)) s"
    if "\<not> length ?t \<le> 1" "take 2 ?t = str ''--''"
    using 1 [OF refl that] suffix_dropWhile t by (meson suffix_order.trans)
  then show ?case using t by (subst skip_comments.simps) (simp add: Let_def)
qed

lemma get_line_shrinks:
  assumes "s \<noteq> []"
  shows "length (snd (get_line s)) < length s"
proof (cases "skip_comments s")
  case Nil
  then show ?thesis using assms by (simp add: get_line_def)
next
  case (Cons x t)
  then have "length t < length s" using suffix_length_le [OF skip_comments_suffix [of s]] by simp
  then show ?thesis using Cons by (simp add: get_line_def Let_def)
qed

lemma get_line_Nil [simp]: "get_line [] = ([], [])"
  by (simp add: get_line_def skip_comments.simps)

lemma cut_comment_set: "set (cut_comment l) \<subseteq> set l"
  by (auto simp: cut_comment_def split: option.splits dest: in_set_takeD)

lemma get_line_set: "set (fst (get_line s)) \<subseteq> set s" "set (snd (get_line s)) \<subseteq> set s"
proof -
  let ?t = "skip_comments s"
  have sub: "set ?t \<subseteq> set s" by (rule set_mono_suffix [OF skip_comments_suffix])
  define l where "l = takeWhile (\<lambda>ch. \<not> iscntrl ch) ?t"
  have l: "set l \<subseteq> set s" "set (butlast l) \<subseteq> set s"
    using sub by (auto simp: l_def dest: set_takeWhileD in_set_butlastD)
  show "set (fst (get_line s)) \<subseteq> set s"
    using l cut_comment_set [of l] cut_comment_set [of "butlast l"] by (auto simp: get_line_def Let_def simp flip: l_def)
  show "set (snd (get_line s)) \<subseteq> set s"
    using sub by (auto simp: get_line_def Let_def dest: in_set_dropD)
qed

subsection \<open>Searching\<close>

lemma seek_here [simp]: "f l = Some l' \<Longrightarrow> seek f l s = Some (l', s)"
  by (subst seek.simps) simp

text \<open>The lines of the rest of a file.\<close>

function lines :: "u8 list \<Rightarrow> u8 list list" where
  "lines s = (if s = [] then [] else fst (get_line s) # lines (snd (get_line s)))"
  by pat_completeness auto
termination by (relation "measure length") (simp_all add: get_line_shrinks)

declare lines.simps [simp del]

lemma lines_Nil [simp]: "lines [] = []"
  by (simp add: lines.simps)

lemma lines_Cons: "s \<noteq> [] \<Longrightarrow> lines s = fst (get_line s) # lines (snd (get_line s))"
  by (simp add: lines.simps [of s])

text \<open>A search ends exactly if one of the lines has what it looks for.\<close>

lemma seek_finds: "\<exists>x \<in> set (l # lines s). f x \<noteq> None \<Longrightarrow> \<exists>y. seek f l s = Some y"
proof (induction s arbitrary: l rule: lines.induct)
  case (1 s)
  show ?case
  proof (cases "f l")
    case None
    with 1(2) have s: "s \<noteq> []" by auto
    with 1(2) None have "\<exists>x \<in> set (fst (get_line s) # lines (snd (get_line s))). f x \<noteq> None"
      by (simp add: lines_Cons)
    from 1(1) [OF s this] None show ?thesis by (subst seek.simps) (simp add: case_prod_unfold Let_def)
  qed auto
qed

lemma seek_found:
  assumes "seek f l s = Some y"
  shows "f [] = None \<longrightarrow> (\<exists>x \<in> set (l # lines s). f x \<noteq> None)"
proof (rule seek.raw_induct [of "\<lambda>f l s y. f [] = None \<longrightarrow> (\<exists>x \<in> set (l # lines s). f x \<noteq> None)", OF _ assms])
  fix seek' and f :: "u8 list \<Rightarrow> u8 list option" and l s y
  assume ih: "\<And>f l s y. seek' f l s = Some y \<Longrightarrow> f [] = None \<longrightarrow> (\<exists>x \<in> set (l # lines s). f x \<noteq> None)"
    and run: "(case f l of None \<Rightarrow> let (l, s) = get_line s in seek' f l s | Some l \<Rightarrow> Some (l, s)) = Some y"
  show "f [] = None \<longrightarrow> (\<exists>x \<in> set (l # lines s). f x \<noteq> None)"
  proof (cases "f l")
    case None
    with run have "seek' f (fst (get_line s)) (snd (get_line s)) = Some y" by (simp add: case_prod_unfold Let_def)
    from ih [OF this] show ?thesis by (cases "s = []") (auto simp: lines_Cons)
  qed simp
qed

lemma seek_returns_iff: "f [] = None \<Longrightarrow> (\<exists>y. seek f l s = Some y) \<longleftrightarrow> (\<exists>x \<in> set (l # lines s). f x \<noteq> None)"
  using seek_finds [of l s f] seek_found [of f l s] by blast

lemma skip_statement_Some_iff: "(\<exists>r. skip_statement l s = Some r) \<longleftrightarrow> (\<exists>y. seek (strchr 0x3b) l s = Some y)"
  by (auto simp: skip_statement_def split: Option.bind_splits)

text \<open>
  Skipping a statement that the reader has no use for. It ends exactly if the rest of the line or
  one of the lines ahead has a semicolon; otherwise the reader asks for the next line for ever.
\<close>

theorem skip_statement_returns_iff:
  "(\<exists>r. skip_statement l s = Some r) \<longleftrightarrow> (\<exists>x \<in> set (l # lines s). 0x3b \<in> set x)"
  unfolding skip_statement_Some_iff by (subst seek_returns_iff) (auto simp: strchr_None_iff)

lemma lines_set: "x \<in> set (lines s) \<Longrightarrow> set x \<subseteq> set s"
proof (induction s rule: lines.induct)
  case (1 s)
  then show ?case
    using get_line_set [of s] by (cases "s = []") (auto simp: lines_Cons)
qed

lemma no_semicolon_hangs:
  assumes "0x3b \<notin> set l" "0x3b \<notin> set s"
  shows "skip_statement l s = None"
proof -
  have "\<forall>x \<in> set (l # lines s). strchr 0x3b x = None"
    using assms lines_set [of _ s] by (auto simp: strchr_None_iff)
  then have "\<nexists>y. seek (strchr 0x3b) l s = Some y" by (subst seek_returns_iff) auto
  then show ?thesis using skip_statement_Some_iff [of l s] by (cases "skip_statement l s") auto
qed

subsection \<open>Statements\<close>

definition word :: "u8 list \<Rightarrow> bool" where
  "word w \<longleftrightarrow> w \<noteq> [] \<and> list_all (\<lambda>ch. plain ch \<and> ch \<noteq> 0x20) w"

lemma plain_not_space:
  assumes "plain ch" "ch \<noteq> 0x20"
  shows "\<not> isspace ch"
proof
  assume "isspace ch"
  then have "ch \<le> 0x0d" using assms(2) by (simp add: isspace_def)
  then have "ch < 0x20" by (rule le_less_trans) simp
  then show False using assms(1) by (simp add: plain_def iscntrl_def)
qed

lemma word_text_line: "word w \<Longrightarrow> list_all plain u \<Longrightarrow> text_line (w @ u)"
  by (cases w) (auto simp: word_def plain_not_space list_all_iff)

lemma word_blanks: "word w \<Longrightarrow> ch \<in> set w \<Longrightarrow> ch \<notin> set blanks"
  by (auto simp: word_def blanks_def list_all_iff plain_def iscntrl_def)

lemma strtok_blank: "word w \<Longrightarrow> strtok blanks (w @ 0x20 # u) = (Some w, u)"
  using strtok_word(1) [of w blanks "0x20" "[]" u] word_blanks [of w] by (simp add: word_def blanks_def)

lemma parse_loop_line:
  assumes "word w" "list_all plain u" "\<not> all_found sc"
  shows "parse_loop os (w @ 0x20 # u @ 0x0a # s) sc =
     do { (fin, rest, sc) \<leftarrow> parse_statement os w u s sc; (if fin then Some sc else parse_loop os rest sc) }"
proof -
  have "text_line (w @ 0x20 # u)" using assms(1,2) by (intro word_text_line) (simp_all add: plain_def iscntrl_def)
  from get_line_text [OF this, of s] have "get_line (w @ 0x20 # u @ 0x0a # s) = (w @ 0x20 # u, s)" by simp
  with strtok_blank [OF assms(1)] assms(3) show ?thesis by (subst parse_loop.simps) simp
qed

lemma strtok_suffix: "strtok delims s = (r, rest) \<Longrightarrow> set rest \<subseteq> set s"
  by (auto simp: strtok_def Let_def split: if_splits dest!: in_set_dropD set_dropWhileD)

definition file_os :: "u8 list \<Rightarrow> bsdl_os" where
  "file_os text = \<lparr>os_contents = Some text, os_filedata = True, os_strdup = True, os_cmdbuf = True, os_info = True\<rparr>"

lemma file_os_simps [simp]:
  "os_contents (file_os text) = Some text" "os_filedata (file_os text)" "os_strdup (file_os text)"
  "os_cmdbuf (file_os text)" "os_info (file_os text)"
  by (simp_all add: file_os_def)

text \<open>
  A CONSTANT, GENERIC or USE statement that the file does not close with a semicolon. The reader
  never returns: at the end of the file it goes on asking for lines.
\<close>

theorem unclosed_statement_hangs:
  assumes "word w" "strtoupper w \<in> {str ''CONSTANT'', str ''GENERIC'', str ''USE''}" "list_all plain u"
    and "0x3b \<notin> set u" "0x3b \<notin> set s" "os_contents os = Some (w @ 0x20 # u @ 0x0a # s)" "os_filedata os"
  shows "parse_extract_values os = None"
proof -
  have "skip_statement (snd (strtok delims u)) s = None" for delims
    using assms(4,5) strtok_suffix [of delims u] by (intro no_semicolon_hangs) (auto simp: prod_eq_iff)
  then have "parse_statement os w u s init_scan = None"
    using assms(2) by (auto simp: parse_statement_def str_def)
  moreover have "\<not> all_found init_scan" by (simp add: all_found_def init_scan_def)
  ultimately have "parse_loop os (w @ 0x20 # u @ 0x0a # s) init_scan = None"
    using parse_loop_line [OF assms(1,3)] by simp
  then show ?thesis using assms(6,7) by (simp add: parse_extract_values_def)
qed

theorem unclosed_statement_hangs_witness:
  "parse_extract_values (file_os (str ''generic (P : string)'' @ 0x0a # str ''end'')) = None"
proof -
  have "str ''generic (P : string)'' = str ''generic'' @ 0x20 # str ''(P : string)''" by (simp add: str_def)
  moreover have "word (str ''generic'')" by (simp add: word_def) (simp add: str_def plain_def iscntrl_def)
  moreover have "strtoupper (str ''generic'') = str ''GENERIC''" by (simp add: str_def strtoupper_def toupper_def)
  moreover have "list_all plain (str ''(P : string)'')" "0x3b \<notin> set (str ''(P : string)'')" "0x3b \<notin> set (str ''end'')"
    by (simp_all add: str_def plain_def iscntrl_def)
  ultimately show ?thesis
    using unclosed_statement_hangs [of "str ''generic''" "str ''(P : string)''" "str ''end''"
        "file_os (str ''generic (P : string)'' @ 0x0a # str ''end'')"]
    by simp
qed

text \<open>
  The statement behind a USE clause is lost. The semicolon that ends the clause is taken as the end
  of the name of the package, so the reader skips on to the next semicolon: a line with a semicolon
  that follows the clause is as good as not there, whatever attribute it gives.
\<close>

theorem use_clause_swallows:
  assumes "word w" "strtoupper w = str ''USE''" "word pkg" "0x3b \<notin> set pkg"
    and "text_line l" "0x3b \<in> set l" "\<not> all_found sc"
  shows "parse_loop os (w @ 0x20 # pkg @ 0x3b # 0x0a # l @ 0x0a # s) sc = parse_loop os s sc"
proof -
  have "strtok (blanks @ [0x3b]) (pkg @ [0x3b]) = (Some pkg, [])"
    using strtok_word(1) [of pkg "blanks @ [0x3b]" "0x3b" "[]" "[]"] word_blanks [OF assms(3)] assms(3,4)
    by (auto simp: word_def)
  moreover have "seek (strchr 0x3b) [] (l @ 0x0a # s) = seek (strchr 0x3b) l s"
    by (subst seek.simps) (simp add: get_line_text [OF assms(5)])
  moreover obtain t where "strchr 0x3b l = Some t"
    using assms(6) strchr_None_iff [of "0x3b" l] by (cases "strchr 0x3b l") auto
  ultimately have "parse_statement os w (pkg @ [0x3b]) (l @ 0x0a # s) sc = Some (False, s, sc)"
    by (simp add: parse_statement_def assms(2)) (simp add: str_def skip_statement_def)
  moreover have "list_all plain (pkg @ [0x3b])"
    using assms(3) by (auto simp: word_def list_all_iff plain_def iscntrl_def)
  ultimately show ?thesis
    using parse_loop_line [OF assms(1) _ assms(7), of "pkg @ [0x3b]" os "l @ 0x0a # s"] by simp
qed

theorem use_clause_swallows_witness:
  "parse_loop (file_os []) (str ''use X.all'' @ 0x3b # 0x0a
      # str ''attribute INSTRUCTION_LENGTH of XC : entity is 4;'' @ [0x0a]) init_scan = Some init_scan"
proof -
  let ?l = "str ''attribute INSTRUCTION_LENGTH of XC : entity is 4;''"
  have split: "str ''use X.all'' = str ''use'' @ 0x20 # str ''X.all''" by (simp add: str_def)
  have words: "word (str ''use'')" "word (str ''X.all'')" "0x3b \<notin> set (str ''X.all'')"
    by (simp_all add: word_def) (simp_all add: str_def plain_def iscntrl_def)
  have upper: "strtoupper (str ''use'') = str ''USE''" by (simp add: str_def strtoupper_def toupper_def)
  have l: "text_line ?l" "0x3b \<in> set ?l" by (simp_all add: str_def plain_def iscntrl_def isspace_def)
  have "\<not> all_found init_scan" by (simp add: all_found_def init_scan_def)
  from use_clause_swallows [OF words(1) upper words(2,3) l this, of "file_os []" "[]"]
  show ?thesis unfolding split by (simp add: parse_loop.simps)
qed

end
