(* ===== verification/Bsdl_Roundtrip.thy ===== *)
theory Bsdl_Roundtrip
  imports Bsdl_Files
begin

text \<open>
  A device description written in the usual layout is read back: the name of the entity, the length
  of the instruction register, the opcodes and the IDCODE with its don't-care digits.
\<close>

subsection \<open>Numbers\<close>

fun dec_digits :: "nat \<Rightarrow> u8 list" where
  "dec_digits n = (if n < 10 then [0x30 + of_nat n] else dec_digits (n div 10) @ [0x30 + of_nat (n mod 10)])"

declare dec_digits.simps [simp del]

definition bit_char :: "bool \<Rightarrow> u8" where
  "bit_char b = (if b then 0x31 else 0x30)"

lemma digit_char:
  assumes "k < 10"
  shows "isdigit (0x30 + of_nat k)" "digit_value (0x30 + of_nat k) = k" "(of_nat k :: u8) = 0 \<longleftrightarrow> k = 0"
proof -
  have "k \<in> set [0..<10]" using assms by simp
  moreover have "\<forall>k \<in> set [0..<10]. isdigit (0x30 + of_nat k) \<and> digit_value (0x30 + of_nat k) = k
      \<and> ((of_nat k :: u8) = 0 \<longleftrightarrow> k = 0)"
    by (simp add: upt_rec isdigit_def digit_value_def)
  ultimately show "isdigit (0x30 + of_nat k)" "digit_value (0x30 + of_nat k) = k"
    "(of_nat k :: u8) = 0 \<longleftrightarrow> k = 0" by blast+
qed

lemma dec_digits_ne [simp]: "dec_digits n \<noteq> []"
  by (subst dec_digits.simps) simp

lemma dec_digits_digits: "list_all isdigit (dec_digits n)"
proof (induction n rule: dec_digits.induct)
  case (1 n)
  then show ?case by (subst dec_digits.simps) (simp add: digit_char)
qed

lemma hd_dec_digits: "0 < n \<Longrightarrow> hd (dec_digits n) \<noteq> 0x30"
proof (induction n rule: dec_digits.induct)
  case (1 n)
  then show ?case by (subst dec_digits.simps) (simp add: digit_char)
qed

lemma digits_value_snoc: "digits_value b (ds @ [d]) = digits_value b ds * int b + int (digit_value d)"
  by (simp add: digits_value_def)

lemma digits_value_dec: "digits_value 10 (dec_digits n) = int n"
proof (induction n rule: dec_digits.induct)
  case (1 n)
  show ?case
  proof (cases "n < 10")
    case True
    then show ?thesis by (subst dec_digits.simps) (simp add: digits_value_def digit_char)
  next
    case False
    with 1 have "digits_value 10 (dec_digits (n div 10) @ [0x30 + of_nat (n mod 10)]) = int (n div 10) * 10 + int (n mod 10)"
      by (simp add: digits_value_snoc digit_char)
    also have "\<dots> = int n" by presburger
    finally show ?thesis using False by (subst dec_digits.simps) simp
  qed
qed

lemma isdigit_value: "isdigit d \<Longrightarrow> digit_value d < 10 \<and> \<not> isspace d \<and> d \<noteq> 0x2d \<and> d \<noteq> 0x2b"
  by (auto simp: digit_value_def isdigit_def isspace_def word_le_nat_alt)

lemma no_sign: "s \<noteq> [] \<Longrightarrow> hd s \<noteq> 0x2d \<Longrightarrow> hd s \<noteq> 0x2b \<Longrightarrow> scan_sign (length s) s = (False, length s, s)"
  by (cases s) auto

lemma strtoul_dec:
  assumes "0 < n" "n < 2 ^ 32"
  shows "strtoul 0 (dec_digits n) = of_nat n"
proof -
  let ?s = "dec_digits n"
  obtain x t where s: "?s = x # t" by (cases ?s) auto
  then have x: "isdigit x" "x \<noteq> 0x30" using dec_digits_digits [of n] hd_dec_digits [OF assms(1)] by auto
  have skip: "skip_space ?s = ?s" using isdigit_value [OF x(1)] by (simp add: skip_space_def s)
  have sign: "scan_sign (length ?s) ?s = (False, length ?s, ?s)"
    using isdigit_value [OF x(1)] by (intro no_sign) (simp_all add: s)
  have pre: "strtoul_prefix 0 ?s = (10, ?s)"
    using x(2) unfolding s by (cases t; cases "tl t") auto
  have "takeWhile (\<lambda>d. digit_value d < 10) ?s = ?s"
    using dec_digits_digits [of n] isdigit_value by (intro takeWhile_all) (auto simp: list_all_iff)
  then show ?thesis using assms(2) by (simp add: strtoul_def skip sign pre digits_value_dec takeWhile_all)
qed

lemma digits_value_bits: "digits_value 2 (map bit_char bs) = horner_sum of_bool 2 (rev bs)"
  by (induction bs rule: rev_induct)
    (auto simp: digits_value_snoc digits_value_def bit_char_def digit_value_def isdigit_def)

lemma of_int_horner: "of_int (horner_sum of_bool 2 bs) = (horner_sum of_bool 2 bs :: 'a :: comm_ring_1)"
  by (induction bs) simp_all

lemma strtoul_bits:
  assumes "bs \<noteq> []" "length bs \<le> 32"
  shows "strtoul 2 (map bit_char bs) = horner_sum of_bool 2 (rev bs)"
proof -
  let ?s = "map bit_char bs"
  have x: "\<not> isspace (hd ?s)" "hd ?s \<noteq> 0x2d" "hd ?s \<noteq> 0x2b"
    using assms(1) by (auto simp: hd_map bit_char_def isspace_def)
  have ne: "?s \<noteq> []" using assms(1) by simp
  have skip: "skip_space ?s = ?s" using x(1) assms(1) by (cases bs) (auto simp: skip_space_def)
  have pre: "strtoul_prefix 2 ?s = (2, ?s)"
    by (cases "(2 :: nat, ?s)" rule: strtoul_prefix.cases) auto
  have tw: "takeWhile (\<lambda>d. digit_value d < 2) ?s = ?s"
    by (intro takeWhile_all) (auto simp: bit_char_def digit_value_def isdigit_def)
  have bound: "(horner_sum of_bool 2 (rev bs) :: int) < 2 ^ 32"
  proof -
    have "(horner_sum of_bool 2 (rev bs) :: int) < 2 ^ length (rev bs)" by (rule horner_sum_of_bool_2_less)
    also have "\<dots> \<le> 2 ^ 32" using assms(2) by (intro power_increasing) simp_all
    finally show ?thesis .
  qed
  show ?thesis
    using bound unfolding strtoul_def skip no_sign [OF ne x(2,3)] Let_def prod.case pre tw digits_value_bits
    by (simp add: of_int_horner)
qed


subsection \<open>The text of a description\<close>

type_synonym opcode = "u8 list \<times> bool list"

definition op_item :: "opcode \<Rightarrow> u8 list" where
  "op_item p = fst p @ str '' ('' @ map bit_char (snd p) @ str '')''"

fun op_lines :: "opcode list \<Rightarrow> u8 list" where
  "op_lines [] = []"
| "op_lines [p] = 0x22 # op_item p @ [0x22, 0x3b, 0x0a]"
| "op_lines (p # ps) = 0x22 # op_item p @ [0x2c, 0x22, 0x20, 0x26, 0x0a] @ op_lines ps"

fun op_table :: "opcode list \<Rightarrow> u8 list" where
  "op_table [] = []"
| "op_table [p] = op_item p"
| "op_table (p # ps) = op_item p @ 0x2c # op_table ps"

definition pattern_char :: "bool option \<Rightarrow> u8" where
  "pattern_char p = (case p of Some b \<Rightarrow> bit_char b | None \<Rightarrow> 0x58)"

definition attribute_line :: "string \<Rightarrow> u8 list \<Rightarrow> u8 list \<Rightarrow> u8 list" where
  "attribute_line kw e v = str ''attribute '' @ str kw @ str '' of '' @ e @ str '' : entity is'' @ v @ [0x0a]"

definition bsdl_text :: "u8 list \<Rightarrow> nat \<Rightarrow> opcode list \<Rightarrow> bool option list \<Rightarrow> u8 list" where
  "bsdl_text e n ps pat =
     str ''entity '' @ e @ str '' is'' @ [0x0a]
     @ attribute_line ''INSTRUCTION_LENGTH'' e (0x20 # dec_digits n @ [0x3b])
     @ attribute_line ''INSTRUCTION_OPCODE'' e [] @ op_lines ps
     @ attribute_line ''IDCODE_REGISTER'' e ([0x20, 0x22] @ map pattern_char pat @ [0x22, 0x3b])"

definition name_ok :: "u8 list \<Rightarrow> bool" where
  "name_ok w \<longleftrightarrow> w \<noteq> [] \<and> list_all (\<lambda>ch. plain ch \<and> ch \<notin> set (str '' ,:;()'' @ [0x22])) w"

definition opcode_ok :: "opcode \<Rightarrow> bool" where
  "opcode_ok p \<longleftrightarrow> name_ok (fst p) \<and> snd p \<noteq> [] \<and> length (snd p) \<le> 32"

text \<open>What the entries say: the last opcode given for a name.\<close>

definition opcode_of :: "string \<Rightarrow> opcode list \<Rightarrow> u32" where
  "opcode_of nm ps =
     foldl (\<lambda>v p. if strtoupper (fst p) = str nm then horner_sum of_bool 2 (rev (snd p)) else v) TAP_CMD_INVALID ps"

definition pattern_word :: "(bool option \<Rightarrow> bool) \<Rightarrow> bool option list \<Rightarrow> u32" where
  "pattern_word f pat = horner_sum of_bool 2 (rev (map f pat))"

subsection \<open>Attributes\<close>

lemma name_okD:
  assumes "name_ok w"
  shows "word w" "list_all plain w" "ch \<in> set (str '' ,:;()'' @ [0x22]) \<Longrightarrow> ch \<notin> set w"
  using assms by (auto simp: name_ok_def word_def list_all_iff str_def)

lemma seek_entity_is_found:
  assumes "name_ok e"
  shows "seek_entity_is (str ''of '' @ e @ str '' : entity is'' @ v) s = Some (str ''is'' @ v, s)"
proof -
  have e: "0x3a \<notin> set e" using name_okD(3) [OF assms, of "0x3a"] by (simp add: str_def)
  have "strchr 0x3a (str ''of '' @ e @ str '' : entity is'' @ v) = Some (str '': entity is'' @ v)"
    using strchr_append [OF e] by (simp add: str_def)
  moreover have "strstr (str ''entity'') (str '': entity is'' @ v) = Some (str ''entity is'' @ v)"
    by (simp add: str_def)
  moreover have "strstr (str ''is'') (str ''entity is'' @ v) = Some (str ''is'' @ v)"
    by (simp add: str_def)
  ultimately show ?thesis by (simp add: seek_entity_is_def)
qed

lemma parse_attribute_line:
  assumes "name_ok e" "list_all plain v" "\<not> all_found sc" "word (str kw)"
  shows "parse_loop os (attribute_line kw e v @ s) sc =
     do { (rest, sc) \<leftarrow> parse_attribute (os_cmdbuf os) (str kw @ 0x20 # str ''of '' @ e @ str '' : entity is'' @ v) s sc;
          parse_loop os rest sc }"
proof -
  let ?u = "str kw @ 0x20 # str ''of '' @ e @ str '' : entity is'' @ v"
  have "word (str ''attribute'')" by (simp add: word_def) (simp add: str_def plain_def iscntrl_def)
  moreover have "list_all plain ?u"
    using assms(2,4) name_okD(2) [OF assms(1)] by (auto simp: word_def list_all_iff str_def plain_def iscntrl_def)
  moreover have "attribute_line kw e v @ s = str ''attribute'' @ 0x20 # ?u @ 0x0a # s"
    by (simp add: attribute_line_def) (simp add: str_def)
  moreover have "parse_statement os (str ''attribute'') ?u s sc =
      do { (rest, sc) \<leftarrow> parse_attribute (os_cmdbuf os) ?u s sc; Some (False, rest, sc) }"
  proof -
    have "strtoupper (str ''attribute'') = str ''ATTRIBUTE''" by (simp add: str_def strtoupper_def toupper_def)
    then show ?thesis unfolding parse_statement_def by (simp only:) (simp add: str_def)
  qed
  ultimately show ?thesis
    using parse_loop_line [of "str ''attribute''" ?u sc os s] assms(3) by (simp add: case_prod_unfold)
qed

lemma attribute_name:
  assumes "word (str kw)"
  shows "parse_attribute alloc (str kw @ 0x20 # l) s sc =
     (let name = strtoupper (str kw) in
      if name = str ''INSTRUCTION_LENGTH'' then parse_length l s sc
      else if name = str ''INSTRUCTION_OPCODE'' then parse_opcode_table alloc l s sc
      else if name = str ''IDCODE_REGISTER'' then parse_idcode l s sc
      else do { rest \<leftarrow> skip_statement l s; Some (rest, sc) })"
  by (simp add: parse_attribute_def strtok_blank [OF assms])

lemma attribute_keywords:
  "word (str ''INSTRUCTION_LENGTH'')" "word (str ''INSTRUCTION_OPCODE'')" "word (str ''IDCODE_REGISTER'')"
  "strtoupper (str ''INSTRUCTION_LENGTH'') = str ''INSTRUCTION_LENGTH''"
  "strtoupper (str ''INSTRUCTION_OPCODE'') = str ''INSTRUCTION_OPCODE''"
  "strtoupper (str ''IDCODE_REGISTER'') = str ''IDCODE_REGISTER''"
  "str ''INSTRUCTION_OPCODE'' \<noteq> str ''INSTRUCTION_LENGTH''" "str ''IDCODE_REGISTER'' \<noteq> str ''INSTRUCTION_LENGTH''"
  "str ''IDCODE_REGISTER'' \<noteq> str ''INSTRUCTION_OPCODE''"
  by (simp_all add: word_def strtoupper_def str_def toupper_def plain_def iscntrl_def)

lemma scan_digits_all: "list_all isdigit ds \<Longrightarrow> scan_digits v (ds @ 0x3b # t) = (ds, True, v)"
  by (induction ds) (auto simp: isdigit_def)

lemma collect_done [simp]: "collect scan True v bs s = Some (bs, s)"
  by (subst collect.simps) simp

lemma isdigit_plain: "isdigit ch \<Longrightarrow> plain ch"
  by (auto simp: isdigit_def plain_def iscntrl_def word_le_nat_alt word_less_nat_alt)

lemma length_line_parsed:
  assumes "name_ok e" "0 < n" "n < 2 ^ 31" "length (dec_digits n) < 128" "\<not> all_found sc"
  shows "parse_loop os (attribute_line ''INSTRUCTION_LENGTH'' e (0x20 # dec_digits n @ [0x3b]) @ s) sc
     = parse_loop os s (sc\<lparr>sc_IR_size := int n, sc_found_IR_size := True\<rparr>)"
proof -
  let ?v = "0x20 # dec_digits n @ [0x3b]"
  have plain: "list_all plain ?v"
    using dec_digits_digits [of n] isdigit_plain by (auto simp: list_all_iff plain_def iscntrl_def)
  have "scan_digits False (str ''is'' @ ?v) = (dec_digits n, True, False)"
    using scan_digits_all [OF dec_digits_digits, of False n "[]"] by (simp add: str_def isdigit_def)
  moreover have "sint (word_of_int (int n) :: u32) = int n"
    using assms(3) by (subst sint_sbintrunc') (simp add: signed_take_bit_int_eq_self)
  moreover have "strtoul 0 (dec_digits n) = of_nat n" using assms(2,3) by (intro strtoul_dec) simp_all
  ultimately have "parse_length (str ''of '' @ e @ str '' : entity is'' @ ?v) s sc
      = Some (s, sc\<lparr>sc_IR_size := int n, sc_found_IR_size := True\<rparr>)"
    using assms(4) unfolding parse_length_def seek_entity_is_found [OF assms(1)]
    by (simp add: read_value_def TMPBUF_SIZE_def)
  then show ?thesis
    by (simp only: parse_attribute_line [OF assms(1) plain assms(5) attribute_keywords(1)] attribute_name [OF attribute_keywords(1)]
        attribute_keywords(4) Let_def if_True) simp
qed

lemma dec_digits_length: "n < 10 ^ k \<Longrightarrow> 0 < k \<Longrightarrow> length (dec_digits n) \<le> k"
proof (induction k arbitrary: n)
  case (Suc k)
  show ?case
  proof (cases "n < 10")
    case True
    then show ?thesis by (subst dec_digits.simps) simp
  next
    case False
    then have "0 < k" "n div 10 < 10 ^ k" using Suc.prems(1) by (auto intro: gr0I simp: div_less_iff_less_mult mult.commute)
    with Suc.IH False show ?thesis by (subst dec_digits.simps) simp
  qed
qed simp

subsection \<open>The IDCODE\<close>

lemma scan_quoted_body: "0x22 \<notin> set body \<Longrightarrow>
   scan_quoted True (body @ 0x22 # t) = (let (bs, fin, v) = scan_quoted False t in (body @ bs, fin, v))"
  by (induction body) (auto simp: case_prod_unfold Let_def)

lemma scan_first_body: "0x22 \<notin> set body \<Longrightarrow> 0x3b \<notin> set body \<Longrightarrow>
   scan_first True (body @ 0x22 # t) = (let (bs, fin, v) = scan_first False t in (body @ bs, fin, v))"
  by (induction body) (auto simp: case_prod_unfold Let_def)

lemma bit_pattern_word:
  "k < 32 \<Longrightarrow> length pat = 32 \<Longrightarrow> bit (pattern_word f pat) k \<longleftrightarrow> f (pat ! (31 - k))"
  by (simp add: pattern_word_def bit_horner_sum_bit_iff rev_nth)

lemma idcode_bits_pattern:
  "i + length pat \<le> 32 \<Longrightarrow> \<exists>code msk. idcode_bits i (map pattern_char pat) (c, m) = Some (code, msk)
     \<and> (\<forall>k < 32. bit code k \<longleftrightarrow> bit c k \<or> (\<exists>j < length pat. k = 31 - (i + j) \<and> pat ! j = Some True))
     \<and> (\<forall>k < 32. bit msk k \<longleftrightarrow> bit m k \<and> \<not> (\<exists>j < length pat. k = 31 - (i + j) \<and> pat ! j = None))"
proof (induction pat arbitrary: i c m)
  case (Cons p pat)
  define c' where "c' = (if p = Some True then c OR push_bit (31 - i) 1 else c)"
  define m' where "m' = (if p = None then m AND NOT (push_bit (31 - i) 1) else m)"
  have i: "i \<le> 31" "(i + 1) + length pat \<le> 32" using Cons.prems by simp_all
  have step: "idcode_bits i (map pattern_char (p # pat)) (c, m) = idcode_bits (i + 1) (map pattern_char pat) (c', m')"
    using i(1) by (cases p) (auto simp: c'_def m'_def pattern_char_def bit_char_def toupper_def)
  have bits: "bit c' k \<longleftrightarrow> bit c k \<or> (k = 31 - i \<and> p = Some True)"
    "bit m' k \<longleftrightarrow> bit m k \<and> \<not> (k = 31 - i \<and> p = None)" if "k < 32" for k
    using that by (auto simp: c'_def m'_def bit_or_iff bit_and_iff bit_not_iff bit_push_bit_iff bit_1_iff bit_exp_iff)
  have split: "(\<exists>j < length (p # pat). k = 31 - (i + j) \<and> (p # pat) ! j = q)
      \<longleftrightarrow> (k = 31 - i \<and> p = q) \<or> (\<exists>j < length pat. k = 31 - (i + 1 + j) \<and> pat ! j = q)" for k q
    by (simp add: Ex_less_Suc2)
  from Cons.IH [OF i(2), of c' m'] show ?case unfolding step split using bits by (elim exE conjE) (intro exI conjI, assumption, auto)
qed simp

lemma pattern_char_cases: "pattern_char p \<in> {0x30, 0x31, 0x58}"
  by (auto simp: pattern_char_def bit_char_def split: option.splits)

lemma pattern_chars:
  "list_all plain (map pattern_char pat)" "0x22 \<notin> set (map pattern_char pat)" "0x3b \<notin> set (map pattern_char pat)"
proof -
  have ch: "plain (pattern_char p) \<and> pattern_char p \<noteq> 0x22 \<and> pattern_char p \<noteq> 0x3b" for p
    using pattern_char_cases [of p] by (auto simp: plain_def iscntrl_def)
  show "list_all plain (map pattern_char pat)" using ch by (simp add: list_all_iff)
  show "0x22 \<notin> set (map pattern_char pat)" "0x3b \<notin> set (map pattern_char pat)" using ch by (metis imageE set_map)+
qed

lemma idcode_pattern:
  assumes "length pat = 32"
  shows "idcode_bits 0 (map pattern_char pat) (0, -1)
     = Some (pattern_word (\<lambda>p. p = Some True) pat, pattern_word (\<lambda>p. p \<noteq> None) pat)"
proof -
  obtain code msk where run: "idcode_bits 0 (map pattern_char pat) (0, -1) = Some (code, msk)"
    and code: "\<And>k. k < 32 \<Longrightarrow> bit code k \<longleftrightarrow> (\<exists>j < 32. k = 31 - j \<and> pat ! j = Some True)"
    and msk: "\<And>k. k < 32 \<Longrightarrow> bit msk k \<longleftrightarrow> \<not> (\<exists>j < 32. k = 31 - j \<and> pat ! j = None)"
    using idcode_bits_pattern [of 0 pat 0 "-1"] assms by auto
  have j: "(\<exists>j < 32. k = 31 - j \<and> Q j) \<longleftrightarrow> Q (31 - k)" if "k < 32" for k :: nat and Q
    using that by (auto intro: exI [of _ "31 - k"])
  have "code = pattern_word (\<lambda>p. p = Some True) pat"
    using code assms by (intro bit_word_eqI) (simp add: bit_pattern_word j)
  moreover have "msk = pattern_word (\<lambda>p. p \<noteq> None) pat"
    using msk assms by (intro bit_word_eqI) (simp add: bit_pattern_word j)
  ultimately show ?thesis using run by simp
qed

lemma idcode_line_parsed:
  assumes "name_ok e" "length pat = 32" "\<not> all_found sc" "sc_idcode sc = 0" "sc_idcode_mask sc = -1"
  shows "parse_loop os (attribute_line ''IDCODE_REGISTER'' e ([0x20, 0x22] @ map pattern_char pat @ [0x22, 0x3b]) @ s) sc
     = parse_loop os s (sc\<lparr>sc_idcode := pattern_word (\<lambda>p. p = Some True) pat,
         sc_idcode_mask := pattern_word (\<lambda>p. p \<noteq> None) pat, sc_found_idcode := True\<rparr>)"
proof -
  let ?v = "[0x20, 0x22] @ map pattern_char pat @ [0x22, 0x3b]"
  have plain: "list_all plain ?v" using pattern_chars(1) [of pat] by (simp add: plain_def iscntrl_def)
  have "scan_first False (str ''is'' @ ?v) = (map pattern_char pat, True, False)"
    using scan_first_body [OF pattern_chars(2,3), of pat "[0x3b]"] by (simp add: str_def)
  then have "parse_idcode (str ''of '' @ e @ str '' : entity is'' @ ?v) s sc
      = Some (s, sc\<lparr>sc_idcode := pattern_word (\<lambda>p. p = Some True) pat,
         sc_idcode_mask := pattern_word (\<lambda>p. p \<noteq> None) pat, sc_found_idcode := True\<rparr>)"
    using assms(2,4,5) unfolding parse_idcode_def seek_entity_is_found [OF assms(1)]
    by (simp add: read_value_def TMPBUF_SIZE_def idcode_pattern)
  then show ?thesis
    by (simp only: parse_attribute_line [OF assms(1) plain assms(3) attribute_keywords(3)]
        attribute_name [OF attribute_keywords(3)] attribute_keywords(6,8,9) Let_def if_True if_False) simp
qed

subsection \<open>The opcodes\<close>

definition set_opcode :: "tap_cmds \<Rightarrow> opcode \<Rightarrow> tap_cmds" where
  "set_opcode cmds p =
     (let name = strtoupper (fst p); v = horner_sum of_bool 2 (rev (snd p)) in
      if name = str ''DEBUG'' then cmds\<lparr>cmd_debug := v\<rparr>
      else if name = str ''USER1'' then cmds\<lparr>cmd_user1 := v\<rparr>
      else if name = str ''IDCODE'' then cmds\<lparr>cmd_idcode := v\<rparr>
      else cmds)"

lemma op_item_chars:
  assumes "opcode_ok p"
  shows "op_item p \<noteq> []" "list_all plain (op_item p)" "0x22 \<notin> set (op_item p)" "0x2c \<notin> set (op_item p)"
proof -
  let ?ok = "\<lambda>ch. plain ch \<and> ch \<noteq> 0x22 \<and> ch \<noteq> 0x2c"
  have "list_all ?ok (map bit_char (snd p))" by (auto simp: list_all_iff bit_char_def plain_def iscntrl_def)
  moreover have "list_all ?ok (fst p)"
    using assms unfolding opcode_ok_def name_ok_def by (elim conjE) (erule list.pred_mono_strong, simp add: str_def)
  moreover have "list_all ?ok (str '' ('')" "list_all ?ok (str '')'')" by (simp_all add: str_def plain_def iscntrl_def)
  ultimately have "list_all ?ok (op_item p)" by (simp add: op_item_def)
  then show "list_all plain (op_item p)" "0x22 \<notin> set (op_item p)" "0x2c \<notin> set (op_item p)"
    by (auto simp: list_all_iff)
  show "op_item p \<noteq> []" by (simp add: op_item_def str_def)
qed

lemma parse_opcode_item:
  assumes "opcode_ok p"
  shows "parse_opcode (op_item p) cmds = Some (set_opcode cmds p)"
proof -
  let ?d = "str '' '' @ [0x09] @ str ''(''" and ?d' = "str '' '' @ [0x09] @ str ''()''"
  let ?bs = "map bit_char (snd p)"
  have ne: "fst p \<noteq> []" using assms by (simp add: opcode_ok_def name_ok_def)
  have delims: "ch \<notin> set ?d" if "ch \<in> set (fst p)" for ch
  proof -
    have "plain ch" "ch \<notin> set (str '' ,:;()'' @ [0x22])"
      using assms that unfolding opcode_ok_def name_ok_def list_all_iff by simp_all
    then have "ch \<noteq> 0x20" "ch \<noteq> 0x09" "ch \<noteq> 0x28" by (auto simp: str_def plain_def iscntrl_def)
    then show ?thesis by (simp add: str_def)
  qed
  note name = ne delims
  have "strtok ?d (op_item p) = (Some (fst p), 0x28 # ?bs @ [0x29])"
    using strtok_word(1) [OF name, of "0x20" "[]"] by (simp add: op_item_def str_def)
  moreover have "strtok ?d' (0x28 # ?bs @ [0x29]) = (Some ?bs, [])"
  proof -
    have "ch \<notin> set ?d'" if "ch \<in> set ?bs" for ch using that by (auto simp: str_def bit_char_def)
    moreover have "?bs \<noteq> []" using assms by (simp add: opcode_ok_def)
    ultimately show ?thesis using strtok_word(1) [of ?bs ?d' "0x29" "[0x28]" "[]"] by (simp add: str_def)
  qed
  moreover have "strtoul 2 ?bs = horner_sum of_bool 2 (rev (snd p))"
    using assms by (intro strtoul_bits) (simp_all add: opcode_ok_def)
  ultimately show ?thesis
    unfolding parse_opcode_def by (simp add: set_opcode_def Let_def)
qed

lemma parse_opcodes_table:
  "list_all opcode_ok ps \<Longrightarrow> parse_opcodes (op_table ps) cmds = Some (foldl set_opcode cmds ps)"
proof (induction ps arbitrary: cmds rule: op_table.induct)
  case 1
  show ?case by (subst parse_opcodes.simps) (simp add: strtok_def)
next
  case (2 p)
  then have p: "opcode_ok p" by simp
  have "strtok (str '','') (op_item p) = (Some (op_item p), [])"
    using strtok_word(2) [of "op_item p" "str '',''" "0x2c" "[]"] op_item_chars(1,4) [OF p] by (auto simp: str_def)
  moreover have "parse_opcodes [] cmds' = Some cmds'" for cmds'
    by (subst parse_opcodes.simps) (simp add: strtok_def)
  ultimately show ?case using parse_opcode_item [OF p, of cmds] by (subst parse_opcodes.simps) simp
next
  case (3 p q ps)
  then have p: "opcode_ok p" by simp
  have "strtok (str '','') (op_item p @ 0x2c # op_table (q # ps)) = (Some (op_item p), op_table (q # ps))"
    using strtok_word(1) [of "op_item p" "str '',''" "0x2c" "[]"] op_item_chars(1,4) [OF p] by (auto simp: str_def)
  with 3 parse_opcode_item [OF p, of cmds] show ?case by (subst parse_opcodes.simps) simp
qed

lemma collect_op_lines:
  "list_all opcode_ok ps \<Longrightarrow> ps \<noteq> [] \<Longrightarrow>
     collect scan_quoted False False acc (op_lines ps @ s) = Some (acc @ op_table ps, s)"
proof (induction ps arbitrary: acc rule: op_lines.induct)
  case (2 p)
  then have p: "opcode_ok p" by simp
  let ?l = "0x22 # op_item p @ [0x22, 0x3b]"
  have "text_line ?l" using op_item_chars(2) [OF p] by (simp add: isspace_def plain_def iscntrl_def)
  from get_line_text [OF this, of s] scan_quoted_body [OF op_item_chars(3) [OF p], of "[0x3b]"]
  show ?case by (subst collect.simps) simp
next
  case (3 p q ps)
  then have p: "opcode_ok p" by simp
  let ?l = "0x22 # op_item p @ [0x2c, 0x22, 0x20, 0x26]"
  have body: "0x22 \<notin> set (op_item p @ [0x2c])" using op_item_chars(3) [OF p] by simp
  have "text_line ?l" using op_item_chars(2) [OF p] by (simp add: isspace_def plain_def iscntrl_def)
  from get_line_text [OF this, of "op_lines (q # ps) @ s"] scan_quoted_body [OF body, of "[0x20, 0x26]"] 3
  show ?case by (subst collect.simps) simp
qed simp

lemma op_table_length: "ps \<noteq> [] \<Longrightarrow> length (op_table ps) < length (op_lines ps)"
  by (induction ps rule: op_lines.induct) simp_all

lemma opcode_lines_parsed:
  assumes "name_ok e" "list_all opcode_ok ps" "ps \<noteq> []" "\<not> all_found sc" "os_cmdbuf os"
  shows "parse_loop os (attribute_line ''INSTRUCTION_OPCODE'' e [] @ op_lines ps @ s) sc
     = parse_loop os s (sc\<lparr>sc_cmds := foldl set_opcode (sc_cmds sc) ps, sc_found_cmds := True\<rparr>)"
proof -
  have "scan_first False (str ''is'' @ []) = ([], False, False)" by (simp add: str_def)
  then have "parse_opcode_table True (str ''of '' @ e @ str '' : entity is'' @ []) (op_lines ps @ s) sc
      = Some (s, sc\<lparr>sc_cmds := foldl set_opcode (sc_cmds sc) ps, sc_found_cmds := True\<rparr>)"
    using op_table_length [OF assms(3)] unfolding parse_opcode_table_def seek_entity_is_found [OF assms(1)]
    by (simp add: read_value_def collect_op_lines assms(2,3) parse_opcodes_table)
  moreover have "list_all plain []" by simp
  ultimately show ?thesis using assms(5)
    by (simp only: parse_attribute_line [OF assms(1) _ assms(4) attribute_keywords(2)]
        attribute_name [OF attribute_keywords(2)] attribute_keywords(5,7) Let_def if_True if_False) simp
qed

subsection \<open>A whole description\<close>

lemma entity_line_parsed:
  assumes "name_ok e" "os_strdup os" "\<not> all_found sc"
  shows "parse_loop os (str ''entity '' @ e @ str '' is'' @ 0x0a # s) sc = parse_loop os s (sc\<lparr>sc_entityname := Some e\<rparr>)"
proof -
  let ?w = "str ''entity''" and ?u = "e @ 0x20 # str ''is''"
  have w: "word ?w" by (simp add: word_def) (simp add: str_def plain_def iscntrl_def)
  have "list_all plain ?u" using name_okD(2) [OF assms(1)] by (simp add: str_def) (simp add: plain_def iscntrl_def)
  moreover have "parse_statement os ?w ?u s sc = Some (False, s, sc\<lparr>sc_entityname := Some e\<rparr>)"
  proof -
    have "strtoupper ?w = str ''ENTITY''" by (simp add: str_def strtoupper_def toupper_def)
    then show ?thesis
      using strtok_blank [OF name_okD(1) [OF assms(1)], of "str ''is''"] assms(2)
      by (simp add: parse_statement_def parse_entity_def)
  qed
  moreover have "str ''entity '' = ?w @ [0x20]" "str '' is'' = 0x20 # str ''is''" by (simp_all add: str_def)
  ultimately show ?thesis using parse_loop_line [OF w, of ?u sc os s] assms(3) by simp
qed

lemma opcodes_folded:
  "foldl set_opcode c ps =
     c\<lparr>cmd_debug := foldl (\<lambda>v p. if strtoupper (fst p) = str ''DEBUG'' then horner_sum of_bool 2 (rev (snd p)) else v) (cmd_debug c) ps,
       cmd_user1 := foldl (\<lambda>v p. if strtoupper (fst p) = str ''USER1'' then horner_sum of_bool 2 (rev (snd p)) else v) (cmd_user1 c) ps,
       cmd_idcode := foldl (\<lambda>v p. if strtoupper (fst p) = str ''IDCODE'' then horner_sum of_bool 2 (rev (snd p)) else v) (cmd_idcode c) ps\<rparr>"
proof (induction ps arbitrary: c)
  case (Cons p ps)
  have "str ''USER1'' \<noteq> str ''DEBUG''" "str ''IDCODE'' \<noteq> str ''DEBUG''" "str ''IDCODE'' \<noteq> str ''USER1''"
    by (simp_all add: str_def)
  with Cons show ?case by (simp add: set_opcode_def Let_def)
qed simp

text \<open>
  C29. A description in the usual layout is read back exactly: the name of the entity, the length of
  the instruction register, for each of DEBUG, USER1 and IDCODE the opcode given for it (in any case of
  letters, the last one if there are several, the invalid opcode if there is none), and the IDCODE
  together with a mask that has a zero for every don't-care digit. What follows the description in the
  file does not matter.
\<close>

theorem bsdl_roundtrip:
  assumes "name_ok e" "0 < n" "n < 2 ^ 31" "ps \<noteq> []" "list_all opcode_ok ps" "length pat = 32"
    and "os_contents os = Some (bsdl_text e n ps pat @ s)" "os_filedata os" "os_strdup os" "os_cmdbuf os" "os_info os"
  shows "parse_extract_values os = Some (Some
     \<lparr>bi_name = Some e, bi_idcode = pattern_word (\<lambda>p. p = Some True) pat,
      bi_idcode_mask = pattern_word (\<lambda>p. p \<noteq> None) pat, bi_IR_size = int n,
      bi_cmd_debug = opcode_of ''DEBUG'' ps, bi_cmd_user1 = opcode_of ''USER1'' ps,
      bi_cmd_idcode = opcode_of ''IDCODE'' ps\<rparr>)"
proof -
  have open0: "\<not> all_found init_scan" by (simp add: all_found_def init_scan_def)
  have "n < 10 ^ 10" using assms(3) by simp
  then have len: "length (dec_digits n) < 128" using dec_digits_length [of n 10] by simp
  define sc1 where "sc1 = init_scan\<lparr>sc_entityname := Some e, sc_IR_size := int n, sc_found_IR_size := True\<rparr>"
  define sc2 where "sc2 = sc1\<lparr>sc_cmds := foldl set_opcode (sc_cmds sc1) ps, sc_found_cmds := True\<rparr>"
  define sc3 where "sc3 = sc2\<lparr>sc_idcode := pattern_word (\<lambda>p. p = Some True) pat,
      sc_idcode_mask := pattern_word (\<lambda>p. p \<noteq> None) pat, sc_found_idcode := True\<rparr>"
  let ?id = "attribute_line ''IDCODE_REGISTER'' e ([0x20, 0x22] @ map pattern_char pat @ [0x22, 0x3b])"
  have open1: "\<not> all_found (init_scan\<lparr>sc_entityname := Some e\<rparr>)" "\<not> all_found sc1" "\<not> all_found sc2"
    by (simp_all add: all_found_def init_scan_def sc1_def sc2_def)
  have start: "sc_idcode sc2 = 0" "sc_idcode_mask sc2 = -1" by (simp_all add: sc1_def sc2_def init_scan_def)
  have "parse_loop os (bsdl_text e n ps pat @ s) init_scan
      = parse_loop os (attribute_line ''INSTRUCTION_OPCODE'' e [] @ op_lines ps @ ?id @ s) sc1"
    unfolding bsdl_text_def
    using entity_line_parsed [OF assms(1,9) open0] length_line_parsed [OF assms(1-3) len open1(1)]
    by (simp add: sc1_def)
  also have "\<dots> = parse_loop os (?id @ s) sc2"
    using opcode_lines_parsed [OF assms(1,5,4) open1(2) assms(10)] by (simp add: sc2_def)
  also have "\<dots> = parse_loop os s sc3"
    using idcode_line_parsed [OF assms(1,6) open1(3) start] by (simp add: sc3_def)
  also have "\<dots> = Some sc3"
    by (subst parse_loop.simps) (simp add: all_found_def sc1_def sc2_def sc3_def)
  finally have "parse_extract_values os = Some (Some (scan_result sc3))"
    using assms(7,8,11) by (simp add: parse_extract_values_def)
  moreover have "scan_result sc3 = \<lparr>bi_name = Some e, bi_idcode = pattern_word (\<lambda>p. p = Some True) pat,
      bi_idcode_mask = pattern_word (\<lambda>p. p \<noteq> None) pat, bi_IR_size = int n,
      bi_cmd_debug = opcode_of ''DEBUG'' ps, bi_cmd_user1 = opcode_of ''USER1'' ps,
      bi_cmd_idcode = opcode_of ''IDCODE'' ps\<rparr>"
    by (simp add: scan_result_def sc1_def sc2_def sc3_def opcodes_folded opcode_of_def init_scan_def)
  ultimately show ?thesis by simp
qed

lemma name_ok_sample [simp]: "name_ok (str ''XC'')" "name_ok (str ''Debug'')"
  by (simp_all add: name_ok_def) (simp_all add: str_def plain_def iscntrl_def)

theorem bsdl_roundtrip_witness:
  "parse_extract_values (file_os (bsdl_text (str ''XC'') 4 [(str ''Debug'', [True, False, False, False])]
       (None # replicate 30 (Some False) @ [Some True]) @ [0x0a]))
     = Some (Some \<lparr>bi_name = Some (str ''XC''), bi_idcode = 1, bi_idcode_mask = 0x7fffffff, bi_IR_size = 4,
         bi_cmd_debug = 8, bi_cmd_user1 = 0xffffffff, bi_cmd_idcode = 0xffffffff\<rparr>)"
proof -
  let ?ps = "[(str ''Debug'', [True, False, False, False])]" and ?pat = "None # replicate 30 (Some False) @ [Some True]"
  have "list_all opcode_ok ?ps" by (simp add: opcode_ok_def)
  from bsdl_roundtrip [OF name_ok_sample(1) _ _ _ this, of 4 ?pat "file_os (bsdl_text (str ''XC'') 4 ?ps ?pat @ [0x0a])"]
  have "parse_extract_values (file_os (bsdl_text (str ''XC'') 4 ?ps ?pat @ [0x0a])) = Some (Some
     \<lparr>bi_name = Some (str ''XC''), bi_idcode = pattern_word (\<lambda>p. p = Some True) ?pat,
      bi_idcode_mask = pattern_word (\<lambda>p. p \<noteq> None) ?pat, bi_IR_size = 4,
      bi_cmd_debug = opcode_of ''DEBUG'' ?ps, bi_cmd_user1 = opcode_of ''USER1'' ?ps,
      bi_cmd_idcode = opcode_of ''IDCODE'' ?ps\<rparr>)"
    by simp
  moreover have "pattern_word (\<lambda>p. p = Some True) ?pat = 1" "pattern_word (\<lambda>p. p \<noteq> None) ?pat = 0x7fffffff"
    by code_simp+
  moreover have "opcode_of ''DEBUG'' ?ps = 8" "opcode_of ''USER1'' ?ps = 0xffffffff" "opcode_of ''IDCODE'' ?ps = 0xffffffff"
    by (simp_all add: opcode_of_def str_def strtoupper_def toupper_def TAP_CMD_INVALID_def)
  ultimately show ?thesis by simp
qed

text \<open>
  The buffer for the opcodes. It is allocated with the size of what is left of the file behind the
  line, although the part of the table on the line itself is copied into it, too: when the table stands
  on the line of the attribute and is no shorter than the rest of the file, the copy runs over the end
  of the buffer.
\<close>

theorem opcode_buffer_overrun:
  assumes "name_ok e" "list_all plain tbl" "0x22 \<notin> set tbl" "0x3b \<notin> set tbl" "length s \<le> length tbl" "\<not> all_found sc"
  shows "parse_loop os (attribute_line ''INSTRUCTION_OPCODE'' e ([0x20, 0x22] @ tbl @ [0x22, 0x3b]) @ s) sc = None"
proof -
  let ?v = "[0x20, 0x22] @ tbl @ [0x22, 0x3b]"
  have plain: "list_all plain ?v" using assms(2) by (simp add: plain_def iscntrl_def)
  have "scan_first False (str ''is'' @ ?v) = (tbl, True, False)"
    using scan_first_body [OF assms(3,4), of "[0x3b]"] by (simp add: str_def)
  then have "parse_opcode_table alloc (str ''of '' @ e @ str '' : entity is'' @ ?v) s sc = None" for alloc
    using assms(5) unfolding parse_opcode_table_def seek_entity_is_found [OF assms(1)]
    by (simp add: read_value_def)
  then show ?thesis
    by (simp only: parse_attribute_line [OF assms(1) plain assms(6) attribute_keywords(2)]
        attribute_name [OF attribute_keywords(2)] attribute_keywords(5,7) Let_def if_True if_False) simp
qed

theorem opcode_buffer_overrun_witness:
  "parse_loop (file_os []) (attribute_line ''INSTRUCTION_OPCODE'' (str ''XC'') ([0x20, 0x22] @ str ''BYPASS (1111)'' @ [0x22, 0x3b])
     @ str ''end XC;'') init_scan = None"
proof (rule opcode_buffer_overrun)
  show "\<not> all_found init_scan" by (simp add: all_found_def init_scan_def)
qed (simp_all, simp_all add: str_def plain_def iscntrl_def)

end
