(* ===== verification/Errcodes.thy ===== *)
theory Errcodes
  imports Prelude
begin

text \<open>
  errcodes.h, errcodes.c and the buffer helper of utilities.c: the error masks every layer
  returns, their translation to text, and the growth of the scratchpad buffers.
\<close>

definition APP_ERR_NONE :: u32 where "APP_ERR_NONE = 0"
definition APP_ERR_COMM :: u32 where "APP_ERR_COMM = 0x1"
definition APP_ERR_MALLOC :: u32 where "APP_ERR_MALLOC = 0x2"
definition APP_ERR_MAX_RETRY :: u32 where "APP_ERR_MAX_RETRY = 0x4"
definition APP_ERR_CRC :: u32 where "APP_ERR_CRC = 0x08"
definition APP_ERR_MAX_BUS_ERR :: u32 where "APP_ERR_MAX_BUS_ERR = 0x10"
definition APP_ERR_CABLE_INVALID :: u32 where "APP_ERR_CABLE_INVALID = 0x20"
definition APP_ERR_INIT_FAILED :: u32 where "APP_ERR_INIT_FAILED = 0x40"
definition APP_ERR_BAD_PARAM :: u32 where "APP_ERR_BAD_PARAM = 0x080"
definition APP_ERR_CONNECT :: u32 where "APP_ERR_CONNECT = 0x100"
definition APP_ERR_USB :: u32 where "APP_ERR_USB = 0x200"
definition APP_ERR_CABLENOTFOUND :: u32 where "APP_ERR_CABLENOTFOUND = 0x400"
definition APP_ERR_TEST_FAIL :: u32 where "APP_ERR_TEST_FAIL = 0x0800"

lemmas app_err_defs =
  APP_ERR_NONE_def APP_ERR_COMM_def APP_ERR_MALLOC_def APP_ERR_MAX_RETRY_def APP_ERR_CRC_def
  APP_ERR_MAX_BUS_ERR_def APP_ERR_CABLE_INVALID_def APP_ERR_INIT_FAILED_def
  APP_ERR_BAD_PARAM_def APP_ERR_CONNECT_def APP_ERR_USB_def APP_ERR_CABLENOTFOUND_def
  APP_ERR_TEST_FAIL_def

text \<open>
  \<open>get_err_string\<close>: each \<open>if(err & MASK) strcat(errstr, text)\<close> of the source is one entry of
  the list, in the order of the source.
\<close>

definition strcat_if :: "u32 \<Rightarrow> u32 \<Rightarrow> string \<Rightarrow> string \<Rightarrow> string" where
  "strcat_if err m text errstr = (if err AND m \<noteq> 0 then errstr @ text else errstr)"

definition errstr_size :: nat where "errstr_size = 256"

definition get_err_string :: "u32 \<Rightarrow> string" where
  "get_err_string err =
    (let errstr = '''';
         errstr = strcat_if err APP_ERR_COMM ([CHR 0x27] @ ''JTAG comm error'' @ [CHR 0x27] @ '' '') errstr;
         errstr = strcat_if err APP_ERR_MALLOC ([CHR 0x27] @ ''malloc failed'' @ [CHR 0x27] @ '' '') errstr;
         errstr = strcat_if err APP_ERR_MAX_RETRY ([CHR 0x27] @ ''max retries'' @ [CHR 0x27] @ '' '') errstr;
         errstr = strcat_if err APP_ERR_CRC ([CHR 0x27] @ ''CRC mismatch'' @ [CHR 0x27] @ '' '') errstr;
         errstr = strcat_if err APP_ERR_MAX_BUS_ERR
                    ([CHR 0x27] @ ''max WishBone bus errors'' @ [CHR 0x27] @ '' '') errstr;
         errstr = strcat_if err APP_ERR_CABLE_INVALID ([CHR 0x27] @ ''Invalid cable'' @ [CHR 0x27] @ '' '') errstr;
         errstr = strcat_if err APP_ERR_INIT_FAILED ([CHR 0x27] @ ''init failed'' @ [CHR 0x27] @ '' '') errstr;
         errstr = strcat_if err APP_ERR_BAD_PARAM
                    ([CHR 0x27] @ ''bad command line parameter'' @ [CHR 0x27] @ '' '') errstr;
         errstr = strcat_if err APP_ERR_CONNECT ([CHR 0x27] @ ''connection failed'' @ [CHR 0x27] @ '' '') errstr;
         errstr = strcat_if err APP_ERR_USB ([CHR 0x27] @ ''USB'' @ [CHR 0x27] @ '' '') errstr;
         errstr = strcat_if err APP_ERR_CABLENOTFOUND
                    ([CHR 0x27] @ ''cable not found'' @ [CHR 0x27] @ '' '') errstr
     in errstr)"

lemma length_strcat_if:
  "length (strcat_if err m text errstr) \<le> length errstr + length text"
  by (simp add: strcat_if_def)

lemma strcat_if_clear: "err AND m = 0 \<Longrightarrow> strcat_if err m text errstr = errstr"
  by (simp add: strcat_if_def)

lemma strcat_if_Nil_iff:
  "text \<noteq> [] \<Longrightarrow> strcat_if err m text errstr = [] \<longleftrightarrow> err AND m = 0 \<and> errstr = []"
  by (auto simp: strcat_if_def)

lemma get_err_string_length: "length (get_err_string err) < 200"
proof -
  note step = order_trans [OF length_strcat_if add_right_mono]
  show ?thesis
    unfolding get_err_string_def Let_def
    by (rule le_less_trans, (rule step)+, rule order_refl) simp
qed

text \<open>
  The buffers \<open>check_buffer_size\<close> manages. The outcome of each call of malloc is taken from
  an oracle (\<open>True\<close>: it succeeds), so every pattern of failures is covered; an exhausted oracle
  stands for a heap that never fails again.
\<close>

type_synonym malloc_oracle = "bool list"

definition malloc :: "int \<Rightarrow> malloc_oracle \<Rightarrow> u8 list option \<times> malloc_oracle" where
  "malloc n os = (case os of
      [] \<Rightarrow> (Some (replicate (nat n) 0), [])
    | ok # os' \<Rightarrow> (if ok then Some (replicate (nat n) 0) else None, os'))"

record scratch_buf =
  buf :: "u8 list option"
  buf_size_bytes :: int

definition check_buffer_size :: "scratch_buf \<Rightarrow> int \<Rightarrow> malloc_oracle \<Rightarrow> u32 \<times> scratch_buf \<times> malloc_oracle" where
  "check_buffer_size b requested_size_bytes os =
    (if buf_size_bytes b \<ge> requested_size_bytes then (APP_ERR_NONE, b, os)
     else (case malloc requested_size_bytes os of
        (Some p, os') \<Rightarrow> (APP_ERR_NONE, b\<lparr>buf := Some p, buf_size_bytes := requested_size_bytes\<rparr>, os')
      | (None, os') \<Rightarrow> (APP_ERR_MALLOC, b\<lparr>buf := None, buf_size_bytes := 0\<rparr>, os')))"

definition scratch_inv :: "scratch_buf \<Rightarrow> bool" where
  "scratch_inv b \<longleftrightarrow> (case buf b of None \<Rightarrow> buf_size_bytes b = 0
                     | Some p \<Rightarrow> buf_size_bytes b = int (length p))"

lemma check_buffer_size_inv:
  "scratch_inv b \<Longrightarrow> check_buffer_size b n os = (e, b', os') \<Longrightarrow> scratch_inv b'"
  by (auto simp: check_buffer_size_def scratch_inv_def malloc_def
      split: if_splits list.splits option.splits)

lemma check_buffer_size_err:
  "check_buffer_size b n os = (e, b', os') \<Longrightarrow> e = APP_ERR_NONE \<or> e = APP_ERR_MALLOC"
  by (auto simp: check_buffer_size_def split: if_splits prod.splits option.splits)

lemma check_buffer_size_room:
  assumes "scratch_inv b" and "check_buffer_size b n os = (APP_ERR_NONE, b', os')"
  shows "n \<le> buf_size_bytes b' \<and> (0 < n \<longrightarrow> buf b' \<noteq> None)"
  using assms
  by (auto simp: check_buffer_size_def scratch_inv_def malloc_def APP_ERR_NONE_def APP_ERR_MALLOC_def
      split: if_splits list.splits option.splits)

end
