(* ===== verification/Cable_Common.thy ===== *)
theory Cable_Common
  imports Errcodes
begin

unbundle bit_operations_syntax

text \<open>
  cable_common.h and cable_common.c: the table of cable drivers, the calls the upper layers make
  through the selected driver, and the bit-bang routines drivers without a fast transfer mode
  use. A driver is a record of functions, as the C struct \<open>jtag_cable_t\<close> is a record of function
  pointers; \<open>'s\<close> is the state of the driver and of what hangs on its wires. The global
  \<open>jtag_cable_in_use\<close> is the argument \<open>c\<close>.

  The interface the upper layers rely on is the locale \<open>jtag_cable\<close>; the bit-bang driver is shown
  to provide it for every JTAG device on the wires.
\<close>

subsection \<open>Packets and pins\<close>

definition TRST :: u8 where "TRST = 0x04"
definition TMS :: u8 where "TMS = 0x02"
definition TDO :: u8 where "TDO = 0x01"

definition TCLK_BIT :: u8 where "TCLK_BIT = 0x01"
definition TRST_BIT :: u8 where "TRST_BIT = 0x02"
definition TDI_BIT :: u8 where "TDI_BIT = 0x04"
definition TMS_BIT :: u8 where "TMS_BIT = 0x08"
definition TDO_BIT :: u8 where "TDO_BIT = 0x20"

lemmas packet_defs = TRST_def TMS_def TDO_def
lemmas pin_defs = TCLK_BIT_def TRST_BIT_def TDI_BIT_def TMS_BIT_def TDO_BIT_def

record 's jtag_cable_t =
  name :: string
  inout_func :: "u8 \<Rightarrow> 's \<Rightarrow> (u32 \<times> u8 \<times> 's) option"
  out_func :: "u8 \<Rightarrow> 's op"
  init_func :: "'s op"
  opt_func :: "int \<Rightarrow> string \<Rightarrow> 's op"
  bit_out_func :: "u8 \<Rightarrow> 's op"
  bit_inout_func :: "u8 \<Rightarrow> 's \<Rightarrow> (u32 \<times> u8 \<times> 's) option"
  stream_out_func :: "u32 list \<Rightarrow> int \<Rightarrow> bool \<Rightarrow> 's op"
  stream_inout_func :: "u32 list \<Rightarrow> u32 list \<Rightarrow> int \<Rightarrow> bool \<Rightarrow> 's \<Rightarrow> (u32 \<times> u32 list \<times> 's) option"
  flush_func :: "'s op option"
  opts :: "string option"
  help_text :: "string option"

subsection \<open>Selecting a cable\<close>

text \<open>
  The table \<open>jtag_cables\<close> has JTAG_MAX_CABLES entries; \<open>cable_setup\<close> fills it from the front with the
  drivers the build supports and leaves the rest NULL, so it is the list of those drivers.
\<close>

definition JTAG_MAX_CABLES :: nat where "JTAG_MAX_CABLES = 16"

record build_config =
  support_parallel_cables :: bool
  support_usb_cables :: bool
  support_ftdi_cables :: bool

record 's driver_set =
  rtl_driver :: "'s jtag_cable_t"
  vpi_driver :: "'s jtag_cable_t"
  xpc3_driver :: "'s jtag_cable_t"
  bb2_driver :: "'s jtag_cable_t"
  xess_driver :: "'s jtag_cable_t"
  usbblaster_driver :: "'s jtag_cable_t"
  xpcusb_driver :: "'s jtag_cable_t"
  ftdi_driver :: "'s jtag_cable_t"
  ft245_driver :: "'s jtag_cable_t"

definition cable_setup :: "build_config \<Rightarrow> 's driver_set \<Rightarrow> 's jtag_cable_t list" where
  "cable_setup cfg ds =
     [rtl_driver ds, vpi_driver ds]
     @ (if support_parallel_cables cfg then [xpc3_driver ds, bb2_driver ds, xess_driver ds] else [])
     @ (if support_usb_cables cfg
        then [usbblaster_driver ds, xpcusb_driver ds]
             @ (if support_ftdi_cables cfg then [ftdi_driver ds, ft245_driver ds] else [])
        else [])"

fun cable_select :: "string \<Rightarrow> 's jtag_cable_t list \<Rightarrow> 's jtag_cable_t option \<Rightarrow> u32 \<times> 's jtag_cable_t option" where
  "cable_select cable [] in_use = (APP_ERR_CABLE_INVALID, in_use)"
| "cable_select cable (c # cs) in_use =
     (if cable = name c then (APP_ERR_NONE, Some c) else cable_select cable cs in_use)"

definition cable_init :: "'s jtag_cable_t option \<Rightarrow> 's op" where
  "cable_init in_use s = do { c \<leftarrow> in_use; init_func c s }"

definition cable_parse_opt :: "'s jtag_cable_t option \<Rightarrow> int \<Rightarrow> string \<Rightarrow> 's op" where
  "cable_parse_opt in_use ch arg s = do { c \<leftarrow> in_use; opt_func c ch arg s }"

definition cable_get_args :: "'s jtag_cable_t option \<Rightarrow> string option" where
  "cable_get_args in_use = (case in_use of Some c \<Rightarrow> opts c | None \<Rightarrow> None)"

fun print_names :: "bool \<Rightarrow> 's jtag_cable_t list \<Rightarrow> string" where
  "print_names first [] = ''''"
| "print_names first (c # cs) = (if first then '''' else '', '') @ name c @ print_names False cs"

fun print_opts :: "'s jtag_cable_t list \<Rightarrow> string" where
  "print_opts [] = ''''"
| "print_opts (c # cs) =
     (case help_text c of
        None \<Rightarrow> print_opts cs
      | Some h \<Rightarrow> ''  '' @ name c @ '':'' @ [CHR 0x0A] @ ''    '' @ h @ print_opts cs)"

definition cable_print_help :: "'s jtag_cable_t list \<Rightarrow> string" where
  "cable_print_help cs =
     ''Available cables: '' @ print_names True cs @ [CHR 0x0A, CHR 0x0A]
     @ ''Options availible for the cables:'' @ [CHR 0x0A] @ print_opts cs"

subsection \<open>The cable API\<close>

definition cable_write_stream :: "'s jtag_cable_t \<Rightarrow> u32 list \<Rightarrow> int \<Rightarrow> bool \<Rightarrow> 's op" where
  "cable_write_stream c stream len_bits set_last_bit = stream_out_func c stream len_bits set_last_bit"

definition cable_read_write_stream ::
  "'s jtag_cable_t \<Rightarrow> u32 list \<Rightarrow> u32 list \<Rightarrow> int \<Rightarrow> bool \<Rightarrow> 's \<Rightarrow> (u32 \<times> u32 list \<times> 's) option" where
  "cable_read_write_stream c outstream instream len_bits set_last_bit =
     stream_inout_func c outstream instream len_bits set_last_bit"

definition cable_write_bit :: "'s jtag_cable_t \<Rightarrow> u8 \<Rightarrow> 's op" where
  "cable_write_bit c packet = bit_out_func c packet"

definition cable_read_write_bit :: "'s jtag_cable_t \<Rightarrow> u8 \<Rightarrow> 's \<Rightarrow> (u32 \<times> u8 \<times> 's) option" where
  "cable_read_write_bit c packet_out = bit_inout_func c packet_out"

definition cable_flush :: "'s jtag_cable_t \<Rightarrow> 's op" where
  "cable_flush c s = (case flush_func c of Some f \<Rightarrow> f s | None \<Rightarrow> Some (APP_ERR_NONE, s))"

subsection \<open>Bit-bang routines\<close>

definition packet_pins :: "u8 \<Rightarrow> u8" where
  "packet_pins packet =
    (let data = TRST_BIT;
         data = (if packet AND TDO \<noteq> 0 then data OR TDI_BIT else data);
         data = (if packet AND TMS \<noteq> 0 then data OR TMS_BIT else data);
         data = (if packet AND TRST \<noteq> 0 then data AND NOT TRST_BIT else data)
     in data)"

definition cable_common_write_bit :: "'s jtag_cable_t \<Rightarrow> u8 \<Rightarrow> 's op" where
  "cable_common_write_bit c packet s =
    (let data = packet_pins packet in
     do { (e1, s) \<leftarrow> out_func c data s;
          (e2, s) \<leftarrow> out_func c (data OR TCLK_BIT) s;
          Some (e1 OR e2, s) })"

definition cable_common_read_write_bit :: "'s jtag_cable_t \<Rightarrow> u8 \<Rightarrow> 's \<Rightarrow> (u32 \<times> u8 \<times> 's) option" where
  "cable_common_read_write_bit c packet_out s =
    (let data = packet_pins packet_out in
     do { (e1, s) \<leftarrow> out_func c data s;
          (e2, bit_in, s) \<leftarrow> inout_func c (data OR TCLK_BIT) s;
          Some (e1 OR e2, bit_in, s) })"

text \<open>
  The shift of a 32-bit value by a count that may reach past the width is undefined in C; what the
  machine does is the argument \<open>shr\<close>. Inside the loops the count stays below 32; the last bit of a
  stream is shifted by \<open>len_bits - 1\<close>.
\<close>

definition next_pos :: "nat \<times> nat \<Rightarrow> nat \<times> nat" where
  "next_pos = (\<lambda>(index, bits_this_index).
     if bits_this_index + 1 \<ge> 32 then (index + 1, 0) else (index, bits_this_index + 1))"

fun write_stream_loop ::
  "(u32 \<Rightarrow> nat \<Rightarrow> u32) \<Rightarrow> 's jtag_cable_t \<Rightarrow> u32 list \<Rightarrow> nat \<Rightarrow> nat \<times> nat \<Rightarrow> 's \<Rightarrow> (u32 \<times> nat \<times> 's) option" where
  "write_stream_loop shr c stream 0 (index, b) s = Some (0, index, s)"
| "write_stream_loop shr c stream (Suc n) (index, b) s =
     do { w \<leftarrow> word_at stream index;
          (e, s) \<leftarrow> cable_write_bit c (ucast (shr w b AND 1)) s;
          (e', index', s) \<leftarrow> write_stream_loop shr c stream n (next_pos (index, b)) s;
          Some (e OR e', index', s) }"

definition cable_common_write_stream ::
  "(u32 \<Rightarrow> nat \<Rightarrow> u32) \<Rightarrow> 's jtag_cable_t \<Rightarrow> u32 list \<Rightarrow> int \<Rightarrow> bool \<Rightarrow> 's op" where
  "cable_common_write_stream shr c stream len_bits set_last_bit s =
     (if len_bits \<le> 0 then None
      else do { (e, index, s) \<leftarrow> write_stream_loop shr c stream (nat (len_bits - 1)) (0, 0) s;
                w \<leftarrow> word_at stream index;
                let out = ucast (shr w (nat (len_bits - 1)) AND 1);
                let out = (if set_last_bit then out OR TMS else out);
                (e', s) \<leftarrow> cable_write_bit c out s;
                Some (e OR e', s) })"

fun read_stream_loop ::
  "(u32 \<Rightarrow> nat \<Rightarrow> u32) \<Rightarrow> 's jtag_cable_t \<Rightarrow> u32 list \<Rightarrow> u32 list \<Rightarrow> nat \<Rightarrow> nat \<times> nat \<Rightarrow> 's
     \<Rightarrow> (u32 \<times> (nat \<times> nat) \<times> u32 list \<times> 's) option" where
  "read_stream_loop shr c outs ins 0 pos s = Some (0, pos, ins, s)"
| "read_stream_loop shr c outs ins (Suc n) (index, b) s =
     do { w \<leftarrow> word_at outs index;
          (e, inval, s) \<leftarrow> cable_read_write_bit c (ucast (shr w b AND 1)) s;
          v \<leftarrow> word_at ins index;
          ins \<leftarrow> put_at ins index (v OR push_bit b (ucast inval));
          let pos' = next_pos (index, b);
          ins \<leftarrow> (if b + 1 \<ge> 32 then put_at ins (fst pos') 0 else Some ins);
          (e', pos'', ins, s) \<leftarrow> read_stream_loop shr c outs ins n pos' s;
          Some (e OR e', pos'', ins, s) }"

definition cable_common_read_stream ::
  "(u32 \<Rightarrow> nat \<Rightarrow> u32) \<Rightarrow> 's jtag_cable_t \<Rightarrow> u32 list \<Rightarrow> u32 list \<Rightarrow> int \<Rightarrow> bool \<Rightarrow> 's
     \<Rightarrow> (u32 \<times> u32 list \<times> 's) option" where
  "cable_common_read_stream shr c outstream instream len_bits set_last_bit s =
     (if len_bits \<le> 0 then None
      else do { ins \<leftarrow> put_at instream 0 0;
                (e, (index, b), ins, s) \<leftarrow> read_stream_loop shr c outstream ins (nat (len_bits - 1)) (0, 0) s;
                w \<leftarrow> word_at outstream index;
                let outval = ucast (shr w (nat (len_bits - 1)) AND 1);
                let outval = (if set_last_bit then outval OR TMS else outval);
                (e', inval, s) \<leftarrow> cable_read_write_bit c outval s;
                v \<leftarrow> word_at ins index;
                ins \<leftarrow> put_at ins index (v OR push_bit b (ucast inval));
                Some (e OR e', ins, s) })"

subsection \<open>What a stream puts on the wires\<close>

definition stream_packet :: "u32 list \<Rightarrow> nat \<Rightarrow> bool \<Rightarrow> nat \<Rightarrow> u8" where
  "stream_packet ws n tms_last i =
     (if stream_bit ws i then TDO else 0) OR (if tms_last \<and> Suc i = n then TMS else 0)"

definition stream_packets :: "u32 list \<Rightarrow> nat \<Rightarrow> bool \<Rightarrow> u8 list" where
  "stream_packets ws n tms_last = map (stream_packet ws n tms_last) [0..<n]"

fun tdo_trace :: "(u8 \<Rightarrow> 'd \<Rightarrow> 'd) \<Rightarrow> ('d \<Rightarrow> bool) \<Rightarrow> u8 list \<Rightarrow> 'd \<Rightarrow> bool list" where
  "tdo_trace step tdo [] d = []"
| "tdo_trace step tdo (p # ps) d = tdo d # tdo_trace step tdo ps (step p d)"

definition word_of_bits :: "bool list \<Rightarrow> u32" where
  "word_of_bits bs = horner_sum of_bool 2 bs"

fun pack_bits :: "bool list \<Rightarrow> u32 list" where
  "pack_bits bs = (if bs = [] then [] else word_of_bits (take 32 bs) # pack_bits (drop 32 bs))"

declare pack_bits.simps [simp del]

lemma length_tdo_trace [simp]: "length (tdo_trace step tdo ps d) = length ps"
  by (induction ps arbitrary: d) auto

lemma tdo_trace_append:
  "tdo_trace step tdo (ps @ qs) d = tdo_trace step tdo ps d @ tdo_trace step tdo qs (fold step ps d)"
  by (induction ps arbitrary: d) auto

lemma length_stream_packets [simp]: "length (stream_packets ws n tms_last) = n"
  by (simp add: stream_packets_def)

lemma bit_word_of_bits: "bit (word_of_bits bs) i \<longleftrightarrow> i < 32 \<and> i < length bs \<and> bs ! i"
  by (auto simp: word_of_bits_def bit_horner_sum_bit_word_iff nth_append)

lemma pack_bits_Nil [simp]: "pack_bits [] = []"
  by (simp add: pack_bits.simps)

lemma length_pack_bits: "length (pack_bits bs) = (length bs + 31) div 32"
proof (induction bs rule: pack_bits.induct)
  case (1 bs)
  have "Suc ((length bs - 32 + 31) div 32) = (length bs + 31) div 32" if "0 < length bs"
  proof (cases "length bs < 32")
    case True
    with that have "(length bs + 31) div 32 = 1" by (intro div_nat_eqI) (auto simp: Suc_le_eq)
    with True show ?thesis by simp
  next
    case False
    then obtain k where "length bs = k + 32" by (metis add.commute le_Suc_ex not_less)
    then show ?thesis by simp
  qed
  with 1 show ?case
    by (cases "bs = []") (simp_all add: pack_bits.simps [of bs])
qed

lemma nth_pack_bits:
  "k < length (pack_bits bs) \<Longrightarrow> pack_bits bs ! k = word_of_bits (take 32 (drop (32 * k) bs))"
proof (induction bs arbitrary: k rule: pack_bits.induct)
  case (1 bs)
  then show ?case
    by (cases k) (auto simp: pack_bits.simps [of bs] drop_drop add.commute split: if_splits)
qed

lemma pack_bits_single: "bs \<noteq> [] \<Longrightarrow> length bs \<le> 32 \<Longrightarrow> pack_bits bs = [word_of_bits bs]"
  by (simp add: pack_bits.simps)

lemma stream_bits_pack_bits: "stream_bits (pack_bits bs @ ws) (length bs) = bs"
proof (rule nth_equalityI)
  fix i assume "i < length (stream_bits (pack_bits bs @ ws) (length bs))"
  then have i: "i < length bs" by simp
  have k: "i div 32 < length (pack_bits bs)"
    using i by (simp add: length_pack_bits)
  have split: "32 * (i div 32) + i mod 32 = i" by simp
  then have "i mod 32 < length bs - 32 * (i div 32)" using i by linarith
  with split i k show "stream_bits (pack_bits bs @ ws) (length bs) ! i = bs ! i"
    by (simp add: stream_bits_def stream_bit_def nth_append nth_pack_bits bit_word_of_bits)
qed simp

subsection \<open>The contract of a cable driver\<close>

text \<open>
  What the upper layers rely on. \<open>dev\<close> reads the state of the JTAG chain on the wires out of the
  driver's state, \<open>step\<close> is one TCK cycle of the chain with the pins of a packet, and \<open>tdo\<close> the level
  of TDO before that cycle. A working driver clocks exactly the bits it is given into the chain, in
  order, returns the TDO levels in the bits of the input buffer, and reports no error.
\<close>

locale jtag_cable =
  fixes c :: "'s jtag_cable_t"
    and dev :: "'s \<Rightarrow> 'd"
    and ok :: "'s \<Rightarrow> bool"
    and step :: "u8 \<Rightarrow> 'd \<Rightarrow> 'd"
    and tdo :: "'d \<Rightarrow> bool"
  assumes bit_out: "ok s \<Longrightarrow> \<exists>s'. bit_out_func c p s = Some (0, s') \<and> ok s' \<and> dev s' = step p (dev s)"
    and bit_inout: "ok s \<Longrightarrow> \<exists>s'. bit_inout_func c p s = Some (0, of_bool (tdo (dev s)), s')
                      \<and> ok s' \<and> dev s' = step p (dev s)"
    and stream_out: "ok s \<Longrightarrow> 0 < n \<Longrightarrow> n \<le> 32 * length ws \<Longrightarrow>
       \<exists>s'. stream_out_func c ws (int n) tms_last s = Some (0, s') \<and> ok s'
            \<and> dev s' = fold step (stream_packets ws n tms_last) (dev s)"
    and stream_inout: "ok s \<Longrightarrow> 0 < n \<Longrightarrow> n \<le> 32 * length ws \<Longrightarrow> n \<le> 32 * length ins \<Longrightarrow>
       \<exists>s'. stream_inout_func c ws ins (int n) tms_last s =
              Some (0, pack_bits (tdo_trace step tdo (stream_packets ws n tms_last) (dev s))
                       @ drop ((n + 31) div 32) ins, s')
            \<and> ok s' \<and> dev s' = fold step (stream_packets ws n tms_last) (dev s)"
    and flush_ok: "ok s \<Longrightarrow> \<exists>s'. cable_flush c s = Some (0, s') \<and> ok s' \<and> dev s' = dev s"

subsection \<open>The bit-bang driver keeps the contract\<close>

text \<open>
  The wires of a bit-bang cable: a write of the pins clocks the chain when TCK rises; TDO is read
  as it was before that edge (it only changes on falling edges). TRST is active low on the wire.
\<close>

locale pin_port =
  fixes c :: "'s jtag_cable_t"
    and dev :: "'s \<Rightarrow> 'd"
    and level :: "'s \<Rightarrow> bool"
    and ok :: "'s \<Rightarrow> bool"
    and pin_step :: "bool \<Rightarrow> bool \<Rightarrow> bool \<Rightarrow> 'd \<Rightarrow> 'd"
    and tdo :: "'d \<Rightarrow> bool"
  assumes out_pins: "data < 16 \<Longrightarrow> ok s \<Longrightarrow> \<exists>s'. out_func c data s = Some (0, s') \<and> ok s' \<and> level s' = bit data 0
      \<and> dev s' = (if \<not> level s \<and> bit data 0
                  then pin_step (\<not> bit data 1) (bit data 3) (bit data 2) (dev s) else dev s)"
    and inout_pins: "data < 16 \<Longrightarrow> ok s \<Longrightarrow> \<exists>s'. inout_func c data s = Some (0, of_bool (tdo (dev s)), s') \<and> ok s'
      \<and> level s' = bit data 0
      \<and> dev s' = (if \<not> level s \<and> bit data 0
                  then pin_step (\<not> bit data 1) (bit data 3) (bit data 2) (dev s) else dev s)"

definition packet_step :: "(bool \<Rightarrow> bool \<Rightarrow> bool \<Rightarrow> 'd \<Rightarrow> 'd) \<Rightarrow> u8 \<Rightarrow> 'd \<Rightarrow> 'd" where
  "packet_step pin_step p = pin_step (bit p 2) (bit p 1) (bit p 0)"

lemma and_single_bit: "(p :: u8) AND 2 ^ k \<noteq> 0 \<longleftrightarrow> bit p k"
  by (metis and_exp_eq_0_iff_not_bit)

lemma and_masks [simp]:
  "(p :: u8) AND 1 \<noteq> 0 \<longleftrightarrow> bit p 0" "p AND 2 \<noteq> 0 \<longleftrightarrow> bit p 1" "p AND 4 \<noteq> 0 \<longleftrightarrow> bit p 2"
  using and_single_bit [of p 0] and_single_bit [of p 1] and_single_bit [of p 2] by simp_all

lemma bit_packet_pins:
  "bit (packet_pins p) 0 \<longleftrightarrow> False" "bit (packet_pins p) (Suc 0) \<longleftrightarrow> \<not> bit p 2"
  "bit (packet_pins p) 2 \<longleftrightarrow> bit p 0" "bit (packet_pins p) 3 \<longleftrightarrow> bit p 1"
  by (auto simp: packet_pins_def Let_def packet_defs pin_defs bit_simps)

lemma bit_packet_pins_clk:
  "bit (packet_pins p OR TCLK_BIT) 0" "bit (packet_pins p OR TCLK_BIT) (Suc 0) \<longleftrightarrow> \<not> bit p 2"
  "bit (packet_pins p OR TCLK_BIT) 2 \<longleftrightarrow> bit p 0" "bit (packet_pins p OR TCLK_BIT) 3 \<longleftrightarrow> bit p 1"
  by (simp_all add: bit_or_iff bit_packet_pins TCLK_BIT_def bit_simps)

lemma packet_pins_small: "packet_pins p < 16" "packet_pins p OR TCLK_BIT < 16"
  by (auto simp: packet_pins_def Let_def packet_defs pin_defs)

context pin_port
begin

lemma write_bit:
  assumes "ok s"
  shows "\<exists>s'. cable_common_write_bit c p s = Some (0, s') \<and> ok s' \<and> dev s' = packet_step pin_step p (dev s)"
proof -
  obtain s1 where s1: "out_func c (packet_pins p) s = Some (0, s1)" "ok s1" "\<not> level s1" "dev s1 = dev s"
    using out_pins [OF packet_pins_small(1) assms] by (auto simp: bit_packet_pins)
  obtain s2 where "out_func c (packet_pins p OR TCLK_BIT) s1 = Some (0, s2)" "ok s2"
    "dev s2 = packet_step pin_step p (dev s)"
    using out_pins [OF packet_pins_small(2) s1(2)] s1(3,4)
    by (auto simp: bit_packet_pins_clk packet_step_def)
  with s1 show ?thesis by (simp add: cable_common_write_bit_def)
qed

lemma read_write_bit:
  assumes "ok s"
  shows "\<exists>s'. cable_common_read_write_bit c p s = Some (0, of_bool (tdo (dev s)), s') \<and> ok s'
              \<and> dev s' = packet_step pin_step p (dev s)"
proof -
  obtain s1 where s1: "out_func c (packet_pins p) s = Some (0, s1)" "ok s1" "\<not> level s1" "dev s1 = dev s"
    using out_pins [OF packet_pins_small(1) assms] by (auto simp: bit_packet_pins)
  obtain s2 where "inout_func c (packet_pins p OR TCLK_BIT) s1 = Some (0, of_bool (tdo (dev s)), s2)"
    "ok s2" "dev s2 = packet_step pin_step p (dev s)"
    using inout_pins [OF packet_pins_small(2) s1(2)] s1(3,4)
    by (auto simp: bit_packet_pins_clk packet_step_def)
  with s1 show ?thesis by (simp add: cable_common_read_write_bit_def)
qed

end

lemma next_pos_div_mod [simp]: "next_pos (i div 32, i mod 32) = (Suc i div 32, Suc i mod 32)"
  using mod_less_divisor [of 32 i] by (auto simp: next_pos_def div_Suc mod_Suc)

lemma ucast_of_bool [simp]: "ucast (of_bool b :: u8) = (of_bool b :: u32)"
  by (cases b) simp_all

lemma ucast_low_bit: "ucast (drop_bit b w AND 1 :: u32) = (of_bool (bit w b) :: u8)"
  by (simp add: and_one_eq bit_iff_odd_drop_bit mod_2_eq_odd)

text \<open>
  The input buffer after the levels \<open>tr\<close> have been read: whole words first, the word being filled
  with its upper bits clear, and the words behind it as they were.
\<close>

definition in_buf :: "bool list \<Rightarrow> u32 list \<Rightarrow> u32 list \<Rightarrow> bool" where
  "in_buf tr ins0 ins \<longleftrightarrow> length ins = length ins0 \<and>
     (\<forall>k < length ins. ins ! k = (if k \<le> length tr div 32 then word_of_bits (take 32 (drop (32 * k) tr)) else ins0 ! k))"

lemma word_of_bits_snoc:
  "length xs < 32 \<Longrightarrow> word_of_bits (xs @ [b]) = word_of_bits xs OR push_bit (length xs) (of_bool b)"
  by (rule bit_word_eqI) (auto simp: bit_word_of_bits bit_or_iff bit_push_bit_iff nth_append bit_simps)

lemma word_of_bits_Nil [simp]: "word_of_bits [] = 0"
  by (simp add: word_of_bits_def)

lemma in_buf_init: "0 < length ins \<Longrightarrow> in_buf [] ins (ins[0 := 0])"
  by (auto simp: in_buf_def nth_list_update)

lemma take_drop_snoc_same:
  "k = length tr div 32 \<Longrightarrow> take 32 (drop (32 * k) (tr @ [b])) = take 32 (drop (32 * k) tr) @ [b]"
  by (simp add: minus_mult_div_eq_mod take_Cons')

lemma take_drop_snoc_below:
  "k < length tr div 32 \<Longrightarrow> take 32 (drop (32 * k) (tr @ [b])) = take 32 (drop (32 * k) tr)"
proof -
  assume "k < length tr div 32"
  then have "32 * k + 32 \<le> length tr" by (simp add: less_eq_div_iff_mult_less_eq Suc_le_eq [symmetric])
  then show ?thesis by simp
qed

lemma fill_word:
  assumes "in_buf tr ins0 ins" and "length tr div 32 < length ins" and "k \<le> length tr div 32"
  shows "ins[length tr div 32 := ins ! (length tr div 32) OR push_bit (length tr mod 32) (of_bool b)] ! k
         = word_of_bits (take 32 (drop (32 * k) (tr @ [b])))"
proof (cases "k = length tr div 32")
  case True
  let ?xs = "take 32 (drop (32 * k) tr)"
  have len: "length ?xs = length tr mod 32"
    using True by (simp add: minus_mult_div_eq_mod)
  then have "word_of_bits (?xs @ [b]) = word_of_bits ?xs OR push_bit (length tr mod 32) (of_bool b)"
    using word_of_bits_snoc [of ?xs b] by (simp only: len)
  then show ?thesis
    using assms True by (simp add: in_buf_def take_drop_snoc_same)
next
  case False
  with assms show ?thesis
    by (simp add: in_buf_def take_drop_snoc_below)
qed

lemma in_buf_step:
  assumes inv: "in_buf tr ins0 ins" and room: "Suc (length tr) < 32 * length ins"
    and ins1: "ins1 = ins[length tr div 32 := ins ! (length tr div 32) OR push_bit (length tr mod 32) (of_bool b)]"
    and ins2: "ins2 = (if 32 \<le> length tr mod 32 + 1 then ins1[Suc (length tr) div 32 := 0] else ins1)"
  shows "in_buf (tr @ [b]) ins0 ins2"
proof -
  have idx: "length tr div 32 < length ins" and idx': "Suc (length tr) div 32 < length ins"
    using room by (auto intro: less_mult_imp_div_less)
  have len: "length ins2 = length ins0" using inv by (simp add: ins1 ins2 in_buf_def)
  have "ins2 ! k = (if k \<le> Suc (length tr) div 32
          then word_of_bits (take 32 (drop (32 * k) (tr @ [b]))) else ins0 ! k)" if k: "k < length ins2" for k
  proof (cases "length tr mod 32 = 31")
    case True
    then have suc: "Suc (length tr) div 32 = Suc (length tr div 32)" by (simp add: div_Suc mod_Suc)
    have full: "length tr + 1 = 32 * Suc (length tr div 32)"
      using True mult_div_mod_eq [of 32 "length tr"] by simp
    show ?thesis
    proof (cases "k \<le> length tr div 32")
      case True
      then show ?thesis
        using fill_word [OF inv idx True, of b] suc by (simp add: ins2 ins1)
    next
      case False
      with k inv show ?thesis
        using full suc idx' \<open>length tr mod 32 = 31\<close>
        by (auto simp: ins2 ins1 in_buf_def nth_list_update not_le Suc_le_eq)
    qed
  next
    case False
    then have suc: "Suc (length tr) div 32 = length tr div 32" and nf: "\<not> 32 \<le> length tr mod 32 + 1"
      using mod_less_divisor [of 32 "length tr"] by (auto simp: div_Suc mod_Suc)
    have eq: "ins2 = ins1" using nf by (simp only: ins2 if_False)
    show ?thesis
    proof (cases "k \<le> length tr div 32")
      case True
      then show ?thesis using fill_word [OF inv idx True, of b] by (simp only: eq ins1 suc if_True)
    next
      case False
      with k inv show ?thesis by (simp add: eq ins1 suc in_buf_def)
    qed
  qed
  with len show ?thesis by (simp add: in_buf_def)
qed

lemma in_buf_last:
  assumes inv: "in_buf tr ins0 ins" and room: "length tr < 32 * length ins"
  shows "ins[length tr div 32 := ins ! (length tr div 32) OR push_bit (length tr mod 32) (of_bool b)]
         = pack_bits (tr @ [b]) @ drop (Suc (length tr div 32)) ins0" (is "?l = ?r")
proof (rule nth_equalityI)
  have idx: "length tr div 32 < length ins"
    using room by (auto intro: less_mult_imp_div_less)
  have np: "length (pack_bits (tr @ [b])) = Suc (length tr div 32)"
    by (simp add: length_pack_bits)
  show "length ?l = length ?r"
    using inv idx by (simp add: np in_buf_def)
  fix k assume k: "k < length ?l"
  show "?l ! k = ?r ! k"
  proof (cases "k \<le> length tr div 32")
    case True
    then have "k < length (pack_bits (tr @ [b]))" by (simp add: np)
    then have "?r ! k = word_of_bits (take 32 (drop (32 * k) (tr @ [b])))"
      by (simp add: nth_append nth_pack_bits)
    then show ?thesis using fill_word [OF inv idx True, of b] by simp
  next
    case False
    with inv k show ?thesis by (simp add: nth_append np in_buf_def not_le)
  qed
qed

locale bitbang_cable = pin_port +
  fixes shr :: "u32 \<Rightarrow> nat \<Rightarrow> u32"
  assumes bit_out_wired: "bit_out_func c = cable_common_write_bit c"
    and bit_inout_wired: "bit_inout_func c = cable_common_read_write_bit c"
    and stream_out_wired: "stream_out_func c = cable_common_write_stream shr c"
    and stream_inout_wired: "stream_inout_func c = cable_common_read_stream shr c"
    and flush_wired: "flush_func c = None"
    and shr_small: "n < 32 \<Longrightarrow> shr w n = drop_bit n w"
    and shr_wraps: "shr w n = shr w (n mod 32)"
begin

abbreviation "step \<equiv> packet_step pin_step"

lemma shr_bit: "ucast (shr w n AND 1) = (of_bool (bit w (n mod 32)) :: u8)"
  using shr_small [of "n mod 32" w] by (simp add: shr_wraps [of w n] ucast_low_bit)

lemma write_loop:
  "ok s \<Longrightarrow> i + n \<le> 32 * length ws \<Longrightarrow>
    \<exists>s'. write_stream_loop shr c ws n (i div 32, i mod 32) s = Some (0, (i + n) div 32, s') \<and> ok s'
         \<and> dev s' = fold step (map (\<lambda>j. of_bool (stream_bit ws j)) [i..<i + n]) (dev s)"
proof (induction n arbitrary: i s)
  case 0
  then show ?case by simp
next
  case (Suc n)
  have idx: "i div 32 < length ws" using Suc.prems(2) by (simp add: less_mult_imp_div_less)
  obtain s1 where s1: "cable_write_bit c (of_bool (stream_bit ws i)) s = Some (0, s1)" "ok s1"
    "dev s1 = step (of_bool (stream_bit ws i)) (dev s)"
    using write_bit [OF Suc.prems(1)] by (metis cable_write_bit_def bit_out_wired)
  obtain s2 where "write_stream_loop shr c ws n (Suc i div 32, Suc i mod 32) s1 = Some (0, (Suc i + n) div 32, s2)"
    "ok s2" "dev s2 = fold step (map (\<lambda>j. of_bool (stream_bit ws j)) [Suc i..<Suc i + n]) (dev s1)"
    using Suc.IH [OF s1(2), of "Suc i"] Suc.prems(2) by auto
  moreover have "[i..<i + Suc n] = i # [Suc i..<Suc i + n]"
    by (simp add: upt_conv_Cons)
  ultimately show ?case
    using s1 idx by (simp add: shr_bit stream_bit_def)
qed

lemma read_loop:
  "ok s \<Longrightarrow> length tr + n < 32 * length ws \<Longrightarrow> length tr + n < 32 * length ins \<Longrightarrow> in_buf tr ins0 ins \<Longrightarrow>
    \<exists>s' ins'. read_stream_loop shr c ws ins n (length tr div 32, length tr mod 32) s =
           Some (0, ((length tr + n) div 32, (length tr + n) mod 32), ins', s') \<and> ok s'
         \<and> dev s' = fold step (map (\<lambda>j. of_bool (stream_bit ws j)) [length tr..<length tr + n]) (dev s)
         \<and> in_buf (tr @ tdo_trace step tdo (map (\<lambda>j. of_bool (stream_bit ws j)) [length tr..<length tr + n]) (dev s)) ins0 ins'"
proof (induction n arbitrary: tr ins s)
  case 0
  then show ?case by simp
next
  case (Suc n)
  let ?i = "length tr" and ?b = "tdo (dev s)"
  let ?p = "of_bool (stream_bit ws (length tr)) :: u8"
  have idx: "?i div 32 < length ws" "?i div 32 < length ins" "Suc ?i div 32 < length ins"
    using Suc.prems(2,3) by (auto intro!: less_mult_imp_div_less)
  obtain s1 where s1: "cable_read_write_bit c ?p s = Some (0, of_bool ?b, s1)" "ok s1" "dev s1 = step ?p (dev s)"
    using read_write_bit [OF Suc.prems(1)] by (metis cable_read_write_bit_def bit_inout_wired)
  define ins1 where "ins1 = ins[?i div 32 := ins ! (?i div 32) OR push_bit (?i mod 32) (of_bool ?b)]"
  define ins2 where "ins2 = (if 32 \<le> ?i mod 32 + 1 then ins1[Suc ?i div 32 := 0] else ins1)"
  have inv2: "in_buf (tr @ [?b]) ins0 ins2"
    using Suc.prems(3,4) by (intro in_buf_step [OF _ _ ins1_def ins2_def]) auto
  have len2: "length ins2 = length ins" by (simp add: ins1_def ins2_def)
  obtain s2 ins' where s2: "read_stream_loop shr c ws ins2 n (Suc ?i div 32, Suc ?i mod 32) s1 =
      Some (0, ((?i + Suc n) div 32, (?i + Suc n) mod 32), ins', s2)" "ok s2"
    "dev s2 = fold step (map (\<lambda>j. of_bool (stream_bit ws j)) [Suc ?i..<Suc (?i + n)]) (dev s1)"
    "in_buf ((tr @ [?b]) @ tdo_trace step tdo (map (\<lambda>j. of_bool (stream_bit ws j)) [Suc ?i..<Suc (?i + n)]) (dev s1)) ins0 ins'"
    using Suc.IH [OF s1(2), of "tr @ [?b]" ins2] Suc.prems(2,3) inv2 len2 by auto
  have upt: "[?i..<Suc (?i + n)] = ?i # [Suc ?i..<Suc (?i + n)]"
    by (simp add: upt_conv_Cons)
  have put2: "(if 32 \<le> ?i mod 32 + 1 then put_at ins1 (Suc ?i div 32) 0 else Some ins1) = Some ins2"
    using idx by (simp add: ins2_def ins1_def)
  have "read_stream_loop shr c ws ins (Suc n) (?i div 32, ?i mod 32) s =
      Some (0, ((?i + Suc n) div 32, (?i + Suc n) mod 32), ins', s2)"
    using s1(1) s2(1) idx put2
    by (simp add: shr_bit stream_bit_def [symmetric] ins1_def [symmetric] Let_def
        split: if_splits)
  with s1(3) s2(2-4) show ?case
    by (simp add: upt del: upt_Suc)
qed

lemma packets_butlast:
  "stream_packets ws (Suc k) tms_last =
     map (\<lambda>j. of_bool (stream_bit ws j)) [0..<k] @
       [of_bool (stream_bit ws k) OR (if tms_last then TMS else 0)]"
  by (auto simp: stream_packets_def stream_packet_def TDO_def)

lemma write_stream:
  assumes "ok s" and n: "0 < n" "n \<le> 32 * length ws"
  shows "\<exists>s'. cable_common_write_stream shr c ws (int n) tms_last s = Some (0, s') \<and> ok s'
              \<and> dev s' = fold step (stream_packets ws n tms_last) (dev s)"
proof -
  obtain k where k: "n = Suc k" using n(1) by (cases n) auto
  obtain s1 where s1: "write_stream_loop shr c ws k (0, 0) s = Some (0, k div 32, s1)" "ok s1"
    "dev s1 = fold step (map (\<lambda>j. of_bool (stream_bit ws j)) [0..<k]) (dev s)"
    using write_loop [OF assms(1), of 0 k ws] n by (auto simp: k)
  obtain s2 where "cable_write_bit c (of_bool (stream_bit ws k) OR (if tms_last then TMS else 0)) s1 = Some (0, s2)"
    "ok s2" "dev s2 = fold step (stream_packets ws n tms_last) (dev s)"
    using write_bit [OF s1(2)] s1(3) packets_butlast unfolding k
    by (metis bit_out_wired cable_write_bit_def fold_append fold_simps(1,2) o_apply)
  moreover have "k div 32 < length ws" using n by (intro less_mult_imp_div_less) (auto simp: k)
  ultimately show ?thesis
    using s1 n by (auto simp: cable_common_write_stream_def k shr_bit stream_bit_def split: if_splits)
qed

lemma read_stream:
  assumes "ok s" and n: "0 < n" "n \<le> 32 * length ws" "n \<le> 32 * length ins"
  shows "\<exists>s'. cable_common_read_stream shr c ws ins (int n) tms_last s =
            Some (0, pack_bits (tdo_trace step tdo (stream_packets ws n tms_last) (dev s)) @ drop ((n + 31) div 32) ins, s')
          \<and> ok s' \<and> dev s' = fold step (stream_packets ws n tms_last) (dev s)"
proof -
  obtain k where k: "n = Suc k" using n(1) by (cases n) auto
  let ?ps = "map (\<lambda>j. of_bool (stream_bit ws j) :: u8) [0..<k]"
  let ?q = "(of_bool (stream_bit ws k) :: u8) OR (if tms_last then TMS else 0)"
  let ?tr = "tdo_trace step tdo ?ps (dev s)" and ?b = "tdo (fold step ?ps (dev s))"
  have buf: "in_buf [] ins (ins[0 := 0])" using n by (intro in_buf_init) auto
  obtain s1 ins1 where s1: "read_stream_loop shr c ws (ins[0 := 0]) k (0, 0) s =
       Some (0, (k div 32, k mod 32), ins1, s1)" "ok s1"
    "dev s1 = fold step ?ps (dev s)" "in_buf ?tr ins ins1"
    using read_loop [OF assms(1), of "[]" k ws "ins[0 := 0]" ins] n buf by (auto simp: k)
  obtain s2 where s2: "cable_read_write_bit c ?q s1 = Some (0, of_bool ?b, s2)" "ok s2"
    "dev s2 = fold step (stream_packets ws n tms_last) (dev s)"
    using read_write_bit [OF s1(2), of ?q] s1(3) packets_butlast
    by (auto simp: cable_read_write_bit_def bit_inout_wired k)
  have idx: "k div 32 < length ws" "k div 32 < length ins1"
    using n s1(4) by (auto simp: in_buf_def k intro!: less_mult_imp_div_less)
  have ne: "0 < length ins" using n by (cases ins) auto
  have fin: "ins1[k div 32 := ins1 ! (k div 32) OR push_bit (k mod 32) (of_bool ?b)] =
      pack_bits (?tr @ [?b]) @ drop (Suc (k div 32)) ins"
    using in_buf_last [OF s1(4), of ?b] n s1(4) by (simp add: in_buf_def k)
  have words: "Suc (k div 32) = (n + 31) div 32"
    using div_add_self2 [of 32 k] by (simp add: k)
  have trace: "tdo_trace step tdo (stream_packets ws n tms_last) (dev s) = ?tr @ [?b]"
    by (simp add: k packets_butlast tdo_trace_append)
  have "cable_common_read_stream shr c ws ins (int n) tms_last s = Some (0, pack_bits (?tr @ [?b]) @ drop (Suc (k div 32)) ins, s2)"
    using s1(1) s2(1) idx fin ne
    by (cases tms_last; cases "stream_bit ws k")
      (simp_all add: cable_common_read_stream_def k shr_bit stream_bit_def [symmetric] Let_def)
  with s2(2,3) trace words show ?thesis by auto
qed

end

sublocale bitbang_cable \<subseteq> jtag_cable c dev ok "packet_step pin_step" tdo
proof unfold_locales
  fix s p assume "ok s"
  then show "\<exists>s'. bit_out_func c p s = Some (0, s') \<and> ok s' \<and> dev s' = packet_step pin_step p (dev s)"
    by (simp add: bit_out_wired write_bit)
next
  fix s p assume "ok s"
  then show "\<exists>s'. bit_inout_func c p s = Some (0, of_bool (tdo (dev s)), s') \<and> ok s'
                  \<and> dev s' = packet_step pin_step p (dev s)"
    by (simp add: bit_inout_wired read_write_bit)
next
  fix s n and ws :: "u32 list" and tms_last assume "ok s" "0 < n" "n \<le> 32 * length ws"
  then show "\<exists>s'. stream_out_func c ws (int n) tms_last s = Some (0, s') \<and> ok s' \<and>
      dev s' = fold step (stream_packets ws n tms_last) (dev s)"
    by (simp add: stream_out_wired write_stream)
next
  fix s n and ws ins :: "u32 list" and tms_last assume "ok s" "0 < n" "n \<le> 32 * length ws" "n \<le> 32 * length ins"
  then show "\<exists>s'. stream_inout_func c ws ins (int n) tms_last s =
       Some (0, pack_bits (tdo_trace step tdo (stream_packets ws n tms_last) (dev s)) @ drop ((n + 31) div 32) ins, s')
       \<and> ok s' \<and> dev s' = fold step (stream_packets ws n tms_last) (dev s)"
    by (simp add: stream_inout_wired read_stream)
next
  fix s assume "ok s"
  then show "\<exists>s'. cable_flush c s = Some (0, s') \<and> ok s' \<and> dev s' = dev s"
    by (simp add: cable_flush_def flush_wired APP_ERR_NONE_def)
qed

end
