(* ===== verification/Debug_Hardware.thy ===== *)
theory Debug_Hardware
  imports Prelude
begin

unbundle bit_operations_syntax

text \<open>
  The hardware the bridge talks to, from the Verilog of the same repository: the JTAG TAP
  (Hardware/jtag/tap/rtl/verilog/tap_top.v), the command register and module selection of the
  advanced debug interface (adv_dbg_if/rtl/verilog/adbg_top.v) and its CRC unit (adbg_crc32.v).
  A cycle of TCK is a falling edge followed by a rising edge, as the bit-bang routines produce it.
  Registers are updated from the values before the edge. The outputs of the debug modules behind
  \<open>adbg_top\<close> (their TDO and inhibit lines) and the scan inputs of the TAP are inputs of the model.
\<close>

subsection \<open>TAP controller\<close>

datatype tap_state =
    Test_Logic_Reset | Run_Test_Idle
  | Select_DR_Scan | Capture_DR | Shift_DR | Exit1_DR | Pause_DR | Exit2_DR | Update_DR
  | Select_IR_Scan | Capture_IR | Shift_IR | Exit1_IR | Pause_IR | Exit2_IR | Update_IR

fun next_TAP_state :: "tap_state \<Rightarrow> bool \<Rightarrow> tap_state" where
  "next_TAP_state Test_Logic_Reset tms = (if tms then Test_Logic_Reset else Run_Test_Idle)"
| "next_TAP_state Run_Test_Idle tms = (if tms then Select_DR_Scan else Run_Test_Idle)"
| "next_TAP_state Select_DR_Scan tms = (if tms then Select_IR_Scan else Capture_DR)"
| "next_TAP_state Capture_DR tms = (if tms then Exit1_DR else Shift_DR)"
| "next_TAP_state Shift_DR tms = (if tms then Exit1_DR else Shift_DR)"
| "next_TAP_state Exit1_DR tms = (if tms then Update_DR else Pause_DR)"
| "next_TAP_state Pause_DR tms = (if tms then Exit2_DR else Pause_DR)"
| "next_TAP_state Exit2_DR tms = (if tms then Update_DR else Shift_DR)"
| "next_TAP_state Update_DR tms = (if tms then Select_DR_Scan else Run_Test_Idle)"
| "next_TAP_state Select_IR_Scan tms = (if tms then Test_Logic_Reset else Capture_IR)"
| "next_TAP_state Capture_IR tms = (if tms then Exit1_IR else Shift_IR)"
| "next_TAP_state Shift_IR tms = (if tms then Exit1_IR else Shift_IR)"
| "next_TAP_state Exit1_IR tms = (if tms then Update_IR else Pause_IR)"
| "next_TAP_state Pause_IR tms = (if tms then Exit2_IR else Pause_IR)"
| "next_TAP_state Exit2_IR tms = (if tms then Update_IR else Shift_IR)"
| "next_TAP_state Update_IR tms = (if tms then Select_DR_Scan else Run_Test_Idle)"

definition IDCODE_VALUE :: u32 where "IDCODE_VALUE = 0x149511c3"
definition EXTEST :: "4 word" where "EXTEST = 0"
definition SAMPLE_PRELOAD :: "4 word" where "SAMPLE_PRELOAD = 1"
definition IDCODE :: "4 word" where "IDCODE = 2"
definition DEBUG :: "4 word" where "DEBUG = 8"
definition MBIST :: "4 word" where "MBIST = 9"
definition BYPASS :: "4 word" where "BYPASS = 15"

lemmas ir_code_defs = EXTEST_def SAMPLE_PRELOAD_def IDCODE_def DEBUG_def MBIST_def BYPASS_def

record debug_dev =
  TAP_state :: tap_state
  jtag_ir :: "4 word"
  latched_jtag_ir :: "4 word"
  idcode_reg :: u32
  bypass_reg :: bool
  input_shift_reg :: "53 word"
  module_id_reg :: "2 word"
  debug_tdo_i :: bool
  bs_chain_tdo_i :: bool
  mbist_tdo_i :: bool
  select_inhibit :: bool

definition idcode_select :: "debug_dev \<Rightarrow> bool" where
  "idcode_select d \<longleftrightarrow> latched_jtag_ir d = IDCODE"

definition debug_select :: "debug_dev \<Rightarrow> bool" where
  "debug_select d \<longleftrightarrow> latched_jtag_ir d = DEBUG"

definition bypass_select :: "debug_dev \<Rightarrow> bool" where
  "bypass_select d \<longleftrightarrow> latched_jtag_ir d \<notin> {EXTEST, SAMPLE_PRELOAD, IDCODE, MBIST, DEBUG}"

text \<open>The multiplexer in front of the TDO pin, sampled at the falling edge.\<close>

definition tdo_mux_out :: "debug_dev \<Rightarrow> bool" where
  "tdo_mux_out d =
    (if TAP_state d = Shift_IR then bit (jtag_ir d) 0
     else if latched_jtag_ir d = IDCODE then bit (idcode_reg d) 0
     else if latched_jtag_ir d = DEBUG then debug_tdo_i d
     else if latched_jtag_ir d = SAMPLE_PRELOAD then bs_chain_tdo_i d
     else if latched_jtag_ir d = EXTEST then bs_chain_tdo_i d
     else if latched_jtag_ir d = MBIST then mbist_tdo_i d
     else bypass_reg d)"

definition negedge_tck :: "bool \<Rightarrow> debug_dev \<Rightarrow> debug_dev" where
  "negedge_tck trst d =
     d\<lparr>latched_jtag_ir := (if trst \<or> TAP_state d = Test_Logic_Reset then IDCODE
                          else if TAP_state d = Update_IR then jtag_ir d else latched_jtag_ir d)\<rparr>"

text \<open>\<open>shift_in tdi r\<close> is the Verilog concatenation \<open>{tdi, r[n-1:1]}\<close>.\<close>

definition shift_in :: "bool \<Rightarrow> 'a::len word \<Rightarrow> 'a word" where
  "shift_in tdi r = drop_bit 1 r OR (if tdi then push_bit (LENGTH('a) - 1) 1 else 0)"

definition posedge_tck :: "bool \<Rightarrow> bool \<Rightarrow> bool \<Rightarrow> debug_dev \<Rightarrow> debug_dev" where
  "posedge_tck trst tms tdi d =
    (let st = TAP_state d; tlr = (trst \<or> st = Test_Logic_Reset) in
     d\<lparr>TAP_state := (if trst then Test_Logic_Reset else next_TAP_state st tms),
       jtag_ir := (if tlr then 0 else if st = Capture_IR then 0b0101
                   else if st = Shift_IR then shift_in tdi (jtag_ir d) else jtag_ir d),
       idcode_reg := (if tlr then IDCODE_VALUE
                      else if idcode_select d \<and> st = Capture_DR then IDCODE_VALUE
                      else if idcode_select d \<and> st = Shift_DR then shift_in tdi (idcode_reg d)
                      else idcode_reg d),
       bypass_reg := (if tlr then False
                      else if bypass_select d \<and> st = Capture_DR then False
                      else if bypass_select d \<and> st = Shift_DR then tdi else bypass_reg d),
       module_id_reg := (if debug_select d \<and> bit (input_shift_reg d) 52 \<and> st = Update_DR \<and> \<not> select_inhibit d
                         then ucast (drop_bit 50 (input_shift_reg d)) else module_id_reg d),
       input_shift_reg := (if debug_select d \<and> st = Shift_DR then shift_in tdi (input_shift_reg d)
                           else input_shift_reg d)\<rparr>)"

definition tck_cycle :: "bool \<Rightarrow> bool \<Rightarrow> bool \<Rightarrow> debug_dev \<Rightarrow> debug_dev" where
  "tck_cycle trst tms tdi d = posedge_tck trst tms tdi (negedge_tck trst d)"

lemma bit_shift_in:
  "bit (shift_in tdi (r :: 'a::len word)) k \<longleftrightarrow>
     (if Suc k = LENGTH('a) then tdi else bit r (Suc k))"
proof (cases "Suc k = LENGTH('a)")
  case True
  then have "k = LENGTH('a) - 1" by simp
  with True show ?thesis
    by (auto simp: shift_in_def bit_or_iff bit_drop_bit_eq bit_push_bit_iff bit_exp_iff
        dest: bit_imp_le_length)
next
  case False
  then have "\<not> bit (push_bit (LENGTH('a) - 1) 1 :: 'a word) k"
    by (auto simp: bit_push_bit_iff bit_exp_iff)
  with False show ?thesis
    by (auto simp: shift_in_def bit_or_iff bit_drop_bit_eq)
qed

text \<open>Shifting a list of bits into a register: the last bits end in the top positions.\<close>

lemma bit_fold_shift_in:
  "bit (fold shift_in bs (r :: 'a::len word)) k \<longleftrightarrow>
     k < LENGTH('a) \<and>
     (if k + length bs < LENGTH('a) then bit r (k + length bs) else bs ! (k + length bs - LENGTH('a)))"
proof (induction bs arbitrary: r)
  case Nil
  then show ?case by (auto dest: bit_imp_le_length)
next
  case (Cons b bs)
  show ?case
  proof (cases "k + length bs < LENGTH('a)")
    case True
    then show ?thesis
      by (auto simp: Cons.IH bit_shift_in)
  next
    case False
    then show ?thesis
      by (auto simp: Cons.IH Suc_diff_le not_less nth_Cons')
  qed
qed

subsection \<open>CRC unit\<close>

text \<open>
  \<open>new_crc\<close> lists the 32 assignments of adbg_crc32.v, bit 0 first.
\<close>

definition new_crc :: "bool \<Rightarrow> u32 \<Rightarrow> u32" where
  "new_crc data crc = (let fb = (data \<noteq> bit crc 0) in
     horner_sum of_bool 2
       [bit crc 1, bit crc 2, bit crc 3, bit crc 4, bit crc 5,
        bit crc 6 \<noteq> fb,
        bit crc 7, bit crc 8,
        bit crc 9 \<noteq> fb,
        bit crc 10 \<noteq> fb,
        bit crc 11, bit crc 12, bit crc 13, bit crc 14, bit crc 15,
        bit crc 16 \<noteq> fb,
        bit crc 17, bit crc 18, bit crc 19,
        bit crc 20 \<noteq> fb,
        bit crc 21 \<noteq> fb,
        bit crc 22 \<noteq> fb,
        bit crc 23,
        bit crc 24 \<noteq> fb,
        bit crc 25 \<noteq> fb,
        bit crc 26,
        bit crc 27 \<noteq> fb,
        bit crc 28 \<noteq> fb,
        bit crc 29,
        bit crc 30 \<noteq> fb,
        bit crc 31 \<noteq> fb,
        fb])"

definition crc32_posedge :: "bool \<Rightarrow> bool \<Rightarrow> bool \<Rightarrow> bool \<Rightarrow> u32 \<Rightarrow> u32" where
  "crc32_posedge clr enable shift data crc =
     (if clr then 0xffffffff else if enable then new_crc data crc
      else if shift then drop_bit 1 crc else crc)"

subsection \<open>Walks of the TAP controller\<close>

definition tap_walk :: "bool list \<Rightarrow> tap_state \<Rightarrow> tap_state" where
  "tap_walk tmss s = foldl next_TAP_state s tmss"

lemma tap_walk_append [simp]: "tap_walk (xs @ ys) s = tap_walk ys (tap_walk xs s)"
  by (simp add: tap_walk_def)

lemma tap_walk_simps [simp]:
  "tap_walk [] s = s" "tap_walk (b # bs) s = tap_walk bs (next_TAP_state s b)"
  by (simp_all add: tap_walk_def)

text \<open>Five cycles with TMS high reach Test-Logic-Reset from every state, and stay there.\<close>

lemma tap_walk_reset_stays: "tap_walk (replicate n True) Test_Logic_Reset = Test_Logic_Reset"
  by (induction n) auto

lemma tap_walk_reset: "5 \<le> n \<Longrightarrow> tap_walk (replicate n True) s = Test_Logic_Reset"
proof -
  assume "5 \<le> n"
  then have "replicate n True = replicate 5 True @ replicate (n - 5) True"
    by (simp flip: replicate_add)
  moreover have "tap_walk (replicate 5 True) s = Test_Logic_Reset"
    by (cases s) (simp_all add: numeral_eq_Suc)
  ultimately show ?thesis by (simp add: tap_walk_reset_stays)
qed

lemma tap_walk_shift_dr: "tap_walk (replicate n False) Shift_DR = Shift_DR"
  by (induction n) auto

lemma tap_walk_shift_ir: "tap_walk (replicate n False) Shift_IR = Shift_IR"
  by (induction n) auto

lemma TAP_state_tck_cycle [simp]:
  "TAP_state (tck_cycle trst tms tdi d) =
     (if trst then Test_Logic_Reset else next_TAP_state (TAP_state d) tms)"
  by (simp add: tck_cycle_def posedge_tck_def negedge_tck_def Let_def)

end
