(* ===== verification/Cable_Parallel.thy ===== *)
theory Cable_Parallel
  imports Cable_Common Debug_Hardware
begin

unbundle bit_operations_syntax

text \<open>
  cable_parallel.c (the Linux variant): the xpc3, bb2 and xess parallel-port cables. The port itself
  (\<open>ioctl\<close> on the device, here \<open>outb\<close> and \<open>inb\<close>) and the operating system's answers to \<open>open\<close>
  and the claiming \<open>ioctl\<close>s are parameters. How each cable wires the port's lines to the JTAG pins, as
  the comments of the source give it, is a locale; with it each driver provides the cable contract.
  The busy wait that limits the clock rate has no counterpart.
\<close>

record 'p parport =
  devsys :: string
  fd_open :: bool
  port :: 'p

record os_answers =
  open_ok :: "string \<Rightarrow> bool"
  claim_ok :: bool
  setmode_ok :: bool

definition cable_parallel_init :: "os_answers \<Rightarrow> 'p parport op" where
  "cable_parallel_init os s =
     (if \<not> open_ok os (devsys s) then Some (APP_ERR_INIT_FAILED, s\<lparr>fd_open := False\<rparr>)
      else if \<not> claim_ok os then Some (APP_ERR_INIT_FAILED, s\<lparr>fd_open := True\<rparr>)
      else if \<not> setmode_ok os then Some (APP_ERR_INIT_FAILED, s\<lparr>fd_open := True\<rparr>)
      else Some (APP_ERR_NONE, s\<lparr>fd_open := True\<rparr>))"

definition cable_parallel_opt :: "int \<Rightarrow> string \<Rightarrow> 'p parport op" where
  "cable_parallel_opt ch arg s =
     (if ch = int (of_char CHR ''d'') then Some (APP_ERR_NONE, s\<lparr>devsys := arg\<rparr>)
      else Some (APP_ERR_BAD_PARAM, s))"

definition cable_parallel_out :: "(u8 \<Rightarrow> 'p \<Rightarrow> 'p) \<Rightarrow> u8 \<Rightarrow> 'p parport op" where
  "cable_parallel_out outb value s = Some (APP_ERR_NONE, s\<lparr>port := outb value (port s)\<rparr>)"

definition cable_parallel_inout ::
  "(u8 \<Rightarrow> 'p \<Rightarrow> 'p) \<Rightarrow> ('p \<Rightarrow> u8) \<Rightarrow> u8 \<Rightarrow> 'p parport \<Rightarrow> (u32 \<times> u8 \<times> 'p parport) option" where
  "cable_parallel_inout outb inb value s =
     Some (APP_ERR_NONE, inb (port s), s\<lparr>port := outb value (port s)\<rparr>)"

subsection \<open>Pin mappings\<close>

definition line :: "u8 \<Rightarrow> u8 \<Rightarrow> u8 \<Rightarrow> u8" where
  "line value pin m = (if value AND pin \<noteq> 0 then m else 0)"

definition xpc3_lines :: "u8 \<Rightarrow> u8" where
  "xpc3_lines value =
     line value TCLK_BIT 0x02 OR line value TRST_BIT 0x10 OR line value TDI_BIT 0x01 OR line value TMS_BIT 0x04"

definition bb2_lines :: "u8 \<Rightarrow> u8" where
  "bb2_lines value = line value TCLK_BIT 0x01 OR line value TDI_BIT 0x40 OR line value TMS_BIT 0x02"

definition xess_lines :: "u8 \<Rightarrow> u8" where
  "xess_lines value =
     line value TCLK_BIT 0x04 OR line value TRST_BIT 0x08 OR line value TDI_BIT 0x10 OR line value TMS_BIT 0x20"

definition cable_xpc3_out :: "(u8 \<Rightarrow> 'p \<Rightarrow> 'p) \<Rightarrow> u8 \<Rightarrow> 'p parport op" where
  "cable_xpc3_out outb value = cable_parallel_out outb (xpc3_lines value)"

definition cable_xpc3_inout ::
  "(u8 \<Rightarrow> 'p \<Rightarrow> 'p) \<Rightarrow> ('p \<Rightarrow> u8) \<Rightarrow> u8 \<Rightarrow> 'p parport \<Rightarrow> (u32 \<times> u8 \<times> 'p parport) option" where
  "cable_xpc3_inout outb inb value s =
     do { (retval, inp, s) \<leftarrow> cable_parallel_inout outb inb (xpc3_lines value) s;
          Some (retval, if inp AND 0x10 \<noteq> 0 then 1 else 0, s) }"

definition cable_bb2_out :: "(u8 \<Rightarrow> 'p \<Rightarrow> 'p) \<Rightarrow> u8 \<Rightarrow> 'p parport op" where
  "cable_bb2_out outb value = cable_parallel_out outb (bb2_lines value)"

definition cable_bb2_inout ::
  "(u8 \<Rightarrow> 'p \<Rightarrow> 'p) \<Rightarrow> ('p \<Rightarrow> u8) \<Rightarrow> u8 \<Rightarrow> 'p parport \<Rightarrow> (u32 \<times> u8 \<times> 'p parport) option" where
  "cable_bb2_inout outb inb value s =
     do { (retval, inp, s) \<leftarrow> cable_parallel_inout outb inb (bb2_lines value) s;
          Some (retval, if inp AND 0x80 \<noteq> 0 then 0 else 1, s) }"

definition cable_xess_out :: "(u8 \<Rightarrow> 'p \<Rightarrow> 'p) \<Rightarrow> u8 \<Rightarrow> 'p parport op" where
  "cable_xess_out outb value = cable_parallel_out outb (xess_lines value)"

definition cable_xess_inout ::
  "(u8 \<Rightarrow> 'p \<Rightarrow> 'p) \<Rightarrow> ('p \<Rightarrow> u8) \<Rightarrow> u8 \<Rightarrow> 'p parport \<Rightarrow> (u32 \<times> u8 \<times> 'p parport) option" where
  "cable_xess_inout outb inb value s =
     do { (retval, inp, s) \<leftarrow> cable_parallel_inout outb inb (xess_lines value) s;
          Some (retval, if inp AND 0x20 \<noteq> 0 then 1 else 0, s) }"

subsection \<open>The driver structs\<close>

text \<open>
  The bit and stream entries of each struct are the shared routines of cable_common.c, which reach
  the cable through the two pin functions of the same struct.
\<close>

definition with_common_routines :: "(u32 \<Rightarrow> nat \<Rightarrow> u32) \<Rightarrow> 's jtag_cable_t \<Rightarrow> 's jtag_cable_t" where
  "with_common_routines shr c =
    (let c1 = c\<lparr>bit_out_func := cable_common_write_bit c, bit_inout_func := cable_common_read_write_bit c\<rparr>
     in c1\<lparr>stream_out_func := cable_common_write_stream shr c1,
           stream_inout_func := cable_common_read_stream shr c1\<rparr>)"

definition parallel_driver ::
  "string \<Rightarrow> (u32 \<Rightarrow> nat \<Rightarrow> u32) \<Rightarrow> os_answers \<Rightarrow> (u8 \<Rightarrow> 'p parport op)
     \<Rightarrow> (u8 \<Rightarrow> 'p parport \<Rightarrow> (u32 \<times> u8 \<times> 'p parport) option) \<Rightarrow> 'p parport jtag_cable_t" where
  "parallel_driver nm shr os outf inoutf = with_common_routines shr
     \<lparr>name = nm, inout_func = inoutf, out_func = outf,
      init_func = cable_parallel_init os, opt_func = cable_parallel_opt,
      bit_out_func = (\<lambda>_ _. None), bit_inout_func = (\<lambda>_ _. None),
      stream_out_func = (\<lambda>_ _ _ _. None), stream_inout_func = (\<lambda>_ _ _ _ _. None),
      flush_func = None, opts = Some ''d:'',
      help_text = Some (''-d [device file] Device file to use when communicating with the parport hardware (eg. /dev/parport0)'' @ [CHR 0x0A])\<rparr>"

definition xpc3_cable_driver where
  "xpc3_cable_driver shr os outb inb = parallel_driver ''xpc3'' shr os (cable_xpc3_out outb) (cable_xpc3_inout outb inb)"

definition bb2_cable_driver where
  "bb2_cable_driver shr os outb inb = parallel_driver ''bb2'' shr os (cable_bb2_out outb) (cable_bb2_inout outb inb)"

definition xess_cable_driver where
  "xess_cable_driver shr os outb inb = parallel_driver ''xess'' shr os (cable_xess_out outb) (cable_xess_inout outb inb)"

text \<open>
  A shift by a register count on the x86 hosts of the parallel-port builds takes the count modulo 32.
\<close>

definition x86_shr :: "u32 \<Rightarrow> nat \<Rightarrow> u32" where
  "x86_shr w n = drop_bit (n mod 32) w"

lemma x86_shr_small: "n < 32 \<Longrightarrow> x86_shr w n = drop_bit n w"
  by (simp add: x86_shr_def)

lemma x86_shr_wraps: "x86_shr w n = x86_shr w (n mod 32)"
  by (simp add: x86_shr_def)

lemma common_routines_wired:
  fixes c :: "'s jtag_cable_t"
  assumes "c' = with_common_routines shr c"
  shows "bit_out_func c' = cable_common_write_bit c'"
    and "bit_inout_func c' = cable_common_read_write_bit c'"
    and "stream_out_func c' = cable_common_write_stream shr c'"
    and "stream_inout_func c' = cable_common_read_stream shr c'"
    and "out_func c' = out_func c" and "inout_func c' = inout_func c" and "flush_func c' = flush_func c"
proof -
  define c1 where
    "c1 = c\<lparr>bit_out_func := cable_common_write_bit c, bit_inout_func := cable_common_read_write_bit c\<rparr>"
  have c': "c' = c1\<lparr>stream_out_func := cable_common_write_stream shr c1,
           stream_inout_func := cable_common_read_stream shr c1\<rparr>"
    by (simp add: assms with_common_routines_def c1_def Let_def)
  show "out_func c' = out_func c" "inout_func c' = inout_func c" "flush_func c' = flush_func c"
    by (simp_all add: c' c1_def)
  show "bit_out_func c' = cable_common_write_bit c'"
    by (rule ext)+ (simp add: c' c1_def cable_common_write_bit_def)
  show "bit_inout_func c' = cable_common_read_write_bit c'"
    by (rule ext)+ (simp add: c' c1_def cable_common_read_write_bit_def)
  have wb: "cable_write_bit c' = cable_write_bit c1" and rb: "cable_read_write_bit c' = cable_read_write_bit c1"
    by (rule ext, simp add: c' cable_write_bit_def cable_read_write_bit_def)+
  have wl: "write_stream_loop shr c' ws n pos s = write_stream_loop shr c1 ws n pos s" for ws n pos s
  proof (induction n arbitrary: pos s)
    case 0 then show ?case by (cases pos) simp
  next
    case (Suc n) then show ?case by (cases pos) (simp add: wb)
  qed
  have rl: "read_stream_loop shr c' ws ins n pos s = read_stream_loop shr c1 ws ins n pos s" for ws ins n pos s
  proof (induction n arbitrary: pos s ins)
    case 0 then show ?case by simp
  next
    case (Suc n) then show ?case by (cases pos) (simp add: rb Let_def)
  qed
  have "cable_common_write_stream shr c1 = cable_common_write_stream shr c'"
    by (rule ext)+ (simp add: cable_common_write_stream_def wl wb)
  then show "stream_out_func c' = cable_common_write_stream shr c'" by (simp add: c')
  have "cable_common_read_stream shr c1 = cable_common_read_stream shr c'"
    by (rule ext)+ (simp add: cable_common_read_stream_def rl rb)
  then show "stream_inout_func c' = cable_common_read_stream shr c'" by (simp add: c')
qed

subsection \<open>The boards behind the cables\<close>

text \<open>
  The wiring of each cable: which data line is TCK, TDI, TMS and TRST, and which status line is
  TDO (inverted on the bb2).
\<close>

locale xess_board =
  fixes outb :: "u8 \<Rightarrow> 'p \<Rightarrow> 'p" and inb :: "'p \<Rightarrow> u8"
    and dev :: "'p \<Rightarrow> 'd" and level :: "'p \<Rightarrow> bool"
    and pin_step :: "bool \<Rightarrow> bool \<Rightarrow> bool \<Rightarrow> 'd \<Rightarrow> 'd" and tdo :: "'d \<Rightarrow> bool"
  assumes xess_level: "level (outb v p) = bit v 2"
    and xess_dev: "dev (outb v p) =
       (if \<not> level p \<and> bit v 2 then pin_step (\<not> bit v 3) (bit v 5) (bit v 4) (dev p) else dev p)"
    and xess_tdo: "bit (inb p) 5 = tdo (dev p)"

locale xpc3_board =
  fixes outb :: "u8 \<Rightarrow> 'p \<Rightarrow> 'p" and inb :: "'p \<Rightarrow> u8"
    and dev :: "'p \<Rightarrow> 'd" and level :: "'p \<Rightarrow> bool"
    and pin_step :: "bool \<Rightarrow> bool \<Rightarrow> bool \<Rightarrow> 'd \<Rightarrow> 'd" and tdo :: "'d \<Rightarrow> bool"
  assumes xpc3_level: "level (outb v p) = bit v 1"
    and xpc3_dev: "dev (outb v p) =
       (if \<not> level p \<and> bit v 1 then pin_step False (bit v 2) (bit v 0) (dev p) else dev p)"
    and xpc3_tdo: "bit (inb p) 4 = tdo (dev p)"

locale bb2_board =
  fixes outb :: "u8 \<Rightarrow> 'p \<Rightarrow> 'p" and inb :: "'p \<Rightarrow> u8"
    and dev :: "'p \<Rightarrow> 'd" and level :: "'p \<Rightarrow> bool"
    and pin_step :: "bool \<Rightarrow> bool \<Rightarrow> bool \<Rightarrow> 'd \<Rightarrow> 'd" and tdo :: "'d \<Rightarrow> bool"
  assumes bb2_level: "level (outb v p) = bit v 0"
    and bb2_dev: "dev (outb v p) =
       (if \<not> level p \<and> bit v 0 then pin_step False (bit v 1) (bit v 6) (dev p) else dev p)"
    and bb2_tdo: "bit (inb p) 7 \<longleftrightarrow> \<not> tdo (dev p)"

lemma and_masks_high [simp]:
  "(p :: u8) AND 8 \<noteq> 0 \<longleftrightarrow> bit p 3" "p AND 0x10 \<noteq> 0 \<longleftrightarrow> bit p 4"
  "p AND 0x20 \<noteq> 0 \<longleftrightarrow> bit p 5" "p AND 0x80 \<noteq> 0 \<longleftrightarrow> bit p 7"
  using and_single_bit [of p 3] and_single_bit [of p 4] and_single_bit [of p 5] and_single_bit [of p 7]
  by simp_all

lemma bit_xess_lines:
  "bit (xess_lines v) 2 = bit v 0" "bit (xess_lines v) 3 = bit v (Suc 0)"
  "bit (xess_lines v) 4 = bit v 2" "bit (xess_lines v) 5 = bit v 3"
  by (auto simp: xess_lines_def line_def pin_defs bit_or_iff)

lemma bit_xpc3_lines:
  "bit (xpc3_lines v) (Suc 0) = bit v 0" "bit (xpc3_lines v) 0 = bit v 2" "bit (xpc3_lines v) 2 = bit v 3"
  by (auto simp: xpc3_lines_def line_def pin_defs bit_or_iff)

lemma bit_bb2_lines:
  "bit (bb2_lines v) 0 = bit v 0" "bit (bb2_lines v) 6 = bit v 2" "bit (bb2_lines v) (Suc 0) = bit v 3"
  by (auto simp: bb2_lines_def line_def pin_defs bit_or_iff)

lemma parallel_driver_funcs [simp]:
  "out_func (parallel_driver nm shr os outf inoutf) = outf"
  "inout_func (parallel_driver nm shr os outf inoutf) = inoutf"
  "flush_func (parallel_driver nm shr os outf inoutf) = None"
  by (simp_all add: common_routines_wired(5-7) [OF parallel_driver_def])

lemmas parallel_simps = cable_parallel_out_def cable_parallel_inout_def APP_ERR_NONE_def

lemmas parallel_wired = common_routines_wired(1-4) [OF parallel_driver_def]

sublocale xess_board \<subseteq> xess: bitbang_cable "xess_cable_driver x86_shr os outb inb"
  "\<lambda>s. dev (port s)" "\<lambda>s. level (port s)" "\<lambda>_. True" pin_step tdo x86_shr
  by unfold_locales
    (simp_all add: xess_cable_driver_def parallel_simps cable_xess_out_def cable_xess_inout_def parallel_wired
      bit_xess_lines xess_level xess_dev xess_tdo x86_shr_small x86_shr_wraps [symmetric])

sublocale xpc3_board \<subseteq> xpc3: bitbang_cable "xpc3_cable_driver x86_shr os outb inb"
  "\<lambda>s. dev (port s)" "\<lambda>s. level (port s)" "\<lambda>_. True" "\<lambda>_. pin_step False" tdo x86_shr
  by unfold_locales
    (simp_all add: xpc3_cable_driver_def parallel_simps cable_xpc3_out_def cable_xpc3_inout_def parallel_wired
      bit_xpc3_lines xpc3_level xpc3_dev xpc3_tdo x86_shr_small x86_shr_wraps [symmetric])

sublocale bb2_board \<subseteq> bb2: bitbang_cable "bb2_cable_driver x86_shr os outb inb"
  "\<lambda>s. dev (port s)" "\<lambda>s. level (port s)" "\<lambda>_. True" "\<lambda>_. pin_step False" tdo x86_shr
  by unfold_locales
    (simp_all add: bb2_cable_driver_def parallel_simps cable_bb2_out_def cable_bb2_inout_def parallel_wired
      bit_bb2_lines bb2_level bb2_dev bb2_tdo x86_shr_small x86_shr_wraps [symmetric])

subsection \<open>The debug hardware on the wires\<close>

text \<open>
  A board with the TAP of tap_top.v behind each cable: the wires remember the level of TCK.
\<close>

record wires =
  wdev :: debug_dev
  wlevel :: bool

definition wires_edge :: "bool \<Rightarrow> bool \<Rightarrow> bool \<Rightarrow> bool \<Rightarrow> wires \<Rightarrow> wires" where
  "wires_edge tck trst tms tdi w =
     \<lparr>wdev = (if \<not> wlevel w \<and> tck then tck_cycle trst tms tdi (wdev w) else wdev w), wlevel = tck\<rparr>"

definition xess_outb :: "u8 \<Rightarrow> wires \<Rightarrow> wires" where
  "xess_outb v = wires_edge (bit v 2) (\<not> bit v 3) (bit v 5) (bit v 4)"

definition xpc3_outb :: "u8 \<Rightarrow> wires \<Rightarrow> wires" where
  "xpc3_outb v = wires_edge (bit v 1) False (bit v 2) (bit v 0)"

definition bb2_outb :: "u8 \<Rightarrow> wires \<Rightarrow> wires" where
  "bb2_outb v = wires_edge (bit v 0) False (bit v 1) (bit v 6)"

definition status_inb :: "u8 \<Rightarrow> bool \<Rightarrow> wires \<Rightarrow> u8" where
  "status_inb m inverted w = (if tdo_mux_out (wdev w) \<noteq> inverted then m else 0)"

interpretation xess_wires: xess_board xess_outb "status_inb 0x20 False" wdev wlevel tck_cycle tdo_mux_out
  by unfold_locales (simp_all add: xess_outb_def wires_edge_def status_inb_def)

interpretation xpc3_wires: xpc3_board xpc3_outb "status_inb 0x10 False" wdev wlevel tck_cycle tdo_mux_out
  by unfold_locales (simp_all add: xpc3_outb_def wires_edge_def status_inb_def)

interpretation bb2_wires: bb2_board bb2_outb "status_inb 0x80 True" wdev wlevel tck_cycle tdo_mux_out
  by unfold_locales (simp_all add: bb2_outb_def wires_edge_def status_inb_def)

end
