(* ===== verification/Chain_Commands.thy ===== *)
theory Chain_Commands
  imports Cable_Parallel
begin

unbundle bit_operations_syntax

text \<open>
  chain_commands.c: the state of the JTAG chain as the bridge keeps it in globals, and the mid-level
  transactions on the TAP. The record also holds the globals of adv_dbg_commands.c that this file
  resets (\<open>current_reg_idx\<close>) and its scratchpads, the outcome of coming calls of malloc, the CRC
  registers of legacy_dbg_commands.c and the mutex of dbg_api.c. The selected cable driver \<open>c\<close> is an argument of every operation.
\<close>

record 's jtag =
  cable :: 's
  current_chain :: int
  desired_chain :: int
  soft_retry_no :: int
  global_IR_size :: int
  global_IR_prefix_bits :: int
  global_IR_postfix_bits :: int
  global_DR_prefix_bits :: int
  global_DR_postfix_bits :: int
  global_jtag_cmd_debug :: u32
  global_altera_virtual_jtag :: bool
  vjtag_cmd_vir :: u32
  vjtag_cmd_vdr :: u32
  global_xilinx_bscan :: bool
  ir_chain :: "u32 list option"
  current_reg_idx :: "u32 list"
  input_scratchpad :: scratch_buf
  output_scratchpad :: scratch_buf
  mallocs :: malloc_oracle
  legacy_crc_r :: u32
  legacy_crc_w :: u32
  dbg_access_mutex :: bool

definition NUM_SOFT_RETRIES :: int where "NUM_SOFT_RETRIES = 0"
definition DBG_MAX_MODULES :: nat where "DBG_MAX_MODULES = 4"
definition ALTERA_CYCLONE_CMD_VIR :: u32 where "ALTERA_CYCLONE_CMD_VIR = 0x0E"
definition ALTERA_CYCLONE_CMD_VDR :: u32 where "ALTERA_CYCLONE_CMD_VDR = 0x0C"
definition ALT_VJTAG_IR_SIZE :: nat where "ALT_VJTAG_IR_SIZE = 4"
definition ALT_VJTAG_CMD_DEBUG :: u32 where "ALT_VJTAG_CMD_DEBUG = 0x8"

definition init_jtag :: "'s \<Rightarrow> malloc_oracle \<Rightarrow> 's jtag" where
  "init_jtag s os = \<lparr>cable = s, current_chain = -1, desired_chain = -1, soft_retry_no = 0,
     global_IR_size = 0, global_IR_prefix_bits = 0, global_IR_postfix_bits = 0,
     global_DR_prefix_bits = 0, global_DR_postfix_bits = 0, global_jtag_cmd_debug = 0,
     global_altera_virtual_jtag = False, vjtag_cmd_vir = ALTERA_CYCLONE_CMD_VIR,
     vjtag_cmd_vdr = ALTERA_CYCLONE_CMD_VDR, global_xilinx_bscan = False, ir_chain = None,
     current_reg_idx = replicate DBG_MAX_MODULES 0,
     input_scratchpad = \<lparr>buf = None, buf_size_bytes = 0\<rparr>,
     output_scratchpad = \<lparr>buf = None, buf_size_bytes = 0\<rparr>,
     mallocs = os, legacy_crc_r = 0, legacy_crc_w = 0, dbg_access_mutex = False\<rparr>"

subsection \<open>Configuration\<close>

definition config_set_IR_size :: "int \<Rightarrow> 's jtag \<Rightarrow> 's jtag" where
  "config_set_IR_size n st = st\<lparr>global_IR_size := n\<rparr>"
definition config_set_IR_prefix_bits :: "int \<Rightarrow> 's jtag \<Rightarrow> 's jtag" where
  "config_set_IR_prefix_bits bits st = st\<lparr>global_IR_prefix_bits := bits\<rparr>"
definition config_set_IR_postfix_bits :: "int \<Rightarrow> 's jtag \<Rightarrow> 's jtag" where
  "config_set_IR_postfix_bits bits st = st\<lparr>global_IR_postfix_bits := bits\<rparr>"
definition config_set_DR_prefix_bits :: "int \<Rightarrow> 's jtag \<Rightarrow> 's jtag" where
  "config_set_DR_prefix_bits bits st = st\<lparr>global_DR_prefix_bits := bits\<rparr>"
definition config_set_DR_postfix_bits :: "int \<Rightarrow> 's jtag \<Rightarrow> 's jtag" where
  "config_set_DR_postfix_bits bits st = st\<lparr>global_DR_postfix_bits := bits\<rparr>"
definition config_set_debug_cmd :: "u32 \<Rightarrow> 's jtag \<Rightarrow> 's jtag" where
  "config_set_debug_cmd cmd st = st\<lparr>global_jtag_cmd_debug := cmd\<rparr>"
definition config_set_alt_vjtag :: "u8 \<Rightarrow> 's jtag \<Rightarrow> 's jtag" where
  "config_set_alt_vjtag enable st = st\<lparr>global_altera_virtual_jtag := enable \<noteq> 0\<rparr>"
definition config_set_vjtag_cmd_vir :: "u32 \<Rightarrow> 's jtag \<Rightarrow> 's jtag" where
  "config_set_vjtag_cmd_vir cmd st = st\<lparr>vjtag_cmd_vir := cmd\<rparr>"
definition config_set_vjtag_cmd_vdr :: "u32 \<Rightarrow> 's jtag \<Rightarrow> 's jtag" where
  "config_set_vjtag_cmd_vdr cmd st = st\<lparr>vjtag_cmd_vdr := cmd\<rparr>"
definition config_set_xilinx_bscan :: "u8 \<Rightarrow> 's jtag \<Rightarrow> 's jtag" where
  "config_set_xilinx_bscan enable st = st\<lparr>global_xilinx_bscan := enable \<noteq> 0\<rparr>"

subsection \<open>Bits and streams\<close>

definition jtag_write_bit :: "'s jtag_cable_t \<Rightarrow> u8 \<Rightarrow> 's jtag op" where
  "jtag_write_bit c packet st =
     do { (e, s) \<leftarrow> cable_write_bit c packet (cable st); Some (e, st\<lparr>cable := s\<rparr>) }"

definition jtag_read_write_bit :: "'s jtag_cable_t \<Rightarrow> u8 \<Rightarrow> 's jtag \<Rightarrow> (u32 \<times> u8 \<times> 's jtag) option" where
  "jtag_read_write_bit c packet st =
     do { (e, in_bit, s) \<leftarrow> cable_read_write_bit c packet (cable st); Some (e, in_bit, st\<lparr>cable := s\<rparr>) }"

definition on_cable_stream :: "'s jtag_cable_t \<Rightarrow> u32 list \<Rightarrow> int \<Rightarrow> bool \<Rightarrow> 's jtag op" where
  "on_cable_stream c ws n set_last st =
     do { (e, s) \<leftarrow> cable_write_stream c ws n set_last (cable st); Some (e, st\<lparr>cable := s\<rparr>) }"

definition on_cable_read_stream ::
  "'s jtag_cable_t \<Rightarrow> u32 list \<Rightarrow> u32 list \<Rightarrow> int \<Rightarrow> bool \<Rightarrow> 's jtag \<Rightarrow> (u32 \<times> u32 list \<times> 's jtag) option" where
  "on_cable_read_stream c ws ins n set_last st =
     do { (e, ins', s) \<leftarrow> cable_read_write_stream c ws ins n set_last (cable st); Some (e, ins', st\<lparr>cable := s\<rparr>) }"

text \<open>The bits that push data past the other devices: \<open>global_DR_prefix_bits\<close> zeros, TMS with the last.\<close>

definition prefix_ops :: "'s jtag_cable_t \<Rightarrow> 's jtag \<Rightarrow> 's jtag op list" where
  "prefix_ops c st = replicate (nat (global_DR_prefix_bits st - 1)) (jtag_write_bit c 0) @ [jtag_write_bit c TMS]"

definition jtag_write_stream :: "'s jtag_cable_t \<Rightarrow> u32 list \<Rightarrow> int \<Rightarrow> bool \<Rightarrow> 's jtag op" where
  "jtag_write_stream c out_data length_bits set_TMS st =
     (if \<not> set_TMS then on_cable_stream c out_data length_bits False st
      else if global_DR_prefix_bits st = 0 then on_cable_stream c out_data length_bits True st
      else run_all (on_cable_stream c out_data length_bits False # prefix_ops c st) st)"

definition jtag_read_write_stream ::
  "'s jtag_cable_t \<Rightarrow> u32 list \<Rightarrow> u32 list \<Rightarrow> int \<Rightarrow> bool \<Rightarrow> bool \<Rightarrow> 's jtag \<Rightarrow> (u32 \<times> u32 list \<times> 's jtag) option" where
  "jtag_read_write_stream c out_data in_data length_bits adjust set_TMS st =
     do { (e0, st) \<leftarrow> (if adjust \<and> global_DR_postfix_bits st > 0
                       then run_all (replicate (nat (global_DR_postfix_bits st)) (jtag_write_bit c 0)) st
                       else Some (APP_ERR_NONE, st));
          (if \<not> set_TMS then
             do { (e1, ins, st) \<leftarrow> on_cable_read_stream c out_data in_data length_bits False st;
                  Some (e0 OR e1, ins, st) }
           else if global_DR_prefix_bits st = 0 then
             do { (e1, ins, st) \<leftarrow> on_cable_read_stream c out_data in_data length_bits True st;
                  Some (e0 OR e1, ins, st) }
           else
             do { (e1, ins, st) \<leftarrow> on_cable_read_stream c out_data in_data length_bits False st;
                  (e2, st) \<leftarrow> run_all (prefix_ops c st) st;
                  Some (e0 OR e1 OR e2, ins, st) }) }"

subsection \<open>Operations on the TAP\<close>

definition tap_reset :: "'s jtag_cable_t \<Rightarrow> 's jtag op" where
  "tap_reset c st =
     do { (err, st) \<leftarrow> run_all ([jtag_write_bit c 0] @ replicate 8 (jtag_write_bit c TMS)
                                @ [jtag_write_bit c TRST, jtag_write_bit c 0]) st;
          Some (err, st\<lparr>current_chain := -1, current_reg_idx := replicate DBG_MAX_MODULES (-1)\<rparr>) }"

text \<open>
  \<open>0xFFFFFFFF << n\<close> with an int shift count: undefined for a count outside \<open>0..31\<close>.
\<close>

definition FF32 :: u32 where "FF32 = 0xFFFFFFFF"

definition c_shl32 :: "u32 \<Rightarrow> int \<Rightarrow> u32 option" where
  "c_shl32 w n = (if 0 \<le> n \<and> n < 32 then Some (push_bit (nat n) w) else None)"

definition c_shr32 :: "u32 \<Rightarrow> int \<Rightarrow> u32 option" where
  "c_shr32 w n = (if 0 \<le> n \<and> n < 32 then Some (drop_bit (nat n) w) else None)"

definition upd_at :: "u32 list \<Rightarrow> int \<Rightarrow> (u32 \<Rightarrow> u32) \<Rightarrow> u32 list option" where
  "upd_at ws i f = (if 0 \<le> i then do { w \<leftarrow> word_at ws (nat i); put_at ws (nat i) (f w) } else None)"

text \<open>
  The IR value between the ones that put the other devices into BYPASS, in the buffer \<open>ir_chain\<close>.
\<close>

definition ir_chain_bits :: "u32 \<Rightarrow> int \<Rightarrow> int \<Rightarrow> nat \<Rightarrow> u32 list \<Rightarrow> u32 list option" where
  "ir_chain_bits ir IR_size postfix_bits chain_size_words chain =
    (if length chain < chain_size_words then None
     else
      (let chain = replicate chain_size_words FF32 @ drop chain_size_words chain;
           startoffset = postfix_bits div 32;
           startshift = postfix_bits - startoffset * 32
       in do { v \<leftarrow> c_shl32 ir startshift;
               chain \<leftarrow> upd_at chain startoffset (\<lambda>w. w AND v);
               lo \<leftarrow> c_shl32 FF32 startshift;
               chain \<leftarrow> upd_at chain startoffset (\<lambda>w. w OR NOT lo);
               hi \<leftarrow> c_shl32 FF32 (startshift + IR_size);
               chain \<leftarrow> upd_at chain startoffset (\<lambda>w. w OR hi);
               (if startshift + IR_size > 32 then
                  do { v \<leftarrow> c_shr32 ir (32 - startshift);
                       chain \<leftarrow> upd_at chain (startoffset + 1) (\<lambda>w. w AND v);
                       hi \<leftarrow> c_shl32 FF32 (IR_size - (32 - startshift));
                       upd_at chain (startoffset + 1) (\<lambda>w. w OR hi) }
                else Some chain) }))"

definition tap_set_ir :: "'s jtag_cable_t \<Rightarrow> u32 \<Rightarrow> 's jtag op" where
  "tap_set_ir c ir st =
    (let chain_size = global_IR_size st + global_IR_prefix_bits st + global_IR_postfix_bits st;
         chain_size_words = nat (chain_size div 32 + 1);
         (p, os) = (case ir_chain st of
             Some p \<Rightarrow> (Some p, mallocs st)
           | None \<Rightarrow> (case malloc (int chain_size_words * 4) (mallocs st) of
                 (Some bs, os) \<Rightarrow> (Some (words_of_bytes bs), os) | (None, os) \<Rightarrow> (None, os)));
         st = st\<lparr>ir_chain := p, mallocs := os\<rparr>
     in case p of
          None \<Rightarrow> Some (APP_ERR_MALLOC, st)
        | Some chain \<Rightarrow>
            do { chain \<leftarrow> ir_chain_bits ir (global_IR_size st) (global_IR_postfix_bits st) chain_size_words chain;
                 (err, st) \<leftarrow> run_all
                    [jtag_write_bit c TMS, jtag_write_bit c TMS, jtag_write_bit c 0, jtag_write_bit c 0,
                     on_cable_stream c chain chain_size True,
                     jtag_write_bit c TMS, jtag_write_bit c 0] (st\<lparr>ir_chain := Some chain\<rparr>);
                 Some (err, st\<lparr>current_chain := -1\<rparr>) })"

definition tap_set_shift_dr :: "'s jtag_cable_t \<Rightarrow> 's jtag op" where
  "tap_set_shift_dr c = run_all [jtag_write_bit c TMS, jtag_write_bit c 0, jtag_write_bit c 0]"

definition tap_exit_to_idle :: "'s jtag_cable_t \<Rightarrow> 's jtag op" where
  "tap_exit_to_idle c = run_all [jtag_write_bit c TMS, jtag_write_bit c 0]"

definition tap_enable_debug_module :: "'s jtag_cable_t \<Rightarrow> 's jtag op" where
  "tap_enable_debug_module c st =
     (if global_altera_virtual_jtag st then
        (let data = push_bit ALT_VJTAG_IR_SIZE 1 OR ALT_VJTAG_CMD_DEBUG in
         run_all [tap_set_ir c (vjtag_cmd_vir st),
                  jtag_write_bit c TMS, jtag_write_bit c 0, jtag_write_bit c 0,
                  jtag_write_stream c [data] (int ALT_VJTAG_IR_SIZE + 1) True,
                  jtag_write_bit c TMS, jtag_write_bit c 0,
                  tap_set_ir c (vjtag_cmd_vdr st)] st)
      else tap_set_ir c (global_jtag_cmd_debug st) st)"

subsection \<open>Enumerating the chain\<close>

definition ALLOC_SIZE :: nat where "ALLOC_SIZE = 64"
definition MAX_DEVICES :: nat where "MAX_DEVICES = 1024"
definition done_code :: u32 where "done_code = 0x3f"

text \<open>
  The array of ID codes: its capacity doubles when it is full. \<open>None\<close> in the first component of
  the result is the early return with APP_ERR_MALLOC.
\<close>

definition store_id :: "u32 \<Rightarrow> u32 list \<Rightarrow> nat \<Rightarrow> malloc_oracle \<Rightarrow> (u32 list \<times> nat) option \<times> malloc_oracle" where
  "store_id code idcodes reallocs os =
     (if length idcodes \<ge> ALLOC_SIZE * 2 ^ reallocs
      then (case malloc (int (ALLOC_SIZE * 2 ^ (reallocs + 1)) * 4) os of
              (None, os) \<Rightarrow> (None, os)
            | (Some _, os) \<Rightarrow> (Some (idcodes @ [code], reallocs + 1), os))
      else (Some (idcodes @ [code], reallocs), os))"

datatype enum_result = Enum_Return u32 | Enum_Done u32 "u32 list"

fun enumerate_loop ::
  "'s jtag_cable_t \<Rightarrow> nat \<Rightarrow> u32 \<Rightarrow> u32 \<Rightarrow> u32 list \<Rightarrow> nat \<Rightarrow> 's jtag \<Rightarrow> (enum_result \<times> 's jtag) option" where
  "enumerate_loop c 0 err invalid_code idcodes reallocs st = Some (Enum_Done err idcodes, st)"
| "enumerate_loop c (Suc n) err invalid_code idcodes reallocs st =
     do { (e, start_bit, st) \<leftarrow> jtag_read_write_bit c (ucast (invalid_code AND 1)) st;
          let err = err OR e;
          let invalid_code = drop_bit 1 invalid_code;
          (if start_bit = 0 then
             (case store_id (-1) idcodes reallocs (mallocs st) of
                (None, os) \<Rightarrow> Some (Enum_Return APP_ERR_MALLOC, st\<lparr>mallocs := os\<rparr>)
              | (Some (idcodes, reallocs), os) \<Rightarrow>
                  (let st = st\<lparr>mallocs := os\<rparr> in
                   if err \<noteq> 0 then Some (Enum_Return err, st)
                   else enumerate_loop c n err invalid_code idcodes reallocs st))
           else
             do { (e, manuf, st) \<leftarrow> jtag_read_write_stream c [invalid_code] [0] 11 False False st;
                  temp_manuf_code \<leftarrow> word_at manuf 0;
                  let err = err OR e;
                  let invalid_code = drop_bit 11 invalid_code;
                  (if temp_manuf_code \<noteq> done_code then
                     do { (e, rest, st) \<leftarrow> jtag_read_write_stream c [invalid_code] [0] 20 False False st;
                          temp_rest_code \<leftarrow> word_at rest 0;
                          let err = err OR e;
                          let invalid_code = drop_bit 20 invalid_code;
                          let tempID = push_bit 12 temp_rest_code OR push_bit 1 temp_manuf_code OR 1;
                          (case store_id tempID idcodes reallocs (mallocs st) of
                             (None, os) \<Rightarrow> Some (Enum_Return APP_ERR_MALLOC, st\<lparr>mallocs := os\<rparr>)
                           | (Some (idcodes, reallocs), os) \<Rightarrow>
                               (let st = st\<lparr>mallocs := os\<rparr> in
                                if err \<noteq> 0 then Some (Enum_Return err, st)
                                else enumerate_loop c n err invalid_code idcodes reallocs st)) }
                   else Some (Enum_Done err idcodes, st)) }) }"

definition jtag_enumerate_chain ::
  "'s jtag_cable_t \<Rightarrow> 's jtag \<Rightarrow> (u32 \<times> u32 list option \<times> 's jtag) option" where
  "jtag_enumerate_chain c st =
     (case malloc (int ALLOC_SIZE * 4) (mallocs st) of
        (None, os) \<Rightarrow> Some (APP_ERR_MALLOC, None, st\<lparr>mallocs := os\<rparr>)
      | (Some _, os) \<Rightarrow>
          do { (e, st) \<leftarrow> tap_set_shift_dr c (st\<lparr>mallocs := os\<rparr>);
               (r, st) \<leftarrow> enumerate_loop c MAX_DEVICES e 0x7f [] 0 st;
               (case r of
                  Enum_Return err \<Rightarrow> Some (err, None, st)
                | Enum_Done err idcodes \<Rightarrow>
                    do { (e, st) \<leftarrow> run_all [jtag_write_bit c TMS, jtag_write_bit c TMS, jtag_write_bit c 0] st;
                         Some (err OR e, Some idcodes, st) }) })"

definition jtag_get_idcode :: "'s jtag_cable_t \<Rightarrow> u32 \<Rightarrow> 's jtag \<Rightarrow> (u32 \<times> u32 \<times> 's jtag) option" where
  "jtag_get_idcode c cmd st =
    (let saveconfig = global_altera_virtual_jtag st;
         st = st\<lparr>global_altera_virtual_jtag := False\<rparr> in
     do { (e1, st) \<leftarrow> run_all [tap_set_ir c cmd, tap_set_shift_dr c] st;
          (e2, ins, st) \<leftarrow> jtag_read_write_stream c [0] [0] 32 True True st;
          idcode \<leftarrow> word_at ins 0;
          (e3, st) \<leftarrow> run_all [jtag_write_bit c TMS, jtag_write_bit c 0] st;
          Some (e1 OR e2 OR e3, idcode, st\<lparr>global_altera_virtual_jtag := saveconfig\<rparr>) })"

subsection \<open>Retries\<close>

definition retry_do :: "'s jtag_cable_t \<Rightarrow> 's jtag \<Rightarrow> (bool \<times> 's jtag) option" where
  "retry_do c st =
     (if soft_retry_no st \<ge> NUM_SOFT_RETRIES then Some (False, st)
      else do { (e, st) \<leftarrow> tap_reset c st;
                (if e \<noteq> 0 then Some (False, st)
                 else do { (e, st) \<leftarrow> tap_enable_debug_module c st;
                           (if e \<noteq> 0 then Some (False, st)
                            else Some (True, st\<lparr>soft_retry_no := soft_retry_no st + 1\<rparr>)) }) })"

definition retry_ok :: "'s jtag \<Rightarrow> 's jtag" where
  "retry_ok st = st\<lparr>soft_retry_no := 0\<rparr>"

subsection \<open>What a transaction leaves alone\<close>

text \<open>\<open>chain_indep g\<close>: \<open>g\<close> reads nothing that the transactions on the chain change.\<close>

definition chain_indep :: "('s jtag \<Rightarrow> 'v) \<Rightarrow> bool" where
  "chain_indep g \<longleftrightarrow> (\<forall>st s p m k xs. g (st\<lparr>cable := s\<rparr>) = g st \<and> g (st\<lparr>ir_chain := p\<rparr>) = g st
     \<and> g (st\<lparr>mallocs := m\<rparr>) = g st \<and> g (st\<lparr>current_chain := k\<rparr>) = g st \<and> g (st\<lparr>current_reg_idx := xs\<rparr>) = g st)"

lemma chain_indepD:
  assumes "chain_indep g"
  shows "g (st\<lparr>cable := s\<rparr>) = g st" "g (st\<lparr>ir_chain := p\<rparr>) = g st" "g (st\<lparr>mallocs := m\<rparr>) = g st"
    "g (st\<lparr>current_chain := k\<rparr>) = g st" "g (st\<lparr>current_reg_idx := xs\<rparr>) = g st"
  using assms by (simp_all add: chain_indep_def)

lemma chain_indep_fields [simp, intro]:
  "chain_indep soft_retry_no" "chain_indep desired_chain" "chain_indep dbg_access_mutex"
  "chain_indep global_IR_size" "chain_indep global_DR_prefix_bits" "chain_indep legacy_crc_r" "chain_indep legacy_crc_w"
  by (simp_all add: chain_indep_def)

lemma keeps_jtag_write_bit [keeps_intros]: "chain_indep g \<Longrightarrow> keeps g (jtag_write_bit c p)"
  by (rule keepsI) (auto simp: jtag_write_bit_def chain_indepD split: Option.bind_splits)

lemma keeps_on_cable_stream [keeps_intros]: "chain_indep g \<Longrightarrow> keeps g (on_cable_stream c ws n l)"
  by (rule keepsI) (auto simp: on_cable_stream_def chain_indepD split: Option.bind_splits)

lemma keeps_bits [keeps_intros]: "chain_indep g \<Longrightarrow> keeps g (run_all (replicate n (jtag_write_bit c p)))"
  by (intro keeps_intros) (simp add: keeps_jtag_write_bit)

lemma keeps_prefix_ops: "chain_indep g \<Longrightarrow> f \<in> set (prefix_ops c st) \<Longrightarrow> keeps g f"
  by (auto simp: prefix_ops_def intro: keeps_intros)

lemma keeps_jtag_write_stream [keeps_intros]:
  assumes "chain_indep g"
  shows "keeps g (jtag_write_stream c ws n l)"
proof (rule keepsI)
  fix st e st'
  have "keeps g (run_all (on_cable_stream c ws n False # prefix_ops c st))"
    using assms by (intro keeps_intros) (auto intro: keeps_intros keeps_prefix_ops)
  moreover have "keeps g (on_cable_stream c ws n b)" for b
    using assms by (rule keeps_intros)
  ultimately show "jtag_write_stream c ws n l st = Some (e, st') \<Longrightarrow> g st' = g st"
    by (auto simp: jtag_write_stream_def split: if_splits dest: keepsD)
qed

lemma keeps_on_cable_read_stream [keeps_intros]: "chain_indep g \<Longrightarrow> keeps2 g (on_cable_read_stream c ws ins n l)"
  by (rule keeps2I) (auto simp: on_cable_read_stream_def chain_indepD split: Option.bind_splits)

lemma keeps_jtag_read_write_bit [keeps_intros]: "chain_indep g \<Longrightarrow> keeps2 g (jtag_read_write_bit c p)"
  by (rule keeps2I) (auto simp: jtag_read_write_bit_def chain_indepD split: Option.bind_splits)

lemma keeps_jtag_read_write_stream [keeps_intros]:
  assumes "chain_indep g"
  shows "keeps2 g (jtag_read_write_stream c ws ins n adjust l)"
proof (rule keeps2I)
  fix st e x st'
  assume r: "jtag_read_write_stream c ws ins n adjust l st = Some (e, x, st')"
  have read: "keeps2 g (on_cable_read_stream c ws ins n b)" for b
    using assms by (rule keeps_intros)
  have pre: "keeps g (run_all (prefix_ops c st1))" for st1
    using assms by (intro keeps_intros) (rule keeps_prefix_ops)
  have post: "keeps g (run_all (replicate k (jtag_write_bit c 0)))" for k
    using assms by (rule keeps_intros)
  from r show "g st' = g st"
    unfolding jtag_read_write_stream_def
    by (auto split: if_splits Option.bind_splits simp del: run_all.simps
        dest!: keepsD [OF post] keeps2D [OF read] keepsD [OF pre])
qed

lemma keeps_tap_moves [keeps_intros]:
  assumes "chain_indep g"
  shows "keeps g (tap_set_shift_dr c)" "keeps g (tap_exit_to_idle c)"
  unfolding tap_set_shift_dr_def tap_exit_to_idle_def
  using assms by (intro keeps_intros; auto intro: keeps_intros)+

lemma keeps_tap_reset [keeps_intros]:
  assumes "chain_indep g"
  shows "keeps g (tap_reset c)"
proof -
  have "keeps g (run_all ([jtag_write_bit c 0] @ replicate 8 (jtag_write_bit c TMS) @ [jtag_write_bit c TRST, jtag_write_bit c 0]))"
    using assms by (intro keeps_intros) (auto intro: keeps_intros)
  then show ?thesis
    unfolding tap_reset_def keeps_def
    by (auto simp: chain_indepD [OF assms] simp del: run_all.simps split: Option.bind_splits)
qed

lemma keeps_tap_set_ir [keeps_intros]:
  assumes "chain_indep g"
  shows "keeps g (tap_set_ir c ir)"
proof -
  have scan: "keeps g (run_all [jtag_write_bit c TMS, jtag_write_bit c TMS, jtag_write_bit c 0, jtag_write_bit c 0,
        on_cable_stream c chain n True, jtag_write_bit c TMS, jtag_write_bit c 0])" for chain n
    using assms by (intro keeps_intros) (auto intro: keeps_intros)
  show ?thesis
    unfolding tap_set_ir_def Let_def
    by (intro keepsI) (auto simp: chain_indepD [OF assms] simp del: run_all.simps
        split: Option.bind_splits option.splits prod.splits dest!: keepsD [OF scan])
qed

lemma keeps_tap_enable_debug_module [keeps_intros]:
  assumes "chain_indep g"
  shows "keeps g (tap_enable_debug_module c)"
proof -
  have vjtag: "keeps g (run_all [tap_set_ir c a, jtag_write_bit c TMS, jtag_write_bit c 0, jtag_write_bit c 0,
      jtag_write_stream c ws n True, jtag_write_bit c TMS, jtag_write_bit c 0, tap_set_ir c b])" for a ws n b
    using assms by (intro keeps_intros) (auto intro: keeps_intros)
  have ir: "keeps g (tap_set_ir c a)" for a using assms by (rule keeps_intros)
  show ?thesis
    unfolding tap_enable_debug_module_def Let_def
    by (intro keepsI) (auto simp del: run_all.simps split: if_splits dest: keepsD [OF vjtag] keepsD [OF ir])
qed

subsection \<open>What a transaction clocks into the chain\<close>

definition dr_packets :: "int \<Rightarrow> u32 list \<Rightarrow> nat \<Rightarrow> u8 list" where
  "dr_packets prefix_bits ws n =
     (if prefix_bits = 0 then stream_packets ws n True
      else stream_packets ws n False @ replicate (nat (prefix_bits - 1)) 0 @ [TMS])"

lemma cable_update_inj [simp]: "st\<lparr>cable := a\<rparr> = st\<lparr>cable := b\<rparr> \<longleftrightarrow> a = b"
  by (cases st) simp

context jtag_cable
begin

text \<open>
  \<open>clk st f ps\<close>: in the configuration \<open>st\<close>, \<open>f\<close> succeeds on a working cable, changes nothing but the
  cable, and clocks exactly the packets \<open>ps\<close> into the chain.
\<close>

definition clk :: "'s jtag \<Rightarrow> 's jtag op \<Rightarrow> u8 list \<Rightarrow> bool" where
  "clk st f ps \<longleftrightarrow> (\<forall>s. ok s \<longrightarrow> (\<exists>s'. f (st\<lparr>cable := s\<rparr>) = Some (0, st\<lparr>cable := s'\<rparr>)
                                \<and> ok s' \<and> dev s' = fold step ps (dev s)))"

lemma clk_write_bit: "clk st (jtag_write_bit c p) [p]"
  unfolding clk_def
proof (intro allI impI)
  fix s assume "ok s"
  then obtain s' where "bit_out_func c p s = Some (0, s')" "ok s'" "dev s' = step p (dev s)"
    using bit_out by blast
  then show "\<exists>s'. jtag_write_bit c p (st\<lparr>cable := s\<rparr>) = Some (0, st\<lparr>cable := s'\<rparr>)
      \<and> ok s' \<and> dev s' = fold step [p] (dev s)"
    by (simp add: jtag_write_bit_def cable_write_bit_def)
qed

lemma clk_stream:
  assumes "0 < n" "n \<le> 32 * length ws" "m = int n"
  shows "clk st (on_cable_stream c ws m l) (stream_packets ws n l)"
  unfolding clk_def
proof (intro allI impI)
  fix s assume "ok s"
  then obtain s' where "stream_out_func c ws m l s = Some (0, s')" "ok s'"
    "dev s' = fold step (stream_packets ws n l) (dev s)"
    using stream_out [OF _ assms(1,2)] assms(3) by blast
  then show "\<exists>s'. on_cable_stream c ws m l (st\<lparr>cable := s\<rparr>) = Some (0, st\<lparr>cable := s'\<rparr>)
      \<and> ok s' \<and> dev s' = fold step (stream_packets ws n l) (dev s)"
    by (simp add: on_cable_stream_def cable_write_stream_def)
qed

lemma clk_Nil: "clk st (run_all []) []"
  by (auto simp: clk_def)

lemma clk_Cons:
  assumes "clk st f ps" and "clk st (run_all fs) qs"
  shows "clk st (run_all (f # fs)) (ps @ qs)"
  unfolding clk_def
proof (intro allI impI)
  fix s assume "ok s"
  with assms(1) obtain s1 where s1: "f (st\<lparr>cable := s\<rparr>) = Some (0, st\<lparr>cable := s1\<rparr>)" "ok s1"
    "dev s1 = fold step ps (dev s)" unfolding clk_def by blast
  with assms(2) obtain s2 where "run_all fs (st\<lparr>cable := s1\<rparr>) = Some (0, st\<lparr>cable := s2\<rparr>)" "ok s2"
    "dev s2 = fold step qs (dev s1)" unfolding clk_def by blast
  with s1 show "\<exists>s'. run_all (f # fs) (st\<lparr>cable := s\<rparr>) = Some (0, st\<lparr>cable := s'\<rparr>)
      \<and> ok s' \<and> dev s' = fold step (ps @ qs) (dev s)"
    by simp
qed

lemma clk_append:
  assumes "clk st (run_all fs) ps" and "clk st (run_all gs) qs"
  shows "clk st (run_all (fs @ gs)) (ps @ qs)"
  unfolding clk_def
proof (intro allI impI)
  fix s assume "ok s"
  with assms(1) obtain s1 where s1: "run_all fs (st\<lparr>cable := s\<rparr>) = Some (0, st\<lparr>cable := s1\<rparr>)" "ok s1"
    "dev s1 = fold step ps (dev s)" unfolding clk_def by blast
  with assms(2) obtain s2 where "run_all gs (st\<lparr>cable := s1\<rparr>) = Some (0, st\<lparr>cable := s2\<rparr>)" "ok s2"
    "dev s2 = fold step qs (dev s1)" unfolding clk_def by blast
  with s1 show "\<exists>s'. run_all (fs @ gs) (st\<lparr>cable := s\<rparr>) = Some (0, st\<lparr>cable := s'\<rparr>)
      \<and> ok s' \<and> dev s' = fold step (ps @ qs) (dev s)"
    by (simp add: run_all_append)
qed

lemma clk_bits: "clk st (run_all (map (jtag_write_bit c) ps)) ps"
proof (induction ps)
  case Nil
  show ?case by (simp only: list.map clk_Nil)
next
  case (Cons p ps)
  then show ?case using clk_Cons [OF clk_write_bit, of st _ ps] by (simp only: list.map append.simps)
qed

lemma clk_apply:
  assumes "clk st f ps" and "ok (cable st)"
  obtains s' where "f st = Some (0, st\<lparr>cable := s'\<rparr>)" "ok s'" "dev s' = fold step ps (dev (cable st))"
  using assms unfolding clk_def by (metis jtag.surjective jtag.update_convs(1) old.unit.exhaust)

lemma clk_shift_dr: "clk st (tap_set_shift_dr c) [TMS, 0, 0]"
  using clk_bits [of st "[TMS, 0, 0]"] by (simp add: tap_set_shift_dr_def del: run_all.simps)

lemma clk_exit_to_idle: "clk st (tap_exit_to_idle c) [TMS, 0]"
  using clk_bits [of st "[TMS, 0]"] by (simp add: tap_exit_to_idle_def del: run_all.simps)

lemma prefix_ops_bits:
  "prefix_ops c st = map (jtag_write_bit c) (replicate (nat (global_DR_prefix_bits st - 1)) 0 @ [TMS])"
  by (simp add: prefix_ops_def)

lemma clk_cong: "(\<And>s. f (st\<lparr>cable := s\<rparr>) = g (st\<lparr>cable := s\<rparr>)) \<Longrightarrow> clk st f ps = clk st g ps"
  by (simp add: clk_def)

lemma clk_write_stream_tms:
  assumes "0 < n" "n \<le> 32 * length ws" "m = int n"
  shows "clk st (jtag_write_stream c ws m True) (dr_packets (global_DR_prefix_bits st) ws n)"
proof (cases "global_DR_prefix_bits st = 0")
  case True
  with clk_stream [OF assms, of st True] show ?thesis
    by (subst clk_cong [where g = "on_cable_stream c ws m True"])
      (simp_all add: jtag_write_stream_def dr_packets_def)
next
  case False
  have "clk st (run_all (on_cable_stream c ws m False # prefix_ops c st)) (dr_packets (global_DR_prefix_bits st) ws n)"
    using clk_Cons [OF clk_stream [OF assms, of st False] clk_bits] False
    by (simp only: prefix_ops_bits dr_packets_def if_False)
  with False show ?thesis
    by (subst clk_cong [where g = "run_all (on_cable_stream c ws m False # prefix_ops c st)"])
      (simp_all add: jtag_write_stream_def prefix_ops_def)
qed

lemma clk_write_stream_plain:
  assumes "0 < n" "n \<le> 32 * length ws" "m = int n"
  shows "clk st (jtag_write_stream c ws m False) (stream_packets ws n False)"
  using clk_stream [OF assms, of st False]
  by (subst clk_cong [where g = "on_cable_stream c ws m False"]) (simp_all add: jtag_write_stream_def)

lemma clk_reset:
  "clk st (run_all ([jtag_write_bit c 0] @ replicate 8 (jtag_write_bit c TMS) @ [jtag_write_bit c TRST, jtag_write_bit c 0]))
     ([0] @ replicate 8 TMS @ [TRST, 0])"
  using clk_bits [of st "[0] @ replicate 8 TMS @ [TRST, 0]"]
  by (simp only: map_append map_replicate list.map append.simps)

lemma reset_succeeds:
  assumes "ok (cable st)"
  obtains s' where
    "tap_reset c st = Some (0, st\<lparr>cable := s', current_chain := -1, current_reg_idx := replicate DBG_MAX_MODULES (-1)\<rparr>)"
    "ok s'" "dev s' = fold step ([0] @ replicate 8 TMS @ [TRST, 0]) (dev (cable st))"
proof -
  obtain s' where "run_all ([jtag_write_bit c 0] @ replicate 8 (jtag_write_bit c TMS) @ [jtag_write_bit c TRST, jtag_write_bit c 0]) st
      = Some (0, st\<lparr>cable := s'\<rparr>)" "ok s'"
    "dev s' = fold step ([0] @ replicate 8 TMS @ [TRST, 0]) (dev (cable st))"
    using clk_apply [OF clk_reset assms] .
  then show thesis
    by (intro that) (simp_all add: tap_reset_def)
qed

end

subsection \<open>The IR image\<close>

definition ir_word :: "u32 \<Rightarrow> nat \<Rightarrow> nat \<Rightarrow> u32" where
  "ir_word ir n ss = (FF32 AND push_bit ss ir) OR NOT (push_bit ss FF32) OR push_bit (ss + n) FF32"

lemma bit_all_ones: "bit FF32 j \<longleftrightarrow> j < 32"
proof -
  have ones: "FF32 = - 1" by (simp add: FF32_def)
  show ?thesis by (subst ones) simp
qed

lemma bit_ir_word:
  "j < 32 \<Longrightarrow> bit (ir_word ir n ss) j = (if ss \<le> j \<and> j < ss + n then bit ir (j - ss) else True)"
  unfolding ir_word_def
  by (auto simp: bit_or_iff bit_and_iff bit_not_iff bit_push_bit_iff bit_all_ones possible_bit_def)

lemma upd_at_lt: "i < length ws \<Longrightarrow> upd_at ws (int i) f = Some (ws[i := f (ws ! i)])"
  by (simp add: upd_at_def)

lemma ir_chain_bits_eq:
  assumes "p mod 32 + n < 32" and "words \<le> length chain" and "p div 32 < words"
  shows "ir_chain_bits ir (int n) (int p) words chain =
     Some ((replicate words FF32 @ drop words chain)[p div 32 := ir_word ir n (p mod 32)])"
proof -
  have off: "int p div 32 = int (p div 32)" by (simp add: zdiv_int)
  have sh: "int p - int (p div 32) * 32 = int (p mod 32)"
    using minus_div_mult_eq_mod [of "int p" 32] by (simp add: zdiv_int zmod_int)
  have shl: "c_shl32 w (int k) = Some (push_bit k w)" if "k < 32" for w k
    using that by (simp add: c_shl32_def)
  have sum: "int (p mod 32) + int n = int (p mod 32 + n)" by simp
  define L where "L = replicate words (FF32 :: u32) @ drop words chain"
  have len: "p div 32 < length L" and nth: "L ! (p div 32) = FF32"
    using assms by (simp_all add: L_def nth_append)
  have "\<not> int (p mod 32 + n) > 32" "\<not> length chain < words" using assms by simp_all
  then show ?thesis
    using assms(1) len
    by (simp add: ir_chain_bits_def Let_def off sh sum shl upd_at_lt nth ir_word_def L_def [symmetric] or.assoc
        del: of_nat_add of_nat_mod)
qed

text \<open>
  The bits sent: ones for the devices behind, the instruction, ones for the devices in front.
\<close>

lemma stream_bit_ir_chain:
  assumes "p mod 32 + n < 32" and "p div 32 < words" and "i < 32 * words"
  shows "stream_bit ((replicate words FF32 @ ws)[p div 32 := ir_word ir n (p mod 32)]) i =
     (if p \<le> i \<and> i < p + n then bit ir (i - p) else True)"
proof -
  have i: "i div 32 < words" using assms(3) by (intro less_mult_imp_div_less) auto
  have di: "i = 32 * (i div 32) + i mod 32" and dp: "p = 32 * (p div 32) + p mod 32" by simp_all
  show ?thesis
  proof (cases "i div 32 = p div 32")
    case True
    then have "p \<le> i \<longleftrightarrow> p mod 32 \<le> i mod 32" "i < p + n \<longleftrightarrow> i mod 32 < p mod 32 + n"
      "i - p = i mod 32 - p mod 32"
      using di dp by linarith+
    with True i assms(2) show ?thesis
      by (simp add: stream_bit_def bit_ir_word nth_append)
  next
    case False
    then have "\<not> (p \<le> i \<and> i < p + n)" using di dp assms(1) by linarith
    with False i show ?thesis
      by (auto simp: stream_bit_def nth_append bit_all_ones)
  qed
qed

lemma stream_bits_ir_chain:
  assumes "p mod 32 + n < 32" and "p div 32 < words" and "p + n + q \<le> 32 * words"
  shows "stream_bits ((replicate words FF32 @ ws)[p div 32 := ir_word ir n (p mod 32)]) (p + n + q) =
     replicate p True @ map (bit ir) [0..<n] @ replicate q True"
proof (rule nth_equalityI)
  fix i assume "i < length (stream_bits ((replicate words FF32 @ ws)[p div 32 := ir_word ir n (p mod 32)]) (p + n + q))"
  then have i: "i < p + n + q" by simp
  then show "stream_bits ((replicate words FF32 @ ws)[p div 32 := ir_word ir n (p mod 32)]) (p + n + q) ! i =
     (replicate p True @ map (bit ir) [0..<n] @ replicate q True) ! i"
    using stream_bit_ir_chain [OF assms(1,2), of i ws ir] assms(3)
    by (auto simp: stream_bits_def nth_append)
qed simp

end
