(* ===== verification/Tap_Transactions.thy ===== *)
theory Tap_Transactions
  imports Chain_Commands
begin

unbundle bit_operations_syntax

text \<open>
  What the transactions of chain_commands.c do to the TAP of tap_top.v: each is a walk of the TAP
  controller, and the data lands in the register the walk selects.
\<close>

abbreviation hw_step :: "u8 \<Rightarrow> debug_dev \<Rightarrow> debug_dev" where
  "hw_step \<equiv> packet_step tck_cycle"

subsection \<open>Packets on the TAP\<close>

lemma packet_bits [simp]:
  "bit TMS 0 = False" "bit TMS (Suc 0) = True" "bit TMS 2 = False"
  "bit TRST 0 = False" "bit TRST (Suc 0) = False" "bit TRST 2 = True"
  "bit TDO 0 = True" "bit TDO (Suc 0) = False" "bit TDO 2 = False"
  by (simp_all add: packet_defs)

lemma hw_step_plain:
  "\<not> bit p 2 \<Longrightarrow> hw_step p d = tck_cycle False (bit p 1) (bit p 0) d"
  by (simp add: packet_step_def)

lemma bit_stream_packet:
  "bit (stream_packet ws n l i) 0 = stream_bit ws i"
  "bit (stream_packet ws n l i) (Suc 0) \<longleftrightarrow> l \<and> Suc i = n"
  "\<not> bit (stream_packet ws n l i) 2"
  by (auto simp: stream_packet_def bit_or_iff)

lemmas tck_defs = tck_cycle_def posedge_tck_def negedge_tck_def Let_def

lemma walk_to_shift_ir:
  "TAP_state d = Run_Test_Idle \<Longrightarrow>
     fold hw_step [TMS, TMS, 0, 0] d = d\<lparr>TAP_state := Shift_IR, jtag_ir := 0b0101\<rparr>"
  by (cases d) (simp add: packet_step_def tck_defs)

lemma walk_exit_ir:
  "TAP_state d = Exit1_IR \<Longrightarrow>
     fold hw_step [TMS, 0] d = d\<lparr>TAP_state := Run_Test_Idle, latched_jtag_ir := jtag_ir d\<rparr>"
  by (cases d) (simp add: packet_step_def tck_defs)

lemma walk_to_shift_dr:
  "TAP_state d = Run_Test_Idle \<Longrightarrow> debug_select d \<Longrightarrow>
     fold hw_step [TMS, 0, 0] d = d\<lparr>TAP_state := Shift_DR\<rparr>"
  by (cases d)
    (simp add: packet_step_def tck_defs debug_select_def idcode_select_def bypass_select_def ir_code_defs)

lemma walk_exit_dr:
  "TAP_state d = Exit1_DR \<Longrightarrow> debug_select d \<Longrightarrow>
     fold hw_step [TMS, 0] d =
       d\<lparr>TAP_state := Run_Test_Idle,
         module_id_reg := (if bit (input_shift_reg d) 52 \<and> \<not> select_inhibit d
                           then ucast (drop_bit 50 (input_shift_reg d)) else module_id_reg d)\<rparr>"
  by (cases d) (simp add: packet_step_def tck_defs debug_select_def)

lemma shift_ir_bits:
  "TAP_state d = Shift_IR \<Longrightarrow> (\<And>p. p \<in> set ps \<Longrightarrow> \<not> bit p 1 \<and> \<not> bit p 2) \<Longrightarrow>
     fold hw_step ps d = d\<lparr>jtag_ir := fold shift_in (map (\<lambda>p. bit p 0) ps) (jtag_ir d)\<rparr>"
proof (induction ps arbitrary: d)
  case Nil
  then show ?case by simp
next
  case (Cons p ps)
  have "hw_step p d = d\<lparr>jtag_ir := shift_in (bit p 0) (jtag_ir d)\<rparr>"
    using Cons.prems by (cases d) (simp add: packet_step_def tck_defs)
  with Cons show ?case by simp
qed

lemma shift_dr_bits:
  "TAP_state d = Shift_DR \<Longrightarrow> debug_select d \<Longrightarrow> (\<And>p. p \<in> set ps \<Longrightarrow> \<not> bit p 1 \<and> \<not> bit p 2) \<Longrightarrow>
     fold hw_step ps d = d\<lparr>input_shift_reg := fold shift_in (map (\<lambda>p. bit p 0) ps) (input_shift_reg d)\<rparr>"
proof (induction ps arbitrary: d)
  case Nil
  then show ?case by simp
next
  case (Cons p ps)
  have "hw_step p d = d\<lparr>input_shift_reg := shift_in (bit p 0) (input_shift_reg d)\<rparr>"
    using Cons.prems
    by (cases d) (simp add: packet_step_def tck_defs debug_select_def idcode_select_def bypass_select_def ir_code_defs)
  with Cons show ?case by (simp add: debug_select_def)
qed

lemma stream_packets_split:
  "stream_packets ws (Suc k) l = map (stream_packet ws (Suc k) l) [0..<k] @ [stream_packet ws (Suc k) l k]"
  by (simp add: stream_packets_def)

lemma packets_data: "map (\<lambda>p. bit p 0) (stream_packets ws n l) = stream_bits ws n"
  by (simp add: stream_packets_def stream_bits_def bit_stream_packet comp_def)

lemma shift_ir_stream:
  assumes "TAP_state d = Shift_IR" and "0 < n"
  shows "fold hw_step (stream_packets ws n True) d =
     d\<lparr>TAP_state := Exit1_IR, jtag_ir := fold shift_in (stream_bits ws n) (jtag_ir d)\<rparr>"
proof -
  obtain k where k: "n = Suc k" using assms(2) by (cases n) auto
  define ps where "ps = map (stream_packet ws n True) [0..<k]"
  define d1 where "d1 = d\<lparr>jtag_ir := fold shift_in (map (\<lambda>p. bit p 0) ps) (jtag_ir d)\<rparr>"
  have "fold hw_step ps d = d1"
    unfolding d1_def by (rule shift_ir_bits [OF assms(1)]) (auto simp: ps_def k bit_stream_packet)
  moreover have "hw_step (stream_packet ws n True k) d1 =
      d1\<lparr>TAP_state := Exit1_IR, jtag_ir := shift_in (stream_bit ws k) (jtag_ir d1)\<rparr>"
    using assms(1) by (cases d) (simp add: d1_def packet_step_def tck_defs bit_stream_packet k)
  moreover have "stream_bits ws n = map (\<lambda>p. bit p 0) ps @ [stream_bit ws k]"
    by (simp add: stream_bits_def ps_def k bit_stream_packet)
  ultimately show ?thesis
    by (simp add: k stream_packets_split ps_def [unfolded k, symmetric] d1_def)
qed

lemma shift_dr_stream:
  assumes "TAP_state d = Shift_DR" and "debug_select d" and "0 < n"
  shows "fold hw_step (stream_packets ws n True) d =
     d\<lparr>TAP_state := Exit1_DR, input_shift_reg := fold shift_in (stream_bits ws n) (input_shift_reg d)\<rparr>"
proof -
  obtain k where k: "n = Suc k" using assms(3) by (cases n) auto
  define ps where "ps = map (stream_packet ws n True) [0..<k]"
  define d1 where "d1 = d\<lparr>input_shift_reg := fold shift_in (map (\<lambda>p. bit p 0) ps) (input_shift_reg d)\<rparr>"
  have "fold hw_step ps d = d1"
    unfolding d1_def by (rule shift_dr_bits [OF assms(1,2)]) (auto simp: ps_def k bit_stream_packet)
  moreover have "hw_step (stream_packet ws n True k) d1 =
      d1\<lparr>TAP_state := Exit1_DR, input_shift_reg := shift_in (stream_bit ws k) (input_shift_reg d1)\<rparr>"
    using assms(1,2)
    by (cases d) (simp add: d1_def packet_step_def tck_defs bit_stream_packet k debug_select_def
        idcode_select_def bypass_select_def ir_code_defs)
  moreover have "stream_bits ws n = map (\<lambda>p. bit p 0) ps @ [stream_bit ws k]"
    by (simp add: stream_bits_def ps_def k bit_stream_packet)
  ultimately show ?thesis
    by (simp add: k stream_packets_split ps_def [unfolded k, symmetric] d1_def)
qed

lemma hw_step_TAP_state:
  "TAP_state (hw_step p d) = (if bit p 2 then Test_Logic_Reset else next_TAP_state (TAP_state d) (bit p 1))"
  by (simp add: packet_step_def)

lemma fold_TMS_reset:
  "5 \<le> n \<Longrightarrow> TAP_state (fold hw_step (replicate n TMS) d) = Test_Logic_Reset"
proof -
  have "TAP_state (fold hw_step (replicate m TMS) d) = tap_walk (replicate m True) (TAP_state d)" for m
    by (induction m arbitrary: d) (simp_all add: hw_step_TAP_state)
  moreover assume "5 \<le> n"
  ultimately show ?thesis by (simp add: tap_walk_reset)
qed

lemma reset_packets_hw:
  defines "d' \<equiv> \<lambda>d. fold hw_step ([0] @ replicate 8 TMS @ [TRST, 0]) d"
  shows "TAP_state (d' d) = Run_Test_Idle \<and> latched_jtag_ir (d' d) = IDCODE"
proof -
  define e where "e = fold hw_step (replicate 8 TMS) (hw_step 0 d)"
  have "d' d = hw_step 0 (hw_step TRST e)"
    by (simp add: d'_def e_def del: replicate.simps)
  then show ?thesis by (simp add: packet_step_def tck_defs)
qed

subsection \<open>Transactions as scans\<close>

text \<open>A scan of the bits \<open>bs\<close> in a shift state: one packet per bit, TMS with the last.\<close>

definition scan_packets :: "bool list \<Rightarrow> u8 list" where
  "scan_packets bs =
     map (\<lambda>i. (if bs ! i then TDO else 0) OR (if Suc i = length bs then TMS else 0)) [0..<length bs]"

lemma stream_packets_scan: "stream_packets ws n True = scan_packets (stream_bits ws n)"
  by (simp add: stream_packets_def stream_packet_def scan_packets_def stream_bits_def)

definition ir_words :: "'s jtag \<Rightarrow> nat" where
  "ir_words st = nat ((global_IR_size st + global_IR_prefix_bits st + global_IR_postfix_bits st) div 32 + 1)"

definition ir_buffer_ready :: "'s jtag \<Rightarrow> bool" where
  "ir_buffer_ready st \<longleftrightarrow> (case ir_chain st of Some ch \<Rightarrow> ir_words st \<le> length ch
     | None \<Rightarrow> fst (malloc (int (ir_words st) * 4) (mallocs st)) \<noteq> None)"

lemma length_malloc: "malloc n os = (Some bs, os') \<Longrightarrow> length bs = nat n"
  by (auto simp: malloc_def split: list.splits if_splits)

lemma ir_buffer_acquired:
  assumes "ir_buffer_ready st"
  obtains chain os where "ir_words st \<le> length chain"
    "(case ir_chain st of Some p \<Rightarrow> (Some p, mallocs st)
      | None \<Rightarrow> (case malloc (int (ir_words st) * 4) (mallocs st) of
           (Some bs, os) \<Rightarrow> (Some (words_of_bytes bs), os) | (None, os) \<Rightarrow> (None, os))) = (Some chain, os)"
proof (cases "ir_chain st")
  case (Some ch)
  with assms show thesis by (intro that [of ch]) (simp_all add: ir_buffer_ready_def)
next
  case None
  then obtain bs os where m: "malloc (int (ir_words st) * 4) (mallocs st) = (Some bs, os)"
    using assms by (cases "malloc (int (ir_words st) * 4) (mallocs st)") (auto simp: ir_buffer_ready_def)
  then have "length (words_of_bytes bs) = ir_words st"
    using length_malloc [OF m] by (simp add: length_words_of_bytes nat_mult_distrib)
  with None m show thesis by (intro that [of "words_of_bytes bs" os]) simp_all
qed

context jtag_cable
begin

lemma set_ir_succeeds:
  assumes ok: "ok (cable st)" and buf: "ir_buffer_ready st"
    and sizes: "global_IR_size st = int n" "global_IR_postfix_bits st = int p" "global_IR_prefix_bits st = int q"
    and fits: "0 < n" "p mod 32 + n < 32"
  obtains st' where "tap_set_ir c ir st = Some (0, st')" "ok (cable st')" "current_chain st' = -1"
    "dev (cable st') = fold step ([TMS, TMS, 0, 0]
        @ scan_packets (replicate p True @ map (bit ir) [0..<n] @ replicate q True) @ [TMS, 0]) (dev (cable st))"
    "\<And>f. f \<in> {desired_chain, soft_retry_no} \<Longrightarrow> f st' = f st"
    "current_reg_idx st' = current_reg_idx st" "ir_buffer_ready st'"
    "global_IR_size st' = int n" "global_IR_postfix_bits st' = int p" "global_IR_prefix_bits st' = int q"
    "global_DR_prefix_bits st' = global_DR_prefix_bits st"
proof -
  have words: "ir_words st = (p + n + q) div 32 + 1"
    by (simp add: ir_words_def sizes add.commute add.left_commute nat_add_distrib flip: zdiv_int of_nat_add)
  obtain chain os where chain: "ir_words st \<le> length chain"
    "(case ir_chain st of Some p \<Rightarrow> (Some p, mallocs st)
      | None \<Rightarrow> (case malloc (int (ir_words st) * 4) (mallocs st) of
           (Some bs, os) \<Rightarrow> (Some (words_of_bytes bs), os) | (None, os) \<Rightarrow> (None, os))) = (Some chain, os)"
    using ir_buffer_acquired [OF buf] .
  define ws where "ws = (replicate (ir_words st) FF32 @ drop (ir_words st) chain)[p div 32 := ir_word ir n (p mod 32)]"
  have pw: "p div 32 < ir_words st" by (simp add: words div_le_mono less_Suc_eq_le)
  have bits: "ir_chain_bits ir (int n) (int p) (ir_words st) chain = Some ws"
    unfolding ws_def by (rule ir_chain_bits_eq [OF fits(2) chain(1) pw])
  have room: "p + n + q \<le> 32 * ir_words st" by (simp add: words)
  have len: "length ws = length chain" using chain(1) by (simp add: ws_def)
  let ?st = "st\<lparr>mallocs := os, ir_chain := Some ws\<rparr>"
  let ?ops = "[jtag_write_bit c TMS, jtag_write_bit c TMS, jtag_write_bit c 0, jtag_write_bit c 0,
        on_cable_stream c ws (int n + int q + int p) True, jtag_write_bit c TMS, jtag_write_bit c 0]"
  have "clk ?st (run_all (map (jtag_write_bit c) [TMS, TMS, 0, 0]
        @ on_cable_stream c ws (int n + int q + int p) True # map (jtag_write_bit c) [TMS, 0]))
      ([TMS, TMS, 0, 0] @ stream_packets ws (p + n + q) True @ [TMS, 0])"
    using fits(1) room chain(1) len by (intro clk_append clk_Cons clk_bits clk_stream) auto
  then have "clk ?st (run_all ?ops) ([TMS, TMS, 0, 0] @ stream_packets ws (p + n + q) True @ [TMS, 0])"
    by (simp only: list.map append.simps)
  then obtain s' where s': "run_all ?ops ?st = Some (0, ?st\<lparr>cable := s'\<rparr>)" "ok s'"
    "dev s' = fold step ([TMS, TMS, 0, 0] @ stream_packets ws (p + n + q) True @ [TMS, 0]) (dev (cable ?st))"
    using ok by (auto elim!: clk_apply)
  show thesis
  proof (rule that)
    show "tap_set_ir c ir st = Some (0, ?st\<lparr>cable := s', current_chain := -1\<rparr>)"
      unfolding tap_set_ir_def Let_def ir_words_def [symmetric] chain(2)
      using bits s'(1) by (simp add: sizes del: run_all.simps)
    show "dev (cable (?st\<lparr>cable := s', current_chain := -1\<rparr>)) = fold step ([TMS, TMS, 0, 0]
        @ scan_packets (replicate p True @ map (bit ir) [0..<n] @ replicate q True) @ [TMS, 0]) (dev (cable st))"
      using s'(3) stream_bits_ir_chain [OF fits(2) pw room, of "drop (ir_words st) chain" ir]
      by (simp add: stream_packets_scan ws_def)
    show "ir_buffer_ready (?st\<lparr>cable := s', current_chain := -1\<rparr>)"
      using len chain(1) by (simp add: ir_buffer_ready_def ir_words_def)
  qed (use s'(2) sizes in auto)
qed

end

subsection \<open>Cables without a TRST line\<close>

abbreviation hw_step_no_trst :: "u8 \<Rightarrow> debug_dev \<Rightarrow> debug_dev" where
  "hw_step_no_trst \<equiv> packet_step (\<lambda>_. tck_cycle False)"

lemma fold_TMS_reset_no_trst:
  "TAP_state (fold hw_step_no_trst (replicate m TMS) d) = tap_walk (replicate m True) (TAP_state d)"
  by (induction m arbitrary: d) (simp_all add: packet_step_def)

lemma reset_packets_no_trst:
  defines "d' \<equiv> \<lambda>d. fold hw_step_no_trst ([0] @ replicate 8 TMS @ [TRST, 0]) d"
  shows "TAP_state (d' d) = Run_Test_Idle \<and> latched_jtag_ir (d' d) = IDCODE"
proof -
  define e where "e = fold hw_step_no_trst (replicate 8 TMS) (hw_step_no_trst 0 d)"
  have e: "TAP_state e = Test_Logic_Reset"
    using fold_TMS_reset_no_trst [of 8 "hw_step_no_trst 0 d"] tap_walk_reset [of 8]
    by (simp add: e_def del: replicate.simps)
  have "d' d = hw_step_no_trst 0 (hw_step_no_trst TRST e)"
    by (simp add: d'_def e_def del: replicate.simps)
  with e show ?thesis by (simp add: packet_step_def tck_defs)
qed

subsection \<open>Properties\<close>

text \<open>
  A board for the witnesses: a powered TAP behind the xess cable, with the configuration of a chain of
  one device.
\<close>

definition power_on_dev :: debug_dev where
  "power_on_dev = \<lparr>TAP_state = Test_Logic_Reset, jtag_ir = 0, latched_jtag_ir = IDCODE,
     idcode_reg = IDCODE_VALUE, bypass_reg = False, input_shift_reg = 0, module_id_reg = 0,
     debug_tdo_i = False, bs_chain_tdo_i = False, mbist_tdo_i = False, select_inhibit = False\<rparr>"

definition idle_dev :: debug_dev where
  "idle_dev = power_on_dev\<lparr>TAP_state := Run_Test_Idle\<rparr>"

definition all_granted :: os_answers where
  "all_granted = \<lparr>open_ok = (\<lambda>_. True), claim_ok = True, setmode_ok = True\<rparr>"

definition xess :: "wires parport jtag_cable_t" where
  "xess = xess_cable_driver x86_shr all_granted xess_outb (status_inb 0x20 False)"

definition bb2 :: "wires parport jtag_cable_t" where
  "bb2 = bb2_cable_driver x86_shr all_granted bb2_outb (status_inb 0x80 True)"

definition board :: "debug_dev \<Rightarrow> wires parport jtag" where
  "board d = config_set_debug_cmd 8 (config_set_IR_size 4
     (init_jtag \<lparr>devsys = ''/dev/parport0'', fd_open = True, port = \<lparr>wdev = d, wlevel = False\<rparr>\<rparr> []))"

abbreviation board_dev :: "wires parport \<Rightarrow> debug_dev" where
  "board_dev s \<equiv> wdev (port s)"

lemma xess_cable: "jtag_cable xess board_dev (\<lambda>_. True) hw_step tdo_mux_out"
  unfolding xess_def by (rule xess_wires.xess.jtag_cable_axioms)

lemma bb2_cable: "jtag_cable bb2 board_dev (\<lambda>_. True) hw_step_no_trst tdo_mux_out"
  unfolding bb2_def by (rule bb2_wires.bb2.jtag_cable_axioms)

lemma board_simps [simp]:
  "cable (board d) = \<lparr>devsys = ''/dev/parport0'', fd_open = True, port = \<lparr>wdev = d, wlevel = False\<rparr>\<rparr>"
  "global_IR_size (board d) = 4" "global_IR_prefix_bits (board d) = 0" "global_IR_postfix_bits (board d) = 0"
  "global_DR_prefix_bits (board d) = 0" "global_DR_postfix_bits (board d) = 0"
  "global_jtag_cmd_debug (board d) = 8" "global_altera_virtual_jtag (board d) = False"
  "current_chain (board d) = -1" "ir_chain (board d) = None" "mallocs (board d) = []"
  "current_reg_idx (board d) = replicate 4 0" "dbg_access_mutex (board d) = False"
  "input_scratchpad (board d) = \<lparr>buf = None, buf_size_bytes = 0\<rparr>"
  "output_scratchpad (board d) = \<lparr>buf = None, buf_size_bytes = 0\<rparr>" "global_xilinx_bscan (board d) = False"
  "desired_chain (board d) = -1" "soft_retry_no (board d) = 0"
  by (simp_all add: board_def init_jtag_def config_set_IR_size_def config_set_debug_cmd_def DBG_MAX_MODULES_def)

lemma board_ready [simp]: "ir_buffer_ready (board d)"
  by (simp add: ir_buffer_ready_def malloc_def)

text \<open>
  C1. From every state of the TAP, \<open>tap_reset\<close> leaves it in Run-Test/Idle with the IDCODE instruction
  latched, through every cable that keeps the driver contract, whether it has a TRST line or not; the
  bridge then holds no module as selected and no internal register index as known.
\<close>

theorem tap_reset_idle:
  assumes "jtag_cable c dev ok step tdo" and "ok (cable st)"
    and "step = hw_step \<or> step = hw_step_no_trst"
  shows "\<exists>st'. tap_reset c st = Some (APP_ERR_NONE, st') \<and> ok (cable st')
     \<and> TAP_state (dev (cable st')) = Run_Test_Idle \<and> latched_jtag_ir (dev (cable st')) = IDCODE
     \<and> current_chain st' = -1 \<and> current_reg_idx st' = replicate DBG_MAX_MODULES (-1)"
proof -
  obtain s' where s': "tap_reset c st =
      Some (0, st\<lparr>cable := s', current_chain := -1, current_reg_idx := replicate DBG_MAX_MODULES (-1)\<rparr>)"
    "ok s'" "dev s' = fold step ([0] @ replicate 8 TMS @ [TRST, 0]) (dev (cable st))"
    using jtag_cable.reset_succeeds [OF assms(1,2)] .
  have "TAP_state (dev s') = Run_Test_Idle \<and> latched_jtag_ir (dev s') = IDCODE"
    unfolding s'(3) using assms(3) reset_packets_hw reset_packets_no_trst by blast
  with s' show ?thesis by (simp add: APP_ERR_NONE_def)
qed

theorem tap_reset_idle_witness:
  "\<exists>st'. tap_reset bb2 (board (power_on_dev\<lparr>TAP_state := Pause_DR\<rparr>)) = Some (APP_ERR_NONE, st')
     \<and> TAP_state (board_dev (cable st')) = Run_Test_Idle"
  using tap_reset_idle [OF bb2_cable, of "board (power_on_dev\<lparr>TAP_state := Pause_DR\<rparr>)"] by auto

text \<open>The ones above the instruction are made by a shift, which has a value only for less than 32.\<close>

lemma ir_chain_bits_undefined:
  assumes "32 \<le> p mod 32 + n"
  shows "ir_chain_bits ir (int n) (int p) words chain = None"
proof -
  have "int p - int p div 32 * 32 = int (p mod 32)"
    using minus_div_mult_eq_mod [of "int p" 32] by (simp add: zmod_int)
  moreover have "c_shl32 FF32 (int (p mod 32) + int n) = None" using assms by (simp add: c_shl32_def)
  ultimately show ?thesis by (simp add: ir_chain_bits_def Let_def split: Option.bind_split)
qed

lemma set_ir_undefined:
  assumes buf: "ir_buffer_ready st"
    and sizes: "global_IR_size st = int n" "global_IR_postfix_bits st = int p" and wide: "32 \<le> p mod 32 + n"
  shows "tap_set_ir c ir st = None"
proof -
  obtain chain os where chain: "ir_words st \<le> length chain"
    "(case ir_chain st of Some p \<Rightarrow> (Some p, mallocs st)
      | None \<Rightarrow> (case malloc (int (ir_words st) * 4) (mallocs st) of
           (Some bs, os) \<Rightarrow> (Some (words_of_bytes bs), os) | (None, os) \<Rightarrow> (None, os))) = (Some chain, os)"
    using ir_buffer_acquired [OF buf] .
  show ?thesis
    unfolding tap_set_ir_def Let_def ir_words_def [symmetric] chain(2) by (simp add: sizes ir_chain_bits_undefined [OF wide])
qed

text \<open>
  C2. \<open>tap_set_ir\<close> sends one IR scan: ones for the devices behind the target, the low \<open>n\<close> bits of the
  instruction least significant first, ones (BYPASS) for the devices in front, and returns to
  Run-Test/Idle; the bridge then holds no module as selected. This is so exactly when the instruction ends
  before the last bit of a 32-bit word of the scan image. When it ends with that bit or goes on into the
  next word, the source shifts a word by 32 or more, which C leaves undefined.
\<close>

theorem tap_set_ir_scan:
  assumes "jtag_cable c dev ok step tdo" and "ok (cable st)" and "ir_buffer_ready st"
    and "global_IR_size st = int n" and "global_IR_postfix_bits st = int p"
    and "global_IR_prefix_bits st = int q" and "0 < n"
  shows "if p mod 32 + n < 32
     then \<exists>st'. tap_set_ir c ir st = Some (APP_ERR_NONE, st') \<and> ok (cable st') \<and> current_chain st' = -1
       \<and> dev (cable st') = fold step ([TMS, TMS, 0, 0]
            @ scan_packets (replicate p True @ map (bit ir) [0..<n] @ replicate q True) @ [TMS, 0]) (dev (cable st))
     else tap_set_ir c ir st = None"
proof (cases "p mod 32 + n < 32")
  case True
  then show ?thesis using jtag_cable.set_ir_succeeds [OF assms, of ir] by (simp add: APP_ERR_NONE_def) metis
qed (use set_ir_undefined [OF assms(3-5)] in simp)

theorem tap_set_ir_scan_witness:
  "(\<exists>st'. tap_set_ir xess 8 (board idle_dev) = Some (APP_ERR_NONE, st') \<and> current_chain st' = -1
     \<and> board_dev (cable st') = fold hw_step ([TMS, TMS, 0, 0] @ [0, 0, 0, TDO OR TMS] @ [TMS, 0]) idle_dev)
     \<and> tap_set_ir xess 8 ((board idle_dev)\<lparr>global_IR_postfix_bits := 28\<rparr>) = None"
proof -
  have "scan_packets (map (bit (8 :: u32)) [0..<4]) = [0, 0, 0, TDO OR TMS]"
    by (simp add: scan_packets_def packet_defs upt_rec)
  moreover have "ir_buffer_ready ((board idle_dev)\<lparr>global_IR_postfix_bits := 28\<rparr>)"
    by (simp add: ir_buffer_ready_def malloc_def)
  ultimately show ?thesis
    using tap_set_ir_scan [OF xess_cable, of "board idle_dev" 4 0 0 8]
      tap_set_ir_scan [OF xess_cable, of "(board idle_dev)\<lparr>global_IR_postfix_bits := 28\<rparr>" 4 28 0 8] by auto
qed

text \<open>
  On a chain of the one TAP of tap_top.v, \<open>tap_set_ir\<close> started in Run-Test/Idle latches the low
  four bits of the instruction and ends in Run-Test/Idle.
\<close>

theorem tap_set_ir_latches:
  assumes "jtag_cable c dev ok hw_step tdo" and "ok (cable st)" and "ir_buffer_ready st"
    and "global_IR_size st = 4" and "global_IR_postfix_bits st = 0" and "global_IR_prefix_bits st = 0"
    and "TAP_state (dev (cable st)) = Run_Test_Idle"
  shows "\<exists>st'. tap_set_ir c ir st = Some (APP_ERR_NONE, st') \<and> ok (cable st')
     \<and> TAP_state (dev (cable st')) = Run_Test_Idle \<and> latched_jtag_ir (dev (cable st')) = ucast ir"
proof -
  let ?d = "dev (cable st)" and ?bs = "map (bit ir) [0..<4]"
  obtain st' where st': "tap_set_ir c ir st = Some (0, st')" "ok (cable st')"
    "dev (cable st') = fold hw_step ([TMS, TMS, 0, 0] @ scan_packets ?bs @ [TMS, 0]) ?d"
    using jtag_cable.set_ir_succeeds [OF assms(1-3), of 4 0 0 ir] assms(4-6) by auto
  define e where "e = ?d\<lparr>TAP_state := Shift_IR, jtag_ir := 0b0101\<rparr>"
  have scan: "scan_packets ?bs = stream_packets [ir] 4 True"
    using stream_bits_single [of 4 ir "[]"] by (simp add: stream_packets_scan)
  have "fold hw_step (scan_packets ?bs) e = e\<lparr>TAP_state := Exit1_IR, jtag_ir := fold shift_in ?bs (jtag_ir e)\<rparr>"
    unfolding scan using shift_ir_stream [of e 4 "[ir]"] stream_bits_single [of 4 ir "[]"] by (simp add: e_def)
  moreover have "fold shift_in ?bs (jtag_ir e) = ucast ir"
    by (rule bit_word_eqI) (auto simp: bit_fold_shift_in bit_ucast_iff)
  ultimately have "dev (cable st') = fold hw_step [TMS, 0] (e\<lparr>TAP_state := Exit1_IR, jtag_ir := ucast ir\<rparr>)"
    using walk_to_shift_ir [OF assms(7)] unfolding st'(3) by (simp only: fold_append o_apply e_def)
  also have "\<dots> = e\<lparr>TAP_state := Run_Test_Idle, jtag_ir := ucast ir, latched_jtag_ir := ucast ir\<rparr>"
    by (subst walk_exit_ir) simp_all
  finally show ?thesis using st'(1,2) by (simp add: APP_ERR_NONE_def)
qed

theorem tap_set_ir_latches_witness:
  "\<exists>st'. tap_set_ir xess 8 (board idle_dev) = Some (APP_ERR_NONE, st')
     \<and> debug_select (board_dev (cable st'))"
  using tap_set_ir_latches [OF xess_cable, of "board idle_dev" 8]
  by (auto simp: idle_dev_def debug_select_def DEBUG_def)

end
