(* ===== verification/Adv_Dbg_Commands.thy ===== *)
theory Adv_Dbg_Commands
  imports Tap_Transactions
begin

unbundle bit_operations_syntax

text \<open>
  adv_dbg_commands.c: the protocol of the advanced debug unit. The compile-time options are those
  both build systems set by default: ADBG_OPT_HISPEED (a burst is one stream, CRC included),
  OPTIMIZE_JSP_FOR_USB and ENABLE_JSP_MULTI.

  The loops with \<open>goto\<close> run on fuel: an attempt is repeated after a bus error, at most
  MAX_BUS_ERRORS times, or when \<open>retry_do\<close> agrees, which it does not with NUM_SOFT_RETRIES = 0.
  The fuel the callers pass covers every run, which the lemmas at the end show. \<open>None\<close> is
  \<open>exit(1)\<close> or undefined behaviour, as everywhere.
\<close>

definition DBG_MODULE_SELECT_REG_SIZE :: nat where "DBG_MODULE_SELECT_REG_SIZE = 2"
definition DC_WISHBONE :: int where "DC_WISHBONE = 0"
definition DC_CPU0 :: int where "DC_CPU0 = 1"
definition DC_CPU1 :: int where "DC_CPU1 = 2"
definition DC_JSP :: int where "DC_JSP = 3"

lemmas dc_defs = DC_WISHBONE_def DC_CPU0_def DC_CPU1_def DC_JSP_def

definition ADBG_CRC_POLY :: u32 where "ADBG_CRC_POLY = 0xedb88320"

definition DBG_WB_REG_SEL_LEN :: int where "DBG_WB_REG_SEL_LEN = 1"
definition DBG_WB_REG_ERROR :: u32 where "DBG_WB_REG_ERROR = 0"
definition DBG_WB_OPCODE_LEN :: nat where "DBG_WB_OPCODE_LEN = 4"
definition DBG_WB_CMD_NOP :: u32 where "DBG_WB_CMD_NOP = 0x0"
definition DBG_WB_CMD_BWRITE8 :: u32 where "DBG_WB_CMD_BWRITE8 = 0x1"
definition DBG_WB_CMD_BWRITE16 :: u32 where "DBG_WB_CMD_BWRITE16 = 0x2"
definition DBG_WB_CMD_BWRITE32 :: u32 where "DBG_WB_CMD_BWRITE32 = 0x3"
definition DBG_WB_CMD_BREAD8 :: u32 where "DBG_WB_CMD_BREAD8 = 0x5"
definition DBG_WB_CMD_BREAD16 :: u32 where "DBG_WB_CMD_BREAD16 = 0x6"
definition DBG_WB_CMD_BREAD32 :: u32 where "DBG_WB_CMD_BREAD32 = 0x7"
definition DBG_WB_CMD_IREG_WR :: u32 where "DBG_WB_CMD_IREG_WR = 0x9"
definition DBG_WB_CMD_IREG_SEL :: u32 where "DBG_WB_CMD_IREG_SEL = 0xd"

definition DBG_CPU0_REG_SEL_LEN :: int where "DBG_CPU0_REG_SEL_LEN = 1"
definition DBG_CPU0_REG_STATUS :: u32 where "DBG_CPU0_REG_STATUS = 0"
definition DBG_CPU0_OPCODE_LEN :: nat where "DBG_CPU0_OPCODE_LEN = 4"
definition DBG_CPU0_CMD_NOP :: u32 where "DBG_CPU0_CMD_NOP = 0x0"
definition DBG_CPU0_CMD_BWRITE32 :: u32 where "DBG_CPU0_CMD_BWRITE32 = 0x3"
definition DBG_CPU0_CMD_BREAD32 :: u32 where "DBG_CPU0_CMD_BREAD32 = 0x7"
definition DBG_CPU0_CMD_IREG_WR :: u32 where "DBG_CPU0_CMD_IREG_WR = 0x9"
definition DBG_CPU0_CMD_IREG_SEL :: u32 where "DBG_CPU0_CMD_IREG_SEL = 0xd"

definition DBG_CPU1_REG_SEL_LEN :: int where "DBG_CPU1_REG_SEL_LEN = 1"
definition DBG_CPU1_REG_STATUS :: u32 where "DBG_CPU1_REG_STATUS = 0"
definition DBG_CPU1_OPCODE_LEN :: nat where "DBG_CPU1_OPCODE_LEN = 4"
definition DBG_CPU1_CMD_NOP :: u32 where "DBG_CPU1_CMD_NOP = 0x0"
definition DBG_CPU1_CMD_BWRITE32 :: u32 where "DBG_CPU1_CMD_BWRITE32 = 0x3"
definition DBG_CPU1_CMD_BREAD32 :: u32 where "DBG_CPU1_CMD_BREAD32 = 0x7"
definition DBG_CPU1_CMD_IREG_WR :: u32 where "DBG_CPU1_CMD_IREG_WR = 0x9"
definition DBG_CPU1_CMD_IREG_SEL :: u32 where "DBG_CPU1_CMD_IREG_SEL = 0xd"

lemmas dbg_cmd_defs =
  DBG_WB_REG_SEL_LEN_def DBG_WB_REG_ERROR_def DBG_WB_OPCODE_LEN_def DBG_WB_CMD_NOP_def
  DBG_WB_CMD_BWRITE8_def DBG_WB_CMD_BWRITE16_def DBG_WB_CMD_BWRITE32_def
  DBG_WB_CMD_BREAD8_def DBG_WB_CMD_BREAD16_def DBG_WB_CMD_BREAD32_def
  DBG_WB_CMD_IREG_WR_def DBG_WB_CMD_IREG_SEL_def
  DBG_CPU0_REG_SEL_LEN_def DBG_CPU0_REG_STATUS_def DBG_CPU0_OPCODE_LEN_def DBG_CPU0_CMD_NOP_def
  DBG_CPU0_CMD_BWRITE32_def DBG_CPU0_CMD_BREAD32_def DBG_CPU0_CMD_IREG_WR_def DBG_CPU0_CMD_IREG_SEL_def
  DBG_CPU1_REG_SEL_LEN_def DBG_CPU1_REG_STATUS_def DBG_CPU1_OPCODE_LEN_def DBG_CPU1_CMD_NOP_def
  DBG_CPU1_CMD_BWRITE32_def DBG_CPU1_CMD_BREAD32_def DBG_CPU1_CMD_IREG_WR_def DBG_CPU1_CMD_IREG_SEL_def

definition MAX_READ_STATUS_WAIT :: nat where "MAX_READ_STATUS_WAIT = 100"
definition MAX_BUS_ERRORS :: nat where "MAX_BUS_ERRORS = 10"

subsection \<open>CRC\<close>

text \<open>One round of the loop, then the rounds \<open>i, i + 1, \<dots>\<close> up to the length (at most 32).\<close>

definition adbg_crc_round :: "u32 \<Rightarrow> nat \<Rightarrow> u32 \<Rightarrow> u32" where
  "adbg_crc_round data_in i crc_out =
    (let d = (if drop_bit i data_in AND 1 \<noteq> 0 then 0xffffffff else 0);
         c = (if crc_out AND 1 \<noteq> 0 then 0xffffffff else 0);
         crc_out = drop_bit 1 crc_out
     in crc_out XOR ((d XOR c) AND ADBG_CRC_POLY))"

definition adbg_compute_crc :: "u32 \<Rightarrow> u32 \<Rightarrow> nat \<Rightarrow> u32" where
  "adbg_compute_crc crc_in data_in length_bits = fold (adbg_crc_round data_in) [0..<length_bits] crc_in"

definition crc_of_bytes :: "u32 \<Rightarrow> u8 list \<Rightarrow> u32" where
  "crc_of_bytes crc bs = fold (\<lambda>b crc. adbg_compute_crc crc (ucast b) 8) bs crc"

subsection \<open>Selecting modules and registers\<close>

definition adbg_select_module :: "'s jtag_cable_t \<Rightarrow> int \<Rightarrow> 's jtag op" where
  "adbg_select_module c chain st =
     (if current_chain st = chain then Some (APP_ERR_NONE, st)
      else
        (let st = st\<lparr>current_chain := -1, desired_chain := chain\<rparr>;
             data = of_int chain OR push_bit DBG_MODULE_SELECT_REG_SIZE 1
         in do { (err, st) \<leftarrow> run_all [tap_set_shift_dr c, jtag_write_stream c [data] 3 True, tap_exit_to_idle c] st;
                 Some (err, st\<lparr>current_chain := chain\<rparr>) }))"

text \<open>\<open>current_reg_idx[current_chain]\<close>\<close>

definition reg_idx_at :: "'s jtag \<Rightarrow> u32 option" where
  "reg_idx_at st = (if 0 \<le> current_chain st then word_at (current_reg_idx st) (nat (current_chain st)) else None)"

definition reg_idx_put :: "u32 \<Rightarrow> 's jtag \<Rightarrow> 's jtag option" where
  "reg_idx_put regidx st =
     (if 0 \<le> current_chain st
      then do { xs \<leftarrow> put_at (current_reg_idx st) (nat (current_chain st)) regidx; Some (st\<lparr>current_reg_idx := xs\<rparr>) }
      else None)"

text \<open>The switches over the selected chain; \<open>None\<close> is the default branch.\<close>

definition ireg_sel_cmd :: "int \<Rightarrow> (int \<times> u32) option" where
  "ireg_sel_cmd chain =
     (if chain = DC_WISHBONE then Some (DBG_WB_REG_SEL_LEN, DBG_WB_CMD_IREG_SEL)
      else if chain = DC_CPU0 then Some (DBG_CPU0_REG_SEL_LEN, DBG_CPU0_CMD_IREG_SEL)
      else if chain = DC_CPU1 then Some (DBG_CPU1_REG_SEL_LEN, DBG_CPU1_CMD_IREG_SEL)
      else None)"

definition ireg_wr_cmd :: "int \<Rightarrow> (int \<times> u32) option" where
  "ireg_wr_cmd chain =
     (if chain = DC_WISHBONE then Some (DBG_WB_REG_SEL_LEN, DBG_WB_CMD_IREG_WR)
      else if chain = DC_CPU0 then Some (DBG_CPU0_REG_SEL_LEN, DBG_CPU0_CMD_IREG_WR)
      else if chain = DC_CPU1 then Some (DBG_CPU1_REG_SEL_LEN, DBG_CPU1_CMD_IREG_WR)
      else None)"

definition nop_cmd :: "int \<Rightarrow> (u32 \<times> nat) option" where
  "nop_cmd chain =
     (if chain = DC_WISHBONE then Some (DBG_WB_CMD_NOP, DBG_WB_OPCODE_LEN)
      else if chain = DC_CPU0 then Some (DBG_CPU0_CMD_NOP, DBG_CPU0_OPCODE_LEN)
      else if chain = DC_CPU1 then Some (DBG_CPU1_CMD_NOP, DBG_CPU1_OPCODE_LEN)
      else None)"

definition reg_command :: "u32 \<Rightarrow> int \<Rightarrow> u32 \<Rightarrow> u32" where
  "reg_command opcode index_len regidx =
     push_bit (nat index_len) (opcode AND NOT (push_bit DBG_WB_OPCODE_LEN 1)) OR regidx"

definition adbg_select_ctrl_reg :: "'s jtag_cable_t \<Rightarrow> u32 \<Rightarrow> 's jtag op" where
  "adbg_select_ctrl_reg c regidx st =
     do { (err, st) \<leftarrow> adbg_select_module c (desired_chain st) st;
          (if err \<noteq> 0 then Some (err, st)
           else do { idx \<leftarrow> reg_idx_at st;
                (if idx = regidx then Some (APP_ERR_NONE, st)
                 else (case ireg_sel_cmd (current_chain st) of
                    None \<Rightarrow> Some (1, st)
                  | Some (index_len, opcode) \<Rightarrow>
                      do { (err, st) \<leftarrow> run_all [tap_set_shift_dr c,
                              jtag_write_stream c [reg_command opcode index_len regidx] (5 + index_len) True,
                              tap_exit_to_idle c] st;
                           st \<leftarrow> reg_idx_put regidx (retry_ok st);
                           Some (err, st) })) }) }"

definition adbg_ctrl_write :: "'s jtag_cable_t \<Rightarrow> u32 \<Rightarrow> u32 list \<Rightarrow> int \<Rightarrow> 's jtag op" where
  "adbg_ctrl_write c regidx cmd_data length_bits st =
     do { (err, st) \<leftarrow> adbg_select_module c (desired_chain st) st;
          (if err \<noteq> 0 then Some (err, st)
           else (case ireg_wr_cmd (current_chain st) of
              None \<Rightarrow> Some (1, st)
            | Some (index_len, opcode) \<Rightarrow>
                do { (err, st) \<leftarrow> run_all [tap_set_shift_dr c,
                        jtag_write_stream c cmd_data length_bits False,
                        jtag_write_stream c [reg_command opcode index_len regidx] (5 + index_len) True,
                        tap_exit_to_idle c] st;
                     st \<leftarrow> reg_idx_put regidx (retry_ok st);
                     Some (err, st) })) }"

text \<open>
  The caller's buffer \<open>data\<close> is returned as \<open>None\<close> when an early return leaves it as it was.
\<close>

definition adbg_ctrl_read ::
  "'s jtag_cable_t \<Rightarrow> u32 \<Rightarrow> u32 list \<Rightarrow> int \<Rightarrow> 's jtag \<Rightarrow> (u32 \<times> u32 list option \<times> 's jtag) option" where
  "adbg_ctrl_read c regidx data databits st =
     do { (err, st) \<leftarrow> run_until_err [\<lambda>st. adbg_select_module c (desired_chain st) st, adbg_select_ctrl_reg c regidx] st;
          (if err \<noteq> 0 then Some (err, None, st)
           else (case nop_cmd (current_chain st) of
              None \<Rightarrow> Some (1, None, st)
            | Some (opcode, opcode_len) \<Rightarrow>
                (let outdata = [opcode AND NOT (push_bit opcode_len 1), 0, 0, 0] in
                 do { (e1, st) \<leftarrow> tap_set_shift_dr c st;
                      (e2, data, st) \<leftarrow> jtag_read_write_stream c outdata data databits True False st;
                      (e3, st) \<leftarrow> run_all [jtag_write_stream c outdata (int opcode_len + 1) True, tap_exit_to_idle c] st;
                      Some (e1 OR e2 OR e3, Some data, retry_ok st) }))) }"

definition adbg_burst_command :: "'s jtag_cable_t \<Rightarrow> u32 \<Rightarrow> u32 \<Rightarrow> int \<Rightarrow> 's jtag op" where
  "adbg_burst_command c opcode address length_words st =
     do { (err, st) \<leftarrow> adbg_select_module c (desired_chain st) st;
          (if err \<noteq> 0 then Some (err, st)
           else
             (let data0 = of_int length_words OR push_bit 16 address;
                  data1 = (drop_bit 16 address OR push_bit 16 (opcode AND 0xf)) AND NOT (push_bit 20 1)
              in do { (err, st) \<leftarrow> run_all [tap_set_shift_dr c, jtag_write_stream c [data0, data1] 53 True,
                                           tap_exit_to_idle c] st;
                      Some (err, retry_ok st) })) }"

subsection \<open>Burst reads\<close>

definition burst_read_opcode :: "int \<Rightarrow> int \<Rightarrow> u32 option" where
  "burst_read_opcode chain word_size_bytes =
     (if chain = DC_WISHBONE then
        Some (if word_size_bytes = 1 then DBG_WB_CMD_BREAD8
              else if word_size_bytes = 2 then DBG_WB_CMD_BREAD16
              else if word_size_bytes = 4 then DBG_WB_CMD_BREAD32
              else DBG_WB_CMD_BREAD32)
      else if chain = DC_CPU0 then
        Some (if word_size_bytes = 4 then DBG_CPU0_CMD_BREAD32 else DBG_CPU0_CMD_BREAD32)
      else if chain = DC_CPU1 then
        Some (if word_size_bytes = 4 then DBG_CPU1_CMD_BREAD32 else DBG_CPU0_CMD_BREAD32)
      else None)"

text \<open>
  Reads the status bit until it is set. \<open>n\<close> is the number of reads left before the count \<open>j\<close>
  exceeds MAX_READ_STATUS_WAIT; the read that exceeds it times out whatever it returns.
\<close>

fun burst_wait_status :: "'s jtag_cable_t \<Rightarrow> nat \<Rightarrow> 's jtag \<Rightarrow> (u32 \<times> bool \<times> 's jtag) option" where
  "burst_wait_status c n st =
     do { (e, status, st) \<leftarrow> jtag_read_write_bit c 0 st;
          (case n of
             0 \<Rightarrow> Some (e, False, st)
           | Suc m \<Rightarrow>
               if status \<noteq> 0 then Some (e, True, st)
               else do { (e', r, st) \<leftarrow> burst_wait_status c m st; Some (e OR e', r, st) }) }"

declare burst_wait_status.simps [simp del]

text \<open>The scratchpad \<open>p\<close> seen as words, and the words written back over it.\<close>

definition overlay :: "u8 list \<Rightarrow> u32 list \<Rightarrow> u8 list" where
  "overlay p ws = take (length p) (bytes_of_words ws)"

text \<open>
  The data and the CRC in one stream. \<open>None\<close> in the second component is the early return when a
  scratchpad could not be had (or an error was pending).
\<close>

definition burst_read_data ::
  "'s jtag_cable_t \<Rightarrow> int \<Rightarrow> int \<Rightarrow> u32 \<Rightarrow> 's jtag \<Rightarrow> (u32 \<times> (u8 list \<times> u32) option \<times> 's jtag) option" where
  "burst_read_data c word_size_bytes word_count err st =
    (let data_bytes = word_count * word_size_bytes;
         total_size_bytes = data_bytes + 4;
         (e1, inp, os) = check_buffer_size (input_scratchpad st) total_size_bytes (mallocs st);
         (e2, out, os) = check_buffer_size (output_scratchpad st) total_size_bytes os;
         st = st\<lparr>input_scratchpad := inp, output_scratchpad := out, mallocs := os\<rparr>;
         err = err OR e1 OR e2
     in if err \<noteq> APP_ERR_NONE then Some (err, None, st)
        else if data_bytes < 0 then None
        else
          do { p \<leftarrow> buf out;
               q \<leftarrow> buf inp;
               let n = nat data_bytes;
               let p = replicate (n + 4) 0 @ drop (n + 4) p;
               (e, ws, st) \<leftarrow> jtag_read_write_stream c (words_of_bytes p) (words_of_bytes q)
                                (total_size_bytes * 8) False True (st\<lparr>output_scratchpad := out\<lparr>buf := Some p\<rparr>\<rparr>);
               let q = overlay q ws;
               (if length q < n + 4 then None
                else Some (e, Some (take n q, word_of_bytes (q ! n) (q ! (n + 1)) (q ! (n + 2)) (q ! (n + 3))),
                           st\<lparr>input_scratchpad := inp\<lparr>buf := Some q\<rparr>\<rparr>)) })"

datatype bus_check = Bus_Ok u32 | Bus_Max u32 | Bus_Retry int u32 u32

text \<open>
  The error register of the WishBone module after a burst; \<open>fix\<close> is what the caller does to the
  buffer before it writes it back to clear the register. \<open>Bus_Retry i addr err\<close> goes back to the
  partial retry.
\<close>

definition burst_bus_check ::
  "'s jtag_cable_t \<Rightarrow> int \<Rightarrow> u32 \<Rightarrow> (u32 list \<Rightarrow> u32 list) \<Rightarrow> nat \<Rightarrow> u32 \<Rightarrow> 's jtag \<Rightarrow> (bus_check \<times> 's jtag) option" where
  "burst_bus_check c word_size_bytes start_address fix bus_error_retries err st =
     do { (e, d, st) \<leftarrow> adbg_ctrl_read c DBG_WB_REG_ERROR [0, 0] 1 st;
          let err = err OR e;
          err_data \<leftarrow> d;
          w \<leftarrow> word_at err_data 0;
          (if w AND 1 \<noteq> 0 then
             do { (e, d, st) \<leftarrow> adbg_ctrl_read c DBG_WB_REG_ERROR err_data 33 st;
                  let err = err OR e;
                  let err_data = (case d of Some x \<Rightarrow> x | None \<Rightarrow> err_data);
                  w0 \<leftarrow> word_at err_data 0;
                  w1 \<leftarrow> word_at err_data 1;
                  let addr = drop_bit 1 w0 OR push_bit 31 w1;
                  i \<leftarrow> (if of_int word_size_bytes = (0 :: u32) then None
                        else Some (sint ((addr - start_address) div of_int word_size_bytes)));
                  (if bus_error_retries + 1 > MAX_BUS_ERRORS then Some (Bus_Max (err OR APP_ERR_MAX_BUS_ERR), st)
                   else do { (e, st) \<leftarrow> adbg_ctrl_write c DBG_WB_REG_ERROR (fix err_data) 1 st;
                             Some (Bus_Retry i addr (err OR e), st) }) }
           else Some (Bus_Ok err, st)) }"

datatype burst_step = Burst_Return u32 | Burst_Again nat int u32 u32

text \<open>
  One pass from the label \<open>wb_burst_read_retry_partial\<close>. \<open>Burst_Again retries i addr err\<close> is a jump back
  to it (the jump to \<open>retry_full\<close> has \<open>i = 0\<close> and the start address). The third component is what
  the pass left in the caller's buffer, \<open>None\<close> if it did not get that far.
\<close>

definition burst_read_attempt ::
  "'s jtag_cable_t \<Rightarrow> u32 \<Rightarrow> int \<Rightarrow> int \<Rightarrow> u32 \<Rightarrow> nat \<Rightarrow> int \<Rightarrow> u32 \<Rightarrow> u32 \<Rightarrow> 's jtag
     \<Rightarrow> (burst_step \<times> u8 list option \<times> 's jtag) option" where
  "burst_read_attempt c opcode word_size_bytes word_count start_address retries i addr err st =
     do { (e, st) \<leftarrow> adbg_burst_command c opcode addr (word_count - i) st;
          let err = err OR e;
          (if err \<noteq> 0 then Some (Burst_Return err, None, st)
           else
             do { (e1, st) \<leftarrow> (if global_xilinx_bscan st
                              then run_all [tap_set_ir c 0xFFFFFFFF, tap_enable_debug_module c] st
                              else Some (0, st));
                  (e2, st) \<leftarrow> tap_set_shift_dr c st;
                  (e3, ready, st) \<leftarrow> burst_wait_status c MAX_READ_STATUS_WAIT st;
                  let err = e1 OR e2 OR e3;
                  (if \<not> ready then
                     do { (again, st) \<leftarrow> retry_do c st;
                          Some (if again then Burst_Again retries 0 start_address APP_ERR_NONE
                                else Burst_Return (err OR APP_ERR_MAX_RETRY), None, st) }
                   else
                     do { (e, r, st) \<leftarrow> burst_read_data c word_size_bytes word_count err st;
                          (case r of
                             None \<Rightarrow> Some (Burst_Return e, None, st)
                           | Some (data, crc_read) \<Rightarrow>
                               do { let crc_calc = crc_of_bytes 0xffffffff data;
                                    (e', st) \<leftarrow> tap_exit_to_idle c st;
                                    let err = err OR e OR e';
                                    (if crc_calc \<noteq> crc_read then
                                       do { (again, st) \<leftarrow> retry_do c st;
                                            Some (if again then Burst_Again retries 0 start_address err
                                                  else Burst_Return (err OR APP_ERR_CRC), Some data, st) }
                                     else if current_chain st = DC_WISHBONE then
                                       do { (b, st) \<leftarrow> burst_bus_check c word_size_bytes start_address (\<lambda>d. d[0 := 1]) retries err st;
                                            Some (case b of
                                                    Bus_Ok err \<Rightarrow> (Burst_Return err, Some data, retry_ok st)
                                                  | Bus_Max err \<Rightarrow> (Burst_Return err, Some data, st)
                                                  | Bus_Retry i addr err \<Rightarrow> (Burst_Again (retries + 1) i addr err, Some data, st)) }
                                     else Some (Burst_Return err, Some data, retry_ok st)) }) }) }) }"

fun burst_read_loop ::
  "'s jtag_cable_t \<Rightarrow> u32 \<Rightarrow> int \<Rightarrow> int \<Rightarrow> u32 \<Rightarrow> nat \<Rightarrow> nat \<Rightarrow> int \<Rightarrow> u32 \<Rightarrow> u32 \<Rightarrow> u8 list option \<Rightarrow> 's jtag
     \<Rightarrow> (u32 \<times> u8 list option \<times> 's jtag) option" where
  "burst_read_loop c opcode ws wc start 0 retries i addr err data st = None"
| "burst_read_loop c opcode ws wc start (Suc fuel) retries i addr err data st =
     do { (r, d, st) \<leftarrow> burst_read_attempt c opcode ws wc start retries i addr err st;
          let data = (case d of Some bs \<Rightarrow> Some bs | None \<Rightarrow> data);
          (case r of
             Burst_Return err \<Rightarrow> Some (err, data, st)
           | Burst_Again retries i addr err \<Rightarrow> burst_read_loop c opcode ws wc start fuel retries i addr err data st) }"

definition burst_fuel :: nat where "burst_fuel = MAX_BUS_ERRORS + 1"

text \<open>
  The bytes returned are what the call wrote to the front of the caller's buffer.
\<close>

definition adbg_wb_burst_read ::
  "'s jtag_cable_t \<Rightarrow> int \<Rightarrow> int \<Rightarrow> u32 \<Rightarrow> 's jtag \<Rightarrow> (u32 \<times> u8 list option \<times> 's jtag) option" where
  "adbg_wb_burst_read c word_size_bytes word_count start_address st =
     (if word_count \<le> 0 then Some (0, None, st)
      else (case burst_read_opcode (current_chain st) word_size_bytes of
          None \<Rightarrow> Some (1, None, st)
        | Some opcode \<Rightarrow>
            burst_read_loop c opcode word_size_bytes word_count start_address burst_fuel 0 0 start_address
              APP_ERR_NONE None st))"

subsection \<open>Burst writes\<close>

definition burst_write_opcode :: "int \<Rightarrow> int \<Rightarrow> u32 option" where
  "burst_write_opcode chain word_size_bytes =
     (if chain = DC_WISHBONE then
        Some (if word_size_bytes = 1 then DBG_WB_CMD_BWRITE8
              else if word_size_bytes = 2 then DBG_WB_CMD_BWRITE16
              else if word_size_bytes = 4 then DBG_WB_CMD_BWRITE32
              else DBG_WB_CMD_BWRITE32)
      else if chain = DC_CPU0 then
        Some (if word_size_bytes = 4 then DBG_CPU0_CMD_BWRITE32 else DBG_CPU0_CMD_BWRITE32)
      else if chain = DC_CPU1 then
        Some (if word_size_bytes = 4 then DBG_CPU1_CMD_BWRITE32 else DBG_CPU0_CMD_BWRITE32)
      else None)"

text \<open>Element \<open>k\<close> of the caller's buffer, read as the type the word size selects.\<close>

definition data_element :: "u8 list \<Rightarrow> int \<Rightarrow> nat \<Rightarrow> u32 option" where
  "data_element data word_size_bytes k =
     (if word_size_bytes = 4 then
        do { b0 \<leftarrow> word_at data (4 * k); b1 \<leftarrow> word_at data (4 * k + 1);
             b2 \<leftarrow> word_at data (4 * k + 2); b3 \<leftarrow> word_at data (4 * k + 3);
             Some (word_of_bytes b0 b1 b2 b3) }
      else if word_size_bytes = 2 then
        do { b0 \<leftarrow> word_at data (2 * k); b1 \<leftarrow> word_at data (2 * k + 1); Some (word_of_bytes b0 b1 0 0) }
      else do { b \<leftarrow> word_at data k; Some (ucast b) })"

fun burst_write_crc :: "u8 list \<Rightarrow> int \<Rightarrow> nat \<Rightarrow> nat \<Rightarrow> u32 \<Rightarrow> u32 option" where
  "burst_write_crc data word_size_bytes k 0 crc = Some crc"
| "burst_write_crc data word_size_bytes k (Suc n) crc =
     do { w \<leftarrow> data_element data word_size_bytes k;
          burst_write_crc data word_size_bytes (Suc k) n (adbg_compute_crc crc w (nat (word_size_bytes * 8))) }"

text \<open>
  The CRC of the elements, then data and CRC in one stream. The second component is \<open>None\<close> for the
  early return when the scratchpad could not be had (or an error was pending).
\<close>

definition burst_write_data ::
  "'s jtag_cable_t \<Rightarrow> u8 list \<Rightarrow> int \<Rightarrow> int \<Rightarrow> u32 \<Rightarrow> 's jtag \<Rightarrow> (u32 \<times> unit option \<times> 's jtag) option" where
  "burst_write_data c data word_size_bytes word_count err st =
     do { crc_calc \<leftarrow> burst_write_crc data word_size_bytes 0 (nat word_count) 0xffffffff;
          let data_bytes = word_count * word_size_bytes;
          let total_size_bytes = data_bytes + 4;
          let (e, out, os) = check_buffer_size (output_scratchpad st) total_size_bytes (mallocs st);
          let st = st\<lparr>output_scratchpad := out, mallocs := os\<rparr>;
          let err = err OR e;
          (if err \<noteq> APP_ERR_NONE then Some (err, None, st)
           else if data_bytes < 0 \<or> int (length data) < data_bytes then None
           else
             do { p \<leftarrow> buf out;
                  let n = nat data_bytes;
                  let p = take n data @ [byte_of crc_calc 0, byte_of crc_calc 1, byte_of crc_calc 2, byte_of crc_calc 3]
                          @ drop (n + 4) p;
                  (e, st) \<leftarrow> jtag_write_stream c (words_of_bytes p) (total_size_bytes * 8) False
                               (st\<lparr>output_scratchpad := out\<lparr>buf := Some p\<rparr>\<rparr>);
                  Some (e, Some (), st) }) }"

text \<open>
  The match bit: the zeros that push the CRC to the debug unit, one bit read, and the exit to idle.
\<close>

definition burst_write_match :: "'s jtag_cable_t \<Rightarrow> 's jtag \<Rightarrow> (u32 \<times> u32 \<times> 's jtag) option" where
  "burst_write_match c st =
     do { (e1, st) \<leftarrow> run_all (replicate (nat (global_DR_prefix_bits st)) (jtag_write_bit c 0)) st;
          (e2, ins, st) \<leftarrow> jtag_read_write_stream c [0, 0] [0] 1 True False st;
          crc_match \<leftarrow> word_at ins 0;
          (e3, st) \<leftarrow> run_all [jtag_write_bit c TMS, tap_exit_to_idle c] st;
          Some (e1 OR e2 OR e3, crc_match, st) }"

definition burst_write_attempt ::
  "'s jtag_cable_t \<Rightarrow> u8 list \<Rightarrow> u32 \<Rightarrow> int \<Rightarrow> int \<Rightarrow> u32 \<Rightarrow> nat \<Rightarrow> int \<Rightarrow> u32 \<Rightarrow> u32 \<Rightarrow> 's jtag
     \<Rightarrow> (burst_step \<times> 's jtag) option" where
  "burst_write_attempt c data opcode word_size_bytes word_count start_address retries i addr err st =
     do { (e, st) \<leftarrow> adbg_burst_command c opcode addr (word_count - i) st;
          let err = err OR e;
          (if err \<noteq> 0 then Some (Burst_Return err, st)
           else
             do { (err, st) \<leftarrow> run_all [tap_set_shift_dr c, jtag_write_bit c TDO] st;
                  (e, r, st) \<leftarrow> burst_write_data c data word_size_bytes word_count err st;
                  (case r of
                     None \<Rightarrow> Some (Burst_Return e, st)
                   | Some _ \<Rightarrow>
                       do { (e', crc_match, st) \<leftarrow> burst_write_match c st;
                            let err = err OR e OR e';
                            (if crc_match = 0 then
                               do { (again, st) \<leftarrow> retry_do c st;
                                    (if again then Some (Burst_Again retries 0 start_address err, st) else None) }
                             else if current_chain st = DC_WISHBONE then
                               do { (b, st) \<leftarrow> burst_bus_check c word_size_bytes start_address (\<lambda>d. d) retries err st;
                                    Some (case b of
                                            Bus_Ok err \<Rightarrow> (Burst_Return err, retry_ok st)
                                          | Bus_Max err \<Rightarrow> (Burst_Return err, st)
                                          | Bus_Retry i addr err \<Rightarrow> (Burst_Again (retries + 1) i addr err, st)) }
                             else Some (Burst_Return err, retry_ok st)) }) }) }"

fun burst_write_loop ::
  "'s jtag_cable_t \<Rightarrow> u8 list \<Rightarrow> u32 \<Rightarrow> int \<Rightarrow> int \<Rightarrow> u32 \<Rightarrow> nat \<Rightarrow> nat \<Rightarrow> int \<Rightarrow> u32 \<Rightarrow> u32 \<Rightarrow> 's jtag op" where
  "burst_write_loop c data opcode ws wc start 0 retries i addr err st = None"
| "burst_write_loop c data opcode ws wc start (Suc fuel) retries i addr err st =
     do { (r, st) \<leftarrow> burst_write_attempt c data opcode ws wc start retries i addr err st;
          (case r of
             Burst_Return err \<Rightarrow> Some (err, st)
           | Burst_Again retries i addr err \<Rightarrow> burst_write_loop c data opcode ws wc start fuel retries i addr err st) }"

definition adbg_wb_burst_write :: "'s jtag_cable_t \<Rightarrow> u8 list \<Rightarrow> int \<Rightarrow> int \<Rightarrow> u32 \<Rightarrow> 's jtag op" where
  "adbg_wb_burst_write c data word_size_bytes word_count start_address st =
     (if word_count \<le> 0 then Some (0, st)
      else (case burst_write_opcode (current_chain st) word_size_bytes of
          None \<Rightarrow> Some (1, st)
        | Some opcode \<Rightarrow>
            burst_write_loop c data opcode word_size_bytes word_count start_address burst_fuel 0 0 start_address
              APP_ERR_NONE st))"

subsection \<open>The JTAG serial port\<close>

text \<open>
  The bytes that follow the first in \<open>outdata\<close>: each data byte shifted up by the start bit, with the
  top bit of the one before it (first the top bit of the count); the last carry and zeros up to
  the ten bytes of the array.
\<close>

fun jsp_shifted :: "u8 \<Rightarrow> u8 list \<Rightarrow> u8 list" where
  "jsp_shifted wrapbit [] = [wrapbit]"
| "jsp_shifted wrapbit (b # bs) = (push_bit 1 b OR wrapbit) # jsp_shifted (drop_bit 7 b AND 1) bs"

definition jsp_outdata :: "u8 list \<Rightarrow> u8 list" where
  "jsp_outdata data =
    (let xmitsize = length data;
         bytes = (push_bit 5 (of_nat xmitsize) OR 1) # jsp_shifted (drop_bit 3 (of_nat xmitsize) AND 1) data
     in bytes @ replicate (10 - length bytes) 0)"

text \<open>
  Returns the bytes received and the new value of \<open>bytes_to_send\<close>. \<open>None\<close> in the second component is
  the early return, which leaves the caller's variables as they were.
\<close>

definition adbg_jsp_transact ::
  "'s jtag_cable_t \<Rightarrow> nat \<Rightarrow> u8 list \<Rightarrow> 's jtag \<Rightarrow> (u32 \<times> (u8 list \<times> nat) option \<times> 's jtag) option" where
  "adbg_jsp_transact c bytes_to_send data_to_send st =
    (let xmitsize = (if bytes_to_send > 8 then 8 else bytes_to_send) in
     do { (err, st) \<leftarrow> adbg_select_module c (desired_chain st) st;
          (if err \<noteq> 0 then Some (err, None, st)
           else if length data_to_send < xmitsize then None
           else
             do { (e1, st) \<leftarrow> tap_set_shift_dr c st;
                  let outdata = jsp_outdata (take xmitsize data_to_send);
                  let stopbit = (if outdata ! 9 AND 1 \<noteq> 0 then 1 else 0);
                  (e2, ins, st) \<leftarrow> jtag_read_write_stream c (words_of_bytes outdata) (words_of_bytes (replicate 10 0))
                                     (72 + 1 + stopbit) True True st;
                  let indata = take 10 (bytes_of_words ins);
                  counts \<leftarrow> word_at indata 0;
                  let bytes_received = unat (drop_bit 4 counts AND 0xF);
                  let bytes_free = unat (counts AND 0x0F);
                  (if 1 + bytes_received > length indata then None
                   else do { (e3, st) \<leftarrow> tap_exit_to_idle c st;
                             Some (e1 OR e2 OR e3,
                                   Some (take bytes_received (drop 1 indata), min bytes_free xmitsize), st) }) }) })"

subsection \<open>The CRC of the bridge is the CRC of the hardware\<close>

lemma all_ones_mask: "(0xffffffff :: u32) = - 1"
  by simp

lemma bit_crc_poly:
  "bit ADBG_CRC_POLY n \<longleftrightarrow> n \<in> {5, 8, 9, 15, 19, 20, 21, 23, 24, 26, 27, 29, 30, 31}"
proof (cases "n < 32")
  case True
  then have "n \<in> set [0..<32]" by simp
  moreover have "\<forall>n \<in> set [0..<32]. bit ADBG_CRC_POLY n \<longleftrightarrow> n \<in> {5, 8, 9, 15, 19, 20, 21, 23, 24, 26, 27, 29, 30, 31}"
    by (simp add: upt_rec ADBG_CRC_POLY_def)
  ultimately show ?thesis by blast
next
  case False
  then show ?thesis by (auto dest: bit_imp_le_length)
qed

lemma crc_taps:
  fixes b :: "nat \<Rightarrow> bool"
  assumes "\<not> b 32"
  shows "[b 1, b 2, b 3, b 4, b 5, b 6 \<noteq> fb, b 7, b 8, b 9 \<noteq> fb, b 10 \<noteq> fb, b 11, b 12, b 13, b 14, b 15,
        b 16 \<noteq> fb, b 17, b 18, b 19, b 20 \<noteq> fb, b 21 \<noteq> fb, b 22 \<noteq> fb, b 23, b 24 \<noteq> fb, b 25 \<noteq> fb, b 26,
        b 27 \<noteq> fb, b 28 \<noteq> fb, b 29, b 30 \<noteq> fb, b 31 \<noteq> fb, fb]
     = map (\<lambda>n. b (Suc n) \<noteq> (fb \<and> n \<in> {5, 8, 9, 15, 19, 20, 21, 23, 24, 26, 27, 29, 30, 31})) [0..<32]"
  using assms by (simp add: upt_rec numeral_eq_Suc)

lemma bit_new_crc:
  "n < 32 \<Longrightarrow> bit (new_crc data crc) n \<longleftrightarrow>
     (bit crc (Suc n) \<noteq> ((data \<noteq> bit crc 0) \<and> bit ADBG_CRC_POLY n))"
proof -
  assume n: "n < 32"
  have "\<not> bit crc 32" by (auto dest: bit_imp_le_length)
  note taps = crc_taps [of "bit crc", OF this, of "data \<noteq> bit crc 0"]
  show ?thesis
    unfolding new_crc_def Let_def taps
    using n by (simp only: bit_horner_sum_bit_word_iff length_map length_upt nth_map nth_upt bit_crc_poly) simp
qed

lemma crc_round_new_crc: "adbg_crc_round data i crc = new_crc (bit data i) crc"
proof (rule bit_word_eqI)
  fix n assume "n < LENGTH(32)"
  then have n: "n < 32" by simp
  have lsb: "drop_bit i data AND 1 \<noteq> 0 \<longleftrightarrow> bit data i" "crc AND 1 \<noteq> 0 \<longleftrightarrow> bit crc 0"
    by (simp_all add: and_one_eq bit_iff_odd_drop_bit mod_2_eq_odd bit_0)
  show "bit (adbg_crc_round data i crc) n = bit (new_crc (bit data i) crc) n"
    unfolding adbg_crc_round_def Let_def lsb all_ones_mask bit_new_crc [OF n]
    using n by (auto simp: bit_xor_iff bit_and_iff bit_drop_bit_eq)
qed

definition bits_of_byte :: "u8 \<Rightarrow> bool list" where
  "bits_of_byte b = map (bit b) [0..<8]"

definition bits_of_bytes :: "u8 list \<Rightarrow> bool list" where
  "bits_of_bytes bs = concat (map bits_of_byte bs)"

lemma length_bits_of_byte [simp]: "length (bits_of_byte b) = 8"
  by (simp add: bits_of_byte_def)

lemma bits_of_bytes_simps [simp]:
  "bits_of_bytes [] = []" "bits_of_bytes (b # bs) = bits_of_byte b @ bits_of_bytes bs"
  "bits_of_bytes (bs @ cs) = bits_of_bytes bs @ bits_of_bytes cs"
  by (simp_all add: bits_of_bytes_def)

lemma length_bits_of_bytes [simp]: "length (bits_of_bytes bs) = 8 * length bs"
  by (induction bs) simp_all

lemma nth_bits_of_bytes: "i < 8 * length bs \<Longrightarrow> bits_of_bytes bs ! i = bit (bs ! (i div 8)) (i mod 8)"
proof (induction bs arbitrary: i)
  case Nil
  then show ?case by simp
next
  case (Cons b bs)
  show ?case
  proof (cases "i < 8")
    case True
    then show ?thesis by (simp add: nth_append bits_of_byte_def)
  next
    case False
    then obtain j where j: "i = 8 + j" by (metis le_Suc_ex not_less)
    then have "i div 8 = Suc (j div 8)" "i mod 8 = j mod 8" by simp_all
    with Cons j show ?thesis by (simp add: nth_append)
  qed
qed

lemma compute_crc_hw: "adbg_compute_crc crc data n = fold new_crc (map (bit data) [0..<n]) crc"
proof -
  have "adbg_crc_round data = (\<lambda>i. new_crc (bit data i))"
    by (rule ext)+ (simp add: crc_round_new_crc)
  then show ?thesis by (simp add: adbg_compute_crc_def fold_map comp_def)
qed

lemma crc_of_bytes_hw: "crc_of_bytes crc bs = fold new_crc (bits_of_bytes bs) crc"
proof (induction bs arbitrary: crc)
  case Nil
  show ?case by (simp add: crc_of_bytes_def)
next
  case (Cons b bs)
  have "map (bit (ucast b :: u32)) [0..<8] = bits_of_byte b"
    by (simp add: bits_of_byte_def bit_ucast_iff)
  then have "adbg_compute_crc crc (ucast b) 8 = fold new_crc (bits_of_byte b) crc"
    by (simp add: compute_crc_hw)
  with Cons show ?case by (simp add: crc_of_bytes_def)
qed

lemma upt_split_at: "k \<le> n \<Longrightarrow> map f [0..<n] = map f [0..<k] @ map (\<lambda>i. f (k + i)) [0..<n - k]"
  by (rule nth_equalityI) (auto simp: nth_append)

lemma bits_word_of_bytes:
  "map (bit (word_of_bytes b0 b1 b2 b3)) [0..<32] = bits_of_bytes [b0, b1, b2, b3]"
  "map (bit (word_of_bytes b0 b1 b2 b3)) [0..<16] = bits_of_bytes [b0, b1]"
  by (simp_all add: bit_word_of_bytes bits_of_byte_def upt_split_at [of 8 32] upt_split_at [of 8 24]
      upt_split_at [of 8 16])

lemma crc_of_elements:
  "adbg_compute_crc crc (word_of_bytes b0 b1 b2 b3) 32 = crc_of_bytes crc [b0, b1, b2, b3]"
  "adbg_compute_crc crc (word_of_bytes b0 b1 0 0) 16 = crc_of_bytes crc [b0, b1]"
  by (simp_all only: compute_crc_hw crc_of_bytes_hw bits_word_of_bytes)

lemma crc_of_bytes_append: "crc_of_bytes crc (as @ bs) = crc_of_bytes (crc_of_bytes crc as) bs"
  by (simp add: crc_of_bytes_def)

lemma take_drop_element:
  "m + w \<le> length xs \<Longrightarrow> take (n + w) (drop m xs) = map (\<lambda>i. xs ! (m + i)) [0..<w] @ take n (drop (m + w) xs)"
  by (rule nth_equalityI) (auto simp: nth_append add.assoc)

lemma burst_write_crc_bytes:
  assumes "w \<in> {1, 2, 4}" and "(k + n) * w \<le> length data"
  shows "burst_write_crc data (int w) k n crc = Some (crc_of_bytes crc (take (n * w) (drop (k * w) data)))"
  using assms(2)
proof (induction n arbitrary: k crc)
  case 0
  then show ?case by (simp add: crc_of_bytes_def)
next
  case (Suc n)
  have room: "k * w + w \<le> length data" "(Suc k + n) * w \<le> length data"
    using Suc.prems by (simp_all add: algebra_simps)
  let ?e = "map (\<lambda>i. data ! (k * w + i)) [0..<w]"
  have split: "take (Suc n * w) (drop (k * w) data) = ?e @ take (n * w) (drop (Suc k * w) data)"
    using take_drop_element [OF room(1), of "n * w"] by (simp add: add.commute)
  obtain d where d: "data_element data (int w) k = Some d"
    "adbg_compute_crc crc d (nat (int w * 8)) = crc_of_bytes crc ?e"
  proof (cases "w = 1")
    case True
    then show thesis using room
      by (intro that [of "ucast (data ! k)"]) (simp_all add: data_element_def crc_of_bytes_def)
  next
    case False
    then consider "w = 2" | "w = 4" using assms(1) by auto
    then show thesis
    proof cases
      case 1
      then show thesis using room
        by (intro that [of "word_of_bytes (data ! (2 * k)) (data ! (2 * k + 1)) 0 0"])
          (simp_all add: data_element_def crc_of_elements upt_rec mult.commute)
    next
      case 2
      then show thesis using room
        by (intro that [of "word_of_bytes (data ! (4 * k)) (data ! (4 * k + 1)) (data ! (4 * k + 2)) (data ! (4 * k + 3))"])
          (simp_all add: data_element_def crc_of_elements upt_rec mult.commute numeral_3_eq_3)
    qed
  qed
  show ?case
    using Suc.IH [OF room(2)] d by (simp add: split crc_of_bytes_append del: mult_Suc)
qed

subsection \<open>Commands on the hardware\<close>

context jtag_cable
begin

lemma clk_dr_write:
  assumes "0 < n" "n \<le> 32 * length ws" "m = int n"
  shows "clk st (run_all [tap_set_shift_dr c, jtag_write_stream c ws m True, tap_exit_to_idle c])
     ([TMS, 0, 0] @ dr_packets (global_DR_prefix_bits st) ws n @ [TMS, 0])"
  using clk_Cons [OF clk_shift_dr clk_Cons [OF clk_write_stream_tms [OF assms] clk_Cons [OF clk_exit_to_idle clk_Nil]]]
  by simp

lemma select_module_succeeds:
  assumes "ok (cable st)" "current_chain st \<noteq> chain"
  obtains s' where
    "adbg_select_module c chain st = Some (0, st\<lparr>cable := s', current_chain := chain, desired_chain := chain\<rparr>)"
    "ok s'" "dev s' = fold step ([TMS, 0, 0] @ dr_packets (global_DR_prefix_bits st) [of_int chain OR 4] 3 @ [TMS, 0])
                        (dev (cable st))"
proof -
  let ?st = "st\<lparr>current_chain := -1, desired_chain := chain\<rparr>" and ?ws = "[of_int chain OR 4] :: u32 list"
  obtain s' where "run_all [tap_set_shift_dr c, jtag_write_stream c ?ws 3 True, tap_exit_to_idle c] ?st =
      Some (0, ?st\<lparr>cable := s'\<rparr>)" "ok s'"
    "dev s' = fold step ([TMS, 0, 0] @ dr_packets (global_DR_prefix_bits st) ?ws 3 @ [TMS, 0]) (dev (cable st))"
    using clk_apply [OF clk_dr_write [of 3 ?ws 3 ?st]] assms(1) by auto
  then show thesis
    using assms(2)
    by (intro that) (simp_all add: adbg_select_module_def DBG_MODULE_SELECT_REG_SIZE_def APP_ERR_NONE_def del: run_all.simps)
qed

lemma burst_command_succeeds:
  assumes "ok (cable st)" "current_chain st = desired_chain st"
  obtains s' where
    "adbg_burst_command c opcode address len st = Some (0, st\<lparr>cable := s', soft_retry_no := 0\<rparr>)" "ok s'"
    "dev s' = fold step ([TMS, 0, 0] @ dr_packets (global_DR_prefix_bits st)
        [of_int len OR push_bit 16 address,
         (drop_bit 16 address OR push_bit 16 (opcode AND 0xf)) AND NOT (push_bit 20 1)] 53 @ [TMS, 0]) (dev (cable st))"
proof -
  let ?ws = "[of_int len OR push_bit 16 address,
      (drop_bit 16 address OR push_bit 16 (opcode AND 0xf)) AND NOT (push_bit 20 1)] :: u32 list"
  obtain s' where "run_all [tap_set_shift_dr c, jtag_write_stream c ?ws 53 True, tap_exit_to_idle c] st =
      Some (0, st\<lparr>cable := s'\<rparr>)" "ok s'"
    "dev s' = fold step ([TMS, 0, 0] @ dr_packets (global_DR_prefix_bits st) ?ws 53 @ [TMS, 0]) (dev (cable st))"
    using clk_apply [OF clk_dr_write [of 53 ?ws 53 st] assms(1)] by auto
  then show thesis
    using assms(2)
    by (intro that) (simp_all add: adbg_burst_command_def adbg_select_module_def retry_ok_def APP_ERR_NONE_def
        del: run_all.simps)
qed

end

lemma dr_write_hw:
  fixes ws :: "u32 list" and n :: nat and d :: debug_dev
  assumes "TAP_state d = Run_Test_Idle" "debug_select d" "0 < n"
  defines "R \<equiv> fold shift_in (stream_bits ws n) (input_shift_reg d)"
  shows "fold hw_step ([TMS, 0, 0] @ dr_packets 0 ws n @ [TMS, 0]) d =
     d\<lparr>TAP_state := Run_Test_Idle, input_shift_reg := R,
       module_id_reg := (if bit R 52 \<and> \<not> select_inhibit d then ucast (drop_bit 50 R) else module_id_reg d)\<rparr>"
proof -
  let ?d1 = "d\<lparr>TAP_state := Shift_DR\<rparr>"
  let ?d2 = "?d1\<lparr>TAP_state := Exit1_DR, input_shift_reg := R\<rparr>"
  have 1: "fold hw_step [TMS, 0, 0] d = ?d1" by (rule walk_to_shift_dr [OF assms(1,2)])
  have 2: "fold hw_step (stream_packets ws n True) ?d1 = ?d2"
    using assms(2,3) by (subst shift_dr_stream) (simp_all add: debug_select_def R_def)
  have 3: "fold hw_step [TMS, 0] ?d2 = ?d2\<lparr>TAP_state := Run_Test_Idle,
      module_id_reg := (if bit R 52 \<and> \<not> select_inhibit d then ucast (drop_bit 50 R) else module_id_reg d)\<rparr>"
    using assms(2) by (subst walk_exit_dr) (simp_all add: debug_select_def)
  have "fold hw_step ([TMS, 0, 0] @ dr_packets 0 ws n @ [TMS, 0]) d =
      fold hw_step [TMS, 0] (fold hw_step (stream_packets ws n True) (fold hw_step [TMS, 0, 0] d))"
    by (simp only: dr_packets_def fold_append o_apply if_True refl)
  also have "\<dots> = d\<lparr>TAP_state := Run_Test_Idle, input_shift_reg := R,
       module_id_reg := (if bit R 52 \<and> \<not> select_inhibit d then ucast (drop_bit 50 R) else module_id_reg d)\<rparr>"
    by (simp only: 1 2 3) simp
  finally show ?thesis .
qed

lemma bit_input_shift:
  "k < 53 \<Longrightarrow> n \<le> 53 \<Longrightarrow>
     bit (fold shift_in (stream_bits ws n) (r :: 53 word)) k =
       (if k + n < 53 then bit r (k + n) else stream_bit ws (k + n - 53))"
  by (auto simp: bit_fold_shift_in stream_bits_def)

lemma bit_of_int_small:
  fixes m :: int
  assumes "0 \<le> m" "m < 2 ^ k"
  shows "bit (of_int m :: 'a::len word) n \<longleftrightarrow> n < LENGTH('a) \<and> n < k \<and> bit m n"
proof -
  have "take_bit k m = m" using assms by (simp add: take_bit_int_eq_self_iff)
  then have "bit m n \<longleftrightarrow> n < k \<and> bit m n" by (metis bit_take_bit_iff)
  then show ?thesis by (auto simp: bit_word_of_int_iff)
qed

text \<open>
  C3. Selecting a module (0 to 3) with the DEBUG instruction latched sets the module register of
  adbg_top.v to it, unless the selected module inhibits the change, returns the TAP to Run-Test/Idle
  and records the module as selected.
\<close>

theorem adbg_select_module_hw:
  assumes "jtag_cable c dev ok hw_step tdo" and "ok (cable st)" and "global_DR_prefix_bits st = 0"
    and "TAP_state (dev (cable st)) = Run_Test_Idle" and "debug_select (dev (cable st))"
    and "\<not> select_inhibit (dev (cable st))" and "0 \<le> chain" and "chain < 4" and "current_chain st \<noteq> chain"
  shows "\<exists>st'. adbg_select_module c chain st = Some (APP_ERR_NONE, st') \<and> ok (cable st')
     \<and> current_chain st' = chain \<and> TAP_state (dev (cable st')) = Run_Test_Idle
     \<and> debug_select (dev (cable st')) \<and> module_id_reg (dev (cable st')) = of_int chain"
proof -
  let ?d = "dev (cable st)" and ?ws = "[of_int chain OR 4] :: u32 list"
  define R where "R = fold shift_in (stream_bits ?ws 3) (input_shift_reg ?d)"
  obtain s' where s': "adbg_select_module c chain st =
      Some (0, st\<lparr>cable := s', current_chain := chain, desired_chain := chain\<rparr>)" "ok s'"
    "dev s' = fold hw_step ([TMS, 0, 0] @ dr_packets 0 ?ws 3 @ [TMS, 0]) ?d"
    using jtag_cable.select_module_succeeds [OF assms(1,2,9)] assms(3) by metis
  have "chain < 2 ^ 2" using assms(8) by simp
  note m = bit_of_int_small [OF assms(7) this]
  have four: "bit (4 :: u32) n \<longleftrightarrow> n = 2" for n
    using bit_exp_iff [of 2 n, where ?'a = u32] by (auto simp: possible_bit_def)
  have s: "stream_bit ?ws k \<longleftrightarrow> (k < 2 \<and> bit chain k) \<or> k = 2" if "k < 3" for k
    using that by (simp only: stream_bit_def div_less mod_less bit_or_iff m four nth_Cons_0) auto
  have R: "bit R k = stream_bit ?ws (k - 50)" if "50 \<le> k" "k < 53" for k
    using that by (simp add: R_def bit_input_shift)
  have "bit R 52" using R [of 52] s [of 2] by simp
  moreover have "ucast (drop_bit 50 R) = (of_int chain :: 2 word)"
    by (rule bit_word_eqI) (auto simp: bit_ucast_iff bit_drop_bit_eq R s m)
  ultimately have "dev s' = ?d\<lparr>TAP_state := Run_Test_Idle, input_shift_reg := R, module_id_reg := of_int chain\<rparr>"
    using dr_write_hw [OF assms(4,5), of 3 ?ws] assms(6) by (simp add: s'(3) R_def)
  then show ?thesis
    using s'(1,2) assms(5) by (simp add: APP_ERR_NONE_def debug_select_def)
qed

theorem adbg_select_module_hw_witness:
  "\<exists>st'. adbg_select_module xess DC_CPU0 (board (idle_dev\<lparr>latched_jtag_ir := DEBUG\<rparr>)) = Some (APP_ERR_NONE, st')
     \<and> current_chain st' = 1 \<and> module_id_reg (board_dev (cable st')) = 1"
  using adbg_select_module_hw [OF xess_cable, of "board (idle_dev\<lparr>latched_jtag_ir := DEBUG\<rparr>)" DC_CPU0]
  by (auto simp: idle_dev_def power_on_dev_def debug_select_def DC_CPU0_def)

text \<open>
  A burst command puts its fields where adbg_top.v and the bus modules read them: the word count in
  bits 0 to 15 of the input shift register, the address in bits 16 to 47, the opcode in bits 48 to 51,
  and a clear top bit, so that the module selection does not change, for word counts of at most 16 bits.
\<close>

theorem adbg_burst_command_hw:
  assumes "jtag_cable c dev ok hw_step tdo" and "ok (cable st)" and "global_DR_prefix_bits st = 0"
    and "TAP_state (dev (cable st)) = Run_Test_Idle" and "debug_select (dev (cable st))"
    and "current_chain st = desired_chain st" and "0 \<le> len" and "len < 2 ^ 16"
  shows "\<exists>st'. adbg_burst_command c opcode address len st = Some (APP_ERR_NONE, st') \<and> ok (cable st')
     \<and> TAP_state (dev (cable st')) = Run_Test_Idle
     \<and> (let R = input_shift_reg (dev (cable st')) in
          (ucast R :: u16) = of_int len \<and> (ucast (drop_bit 16 R) :: u32) = address
          \<and> (ucast (drop_bit 48 R) :: 4 word) = ucast opcode \<and> \<not> bit R 52)
     \<and> module_id_reg (dev (cable st')) = module_id_reg (dev (cable st))"
proof -
  let ?d = "dev (cable st)"
  let ?w0 = "of_int len OR push_bit 16 address :: u32"
  let ?w1 = "(drop_bit 16 address OR push_bit 16 (opcode AND 0xf)) AND NOT (push_bit 20 1) :: u32"
  define R where "R = fold shift_in (stream_bits [?w0, ?w1] 53) (input_shift_reg ?d)"
  obtain s' where s': "adbg_burst_command c opcode address len st = Some (0, st\<lparr>cable := s', soft_retry_no := 0\<rparr>)"
    "ok s'" "dev s' = fold hw_step ([TMS, 0, 0] @ dr_packets 0 [?w0, ?w1] 53 @ [TMS, 0]) ?d"
    using jtag_cable.burst_command_succeeds [OF assms(1,2,6), of opcode address len] assms(3) by metis
  note len = bit_of_int_small [OF assms(7,8)]
  have R: "bit R k = (if k < 32 then bit ?w0 k else bit ?w1 (k - 32))" if "k < 53" for k
    using that by (auto simp: R_def bit_input_shift stream_bit_def div_if mod_if)
  have f: "bit (0xf :: u32) n \<longleftrightarrow> n < 4" for n
    using bit_mask_iff [of 4 n, where ?'a = u32] by (auto simp: mask_numeral possible_bit_def)
  have msb: "bit (NOT (push_bit 20 1) :: u32) j \<longleftrightarrow> j < 32 \<and> j \<noteq> 20" for j
    by (simp only: bit_not_iff bit_push_bit_iff bit_1_iff possible_bit_def) auto
  have w1: "bit ?w1 j \<longleftrightarrow> (if j < 16 then bit address (16 + j) else j < 20 \<and> bit opcode (j - 16))" for j
    by (simp only: bit_and_iff msb bit_or_iff bit_drop_bit_eq bit_push_bit_iff f o_apply)
      (auto dest: bit_imp_le_length)
  have w0: "bit ?w0 j \<longleftrightarrow> j < 32 \<and> (if j < 16 then bit len j else bit address (j - 16))" for j
    by (simp only: bit_or_iff bit_push_bit_iff len o_apply) (auto dest: bit_imp_le_length)
  have Rb: "bit R k \<longleftrightarrow> (if k < 16 then bit len k else if k < 48 then bit address (k - 16) else k < 52 \<and> bit opcode (k - 48))"
    if "k < 53" for k
    using R [OF that] unfolding w0 w1 by auto
  have top: "\<not> bit R 52" using Rb [of 52] by simp
  have "(ucast R :: u16) = of_int len"
    by (rule bit_word_eqI) (auto simp: bit_ucast_iff Rb len)
  moreover have "(ucast (drop_bit 16 R) :: u32) = address"
    by (rule bit_word_eqI) (auto simp: bit_ucast_iff bit_drop_bit_eq Rb)
  moreover have "(ucast (drop_bit 48 R) :: 4 word) = ucast opcode"
    by (rule bit_word_eqI) (auto simp: bit_ucast_iff bit_drop_bit_eq Rb)
  moreover have "dev s' = ?d\<lparr>TAP_state := Run_Test_Idle, input_shift_reg := R\<rparr>"
    using dr_write_hw [OF assms(4,5), of 53 "[?w0, ?w1]"] top by (simp add: s'(3) R_def)
  ultimately show ?thesis
    using s'(1,2) top by (simp add: APP_ERR_NONE_def Let_def)
qed

theorem adbg_burst_command_hw_witness:
  "\<exists>st'. adbg_burst_command xess DBG_WB_CMD_BREAD32 0x1234 256 (board (idle_dev\<lparr>latched_jtag_ir := DEBUG\<rparr>))
       = Some (APP_ERR_NONE, st')
     \<and> (ucast (input_shift_reg (board_dev (cable st'))) :: u16) = 256
     \<and> (ucast (drop_bit 16 (input_shift_reg (board_dev (cable st')))) :: u32) = 0x1234"
  using adbg_burst_command_hw [OF xess_cable, of "board (idle_dev\<lparr>latched_jtag_ir := DEBUG\<rparr>)" 256 DBG_WB_CMD_BREAD32 "0x1234"]
  by (auto simp: idle_dev_def power_on_dev_def debug_select_def Let_def)

end
