(* ===== verification/Adv_Dbg_Bursts.thy ===== *)
theory Adv_Dbg_Bursts
  imports Adv_Dbg_Commands
begin

unbundle bit_operations_syntax

text \<open>
  Correctness of the burst transfers of adv_dbg_commands.c: the fuel of the retry loops is enough,
  every burst returns on a working cable, the payload of a write is followed by the CRC the hardware
  computes, and data is only accepted with a matching CRC.
\<close>

subsection \<open>Bytes on the wire\<close>

lemma bit_word_of_bytes_nth:
  assumes "i < 32"
  shows "bit (word_of_bytes b0 b1 b2 b3) i = bit ([b0, b1, b2, b3] ! (i div 8)) (i mod 8)"
proof -
  define q r where "q = i div 8" and "r = i mod 8"
  have i: "i = 8 * q + r" "q < 4" "r < 8" using assms by (simp_all add: q_def r_def less_mult_imp_div_less)
  then consider "q = 0" | "q = 1" | "q = 2" | "q = 3" by linarith
  then show ?thesis
    unfolding q_def [symmetric] r_def [symmetric]
    by cases (use i in \<open>simp_all add: bit_word_of_bytes\<close>)
qed

lemma stream_bit_bytes:
  "i < 8 * length bs \<Longrightarrow> stream_bit (words_of_bytes bs) i = bit (bs ! (i div 8)) (i mod 8)"
proof (induction bs arbitrary: i rule: words_of_bytes.induct)
  case (1 b0 b1 b2 b3 bs)
  show ?case
  proof (cases "i < 32")
    case True
    moreover from True have "i div 8 < 4" by (simp add: less_mult_imp_div_less)
    then have "[b0, b1, b2, b3] ! (i div 8) = (b0 # b1 # b2 # b3 # bs) ! (i div 8)"
      using nth_append [of "[b0, b1, b2, b3]" bs "i div 8"] by simp
    ultimately show ?thesis by (simp add: stream_bit_def bit_word_of_bytes_nth)
  next
    case False
    then obtain j where j: "i = 32 + j" by (metis le_Suc_ex not_less)
    then have "i div 32 = Suc (j div 32)" "i mod 32 = j mod 32" "i div 8 = 4 + j div 8" "i mod 8 = j mod 8"
      by (simp, simp, simp, presburger)
    with 1 j show ?thesis by (simp add: stream_bit_def)
  qed
next
  case (3 b0)
  then show ?case by (simp add: stream_bit_def bit_word_of_bytes_nth)
next
  case (4 b0 b1)
  moreover from 4 have "i div 8 < 2" by (simp add: less_mult_imp_div_less)
  then have "[b0, b1, 0, 0] ! (i div 8) = [b0, b1] ! (i div 8)"
    using nth_append [of "[b0, b1]" "[0, 0]" "i div 8"] by simp
  ultimately show ?case by (simp add: stream_bit_def bit_word_of_bytes_nth)
next
  case (5 b0 b1 b2)
  moreover from 5 have "i div 8 < 3" by (simp add: less_mult_imp_div_less)
  then have "[b0, b1, b2, 0] ! (i div 8) = [b0, b1, b2] ! (i div 8)"
    using nth_append [of "[b0, b1, b2]" "[0]" "i div 8"] by simp
  ultimately show ?case by (simp add: stream_bit_def bit_word_of_bytes_nth)
qed simp

lemma stream_bits_bytes:
  "m \<le> length bs \<Longrightarrow> stream_bits (words_of_bytes bs) (8 * m) = bits_of_bytes (take m bs)"
proof (rule nth_equalityI)
  assume m: "m \<le> length bs"
  then show "length (stream_bits (words_of_bytes bs) (8 * m)) = length (bits_of_bytes (take m bs))" by simp
  fix i assume "i < length (stream_bits (words_of_bytes bs) (8 * m))"
  then have i: "i < 8 * m" by simp
  then have "i div 8 < m" by (simp add: less_mult_imp_div_less mult.commute)
  with i m show "stream_bits (words_of_bytes bs) (8 * m) ! i = bits_of_bytes (take m bs) ! i"
    by (simp add: stream_bits_def stream_bit_bytes nth_bits_of_bytes)
qed

definition data_packets :: "bool list \<Rightarrow> u8 list" where
  "data_packets bs = map (\<lambda>b. if b then TDO else 0) bs"

lemma stream_packets_data: "stream_packets ws n False = data_packets (stream_bits ws n)"
  by (simp add: stream_packets_def stream_packet_def data_packets_def stream_bits_def)

lemma bits_of_crc_bytes:
  "bits_of_bytes [byte_of w 0, byte_of w 1, byte_of w 2, byte_of w 3] = map (bit w) [0..<32]"
  by (simp add: bits_of_byte_def byte_of_def bit_ucast_iff bit_drop_bit_eq upt_split_at [of 8 32 "bit w"]
      upt_split_at [of 8 24] upt_split_at [of 8 16])

subsection \<open>What the debug unit transactions leave alone\<close>

definition dbg_indep :: "('s jtag \<Rightarrow> 'v) \<Rightarrow> bool" where
  "dbg_indep g \<longleftrightarrow> chain_indep g \<and> (\<forall>st k n b. g (st\<lparr>desired_chain := k\<rparr>) = g st \<and> g (st\<lparr>soft_retry_no := n\<rparr>) = g st
     \<and> g (st\<lparr>input_scratchpad := b\<rparr>) = g st \<and> g (st\<lparr>output_scratchpad := b\<rparr>) = g st)"

lemma dbg_indepD:
  assumes "dbg_indep g"
  shows "chain_indep g" "g (st\<lparr>desired_chain := k\<rparr>) = g st" "g (st\<lparr>soft_retry_no := n\<rparr>) = g st"
    "g (st\<lparr>input_scratchpad := b\<rparr>) = g st" "g (st\<lparr>output_scratchpad := b\<rparr>) = g st"
    "g (retry_ok st) = g st"
  using assms by (simp_all add: dbg_indep_def retry_ok_def)

lemma dbg_indep_fields [simp, intro]: "dbg_indep dbg_access_mutex" "dbg_indep legacy_crc_w" "dbg_indep global_IR_size" "dbg_indep global_DR_prefix_bits"
  by (auto simp: dbg_indep_def)

lemmas chain_keeps = keeps_jtag_write_bit keeps_on_cable_stream keeps_bits keeps_jtag_write_stream
  keeps_tap_moves keeps_tap_reset keeps_tap_set_ir keeps_tap_enable_debug_module
lemmas chain_keeps2 = keeps_on_cable_read_stream keeps_jtag_read_write_bit keeps_jtag_read_write_stream

lemma keeps_dr_write [keeps_intros]:
  "chain_indep g \<Longrightarrow> keeps g (run_all [tap_set_shift_dr c, jtag_write_stream c ws n l, tap_exit_to_idle c])"
  by (intro keeps_intros) (auto intro: keeps_intros)

lemma keeps_adbg_select_module [keeps_intros]:
  assumes "dbg_indep g"
  shows "keeps g (adbg_select_module c chain)"
  unfolding adbg_select_module_def Let_def
  by (intro keepsI) (auto simp del: run_all.simps simp: dbg_indepD [OF assms] chain_indepD [OF dbg_indepD(1) [OF assms]]
      split: if_splits Option.bind_splits dest!: keepsD [OF keeps_dr_write [OF dbg_indepD(1) [OF assms]]])

lemma keeps_reg_idx_put: "chain_indep g \<Longrightarrow> reg_idx_put r st = Some st' \<Longrightarrow> g st' = g st"
  by (auto simp: reg_idx_put_def chain_indepD split: if_splits Option.bind_splits)

lemma keeps_adbg_select_ctrl_reg [keeps_intros]:
  assumes g: "dbg_indep g"
  shows "keeps g (adbg_select_ctrl_reg c r)"
  unfolding adbg_select_ctrl_reg_def Let_def
  by (intro keepsI) (auto simp del: run_all.simps simp: dbg_indepD [OF g]
      split: if_splits Option.bind_splits option.splits
      dest!: keepsD [OF keeps_dr_write [OF dbg_indepD(1) [OF g]]] keepsD [OF keeps_adbg_select_module [OF g]]
        keeps_reg_idx_put [OF dbg_indepD(1) [OF g]])

lemma keeps_adbg_ctrl_write [keeps_intros]:
  assumes g: "dbg_indep g"
  shows "keeps g (adbg_ctrl_write c r ws n)"
proof -
  have w: "keeps g (run_all [tap_set_shift_dr c, jtag_write_stream c ws n False, jtag_write_stream c us m True, tap_exit_to_idle c])"
    for us m using dbg_indepD(1) [OF g] by (intro keeps_intros) (auto intro: keeps_intros)
  show ?thesis
    unfolding adbg_ctrl_write_def Let_def
    by (intro keepsI) (auto simp del: run_all.simps simp: dbg_indepD [OF g]
        split: if_splits Option.bind_splits option.splits
        dest!: keepsD [OF w] keepsD [OF keeps_adbg_select_module [OF g]] keeps_reg_idx_put [OF dbg_indepD(1) [OF g]])
qed

lemma keeps_select_desired [keeps_intros]:
  "dbg_indep g \<Longrightarrow> keeps g (\<lambda>st. adbg_select_module c (desired_chain st) st)"
  by (rule keepsI) (rule keepsD [OF keeps_adbg_select_module])

lemma keeps_adbg_ctrl_read [keeps_intros]:
  assumes g: "dbg_indep g"
  shows "keeps2 g (adbg_ctrl_read c r ws n)"
proof -
  have sel: "keeps g (run_until_err [\<lambda>st. adbg_select_module c (desired_chain st) st, adbg_select_ctrl_reg c r])"
    using g by (intro keeps_intros) (auto intro: keeps_intros)
  have w: "keeps g (run_all [jtag_write_stream c us m True, tap_exit_to_idle c])" for us m
    using dbg_indepD(1) [OF g] by (intro keeps_intros) (auto intro: keeps_intros)
  show ?thesis
    unfolding adbg_ctrl_read_def Let_def
    by (intro keeps2I) (auto simp del: run_all.simps run_until_err.simps simp: dbg_indepD [OF g]
        split: if_splits Option.bind_splits option.splits
        dest!: keepsD [OF sel] keepsD [OF w] chain_keeps [OF dbg_indepD(1) [OF g], THEN keepsD]
          chain_keeps2 [OF dbg_indepD(1) [OF g], THEN keeps2D])
qed

lemma keeps_adbg_burst_command [keeps_intros]:
  assumes g: "dbg_indep g"
  shows "keeps g (adbg_burst_command c opcode addr n)"
  unfolding adbg_burst_command_def Let_def
  by (intro keepsI) (auto simp del: run_all.simps simp: dbg_indepD [OF g]
      split: if_splits Option.bind_splits
      dest!: keepsD [OF keeps_dr_write [OF dbg_indepD(1) [OF g]]] keepsD [OF keeps_adbg_select_module [OF g]])

lemma keeps_retry_do [keeps_intros]:
  assumes g: "dbg_indep g"
  shows "keeps g (retry_do c)"
  unfolding retry_do_def
  by (intro keepsI) (auto simp: dbg_indepD [OF g] split: if_splits Option.bind_splits
      dest!: chain_keeps [OF dbg_indepD(1) [OF g], THEN keepsD])

lemma keeps_burst_wait_status [keeps_intros]:
  assumes g: "chain_indep g"
  shows "keeps2 g (burst_wait_status c n)"
proof (induction n)
  case 0
  show ?case
    by (intro keeps2I, subst (asm) burst_wait_status.simps)
      (auto split: Option.bind_splits dest!: keeps2D [OF keeps_jtag_read_write_bit [OF g]])
next
  case (Suc n)
  show ?case
    by (intro keeps2I, subst (asm) burst_wait_status.simps)
      (auto split: Option.bind_splits if_splits dest!: keeps2D [OF keeps_jtag_read_write_bit [OF g]] keeps2D [OF Suc])
qed

definition scratch_indep :: "('s jtag \<Rightarrow> 'v) \<Rightarrow> bool" where
  "scratch_indep g \<longleftrightarrow> chain_indep g \<and>
     (\<forall>st b. g (st\<lparr>input_scratchpad := b\<rparr>) = g st \<and> g (st\<lparr>output_scratchpad := b\<rparr>) = g st)"

lemma scratch_indepD:
  assumes "scratch_indep g"
  shows "chain_indep g" "g (st\<lparr>input_scratchpad := b\<rparr>) = g st" "g (st\<lparr>output_scratchpad := b\<rparr>) = g st"
    "g (st\<lparr>mallocs := m\<rparr>) = g st"
  using assms by (simp_all add: scratch_indep_def chain_indepD)

lemma scratch_indep_dbg: "dbg_indep g \<Longrightarrow> scratch_indep g"
  by (simp add: scratch_indep_def dbg_indep_def)

lemma scratch_indep_fields [simp, intro]: "scratch_indep soft_retry_no" "scratch_indep desired_chain"
  by (auto simp: scratch_indep_def)

lemma keeps_burst_read_data [keeps_intros]:
  assumes g: "scratch_indep g"
  shows "keeps2 g (burst_read_data c ws wc err)"
  unfolding burst_read_data_def Let_def
  by (intro keeps2I) (auto simp: scratch_indepD [OF g] split: if_splits Option.bind_splits prod.splits
      dest!: keeps2D [OF keeps_jtag_read_write_stream [OF scratch_indepD(1) [OF g]]])

lemma keeps_burst_write_data [keeps_intros]:
  assumes g: "scratch_indep g"
  shows "keeps2 g (burst_write_data c data ws wc err)"
  unfolding burst_write_data_def Let_def
  by (intro keeps2I) (auto simp: scratch_indepD [OF g] split: if_splits Option.bind_splits prod.splits
      dest!: keepsD [OF keeps_jtag_write_stream [OF scratch_indepD(1) [OF g]]])

lemma keeps_burst_write_match [keeps_intros]:
  assumes g: "chain_indep g"
  shows "keeps2 g (burst_write_match c)"
proof -
  have w: "keeps g (run_all [jtag_write_bit c TMS, tap_exit_to_idle c])"
    using g by (intro keeps_intros) (auto intro: keeps_intros)
  show ?thesis
    unfolding burst_write_match_def
    by (intro keeps2I) (auto simp del: run_all.simps split: Option.bind_splits
        dest!: keepsD [OF keeps_bits [OF g]] keepsD [OF w] keeps2D [OF keeps_jtag_read_write_stream [OF g]])
qed

lemma keeps_burst_bus_check [keeps_intros]:
  assumes g: "dbg_indep g"
  shows "keeps g (burst_bus_check c ws start fix retries err)"
  unfolding burst_bus_check_def Let_def
  by (intro keepsI) (auto split: if_splits Option.bind_splits
      dest!: keepsD [OF keeps_adbg_ctrl_write [OF g]] keeps2D [OF keeps_adbg_ctrl_read [OF g]])

lemma keeps_xilinx_kludge [keeps_intros]:
  "chain_indep g \<Longrightarrow> keeps g (run_all [tap_set_ir c ir, tap_enable_debug_module c])"
  by (intro keeps_intros) (auto intro: keeps_intros)

lemma keeps_start_bit [keeps_intros]:
  "chain_indep g \<Longrightarrow> keeps g (run_all [tap_set_shift_dr c, jtag_write_bit c p])"
  by (intro keeps_intros) (auto intro: keeps_intros)

lemma keeps_burst_read_attempt [keeps_intros]:
  assumes g: "dbg_indep g"
  shows "keeps2 g (burst_read_attempt c opcode ws wc start retries i addr err)"
  unfolding burst_read_attempt_def Let_def
  by (intro keeps2I) (auto simp del: run_all.simps simp: dbg_indepD [OF g]
      split: if_splits Option.bind_splits option.splits bus_check.splits
      dest!: keepsD [OF keeps_adbg_burst_command [OF g]] keepsD [OF keeps_xilinx_kludge [OF dbg_indepD(1) [OF g]]]
        keepsD [OF keeps_tap_moves(1) [OF dbg_indepD(1) [OF g]]] keepsD [OF keeps_tap_moves(2) [OF dbg_indepD(1) [OF g]]]
        keeps2D [OF keeps_burst_wait_status [OF dbg_indepD(1) [OF g]]] keepsD [OF keeps_retry_do [OF g]]
        keeps2D [OF keeps_burst_read_data [OF scratch_indep_dbg [OF g]]] keepsD [OF keeps_burst_bus_check [OF g]])

lemma keeps_burst_write_attempt [keeps_intros]:
  assumes g: "dbg_indep g"
  shows "keeps g (burst_write_attempt c data opcode ws wc start retries i addr err)"
  unfolding burst_write_attempt_def Let_def
  by (intro keepsI) (auto simp del: run_all.simps simp: dbg_indepD [OF g]
      split: if_splits Option.bind_splits option.splits bus_check.splits
      dest!: keepsD [OF keeps_adbg_burst_command [OF g]] keepsD [OF keeps_start_bit [OF dbg_indepD(1) [OF g]]]
        keeps2D [OF keeps_burst_write_match [OF dbg_indepD(1) [OF g]]] keepsD [OF keeps_retry_do [OF g]]
        keeps2D [OF keeps_burst_write_data [OF scratch_indep_dbg [OF g]]] keepsD [OF keeps_burst_bus_check [OF g]])

lemma keeps_burst_read_loop:
  assumes g: "dbg_indep g"
  shows "burst_read_loop c opcode ws wc start fuel retries i addr err data st = Some (e, d, st') \<Longrightarrow> g st' = g st"
proof (induction fuel arbitrary: retries i addr err data st)
  case 0
  then show ?case by simp
next
  case (Suc fuel)
  from Suc.prems show ?case
    by (auto simp: Let_def split: Option.bind_splits burst_step.splits
        dest!: keeps2D [OF keeps_burst_read_attempt [OF g]] Suc.IH)
qed

lemma keeps_burst_write_loop:
  assumes g: "dbg_indep g"
  shows "burst_write_loop c data opcode ws wc start fuel retries i addr err st = Some (e, st') \<Longrightarrow> g st' = g st"
proof (induction fuel arbitrary: retries i addr err st)
  case 0
  then show ?case by simp
next
  case (Suc fuel)
  from Suc.prems show ?case
    by (auto split: Option.bind_splits burst_step.splits
        dest!: keepsD [OF keeps_burst_write_attempt [OF g]] Suc.IH)
qed

lemma keeps_adbg_bursts [keeps_intros]:
  assumes g: "dbg_indep g"
  shows "keeps2 g (adbg_wb_burst_read c ws wc addr)" "keeps g (adbg_wb_burst_write c data ws wc addr)"
  by (auto simp: keeps_def keeps2_def adbg_wb_burst_read_def adbg_wb_burst_write_def split: if_splits option.splits
      dest: keeps_burst_read_loop [OF g] keeps_burst_write_loop [OF g])

lemma keeps_adbg_jsp_transact [keeps_intros]:
  assumes g: "dbg_indep g"
  shows "keeps2 g (adbg_jsp_transact c n data)"
  unfolding adbg_jsp_transact_def Let_def
  by (intro keeps2I) (auto split: if_splits Option.bind_splits
      dest!: keepsD [OF keeps_adbg_select_module [OF g]] keepsD [OF keeps_tap_moves(1) [OF dbg_indepD(1) [OF g]]]
        keepsD [OF keeps_tap_moves(2) [OF dbg_indepD(1) [OF g]]]
        keeps2D [OF keeps_jtag_read_write_stream [OF dbg_indepD(1) [OF g]]])

subsection \<open>The fuel of the retry loops is enough\<close>

lemma retry_do_refuses: "0 \<le> soft_retry_no st \<Longrightarrow> retry_do c st = Some (False, st)"
  by (simp add: retry_do_def NUM_SOFT_RETRIES_def)

lemma burst_command_resets_retries:
  "adbg_burst_command c opcode addr n st = Some (0, st') \<Longrightarrow> soft_retry_no st' = 0"
  by (auto simp: adbg_burst_command_def Let_def retry_ok_def split: Option.bind_splits if_splits simp del: run_all.simps)

lemma bus_check_retry_bound:
  "burst_bus_check c ws start fix retries err st = Some (Bus_Retry i addr e, st') \<Longrightarrow> retries < MAX_BUS_ERRORS"
  by (auto simp: burst_bus_check_def Let_def split: Option.bind_splits if_splits)

lemma read_attempt_again:
  assumes "burst_read_attempt c opcode ws wc start retries i addr err st = Some (Burst_Again r i' a' e', d, st')"
  shows "r = Suc retries \<and> retries < MAX_BUS_ERRORS"
  using assms unfolding burst_read_attempt_def Let_def
  by (auto simp del: run_all.simps simp: err_simps retry_do_refuses
      split: if_splits Option.bind_splits option.splits bus_check.splits
      dest!: burst_command_resets_retries keepsD [OF keeps_xilinx_kludge [of soft_retry_no], OF chain_indep_fields(1)]
        keepsD [OF keeps_tap_moves(1) [of soft_retry_no], OF chain_indep_fields(1)]
        keepsD [OF keeps_tap_moves(2) [of soft_retry_no], OF chain_indep_fields(1)]
        keeps2D [OF keeps_burst_wait_status [of soft_retry_no], OF chain_indep_fields(1)]
        keeps2D [OF keeps_burst_read_data [of soft_retry_no], OF scratch_indep_fields(1)] bus_check_retry_bound)

lemma write_attempt_again:
  assumes "burst_write_attempt c data opcode ws wc start retries i addr err st = Some (Burst_Again r i' a' e', st')"
  shows "r = Suc retries \<and> retries < MAX_BUS_ERRORS"
  using assms unfolding burst_write_attempt_def Let_def
  by (auto simp del: run_all.simps simp: err_simps retry_do_refuses
      split: if_splits Option.bind_splits option.splits bus_check.splits
      dest!: burst_command_resets_retries keepsD [OF keeps_start_bit [of soft_retry_no], OF chain_indep_fields(1)]
        keeps2D [OF keeps_burst_write_match [of soft_retry_no], OF chain_indep_fields(1)]
        keeps2D [OF keeps_burst_write_data [of soft_retry_no], OF scratch_indep_fields(1)] bus_check_retry_bound)

lemma read_loop_fuel:
  "retries \<le> MAX_BUS_ERRORS \<Longrightarrow> MAX_BUS_ERRORS - retries < fuel \<Longrightarrow> MAX_BUS_ERRORS - retries < fuel' \<Longrightarrow>
   burst_read_loop c opcode ws wc start fuel retries i addr err data st
     = burst_read_loop c opcode ws wc start fuel' retries i addr err data st"
proof (induction fuel arbitrary: fuel' retries i addr err data st)
  case 0
  then show ?case by simp
next
  case (Suc fuel)
  then obtain f where f: "fuel' = Suc f" by (cases fuel') auto
  show ?case
    using Suc.prems unfolding f
    by (auto simp: Let_def intro!: Option.bind_cong [OF refl] split: burst_step.splits
        dest!: read_attempt_again intro!: Suc.IH)
qed

lemma write_loop_fuel:
  "retries \<le> MAX_BUS_ERRORS \<Longrightarrow> MAX_BUS_ERRORS - retries < fuel \<Longrightarrow> MAX_BUS_ERRORS - retries < fuel' \<Longrightarrow>
   burst_write_loop c data opcode ws wc start fuel retries i addr err st
     = burst_write_loop c data opcode ws wc start fuel' retries i addr err st"
proof (induction fuel arbitrary: fuel' retries i addr err st)
  case 0
  then show ?case by simp
next
  case (Suc fuel)
  then obtain f where f: "fuel' = Suc f" by (cases fuel') auto
  show ?case
    using Suc.prems unfolding f
    by (auto intro!: Option.bind_cong [OF refl] split: burst_step.splits dest!: write_attempt_again intro!: Suc.IH)
qed

subsection \<open>Data is accepted only with a matching CRC\<close>

lemma burst_read_data_refused: "burst_read_data c ws wc err st = Some (e, None, st') \<Longrightarrow> e \<noteq> 0"
  by (auto simp: burst_read_data_def Let_def APP_ERR_NONE_def split: if_splits Option.bind_splits prod.splits)

lemma burst_read_data_no_error: "burst_read_data c ws wc err st = Some (e, Some x, st') \<Longrightarrow> err = 0"
  by (auto simp: burst_read_data_def Let_def APP_ERR_NONE_def err_simps split: if_splits Option.bind_splits prod.splits)

lemma bus_check_no_error: "burst_bus_check c ws start fix retries err st = Some (Bus_Ok 0, st') \<Longrightarrow> err = 0"
  by (auto simp: burst_bus_check_def Let_def err_simps split: Option.bind_splits if_splits)

lemma bus_check_max_error: "burst_bus_check c ws start fix retries err st = Some (Bus_Max e, st') \<Longrightarrow> e \<noteq> 0"
  by (auto simp: burst_bus_check_def Let_def err_simps APP_ERR_MAX_BUS_ERR_def split: Option.bind_splits if_splits)

definition crc_accepted :: "'s jtag_cable_t \<Rightarrow> int \<Rightarrow> int \<Rightarrow> u8 list option \<Rightarrow> bool" where
  "crc_accepted c ws wc d \<longleftrightarrow> (\<exists>bs st1 st2. d = Some bs \<and>
     burst_read_data c ws wc 0 st1 = Some (0, Some (bs, crc_of_bytes 0xffffffff bs), st2))"

lemma read_attempt_accepts:
  assumes "burst_read_attempt c opcode ws wc start retries i addr err st = Some (Burst_Return 0, d, st')"
  shows "crc_accepted c ws wc d"
  using assms unfolding burst_read_attempt_def Let_def crc_accepted_def
  by (fastforce simp del: run_all.simps simp: err_simps APP_ERR_MAX_RETRY_def APP_ERR_CRC_def
      split: if_splits Option.bind_splits option.splits bus_check.splits
      dest: burst_read_data_refused burst_read_data_no_error bus_check_no_error bus_check_max_error)

lemma read_loop_accepts:
  "burst_read_loop c opcode ws wc start fuel retries i addr err data st = Some (0, d, st') \<Longrightarrow> crc_accepted c ws wc d"
proof (induction fuel arbitrary: retries i addr err data st)
  case 0
  then show ?case by simp
next
  case (Suc fuel)
  from Suc.prems obtain r d1 st1 where r: "burst_read_attempt c opcode ws wc start retries i addr err st = Some (r, d1, st1)"
    "(case r of Burst_Return err \<Rightarrow> Some (err, (case d1 of Some bs \<Rightarrow> Some bs | None \<Rightarrow> data), st1)
      | Burst_Again retries i addr err \<Rightarrow>
          burst_read_loop c opcode ws wc start fuel retries i addr err (case d1 of Some bs \<Rightarrow> Some bs | None \<Rightarrow> data) st1)
     = Some (0, d, st')"
    by (auto simp: Let_def split: Option.bind_splits)
  show ?case
  proof (cases r)
    case (Burst_Return e)
    with r have "crc_accepted c ws wc d1" by (intro read_attempt_accepts) auto
    moreover from this have "d = d1" using r(2) Burst_Return by (auto simp: crc_accepted_def)
    ultimately show ?thesis by simp
  next
    case (Burst_Again n j a e)
    with r(2) show ?thesis by (simp add: Suc.IH)
  qed
qed

subsection \<open>Buffers\<close>

lemma check_buffer_size_granted:
  assumes "scratch_inv b" and "False \<notin> set os" and "0 < n"
  obtains b' os' p where "check_buffer_size b n os = (APP_ERR_NONE, b', os')" "scratch_inv b'"
    "buf b' = Some p" "n \<le> int (length p)" "False \<notin> set os'"
proof (cases "n \<le> buf_size_bytes b")
  case True
  with assms obtain p where "buf b = Some p" by (auto simp: scratch_inv_def split: option.splits)
  with True assms show thesis by (intro that [of b os p]) (auto simp: check_buffer_size_def scratch_inv_def)
next
  case False
  define b' where "b' = b\<lparr>buf := Some (replicate (nat n) 0), buf_size_bytes := n\<rparr>"
  have "malloc n os = (Some (replicate (nat n) 0), tl os)"
    using assms(2) by (cases os) (auto simp: malloc_def)
  with False have "check_buffer_size b n os = (APP_ERR_NONE, b', tl os)"
    by (simp add: check_buffer_size_def b'_def)
  moreover have "False \<notin> set (tl os)" using assms(2) by (cases os) auto
  ultimately show thesis
    using assms(3) by (intro that [of b' "tl os" "replicate (nat n) 0"]) (auto simp: b'_def scratch_inv_def)
qed

subsection \<open>The payload of a burst write\<close>

context jtag_cable
begin

lemma write_payload:
  assumes "ok (cable st)" and "scratch_inv (output_scratchpad st)"
    and "False \<notin> set (mallocs st)" and "w \<in> {1, 2, 4}" and "0 < n" and data: "length data = n * w"
  obtains st' where "burst_write_data c data (int w) (int n) 0 st = Some (0, Some (), st')" "ok (cable st')"
    "dev (cable st') = fold step (data_packets (bits_of_bytes data
          @ map (bit (fold new_crc (bits_of_bytes data) 0xffffffff)) [0..<32])) (dev (cable st))"
proof -
  define crc where "crc = fold new_crc (bits_of_bytes data) 0xffffffff"
  define m where "m = n * w + 4"
  have m: "0 < m" "int n * int w + 4 = int m" "nat (int n * int w) = n * w"
    by (simp_all add: m_def nat_mult_distrib)
  have neg: "\<not> int n * int w < 0" by (simp add: not_less)
  have crc: "burst_write_crc data (int w) 0 n 0xffffffff = Some crc"
    using burst_write_crc_bytes [OF assms(4), of 0 n data] data by (simp add: crc_def crc_of_bytes_hw)
  obtain b' os' p where b': "check_buffer_size (output_scratchpad st) (int m) (mallocs st) = (0, b', os')"
    "buf b' = Some p" "m \<le> length p"
    using check_buffer_size_granted [OF assms(2,3), of "int m"] m(1)
    by (metis APP_ERR_NONE_def of_nat_0_less_iff of_nat_le_iff)
  define q where "q = data @ [byte_of crc 0, byte_of crc 1, byte_of crc 2, byte_of crc 3] @ drop m p"
  have qs: "data @ byte_of crc 0 # byte_of crc (Suc 0) # byte_of crc 2 # byte_of crc 3 # drop m p = q"
    by (simp add: q_def)
  define st1 where "st1 = st\<lparr>mallocs := os', output_scratchpad := b'\<lparr>buf := Some q\<rparr>\<rparr>"
  have len: "m \<le> length q" using b'(3) data by (simp add: q_def m_def)
  have "take m q = data @ [byte_of crc 0, byte_of crc 1, byte_of crc 2, byte_of crc 3]"
    by (simp add: q_def m_def data)
  then have bits: "stream_bits (words_of_bytes q) (8 * m) = bits_of_bytes data @ map (bit crc) [0..<32]"
    unfolding stream_bits_bytes [OF len] by (simp only: bits_of_bytes_simps(3) bits_of_crc_bytes)
  have room: "8 * m \<le> 32 * length (words_of_bytes q)"
    using len by (simp add: length_words_of_bytes)
  obtain s' where s': "jtag_write_stream c (words_of_bytes q) (int m * 8) False st1 = Some (0, st1\<lparr>cable := s'\<rparr>)"
    "ok s'" "dev s' = fold step (stream_packets (words_of_bytes q) (8 * m) False) (dev (cable st1))"
    using clk_apply [OF clk_write_stream_plain [OF _ room, of "int m * 8" st1]] assms(1) m(1)
    by (auto simp: st1_def)
  show thesis
  proof (rule that)
    show "burst_write_data c data (int w) (int n) 0 st = Some (0, Some (), st1\<lparr>cable := s'\<rparr>)"
      using s'(1) neg
      by (simp add: burst_write_data_def Let_def crc m b' data qs st1_def APP_ERR_NONE_def
          m_def [symmetric])
    show "dev (cable (st1\<lparr>cable := s'\<rparr>)) = fold step (data_packets (bits_of_bytes data
          @ map (bit (fold new_crc (bits_of_bytes data) 0xffffffff)) [0..<32])) (dev (cable st))"
      using s'(3) by (simp add: stream_packets_data bits crc_def st1_def)
  qed (use s'(2) in simp)
qed

end

subsection \<open>Every burst read returns on a working cable\<close>

definition dbg_ready :: "('s \<Rightarrow> bool) \<Rightarrow> 's jtag \<Rightarrow> bool" where
  "dbg_ready ok st \<longleftrightarrow> ok (cable st) \<and> current_chain st = desired_chain st \<and> current_chain st \<in> {DC_WISHBONE, DC_CPU0, DC_CPU1}
     \<and> length (current_reg_idx st) = DBG_MAX_MODULES \<and> \<not> global_xilinx_bscan st
     \<and> scratch_inv (input_scratchpad st) \<and> scratch_inv (output_scratchpad st)
     \<and> False \<notin> set (mallocs st) \<and> 0 \<le> soft_retry_no st"

lemma dbg_ready_cable: "dbg_ready ok st \<Longrightarrow> ok s \<Longrightarrow> dbg_ready ok (st\<lparr>cable := s\<rparr>)"
  by (auto simp: dbg_ready_def)

lemma dbg_ready_retry_ok: "dbg_ready ok st \<Longrightarrow> dbg_ready ok (retry_ok st)"
  by (auto simp: dbg_ready_def retry_ok_def)

lemma dbg_ready_reg_idx:
  assumes "dbg_ready ok st"
  obtains i st' where "reg_idx_at st = Some i" "reg_idx_put r st = Some st'" "dbg_ready ok st'"
  using assms by (auto simp: dbg_ready_def reg_idx_at_def reg_idx_put_def DBG_MAX_MODULES_def dc_defs)

lemma dbg_ready_cmds:
  assumes "dbg_ready ok st"
  shows "ireg_sel_cmd (current_chain st) = Some (1, 0xd)" "ireg_wr_cmd (current_chain st) = Some (1, 0x9)"
    "nop_cmd (current_chain st) = Some (0, 4)"
  using assms by (auto simp: dbg_ready_def ireg_sel_cmd_def ireg_wr_cmd_def nop_cmd_def dbg_cmd_defs dc_defs)

lemma select_module_ready: "dbg_ready ok st \<Longrightarrow> adbg_select_module c (desired_chain st) st = Some (0, st)"
  by (simp add: dbg_ready_def adbg_select_module_def APP_ERR_NONE_def)

context jtag_cable
begin

lemma read_write_stream_ok:
  assumes "ok (cable st)" and n: "0 < n" "n \<le> 32 * length ws" "n \<le> 32 * length ins" "m = int n"
  obtains s' ins' where "jtag_read_write_stream c ws ins m adjust l st = Some (0, ins', st\<lparr>cable := s'\<rparr>)" "ok s'"
    "length ins' = length ins"
proof -
  obtain s0 where s0: "(if adjust \<and> global_DR_postfix_bits st > 0
      then run_all (replicate (nat (global_DR_postfix_bits st)) (jtag_write_bit c 0)) st
      else Some (0, st)) = Some (0, st\<lparr>cable := s0\<rparr>)" "ok s0"
  proof (cases "adjust \<and> global_DR_postfix_bits st > 0")
    case True
    then show thesis
      using clk_apply [OF clk_bits [of st "replicate (nat (global_DR_postfix_bits st)) 0"] assms(1)] that by auto
  next
    case False
    then show thesis by (intro that [of "cable st"]) (auto simp: assms(1))
  qed
  have read: "\<exists>s1 ins'. on_cable_read_stream c ws ins m b (st\<lparr>cable := s0\<rparr>) = Some (0, ins', st\<lparr>cable := s1\<rparr>)
      \<and> ok s1 \<and> length ins' = length ins" for b
  proof -
    obtain s1 where "stream_inout_func c ws ins m b s0 = Some (0, pack_bits (tdo_trace step tdo (stream_packets ws n b) (dev s0))
        @ drop ((n + 31) div 32) ins, s1)" "ok s1"
      using stream_inout [OF s0(2) n(1-3), of b] n(4) by auto
    moreover have "(n + 31) div 32 \<le> length ins"
    proof -
      have "(n + 31) div 32 \<le> (32 * length ins + 31) div 32" using n(3) by (intro div_le_mono) simp
      also have "\<dots> = length ins" by simp
      finally show ?thesis .
    qed
    ultimately show ?thesis
      by (simp add: on_cable_read_stream_def cable_read_write_stream_def length_pack_bits)
  qed
  show thesis
  proof (cases "l \<and> global_DR_prefix_bits st \<noteq> 0")
    case True
    obtain s1 ins' where s1: "on_cable_read_stream c ws ins m False (st\<lparr>cable := s0\<rparr>) = Some (0, ins', st\<lparr>cable := s1\<rparr>)"
      "ok s1" "length ins' = length ins" using read by blast
    have "ok (cable (st\<lparr>cable := s1\<rparr>))" using s1(2) by simp
    from clk_apply [OF clk_bits this] obtain s2 where
      "run_all (map (jtag_write_bit c) (replicate (nat (global_DR_prefix_bits st - 1)) 0 @ [TMS])) (st\<lparr>cable := s1\<rparr>)
        = Some (0, st\<lparr>cable := s1, cable := s2\<rparr>)" "ok s2" by blast
    moreover from this have "run_all (prefix_ops c (st\<lparr>cable := s1\<rparr>)) (st\<lparr>cable := s1\<rparr>) = Some (0, st\<lparr>cable := s2\<rparr>)"
      unfolding prefix_ops_bits by simp
    moreover from this have "jtag_read_write_stream c ws ins m adjust l st = Some (0, ins', st\<lparr>cable := s2\<rparr>)"
      unfolding jtag_read_write_stream_def APP_ERR_NONE_def s0(1) using True s1 by simp
    ultimately show thesis using s1(3) that by blast
  next
    case False
    obtain s1 ins' where "on_cable_read_stream c ws ins m l (st\<lparr>cable := s0\<rparr>) = Some (0, ins', st\<lparr>cable := s1\<rparr>)"
      "ok s1" "length ins' = length ins" using read by blast
    moreover from this have "jtag_read_write_stream c ws ins m adjust l st = Some (0, ins', st\<lparr>cable := s1\<rparr>)"
      unfolding jtag_read_write_stream_def APP_ERR_NONE_def s0(1) using False by (cases l) auto
    ultimately show thesis using that by blast
  qed
qed

definition runs :: "'s jtag op \<Rightarrow> bool" where
  "runs f \<longleftrightarrow> (\<forall>st. dbg_ready ok st \<longrightarrow> (\<exists>st'. f st = Some (0, st') \<and> dbg_ready ok st'))"

lemma runs_clk: "(\<And>st. clk st f (ps st)) \<Longrightarrow> runs f"
  unfolding runs_def
proof (intro allI impI)
  fix st assume clk: "\<And>st. clk st f (ps st)" and ready: "dbg_ready ok st"
  then have "ok (cable st)" by (simp add: dbg_ready_def)
  from clk_apply [OF clk this] obtain s' where "f st = Some (0, st\<lparr>cable := s'\<rparr>)" "ok s'" by blast
  with ready show "\<exists>st'. f st = Some (0, st') \<and> dbg_ready ok st'" by (auto intro: dbg_ready_cable)
qed

lemma runsD: "runs f \<Longrightarrow> dbg_ready ok st \<Longrightarrow> \<exists>st'. f st = Some (0, st') \<and> dbg_ready ok st'"
  by (simp add: runs_def)

lemma runs_run_all: "(\<And>f. f \<in> set fs \<Longrightarrow> runs f) \<Longrightarrow> runs (run_all fs)"
proof (induction fs)
  case Nil
  show ?case by (simp add: runs_def)
next
  case (Cons f fs)
  then have "runs f" "runs (run_all fs)" by simp_all
  then show ?case unfolding runs_def by fastforce
qed

lemma runs_moves: "runs (tap_set_shift_dr c)" "runs (tap_exit_to_idle c)" "runs (jtag_write_bit c p)"
  by (rule runs_clk, rule clk_shift_dr clk_exit_to_idle clk_write_bit)+

lemma runs_write_stream: "0 < n \<Longrightarrow> n \<le> 32 * length ws \<Longrightarrow> m = int n \<Longrightarrow> runs (jtag_write_stream c ws m l)"
  by (cases l) (auto intro!: runs_clk clk_write_stream_tms clk_write_stream_plain)

lemma runs_select_ctrl_reg: "runs (adbg_select_ctrl_reg c r)"
  unfolding runs_def
proof (intro allI impI)
  fix st assume ready: "dbg_ready ok st"
  then obtain i where i: "reg_idx_at st = Some i" by (rule dbg_ready_reg_idx)
  show "\<exists>st'. adbg_select_ctrl_reg c r st = Some (0, st') \<and> dbg_ready ok st'"
  proof (cases "i = r")
    case True
    with ready i show ?thesis by (simp add: adbg_select_ctrl_reg_def select_module_ready APP_ERR_NONE_def)
  next
    case False
    have "runs (run_all [tap_set_shift_dr c, jtag_write_stream c [reg_command 0xd 1 r] 6 True, tap_exit_to_idle c])"
      by (rule runs_run_all) (auto intro: runs_moves runs_write_stream [of 6])
    then obtain st1 where st1: "run_all [tap_set_shift_dr c, jtag_write_stream c [reg_command 0xd 1 r] 6 True, tap_exit_to_idle c] st
        = Some (0, st1)" "dbg_ready ok st1" using runsD ready by blast
    obtain st2 where "reg_idx_put r (retry_ok st1) = Some st2" "dbg_ready ok st2"
      using dbg_ready_reg_idx [OF dbg_ready_retry_ok [OF st1(2)]] by blast
    with False ready i st1 show ?thesis
      by (simp add: adbg_select_ctrl_reg_def select_module_ready dbg_ready_cmds APP_ERR_NONE_def del: run_all.simps)
  qed
qed

lemma runs_ctrl_write: "0 < n \<Longrightarrow> n \<le> 32 * length ws \<Longrightarrow> m = int n \<Longrightarrow> runs (adbg_ctrl_write c r ws m)"
  unfolding runs_def
proof (intro allI impI)
  fix st assume n: "0 < n" "n \<le> 32 * length ws" "m = int n" and ready: "dbg_ready ok st"
  let ?ops = "[tap_set_shift_dr c, jtag_write_stream c ws m False, jtag_write_stream c [reg_command 0x9 1 r] 6 True, tap_exit_to_idle c]"
  have "runs (run_all ?ops)"
    using n by (intro runs_run_all) (auto intro: runs_moves runs_write_stream [of 6] runs_write_stream [of n])
  then obtain st1 where st1: "run_all ?ops st = Some (0, st1)" "dbg_ready ok st1" using runsD ready by blast
  obtain st2 where "reg_idx_put r (retry_ok st1) = Some st2" "dbg_ready ok st2"
    using dbg_ready_reg_idx [OF dbg_ready_retry_ok [OF st1(2)]] by blast
  with ready st1 show "\<exists>st'. adbg_ctrl_write c r ws m st = Some (0, st') \<and> dbg_ready ok st'"
    by (simp add: adbg_ctrl_write_def select_module_ready dbg_ready_cmds del: run_all.simps)
qed

lemma ctrl_read_ok:
  assumes ready: "dbg_ready ok st" and n: "0 < n" "n \<le> 128" "n \<le> 32 * length data" "m = int n"
  obtains st' data' where "adbg_ctrl_read c r data m st = Some (0, Some data', st')" "dbg_ready ok st'"
    "length data' = length data"
proof -
  obtain st1 where st1: "adbg_select_ctrl_reg c r st = Some (0, st1)" "dbg_ready ok st1"
    using runsD [OF runs_select_ctrl_reg ready] by blast
  obtain st2 where st2: "tap_set_shift_dr c st1 = Some (0, st2)" "dbg_ready ok st2"
    using runsD [OF runs_moves(1) st1(2)] by blast
  obtain s3 data' where s3: "jtag_read_write_stream c [0, 0, 0, 0] data m True False st2 = Some (0, data', st2\<lparr>cable := s3\<rparr>)"
    "ok s3" "length data' = length data"
  proof (rule read_write_stream_ok [of st2 n "[0, 0, 0, 0]" data m True False])
    show "ok (cable st2)" using st2(2) by (simp add: dbg_ready_def)
  qed (use n in auto)
  have "runs (run_all [jtag_write_stream c [0, 0, 0, 0] 5 True, tap_exit_to_idle c])"
    by (rule runs_run_all) (auto intro: runs_moves runs_write_stream [of 5])
  then obtain st4 where "run_all [jtag_write_stream c [0, 0, 0, 0] 5 True, tap_exit_to_idle c] (st2\<lparr>cable := s3\<rparr>) = Some (0, st4)"
    "dbg_ready ok st4" using runsD dbg_ready_cable [OF st2(2) s3(2)] by blast
  then show thesis
    using st1 st2 s3 select_module_ready [OF ready] dbg_ready_cmds(3) [OF st1(2)]
    by (intro that [of data' "retry_ok st4"])
      (simp_all add: adbg_ctrl_read_def dbg_ready_retry_ok del: run_all.simps)
qed

lemma wait_status_ok:
  "dbg_ready ok st \<Longrightarrow> \<exists>r st'. burst_wait_status c n st = Some (0, r, st') \<and> dbg_ready ok st'"
proof (induction n arbitrary: st)
  have bit: "\<exists>b st'. jtag_read_write_bit c 0 st = Some (0, b, st') \<and> dbg_ready ok st'" if ready: "dbg_ready ok st" for st
  proof -
    have "ok (cable st)" using ready by (simp add: dbg_ready_def)
    from bit_inout [OF this, of 0] obtain s' where "bit_inout_func c 0 (cable st) = Some (0, of_bool (tdo (dev (cable st))), s')" "ok s'"
      by blast
    with ready show ?thesis
      by (auto simp: jtag_read_write_bit_def cable_read_write_bit_def intro: dbg_ready_cable)
  qed
  {
    case 0
    from bit [OF 0] show ?case by (auto simp: burst_wait_status.simps)
  next
    case (Suc n)
    from bit [OF Suc.prems] obtain b st1 where b: "jtag_read_write_bit c 0 st = Some (0, b, st1)" "dbg_ready ok st1" by blast
    from Suc.IH [OF b(2)] obtain r st2 where "burst_wait_status c n st1 = Some (0, r, st2)" "dbg_ready ok st2" by blast
    with b show ?case by (subst burst_wait_status.simps) (cases "b = 0"; auto)
  }
qed

lemma read_data_ok:
  assumes ready: "dbg_ready ok st" and nonneg: "0 \<le> wc * ws"
  shows "\<exists>x st'. burst_read_data c ws wc 0 st = Some (0, Some x, st') \<and> dbg_ready ok st'"
proof -
  define n where "n = nat (wc * ws)"
  have n: "wc * ws = int n" using nonneg by (simp add: n_def)
  have inv: "scratch_inv (input_scratchpad st)" "scratch_inv (output_scratchpad st)" "False \<notin> set (mallocs st)"
    using ready by (simp_all add: dbg_ready_def)
  have pos: "0 < int n + 4" by simp
  obtain inp os q where inp: "check_buffer_size (input_scratchpad st) (int n + 4) (mallocs st) = (APP_ERR_NONE, inp, os)"
    "scratch_inv inp" "buf inp = Some q" "int n + 4 \<le> int (length q)" "False \<notin> set os"
    using check_buffer_size_granted [OF inv(1,3) pos] by blast
  obtain out os' p where out: "check_buffer_size (output_scratchpad st) (int n + 4) os = (APP_ERR_NONE, out, os')"
    "scratch_inv out" "buf out = Some p" "int n + 4 \<le> int (length p)" "False \<notin> set os'"
    using check_buffer_size_granted [OF inv(2) inp(5) pos] by blast
  define p' where "p' = replicate (n + 4) 0 @ drop (n + 4) p"
  define st1 where "st1 = st\<lparr>input_scratchpad := inp, mallocs := os', output_scratchpad := out\<lparr>buf := Some p'\<rparr>\<rparr>"
  have len: "length p' = length p" "n + 4 \<le> length p" "n + 4 \<le> length q" using inp(4) out(4) by (simp_all add: p'_def)
  have st1: "dbg_ready ok st1"
    using ready inp(2) out(2,3,5) len(1) by (auto simp: st1_def dbg_ready_def scratch_inv_def)
  have "ok (cable st1)" using st1 by (simp add: dbg_ready_def)
  moreover have "0 < 8 * (n + 4)" "8 * (n + 4) \<le> 32 * length (words_of_bytes p')" "8 * (n + 4) \<le> 32 * length (words_of_bytes q)"
    using len by (simp_all add: length_words_of_bytes)
  ultimately obtain s' ws' where s': "jtag_read_write_stream c (words_of_bytes p') (words_of_bytes q) (int (8 * (n + 4))) False True st1
      = Some (0, ws', st1\<lparr>cable := s'\<rparr>)" "ok s'" "length ws' = length (words_of_bytes q)"
    by (metis read_write_stream_ok)
  define q' where "q' = overlay q ws'"
  have q': "length q' = length q" using s'(3) by (simp add: q'_def overlay_def length_words_of_bytes)
  define st2 where "st2 = st1\<lparr>cable := s', input_scratchpad := inp\<lparr>buf := Some q'\<rparr>\<rparr>"
  have "dbg_ready ok st2"
    using dbg_ready_cable [OF st1 s'(2)] inp(2,3) q' by (auto simp: st2_def dbg_ready_def scratch_inv_def)
  moreover have bits: "int (8 * (n + 4)) = (int n + 4) * 8" by simp
  have "burst_read_data c ws wc 0 st =
      Some (0, Some (take n q', word_of_bytes (q' ! n) (q' ! (n + 1)) (q' ! (n + 2)) (q' ! (n + 3))), st2)"
    using s'(1) [unfolded bits] len q' nonneg
    by (simp add: burst_read_data_def Let_def n inp(1,3) out(1,3) APP_ERR_NONE_def p'_def [symmetric] q'_def [symmetric]
        st1_def st2_def)
  ultimately show ?thesis by blast
qed

lemma ctrl_read_pair:
  assumes "dbg_ready ok st" and "length data = 2" and "0 < n" "n \<le> 64"
  shows "\<exists>data' st'. adbg_ctrl_read c r data (int n) st = Some (0, Some data', st') \<and> dbg_ready ok st' \<and> length data' = 2"
  by (rule ctrl_read_ok [OF assms(1), of n data "int n" r]) (use assms(2-4) in auto)

lemma bus_check_ok:
  assumes ready: "dbg_ready ok st" and ws: "of_int ws \<noteq> (0 :: u32)" and fix_len: "\<And>d. length (fix d) = length d"
  shows "\<exists>b st'. burst_bus_check c ws start fix retries err st = Some (b, st') \<and> dbg_ready ok st'"
proof -
  obtain st1 d1 where r1: "adbg_ctrl_read c DBG_WB_REG_ERROR [0, 0] 1 st = Some (0, Some d1, st1)" "dbg_ready ok st1" "length d1 = 2"
    using ctrl_read_pair [OF ready, of "[0, 0]" 1 DBG_WB_REG_ERROR] by auto
  obtain st2 d2 where r2: "adbg_ctrl_read c DBG_WB_REG_ERROR d1 33 st1 = Some (0, Some d2, st2)" "dbg_ready ok st2" "length d2 = 2"
    using ctrl_read_pair [OF r1(2,3), of 33 DBG_WB_REG_ERROR] by auto
  obtain st3 where r3: "adbg_ctrl_write c DBG_WB_REG_ERROR (fix d2) 1 st2 = Some (0, st3)" "dbg_ready ok st3"
    using runsD [OF runs_ctrl_write [of 1 "fix d2" 1] r2(2)] fix_len [of d2] r2(3) by auto
  show ?thesis
    using r1 r2 r3 ws by (auto simp: burst_bus_check_def Let_def)
qed

lemma read_attempt_ok:
  assumes ready: "dbg_ready ok st" and "0 \<le> wc * ws" and "of_int ws \<noteq> (0 :: u32)"
  shows "\<exists>r d st'. burst_read_attempt c opcode ws wc start retries i addr err st = Some (r, d, st') \<and> dbg_ready ok st'"
proof -
  obtain s' where s': "adbg_burst_command c opcode addr (wc - i) st = Some (0, st\<lparr>cable := s', soft_retry_no := 0\<rparr>)" "ok s'"
    using burst_command_succeeds [of st opcode addr "wc - i"] ready by (auto simp: dbg_ready_def)
  define st1 where "st1 = st\<lparr>cable := s', soft_retry_no := 0\<rparr>"
  have st1: "dbg_ready ok st1" "\<not> global_xilinx_bscan st1"
    using ready s'(2) by (auto simp: st1_def dbg_ready_def)
  obtain st2 where st2: "tap_set_shift_dr c st1 = Some (0, st2)" "dbg_ready ok st2"
    using runsD [OF runs_moves(1) st1(1)] by blast
  obtain got st3 where st3: "burst_wait_status c MAX_READ_STATUS_WAIT st2 = Some (0, got, st3)" "dbg_ready ok st3"
    using wait_status_ok [OF st2(2)] by blast
  obtain x st4 where st4: "burst_read_data c ws wc 0 st3 = Some (0, Some x, st4)" "dbg_ready ok st4"
    using read_data_ok [OF st3(2) assms(2)] by blast
  obtain st5 where st5: "tap_exit_to_idle c st4 = Some (0, st5)" "dbg_ready ok st5"
    using runsD [OF runs_moves(2) st4(2)] by blast
  obtain b st6 where st6: "burst_bus_check c ws start (\<lambda>d. d[0 := 1]) retries 0 st5 = Some (b, st6)" "dbg_ready ok st6"
    using bus_check_ok [OF st5(2) assms(3), of "\<lambda>d. d[0 := 1]" start retries 0] by auto
  have retry: "retry_do c st3 = Some (False, st3)" "retry_do c st5 = Some (False, st5)"
    using st3(2) st5(2) by (auto simp: dbg_ready_def intro: retry_do_refuses)
  show ?thesis
    using ready s'(1) st1 st2 st3 st4 st5 st6 retry
    by (cases "err = 0"; cases got; cases x; cases b)
      (auto simp: burst_read_attempt_def Let_def st1_def [symmetric] dbg_ready_retry_ok)
qed

lemma read_loop_ok:
  assumes "0 \<le> wc * ws" and "of_int ws \<noteq> (0 :: u32)"
  shows "dbg_ready ok st \<Longrightarrow> retries \<le> MAX_BUS_ERRORS \<Longrightarrow> MAX_BUS_ERRORS - retries < fuel \<Longrightarrow>
    \<exists>e d st'. burst_read_loop c opcode ws wc start fuel retries i addr err data st = Some (e, d, st') \<and> dbg_ready ok st'"
proof (induction fuel arbitrary: retries i addr err data st)
  case 0
  then show ?case by simp
next
  case (Suc fuel)
  obtain r d st1 where r: "burst_read_attempt c opcode ws wc start retries i addr err st = Some (r, d, st1)" "dbg_ready ok st1"
    using read_attempt_ok [OF Suc.prems(1) assms] by blast
  show ?case
  proof (cases r)
    case (Burst_Return e)
    with r show ?thesis by simp
  next
    case (Burst_Again k j a e)
    with read_attempt_again r(1) have "k = Suc retries" "retries < MAX_BUS_ERRORS" by blast+
    with Suc.IH [OF r(2), of k] Suc.prems r(1) Burst_Again show ?thesis by (auto simp: Let_def)
  qed
qed

end

subsection \<open>The frame of the JTAG serial port\<close>

lemma bits_of_byte_expand:
  "bits_of_byte b = [bit b 0, bit b 1, bit b 2, bit b 3, bit b 4, bit b 5, bit b 6, bit b 7]"
  by (simp add: bits_of_byte_def upt_rec numeral_eq_Suc)

lemma bits_jsp_shifted:
  "w = 0 \<or> w = 1 \<Longrightarrow> bits_of_bytes (jsp_shifted w bs) = bit w 0 # bits_of_bytes bs @ replicate 7 False"
proof (induction bs arbitrary: w)
  case Nil
  then show ?case by (auto simp: bits_of_byte_expand numeral_eq_Suc)
next
  case (Cons b bs)
  have carry: "drop_bit 7 b AND 1 = (if bit b 7 then 1 else 0)"
    by (simp add: and_one_eq bit_iff_odd_drop_bit mod_2_eq_odd)
  then have "drop_bit 7 b AND 1 = 0 \<or> drop_bit 7 b AND 1 = 1" "bit (drop_bit 7 b AND 1) 0 = bit b 7" by auto
  moreover have "bit (push_bit 1 b OR w) n = (if n = 0 then bit w 0 else bit b (n - 1))" if "n < 8" for n
    using Cons.prems that by (simp only: bit_or_iff bit_push_bit_iff) (auto simp: bit_1_iff)
  then have "bits_of_byte (push_bit 1 b OR w) = [bit w 0, bit b 0, bit b 1, bit b 2, bit b 3, bit b 4, bit b 5, bit b 6]"
    by (simp add: bits_of_byte_expand)
  ultimately show ?case
    using Cons.IH by (simp add: bits_of_byte_expand [of b])
qed

lemma length_jsp_shifted [simp]: "length (jsp_shifted w bs) = Suc (length bs)"
  by (induction bs arbitrary: w) auto

lemma bits_jsp_outdata:
  assumes "length data \<le> 8"
  shows "length (jsp_outdata data) = 10"
    and "bits_of_bytes (jsp_outdata data) = True # replicate 4 False @ map (bit (of_nat (length data) :: u8)) [0..<4]
       @ bits_of_bytes data @ replicate (7 + 8 * (8 - length data)) False"
proof -
  define n where "n = (of_nat (length data) :: u8)"
  define w where "w = drop_bit 3 n AND 1"
  have w: "w = (if bit n 3 then 1 else 0)"
    by (simp add: w_def and_one_eq bit_iff_odd_drop_bit mod_2_eq_odd)
  then have "w = 0 \<or> w = 1" "bit w 0 = bit n 3" by auto
  note sh = bits_jsp_shifted [OF this(1), of data, unfolded this(2)]
  have "bit (push_bit 5 n OR 1) k = (if k = 0 then True else 5 \<le> k \<and> bit n (k - 5))" if "k < 8" for k
    using that by (auto simp: bit_or_iff bit_push_bit_iff bit_1_iff)
  then have first: "bits_of_byte (push_bit 5 n OR 1) = [True, False, False, False, False, bit n 0, bit n 1, bit n 2]"
    by (simp add: bits_of_byte_expand)
  have out: "jsp_outdata data = ((push_bit 5 n OR 1) # jsp_shifted w data) @ replicate (8 - length data) 0"
    by (simp add: jsp_outdata_def Let_def n_def w_def)
  then show "length (jsp_outdata data) = 10" using assms by simp
  have zeros: "bits_of_bytes (replicate k 0) = replicate (8 * k) False" for k
    by (induction k) (simp_all add: bits_of_byte_expand numeral_eq_Suc)
  have four: "map (bit n) [0..<4] = [bit n 0, bit n 1, bit n 2, bit n 3]"
    "replicate 4 False = [False, False, False, False]"
    by (simp_all add: upt_rec numeral_eq_Suc)
  have "bits_of_bytes (jsp_outdata data) = bits_of_byte (push_bit 5 n OR 1) @ bits_of_bytes (jsp_shifted w data)
      @ bits_of_bytes (replicate (8 - length data) 0)"
    by (simp only: out bits_of_bytes_simps append_assoc append_Cons)
  then show "bits_of_bytes (jsp_outdata data) = True # replicate 4 False @ map (bit (of_nat (length data) :: u8)) [0..<4]
       @ bits_of_bytes data @ replicate (7 + 8 * (8 - length data)) False"
    unfolding n_def [symmetric] by (simp only: first sh zeros four replicate_add append.simps append_assoc)
qed

subsection \<open>Properties\<close>

text \<open>
  C4. The CRC the bridge computes over a data word is the CRC the hardware unit of adbg_crc32.v has
  after the same bits, least significant first.
\<close>

theorem adbg_compute_crc_is_hardware_crc:
  "adbg_compute_crc crc data n = fold (crc32_posedge False True False) (map (bit data) [0..<n]) crc"
proof -
  have "crc32_posedge False True False = new_crc" by (rule ext)+ (simp add: crc32_posedge_def)
  then show ?thesis by (simp add: compute_crc_hw)
qed

text \<open>
  C5. A burst read of elements of 1, 2 or 4 bytes from the selected module returns on every working
  cable with memory, whatever the hardware answers: after at most eleven passes, and with the
  invariant of the debug unit state kept.
\<close>

theorem adbg_burst_read_returns:
  assumes "jtag_cable c dev ok step tdo" and "dbg_ready ok st" and "w \<in> {1, 2, 4}" and "0 < n"
  shows "\<exists>err data st'. adbg_wb_burst_read c w n addr st = Some (err, data, st') \<and> dbg_ready ok st'"
proof -
  have "burst_read_opcode (current_chain st) w \<noteq> None"
    using assms(2) by (auto simp: burst_read_opcode_def dbg_ready_def)
  then obtain opcode where op: "burst_read_opcode (current_chain st) w = Some opcode" by blast
  have "0 \<le> n * w" "of_int w \<noteq> (0 :: u32)" using assms(3,4) by auto
  from jtag_cable.read_loop_ok [OF assms(1) this assms(2), of 0 burst_fuel opcode addr 0 addr 0 None]
  show ?thesis using op assms(4) by (simp add: adbg_wb_burst_read_def burst_fuel_def APP_ERR_NONE_def)
qed

theorem adbg_burst_read_returns_witness:
  "\<exists>err data st'. adbg_wb_burst_read xess 4 2 0x100 ((board idle_dev)\<lparr>current_chain := 1, desired_chain := 1\<rparr>)
     = Some (err, data, st')"
proof -
  have "dbg_ready (\<lambda>_. True) ((board idle_dev)\<lparr>current_chain := 1, desired_chain := 1\<rparr>)"
    by (simp add: dbg_ready_def dc_defs DBG_MAX_MODULES_def scratch_inv_def)
  from adbg_burst_read_returns [OF xess_cable this, of 4 2 "0x100"] show ?thesis by auto
qed

text \<open>
  C6. A burst read that reports no error returns data that came out of one transfer together with
  a CRC equal to the hardware CRC of exactly these bytes.
\<close>

theorem adbg_burst_read_checked:
  assumes "adbg_wb_burst_read c w n addr st = Some (APP_ERR_NONE, data, st')" and "0 < n"
  shows "\<exists>bs st1 st2. data = Some bs
     \<and> burst_read_data c w n 0 st1 = Some (0, Some (bs, fold new_crc (bits_of_bytes bs) 0xffffffff), st2)"
proof -
  have "crc_accepted c w n data"
    using assms by (auto simp: adbg_wb_burst_read_def APP_ERR_NONE_def split: option.splits dest: read_loop_accepts)
  then show ?thesis by (simp add: crc_accepted_def crc_of_bytes_hw)
qed

text \<open>A cable whose device answers a burst of four zero bytes with their CRC.\<close>

definition zero_reader :: "unit jtag_cable_t" where
  "zero_reader = \<lparr>name = ''zeros'', inout_func = (\<lambda>_ _. None), out_func = (\<lambda>_ _. None), init_func = (\<lambda>_. None),
     opt_func = (\<lambda>_ _ _. None), bit_out_func = (\<lambda>_ s. Some (0, s)), bit_inout_func = (\<lambda>_ s. Some (0, 1, s)),
     stream_out_func = (\<lambda>_ _ _ s. Some (0, s)),
     stream_inout_func = (\<lambda>_ _ _ _ s. Some (0, [0, crc_of_bytes 0xffffffff [0, 0, 0, 0]], s)),
     flush_func = None, opts = None, help_text = None\<rparr>"

lemma word_of_bytes_byte_of: "word_of_bytes (byte_of w 0) (byte_of w 1) (byte_of w 2) (byte_of w 3) = w"
  by (rule bit_word_eqI) (auto simp: bit_word_of_bytes byte_of_def bit_ucast_iff bit_drop_bit_eq)

lemmas zero_reader_ops = zero_reader_def tap_set_shift_dr_def tap_exit_to_idle_def jtag_write_bit_def cable_write_bit_def
  jtag_write_stream_def on_cable_stream_def cable_write_stream_def jtag_read_write_bit_def cable_read_write_bit_def
  jtag_read_write_stream_def on_cable_read_stream_def cable_read_write_stream_def

theorem adbg_burst_read_checked_witness:
  "\<exists>st'. adbg_wb_burst_read zero_reader 4 1 0 ((init_jtag () [])\<lparr>current_chain := 1, desired_chain := 1\<rparr>)
       = Some (APP_ERR_NONE, Some [0, 0, 0, 0], st')
   \<and> (\<exists>st1 st2. burst_read_data zero_reader 4 1 0 st1 =
        Some (0, Some ([0, 0, 0, 0], fold new_crc (bits_of_bytes [0, 0, 0, 0]) 0xffffffff), st2))"
proof -
  let ?st = "(init_jtag () [])\<lparr>current_chain := 1, desired_chain := 1\<rparr>"
  define crc where "crc = crc_of_bytes 0xffffffff [0, 0, 0, 0]"
  have zero: "byte_of 0 k = 0" for k by (simp add: byte_of_def)
  have "\<exists>st'. adbg_wb_burst_read zero_reader 4 1 0 ?st = Some (APP_ERR_NONE, Some [0, 0, 0, 0], st')"
    using word_of_bytes_byte_of [of crc]
    by (simp add: adbg_wb_burst_read_def burst_read_opcode_def dc_defs dbg_cmd_defs burst_fuel_def burst_read_attempt_def
        adbg_burst_command_def adbg_select_module_def init_jtag_def zero_reader_ops burst_wait_status.simps
        MAX_READ_STATUS_WAIT_def burst_read_data_def check_buffer_size_def malloc_def overlay_def APP_ERR_NONE_def
        retry_ok_def Let_def crc_def [symmetric] zero numeral_eq_Suc replicate_append_same)
  then obtain st' where r: "adbg_wb_burst_read zero_reader 4 1 0 ?st = Some (APP_ERR_NONE, Some [0, 0, 0, 0], st')" ..
  from adbg_burst_read_checked [OF r] r show ?thesis by auto
qed

text \<open>
  The fuel given to the retry loops of the bursts never cuts a run short: with more fuel the
  bursts do the same.
\<close>

theorem burst_fuel_enough:
  "burst_read_loop c opcode ws wc start (burst_fuel + k) 0 i addr err data st
     = burst_read_loop c opcode ws wc start burst_fuel 0 i addr err data st
   \<and> burst_write_loop c src opcode ws wc start (burst_fuel + k) 0 i addr err st
     = burst_write_loop c src opcode ws wc start burst_fuel 0 i addr err st"
  unfolding burst_fuel_def by (intro conjI read_loop_fuel write_loop_fuel) simp_all

text \<open>
  The frame of a serial port transfer of at most eight bytes: a start bit, four zeros, the number
  of bytes in four bits, then the bytes, everything least significant bit first; the rest of the ten
  bytes is zero.
\<close>

theorem jsp_frame:
  assumes "length data \<le> 8"
  shows "length (jsp_outdata data) = 10
     \<and> stream_bits (words_of_bytes (jsp_outdata data)) 80 =
         True # replicate 4 False @ map (bit (of_nat (length data) :: u8)) [0..<4] @ bits_of_bytes data
         @ replicate (7 + 8 * (8 - length data)) False"
  using bits_jsp_outdata [OF assms] stream_bits_bytes [of 10 "jsp_outdata data"] by simp

theorem jsp_frame_witness:
  "stream_bits (words_of_bytes (jsp_outdata [0x41])) 80 =
     True # replicate 4 False @ [True, False, False, False] @ [True, False, False, False, False, False, True, False]
       @ replicate 63 False"
  using jsp_frame [of "[0x41]"] by (simp add: bits_of_byte_expand upt_rec)

text \<open>
  C7. The stream of a burst write is the data, bytes in memory order and each least significant bit
  first, followed by the CRC that the unit of adbg_crc32.v computes over these bits, for every word
  size the debug unit has, and it is sent without error when memory can be had.
\<close>

theorem burst_write_payload:
  assumes "jtag_cable c dev ok step tdo" and "ok (cable st)" and "scratch_inv (output_scratchpad st)"
    and "False \<notin> set (mallocs st)" and "w \<in> {1, 2, 4}" and "0 < n" and "length data = n * w"
  shows "\<exists>st'. burst_write_data c data (int w) (int n) APP_ERR_NONE st = Some (APP_ERR_NONE, Some (), st')
     \<and> ok (cable st')
     \<and> dev (cable st') = fold step (data_packets (bits_of_bytes data
          @ map (bit (fold new_crc (bits_of_bytes data) 0xffffffff)) [0..<32])) (dev (cable st))"
  using jtag_cable.write_payload [OF assms] by (metis APP_ERR_NONE_def)

theorem burst_write_payload_witness:
  "\<exists>st'. burst_write_data xess [0xde, 0xad, 0xbe, 0xef] 2 2 APP_ERR_NONE (board idle_dev)
       = Some (APP_ERR_NONE, Some (), st')
     \<and> board_dev (cable st') = fold hw_step (data_packets (bits_of_bytes [0xde, 0xad, 0xbe, 0xef]
          @ map (bit (fold new_crc (bits_of_bytes [0xde, 0xad, 0xbe, 0xef]) 0xffffffff)) [0..<32])) idle_dev"
  using burst_write_payload [OF xess_cable, of "board idle_dev" 2 2 "[0xde, 0xad, 0xbe, 0xef]"]
  by (simp add: scratch_inv_def del: bits_of_bytes_simps)

end
