(* ===== verification/Legacy_Dbg_Commands.thy ===== *)
theory Legacy_Dbg_Commands
  imports Adv_Dbg_Bursts
begin

unbundle bit_operations_syntax

text \<open>
  legacy_dbg_commands.c: the protocol of the older debug unit. Data goes most significant bit first,
  so each word is reversed before it is handed to the chain, which sends the least significant bit
  first; a CRC runs over the data bits of each direction.

  The loops at \<open>try_again\<close> run on fuel. \<open>retry_do\<close> refuses once NUM_SOFT_RETRIES retries are spent,
  so NUM_SOFT_RETRIES + 1 passes are all there are.
\<close>

definition LEGACY_CRC_POLY :: u32 where "LEGACY_CRC_POLY = 0x04c11db7"
definition DBG_CRC_SIZE :: nat where "DBG_CRC_SIZE = 32"
definition DC_SIZE :: nat where "DC_SIZE = 4"
definition DC_STATUS_SIZE :: nat where "DC_STATUS_SIZE = 4"
definition DI_GO :: u32 where "DI_GO = 0"
definition DI_READ_CMD :: u32 where "DI_READ_CMD = 1"
definition DI_WRITE_CMD :: u32 where "DI_WRITE_CMD = 2"
definition DI_READ_CTRL :: u32 where "DI_READ_CTRL = 3"
definition DI_WRITE_CTRL :: u32 where "DI_WRITE_CTRL = 4"

definition retry_fuel :: nat where "retry_fuel = nat NUM_SOFT_RETRIES + 1"

subsection \<open>Streams with CRC\<close>

definition legacy_crc_calc :: "u32 \<Rightarrow> bool \<Rightarrow> u32" where
  "legacy_crc_calc crc input_bit =
    (let d = (if input_bit then 0xfffffff else 0x0000000);
         crc_32 = (if drop_bit 31 crc AND 1 \<noteq> 0 then 0xfffffff else 0x0000000)
     in push_bit 1 crc XOR ((d XOR crc_32) AND LEGACY_CRC_POLY))"

text \<open>The CRC over the low \<open>len\<close> bits of a word, most significant bit first.\<close>

definition legacy_crc_word :: "u32 \<Rightarrow> nat \<Rightarrow> u32 \<Rightarrow> u32" where
  "legacy_crc_word data len crc = fold (\<lambda>i crc. legacy_crc_calc crc (bit data i)) (rev [0..<len]) crc"

text \<open>The loop that reverses \<open>len\<close> bits: the last round does not shift.\<close>

fun legacy_reverse :: "nat \<Rightarrow> u32 \<Rightarrow> u32 \<Rightarrow> u32" where
  "legacy_reverse 0 stream outdata = outdata"
| "legacy_reverse (Suc 0) stream outdata = outdata OR (stream AND 1)"
| "legacy_reverse (Suc (Suc n)) stream outdata =
     legacy_reverse (Suc n) (drop_bit 1 stream) (push_bit 1 (outdata OR (stream AND 1)))"

definition legacy_write_stream :: "'s jtag_cable_t \<Rightarrow> u32 \<Rightarrow> nat \<Rightarrow> bool \<Rightarrow> 's jtag \<Rightarrow> 's jtag option" where
  "legacy_write_stream c stream len set_last_bit st =
     do { (err, st) \<leftarrow> jtag_write_stream c [legacy_reverse len stream 0] (int len) set_last_bit st;
          Some (st\<lparr>legacy_crc_w := legacy_crc_word stream len (legacy_crc_w st)\<rparr>) }"

definition legacy_read_stream :: "'s jtag_cable_t \<Rightarrow> u32 \<Rightarrow> nat \<Rightarrow> bool \<Rightarrow> 's jtag \<Rightarrow> (u32 \<times> 's jtag) option" where
  "legacy_read_stream c stream len set_last_bit st =
     do { (err, ins, st) \<leftarrow> jtag_read_write_stream c [stream] [0] (int len) False set_last_bit st;
          indata \<leftarrow> word_at ins 0;
          let data = legacy_reverse len indata 0;
          Some (data, st\<lparr>legacy_crc_w := legacy_crc_word stream len (legacy_crc_w st),
                         legacy_crc_r := legacy_crc_word data len (legacy_crc_r st)\<rparr>) }"

text \<open>A sequence of words, each with its length, and the CRC register sent after them.\<close>

fun legacy_write_words :: "'s jtag_cable_t \<Rightarrow> (u32 \<times> nat) list \<Rightarrow> 's jtag \<Rightarrow> 's jtag option" where
  "legacy_write_words c [] st = legacy_write_stream c (legacy_crc_w st) DBG_CRC_SIZE False st"
| "legacy_write_words c ((w, len) # ws) st =
     do { st \<leftarrow> legacy_write_stream c w len False st; legacy_write_words c ws st }"

text \<open>
  The answer of the unit: data words of the given lengths, then the status and the CRC. Returns the
  data, the status, the CRC computed over both and the CRC read.
\<close>

fun legacy_read_words :: "'s jtag_cable_t \<Rightarrow> nat list \<Rightarrow> 's jtag \<Rightarrow> (u32 list \<times> 's jtag) option" where
  "legacy_read_words c [] st = Some ([], st)"
| "legacy_read_words c (len # lens) st =
     do { (w, st) \<leftarrow> legacy_read_stream c 0 len False st;
          (ws, st) \<leftarrow> legacy_read_words c lens st;
          Some (w # ws, st) }"

definition legacy_exchange ::
  "'s jtag_cable_t \<Rightarrow> (u32 \<times> nat) list \<Rightarrow> nat list \<Rightarrow> 's jtag \<Rightarrow> (u32 list \<times> u32 \<times> u32 \<times> u32 \<times> 's jtag) option" where
  "legacy_exchange c outs lens st =
     do { (_, st) \<leftarrow> tap_set_shift_dr c st;
          st \<leftarrow> legacy_write_words c outs (st\<lparr>legacy_crc_w := 0xffffffff\<rparr>);
          (ws, st) \<leftarrow> legacy_read_words c lens (st\<lparr>legacy_crc_r := 0xffffffff\<rparr>);
          (status, st) \<leftarrow> legacy_read_stream c 0 DC_STATUS_SIZE False st;
          let crc_generated = legacy_crc_r st;
          (legacy_crc_read, st) \<leftarrow> legacy_read_stream c 0 DBG_CRC_SIZE True st;
          Some (ws, status, crc_generated, legacy_crc_read, st) }"

subsection \<open>Operations on the debug unit\<close>

fun legacy_set_chain_loop :: "'s jtag_cable_t \<Rightarrow> nat \<Rightarrow> int \<Rightarrow> 's jtag op" where
  "legacy_set_chain_loop c 0 chain st = None"
| "legacy_set_chain_loop c (Suc fuel) chain st =
     (if current_chain st = chain then Some (APP_ERR_NONE, st)
      else
        do { (_, status, crc_generated, crc_read, st) \<leftarrow>
               legacy_exchange c [((of_int chain AND 0xf) OR push_bit DC_SIZE 1, DC_SIZE + 1)] []
                 (st\<lparr>current_chain := -1\<rparr>);
             (if crc_read \<noteq> crc_generated then
                do { (again, st) \<leftarrow> retry_do c st;
                     (if again then legacy_set_chain_loop c fuel chain st else Some (APP_ERR_CRC, st)) }
              else if status \<noteq> 0 then
                do { (again, st) \<leftarrow> retry_do c st;
                     (if again then legacy_set_chain_loop c fuel chain st else Some (APP_ERR_BAD_PARAM, st)) }
              else
                do { (_, st) \<leftarrow> tap_exit_to_idle c (retry_ok st);
                     Some (APP_ERR_NONE, st\<lparr>current_chain := chain\<rparr>) }) })"

definition legacy_dbg_set_chain :: "'s jtag_cable_t \<Rightarrow> int \<Rightarrow> 's jtag op" where
  "legacy_dbg_set_chain c chain st = legacy_set_chain_loop c retry_fuel chain (st\<lparr>desired_chain := chain\<rparr>)"

text \<open>
  The loop shared by the three register operations: select the chain (its error is dropped), exchange,
  and retry on a wrong CRC or status.
\<close>

fun legacy_transact ::
  "'s jtag_cable_t \<Rightarrow> nat \<Rightarrow> (u32 \<times> nat) list \<Rightarrow> nat list \<Rightarrow> 's jtag \<Rightarrow> (u32 \<times> u32 list \<times> 's jtag) option" where
  "legacy_transact c 0 outs lens st = None"
| "legacy_transact c (Suc fuel) outs lens st =
     do { (_, st) \<leftarrow> legacy_dbg_set_chain c (desired_chain st) st;
          (ws, status, crc_generated, crc_read, st) \<leftarrow> legacy_exchange c outs lens st;
          (if crc_read \<noteq> crc_generated then
             do { (again, st) \<leftarrow> retry_do c st;
                  (if again then legacy_transact c fuel outs lens st else Some (APP_ERR_CRC, ws, st)) }
           else if status \<noteq> 0 then
             do { (again, st) \<leftarrow> retry_do c st;
                  (if again then legacy_transact c fuel outs lens st else Some (APP_ERR_BAD_PARAM, ws, st)) }
           else
             do { (_, st) \<leftarrow> tap_exit_to_idle c st;
                  Some (APP_ERR_NONE, ws, retry_ok st) }) }"

definition legacy_dbg_command :: "'s jtag_cable_t \<Rightarrow> u32 \<Rightarrow> u32 \<Rightarrow> int \<Rightarrow> 's jtag op" where
  "legacy_dbg_command c type adr len st =
     (if len \<le> 0 then None
      else do { (err, _, st) \<leftarrow> legacy_transact c retry_fuel
                  [(DI_WRITE_CMD AND 0xf, DC_SIZE + 1), (type, 4), (adr, 32), (of_int (len - 1), 16)] [] st;
                Some (err, st) })"

definition legacy_dbg_ctrl :: "'s jtag_cable_t \<Rightarrow> u32 \<Rightarrow> u32 \<Rightarrow> 's jtag op" where
  "legacy_dbg_ctrl c reset stall st =
     do { (err, _, st) \<leftarrow> legacy_transact c retry_fuel
            [(DI_WRITE_CTRL AND 0xf, DC_SIZE + 1), (reset, 1), (stall, 1), (0, 32), (0, 18)] [] st;
          Some (err, st) }"

text \<open>Returns the values stored through the pointers \<open>reset\<close> and \<open>stall\<close>.\<close>

definition legacy_dbg_ctrl_read :: "'s jtag_cable_t \<Rightarrow> 's jtag \<Rightarrow> (u32 \<times> (u32 \<times> u32) \<times> 's jtag) option" where
  "legacy_dbg_ctrl_read c st =
     do { (err, ws, st) \<leftarrow> legacy_transact c retry_fuel [(DI_READ_CTRL, DC_SIZE + 1)] [1, 1, 32, 18] st;
          reset \<leftarrow> word_at ws 0;
          stall \<leftarrow> word_at ws 1;
          Some (err, (reset, stall), st) }"

text \<open>
  A burst: \<open>data\<close> is the caller's buffer, \<open>len\<close> an unsigned short. Returns the bytes a read stored.
\<close>

definition legacy_dbg_go ::
  "'s jtag_cable_t \<Rightarrow> u8 list \<Rightarrow> u16 \<Rightarrow> bool \<Rightarrow> 's jtag \<Rightarrow> (u32 \<times> u8 list \<times> 's jtag) option" where
  "legacy_dbg_go c data len read st =
    (let n = unat len in
     do { (_, st) \<leftarrow> legacy_dbg_set_chain c (desired_chain st) st;
          bytes \<leftarrow> (if read then Some [] else if length data < n then None else Some (take n data));
          (ws, status, crc_generated, crc_read, st) \<leftarrow>
             legacy_exchange c ((DI_GO, DC_SIZE + 1) # map (\<lambda>b. (ucast b, 8)) bytes)
               (if read then replicate n 8 else []) st;
          let stored = map ucast ws;
          (if crc_read \<noteq> crc_generated then Some (APP_ERR_CRC, stored, st)
           else if status \<noteq> 0 then Some (status, stored, st)
           else
             do { (_, st) \<leftarrow> tap_exit_to_idle c st;
                  Some (APP_ERR_NONE, stored, retry_ok st) }) })"

subsection \<open>Bit order\<close>

lemma bit_legacy_reverse:
  "n + m \<le> 32 \<Longrightarrow> 0 < n \<Longrightarrow> (\<And>k. bit outdata k \<Longrightarrow> 0 < k \<and> k < m + 1) \<Longrightarrow>
   bit (legacy_reverse n stream outdata) k \<longleftrightarrow>
     (if k < n then bit stream (n - 1 - k) else bit outdata (k - (n - 1)))"
proof (induction n arbitrary: m stream outdata k)
  case 0
  then show ?case by simp
next
  case (Suc n)
  have low: "bit (stream AND 1) j \<longleftrightarrow> j = 0 \<and> bit stream 0" for j
    by (auto simp: bit_and_iff bit_1_iff)
  have clear: "\<not> bit outdata 0" using Suc.prems(3) by blast
  show ?case
  proof (cases n)
    case 0
    then show ?thesis using clear by (auto simp: bit_or_iff low)
  next
    case (Suc n')
    let ?o = "push_bit 1 (outdata OR (stream AND 1))"
    have o: "bit ?o j \<longleftrightarrow> 0 < j \<and> j < 32 \<and> (bit outdata (j - 1) \<or> j = 1 \<and> bit stream 0)" for j
      by (simp only: bit_push_bit_iff bit_or_iff low) auto
    have IH: "bit (legacy_reverse n (drop_bit 1 stream) ?o) k \<longleftrightarrow>
        (if k < n then bit (drop_bit 1 stream) (n - 1 - k) else bit ?o (k - (n - 1)))"
    proof (rule Suc.IH [of "m + 1"])
      show "n + (m + 1) \<le> 32" using Suc.prems(1) by simp
      show "0 < j \<and> j < m + 1 + 1" if "bit ?o j" for j
        using that Suc.prems(3) [of "j - 1"] unfolding o by auto
    qed (use Suc in simp)
    have rec: "legacy_reverse (Suc n) stream outdata = legacy_reverse n (drop_bit 1 stream) ?o"
      by (simp add: Suc)
    consider "k < n" | "k = n" | "n < k" by linarith
    then show ?thesis
    proof cases
      case 1
      then show ?thesis unfolding rec IH by (simp add: bit_drop_bit_eq Suc_diff_Suc)
    next
      case 2
      then have "k - (n - 1) = 1" using Suc by simp
      with 2 clear show ?thesis unfolding rec IH by (simp only: o) simp
    next
      case 3
      then have "k - (n - 1) = Suc (k - n)" using Suc by simp
      moreover have "bit outdata (k - n) \<Longrightarrow> Suc (k - n) < 32" using Suc.prems(1) Suc.prems(3) [of "k - n"] Suc by force
      ultimately show ?thesis using 3 unfolding rec IH by (simp only: o) auto
    qed
  qed
qed

lemma stream_bits_legacy:
  assumes "0 < n" "n \<le> 32"
  shows "stream_bits [legacy_reverse n w 0] n = rev (map (bit w) [0..<n])"
proof (rule nth_equalityI)
  fix i assume "i < length (stream_bits [legacy_reverse n w 0] n)"
  then have i: "i < n" by simp
  with assms have "stream_bits [legacy_reverse n w 0] n ! i = bit (legacy_reverse n w 0) i"
    by (simp add: stream_bits_def stream_bit_def)
  also have "\<dots> = bit w (n - 1 - i)"
    using bit_legacy_reverse [of n 0 0 w i] assms i by simp
  finally show "stream_bits [legacy_reverse n w 0] n ! i = rev (map (bit w) [0..<n]) ! i"
    using i by (simp add: rev_nth)
qed simp

subsection \<open>CRC\<close>

text \<open>One step of the CRC-32 shift register: shift out the top bit, feed back when it differs from the data.\<close>

lemma legacy_crc_step:
  "legacy_crc_calc crc b = push_bit 1 crc XOR (if b \<noteq> bit crc 31 then LEGACY_CRC_POLY else 0)"
proof -
  have top: "drop_bit 31 crc AND 1 \<noteq> 0 \<longleftrightarrow> bit crc 31"
    by (simp add: and_one_eq bit_iff_odd_drop_bit mod_2_eq_odd)
  have "(0xfffffff :: u32) AND LEGACY_CRC_POLY = LEGACY_CRC_POLY" by (simp add: LEGACY_CRC_POLY_def)
  then show ?thesis
    unfolding legacy_crc_calc_def Let_def top by simp
qed

lemma legacy_crc_residue_steps:
  assumes "n \<le> 32"
  shows "fold (\<lambda>i c. legacy_crc_calc c (bit crc i)) (rev [32 - n..<32]) crc = push_bit n crc"
  using assms
proof (induction n)
  case 0
  show ?case by simp
next
  case (Suc n)
  have "Suc (32 - Suc n) = 32 - n" using Suc.prems by simp
  then have "rev [32 - Suc n..<32] = rev [32 - n..<32] @ [32 - Suc n]"
    using Suc.prems upt_conv_Cons [of "32 - Suc n" 32] by (simp del: upt_Suc)
  then have "fold (\<lambda>i c. legacy_crc_calc c (bit crc i)) (rev [32 - Suc n..<32]) crc =
      legacy_crc_calc (push_bit n crc) (bit crc (32 - Suc n))"
    using Suc by simp
  also have "bit (push_bit n crc) 31 = bit crc (32 - Suc n)"
    using Suc.prems by (simp add: bit_push_bit_iff)
  then have "legacy_crc_calc (push_bit n crc) (bit crc (32 - Suc n)) = push_bit 1 (push_bit n crc)"
    unfolding legacy_crc_step by simp
  finally show ?case by (simp add: push_bit_push_bit)
qed

lemma legacy_crc_residue: "legacy_crc_word crc 32 crc = 0"
proof -
  have "push_bit 32 crc = 0" by (rule bit_word_eqI) (simp add: bit_push_bit_iff)
  then show ?thesis using legacy_crc_residue_steps [of 32 crc] by (simp add: legacy_crc_word_def)
qed

subsection \<open>Frames on the wire\<close>

definition msb_first :: "u32 \<Rightarrow> nat \<Rightarrow> bool list" where
  "msb_first w n = rev (map (bit w) [0..<n])"

definition frame_crc :: "(u32 \<times> nat) list \<Rightarrow> u32 \<Rightarrow> u32" where
  "frame_crc ws crc = fold (\<lambda>(w, n) crc. legacy_crc_word w n crc) ws crc"

definition frame_bits :: "(u32 \<times> nat) list \<Rightarrow> u32 \<Rightarrow> bool list" where
  "frame_bits ws crc = concat (map (\<lambda>(w, n). msb_first w n) ws) @ msb_first (frame_crc ws crc) 32"

context jtag_cable
begin

lemma legacy_write_stream_ok:
  assumes "ok (cable st)" "0 < n" "n \<le> 32"
  shows "\<exists>s'. legacy_write_stream c w n False st =
       Some (st\<lparr>cable := s', legacy_crc_w := legacy_crc_word w n (legacy_crc_w st)\<rparr>)
     \<and> ok s' \<and> dev s' = fold step (data_packets (msb_first w n)) (dev (cable st))"
proof -
  obtain s' where "jtag_write_stream c [legacy_reverse n w 0] (int n) False st = Some (0, st\<lparr>cable := s'\<rparr>)" "ok s'"
    "dev s' = fold step (stream_packets [legacy_reverse n w 0] n False) (dev (cable st))"
    using clk_apply [OF clk_write_stream_plain [of n "[legacy_reverse n w 0]" "int n" st] assms(1)] assms(2,3) by auto
  then show ?thesis
    by (intro exI [of _ s'])
      (simp add: legacy_write_stream_def stream_packets_data stream_bits_legacy [OF assms(2,3)] msb_first_def)
qed

lemma legacy_write_words_ok:
  assumes "ok (cable st)" and "\<And>w n. (w, n) \<in> set ws \<Longrightarrow> 0 < n \<and> n \<le> 32"
  shows "\<exists>s'. legacy_write_words c ws st = Some (st\<lparr>cable := s', legacy_crc_w := 0\<rparr>) \<and> ok s'
     \<and> dev s' = fold step (data_packets (frame_bits ws (legacy_crc_w st))) (dev (cable st))"
  using assms
proof (induction ws arbitrary: st)
  case Nil
  then show ?case
    using legacy_write_stream_ok [of st 32 "legacy_crc_w st"]
    by (auto simp: DBG_CRC_SIZE_def legacy_crc_residue frame_bits_def frame_crc_def)
next
  case (Cons p ws)
  obtain w n where p: "p = (w, n)" by (cases p)
  have n: "0 < n" "n \<le> 32" using Cons.prems(2) [of w n] by (simp_all add: p)
  obtain s1 where s1: "legacy_write_stream c w n False st =
      Some (st\<lparr>cable := s1, legacy_crc_w := legacy_crc_word w n (legacy_crc_w st)\<rparr>)" "ok s1"
    "dev s1 = fold step (data_packets (msb_first w n)) (dev (cable st))"
    using legacy_write_stream_ok [OF Cons.prems(1) n] by blast
  let ?st = "st\<lparr>cable := s1, legacy_crc_w := legacy_crc_word w n (legacy_crc_w st)\<rparr>"
  obtain s2 where "legacy_write_words c ws ?st = Some (?st\<lparr>cable := s2, legacy_crc_w := 0\<rparr>)" "ok s2"
    "dev s2 = fold step (data_packets (frame_bits ws (legacy_crc_w ?st))) (dev (cable ?st))"
    using Cons.IH [of ?st] s1(2) Cons.prems(2) by auto
  with s1 show ?case
    by (auto simp: p frame_bits_def frame_crc_def data_packets_def)
qed

end

subsection \<open>What the legacy transactions leave alone\<close>

definition legacy_indep :: "('s jtag \<Rightarrow> 'v) \<Rightarrow> bool" where
  "legacy_indep g \<longleftrightarrow> dbg_indep g \<and> (\<forall>st v. g (st\<lparr>legacy_crc_r := v\<rparr>) = g st \<and> g (st\<lparr>legacy_crc_w := v\<rparr>) = g st)"

lemma legacy_indepD:
  assumes "legacy_indep g"
  shows "dbg_indep g" "g (st\<lparr>legacy_crc_r := v\<rparr>) = g st" "g (st\<lparr>legacy_crc_w := v\<rparr>) = g st" "chain_indep g"
    "g (retry_ok st) = g st" "g (st\<lparr>desired_chain := k\<rparr>) = g st" "g (st\<lparr>current_chain := k\<rparr>) = g st"
  using assms by (simp_all add: legacy_indep_def dbg_indepD chain_indepD)

lemma legacy_indep_mutex [simp, intro]: "legacy_indep dbg_access_mutex"
  by (simp add: legacy_indep_def)

lemma keeps_legacy_write_stream:
  assumes "legacy_indep g"
  shows "legacy_write_stream c w n l st = Some st' \<Longrightarrow> g st' = g st"
  by (auto simp: legacy_write_stream_def legacy_indepD [OF assms] split: Option.bind_splits
      dest!: keepsD [OF keeps_jtag_write_stream [OF legacy_indepD(4) [OF assms]]])

lemma keeps_legacy_read_stream [keeps_intros]:
  assumes "legacy_indep g"
  shows "keeps g (legacy_read_stream c w n l)"
  by (intro keepsI) (auto simp: legacy_read_stream_def Let_def legacy_indepD [OF assms] split: Option.bind_splits
      dest!: keeps2D [OF keeps_jtag_read_write_stream [OF legacy_indepD(4) [OF assms]]])

lemma keeps_legacy_write_words:
  assumes "legacy_indep g"
  shows "legacy_write_words c ws st = Some st' \<Longrightarrow> g st' = g st"
proof (induction c ws st rule: legacy_write_words.induct)
  case (1 c st)
  then show ?case by (auto dest: keeps_legacy_write_stream [OF assms])
next
  case (2 c w len ws st)
  then show ?case by (auto split: Option.bind_splits dest: keeps_legacy_write_stream [OF assms])
qed

lemma keeps_legacy_read_words [keeps_intros]:
  assumes "legacy_indep g"
  shows "keeps g (legacy_read_words c lens)"
proof (induction lens)
  case Nil
  show ?case by (simp add: keeps_def)
next
  case (Cons n lens)
  show ?case
    by (intro keepsI) (auto split: Option.bind_splits
        dest!: keepsD [OF keeps_legacy_read_stream [OF assms]] keepsD [OF Cons])
qed

lemma keeps_legacy_exchange:
  assumes "legacy_indep g"
  shows "legacy_exchange c outs lens st = Some (ws, a, b, d, st') \<Longrightarrow> g st' = g st"
  by (auto simp: legacy_exchange_def Let_def legacy_indepD [OF assms] split: Option.bind_splits
      dest!: keepsD [OF keeps_tap_moves(1) [OF legacy_indepD(4) [OF assms]]] keeps_legacy_write_words [OF assms]
        keepsD [OF keeps_legacy_read_words [OF assms]] keepsD [OF keeps_legacy_read_stream [OF assms]])

lemma keeps_legacy_set_chain_loop:
  assumes "legacy_indep g"
  shows "legacy_set_chain_loop c fuel chain st = Some (e, st') \<Longrightarrow> g st' = g st"
proof (induction fuel arbitrary: st)
  case 0
  then show ?case by simp
next
  case (Suc fuel)
  from Suc.prems show ?case
    by (auto simp: legacy_indepD [OF assms] split: if_splits Option.bind_splits
        dest!: keeps_legacy_exchange [OF assms] keepsD [OF keeps_retry_do [OF legacy_indepD(1) [OF assms]]]
          keepsD [OF keeps_tap_moves(2) [OF legacy_indepD(4) [OF assms]]] Suc.IH)
qed

lemma keeps_legacy_dbg_set_chain [keeps_intros]:
  assumes "legacy_indep g"
  shows "keeps g (legacy_dbg_set_chain c chain)"
  by (intro keepsI)
    (auto simp: legacy_dbg_set_chain_def legacy_indepD [OF assms] dest!: keeps_legacy_set_chain_loop [OF assms])

lemma keeps_legacy_transact:
  assumes "legacy_indep g"
  shows "legacy_transact c fuel outs lens st = Some (e, ws, st') \<Longrightarrow> g st' = g st"
proof (induction fuel arbitrary: st)
  case 0
  then show ?case by simp
next
  case (Suc fuel)
  from Suc.prems show ?case
    by (auto simp: legacy_indepD [OF assms] split: if_splits Option.bind_splits
        dest!: keeps_legacy_exchange [OF assms] keepsD [OF keeps_retry_do [OF legacy_indepD(1) [OF assms]]]
          keepsD [OF keeps_tap_moves(2) [OF legacy_indepD(4) [OF assms]]]
          keepsD [OF keeps_legacy_dbg_set_chain [OF assms]] Suc.IH)
qed

lemma keeps_legacy_ops [keeps_intros]:
  assumes "legacy_indep g"
  shows "keeps g (legacy_dbg_command c type adr len)" "keeps g (legacy_dbg_ctrl c reset stall)"
    "keeps2 g (legacy_dbg_ctrl_read c)"
  by (auto simp: keeps_def keeps2_def legacy_dbg_command_def legacy_dbg_ctrl_def legacy_dbg_ctrl_read_def
      split: if_splits Option.bind_splits dest!: keeps_legacy_transact [OF assms])

lemma keeps_legacy_dbg_go [keeps_intros]:
  assumes "legacy_indep g"
  shows "keeps2 g (legacy_dbg_go c data len rd)"
  by (intro keeps2I) (auto simp: legacy_dbg_go_def Let_def legacy_indepD [OF assms] split: if_splits Option.bind_splits
      dest!: keeps_legacy_exchange [OF assms] keepsD [OF keeps_legacy_dbg_set_chain [OF assms]]
        keepsD [OF keeps_tap_moves(2) [OF legacy_indepD(4) [OF assms]]])

subsection \<open>Properties\<close>

text \<open>
  C8. Every frame of the legacy protocol goes out most significant bit first: the data words in order,
  then the 32-bit CRC of all data bits, and the CRC register, which includes the CRC just sent, ends
  at the zero remainder the debug unit checks for.
\<close>

theorem legacy_frame:
  assumes "jtag_cable c dev ok step tdo" and "ok (cable st)"
    and "\<And>w n. (w, n) \<in> set ws \<Longrightarrow> 0 < n \<and> n \<le> 32"
  shows "\<exists>st'. legacy_write_words c ws st = Some st' \<and> ok (cable st') \<and> legacy_crc_w st' = 0
     \<and> dev (cable st') = fold step (data_packets (concat (map (\<lambda>(w, n). msb_first w n) ws)
          @ msb_first (frame_crc ws (legacy_crc_w st)) 32)) (dev (cable st))"
  using jtag_cable.legacy_write_words_ok [OF assms] by (force simp: frame_bits_def)

theorem legacy_frame_witness:
  "\<exists>st'. legacy_write_words xess [(0x11, 5)] (board idle_dev) = Some st' \<and> legacy_crc_w st' = 0"
  using legacy_frame [OF xess_cable, where st = "board idle_dev" and ws = "[(0x11, 5)]"] by auto

end
