(* ===== verification/Dbg_Api.thy ===== *)
theory Dbg_Api
  imports Legacy_Dbg_Commands
begin

unbundle bit_operations_syntax

text \<open>
  dbg_api.c: the calls the servers make, one transaction of the debug unit each, under the mutex.
  The kind of debug hardware, a compile-time choice in the source, is the argument \<open>hw\<close>. Locking a
  mutex that is held blocks the one thread that could release it, so it does not return (\<open>None\<close>).
  A caller's buffer is an argument and a result: words for the 32-bit calls, bytes for the 8-bit and
  16-bit calls. Writing past its end is undefined.
\<close>

datatype dbg_hw = DBG_HW_ADVANCED | DBG_HW_LEGACY

definition dbg_lock :: "'s jtag \<Rightarrow> 's jtag option" where
  "dbg_lock st = (if dbg_access_mutex st then None else Some (st\<lparr>dbg_access_mutex := True\<rparr>))"

text \<open>\<open>cable_flush(); pthread_mutex_unlock(&dbg_access_mutex);\<close>\<close>

definition dbg_unlock :: "'s jtag_cable_t \<Rightarrow> 's jtag \<Rightarrow> 's jtag option" where
  "dbg_unlock c st = do { (_, s) \<leftarrow> cable_flush c (cable st); Some (st\<lparr>cable := s, dbg_access_mutex := False\<rparr>) }"

definition store_bytes :: "u8 list \<Rightarrow> u8 list option \<Rightarrow> u8 list option" where
  "store_bytes data d =
     (case d of None \<Rightarrow> Some data
      | Some bs \<Rightarrow> if length bs \<le> length data then Some (bs @ drop (length bs) data) else None)"

fun ntohl_all :: "u8 list \<Rightarrow> u8 list" where
  "ntohl_all (b0 # b1 # b2 # b3 # bs) = b3 # b2 # b1 # b0 # ntohl_all bs"
| "ntohl_all bs = bs"

fun ntohs_all :: "u8 list \<Rightarrow> u8 list" where
  "ntohs_all (b0 # b1 # bs) = b1 # b0 # ntohs_all bs"
| "ntohs_all bs = bs"

subsection \<open>Shared bodies\<close>

text \<open>
  The advanced branch of a read: select the module, with an early return when that fails, then one
  burst. Ends with the mutex released on both paths.
\<close>

definition adv_read ::
  "'s jtag_cable_t \<Rightarrow> int \<Rightarrow> int \<Rightarrow> int \<Rightarrow> u32 \<Rightarrow> u8 list \<Rightarrow> 's jtag \<Rightarrow> (u32 \<times> u8 list \<times> 's jtag) option" where
  "adv_read c chain word_size word_count adr data st =
     do { (err, st) \<leftarrow> adbg_select_module c chain st;
          (if err \<noteq> 0 then do { st \<leftarrow> dbg_unlock c st; Some (err, data, st) }
           else do { (err, d, st) \<leftarrow> adbg_wb_burst_read c word_size word_count adr st;
                     data \<leftarrow> store_bytes data d;
                     st \<leftarrow> dbg_unlock c st;
                     Some (err, data, st) }) }"

definition adv_write ::
  "'s jtag_cable_t \<Rightarrow> int \<Rightarrow> u8 list \<Rightarrow> int \<Rightarrow> int \<Rightarrow> u32 \<Rightarrow> 's jtag op" where
  "adv_write c chain data word_size word_count adr st =
     do { (err, st) \<leftarrow> adbg_select_module c chain st;
          (if err \<noteq> 0 then do { st \<leftarrow> dbg_unlock c st; Some (err, st) }
           else do { (err, st) \<leftarrow> adbg_wb_burst_write c data word_size word_count adr st;
                     st \<leftarrow> dbg_unlock c st;
                     Some (err, st) }) }"

text \<open>The legacy branches: chain, command, burst, each only if the one before reported no error.\<close>

definition legacy_read ::
  "'s jtag_cable_t \<Rightarrow> int \<Rightarrow> u32 \<Rightarrow> u32 \<Rightarrow> int \<Rightarrow> u8 list \<Rightarrow> 's jtag \<Rightarrow> (u32 \<times> u8 list \<times> 's jtag) option" where
  "legacy_read c chain cmd adr bytelen data st =
     do { (err, st) \<leftarrow> run_until_err [legacy_dbg_set_chain c chain, legacy_dbg_command c cmd adr bytelen] st;
          (if err \<noteq> 0 then Some (err, data, st)
           else do { (err, bs, st) \<leftarrow> legacy_dbg_go c data (of_int bytelen) True st;
                     data \<leftarrow> store_bytes data (Some bs);
                     Some (err, data, st) }) }"

definition legacy_write ::
  "'s jtag_cable_t \<Rightarrow> int \<Rightarrow> u32 \<Rightarrow> u8 list \<Rightarrow> u32 \<Rightarrow> int \<Rightarrow> 's jtag op" where
  "legacy_write c chain cmd data adr bytelen st =
     do { (err, st) \<leftarrow> run_until_err [legacy_dbg_set_chain c chain, legacy_dbg_command c cmd adr bytelen] st;
          (if err \<noteq> 0 then Some (err, st)
           else do { (err, _, st) \<leftarrow> legacy_dbg_go c data (of_int bytelen) False st;
                     Some (err, st) }) }"

definition word_of_buf :: "u8 list \<Rightarrow> u32 option" where
  "word_of_buf data = word_at (words_of_bytes data) 0"

subsection \<open>WishBone\<close>

definition dbg_wb_read32 ::
  "'s jtag_cable_t \<Rightarrow> dbg_hw \<Rightarrow> u32 \<Rightarrow> u32 \<Rightarrow> 's jtag \<Rightarrow> (u32 \<times> u32 \<times> 's jtag) option" where
  "dbg_wb_read32 c hw adr data st =
     do { st \<leftarrow> dbg_lock st;
          (case hw of
             DBG_HW_ADVANCED \<Rightarrow>
               do { (err, bs, st) \<leftarrow> adv_read c DC_WISHBONE 4 1 adr (bytes_of_words [data]) st;
                    w \<leftarrow> word_of_buf bs; Some (err, w, st) }
           | DBG_HW_LEGACY \<Rightarrow>
               do { (err, bs, st) \<leftarrow> legacy_read c DC_WISHBONE 0x6 adr 4 (bytes_of_words [data]) st;
                    w \<leftarrow> word_of_buf (ntohl_all bs);
                    st \<leftarrow> dbg_unlock c st;
                    Some (err, w, st) }) }"

definition dbg_wb_write32 :: "'s jtag_cable_t \<Rightarrow> dbg_hw \<Rightarrow> u32 \<Rightarrow> u32 \<Rightarrow> 's jtag op" where
  "dbg_wb_write32 c hw adr data st =
     do { st \<leftarrow> dbg_lock st;
          (case hw of
             DBG_HW_ADVANCED \<Rightarrow> adv_write c DC_WISHBONE (bytes_of_words [data]) 4 1 adr st
           | DBG_HW_LEGACY \<Rightarrow>
               do { (err, st) \<leftarrow> legacy_write c DC_WISHBONE 0x2 (ntohl_all (bytes_of_words [data])) adr 4 st;
                    st \<leftarrow> dbg_unlock c st;
                    Some (err, st) }) }"

definition bytes_of_half :: "u16 \<Rightarrow> u8 list" where
  "bytes_of_half w = [ucast w, ucast (drop_bit 8 w)]"

definition dbg_wb_write16 :: "'s jtag_cable_t \<Rightarrow> dbg_hw \<Rightarrow> u32 \<Rightarrow> u16 \<Rightarrow> 's jtag op" where
  "dbg_wb_write16 c hw adr data st =
     do { st \<leftarrow> dbg_lock st;
          (case hw of
             DBG_HW_ADVANCED \<Rightarrow> adv_write c DC_WISHBONE (bytes_of_half data) 2 1 adr st
           | DBG_HW_LEGACY \<Rightarrow>
               do { (err, st) \<leftarrow> legacy_write c DC_WISHBONE 0x1 (ntohs_all (bytes_of_half data)) adr 2 st;
                    st \<leftarrow> dbg_unlock c st;
                    Some (err, st) }) }"

definition dbg_wb_write8 :: "'s jtag_cable_t \<Rightarrow> dbg_hw \<Rightarrow> u32 \<Rightarrow> u8 \<Rightarrow> 's jtag op" where
  "dbg_wb_write8 c hw adr data st =
     do { st \<leftarrow> dbg_lock st;
          (case hw of
             DBG_HW_ADVANCED \<Rightarrow> adv_write c DC_WISHBONE [data] 1 1 adr st
           | DBG_HW_LEGACY \<Rightarrow>
               do { (err, st) \<leftarrow> legacy_write c DC_WISHBONE 0x0 [data] adr 1 st;
                    st \<leftarrow> dbg_unlock c st;
                    Some (err, st) }) }"

definition dbg_wb_read_block32 ::
  "'s jtag_cable_t \<Rightarrow> dbg_hw \<Rightarrow> u32 \<Rightarrow> u32 list \<Rightarrow> int \<Rightarrow> 's jtag \<Rightarrow> (u32 \<times> u32 list \<times> 's jtag) option" where
  "dbg_wb_read_block32 c hw adr data len st =
     (if len = 0 then Some (APP_ERR_NONE, data, st)
      else
        do { st \<leftarrow> dbg_lock st;
             (case hw of
                DBG_HW_ADVANCED \<Rightarrow>
                  do { (err, bs, st) \<leftarrow> adv_read c DC_WISHBONE 4 len adr (bytes_of_words data) st;
                       Some (err, words_of_bytes bs, st) }
              | DBG_HW_LEGACY \<Rightarrow>
                  do { (err, bs, st) \<leftarrow> legacy_read c DC_WISHBONE 0x6 adr (len * 4) (bytes_of_words data) st;
                       let n = nat (len * 4);
                       let bs = (if err = APP_ERR_NONE then ntohl_all (take n bs) @ drop n bs else bs);
                       st \<leftarrow> dbg_unlock c st;
                       Some (err, words_of_bytes bs, st) }) })"

definition dbg_wb_read_block16 ::
  "'s jtag_cable_t \<Rightarrow> dbg_hw \<Rightarrow> u32 \<Rightarrow> u8 list \<Rightarrow> int \<Rightarrow> 's jtag \<Rightarrow> (u32 \<times> u8 list \<times> 's jtag) option" where
  "dbg_wb_read_block16 c hw adr data len st =
     (if len = 0 then Some (APP_ERR_NONE, data, st)
      else
        do { st \<leftarrow> dbg_lock st;
             (case hw of
                DBG_HW_ADVANCED \<Rightarrow> adv_read c DC_WISHBONE 2 len adr data st
              | DBG_HW_LEGACY \<Rightarrow>
                  do { (err, bs, st) \<leftarrow> legacy_read c DC_WISHBONE 0x5 adr (len * 2) data st;
                       let n = nat (len * 2);
                       let bs = (if err = APP_ERR_NONE then ntohs_all (take n bs) @ drop n bs else bs);
                       st \<leftarrow> dbg_unlock c st;
                       Some (err, bs, st) }) })"

definition dbg_wb_read_block8 ::
  "'s jtag_cable_t \<Rightarrow> dbg_hw \<Rightarrow> u32 \<Rightarrow> u8 list \<Rightarrow> int \<Rightarrow> 's jtag \<Rightarrow> (u32 \<times> u8 list \<times> 's jtag) option" where
  "dbg_wb_read_block8 c hw adr data len st =
     (if len = 0 then Some (APP_ERR_NONE, data, st)
      else
        do { st \<leftarrow> dbg_lock st;
             (case hw of
                DBG_HW_ADVANCED \<Rightarrow> adv_read c DC_WISHBONE 1 len adr data st
              | DBG_HW_LEGACY \<Rightarrow>
                  do { (err, bs, st) \<leftarrow> legacy_read c DC_WISHBONE 0x4 adr len data st;
                       st \<leftarrow> dbg_unlock c st;
                       Some (err, bs, st) }) })"

text \<open>The legacy branches of the block writes swap the caller's words in place.\<close>

definition dbg_wb_write_block32 ::
  "'s jtag_cable_t \<Rightarrow> dbg_hw \<Rightarrow> u32 \<Rightarrow> u32 list \<Rightarrow> int \<Rightarrow> 's jtag \<Rightarrow> (u32 \<times> u32 list \<times> 's jtag) option" where
  "dbg_wb_write_block32 c hw adr data len st =
     (if len = 0 then Some (APP_ERR_NONE, data, st)
      else
        do { st \<leftarrow> dbg_lock st;
             (case hw of
                DBG_HW_ADVANCED \<Rightarrow>
                  do { (err, st) \<leftarrow> adv_write c DC_WISHBONE (bytes_of_words data) 4 len adr st;
                       Some (err, data, st) }
              | DBG_HW_LEGACY \<Rightarrow>
                  (let n = nat (len * 4); bs = bytes_of_words data in
                   if length bs < n then None
                   else
                     (let bs = ntohl_all (take n bs) @ drop n bs in
                      do { (err, st) \<leftarrow> legacy_write c DC_WISHBONE 0x2 bs adr (len * 4) st;
                           st \<leftarrow> dbg_unlock c st;
                           Some (err, words_of_bytes bs, st) }))) })"

definition dbg_wb_write_block16 ::
  "'s jtag_cable_t \<Rightarrow> dbg_hw \<Rightarrow> u32 \<Rightarrow> u8 list \<Rightarrow> int \<Rightarrow> 's jtag \<Rightarrow> (u32 \<times> u8 list \<times> 's jtag) option" where
  "dbg_wb_write_block16 c hw adr data len st =
     (if len = 0 then Some (APP_ERR_NONE, data, st)
      else
        do { st \<leftarrow> dbg_lock st;
             (case hw of
                DBG_HW_ADVANCED \<Rightarrow>
                  do { (err, st) \<leftarrow> adv_write c DC_WISHBONE data 2 len adr st; Some (err, data, st) }
              | DBG_HW_LEGACY \<Rightarrow>
                  (let n = nat (len * 2) in
                   if length data < n then None
                   else
                     (let bs = ntohs_all (take n data) @ drop n data in
                      do { (err, st) \<leftarrow> legacy_write c DC_WISHBONE 0x1 bs adr (len * 2) st;
                           st \<leftarrow> dbg_unlock c st;
                           Some (err, bs, st) }))) })"

definition dbg_wb_write_block8 :: "'s jtag_cable_t \<Rightarrow> dbg_hw \<Rightarrow> u32 \<Rightarrow> u8 list \<Rightarrow> int \<Rightarrow> 's jtag op" where
  "dbg_wb_write_block8 c hw adr data len st =
     (if len = 0 then Some (APP_ERR_NONE, st)
      else
        do { st \<leftarrow> dbg_lock st;
             (case hw of
                DBG_HW_ADVANCED \<Rightarrow> adv_write c DC_WISHBONE data 1 len adr st
              | DBG_HW_LEGACY \<Rightarrow>
                  do { (err, st) \<leftarrow> legacy_write c DC_WISHBONE 0x0 data adr len st;
                       st \<leftarrow> dbg_unlock c st;
                       Some (err, st) }) })"

subsection \<open>CPU registers\<close>

definition dbg_cpu0_read ::
  "'s jtag_cable_t \<Rightarrow> dbg_hw \<Rightarrow> u32 \<Rightarrow> u32 \<Rightarrow> 's jtag \<Rightarrow> (u32 \<times> u32 \<times> 's jtag) option" where
  "dbg_cpu0_read c hw adr data st =
     do { st \<leftarrow> dbg_lock st;
          (case hw of
             DBG_HW_ADVANCED \<Rightarrow>
               do { (err, bs, st) \<leftarrow> adv_read c DC_CPU0 4 1 adr (bytes_of_words [data]) st;
                    w \<leftarrow> word_of_buf bs; Some (err, w, st) }
           | DBG_HW_LEGACY \<Rightarrow>
               do { (err, bs, st) \<leftarrow> legacy_read c DC_CPU0 0x6 adr 4 (bytes_of_words [data]) st;
                    w \<leftarrow> word_of_buf ((if err = APP_ERR_NONE then ntohl_all bs else bs));
                    st \<leftarrow> dbg_unlock c st;
                    Some (err, w, st) }) }"

text \<open>The legacy unit reads a block one register at a time, each under the mutex of its own.\<close>

fun cpu0_read_each ::
  "'s jtag_cable_t \<Rightarrow> dbg_hw \<Rightarrow> u32 \<Rightarrow> u32 list \<Rightarrow> nat \<Rightarrow> 's jtag \<Rightarrow> (u32 \<times> u32 list \<times> 's jtag) option" where
  "cpu0_read_each c hw readaddr data 0 st = Some (APP_ERR_NONE, data, st)"
| "cpu0_read_each c hw readaddr [] (Suc n) st = None"
| "cpu0_read_each c hw readaddr (d # data) (Suc n) st =
     do { (e, d, st) \<leftarrow> dbg_cpu0_read c hw readaddr d st;
          (e', data, st) \<leftarrow> cpu0_read_each c hw (readaddr + 1) data n st;
          Some (e OR e', d # data, st) }"

definition dbg_cpu0_read_block ::
  "'s jtag_cable_t \<Rightarrow> dbg_hw \<Rightarrow> u32 \<Rightarrow> u32 list \<Rightarrow> int \<Rightarrow> 's jtag \<Rightarrow> (u32 \<times> u32 list \<times> 's jtag) option" where
  "dbg_cpu0_read_block c hw adr data count st =
     (case hw of
        DBG_HW_ADVANCED \<Rightarrow>
          do { st \<leftarrow> dbg_lock st;
               (err, bs, st) \<leftarrow> adv_read c DC_CPU0 4 count adr (bytes_of_words data) st;
               Some (err, words_of_bytes bs, st) }
      | DBG_HW_LEGACY \<Rightarrow> cpu0_read_each c hw adr data (nat count) st)"

definition dbg_cpu0_write :: "'s jtag_cable_t \<Rightarrow> dbg_hw \<Rightarrow> u32 \<Rightarrow> u32 \<Rightarrow> 's jtag op" where
  "dbg_cpu0_write c hw adr data st =
     do { st \<leftarrow> dbg_lock st;
          (case hw of
             DBG_HW_ADVANCED \<Rightarrow> adv_write c DC_CPU0 (bytes_of_words [data]) 4 1 adr st
           | DBG_HW_LEGACY \<Rightarrow>
               do { (err, st) \<leftarrow> legacy_write c DC_CPU0 0x2 (ntohl_all (bytes_of_words [data])) adr 4 st;
                    st \<leftarrow> dbg_unlock c st;
                    Some (err, st) }) }"

fun cpu0_write_each :: "'s jtag_cable_t \<Rightarrow> dbg_hw \<Rightarrow> u32 \<Rightarrow> u32 list \<Rightarrow> nat \<Rightarrow> 's jtag op" where
  "cpu0_write_each c hw writeaddr data 0 st = Some (APP_ERR_NONE, st)"
| "cpu0_write_each c hw writeaddr [] (Suc n) st = None"
| "cpu0_write_each c hw writeaddr (d # data) (Suc n) st =
     do { (e, st) \<leftarrow> dbg_cpu0_write c hw writeaddr d st;
          (e', st) \<leftarrow> cpu0_write_each c hw (writeaddr + 1) data n st;
          Some (e OR e', st) }"

definition dbg_cpu0_write_block :: "'s jtag_cable_t \<Rightarrow> dbg_hw \<Rightarrow> u32 \<Rightarrow> u32 list \<Rightarrow> int \<Rightarrow> 's jtag op" where
  "dbg_cpu0_write_block c hw adr data count st =
     (case hw of
        DBG_HW_ADVANCED \<Rightarrow>
          do { st \<leftarrow> dbg_lock st; adv_write c DC_CPU0 (bytes_of_words data) 4 count adr st }
      | DBG_HW_LEGACY \<Rightarrow> cpu0_write_each c hw adr data (nat count) st)"

definition dbg_cpu0_write_ctrl :: "'s jtag_cable_t \<Rightarrow> dbg_hw \<Rightarrow> u32 \<Rightarrow> u8 \<Rightarrow> 's jtag op" where
  "dbg_cpu0_write_ctrl c hw adr data st =
     do { st \<leftarrow> dbg_lock st;
          (case hw of
             DBG_HW_ADVANCED \<Rightarrow>
               do { (err, st) \<leftarrow> adbg_select_module c DC_CPU0 st;
                    (if err \<noteq> 0 then do { st \<leftarrow> dbg_unlock c st; Some (err, st) }
                     else do { (err, st) \<leftarrow> adbg_ctrl_write c DBG_CPU0_REG_STATUS [ucast data] 2 st;
                               st \<leftarrow> dbg_unlock c st;
                               Some (err, st) }) }
           | DBG_HW_LEGACY \<Rightarrow>
               do { (err, st) \<leftarrow> run_until_err [legacy_dbg_set_chain c DC_CPU0,
                                                legacy_dbg_ctrl c (ucast (data AND 2)) (ucast (data AND 1))] st;
                    st \<leftarrow> dbg_unlock c st;
                    Some (err, st) }) }"

text \<open>
  The legacy branch stores two variables it has not set when the chain could not be selected: undefined.
\<close>

definition dbg_cpu0_read_ctrl ::
  "'s jtag_cable_t \<Rightarrow> dbg_hw \<Rightarrow> u32 \<Rightarrow> u8 \<Rightarrow> 's jtag \<Rightarrow> (u32 \<times> u8 \<times> 's jtag) option" where
  "dbg_cpu0_read_ctrl c hw adr data st =
     do { st \<leftarrow> dbg_lock st;
          (case hw of
             DBG_HW_ADVANCED \<Rightarrow>
               do { (err, st) \<leftarrow> adbg_select_module c DC_CPU0 st;
                    (if err \<noteq> 0 then do { st \<leftarrow> dbg_unlock c st; Some (err, data, st) }
                     else
                       do { (err, d, st) \<leftarrow> adbg_ctrl_read c DBG_CPU0_REG_STATUS [0] 2 st;
                            st \<leftarrow> dbg_unlock c st;
                            (if err \<noteq> 0 then Some (err, data, st)
                             else do { ws \<leftarrow> d; w \<leftarrow> word_at ws 0; Some (err, ucast w, st) }) }) }
           | DBG_HW_LEGACY \<Rightarrow>
               do { (err, st) \<leftarrow> legacy_dbg_set_chain c DC_CPU0 st;
                    (if err \<noteq> 0 then None
                     else
                       do { (err, (r, s), st) \<leftarrow> legacy_dbg_ctrl_read c st;
                            st \<leftarrow> dbg_unlock c st;
                            Some (err, ucast (push_bit 1 r OR s), st) }) }) }"

definition dbg_cpu1_read ::
  "'s jtag_cable_t \<Rightarrow> dbg_hw \<Rightarrow> u32 \<Rightarrow> u32 \<Rightarrow> 's jtag \<Rightarrow> (u32 \<times> u32 \<times> 's jtag) option" where
  "dbg_cpu1_read c hw adr data st =
     do { st \<leftarrow> dbg_lock st;
          (case hw of
             DBG_HW_ADVANCED \<Rightarrow>
               do { (err, bs, st) \<leftarrow> adv_read c DC_CPU1 4 1 adr (bytes_of_words [data]) st;
                    w \<leftarrow> word_of_buf bs; Some (err, w, st) }
           | DBG_HW_LEGACY \<Rightarrow>
               do { (err, bs, st) \<leftarrow> legacy_read c DC_CPU1 0x6 adr 4 (bytes_of_words [data]) st;
                    w \<leftarrow> word_of_buf (ntohl_all bs);
                    st \<leftarrow> dbg_unlock c st;
                    Some (err, w, st) }) }"

text \<open>The advanced branch selects CPU0, as the source does.\<close>

definition dbg_cpu1_write :: "'s jtag_cable_t \<Rightarrow> dbg_hw \<Rightarrow> u32 \<Rightarrow> u32 \<Rightarrow> 's jtag op" where
  "dbg_cpu1_write c hw adr data st =
     do { st \<leftarrow> dbg_lock st;
          (case hw of
             DBG_HW_ADVANCED \<Rightarrow> adv_write c DC_CPU0 (bytes_of_words [data]) 4 1 adr st
           | DBG_HW_LEGACY \<Rightarrow>
               do { (err, st) \<leftarrow> legacy_write c DC_CPU1 0x2 (ntohl_all (bytes_of_words [data])) adr 4 st;
                    st \<leftarrow> dbg_unlock c st;
                    Some (err, st) }) }"

definition dbg_cpu1_write_ctrl :: "'s jtag_cable_t \<Rightarrow> dbg_hw \<Rightarrow> u32 \<Rightarrow> u8 \<Rightarrow> 's jtag op" where
  "dbg_cpu1_write_ctrl c hw adr data st =
     do { st \<leftarrow> dbg_lock st;
          (case hw of
             DBG_HW_ADVANCED \<Rightarrow>
               do { (err, st) \<leftarrow> adbg_select_module c DC_CPU1 st;
                    (if err \<noteq> 0 then do { st \<leftarrow> dbg_unlock c st; Some (err, st) }
                     else do { (err, st) \<leftarrow> adbg_ctrl_write c DBG_CPU1_REG_STATUS [ucast data] 2 st;
                               st \<leftarrow> dbg_unlock c st;
                               Some (err, st) }) }
           | DBG_HW_LEGACY \<Rightarrow>
               do { (err, st) \<leftarrow> run_until_err [legacy_dbg_set_chain c DC_CPU1,
                                                legacy_dbg_ctrl c (ucast (data AND 2)) (ucast (data AND 1))] st;
                    st \<leftarrow> dbg_unlock c st;
                    Some (err, st) }) }"

definition dbg_cpu1_read_ctrl ::
  "'s jtag_cable_t \<Rightarrow> dbg_hw \<Rightarrow> u32 \<Rightarrow> u8 \<Rightarrow> 's jtag \<Rightarrow> (u32 \<times> u8 \<times> 's jtag) option" where
  "dbg_cpu1_read_ctrl c hw adr data st =
     do { st \<leftarrow> dbg_lock st;
          (case hw of
             DBG_HW_ADVANCED \<Rightarrow>
               do { (err, st) \<leftarrow> adbg_select_module c DC_CPU1 st;
                    (if err \<noteq> 0 then do { st \<leftarrow> dbg_unlock c st; Some (err, data, st) }
                     else
                       do { (err, d, st) \<leftarrow> adbg_ctrl_read c DBG_CPU1_REG_STATUS [0] 2 st;
                            st \<leftarrow> dbg_unlock c st;
                            (if err \<noteq> 0 then Some (err, data, st)
                             else do { ws \<leftarrow> d; w \<leftarrow> word_at ws 0; Some (err, ucast w, st) }) }) }
           | DBG_HW_LEGACY \<Rightarrow>
               do { (err, st) \<leftarrow> legacy_dbg_set_chain c DC_CPU1 st;
                    (if err \<noteq> 0 then None
                     else
                       do { (err, (r, s), st) \<leftarrow> legacy_dbg_ctrl_read c st;
                            st \<leftarrow> dbg_unlock c st;
                            Some (err, ucast (push_bit 1 r OR s), st) }) }) }"

subsection \<open>Serial port\<close>

definition dbg_serial_sndrcv ::
  "'s jtag_cable_t \<Rightarrow> nat \<Rightarrow> u8 list \<Rightarrow> 's jtag \<Rightarrow> (u32 \<times> (u8 list \<times> nat) option \<times> 's jtag) option" where
  "dbg_serial_sndrcv c bytes_to_send data_to_send st =
     do { st \<leftarrow> dbg_lock st;
          (err, st) \<leftarrow> adbg_select_module c DC_JSP st;
          (if err \<noteq> 0 then do { st \<leftarrow> dbg_unlock c st; Some (err, None, st) }
           else do { (err, r, st) \<leftarrow> adbg_jsp_transact c bytes_to_send data_to_send st;
                     st \<leftarrow> dbg_unlock c st;
                     Some (err, r, st) }) }"

subsection \<open>The mutex\<close>

text \<open>
  \<open>mutex_free\<close>: started with the mutex free, the call does not find it taken, and gives it back
  on every path on which it returns. That it is free again says that none of the paths forgot the
  unlock; no inner operation touches it.
\<close>

lemma dbg_unlock_free: "dbg_unlock c st = Some st' \<Longrightarrow> \<not> dbg_access_mutex st'"
  by (auto simp: dbg_unlock_def split: Option.bind_splits)

lemma adv_read_free: "adv_read c chain ws wc adr data st = Some (e, d, st') \<Longrightarrow> \<not> dbg_access_mutex st'"
  by (auto simp: adv_read_def split: Option.bind_splits if_splits dest!: dbg_unlock_free)

lemma adv_write_free: "adv_write c chain data ws wc adr st = Some (e, st') \<Longrightarrow> \<not> dbg_access_mutex st'"
  by (auto simp: adv_write_def split: Option.bind_splits if_splits dest!: dbg_unlock_free)

lemmas api_free = dbg_unlock_free adv_read_free adv_write_free

lemma cpu0_read_free: "dbg_cpu0_read c hw adr d st = Some (e, w, st') \<Longrightarrow> \<not> dbg_access_mutex st'"
  by (auto simp: dbg_cpu0_read_def split: dbg_hw.splits Option.bind_splits dest!: api_free)

lemma cpu0_write_free: "dbg_cpu0_write c hw adr d st = Some (e, st') \<Longrightarrow> \<not> dbg_access_mutex st'"
  by (auto simp: dbg_cpu0_write_def split: dbg_hw.splits Option.bind_splits dest!: api_free)

lemma cpu0_read_each_free:
  "cpu0_read_each c hw adr data n st = Some (e, ws, st') \<Longrightarrow> \<not> dbg_access_mutex st \<Longrightarrow> \<not> dbg_access_mutex st'"
proof (induction n arbitrary: adr data st e ws)
  case (Suc n)
  from Suc.prems show ?case
    by (cases data) (auto split: Option.bind_splits dest!: cpu0_read_free dest: Suc.IH)
qed simp

lemma cpu0_write_each_free:
  "cpu0_write_each c hw adr data n st = Some (e, st') \<Longrightarrow> \<not> dbg_access_mutex st \<Longrightarrow> \<not> dbg_access_mutex st'"
proof (induction n arbitrary: adr data st e)
  case (Suc n)
  from Suc.prems show ?case
    by (cases data) (auto split: Option.bind_splits dest!: cpu0_write_free dest: Suc.IH)
qed simp

text \<open>The calls of the API as steps, with whatever arguments and results.\<close>

inductive api_step :: "'s jtag_cable_t \<Rightarrow> dbg_hw \<Rightarrow> 's jtag \<Rightarrow> 's jtag \<Rightarrow> bool" for c hw where
  "dbg_wb_read32 c hw adr d st = Some (e, w, st') \<Longrightarrow> api_step c hw st st'"
| "dbg_wb_write32 c hw adr w st = Some (e, st') \<Longrightarrow> api_step c hw st st'"
| "dbg_wb_write16 c hw adr h st = Some (e, st') \<Longrightarrow> api_step c hw st st'"
| "dbg_wb_write8 c hw adr b st = Some (e, st') \<Longrightarrow> api_step c hw st st'"
| "dbg_wb_read_block32 c hw adr ws n st = Some (e, ws', st') \<Longrightarrow> api_step c hw st st'"
| "dbg_wb_read_block16 c hw adr bs n st = Some (e, bs', st') \<Longrightarrow> api_step c hw st st'"
| "dbg_wb_read_block8 c hw adr bs n st = Some (e, bs', st') \<Longrightarrow> api_step c hw st st'"
| "dbg_wb_write_block32 c hw adr ws n st = Some (e, ws', st') \<Longrightarrow> api_step c hw st st'"
| "dbg_wb_write_block16 c hw adr bs n st = Some (e, bs', st') \<Longrightarrow> api_step c hw st st'"
| "dbg_wb_write_block8 c hw adr bs n st = Some (e, st') \<Longrightarrow> api_step c hw st st'"
| "dbg_cpu0_read c hw adr d st = Some (e, w, st') \<Longrightarrow> api_step c hw st st'"
| "dbg_cpu0_read_block c hw adr ws n st = Some (e, ws', st') \<Longrightarrow> api_step c hw st st'"
| "dbg_cpu0_write c hw adr w st = Some (e, st') \<Longrightarrow> api_step c hw st st'"
| "dbg_cpu0_write_block c hw adr ws n st = Some (e, st') \<Longrightarrow> api_step c hw st st'"
| api_cpu0_write_ctrl: "dbg_cpu0_write_ctrl c hw adr b st = Some (e, st') \<Longrightarrow> api_step c hw st st'"
| "dbg_cpu0_read_ctrl c hw adr b st = Some (e, b', st') \<Longrightarrow> api_step c hw st st'"
| "dbg_cpu1_read c hw adr d st = Some (e, w, st') \<Longrightarrow> api_step c hw st st'"
| "dbg_cpu1_write c hw adr w st = Some (e, st') \<Longrightarrow> api_step c hw st st'"
| "dbg_cpu1_write_ctrl c hw adr b st = Some (e, st') \<Longrightarrow> api_step c hw st st'"
| "dbg_cpu1_read_ctrl c hw adr b st = Some (e, b', st') \<Longrightarrow> api_step c hw st st'"
| "dbg_serial_sndrcv c k bs st = Some (e, r, st') \<Longrightarrow> api_step c hw st st'"

lemmas api_defs = dbg_wb_read32_def dbg_wb_write32_def dbg_wb_write16_def dbg_wb_write8_def
  dbg_wb_read_block32_def dbg_wb_read_block16_def dbg_wb_read_block8_def
  dbg_wb_write_block32_def dbg_wb_write_block16_def dbg_wb_write_block8_def
  dbg_cpu0_read_def dbg_cpu0_read_block_def dbg_cpu0_write_def dbg_cpu0_write_block_def
  dbg_cpu0_write_ctrl_def dbg_cpu0_read_ctrl_def dbg_cpu1_read_def dbg_cpu1_write_def
  dbg_cpu1_write_ctrl_def dbg_cpu1_read_ctrl_def dbg_serial_sndrcv_def

lemma api_step_free: "api_step c hw st st' \<Longrightarrow> \<not> dbg_access_mutex st \<Longrightarrow> \<not> dbg_access_mutex st'"
  by (induction rule: api_step.induct)
    (auto simp: api_defs Let_def split: dbg_hw.splits Option.bind_splits if_splits
      dest!: api_free dest: cpu0_read_each_free cpu0_write_each_free)

subsection \<open>Writing the control register of the CPU module\<close>

lemma dr_write2_hw:
  fixes d :: debug_dev and bs :: "bool list" and ws :: "u32 list"
  assumes "TAP_state d = Run_Test_Idle" "debug_select d" "0 < n"
  defines "R \<equiv> fold shift_in (bs @ stream_bits ws n) (input_shift_reg d)"
  shows "fold hw_step ([TMS, 0, 0] @ data_packets bs @ dr_packets 0 ws n @ [TMS, 0]) d =
     d\<lparr>TAP_state := Run_Test_Idle, input_shift_reg := R,
       module_id_reg := (if bit R 52 \<and> \<not> select_inhibit d then ucast (drop_bit 50 R) else module_id_reg d)\<rparr>"
proof -
  let ?d1 = "d\<lparr>TAP_state := Shift_DR\<rparr>"
  let ?d2 = "?d1\<lparr>input_shift_reg := fold shift_in bs (input_shift_reg d)\<rparr>"
  let ?d3 = "?d2\<lparr>TAP_state := Exit1_DR, input_shift_reg := R\<rparr>"
  have 1: "fold hw_step [TMS, 0, 0] d = ?d1" by (rule walk_to_shift_dr [OF assms(1,2)])
  have "map (\<lambda>p. bit p 0) (data_packets bs) = bs"
    by (simp add: data_packets_def comp_def if_distrib [of "\<lambda>p. bit p 0"] cong: if_cong)
  then have 2: "fold hw_step (data_packets bs) ?d1 = ?d2"
    using assms(2) by (subst shift_dr_bits) (auto simp: debug_select_def data_packets_def split: if_splits)
  have 3: "fold hw_step (stream_packets ws n True) ?d2 = ?d3"
    using assms(2,3) by (subst shift_dr_stream) (simp_all add: debug_select_def R_def)
  have 4: "fold hw_step [TMS, 0] ?d3 = ?d3\<lparr>TAP_state := Run_Test_Idle,
      module_id_reg := (if bit R 52 \<and> \<not> select_inhibit d then ucast (drop_bit 50 R) else module_id_reg d)\<rparr>"
    using assms(2) by (subst walk_exit_dr) (simp_all add: debug_select_def)
  have "fold hw_step ([TMS, 0, 0] @ data_packets bs @ dr_packets 0 ws n @ [TMS, 0]) d =
      fold hw_step [TMS, 0] (fold hw_step (stream_packets ws n True)
        (fold hw_step (data_packets bs) (fold hw_step [TMS, 0, 0] d)))"
    by (simp only: dr_packets_def fold_append o_apply if_True refl)
  also have "\<dots> = d\<lparr>TAP_state := Run_Test_Idle, input_shift_reg := R,
       module_id_reg := (if bit R 52 \<and> \<not> select_inhibit d then ucast (drop_bit 50 R) else module_id_reg d)\<rparr>"
    by (simp only: 1 2 3 4) simp
  finally show ?thesis .
qed

context jtag_cable
begin

lemma clk_ctrl_write:
  assumes "0 < n" "n \<le> 32 * length ws" "m = int n"
  shows "clk st (run_all [tap_set_shift_dr c, jtag_write_stream c ws m False, jtag_write_stream c [cmd] 6 True, tap_exit_to_idle c])
     ([TMS, 0, 0] @ data_packets (stream_bits ws n) @ dr_packets (global_DR_prefix_bits st) [cmd] 6 @ [TMS, 0])"
  using clk_Cons [OF clk_shift_dr clk_Cons [OF clk_write_stream_plain [OF assms]
      clk_Cons [OF clk_write_stream_tms [of 6 "[cmd]" 6] clk_Cons [OF clk_exit_to_idle clk_Nil]]], of st]
  by (simp add: stream_packets_data)

lemma ctrl_write_cpu0:
  assumes "ok (cable st)" and "current_chain st = DC_CPU0" "desired_chain st = DC_CPU0" "length (current_reg_idx st) = DBG_MAX_MODULES"
  obtains st' where "adbg_ctrl_write c DBG_CPU0_REG_STATUS [w] 2 st = Some (0, st')" "ok (cable st')"
    "dbg_access_mutex st' = dbg_access_mutex st"
    "dev (cable st') = fold step ([TMS, 0, 0] @ data_packets [bit w 0, bit w 1]
        @ dr_packets (global_DR_prefix_bits st) [0x12] 6 @ [TMS, 0]) (dev (cable st))"
proof -
  let ?ops = "[tap_set_shift_dr c, jtag_write_stream c [w] 2 False, jtag_write_stream c [0x12] 6 True, tap_exit_to_idle c]"
  obtain s' where s': "run_all ?ops st = Some (0, st\<lparr>cable := s'\<rparr>)" "ok s'"
    "dev s' = fold step ([TMS, 0, 0] @ data_packets (stream_bits [w] 2)
        @ dr_packets (global_DR_prefix_bits st) [0x12] 6 @ [TMS, 0]) (dev (cable st))"
    using clk_apply [OF clk_ctrl_write [of 2 "[w]" 2 st "0x12"] assms(1)] by auto
  have bits: "stream_bits [w] 2 = [bit w 0, bit w 1]"
    using stream_bits_single [of 2 w "[]"] by (simp add: upt_rec)
  have cmd: "ireg_wr_cmd 1 = Some (1, 9)" "reg_command 9 1 0 = 0x12"
    by (simp_all add: ireg_wr_cmd_def dc_defs dbg_cmd_defs reg_command_def)
  have "adbg_ctrl_write c DBG_CPU0_REG_STATUS [w] 2 st =
      Some (0, st\<lparr>cable := s', soft_retry_no := 0, current_reg_idx := (current_reg_idx st)[1 := 0]\<rparr>)"
    using s'(1) assms(2-4)
    by (simp add: adbg_ctrl_write_def adbg_select_module_def APP_ERR_NONE_def cmd DBG_CPU0_REG_STATUS_def
        reg_idx_put_def retry_ok_def DC_CPU0_def DBG_MAX_MODULES_def del: run_all.simps)
  with s'(2,3) bits that show thesis by simp
qed

end

text \<open>The state of the bridge and the selection in the hardware agree.\<close>

definition coherent :: "'s jtag \<Rightarrow> debug_dev \<Rightarrow> bool" where
  "coherent st d \<longleftrightarrow> TAP_state d = Run_Test_Idle \<and> debug_select d \<and> \<not> select_inhibit d
     \<and> (current_chain st = desired_chain st \<or> current_chain st = -1)
     \<and> (current_chain st \<noteq> -1 \<longrightarrow> module_id_reg d = of_int (current_chain st))"

lemma select_cpu0_coherent:
  assumes "jtag_cable c dev ok hw_step tdo" and "ok (cable st)" and "global_DR_prefix_bits st = 0"
    and "coherent st (dev (cable st))"
  obtains s' where "adbg_select_module c DC_CPU0 st =
      Some (0, st\<lparr>cable := s', current_chain := DC_CPU0, desired_chain := DC_CPU0\<rparr>)" "ok s'"
    "TAP_state (dev s') = Run_Test_Idle" "debug_select (dev s')" "\<not> select_inhibit (dev s')" "module_id_reg (dev s') = 1"
proof (cases "current_chain st = DC_CPU0")
  case True
  moreover from True assms(4) have "desired_chain st = DC_CPU0" by (auto simp: coherent_def DC_CPU0_def)
  ultimately have "st\<lparr>cable := cable st, current_chain := DC_CPU0, desired_chain := DC_CPU0\<rparr> = st"
    by (cases st) simp
  with True assms(2,4) show thesis
    by (intro that [of "cable st"]) (auto simp: adbg_select_module_def coherent_def APP_ERR_NONE_def DC_CPU0_def)
next
  case False
  let ?d = "dev (cable st)" and ?ws = "[of_int DC_CPU0 OR 4] :: u32 list"
  obtain s' where s': "adbg_select_module c DC_CPU0 st =
      Some (0, st\<lparr>cable := s', current_chain := DC_CPU0, desired_chain := DC_CPU0\<rparr>)" "ok s'"
    "dev s' = fold hw_step ([TMS, 0, 0] @ dr_packets 0 ?ws 3 @ [TMS, 0]) ?d"
    using jtag_cable.select_module_succeeds [OF assms(1,2) False] assms(3) by metis
  define R where "R = fold shift_in (stream_bits ?ws 3) (input_shift_reg ?d)"
  have "dev s' = ?d\<lparr>TAP_state := Run_Test_Idle, input_shift_reg := R,
      module_id_reg := (if bit R 52 \<and> \<not> select_inhibit ?d then ucast (drop_bit 50 R) else module_id_reg ?d)\<rparr>"
    using dr_write_hw [of ?d 3 ?ws] assms(4) by (simp add: s'(3) R_def coherent_def)
  moreover have R: "bit R k = stream_bit ?ws (k - 50)" if "50 \<le> k" "k < 53" for k
    using that by (simp add: R_def bit_input_shift)
  have "bit R 52" "bit R 50" "\<not> bit R 51"
    by (simp_all add: R stream_bit_def DC_CPU0_def)
  moreover from this have "ucast (drop_bit 50 R) = (1 :: 2 word)"
    by (intro bit_word_eqI) (auto simp: bit_ucast_iff bit_drop_bit_eq bit_1_iff less_2_cases_iff)
  ultimately show thesis
    using s'(1,2) assms(4) by (intro that [of s']) (simp_all add: coherent_def debug_select_def)
qed

lemma unlock_ok:
  assumes "jtag_cable c dev ok step tdo" and "ok (cable st)"
  obtains s' where "dbg_unlock c st = Some (st\<lparr>cable := s', dbg_access_mutex := False\<rparr>)" "ok s'" "dev s' = dev (cable st)"
  using jtag_cable.flush_ok [OF assms] that by (auto simp: dbg_unlock_def)

lemma cpu0_write_ctrl_lands:
  assumes "jtag_cable c dev ok hw_step tdo" and "ok (cable st)" and "global_DR_prefix_bits st = 0"
    and "coherent st (dev (cable st))" and "length (current_reg_idx st) = DBG_MAX_MODULES" and "\<not> dbg_access_mutex st"
  shows "\<exists>st'. dbg_cpu0_write_ctrl c DBG_HW_ADVANCED adr data st = Some (APP_ERR_NONE, st')
     \<and> \<not> dbg_access_mutex st' \<and> TAP_state (dev (cable st')) = Run_Test_Idle
     \<and> module_id_reg (dev (cable st')) = 1
     \<and> (ucast (drop_bit 45 (input_shift_reg (dev (cable st')))) :: u8) = 0x48 OR (data AND 3)"
proof -
  define st0 where "st0 = st\<lparr>dbg_access_mutex := True\<rparr>"
  have st0: "ok (cable st0)" "global_DR_prefix_bits st0 = 0" "coherent st0 (dev (cable st0))"
    using assms(2-4) by (simp_all add: st0_def coherent_def)
  obtain s1 where s1: "adbg_select_module c DC_CPU0 st0 =
      Some (0, st0\<lparr>cable := s1, current_chain := DC_CPU0, desired_chain := DC_CPU0\<rparr>)" "ok s1"
    "TAP_state (dev s1) = Run_Test_Idle" "debug_select (dev s1)" "\<not> select_inhibit (dev s1)" "module_id_reg (dev s1) = 1"
    using select_cpu0_coherent [OF assms(1) st0] .
  define st1 where "st1 = st0\<lparr>cable := s1, current_chain := DC_CPU0, desired_chain := DC_CPU0\<rparr>"
  have st1: "ok (cable st1)" "current_chain st1 = DC_CPU0" "desired_chain st1 = DC_CPU0"
    "length (current_reg_idx st1) = DBG_MAX_MODULES" "global_DR_prefix_bits st1 = 0"
    using s1(2) assms(5) st0(2) by (simp_all add: st1_def st0_def)
  obtain st2 where st2: "adbg_ctrl_write c DBG_CPU0_REG_STATUS [ucast data] 2 st1 = Some (0, st2)" "ok (cable st2)"
    "dev (cable st2) = fold hw_step ([TMS, 0, 0] @ data_packets [bit (ucast data :: u32) 0, bit (ucast data :: u32) 1]
        @ dr_packets 0 [0x12] 6 @ [TMS, 0]) (dev (cable st1))"
    using jtag_cable.ctrl_write_cpu0 [OF assms(1) st1(1-4), of "ucast data"] st1(5) by metis
  define bs where "bs = [bit (ucast data :: u32) 0, bit (ucast data :: u32) 1] @ stream_bits [0x12] 6"
  define R where "R = fold shift_in bs (input_shift_reg (dev s1))"
  have bs: "bs = [bit data 0, bit data 1, False, True, False, False, True, False]"
    using stream_bits_single [of 6 "0x12" "[]"] by (simp add: bs_def bit_ucast_iff upt_rec)
  have bs_len: "length bs = 8" by (simp add: bs)
  have R: "bit R k = bs ! (k - 45)" if "45 \<le> k" "k < 53" for k
    using that bs_len by (simp add: R_def bit_fold_shift_in del: fold_simps)
  obtain s3 where s3: "dbg_unlock c st2 = Some (st2\<lparr>cable := s3, dbg_access_mutex := False\<rparr>)" "dev s3 = dev (cable st2)"
    using unlock_ok [OF assms(1) st2(2)] by metis
  have "\<not> bit R 52" by (simp add: R bs)
  then have dev: "dev s3 = (dev s1)\<lparr>TAP_state := Run_Test_Idle, input_shift_reg := R\<rparr>"
    using dr_write2_hw [OF s1(3,4), of 6 "[bit (ucast data :: u32) 0, bit (ucast data :: u32) 1]" "[0x12]"]
    by (simp add: s3(2) st2(3) st1_def R_def bs_def)
  have "(ucast (drop_bit 45 R) :: u8) = 0x48 OR (data AND 3)"
  proof (rule bit_word_eqI)
    fix k assume "k < LENGTH(8)"
    then have "k = 0 \<or> k = 1 \<or> k = 2 \<or> k = 3 \<or> k = 4 \<or> k = 5 \<or> k = 6 \<or> k = 7" by auto
    then show "bit (ucast (drop_bit 45 R) :: u8) k = bit (0x48 OR (data AND 3)) k"
      by (elim disjE) (simp_all add: bit_ucast_iff bit_drop_bit_eq R bs bit_or_iff bit_and_iff)
  qed
  moreover have "dbg_cpu0_write_ctrl c DBG_HW_ADVANCED adr data st = Some (0, st2\<lparr>cable := s3, dbg_access_mutex := False\<rparr>)"
    using s1(1) st2(1) s3(1) assms(6)
    by (simp add: dbg_cpu0_write_ctrl_def dbg_lock_def st0_def [symmetric] st1_def [symmetric])
  ultimately show ?thesis
    using dev s1(6) by (simp add: APP_ERR_NONE_def)
qed

subsection \<open>The reset bit of the legacy unit\<close>

lemma legacy_word_low_bit:
  assumes "bit w 0 = bit w' 0"
  shows "legacy_write_stream c w 1 l = legacy_write_stream c w' 1 l"
proof -
  have "w AND 1 = w' AND 1" using assms by (simp add: and_one_eq bit_0 mod_2_eq_odd)
  then show ?thesis using assms by (intro ext) (simp add: legacy_write_stream_def legacy_crc_word_def)
qed

lemma legacy_transact_cong:
  assumes "legacy_write_words c outs = legacy_write_words c outs'"
  shows "legacy_transact c fuel outs lens st = legacy_transact c fuel outs' lens st"
proof (induction fuel arbitrary: st)
  case 0
  show ?case by simp
next
  case (Suc fuel)
  have "legacy_exchange c outs lens = legacy_exchange c outs' lens"
    by (rule ext) (simp add: legacy_exchange_def assms)
  with Suc show ?case by (simp cong: if_cong)
qed

lemma legacy_ctrl_no_reset: "legacy_dbg_ctrl c (ucast (d AND 2 :: u8)) s = legacy_dbg_ctrl c 0 s"
proof -
  have bit: "bit (ucast (d AND 2) :: u32) 0 = bit (0 :: u32) 0" by (simp add: bit_ucast_iff bit_and_iff)
  have tail: "legacy_write_words c ((ucast (d AND 2), 1) # ws) = legacy_write_words c ((0, 1) # ws)" for ws
    by (rule ext) (simp only: legacy_write_words.simps legacy_word_low_bit [OF bit])
  have "legacy_write_words c ((a, n) # (ucast (d AND 2), 1) # ws) = legacy_write_words c ((a, n) # (0, 1) # ws)" for a n ws
    by (rule ext) (simp only: legacy_write_words.simps(2) [of c a n] tail)
  note swap = legacy_transact_cong [OF this]
  show ?thesis unfolding legacy_dbg_ctrl_def by (rule ext) (simp only: swap)
qed

text \<open>On the advanced unit a write to CPU1 goes to CPU0.\<close>

lemma cpu1_write_reaches_cpu0: "dbg_cpu1_write c DBG_HW_ADVANCED adr data st = dbg_cpu0_write c DBG_HW_ADVANCED adr data st"
  by (simp add: dbg_cpu1_write_def dbg_cpu0_write_def)

subsection \<open>Properties\<close>

text \<open>
  \<open>dbg_cpu0_write_ctrl\<close> on the advanced unit, from any state in which the bridge and the hardware
  agree on the selected module: CPU0 ends up selected in adbg_top.v, the last eight bits shifted into
  the input register are a clear top bit, the opcode 9 (write internal register), register index 0 and the
  two control bits (reset, stall), the TAP is idle, and the mutex is free again.
\<close>

theorem dbg_cpu0_write_ctrl_hw:
  assumes "jtag_cable c dev ok hw_step tdo" and "ok (cable st)" and "global_DR_prefix_bits st = 0"
    and "coherent st (dev (cable st))" and "length (current_reg_idx st) = DBG_MAX_MODULES" and "\<not> dbg_access_mutex st"
  shows "\<exists>st'. dbg_cpu0_write_ctrl c DBG_HW_ADVANCED adr data st = Some (APP_ERR_NONE, st')
     \<and> \<not> dbg_access_mutex st' \<and> TAP_state (dev (cable st')) = Run_Test_Idle
     \<and> module_id_reg (dev (cable st')) = 1
     \<and> (ucast (drop_bit 45 (input_shift_reg (dev (cable st')))) :: u8) = 0x48 OR (data AND 3)"
  using assms by (rule cpu0_write_ctrl_lands)

theorem dbg_cpu0_write_ctrl_hw_witness:
  "\<exists>st'. dbg_cpu0_write_ctrl xess DBG_HW_ADVANCED 0 1 (board (idle_dev\<lparr>latched_jtag_ir := DEBUG\<rparr>)) = Some (APP_ERR_NONE, st')
     \<and> module_id_reg (board_dev (cable st')) = 1
     \<and> (ucast (drop_bit 45 (input_shift_reg (board_dev (cable st')))) :: u8) = 0x49"
  using dbg_cpu0_write_ctrl_hw [OF xess_cable, of "board (idle_dev\<lparr>latched_jtag_ir := DEBUG\<rparr>)" 0 1]
  by (auto simp: coherent_def idle_dev_def power_on_dev_def debug_select_def DBG_MAX_MODULES_def)

text \<open>
  C9. After any sequence of calls of the debug API, successful or failing, on either kind of hardware,
  the access mutex is free if it was free before, so the next call can take it.
\<close>

theorem api_mutex_free:
  assumes "(api_step c hw)\<^sup>*\<^sup>* st st'" and "\<not> dbg_access_mutex st"
  shows "\<not> dbg_access_mutex st' \<and> dbg_lock st' \<noteq> None"
  using assms by (induction rule: rtranclp_induct) (auto simp: dbg_lock_def dest: api_step_free)

theorem api_mutex_free_witness:
  "\<exists>st'. api_step xess DBG_HW_ADVANCED (board (idle_dev\<lparr>latched_jtag_ir := DEBUG\<rparr>)) st' \<and> dbg_lock st' \<noteq> None"
proof -
  let ?st = "board (idle_dev\<lparr>latched_jtag_ir := DEBUG\<rparr>)"
  obtain st' where "dbg_cpu0_write_ctrl xess DBG_HW_ADVANCED 0 1 ?st = Some (APP_ERR_NONE, st')"
    using cpu0_write_ctrl_lands [OF xess_cable, of ?st 0 1]
    by (auto simp: coherent_def idle_dev_def power_on_dev_def debug_select_def DBG_MAX_MODULES_def)
  then have "api_step xess DBG_HW_ADVANCED ?st st'" by (rule api_cpu0_write_ctrl)
  with api_mutex_free [OF r_into_rtranclp, OF this] show ?thesis by auto
qed

text \<open>
  On the legacy unit the reset request is lost: \<open>dbg_cpu0_write_ctrl\<close> does the same with and without
  the reset bit, because the bit is passed as the value 2 and sent as its lowest bit.
\<close>

theorem legacy_reset_lost:
  "dbg_cpu0_write_ctrl c DBG_HW_LEGACY adr data st = dbg_cpu0_write_ctrl c DBG_HW_LEGACY adr (data AND NOT 2) st"
proof -
  have "(data AND NOT 2) AND 1 = data AND 1"
    by (rule bit_word_eqI) (auto simp: bit_and_iff bit_1_iff bit_not_iff)
  then show ?thesis by (simp add: dbg_cpu0_write_ctrl_def legacy_ctrl_no_reset del: word_and_not)
qed

end
