(* ===== verification/Hardware_Monitor.thy ===== *)
theory Hardware_Monitor
  imports Dbg_Api
begin

unbundle bit_operations_syntax

text \<open>
  hardware_monitor.c: the thread that owns the run state of the CPU. The servers register a pair of
  pipes each; the thread takes the commands \<open>S\<close> (stall) and \<open>U\<close> (unstall) from them, polls the CPU
  while it runs, and tells every registered server \<open>H\<close> (halted) or \<open>R\<close> (running).

  The state of the process that the servers and the monitor share is the record \<open>bridge\<close>; the servers
  extend it. \<open>connections\<close> is the used part of the array of the source, so \<open>num_monitor_connections\<close>
  is its length. A pipe is its two descriptors and the bytes in it; closing either end, which the
  source does to both at once, removes it; a write to a descriptor that is no pipe is lost. The
  answers of the operating system (\<open>pipe\<close>, \<open>select\<close>, \<open>pthread_create\<close>) are arguments. The endless loop
  of the thread is a step relation over one pass of its body. Locking a mutex this thread of control
  has not released never returns (\<open>None\<close>).
\<close>

record fdstruct =
  s2m_rd :: int
  s2m_wr :: int
  m2s_rd :: int
  m2s_wr :: int

record pipe =
  rd_end :: int
  wr_end :: int
  in_pipe :: "u8 list"

record 's bridge =
  jtag :: "'s jtag"
  pipes :: "pipe list"
  target_is_running :: bool
  monitor_thread_running :: bool
  connections :: "fdstruct list"
  pipes_mutex :: bool

definition MAX_MONITOR_CONNECTIONS :: nat where "MAX_MONITOR_CONNECTIONS = 5"

subsection \<open>Pipes\<close>

definition write_pipe :: "int \<Rightarrow> u8 \<Rightarrow> ('s, 'z) bridge_scheme \<Rightarrow> ('s, 'z) bridge_scheme" where
  "write_pipe fd b w =
     w\<lparr>pipes := map (\<lambda>p. if wr_end p = fd then p\<lparr>in_pipe := in_pipe p @ [b]\<rparr> else p) (pipes w)\<rparr>"

definition close_fd :: "int \<Rightarrow> ('s, 'z) bridge_scheme \<Rightarrow> ('s, 'z) bridge_scheme" where
  "close_fd fd w = w\<lparr>pipes := filter (\<lambda>p. rd_end p \<noteq> fd \<and> wr_end p \<noteq> fd) (pipes w)\<rparr>"

definition open_pipe :: "int \<times> int \<Rightarrow> ('s, 'z) bridge_scheme \<Rightarrow> ('s, 'z) bridge_scheme" where
  "open_pipe fds w = w\<lparr>pipes := pipes w @ [\<lparr>rd_end = fst fds, wr_end = snd fds, in_pipe = []\<rparr>]\<rparr>"

fun take_from :: "int \<Rightarrow> pipe list \<Rightarrow> (u8 \<times> pipe list) option option" where
  "take_from fd [] = Some None"
| "take_from fd (p # ps) =
     (if rd_end p = fd
      then (case in_pipe p of [] \<Rightarrow> None | b # bs \<Rightarrow> Some (Some (b, p\<lparr>in_pipe := bs\<rparr> # ps)))
      else map_option (map_option (\<lambda>(b, ps). (b, p # ps))) (take_from fd ps))"

text \<open>
  \<open>read(fd, &cmd, 1)\<close>: the byte, or nothing when the descriptor is no pipe (the call fails). Reading
  an empty pipe blocks.
\<close>

definition read_pipe :: "int \<Rightarrow> ('s, 'z) bridge_scheme \<Rightarrow> (u8 option \<times> ('s, 'z) bridge_scheme) option" where
  "read_pipe fd w =
     (case take_from fd (pipes w) of
        None \<Rightarrow> None
      | Some None \<Rightarrow> Some (None, w)
      | Some (Some (b, ps)) \<Rightarrow> Some (Some b, w\<lparr>pipes := ps\<rparr>))"

definition lock_pipes :: "('s, 'z) bridge_scheme \<Rightarrow> ('s, 'z) bridge_scheme option" where
  "lock_pipes w = (if pipes_mutex w then None else Some (w\<lparr>pipes_mutex := True\<rparr>))"

definition unlock_pipes :: "('s, 'z) bridge_scheme \<Rightarrow> ('s, 'z) bridge_scheme" where
  "unlock_pipes w = w\<lparr>pipes_mutex := False\<rparr>"

subsection \<open>Registration\<close>

definition start_monitor_thread :: "bool \<Rightarrow> ('s, 'z) bridge_scheme \<Rightarrow> int \<times> ('s, 'z) bridge_scheme" where
  "start_monitor_thread created w =
     (let w = w\<lparr>target_is_running := True\<rparr> in
      if \<not> created then (0, w) else (1, w\<lparr>monitor_thread_running := True\<rparr>))"

text \<open>
  \<open>p1\<close> and \<open>p2\<close> are the descriptors the two calls of \<open>pipe\<close> return, reading end first, or \<open>None\<close> when
  the call fails. Both failure paths return with the mutex held.
\<close>

definition register_with_monitor_thread ::
  "(int \<times> int) option \<Rightarrow> (int \<times> int) option \<Rightarrow> int \<times> int \<Rightarrow> ('s, 'z) bridge_scheme \<Rightarrow>
     (int \<times> (int \<times> int) \<times> ('s, 'z) bridge_scheme) option" where
  "register_with_monitor_thread p1 p2 pipe_fds w =
     (if \<not> monitor_thread_running w then Some (0, pipe_fds, w)
      else if length (connections w) \<ge> MAX_MONITOR_CONNECTIONS then Some (0, pipe_fds, w)
      else
        do { w \<leftarrow> lock_pipes w;
             (case p1 of
                None \<Rightarrow> Some (0, pipe_fds, w)
              | Some (r1, w1) \<Rightarrow>
                  (let w = open_pipe (r1, w1) w in
                   case p2 of
                     None \<Rightarrow> Some (0, pipe_fds, w)
                   | Some (r2, w2) \<Rightarrow>
                       (let w = open_pipe (r2, w2) w;
                            conn = \<lparr>s2m_rd = r1, s2m_wr = w1, m2s_rd = r2, m2s_wr = w2\<rparr>;
                            w = w\<lparr>connections := connections w @ [conn]\<rparr>
                        in Some (1, (w1, r2), unlock_pipes w)))) })"

text \<open>The entry with the two descriptors leaves the array; the last entry takes its place.\<close>

definition is_conn :: "int \<times> int \<Rightarrow> fdstruct \<Rightarrow> bool" where
  "is_conn pipe_fds conn \<longleftrightarrow> s2m_wr conn = fst pipe_fds \<and> m2s_rd conn = snd pipe_fds"

fun find_conn :: "int \<times> int \<Rightarrow> fdstruct list \<Rightarrow> nat option" where
  "find_conn pipe_fds [] = None"
| "find_conn pipe_fds (conn # conns) =
     (if is_conn pipe_fds conn then Some 0 else map_option Suc (find_conn pipe_fds conns))"

definition drop_conn :: "nat \<Rightarrow> fdstruct list \<Rightarrow> fdstruct list" where
  "drop_conn i conns = butlast (if i \<noteq> length conns - 1 then conns[i := last conns] else conns)"

definition unregister_with_monitor_thread ::
  "int \<times> int \<Rightarrow> ('s, 'z) bridge_scheme \<Rightarrow> ((int \<times> int) \<times> ('s, 'z) bridge_scheme) option" where
  "unregister_with_monitor_thread pipe_fds w =
     (if fst pipe_fds < 0 \<or> snd pipe_fds < 0 then Some (pipe_fds, w)
      else
        do { w \<leftarrow> lock_pipes w;
             (case find_conn pipe_fds (connections w) of
                None \<Rightarrow> Some (pipe_fds, unlock_pipes w)
              | Some i \<Rightarrow>
                  (let conn = connections w ! i;
                       w = close_fd (m2s_wr conn) (close_fd (m2s_rd conn)
                             (close_fd (s2m_wr conn) (close_fd (s2m_rd conn) w)));
                       w = w\<lparr>connections := drop_conn i (connections w)\<rparr>
                   in Some ((-1, -1), unlock_pipes w))) })"

subsection \<open>The monitor thread\<close>

definition on_jtag :: "'s jtag op \<Rightarrow> ('s, 'z) bridge_scheme \<Rightarrow> (u32 \<times> ('s, 'z) bridge_scheme) option" where
  "on_jtag f w = do { (e, st) \<leftarrow> f (jtag w); Some (e, w\<lparr>jtag := st\<rparr>) }"

definition on_jtag2 ::
  "('s jtag \<Rightarrow> (u32 \<times> 'v \<times> 's jtag) option) \<Rightarrow> ('s, 'z) bridge_scheme \<Rightarrow> (u32 \<times> 'v \<times> ('s, 'z) bridge_scheme) option" where
  "on_jtag2 f w = do { (e, v, st) \<leftarrow> f (jtag w); Some (e, v, w\<lparr>jtag := st\<rparr>) }"

text \<open>An error of the hardware access is printed; the run state is noted as if it had worked.\<close>

definition stall_cpu :: "'s jtag_cable_t \<Rightarrow> dbg_hw \<Rightarrow> int \<Rightarrow> ('s, 'z) bridge_scheme \<Rightarrow> ('s, 'z) bridge_scheme option" where
  "stall_cpu c hw stall w =
     (let data = (if stall > 0 then 1 else 0) in
      do { (_, w) \<leftarrow> on_jtag (dbg_cpu0_write_ctrl c hw 0 data) w;
           Some (w\<lparr>target_is_running := (data = 0)\<rparr>) })"

definition notify_listeners :: "u8 \<Rightarrow> ('s, 'z) bridge_scheme \<Rightarrow> ('s, 'z) bridge_scheme" where
  "notify_listeners b w = fold (\<lambda>conn. write_pipe (m2s_wr conn) b) (connections w) w"

definition ch_H :: u8 where "ch_H = 0x48"
definition ch_R :: u8 where "ch_R = 0x52"
definition ch_S :: u8 where "ch_S = 0x53"
definition ch_U :: u8 where "ch_U = 0x55"

definition monitor_command :: "'s jtag_cable_t \<Rightarrow> dbg_hw \<Rightarrow> u8 \<Rightarrow> ('s, 'z) bridge_scheme \<Rightarrow> ('s, 'z) bridge_scheme option" where
  "monitor_command c hw cmd w =
     (if cmd = ch_S then
        do { w \<leftarrow> (if target_is_running w then stall_cpu c hw 1 w else Some w);
             Some (notify_listeners ch_H w) }
      else if cmd = ch_U then
        do { w \<leftarrow> (if \<not> target_is_running w then stall_cpu c hw 0 w else Some w);
             Some (notify_listeners ch_R w) }
      else Some w)"

text \<open>One pass over the connections; \<open>ready\<close> are the descriptors \<open>select\<close> left in the set.\<close>

fun serve_connections ::
  "'s jtag_cable_t \<Rightarrow> dbg_hw \<Rightarrow> int list \<Rightarrow> fdstruct list \<Rightarrow> ('s, 'z) bridge_scheme \<Rightarrow> ('s, 'z) bridge_scheme option" where
  "serve_connections c hw ready [] w = Some w"
| "serve_connections c hw ready (conn # conns) w =
     (if s2m_rd conn \<in> set ready
      then do { (b, w) \<leftarrow> read_pipe (s2m_rd conn) w;
                w \<leftarrow> (case b of Some cmd \<Rightarrow> monitor_command c hw cmd w | None \<Rightarrow> Some w);
                serve_connections c hw ready conns w }
      else serve_connections c hw ready conns w)"

definition poll_target :: "'s jtag_cable_t \<Rightarrow> dbg_hw \<Rightarrow> u8 \<Rightarrow> ('s, 'z) bridge_scheme \<Rightarrow> ('s, 'z) bridge_scheme option" where
  "poll_target c hw junk w =
     (if target_is_running w then
        do { (ret, target_status, w) \<leftarrow> on_jtag2 (dbg_cpu0_read_ctrl c hw 0 junk) w;
             (if ret \<noteq> APP_ERR_NONE then Some w
              else if target_status AND 1 \<noteq> 0 then
                do { w \<leftarrow> lock_pipes (w\<lparr>target_is_running := False\<rparr>);
                     Some (unlock_pipes (notify_listeners ch_H w)) }
              else Some w) }
      else Some w)"

datatype select_result = Select_error | Select_timeout | Select_ready "int list"

text \<open>
  The body of the loop of \<open>target_handler\<close>: the mutex is taken to collect the descriptors, then
  \<open>select\<close> answers, then either the commands are served or the CPU is polled. \<open>junk\<close> is what the
  uninitialised \<open>target_status\<close> holds.
\<close>

definition target_handler_pass ::
  "'s jtag_cable_t \<Rightarrow> dbg_hw \<Rightarrow> select_result \<Rightarrow> u8 \<Rightarrow> ('s, 'z) bridge_scheme \<Rightarrow> ('s, 'z) bridge_scheme option" where
  "target_handler_pass c hw sel junk w =
     do { w \<leftarrow> lock_pipes w;
          let w = unlock_pipes w;
          (case sel of
             Select_ready ready \<Rightarrow>
               do { w \<leftarrow> lock_pipes w;
                    w \<leftarrow> serve_connections c hw ready (connections w) w;
                    Some (unlock_pipes w) }
           | _ \<Rightarrow> poll_target c hw junk w) }"

text \<open>What the process can do to the shared state: a pass of the monitor, a server that registers or leaves.\<close>

inductive monitor_step :: "'s jtag_cable_t \<Rightarrow> dbg_hw \<Rightarrow> 's bridge \<Rightarrow> 's bridge \<Rightarrow> bool" for c hw where
  ms_pass: "target_handler_pass c hw sel junk w = Some w' \<Longrightarrow> monitor_step c hw w w'"
| ms_register: "register_with_monitor_thread p1 p2 fds w = Some (r, fds', w') \<Longrightarrow> monitor_step c hw w w'"
| ms_unregister: "unregister_with_monitor_thread fds w = Some (fds', w') \<Longrightarrow> monitor_step c hw w w'"
| ms_server_write: "w' = write_pipe fd b w \<Longrightarrow> monitor_step c hw w w'"

text \<open>A registration that gets as far as the pipes, and cannot create one.\<close>

definition pipe_failed :: "'s bridge \<Rightarrow> 's bridge \<Rightarrow> bool" where
  "pipe_failed w w' \<longleftrightarrow> monitor_thread_running w \<and> length (connections w) < MAX_MONITOR_CONNECTIONS
     \<and> (\<exists>p1 p2 fds. (p1 = None \<or> p2 = None) \<and> register_with_monitor_thread p1 p2 fds w = Some (0, fds, w'))"

inductive_cases monitor_stepE: "monitor_step c hw w w'"


subsection \<open>What the steps keep\<close>

lemma write_pipe_frame [simp]:
  "jtag (write_pipe fd b w) = jtag w" "connections (write_pipe fd b w) = connections w"
  "pipes_mutex (write_pipe fd b w) = pipes_mutex w" "target_is_running (write_pipe fd b w) = target_is_running w"
  "monitor_thread_running (write_pipe fd b w) = monitor_thread_running w"
  by (simp_all add: write_pipe_def)

lemma close_fd_frame [simp]:
  "jtag (close_fd fd w) = jtag w" "connections (close_fd fd w) = connections w"
  "pipes_mutex (close_fd fd w) = pipes_mutex w" "target_is_running (close_fd fd w) = target_is_running w"
  "monitor_thread_running (close_fd fd w) = monitor_thread_running w"
  by (simp_all add: close_fd_def)

lemma fold_write_pipe_frame [simp]:
  "jtag (fold (\<lambda>x. write_pipe (f x) b) xs w) = jtag w"
  "connections (fold (\<lambda>x. write_pipe (f x) b) xs w) = connections w"
  "pipes_mutex (fold (\<lambda>x. write_pipe (f x) b) xs w) = pipes_mutex w"
  "target_is_running (fold (\<lambda>x. write_pipe (f x) b) xs w) = target_is_running w"
  "monitor_thread_running (fold (\<lambda>x. write_pipe (f x) b) xs w) = monitor_thread_running w"
  by (induction xs arbitrary: w) simp_all

lemma notify_frame [simp]:
  "jtag (notify_listeners b w) = jtag w" "connections (notify_listeners b w) = connections w"
  "pipes_mutex (notify_listeners b w) = pipes_mutex w"
  "target_is_running (notify_listeners b w) = target_is_running w"
  "monitor_thread_running (notify_listeners b w) = monitor_thread_running w"
  by (simp_all add: notify_listeners_def)

lemma stall_cpu_frame:
  "stall_cpu c hw s w = Some w' \<Longrightarrow>
     connections w' = connections w \<and> pipes w' = pipes w \<and> pipes_mutex w' = pipes_mutex w
     \<and> target_is_running w' = (s \<le> 0) \<and> (\<not> dbg_access_mutex (jtag w) \<longrightarrow> \<not> dbg_access_mutex (jtag w'))"
  by (auto simp: stall_cpu_def on_jtag_def Let_def split: Option.bind_splits if_splits
      dest!: api_step_free [OF api_cpu0_write_ctrl])

lemma read_pipe_frame:
  "read_pipe fd w = Some (b, w') \<Longrightarrow>
     jtag w' = jtag w \<and> connections w' = connections w \<and> pipes_mutex w' = pipes_mutex w"
  by (auto simp: read_pipe_def split: option.splits)

text \<open>
  The monitor's own invariant: no more connections than the array holds, and the mutex of the debug
  interface free.
\<close>

definition monitor_inv :: "('s, 'z) bridge_scheme \<Rightarrow> bool" where
  "monitor_inv w \<longleftrightarrow> length (connections w) \<le> MAX_MONITOR_CONNECTIONS \<and> \<not> dbg_access_mutex (jtag w)"

lemma monitor_command_inv:
  "monitor_command c hw cmd w = Some w' \<Longrightarrow> monitor_inv w \<Longrightarrow>
     monitor_inv w' \<and> connections w' = connections w \<and> pipes_mutex w' = pipes_mutex w"
  by (auto simp: monitor_command_def monitor_inv_def split: Option.bind_splits if_splits dest!: stall_cpu_frame)

lemma serve_connections_inv:
  "serve_connections c hw ready conns w = Some w' \<Longrightarrow> monitor_inv w \<Longrightarrow>
     monitor_inv w' \<and> connections w' = connections w \<and> pipes_mutex w' = pipes_mutex w"
proof (induction conns arbitrary: w)
  case (Cons conn conns)
  show ?case
  proof (cases "s2m_rd conn \<in> set ready")
    case True
    with Cons.prems obtain b w1 w2 where
      rd: "read_pipe (s2m_rd conn) w = Some (b, w1)" and
      cmd: "(case b of Some cmd \<Rightarrow> monitor_command c hw cmd w1 | None \<Rightarrow> Some w1) = Some w2" and
      rest: "serve_connections c hw ready conns w2 = Some w'"
      by (auto split: Option.bind_splits)
    from read_pipe_frame [OF rd] Cons.prems(2) have w1: "monitor_inv w1" "connections w1 = connections w"
      "pipes_mutex w1 = pipes_mutex w" by (auto simp: monitor_inv_def)
    with cmd have "monitor_inv w2 \<and> connections w2 = connections w1 \<and> pipes_mutex w2 = pipes_mutex w1"
      by (auto split: option.splits dest: monitor_command_inv)
    with Cons.IH [OF rest] w1 show ?thesis by simp
  qed (use Cons in simp)
qed simp

lemma poll_target_inv:
  "poll_target c hw junk w = Some w' \<Longrightarrow> monitor_inv w \<Longrightarrow>
     monitor_inv w' \<and> connections w' = connections w \<and> (\<not> pipes_mutex w \<longrightarrow> \<not> pipes_mutex w')"
  by (auto simp: poll_target_def monitor_inv_def on_jtag2_def lock_pipes_def unlock_pipes_def
      split: Option.bind_splits if_splits dest!: api_step_free [OF api_step.intros(16)])

lemma length_drop_conn: "length (drop_conn i conns) = length conns - 1"
  by (simp add: drop_conn_def)

lemma pipe_failed_blocks: "pipe_failed w w' \<Longrightarrow> pipes_mutex w'"
  by (auto simp: pipe_failed_def register_with_monitor_thread_def lock_pipes_def open_pipe_def
      split: if_splits option.splits)

lemma register_fails:
  assumes "register_with_monitor_thread p1 p2 fds w = Some (r, fds', w')" "pipes_mutex w'" "\<not> pipes_mutex w"
  shows "pipe_failed w w'"
proof -
  have c: "monitor_thread_running w" "length (connections w) < MAX_MONITOR_CONNECTIONS" "p1 = None \<or> p2 = None" "r = 0" "fds' = fds"
    using assms by (auto simp: register_with_monitor_thread_def lock_pipes_def unlock_pipes_def open_pipe_def Let_def
        split: if_splits option.splits)
  with assms(1) show ?thesis unfolding pipe_failed_def by blast
qed

lemma monitor_step_inv:
  "monitor_step c hw w w' \<Longrightarrow> monitor_inv w \<Longrightarrow>
     monitor_inv w' \<and> (if pipes_mutex w then pipes_mutex w' else pipes_mutex w' \<longrightarrow> pipe_failed w w')"
proof (induction rule: monitor_step.induct)
  case (ms_pass sel junk w w')
  then show ?case
    by (cases sel) (auto simp: target_handler_pass_def lock_pipes_def unlock_pipes_def monitor_inv_def
        split: Option.bind_splits if_splits dest!: serve_connections_inv poll_target_inv)
next
  case (ms_register p1 p2 fds w r fds' w')
  have "monitor_inv w'"
    using ms_register by (auto simp: register_with_monitor_thread_def lock_pipes_def unlock_pipes_def
        open_pipe_def monitor_inv_def Let_def split: Option.bind_splits if_splits option.splits)
  moreover have "pipes_mutex w'" if "pipes_mutex w"
    using ms_register(1) that by (auto simp: register_with_monitor_thread_def lock_pipes_def split: if_splits)
  ultimately show ?case using register_fails [OF ms_register(1)] by simp
next
  case (ms_unregister fds w fds' w')
  then show ?case
    by (auto simp: unregister_with_monitor_thread_def lock_pipes_def unlock_pipes_def monitor_inv_def
        Let_def length_drop_conn split: Option.bind_splits if_splits option.splits)
qed (simp add: monitor_inv_def)

lemma monitor_steps_inv:
  assumes "(monitor_step c hw)\<^sup>*\<^sup>* w w'" "monitor_inv w"
  shows "monitor_inv w' \<and> (pipes_mutex w \<longrightarrow> pipes_mutex w')"
  using assms(1) by (induction rule: rtranclp_induct) (use assms(2) monitor_step_inv in \<open>metis\<close>)+

lemma blocked_by_failure:
  assumes "(monitor_step c hw)\<^sup>*\<^sup>* w w'" "monitor_inv w" "\<not> pipes_mutex w" "pipes_mutex w'"
  shows "\<exists>u v. (monitor_step c hw)\<^sup>*\<^sup>* w u \<and> pipe_failed u v \<and> (monitor_step c hw)\<^sup>*\<^sup>* v w'"
  using assms(1,4)
proof (induction rule: rtranclp_induct)
  case (step y z)
  show ?case
  proof (cases "pipes_mutex y")
    case True
    then show ?thesis using step by (meson rtranclp.rtrancl_into_rtrancl)
  next
    case False
    have "monitor_inv y" using monitor_steps_inv [OF step(1) assms(2)] by blast
    from monitor_step_inv [OF step(2) this] step(4) False have "pipe_failed y z" by simp
    with step(1) show ?thesis by blast
  qed
qed (use assms(3) in simp)

text \<open>
  C10. The monitor and the servers that come and go. From a state with both mutexes free and room in
  the array, whatever sequence of passes of the monitor thread, registrations (with pipes or without),
  departures and commands written into the pipes follows, after every step the connections fit the array
  of five and the mutex of the debug interface is free. The mutex of the pipes is held exactly if on the
  way a registration could not create a pipe; from then on no pass of the monitor comes back.
\<close>

theorem monitor_invariant:
  assumes "(monitor_step c hw)\<^sup>*\<^sup>* w w'"
    and "length (connections w) \<le> MAX_MONITOR_CONNECTIONS" "\<not> pipes_mutex w" "\<not> dbg_access_mutex (jtag w)"
  shows "length (connections w') \<le> MAX_MONITOR_CONNECTIONS \<and> \<not> dbg_access_mutex (jtag w')
     \<and> (pipes_mutex w' \<longleftrightarrow> (\<exists>u v. (monitor_step c hw)\<^sup>*\<^sup>* w u \<and> pipe_failed u v \<and> (monitor_step c hw)\<^sup>*\<^sup>* v w'))
     \<and> (pipes_mutex w' \<longrightarrow> target_handler_pass c hw sel b w' = None)"
proof -
  have start: "monitor_inv w" using assms(2,4) by (simp add: monitor_inv_def)
  have "pipes_mutex w'" if "(monitor_step c hw)\<^sup>*\<^sup>* w u" "pipe_failed u v" "(monitor_step c hw)\<^sup>*\<^sup>* v w'" for u v
  proof -
    have "monitor_step c hw u v" using that(2) by (auto simp: pipe_failed_def intro: ms_register)
    then have "monitor_inv v" using monitor_steps_inv [OF that(1) start] monitor_step_inv by blast
    with monitor_steps_inv [OF that(3)] pipe_failed_blocks [OF that(2)] show ?thesis by blast
  qed
  with blocked_by_failure [OF assms(1) start assms(3)] monitor_steps_inv [OF assms(1) start]
  show ?thesis by (auto simp: monitor_inv_def target_handler_pass_def lock_pipes_def)
qed

definition bridge_on :: "debug_dev \<Rightarrow> wires parport bridge" where
  "bridge_on d = \<lparr>jtag = board d, pipes = [], target_is_running = True, monitor_thread_running = True,
                  connections = [], pipes_mutex = False\<rparr>"

lemma bridge_on_simps [simp]:
  "jtag (bridge_on d) = board d" "pipes (bridge_on d) = []" "target_is_running (bridge_on d)"
  "monitor_thread_running (bridge_on d)" "connections (bridge_on d) = []" "\<not> pipes_mutex (bridge_on d)"
  by (simp_all add: bridge_on_def)

theorem monitor_invariant_witness:
  "\<exists>w' w''. (monitor_step xess DBG_HW_ADVANCED)\<^sup>*\<^sup>* (bridge_on idle_dev) w' \<and> length (connections w') = 1 \<and> \<not> pipes_mutex w'
     \<and> \<not> dbg_access_mutex (jtag w')
     \<and> monitor_step xess DBG_HW_ADVANCED w' w'' \<and> pipes_mutex w'' \<and> target_handler_pass xess DBG_HW_ADVANCED Select_timeout 0 w'' = None"
proof -
  let ?w = "bridge_on idle_dev"
  obtain w' where reg: "register_with_monitor_thread (Some (3, 4)) (Some (5, 6)) (0, 0) ?w = Some (1, (4, 5), w')"
    and w': "length (connections w') = 1" "monitor_thread_running w'" "\<not> pipes_mutex w'"
    by (simp add: register_with_monitor_thread_def lock_pipes_def unlock_pipes_def open_pipe_def
        MAX_MONITOR_CONNECTIONS_def)
  then obtain w'' where fail: "register_with_monitor_thread None None (0, 0) w' = Some (0, (0, 0), w'')" "pipes_mutex w''"
    by (simp add: register_with_monitor_thread_def lock_pipes_def MAX_MONITOR_CONNECTIONS_def)
  have steps: "(monitor_step xess DBG_HW_ADVANCED)\<^sup>*\<^sup>* ?w w'" "monitor_step xess DBG_HW_ADVANCED w' w''"
    using reg fail(1) ms_register by (blast intro: r_into_rtranclp)+
  then have steps2: "(monitor_step xess DBG_HW_ADVANCED)\<^sup>*\<^sup>* ?w w''" by (rule rtranclp.rtrancl_into_rtrancl)
  have "\<not> dbg_access_mutex (board idle_dev)" by (simp add: board_simps)
  with monitor_invariant [OF steps(1)] monitor_invariant [OF steps2, of Select_timeout 0] steps w' fail(2)
  show ?thesis by auto
qed

subsection \<open>Commands reach the CPU and every listener\<close>

lemma fold_write_pipe:
  "distinct fds \<Longrightarrow>
     pipes (fold (\<lambda>fd. write_pipe fd b) fds w) =
       map (\<lambda>p. if wr_end p \<in> set fds then p\<lparr>in_pipe := in_pipe p @ [b]\<rparr> else p) (pipes w)"
  by (induction fds arbitrary: w) (auto simp: write_pipe_def comp_def)

lemma notify_listeners_fds: "notify_listeners b w = fold (\<lambda>fd. write_pipe fd b) (map m2s_wr (connections w)) w"
  by (simp add: notify_listeners_def fold_map comp_def)

lemma pipes_notify:
  "distinct (map m2s_wr (connections w)) \<Longrightarrow>
     pipes (notify_listeners b w) =
       map (\<lambda>p. if wr_end p \<in> m2s_wr ` set (connections w) then p\<lparr>in_pipe := in_pipe p @ [b]\<rparr> else p) (pipes w)"
  by (simp add: notify_listeners_fds fold_write_pipe)

text \<open>
  C11. The effect of a command a server sends to the monitor. When the command \<open>S\<close> or \<open>U\<close> has been
  served, the CPU is noted as stopped or running accordingly; the hardware was accessed only when
  that is a change; and each registered server finds exactly one more byte in its pipe, \<open>H\<close> or \<open>R\<close>,
  while all other pipes are as before.
\<close>

theorem monitor_command_effect:
  assumes "monitor_command c hw cmd w = Some w'" "cmd = ch_S \<or> cmd = ch_U"
    and "distinct (map m2s_wr (connections w))"
  shows "target_is_running w' = (cmd = ch_U)
     \<and> (target_is_running w = (cmd = ch_U) \<longrightarrow> jtag w' = jtag w)
     \<and> connections w' = connections w
     \<and> pipes w' = map (\<lambda>p. if wr_end p \<in> m2s_wr ` set (connections w)
                           then p\<lparr>in_pipe := in_pipe p @ [if cmd = ch_U then ch_R else ch_H]\<rparr> else p) (pipes w)"
proof -
  have ne: "ch_S \<noteq> ch_U" by (simp add: ch_S_def ch_U_def)
  let ?b = "if cmd = ch_U then ch_R else ch_H"
  from assms(1,2) ne obtain w1 where w': "w' = notify_listeners ?b w1"
    and w1: "connections w1 = connections w" "pipes w1 = pipes w" "target_is_running w1 = (cmd = ch_U)"
      "target_is_running w = (cmd = ch_U) \<longrightarrow> w1 = w"
    by (auto simp: monitor_command_def split: Option.bind_splits if_splits dest!: stall_cpu_frame)
  then show ?thesis using assms(3) by (simp add: pipes_notify)
qed

definition two_listeners :: "wires parport bridge" where
  "two_listeners = (bridge_on idle_dev)\<lparr>
     connections := [\<lparr>s2m_rd = 3, s2m_wr = 4, m2s_rd = 5, m2s_wr = 6\<rparr>, \<lparr>s2m_rd = 7, s2m_wr = 8, m2s_rd = 9, m2s_wr = 10\<rparr>],
     pipes := [\<lparr>rd_end = 5, wr_end = 6, in_pipe = []\<rparr>, \<lparr>rd_end = 9, wr_end = 10, in_pipe = []\<rparr>]\<rparr>"

theorem monitor_command_effect_witness:
  "\<exists>w'. monitor_command xess DBG_HW_ADVANCED ch_U two_listeners = Some w' \<and> target_is_running w'
     \<and> map in_pipe (pipes w') = [[ch_R], [ch_R]]"
proof -
  have "monitor_command xess DBG_HW_ADVANCED ch_U two_listeners = Some (notify_listeners ch_R two_listeners)"
    by (simp add: monitor_command_def two_listeners_def ch_S_def ch_U_def)
  moreover from monitor_command_effect [OF this]
  have "pipes (notify_listeners ch_R two_listeners) =
      map (\<lambda>p. if wr_end p \<in> m2s_wr ` set (connections two_listeners) then p\<lparr>in_pipe := in_pipe p @ [ch_R]\<rparr> else p)
        (pipes two_listeners)"
    by (simp add: two_listeners_def)
  ultimately show ?thesis by (simp add: two_listeners_def)
qed

subsection \<open>Registering and leaving\<close>

lemma find_conn_append_new:
  "(\<And>conn. conn \<in> set conns \<Longrightarrow> \<not> is_conn fds conn) \<Longrightarrow> is_conn fds new \<Longrightarrow>
     find_conn fds (conns @ [new]) = Some (length conns)"
  by (induction conns) auto

lemma filter_pipes_fresh:
  "(\<And>p. p \<in> set ps \<Longrightarrow> rd_end p \<noteq> fd \<and> wr_end p \<noteq> fd) \<Longrightarrow> filter (\<lambda>p. rd_end p \<noteq> fd \<and> wr_end p \<noteq> fd) ps = ps"
  by (simp add: filter_id_conv)

text \<open>
  A server that registers and leaves. If both \<open>pipe\<close> calls succeed with descriptors not in use,
  registration in a running monitor with room returns 1 and the writing end of the one pipe and the
  reading end of the other; unregistering with these removes the connection and both pipes, so that
  the state is the one before, and clears the caller's descriptors.
\<close>

theorem register_unregister:
  assumes "monitor_thread_running w" "length (connections w) < MAX_MONITOR_CONNECTIONS" "\<not> pipes_mutex w"
    and "0 \<le> w1" "0 \<le> r2" "distinct [r1, w1, r2, w2]"
    and "\<forall>p \<in> set (pipes w). rd_end p \<notin> {r1, w1, r2, w2} \<and> wr_end p \<notin> {r1, w1, r2, w2}"
    and "\<forall>conn \<in> set (connections w). \<not> is_conn (w1, r2) conn"
  shows "\<exists>w'. register_with_monitor_thread (Some (r1, w1)) (Some (r2, w2)) fds w = Some (1, (w1, r2), w')
     \<and> length (connections w') = Suc (length (connections w)) \<and> \<not> pipes_mutex w'
     \<and> unregister_with_monitor_thread (w1, r2) w' = Some ((-1, -1), w)"
proof -
  let ?conn = "\<lparr>s2m_rd = r1, s2m_wr = w1, m2s_rd = r2, m2s_wr = w2\<rparr>"
  let ?ps = "[\<lparr>rd_end = r1, wr_end = w1, in_pipe = []\<rparr>, \<lparr>rd_end = r2, wr_end = w2, in_pipe = []\<rparr>]"
  let ?w' = "w\<lparr>pipes := pipes w @ ?ps, connections := connections w @ [?conn]\<rparr>"
  have reg: "register_with_monitor_thread (Some (r1, w1)) (Some (r2, w2)) fds w = Some (1, (w1, r2), ?w')"
    using assms(1-3) by (simp add: register_with_monitor_thread_def lock_pipes_def unlock_pipes_def open_pipe_def)
  have find: "find_conn (w1, r2) (connections w @ [?conn]) = Some (length (connections w))"
    using assms(8) by (intro find_conn_append_new) (auto simp: is_conn_def)
  have "filter (\<lambda>p. (rd_end p \<noteq> w2 \<and> wr_end p \<noteq> w2) \<and> (rd_end p \<noteq> r2 \<and> wr_end p \<noteq> r2)
          \<and> (rd_end p \<noteq> w1 \<and> wr_end p \<noteq> w1) \<and> rd_end p \<noteq> r1 \<and> wr_end p \<noteq> r1) (pipes w) = pipes w"
    using assms(7) by (auto simp: filter_id_conv)
  then have "unregister_with_monitor_thread (w1, r2) ?w' = Some ((-1, -1), w)"
    using assms(3-6) find
    by (simp add: unregister_with_monitor_thread_def lock_pipes_def unlock_pipes_def close_fd_def
        drop_conn_def conj_commute conj_left_commute)
  with reg assms(3) show ?thesis by auto
qed

theorem register_unregister_witness:
  "\<exists>w'. register_with_monitor_thread (Some (3, 4)) (Some (5, 6)) (0, 0) (bridge_on idle_dev) = Some (1, (4, 5), w')
     \<and> length (connections w') = 1 \<and> unregister_with_monitor_thread (4, 5) w' = Some ((-1, -1), bridge_on idle_dev)"
  using register_unregister [of "bridge_on idle_dev" 4 5 3 6 "(0, 0)"]
  by (auto simp: MAX_MONITOR_CONNECTIONS_def)

lemma locked_blocks:
  "pipes_mutex w \<Longrightarrow> target_handler_pass c hw sel junk w = None"
  "pipes_mutex w \<Longrightarrow> monitor_thread_running w \<Longrightarrow> length (connections w) < MAX_MONITOR_CONNECTIONS \<Longrightarrow>
     register_with_monitor_thread p1 p2 fds w = None"
  "pipes_mutex w \<Longrightarrow> 0 \<le> fst fds \<Longrightarrow> 0 \<le> snd fds \<Longrightarrow> unregister_with_monitor_thread fds w = None"
  by (simp_all add: target_handler_pass_def register_with_monitor_thread_def
      unregister_with_monitor_thread_def lock_pipes_def)

lemma register_failure:
  assumes "monitor_thread_running w" "length (connections w) < MAX_MONITOR_CONNECTIONS" "\<not> pipes_mutex w"
    and "p1 = None \<or> p2 = None"
  obtains w' where "register_with_monitor_thread p1 p2 fds w = Some (0, fds, w')"
    "pipes_mutex w'" "monitor_thread_running w'" "connections w' = connections w"
  using assms
  by (cases p1) (auto simp: register_with_monitor_thread_def lock_pipes_def open_pipe_def)

text \<open>
  Registration when a pipe cannot be created. It returns 0, and the mutex of the connections stays
  locked: no later pass of the monitor thread returns, and neither does any further registration or
  departure that needs the lock. (The callers test for a negative result, so they go on.)
\<close>

theorem register_failure_blocks:
  assumes "monitor_thread_running w" "length (connections w) < MAX_MONITOR_CONNECTIONS" "\<not> pipes_mutex w"
    and "p1 = None \<or> p2 = None"
  shows "\<exists>w'. register_with_monitor_thread p1 p2 fds w = Some (0, fds, w')
     \<and> target_handler_pass c hw sel junk w' = None
     \<and> register_with_monitor_thread q1 q2 fds' w' = None
     \<and> (0 \<le> f0 \<and> 0 \<le> f1 \<longrightarrow> unregister_with_monitor_thread (f0, f1) w' = None)"
proof -
  from register_failure [OF assms] obtain w' where
    "register_with_monitor_thread p1 p2 fds w = Some (0, fds, w')"
    "pipes_mutex w'" "monitor_thread_running w'" "connections w' = connections w" .
  then show ?thesis using assms(2) by (intro exI [of _ w']) (simp add: locked_blocks)
qed

theorem register_failure_blocks_witness:
  "\<exists>w'. register_with_monitor_thread (Some (3, 4)) None (0, 0) (bridge_on idle_dev) = Some (0, (0, 0), w')
     \<and> target_handler_pass xess DBG_HW_ADVANCED Select_timeout 0 w' = None"
  using register_failure_blocks [of "bridge_on idle_dev" "Some (3, 4)" None "(0, 0)"
      xess DBG_HW_ADVANCED Select_timeout 0 None None "(0, 0)" 0 0]
  by (auto simp: MAX_MONITOR_CONNECTIONS_def)

end
