(* ===== verification/Rsp_Matchpoints.thy ===== *)
theory Rsp_Matchpoints
  imports Prelude
begin

text \<open>
  rsp-server.c: the matchpoint hash table, an array of \<open>MP_HASH_SIZE\<close> chains. A chain, a linked list
  through \<open>next\<close>, is the list of its entries; \<open>malloc\<close> is taken to succeed, as the source does. The
  locale \<open>matchpoint_table\<close> is what the breakpoint handlers rely on; the interpretation at the end
  discharges it for the hash table.
\<close>

datatype mp_type = BP_MEMORY | BP_HARDWARE | WP_WRITE | WP_READ | WP_ACCESS

record mp_entry =
  mpe_type :: mp_type
  mpe_addr :: u32
  mpe_instr :: u32

type_synonym mp_hash = "mp_entry list list"

definition MP_HASH_SIZE :: nat where "MP_HASH_SIZE = 1021"

definition mp_hash_init :: mp_hash where
  "mp_hash_init = replicate MP_HASH_SIZE []"

definition hash_value :: "u32 \<Rightarrow> nat" where
  "hash_value addr = unat addr mod MP_HASH_SIZE"

definition mp_matches :: "mp_type \<Rightarrow> u32 \<Rightarrow> mp_entry \<Rightarrow> bool" where
  "mp_matches type addr entry \<longleftrightarrow> type = mpe_type entry \<and> addr = mpe_addr entry"

text \<open>The search loops of lookup, add and delete, and the unlinking of the entry found.\<close>

fun chain_find :: "mp_type \<Rightarrow> u32 \<Rightarrow> mp_entry list \<Rightarrow> mp_entry option" where
  "chain_find type addr [] = None"
| "chain_find type addr (entry # rest) =
     (if mp_matches type addr entry then Some entry else chain_find type addr rest)"

fun chain_unlink :: "mp_type \<Rightarrow> u32 \<Rightarrow> mp_entry list \<Rightarrow> mp_entry list" where
  "chain_unlink type addr [] = []"
| "chain_unlink type addr (entry # rest) =
     (if mp_matches type addr entry then rest else entry # chain_unlink type addr rest)"

definition mp_hash_lookup :: "mp_type \<Rightarrow> u32 \<Rightarrow> mp_hash \<Rightarrow> mp_entry option" where
  "mp_hash_lookup type addr h = chain_find type addr (h ! hash_value addr)"

definition mp_hash_add :: "mp_type \<Rightarrow> u32 \<Rightarrow> u32 \<Rightarrow> mp_hash \<Rightarrow> mp_hash" where
  "mp_hash_add type addr instr h =
     (let hv = hash_value addr in
      case chain_find type addr (h ! hv) of
        Some _ \<Rightarrow> h
      | None \<Rightarrow> h[hv := \<lparr>mpe_type = type, mpe_addr = addr, mpe_instr = instr\<rparr> # h ! hv])"

definition mp_hash_delete :: "mp_type \<Rightarrow> u32 \<Rightarrow> mp_hash \<Rightarrow> mp_entry option \<times> mp_hash" where
  "mp_hash_delete type addr h =
     (let hv = hash_value addr in
      (chain_find type addr (h ! hv), h[hv := chain_unlink type addr (h ! hv)]))"

subsection \<open>The interface\<close>

text \<open>
  A table of matchpoints: at most one entry for a type and an address, the first one added stays
  until it is deleted.
\<close>

locale matchpoint_table =
  fixes empty :: 't
    and add :: "mp_type \<Rightarrow> u32 \<Rightarrow> u32 \<Rightarrow> 't \<Rightarrow> 't"
    and lookup :: "mp_type \<Rightarrow> u32 \<Rightarrow> 't \<Rightarrow> mp_entry option"
    and delete :: "mp_type \<Rightarrow> u32 \<Rightarrow> 't \<Rightarrow> mp_entry option \<times> 't"
    and invar :: "'t \<Rightarrow> bool"
  assumes invar_empty: "invar empty"
    and invar_add: "invar h \<Longrightarrow> invar (add ty a i h)"
    and invar_delete: "invar h \<Longrightarrow> invar (snd (delete ty a h))"
    and lookup_empty: "lookup ty a empty = None"
    and lookup_add: "invar h \<Longrightarrow> lookup ty' a' (add ty a i h) =
       (if ty' = ty \<and> a' = a \<and> lookup ty a h = None
        then Some \<lparr>mpe_type = ty, mpe_addr = a, mpe_instr = i\<rparr> else lookup ty' a' h)"
    and delete_found: "fst (delete ty a h) = lookup ty a h"
    and lookup_delete: "invar h \<Longrightarrow> lookup ty' a' (snd (delete ty a h)) =
       (if ty' = ty \<and> a' = a then None else lookup ty' a' h)"
begin

lemmas table_laws = invar_empty invar_add invar_delete lookup_empty lookup_add delete_found lookup_delete

text \<open>A second insertion, with whatever instruction, changes nothing that a lookup shows.\<close>

lemma add_again: "invar h \<Longrightarrow> lookup ty' a' (add ty a j (add ty a i h)) = lookup ty' a' (add ty a i h)"
  by (simp add: table_laws)

text \<open>However often the packet was repeated, the entry deleted is the one of the first insertion.\<close>

lemma first_instr_returned:
  assumes "invar h" "lookup ty a h = None"
  shows "fst (delete ty a (fold (add ty a) is (add ty a i h)))
           = Some \<lparr>mpe_type = ty, mpe_addr = a, mpe_instr = i\<rparr>"
proof -
  have "invar h' \<Longrightarrow> lookup ty a h' = Some e \<Longrightarrow> lookup ty a (fold (add ty a) is h') = Some e" for h' e
    by (induction "is" arbitrary: h') (simp_all add: table_laws)
  with assms show ?thesis by (simp add: table_laws)
qed

text \<open>Deleting twice finds nothing the second time.\<close>

lemma delete_again: "invar h \<Longrightarrow> fst (delete ty a (snd (delete ty a h))) = None"
  by (simp add: table_laws)

end

subsection \<open>The hash table implements it\<close>

definition mp_invar :: "mp_hash \<Rightarrow> bool" where
  "mp_invar h \<longleftrightarrow> length h = MP_HASH_SIZE
     \<and> (\<forall>k < MP_HASH_SIZE. (\<forall>e \<in> set (h ! k). hash_value (mpe_addr e) = k)
                         \<and> distinct (map (\<lambda>e. (mpe_type e, mpe_addr e)) (h ! k)))"

lemma hash_value_lt [simp]: "hash_value a < MP_HASH_SIZE"
  by (simp add: hash_value_def MP_HASH_SIZE_def)

lemma chain_find_None: "chain_find ty a es = None \<longleftrightarrow> (ty, a) \<notin> (\<lambda>e. (mpe_type e, mpe_addr e)) ` set es"
  by (induction es) (auto simp: mp_matches_def)

lemma chain_find_unlink:
  "distinct (map (\<lambda>e. (mpe_type e, mpe_addr e)) es) \<Longrightarrow>
     chain_find ty' a' (chain_unlink ty a es) = (if ty' = ty \<and> a' = a then None else chain_find ty' a' es)"
proof (induction es)
  case (Cons e es)
  have "chain_find ty a es = None" if "mp_matches ty a e"
    using Cons.prems that by (auto simp: chain_find_None mp_matches_def)
  with Cons show ?case by (auto simp: mp_matches_def)
qed simp

lemma set_chain_unlink: "set (chain_unlink ty a es) \<subseteq> set es"
  by (induction es) auto

lemma distinct_chain_unlink:
  "distinct (map f es) \<Longrightarrow> distinct (map f (chain_unlink ty a es))"
  by (induction es) (use set_chain_unlink in fastforce)+

lemma mp_invar_update:
  assumes "mp_invar h" "k < MP_HASH_SIZE" "\<And>e. e \<in> set es \<Longrightarrow> hash_value (mpe_addr e) = k"
    "distinct (map (\<lambda>e. (mpe_type e, mpe_addr e)) es)"
  shows "mp_invar (h[k := es])"
  using assms by (auto simp: mp_invar_def nth_list_update)

lemma mp_invarD:
  "mp_invar h \<Longrightarrow> e \<in> set (h ! hash_value a) \<Longrightarrow> hash_value (mpe_addr e) = hash_value a"
  "mp_invar h \<Longrightarrow> distinct (map (\<lambda>e. (mpe_type e, mpe_addr e)) (h ! hash_value a))"
  "mp_invar h \<Longrightarrow> length h = MP_HASH_SIZE"
  by (simp_all add: mp_invar_def)

interpretation mp: matchpoint_table mp_hash_init mp_hash_add mp_hash_lookup mp_hash_delete mp_invar
proof
  show "mp_invar mp_hash_init"
    by (simp add: mp_invar_def mp_hash_init_def)
  show "mp_hash_lookup ty a mp_hash_init = None" for ty a
    by (simp add: mp_hash_lookup_def mp_hash_init_def)
  show "fst (mp_hash_delete ty a h) = mp_hash_lookup ty a h" for ty a h
    by (simp add: mp_hash_delete_def mp_hash_lookup_def Let_def)
next
  fix h ty a i assume inv: "mp_invar h"
  show "mp_invar (mp_hash_add ty a i h)"
  proof (cases "chain_find ty a (h ! hash_value a)")
    case None
    then have "mp_invar (h[hash_value a := \<lparr>mpe_type = ty, mpe_addr = a, mpe_instr = i\<rparr> # h ! hash_value a])"
      using inv by (intro mp_invar_update) (auto simp: mp_invarD chain_find_None)
    with None show ?thesis by (simp add: mp_hash_add_def Let_def)
  qed (simp add: mp_hash_add_def Let_def inv)
  show "mp_invar (snd (mp_hash_delete ty a h))"
    unfolding mp_hash_delete_def Let_def snd_conv using inv set_chain_unlink [of ty a "h ! hash_value a"]
    by (intro mp_invar_update) (auto simp: mp_invarD distinct_chain_unlink subset_iff)
  fix ty' a'
  show "mp_hash_lookup ty' a' (mp_hash_add ty a i h) =
      (if ty' = ty \<and> a' = a \<and> mp_hash_lookup ty a h = None
       then Some \<lparr>mpe_type = ty, mpe_addr = a, mpe_instr = i\<rparr> else mp_hash_lookup ty' a' h)"
    using mp_invarD(3) [OF inv]
    by (auto simp: mp_hash_lookup_def mp_hash_add_def Let_def nth_list_update mp_matches_def
        split: option.splits)
  show "mp_hash_lookup ty' a' (snd (mp_hash_delete ty a h)) =
      (if ty' = ty \<and> a' = a then None else mp_hash_lookup ty' a' h)"
    using mp_invarD(2,3) [OF inv]
    by (auto simp: mp_hash_lookup_def mp_hash_delete_def Let_def nth_list_update chain_find_unlink)
qed

text \<open>The table as a finite map from type and address to the word kept with the matchpoint.\<close>

definition mp_map :: "mp_hash \<Rightarrow> mp_type \<times> u32 \<Rightarrow> u32 option" where
  "mp_map h = (\<lambda>(ty, a). map_option mpe_instr (mp_hash_lookup ty a h))"

text \<open>
  C13. The matchpoint hash table is a map from (type, address) to the saved word. On a table whose
  entries hang in the chain of their address and are distinct, an addition enters a new pair and
  leaves the table alone when the pair is there (a repeated packet), a deletion returns the entry and
  removes exactly it, both keep the table well-formed, and the first word added is the one a later
  deletion returns, however many additions of the same matchpoint came between.
\<close>

theorem mp_hash_refines_map:
  assumes "mp_invar h"
  shows "mp_map (mp_hash_add ty a i h) = (if mp_map h (ty, a) = None then (mp_map h)((ty, a) \<mapsto> i) else mp_map h)
     \<and> mp_map (snd (mp_hash_delete ty a h)) = (mp_map h)((ty, a) := None)
     \<and> map_option mpe_instr (fst (mp_hash_delete ty a h)) = mp_map h (ty, a)
     \<and> mp_invar (mp_hash_add ty a i h) \<and> mp_invar (snd (mp_hash_delete ty a h))
     \<and> (mp_map h (ty, a) = None \<longrightarrow>
          map_option mpe_instr (fst (mp_hash_delete ty a (fold (mp_hash_add ty a) is (mp_hash_add ty a i h)))) = Some i)"
  using assms mp.first_instr_returned [of h ty a "is" i]
  by (auto simp: mp_map_def fun_eq_iff mp.table_laws)

theorem mp_hash_refines_map_witness:
  "mp_invar mp_hash_init \<and>
   map_option mpe_instr (fst (mp_hash_delete BP_MEMORY 0x100
     (fold (mp_hash_add BP_MEMORY 0x100) [0x21000001] (mp_hash_add BP_MEMORY 0x100 0x15000000 mp_hash_init))))
     = Some 0x15000000"
  using mp_hash_refines_map [of mp_hash_init BP_MEMORY "0x100" "0x15000000" "[0x21000001]"]
  by (simp add: mp.invar_empty mp_map_def mp.lookup_empty)

end
