(* ===== verification/Hwp_Watchpoints.thy ===== *)
theory Hwp_Watchpoints
  imports Prelude
begin

text \<open>
  hwp_server.c: who uses which hardware watchpoint. The array \<open>hwp_in_use\<close> is shared by the HWP server,
  which marks the watchpoints an external client uses, and the RSP server, which borrows free ones
  for GDB. The locale \<open>watchpoint_pool\<close> is the contract of the loan; the interpretation discharges it
  for the array.
\<close>

definition HWP_MAX_WP :: nat where "HWP_MAX_WP = 8"

definition hwp_set_in_use :: "nat \<Rightarrow> u8 \<Rightarrow> u8 list \<Rightarrow> u8 list" where
  "hwp_set_in_use wp inuse use = (if wp < HWP_MAX_WP then use[wp := inuse] else use)"

text \<open>The loop over the array; it stops at the first free one and marks it.\<close>

function hwp_search :: "nat \<Rightarrow> u8 list \<Rightarrow> int \<times> u8 list" where
  "hwp_search i use =
     (if i < HWP_MAX_WP
      then (if use ! i = 0 then (int i, use[i := 1]) else hwp_search (i + 1) use)
      else (-1, use))"
  by pat_completeness auto
termination by (relation "measure (\<lambda>(i, use). HWP_MAX_WP - i)") auto

declare hwp_search.simps [simp del]

definition hwp_get_available_watchpoint :: "u8 list \<Rightarrow> int \<times> u8 list" where
  "hwp_get_available_watchpoint use = hwp_search 0 use"

text \<open>A negative number would index in front of the array.\<close>

definition hwp_return_watchpoint :: "int \<Rightarrow> u8 list \<Rightarrow> u8 list option" where
  "hwp_return_watchpoint wp use =
     (if wp \<ge> int HWP_MAX_WP then Some use
      else if wp < 0 then None
      else if use ! nat wp \<noteq> 0 then Some (use[nat wp := 0]) else Some use)"

definition hwp_free :: "u8 list \<Rightarrow> nat set" where
  "hwp_free use = {i. i < HWP_MAX_WP \<and> use ! i = 0}"

lemma hwp_search_found:
  assumes "hwp_search i use = (r, use')" "length use = HWP_MAX_WP"
  shows "if \<exists>k \<ge> i. k \<in> hwp_free use
         then \<exists>k \<ge> i. k \<in> hwp_free use \<and> (\<forall>j \<in> hwp_free use. i \<le> j \<longrightarrow> k \<le> j) \<and> r = int k \<and> use' = use[k := 1]
         else r = -1 \<and> use' = use"
  using assms
proof (induction i use rule: hwp_search.induct)
  case (1 i use)
  show ?case
  proof (cases "i < HWP_MAX_WP \<and> use ! i \<noteq> 0")
    case True
    with 1 have "if \<exists>k \<ge> i + 1. k \<in> hwp_free use
         then \<exists>k \<ge> i + 1. k \<in> hwp_free use \<and> (\<forall>j \<in> hwp_free use. i + 1 \<le> j \<longrightarrow> k \<le> j) \<and> r = int k \<and> use' = use[k := 1]
         else r = -1 \<and> use' = use"
      by (simp add: hwp_search.simps [of i])
    moreover have "k \<in> hwp_free use \<and> i \<le> k \<longleftrightarrow> k \<in> hwp_free use \<and> i + 1 \<le> k" for k
      using True by (cases "k = i") (auto simp: hwp_free_def)
    ultimately show ?thesis by (smt (verit, best))
  next
    case False
    with "1.prems" show ?thesis
      by (subst (asm) hwp_search.simps) (auto simp: hwp_free_def split: if_splits)
  qed
qed

subsection \<open>The contract of the loan\<close>

locale watchpoint_pool =
  fixes free :: "'p \<Rightarrow> nat set"
    and get :: "'p \<Rightarrow> int \<times> 'p"
    and give_back :: "int \<Rightarrow> 'p \<Rightarrow> 'p option"
    and invar :: "'p \<Rightarrow> bool"
  assumes finite_free: "invar p \<Longrightarrow> finite (free p)"
    and get_some: "invar p \<Longrightarrow> free p \<noteq> {} \<Longrightarrow> get p = (r, p') \<Longrightarrow>
        r = int (Min (free p)) \<and> free p' = free p - {Min (free p)} \<and> invar p'"
    and get_none: "invar p \<Longrightarrow> free p = {} \<Longrightarrow> get p = (-1, p)"
    and give_back: "invar p \<Longrightarrow> k \<in> free p0 \<Longrightarrow> invar p0 \<Longrightarrow>
        \<exists>p'. give_back (int k) p = Some p' \<and> free p' = insert k (free p) \<and> invar p'"
begin

text \<open>What was borrowed and given back is free again, and nothing else has changed hands.\<close>

lemma borrow_return:
  assumes "invar p" "free p \<noteq> {}" "get p = (r, p')"
  shows "\<exists>p''. give_back r p' = Some p'' \<and> free p'' = free p"
proof -
  from get_some [OF assms] have r: "r = int (Min (free p))" "free p' = free p - {Min (free p)}" "invar p'"
    by auto
  have "Min (free p) \<in> free p" using assms(1,2) finite_free by simp
  with give_back [OF r(3) _ assms(1), of "Min (free p)"] r show ?thesis by auto
qed

text \<open>Two loans without a return in between are of different watchpoints.\<close>

lemma loans_differ:
  assumes "invar p" "get p = (r, p')" "r \<noteq> -1" "get p' = (r', p'')" "r' \<noteq> -1"
  shows "r \<noteq> r'"
proof -
  have "free p \<noteq> {}" using get_none assms(1-3) by force
  then have p': "r = int (Min (free p))" "free p' = free p - {Min (free p)}" "invar p'"
    using get_some assms(1,2) by blast+
  then have ne: "free p' \<noteq> {}" using get_none assms(4,5) by force
  with p'(3) assms(4) have "r' = int (Min (free p'))" using get_some by blast
  moreover have "Min (free p') \<in> free p'" using ne p'(3) finite_free by simp
  ultimately show ?thesis using p' by auto
qed

end

interpretation hwp: watchpoint_pool hwp_free hwp_get_available_watchpoint hwp_return_watchpoint
  "\<lambda>use. length use = HWP_MAX_WP"
proof
  show "finite (hwp_free p)" for p by (simp add: hwp_free_def)
next
  fix p p' :: "u8 list" and r
  assume len: "length p = HWP_MAX_WP" and ne: "hwp_free p \<noteq> {}" and get: "hwp_get_available_watchpoint p = (r, p')"
  from hwp_search_found [of 0 p r p'] len ne get obtain k where
    k: "k \<in> hwp_free p" "\<forall>j \<in> hwp_free p. k \<le> j" "r = int k" "p' = p[k := 1]"
    by (auto simp: hwp_get_available_watchpoint_def split: if_splits)
  have "Min (hwp_free p) = k"
    by (rule Min_eqI) (use k in \<open>auto simp: hwp_free_def\<close>)
  moreover have "hwp_free (p[k := 1]) = hwp_free p - {k}"
    using len k(1) by (auto simp: hwp_free_def nth_list_update split: if_splits)
  ultimately show "r = int (Min (hwp_free p)) \<and> hwp_free p' = hwp_free p - {Min (hwp_free p)} \<and> length p' = HWP_MAX_WP"
    using k len by simp
next
  fix p :: "u8 list"
  assume "length p = HWP_MAX_WP" "hwp_free p = {}"
  with hwp_search_found [of 0 p] show "hwp_get_available_watchpoint p = (-1, p)"
    by (cases "hwp_search 0 p") (auto simp: hwp_get_available_watchpoint_def)
next
  fix p p0 :: "u8 list" and k
  assume "length p = HWP_MAX_WP" "k \<in> hwp_free p0"
  then show "\<exists>p'. hwp_return_watchpoint (int k) p = Some p' \<and> hwp_free p' = insert k (hwp_free p) \<and> length p' = HWP_MAX_WP"
    by (auto simp: hwp_return_watchpoint_def hwp_free_def nth_list_update)
qed

text \<open>
  C14. The pool of hardware watchpoints. With a watchpoint free, \<open>hwp_get_available_watchpoint\<close> grants
  the one with the lowest number and takes exactly it out of the pool, a second request gets another
  one or -1, and returning the first makes it free again with the rest of the pool as it was; with
  none free it answers -1 and changes nothing.
\<close>

theorem hwp_loans:
  assumes "length use = HWP_MAX_WP" "hwp_get_available_watchpoint use = (r, use')"
  shows "if hwp_free use = {} then r = -1 \<and> use' = use
     else r = int (Min (hwp_free use)) \<and> hwp_free use' = hwp_free use - {Min (hwp_free use)}
        \<and> fst (hwp_get_available_watchpoint use') \<noteq> r
        \<and> (\<exists>use''. hwp_return_watchpoint r use' = Some use'' \<and> hwp_free use'' = hwp_free use)"
proof (cases "hwp_free use = {}")
  case True
  with hwp.get_none [OF assms(1)] assms(2) show ?thesis by simp
next
  case False
  with hwp.get_some [OF assms(1) _ assms(2)]
  have r: "r = int (Min (hwp_free use))" "hwp_free use' = hwp_free use - {Min (hwp_free use)}" by auto
  have "fst (hwp_get_available_watchpoint use') \<noteq> r"
    using hwp.loans_differ [OF assms] r(1) by (cases "hwp_get_available_watchpoint use'") fastforce
  with r False hwp.borrow_return [OF assms(1) False assms(2)] show ?thesis by simp
qed

theorem hwp_loans_witness:
  "hwp_get_available_watchpoint [1, 0, 0, 0, 1, 1, 1, 1] = (1, [1, 1, 0, 0, 1, 1, 1, 1])
   \<and> hwp_free [1, 1, 0, 0, 1, 1, 1, 1] = hwp_free [1, 0, 0, 0, 1, 1, 1, 1] - {1}"
proof -
  have get: "hwp_get_available_watchpoint [1, 0, 0, 0, 1, 1, 1, 1] = (1, [1, 1, 0, 0, 1, 1, 1, 1])"
    by (simp add: hwp_get_available_watchpoint_def hwp_search.simps HWP_MAX_WP_def)
  have "1 \<in> hwp_free [1, 0, 0, 0, 1, 1, 1, 1]" by (simp add: hwp_free_def HWP_MAX_WP_def)
  then have ne: "hwp_free [1, 0, 0, 0, 1, 1, 1, 1] \<noteq> {}" by blast
  have "(1 :: int) = int (Min (hwp_free [1, 0, 0, 0, 1, 1, 1, 1]))
      \<and> hwp_free [1, 1, 0, 0, 1, 1, 1, 1] = hwp_free [1, 0, 0, 0, 1, 1, 1, 1] - {Min (hwp_free [1, 0, 0, 0, 1, 1, 1, 1])}"
    using hwp_loans [OF _ get] unfolding if_not_P [OF ne] by (simp add: HWP_MAX_WP_def)
  then show ?thesis using get by simp
qed

end
