(* ===== verification/Rsp_Link.thy ===== *)
theory Rsp_Link
  imports Hardware_Monitor Rsp_Codec Rsp_Matchpoints Hwp_Watchpoints
begin

unbundle bit_operations_syntax

text \<open>
  rsp-server.c: the connection to GDB. The record \<open>rsp_bridge\<close> extends the shared state by the
  central data of the RSP server, its static packet buffer and the socket. What the operating system
  answers on the socket is scripted in the state: \<open>incoming\<close> are the answers of the coming \<open>read\<close>
  calls (when they are used up, the non-blocking socket answers \<open>EAGAIN\<close> for ever, and the reader
  loops), \<open>write_answers\<close> those of the coming \<open>write\<close> calls (when they are used up, all succeed).
  \<open>sent\<close> is what has been written. \<open>junk\<close> stands for the value of an uninitialised local variable.

  Losing the connection is not only a return code: \<open>rsp_client_close\<close> accesses the CPU and
  unregisters from the monitor, so that every character read or written may change all of the state.
\<close>

datatype read_answer = Rd_char u8 | Rd_retry | Rd_eof | Rd_error

datatype write_answer = Wr_ok | Wr_zero | Wr_retry | Wr_error

record 's rsp_bridge = "'s bridge" +
  client_waiting :: bool
  target_running :: bool
  single_step_mode :: bool
  proto_num :: int
  server_fd :: int
  client_fd :: int
  sigval :: int
  start_addr :: u32
  mp_table :: mp_hash
  use_cached_npc :: bool
  cached_npc :: u32
  pipe_fds :: "int \<times> int"
  hwp_in_use :: "u8 list"
  pkt_data :: buffer
  pkt_len :: nat
  incoming :: "read_answer list"
  write_answers :: "write_answer list"
  sent :: "u8 list"
  junk :: u32

subsection \<open>Constants of spr-defs.h and except.h\<close>

definition SPRGROUP_D :: u32 where "SPRGROUP_D = 6 * 2 ^ 11"
definition SPR_NPC :: u32 where "SPR_NPC = 16"
definition SPR_SR :: u32 where "SPR_SR = 17"
definition SPR_PPC :: u32 where "SPR_PPC = 18"
definition SPR_GPR_BASE :: u32 where "SPR_GPR_BASE = 1024"
definition MAX_GPRS :: nat where "MAX_GPRS = 32"
definition MAX_SPRS :: u32 where "MAX_SPRS = 0x10000"
definition SPR_DVR :: "u32 \<Rightarrow> u32" where "SPR_DVR N = SPRGROUP_D + N"
definition SPR_DCR :: "u32 \<Rightarrow> u32" where "SPR_DCR N = SPRGROUP_D + 8 + N"
definition SPR_DMR1 :: u32 where "SPR_DMR1 = SPRGROUP_D + 16"
definition SPR_DMR2 :: u32 where "SPR_DMR2 = SPRGROUP_D + 17"
definition SPR_DSR :: u32 where "SPR_DSR = SPRGROUP_D + 20"
definition SPR_DRR :: u32 where "SPR_DRR = SPRGROUP_D + 21"
definition EXCEPT_NONE :: u32 where "EXCEPT_NONE = 0"
definition EXCEPT_RESET :: u32 where "EXCEPT_RESET = 0x100"

subsection \<open>Stalling, closing\<close>

definition set_stall_state :: "bool \<Rightarrow> ('s, 'z) rsp_bridge_scheme \<Rightarrow> ('s, 'z) rsp_bridge_scheme" where
  "set_stall_state stall w =
     (let w = (if \<not> stall then w\<lparr>use_cached_npc := False\<rparr> else w) in
      write_pipe (fst (pipe_fds w)) (if stall then ch_S else ch_U) w)"

definition rsp_server_close :: "('s, 'z) rsp_bridge_scheme \<Rightarrow> ('s, 'z) rsp_bridge_scheme" where
  "rsp_server_close w = (if server_fd w \<noteq> -1 then w\<lparr>server_fd := -1\<rparr> else w)"

definition rsp_client_close ::
  "'s jtag_cable_t \<Rightarrow> dbg_hw \<Rightarrow> ('s, 'z) rsp_bridge_scheme \<Rightarrow> ('s, 'z) rsp_bridge_scheme option" where
  "rsp_client_close c hw w =
     (let w = (if target_running w then set_stall_state True w else w) in
      do { (_, w) \<leftarrow> on_jtag (dbg_cpu0_write c hw SPR_DSR 0) w;
           let w = (if target_running w then set_stall_state False w else w);
           (fds, w) \<leftarrow> unregister_with_monitor_thread (pipe_fds w) w;
           let w = w\<lparr>pipe_fds := fds\<rparr>;
           Some (if client_fd w \<noteq> -1 then w\<lparr>client_fd := -1\<rparr> else w) })"

subsection \<open>Characters\<close>

text \<open>The loops around \<open>write\<close> and \<open>read\<close>: whether the character went out; the character or -1.\<close>

fun write_loop :: "write_answer list \<Rightarrow> bool \<times> write_answer list" where
  "write_loop [] = (True, [])"
| "write_loop (Wr_ok # as) = (True, as)"
| "write_loop (Wr_zero # as) = write_loop as"
| "write_loop (Wr_retry # as) = write_loop as"
| "write_loop (Wr_error # as) = (False, as)"

fun read_loop :: "read_answer list \<Rightarrow> (int \<times> read_answer list) option" where
  "read_loop [] = None"
| "read_loop (Rd_char b # as) = Some (uint b, as)"
| "read_loop (Rd_retry # as) = read_loop as"
| "read_loop (Rd_eof # as) = Some (-1, as)"
| "read_loop (Rd_error # as) = Some (-1, as)"

definition put_rsp_char ::
  "'s jtag_cable_t \<Rightarrow> dbg_hw \<Rightarrow> u8 \<Rightarrow> ('s, 'z) rsp_bridge_scheme \<Rightarrow> ('s, 'z) rsp_bridge_scheme option" where
  "put_rsp_char c hw ch w =
     (if client_fd w = -1 then Some w
      else (let (ok, as) = write_loop (write_answers w); w = w\<lparr>write_answers := as\<rparr> in
            if ok then Some (w\<lparr>sent := sent w @ [ch]\<rparr>) else rsp_client_close c hw w))"

definition get_rsp_char ::
  "'s jtag_cable_t \<Rightarrow> dbg_hw \<Rightarrow> ('s, 'z) rsp_bridge_scheme \<Rightarrow> (int \<times> ('s, 'z) rsp_bridge_scheme) option" where
  "get_rsp_char c hw w =
     (if client_fd w = -1 then Some (-1, w)
      else do { (ch, as) \<leftarrow> read_loop (incoming w);
                let w = w\<lparr>incoming := as\<rparr>;
                (if ch = -1 then do { w \<leftarrow> rsp_client_close c hw w; Some (-1, w) } else Some (ch, w)) })"

fun put_chars ::
  "'s jtag_cable_t \<Rightarrow> dbg_hw \<Rightarrow> u8 list \<Rightarrow> ('s, 'z) rsp_bridge_scheme \<Rightarrow> ('s, 'z) rsp_bridge_scheme option" where
  "put_chars c hw [] w = Some w"
| "put_chars c hw (ch # cs) w = do { w \<leftarrow> put_rsp_char c hw ch w; put_chars c hw cs w }"

text \<open>Closing the connection does not touch the answers to come.\<close>

lemma write_pipe_rsp_frame [simp]:
  "incoming (write_pipe fd b w) = incoming w" "write_answers (write_pipe fd b w) = write_answers w"
  "client_fd (write_pipe fd b w) = client_fd w" "sent (write_pipe fd b w) = sent w"
  "target_running (write_pipe fd b w) = target_running w" "pipe_fds (write_pipe fd b w) = pipe_fds w"
  "mp_table (write_pipe fd b w) = mp_table w" "hwp_in_use (write_pipe fd b w) = hwp_in_use w"
  "pkt_len (write_pipe fd b w) = pkt_len w" "pkt_data (write_pipe fd b w) = pkt_data w"
  by (simp_all add: write_pipe_def)

lemma set_stall_state_frame [simp]:
  "incoming (set_stall_state s w) = incoming w" "write_answers (set_stall_state s w) = write_answers w"
  "client_fd (set_stall_state s w) = client_fd w" "sent (set_stall_state s w) = sent w"
  "target_running (set_stall_state s w) = target_running w" "pipe_fds (set_stall_state s w) = pipe_fds w"
  "mp_table (set_stall_state s w) = mp_table w" "hwp_in_use (set_stall_state s w) = hwp_in_use w"
  "pkt_len (set_stall_state s w) = pkt_len w" "pkt_data (set_stall_state s w) = pkt_data w"
  "jtag (set_stall_state s w) = jtag w" "connections (set_stall_state s w) = connections w"
  "pipes_mutex (set_stall_state s w) = pipes_mutex w"
  by (simp_all add: set_stall_state_def Let_def)

lemma on_jtag_eq: "on_jtag f w = Some (e, w') \<longleftrightarrow> (\<exists>st. f (jtag w) = Some (e, st) \<and> w' = w\<lparr>jtag := st\<rparr>)"
  by (auto simp: on_jtag_def split: Option.bind_splits)

lemma on_jtag2_eq:
  "on_jtag2 f w = Some (e, v, w') \<longleftrightarrow> (\<exists>st. f (jtag w) = Some (e, v, st) \<and> w' = w\<lparr>jtag := st\<rparr>)"
  by (auto simp: on_jtag2_def split: Option.bind_splits)

lemma unregister_cases:
  assumes "unregister_with_monitor_thread fds w = Some (fds', w')"
  obtains ps cs where "w' = w\<lparr>pipes := ps, connections := cs\<rparr>" "length cs \<le> length (connections w)"
proof -
  have "\<exists>ps cs. w' = w\<lparr>pipes := ps, connections := cs\<rparr> \<and> length cs \<le> length (connections w)"
  proof (cases "fst fds < 0 \<or> snd fds < 0")
    case True
    with assms have "w' = w\<lparr>pipes := pipes w, connections := connections w\<rparr>"
      by (simp add: unregister_with_monitor_thread_def)
    then show ?thesis by blast
  next
    case False
    then have free: "\<not> pipes_mutex w"
      using assms by (auto simp: unregister_with_monitor_thread_def lock_pipes_def split: if_splits)
    have upd: "w\<lparr>pipes_mutex := False\<rparr> = w" using free by simp
    have upd2: "w\<lparr>pipes := ps, connections := cs, pipes_mutex := False\<rparr> = w\<lparr>pipes := ps, connections := cs\<rparr>"
      for ps cs using free by (cases w) simp
    show ?thesis
    proof (cases "find_conn fds (connections w)")
      case None
      then have "w' = w\<lparr>pipes := pipes w, connections := connections w\<rparr>"
        using assms False free upd
        by (simp add: unregister_with_monitor_thread_def lock_pipes_def unlock_pipes_def)
      then show ?thesis by blast
    next
      case (Some i)
      then have "\<exists>ps. w' = w\<lparr>pipes := ps, connections := drop_conn i (connections w)\<rparr>"
        using assms False free upd
        by (auto simp: upd2 unregister_with_monitor_thread_def lock_pipes_def unlock_pipes_def close_fd_def Let_def)
      then show ?thesis using length_drop_conn [of i "connections w"] by (metis diff_le_self)
    qed
  qed
  then show thesis using that by blast
qed


text \<open>
  What closing the client does to the state, whoever calls it: the JTAG state moves on with its mutex
  free, pipes and connections may go, the descriptors are invalid, and the NPC cache may be dropped.
\<close>

lemma client_close_cases:
  assumes "rsp_client_close c hw w = Some w'"
  obtains st ps cs fds ucn where
    "w' = w\<lparr>jtag := st, pipes := ps, connections := cs, pipe_fds := fds, use_cached_npc := ucn, client_fd := -1\<rparr>"
    "\<not> dbg_access_mutex (jtag w) \<longrightarrow> \<not> dbg_access_mutex st" "length cs \<le> length (connections w)"
proof -
  let ?w1 = "if target_running w then set_stall_state True w else w"
  from assms obtain e st fds w3 where
    wr: "dbg_cpu0_write c hw SPR_DSR 0 (jtag w) = Some (e, st)" and
    un: "unregister_with_monitor_thread (pipe_fds w)
           (if target_running w then set_stall_state False (?w1\<lparr>jtag := st\<rparr>) else ?w1\<lparr>jtag := st\<rparr>) = Some (fds, w3)" and
    w': "w' = (if client_fd w3 \<noteq> -1 then w3\<lparr>pipe_fds := fds, client_fd := -1\<rparr> else w3\<lparr>pipe_fds := fds\<rparr>)"
    by (auto simp: rsp_client_close_def Let_def on_jtag_eq split: Option.bind_splits if_splits)
  from un obtain ps cs where
    w3: "w3 = (if target_running w then set_stall_state False (?w1\<lparr>jtag := st\<rparr>) else ?w1\<lparr>jtag := st\<rparr>)
            \<lparr>pipes := ps, connections := cs\<rparr>" and len: "length cs \<le> length (connections w)"
    by (rule unregister_cases) (auto split: if_splits)
  have "\<not> dbg_access_mutex (jtag w) \<longrightarrow> \<not> dbg_access_mutex st"
    using cpu0_write_free [OF wr] by simp
  moreover have "\<exists>ucn. w' = w\<lparr>jtag := st, pipes := ps, connections := cs, pipe_fds := fds, use_cached_npc := ucn, client_fd := -1\<rparr>"
    unfolding w' w3 by (cases w) (auto simp: set_stall_state_def write_pipe_def Let_def)
  ultimately show thesis using that len by blast
qed

lemma client_close_incoming: "rsp_client_close c hw w = Some w' \<Longrightarrow> incoming w' = incoming w"
  by (erule client_close_cases) simp

lemma put_rsp_char_incoming: "put_rsp_char c hw ch w = Some w' \<Longrightarrow> incoming w' = incoming w"
  by (auto simp: put_rsp_char_def Let_def split: if_splits prod.splits dest!: client_close_incoming)

lemma put_chars_incoming: "put_chars c hw cs w = Some w' \<Longrightarrow> incoming w' = incoming w"
  by (induction cs arbitrary: w) (auto split: Option.bind_splits dest!: put_rsp_char_incoming)

lemma read_loop_shorter: "read_loop as = Some (ch, as') \<Longrightarrow> length as' < length as"
  by (induction as rule: read_loop.induct) auto

lemma get_rsp_char_shorter:
  "get_rsp_char c hw w = Some (ch, w') \<Longrightarrow> ch \<noteq> -1 \<Longrightarrow> length (incoming w') < length (incoming w)"
  by (auto simp: get_rsp_char_def Let_def split: Option.bind_splits if_splits dest!: read_loop_shorter)

subsection \<open>Packets\<close>

text \<open>\<open>put_packet\<close> sends the frame again until it is acknowledged or the connection fails.\<close>

function put_packet ::
  "'s jtag_cable_t \<Rightarrow> dbg_hw \<Rightarrow> u8 list \<Rightarrow> ('s, 'z) rsp_bridge_scheme \<Rightarrow> ('s, 'z) rsp_bridge_scheme option" where
  "put_packet c hw bs w =
     do { w1 \<leftarrow> put_chars c hw (packet_chars bs) w;
          (ch, w2) \<leftarrow> get_rsp_char c hw w1;
          (if ch = -1 then Some w2
           else if ch = 0x2b then Some w2
           else put_packet c hw bs w2) }"
  by pat_completeness auto
termination
  by (relation "measure (\<lambda>(c, hw, bs, w). length (incoming w))")
    (auto dest!: put_chars_incoming get_rsp_char_shorter)

declare put_packet.simps [simp del]

definition put_str_packet ::
  "'s jtag_cable_t \<Rightarrow> dbg_hw \<Rightarrow> u8 list \<Rightarrow> ('s, 'z) rsp_bridge_scheme \<Rightarrow> ('s, 'z) rsp_bridge_scheme option" where
  "put_str_packet c hw s w =
     (let len = (if length s \<ge> GDB_BUF_MAX then GDB_BUF_MAX - 1 else length s) in
      put_packet c hw (take len s) w)"

datatype start_result = Started | Interrupted | Start_failed

function wait_start ::
  "'s jtag_cable_t \<Rightarrow> dbg_hw \<Rightarrow> ('s, 'z) rsp_bridge_scheme \<Rightarrow> (start_result \<times> ('s, 'z) rsp_bridge_scheme) option" where
  "wait_start c hw w =
     do { (ch, w1) \<leftarrow> get_rsp_char c hw w;
          (if ch = 0x24 then Some (Started, w1)
           else if ch = -1 then Some (Start_failed, w1)
           else if ch = 0x03
             then Some (Interrupted, w1\<lparr>pkt_data := (pkt_data w1)(0 := 0x03), pkt_len := 1\<rparr>)
           else wait_start c hw w1) }"
  by pat_completeness auto
termination
  by (relation "measure (\<lambda>(c, hw, w). length (incoming w))") (auto dest!: get_rsp_char_shorter)

declare wait_start.simps [simp del]

datatype body_result = Body_end u8 | Body_overrun | Body_failed

text \<open>
  The loop that fills the buffer. It ends with the computed checksum at a \<open>#\<close>, or with the buffer
  full; in both cases the data are terminated and their length noted.
\<close>

function read_body ::
  "'s jtag_cable_t \<Rightarrow> dbg_hw \<Rightarrow> nat \<Rightarrow> u8 \<Rightarrow> ('s, 'z) rsp_bridge_scheme \<Rightarrow> (body_result \<times> ('s, 'z) rsp_bridge_scheme) option" where
  "read_body c hw count checksum w =
     (let fin = w\<lparr>pkt_data := (pkt_data w)(count := 0), pkt_len := count\<rparr> in
      if count < GDB_BUF_MAX - 1
      then do { (ch, w1) \<leftarrow> get_rsp_char c hw w;
                (if ch = -1 then Some (Body_failed, w1)
                 else if ch = 0x24 then read_body c hw 0 0 w1
                 else if ch = 0x23
                   then Some (Body_end checksum, w1\<lparr>pkt_data := (pkt_data w1)(count := 0), pkt_len := count\<rparr>)
                 else read_body c hw (count + 1) (checksum + word_of_int ch)
                        (w1\<lparr>pkt_data := (pkt_data w1)(count := word_of_int ch)\<rparr>)) }
      else Some (Body_overrun, fin))"
  by pat_completeness auto
termination
  by (relation "measure (\<lambda>(c, hw, count, checksum, w). length (incoming w))") (auto dest!: get_rsp_char_shorter)

declare read_body.simps [simp del]


lemma get_rsp_char_le: "get_rsp_char c hw w = Some (ch, w') \<Longrightarrow> length (incoming w') \<le> length (incoming w)"
  by (auto simp: get_rsp_char_def Let_def split: Option.bind_splits if_splits
      dest!: read_loop_shorter client_close_incoming)

lemma wait_start_le: "wait_start c hw w = Some (r, w') \<Longrightarrow> length (incoming w') \<le> length (incoming w)"
proof (induction c hw w rule: wait_start.induct)
  case (1 c hw w)
  from "1.prems" obtain ch w1 where g: "get_rsp_char c hw w = Some (ch, w1)"
    by (subst (asm) wait_start.simps) (auto split: Option.bind_splits)
  from g "1.prems" "1.IH" [OF g refl] get_rsp_char_le [OF g] show ?case
    by (subst (asm) (1) wait_start.simps) (force split: if_splits)
qed

lemma wait_start_shorter:
  "wait_start c hw w = Some (Started, w') \<Longrightarrow> length (incoming w') < length (incoming w)"
proof (induction c hw w rule: wait_start.induct)
  case (1 c hw w)
  from "1.prems" obtain ch w1 where g: "get_rsp_char c hw w = Some (ch, w1)"
    by (subst (asm) wait_start.simps) (auto split: Option.bind_splits)
  from g "1.prems" "1.IH" [OF g refl] get_rsp_char_shorter [OF g] show ?case
    by (subst (asm) (1) wait_start.simps) (force split: if_splits)
qed

lemma read_body_step:
  "count < GDB_BUF_MAX - 1 \<Longrightarrow> get_rsp_char c hw w = Some (ch, w1) \<Longrightarrow>
     read_body c hw count checksum w =
       (if ch = -1 then Some (Body_failed, w1)
        else if ch = 0x24 then read_body c hw 0 0 w1
        else if ch = 0x23
          then Some (Body_end checksum, w1\<lparr>pkt_data := (pkt_data w1)(count := 0), pkt_len := count\<rparr>)
        else read_body c hw (count + 1) (checksum + word_of_int ch)
               (w1\<lparr>pkt_data := (pkt_data w1)(count := word_of_int ch)\<rparr>))"
  by (subst read_body.simps) simp

lemma read_body_gets:
  assumes "read_body c hw count checksum w = Some r" "count < GDB_BUF_MAX - 1"
  obtains ch w1 where "get_rsp_char c hw w = Some (ch, w1)"
  using assms by (subst (asm) read_body.simps) (auto split: Option.bind_splits)

lemma read_body_le:
  "read_body c hw count cs w = Some (r, w') \<Longrightarrow> length (incoming w') \<le> length (incoming w)"
proof (induction c hw count cs w rule: read_body.induct)
  case (1 c hw count cs w)
  show ?case
  proof (cases "count < GDB_BUF_MAX - 1")
    case True
    then obtain ch w1 where g: "get_rsp_char c hw w = Some (ch, w1)"
      using read_body_gets "1.prems" by blast
    note le = get_rsp_char_le [OF g]
    note eq = read_body_step [OF True g, of cs]
    consider "ch = -1 \<or> ch = 0x23" | "ch = 0x24" | "ch \<noteq> -1" "ch \<noteq> 0x23" "ch \<noteq> 0x24" by blast
    then show ?thesis
    proof cases
      case 1
      with "1.prems" le show ?thesis unfolding eq by (elim disjE) auto
    next
      case 2
      with "1.prems" have "read_body c hw 0 0 w1 = Some (r, w')" unfolding eq by simp
      with "1.IH"(1) [OF refl True g refl] 2 le show ?thesis by simp
    next
      case 3
      with "1.prems" have "read_body c hw (count + 1) (cs + word_of_int ch)
          (w1\<lparr>pkt_data := (pkt_data w1)(count := word_of_int ch)\<rparr>) = Some (r, w')" unfolding eq by simp
      with "1.IH"(2) [OF refl True g refl] 3 le show ?thesis by simp
    qed
  next
    case False
    with "1.prems" show ?thesis by (subst (asm) read_body.simps) auto
  qed
qed

lemma body_shorter:
  assumes "wait_start c hw w = Some (s, w1)" "s \<noteq> Start_failed" "s \<noteq> Interrupted"
    "read_body c hw 0 0 w1 = Some (b, w2)"
  shows "length (incoming w2) < length (incoming w)"
proof -
  from assms(2,3) have "s = Started" by (cases s) auto
  with assms(1) have "length (incoming w1) < length (incoming w)" by (simp add: wait_start_shorter)
  with read_body_le [OF assms(4)] show ?thesis by simp
qed

datatype verdict = Accepted | Refused | Verdict_failed

text \<open>The two check digits behind the \<open>#\<close>, and the answer to them.\<close>

definition check_frame ::
  "'s jtag_cable_t \<Rightarrow> dbg_hw \<Rightarrow> u8 \<Rightarrow> ('s, 'z) rsp_bridge_scheme \<Rightarrow> (verdict \<times> ('s, 'z) rsp_bridge_scheme) option" where
  "check_frame c hw checksum w =
     do { (ch, w) \<leftarrow> get_rsp_char c hw w;
          (if ch = -1 then Some (Verdict_failed, w)
           else
             do { (ch', w) \<leftarrow> get_rsp_char c hw w;
                  (if ch' = -1 then Some (Verdict_failed, w)
                   else if checksum \<noteq> push_bit 4 (word_of_int (hex ch)) + word_of_int (hex ch')
                     then do { w \<leftarrow> put_rsp_char c hw 0x2d w; Some (Refused, w) }
                   else do { w \<leftarrow> put_rsp_char c hw 0x2b w; Some (Accepted, w) }) }) }"

lemma check_frame_le:
  "check_frame c hw checksum w = Some (v, w') \<Longrightarrow> length (incoming w') \<le> length (incoming w)"
  by (auto simp: check_frame_def split: Option.bind_splits if_splits dest!: get_rsp_char_le put_rsp_char_incoming)

lemma check_shorter:
  assumes "wait_start c hw w = Some (s, w1)" "s \<noteq> Start_failed" "s \<noteq> Interrupted"
    "read_body c hw 0 0 w1 = Some (b, w2)" "check_frame c hw checksum w2 = Some (v, w3)"
  shows "length (incoming w3) < length (incoming w)"
  using body_shorter [OF assms(1-4)] check_frame_le [OF assms(5)] by simp

text \<open>
  \<open>get_packet\<close> returns whether it has a packet (in the static buffer); \<open>False\<close> is the null pointer.
\<close>

function get_packet ::
  "'s jtag_cable_t \<Rightarrow> dbg_hw \<Rightarrow> ('s, 'z) rsp_bridge_scheme \<Rightarrow> (bool \<times> ('s, 'z) rsp_bridge_scheme) option" where
  "get_packet c hw w =
     do { (s, w1) \<leftarrow> wait_start c hw w;
          (if s = Start_failed then Some (False, w1)
           else if s = Interrupted then Some (True, w1)
           else
             do { (b, w2) \<leftarrow> read_body c hw 0 0 w1;
                  (case b of
                     Body_failed \<Rightarrow> Some (False, w2)
                   | Body_overrun \<Rightarrow> get_packet c hw w2
                   | Body_end checksum \<Rightarrow>
                       do { (v, w3) \<leftarrow> check_frame c hw checksum w2;
                            (if v = Verdict_failed then Some (False, w3)
                             else if v = Refused then get_packet c hw w3
                             else Some (True, w3)) }) }) }"
  by pat_completeness auto
termination
  by (relation "measure (\<lambda>(c, hw, w). length (incoming w))") (auto dest: body_shorter check_shorter)

declare get_packet.simps [simp del]

end
