(* ===== verification/Hwp_Link.thy ===== *)
theory Hwp_Link
  imports Rsp_Link
begin

unbundle bit_operations_syntax

text \<open>
  hwp_server.c: the characters and packets of the HWP server. They are those of the RSP server but for
  the size of the buffer, the break character, which means nothing here, and the descriptor: the
  routines that send take it as an argument, and after a write error they go on with a descriptor that
  has been closed. The socket of the client and the static packet buffer are the record \<open>hwp_link\<close>;
  nothing else is touched when the connection fails.
\<close>

definition HWP_BUF_MAX :: nat where "HWP_BUF_MAX = 256"

record hwp_link =
  hl_fd :: int
  hl_in :: "read_answer list"
  hl_writes :: "write_answer list"
  hl_sent :: "u8 list"
  hl_data :: buffer
  hl_len :: nat

definition hwp_client_close :: "hwp_link \<Rightarrow> hwp_link" where
  "hwp_client_close l = (if hl_fd l \<noteq> -1 then l\<lparr>hl_fd := -1\<rparr> else l)"

subsection \<open>Conversions\<close>

definition hwp_hex :: "int \<Rightarrow> int" where
  "hwp_hex c =
     (if c \<ge> 97 \<and> c \<le> 102 then c - 97 + 10
      else if c \<ge> 48 \<and> c \<le> 57 then c - 48
      else if c \<ge> 65 \<and> c \<le> 70 then c - 65 + 10 else -1)"

definition hwp_hex2reg :: "u8 list \<Rightarrow> u32 option" where
  "hwp_hex2reg b =
     (if length b < 8 then None
      else Some (foldl (\<lambda>val n. val OR push_bit (28 - n * 4) (word_of_int (hwp_hex (uint (b ! n))))) 0 [0..<8]))"

definition hwp_reg2hex :: "u32 \<Rightarrow> u8 list" where
  "hwp_reg2hex val = map (\<lambda>n. hexchar (drop_bit (28 - n * 4) val)) [0..<8] @ [0]"

lemma hwp_hex_eq [simp]: "hwp_hex = hex"
  by (rule ext) (simp add: hwp_hex_def hex_def)

lemma hwp_conversions [simp]: "hwp_hex2reg = hex2reg" "hwp_reg2hex = reg2hex"
  by (rule ext, simp add: hwp_hex2reg_def hex2reg_def hwp_reg2hex_def reg2hex_def)+

subsection \<open>Characters\<close>

text \<open>A descriptor that is not the client's any more has been closed: the call fails with \<open>EBADF\<close>.\<close>

definition put_hwp_rsp_char :: "int \<Rightarrow> u8 \<Rightarrow> hwp_link \<Rightarrow> hwp_link" where
  "put_hwp_rsp_char fd ch l =
     (if fd = -1 then l
      else if fd \<noteq> hl_fd l then hwp_client_close l
      else (let (ok, as) = write_loop (hl_writes l); l = l\<lparr>hl_writes := as\<rparr> in
            if ok then l\<lparr>hl_sent := hl_sent l @ [ch]\<rparr> else hwp_client_close l))"

definition get_hwp_rsp_char :: "int \<Rightarrow> hwp_link \<Rightarrow> (int \<times> hwp_link) option" where
  "get_hwp_rsp_char fd l =
     (if fd = -1 then Some (-1, l)
      else if fd \<noteq> hl_fd l then Some (-1, hwp_client_close l)
      else do { (ch, as) \<leftarrow> read_loop (hl_in l);
                let l = l\<lparr>hl_in := as\<rparr>;
                Some (if ch = -1 then (-1, hwp_client_close l) else (ch, l)) })"

lemma client_close_in [simp]: "hl_in (hwp_client_close l) = hl_in l"
  by (simp add: hwp_client_close_def)

lemma put_hwp_in [simp]: "hl_in (put_hwp_rsp_char fd ch l) = hl_in l"
  by (auto simp: put_hwp_rsp_char_def Let_def split: prod.splits)

lemma fold_put_in [simp]: "hl_in (fold (put_hwp_rsp_char fd) cs l) = hl_in l"
  by (induction cs arbitrary: l) simp_all

lemma get_hwp_shorter: "get_hwp_rsp_char fd l = Some (ch, l') \<Longrightarrow> ch \<noteq> -1 \<Longrightarrow> length (hl_in l') < length (hl_in l)"
  by (auto simp: get_hwp_rsp_char_def Let_def split: Option.bind_splits if_splits dest!: read_loop_shorter)

lemma get_hwp_le: "get_hwp_rsp_char fd l = Some (ch, l') \<Longrightarrow> length (hl_in l') \<le> length (hl_in l)"
  by (auto simp: get_hwp_rsp_char_def Let_def split: Option.bind_splits if_splits dest!: read_loop_shorter)

lemma get_hwp_keeps:
  "get_hwp_rsp_char fd l = Some (ch, l') \<Longrightarrow>
     length (hl_in l') \<le> length (hl_in l) \<and> hl_data l' = hl_data l \<and> hl_len l' = hl_len l"
  by (auto simp: get_hwp_rsp_char_def hwp_client_close_def Let_def split: Option.bind_splits if_splits
      dest!: read_loop_shorter)

subsection \<open>Packets\<close>

function hwp_put_packet :: "int \<Rightarrow> u8 list \<Rightarrow> hwp_link \<Rightarrow> hwp_link option" where
  "hwp_put_packet fd bs l =
     do { (ch, l1) \<leftarrow> get_hwp_rsp_char fd (fold (put_hwp_rsp_char fd) (packet_chars bs) l);
          (if ch = -1 then Some l1
           else if ch = 0x2b then Some l1
           else hwp_put_packet fd bs l1) }"
  by pat_completeness auto
termination
  by (relation "measure (\<lambda>(fd, bs, l). length (hl_in l))") (auto dest!: get_hwp_shorter)

declare hwp_put_packet.simps [simp del]

definition hwp_put_str_packet :: "int \<Rightarrow> string \<Rightarrow> hwp_link \<Rightarrow> hwp_link option" where
  "hwp_put_str_packet fd s l =
     (let len = (if length s \<ge> HWP_BUF_MAX then HWP_BUF_MAX - 1 else length s) in
      hwp_put_packet fd (take len (str s)) l)"

function hwp_wait_start :: "hwp_link \<Rightarrow> (bool \<times> hwp_link) option" where
  "hwp_wait_start l =
     do { (ch, l1) \<leftarrow> get_hwp_rsp_char (hl_fd l) l;
          (if ch = 0x24 then Some (True, l1)
           else if ch = -1 then Some (False, l1)
           else hwp_wait_start l1) }"
  by pat_completeness auto
termination
  by (relation "measure (\<lambda>l. length (hl_in l))") (auto dest!: get_hwp_shorter)

declare hwp_wait_start.simps [simp del]

function hwp_read_body :: "nat \<Rightarrow> u8 \<Rightarrow> hwp_link \<Rightarrow> (body_result \<times> hwp_link) option" where
  "hwp_read_body count checksum l =
     (if count < HWP_BUF_MAX - 1
      then do { (ch, l1) \<leftarrow> get_hwp_rsp_char (hl_fd l) l;
                (if ch = -1 then Some (Body_failed, l1)
                 else if ch = 0x24 then hwp_read_body 0 0 l1
                 else if ch = 0x23
                   then Some (Body_end checksum, l1\<lparr>hl_data := (hl_data l1)(count := 0), hl_len := count\<rparr>)
                 else hwp_read_body (count + 1) (checksum + word_of_int ch)
                        (l1\<lparr>hl_data := (hl_data l1)(count := word_of_int ch)\<rparr>)) }
      else Some (Body_overrun, l\<lparr>hl_data := (hl_data l)(count := 0), hl_len := count\<rparr>))"
  by pat_completeness auto
termination
  by (relation "measure (\<lambda>(count, checksum, l). length (hl_in l))") (auto dest!: get_hwp_shorter)

declare hwp_read_body.simps [simp del]

lemma hwp_wait_start_shorter:
  "hwp_wait_start l = Some (ok, l') \<Longrightarrow> length (hl_in l') \<le> length (hl_in l) \<and> (ok \<longrightarrow> length (hl_in l') < length (hl_in l))"
proof (induction l rule: hwp_wait_start.induct)
  case (1 l)
  from "1.prems" obtain ch l1 where g: "get_hwp_rsp_char (hl_fd l) l = Some (ch, l1)"
    by (subst (asm) hwp_wait_start.simps) (auto split: Option.bind_splits)
  from g "1.prems" "1.IH" [OF g refl] get_hwp_shorter [OF g] get_hwp_le [OF g] show ?case
    by (subst (asm) (1) hwp_wait_start.simps) (force split: if_splits)
qed

lemma hwp_read_body_step:
  "count < HWP_BUF_MAX - 1 \<Longrightarrow> get_hwp_rsp_char (hl_fd l) l = Some (ch, l1) \<Longrightarrow>
     hwp_read_body count checksum l =
       (if ch = -1 then Some (Body_failed, l1)
        else if ch = 0x24 then hwp_read_body 0 0 l1
        else if ch = 0x23
          then Some (Body_end checksum, l1\<lparr>hl_data := (hl_data l1)(count := 0), hl_len := count\<rparr>)
        else hwp_read_body (count + 1) (checksum + word_of_int ch)
               (l1\<lparr>hl_data := (hl_data l1)(count := word_of_int ch)\<rparr>))"
  by (subst hwp_read_body.simps) simp

lemma hwp_read_body_full:
  "\<not> count < HWP_BUF_MAX - 1 \<Longrightarrow>
     hwp_read_body count checksum l = Some (Body_overrun, l\<lparr>hl_data := (hl_data l)(count := 0), hl_len := count\<rparr>)"
  by (subst hwp_read_body.simps) simp

text \<open>What the loop keeps: answers are only consumed, and the buffer is written inside its bounds.\<close>

lemma hwp_read_body_keeps:
  "hwp_read_body count cs l = Some (r, l') \<Longrightarrow> count < HWP_BUF_MAX \<Longrightarrow>
     length (hl_in l') \<le> length (hl_in l) \<and> (r \<noteq> Body_failed \<longrightarrow> hl_len l' < HWP_BUF_MAX \<and> hl_data l' (hl_len l') = 0)
     \<and> (\<forall>i \<ge> HWP_BUF_MAX. hl_data l' i = hl_data l i)"
proof (induction count cs l rule: hwp_read_body.induct)
  case (1 count cs l)
  show ?case
  proof (cases "count < HWP_BUF_MAX - 1")
    case True
    then obtain ch l1 where g: "get_hwp_rsp_char (hl_fd l) l = Some (ch, l1)"
      using "1.prems"(1) by (subst (asm) hwp_read_body.simps) (auto split: Option.bind_splits)
    have d: "hl_data l1 = hl_data l" using get_hwp_keeps [OF g] by simp
    note le = get_hwp_le [OF g]
    note eq = hwp_read_body_step [OF True g, of cs]
    consider "ch = -1 \<or> ch = 0x23" | "ch = 0x24" | "ch \<noteq> -1" "ch \<noteq> 0x23" "ch \<noteq> 0x24" by blast
    then show ?thesis
    proof cases
      case 1
      with "1.prems" le d True show ?thesis unfolding eq by (elim disjE) auto
    next
      case 2
      with "1.prems" have "hwp_read_body 0 0 l1 = Some (r, l')" unfolding eq by simp
      with "1.IH"(1) [OF True g refl] 2 le d show ?thesis by (simp add: HWP_BUF_MAX_def)
    next
      case 3
      with "1.prems" have "hwp_read_body (count + 1) (cs + word_of_int ch)
          (l1\<lparr>hl_data := (hl_data l1)(count := word_of_int ch)\<rparr>) = Some (r, l')" unfolding eq by simp
      moreover have "count + 1 < HWP_BUF_MAX" using True by simp
      ultimately show ?thesis using "1.IH"(2) [OF True g refl] 3 le d by auto
    qed
  next
    case False
    with "1.prems" show ?thesis by (auto simp: hwp_read_body_full [OF False])
  qed
qed

definition hwp_check_frame :: "u8 \<Rightarrow> hwp_link \<Rightarrow> (verdict \<times> hwp_link) option" where
  "hwp_check_frame checksum l =
     do { (ch, l) \<leftarrow> get_hwp_rsp_char (hl_fd l) l;
          (if ch = -1 then Some (Verdict_failed, l)
           else
             do { (ch', l) \<leftarrow> get_hwp_rsp_char (hl_fd l) l;
                  Some (if ch' = -1 then (Verdict_failed, l)
                        else if checksum \<noteq> push_bit 4 (word_of_int (hwp_hex ch)) + word_of_int (hwp_hex ch')
                          then (Refused, put_hwp_rsp_char (hl_fd l) 0x2d l)
                        else (Accepted, put_hwp_rsp_char (hl_fd l) 0x2b l)) }) }"

lemma put_hwp_data [simp]: "hl_data (put_hwp_rsp_char fd ch l) = hl_data l" "hl_len (put_hwp_rsp_char fd ch l) = hl_len l"
  by (auto simp: put_hwp_rsp_char_def hwp_client_close_def Let_def split: prod.splits)

lemma hwp_check_frame_keeps:
  "hwp_check_frame cs l = Some (v, l') \<Longrightarrow>
     length (hl_in l') \<le> length (hl_in l) \<and> hl_data l' = hl_data l \<and> hl_len l' = hl_len l"
  by (auto simp: hwp_check_frame_def split: Option.bind_splits if_splits dest!: get_hwp_keeps)

lemma hwp_body_shorter:
  assumes "hwp_wait_start l = Some (True, l1)" "hwp_read_body 0 0 l1 = Some (b, l2)"
  shows "length (hl_in l2) < length (hl_in l)"
  using hwp_wait_start_shorter [OF assms(1)] hwp_read_body_keeps [OF assms(2)] by (simp add: HWP_BUF_MAX_def)

lemma hwp_check_shorter:
  assumes "hwp_wait_start l = Some (True, l1)" "hwp_read_body 0 0 l1 = Some (b, l2)"
    "hwp_check_frame checksum l2 = Some (v, l3)"
  shows "length (hl_in l3) < length (hl_in l)"
  using hwp_body_shorter [OF assms(1,2)] hwp_check_frame_keeps [OF assms(3)] by simp

function hwp_get_packet :: "hwp_link \<Rightarrow> (bool \<times> hwp_link) option" where
  "hwp_get_packet l =
     do { (ok, l1) \<leftarrow> hwp_wait_start l;
          (if \<not> ok then Some (False, l1)
           else
             do { (b, l2) \<leftarrow> hwp_read_body 0 0 l1;
                  (case b of
                     Body_failed \<Rightarrow> Some (False, l2)
                   | Body_overrun \<Rightarrow> hwp_get_packet l2
                   | Body_end checksum \<Rightarrow>
                       do { (v, l3) \<leftarrow> hwp_check_frame checksum l2;
                            (if v = Verdict_failed then Some (False, l3)
                             else if v = Refused then hwp_get_packet l3
                             else Some (True, l3)) }) }) }"
  by pat_completeness auto
termination
  by (relation "measure (\<lambda>l. length (hl_in l))") (auto dest: hwp_body_shorter hwp_check_shorter)

declare hwp_get_packet.simps [simp del]

end
