(* ===== verification/Rsp_Packets.thy ===== *)
theory Rsp_Packets
  imports Rsp_Link
begin

unbundle bit_operations_syntax

text \<open>
  What the packet layer of rsp-server.c guarantees: frames are retransmitted until acknowledged and
  come through, damaged ones are refused, and the buffer is never written outside its bounds.
  \<open>link_up\<close> is a connection on which every write succeeds.
\<close>

definition link_up :: "('s, 'z) rsp_bridge_scheme \<Rightarrow> bool" where
  "link_up w \<longleftrightarrow> client_fd w \<noteq> -1 \<and> write_answers w = []"

lemma link_upD: "link_up w \<Longrightarrow> client_fd w \<noteq> -1" "link_up w \<Longrightarrow> write_answers w = []"
  by (simp_all add: link_up_def)

lemma link_up_upd [simp]:
  "link_up (w\<lparr>sent := s\<rparr>) = link_up w" "link_up (w\<lparr>incoming := as\<rparr>) = link_up w"
  "link_up (w\<lparr>pkt_data := d\<rparr>) = link_up w" "link_up (w\<lparr>pkt_len := n\<rparr>) = link_up w"
  "link_up (w\<lparr>jtag := st\<rparr>) = link_up w" "link_up (w\<lparr>mp_table := mp\<rparr>) = link_up w"
  "link_up (w\<lparr>hwp_in_use := hu\<rparr>) = link_up w" "link_up (w\<lparr>cached_npc := a\<rparr>) = link_up w"
  "link_up (w\<lparr>use_cached_npc := u\<rparr>) = link_up w"
  by (simp_all add: link_up_def)

lemma put_rsp_char_up: "link_up w \<Longrightarrow> put_rsp_char c hw ch w = Some (w\<lparr>sent := sent w @ [ch]\<rparr>)"
  by (cases w) (auto simp: put_rsp_char_def link_up_def)

lemma put_chars_up: "link_up w \<Longrightarrow> put_chars c hw cs w = Some (w\<lparr>sent := sent w @ cs\<rparr>)"
  by (induction cs arbitrary: w) (simp_all add: put_rsp_char_up)

lemma uint_not_m1 [simp]: "uint b \<noteq> -1"
proof -
  have "0 \<le> uint b" by simp
  then show ?thesis by linarith
qed

lemma uint_byte_eq: "0 \<le> k \<Longrightarrow> k < 256 \<Longrightarrow> uint b = k \<longleftrightarrow> b = word_of_int k" for b :: u8
  by (auto simp: unsigned_of_int take_bit_int_eq_self)

lemmas uint_chars [simp] =
  uint_byte_eq [of "0x2b", simplified] uint_byte_eq [of "0x24", simplified]
  uint_byte_eq [of "0x23", simplified] uint_byte_eq [of "0x03", simplified]

lemma get_rsp_char_up:
  "client_fd w \<noteq> -1 \<Longrightarrow> incoming w = Rd_char b # as \<Longrightarrow> get_rsp_char c hw w = Some (uint b, w\<lparr>incoming := as\<rparr>)"
  by (simp add: get_rsp_char_def)

subsection \<open>Sending\<close>

lemma put_packet_up:
  assumes "link_up w" "incoming w = map Rd_char nacks @ Rd_char 0x2b # as" "0x2b \<notin> set nacks"
  shows "put_packet c hw bs w =
     Some (w\<lparr>sent := sent w @ concat (replicate (Suc (length nacks)) (packet_chars bs)), incoming := as\<rparr>)"
  using assms
proof (induction nacks arbitrary: w)
  case Nil
  let ?w1 = "w\<lparr>sent := sent w @ packet_chars bs\<rparr>"
  have "get_rsp_char c hw ?w1 = Some (0x2b, ?w1\<lparr>incoming := as\<rparr>)"
    using get_rsp_char_up [of ?w1 "0x2b" as c hw] Nil.prems by (simp add: link_upD)
  with Nil.prems show ?case by (subst put_packet.simps) (simp add: put_chars_up)
next
  case (Cons n nacks)
  let ?w1 = "w\<lparr>sent := sent w @ packet_chars bs\<rparr>"
  let ?w2 = "?w1\<lparr>incoming := map Rd_char nacks @ Rd_char 0x2b # as\<rparr>"
  have g: "get_rsp_char c hw ?w1 = Some (uint n, ?w2)"
    using get_rsp_char_up [of ?w1 n "map Rd_char nacks @ Rd_char 0x2b # as" c hw] Cons.prems
    by (simp add: link_upD)
  have "put_packet c hw bs w = put_packet c hw bs ?w2"
    using g Cons.prems(1,3) by (subst put_packet.simps) (simp add: put_chars_up)
  also have "\<dots> = Some (?w2\<lparr>sent := sent ?w2 @ concat (replicate (Suc (length nacks)) (packet_chars bs)), incoming := as\<rparr>)"
    using Cons.prems by (intro Cons.IH) simp_all
  finally show ?case by simp
qed


text \<open>
  C15. Sending a packet. On a connection that is up, when the peer answers the first \<open>n\<close> copies of the
  frame with anything but \<open>+\<close> and the next one with \<open>+\<close>, \<open>put_packet\<close> returns after having sent exactly
  \<open>n + 1\<close> copies of the frame, consumed exactly these answers, and changed nothing else.
\<close>

theorem put_packet_retransmits:
  assumes "link_up w" "incoming w = map Rd_char nacks @ Rd_char 0x2b # as" "0x2b \<notin> set nacks"
  shows "put_packet c hw bs w =
     Some (w\<lparr>sent := sent w @ concat (replicate (Suc (length nacks)) (packet_chars bs)), incoming := as\<rparr>)"
  using assms by (rule put_packet_up)

definition rsp_on :: "debug_dev \<Rightarrow> read_answer list \<Rightarrow> wires parport rsp_bridge" where
  "rsp_on d as = bridge.extend (bridge_on d)
     (rsp_bridge.fields False False False 6 3 4 0 EXCEPT_RESET mp_hash_init False 0 (-1, -1)
        (replicate HWP_MAX_WP 0) (\<lambda>_. 0) 0 as [] [] 0)"

lemma rsp_on_simps [simp]:
  "jtag (rsp_on d as) = board d" "client_fd (rsp_on d as) = 4" "write_answers (rsp_on d as) = []"
  "incoming (rsp_on d as) = as" "sent (rsp_on d as) = []" "link_up (rsp_on d as)"
  "target_running (rsp_on d as) = False" "mp_table (rsp_on d as) = mp_hash_init"
  "pipe_fds (rsp_on d as) = (-1, -1)" "hwp_in_use (rsp_on d as) = replicate HWP_MAX_WP 0"
  "pkt_data (rsp_on d as) = (\<lambda>_. 0)" "pkt_len (rsp_on d as) = 0" "sigval (rsp_on d as) = 0"
  "connections (rsp_on d as) = []" "pipes_mutex (rsp_on d as) = False"
  by (simp_all add: rsp_on_def bridge.defs rsp_bridge.defs bridge_on_def link_up_def)

theorem put_packet_retransmits_witness:
  "put_packet xess DBG_HW_ADVANCED (str ''OK'') (rsp_on idle_dev [Rd_char 0x2d, Rd_char 0x2b]) =
     Some (rsp_on idle_dev [Rd_char 0x2d, Rd_char 0x2b]
       \<lparr>sent := packet_chars (str ''OK'') @ packet_chars (str ''OK''), incoming := []\<rparr>)"
  using put_packet_retransmits [of "rsp_on idle_dev [Rd_char 0x2d, Rd_char 0x2b]" "[0x2d]" "[]" xess DBG_HW_ADVANCED]
  by simp

subsection \<open>Receiving\<close>

lemma wait_start_up:
  assumes "client_fd w \<noteq> -1" "incoming w = map Rd_char noise @ Rd_char 0x24 # as"
    "0x24 \<notin> set noise" "0x03 \<notin> set noise"
  shows "wait_start c hw w = Some (Started, w\<lparr>incoming := as\<rparr>)"
  using assms
proof (induction noise arbitrary: w)
  case Nil
  then show ?case by (subst wait_start.simps) (simp add: get_rsp_char_up)
next
  case (Cons n noise)
  then show ?case by (subst wait_start.simps) (simp add: get_rsp_char_up)
qed

lemma store_at_Nil [simp]: "store_at d off [] = d"
  by (auto simp: store_at_def fun_eq_iff)

lemma store_at_Cons: "store_at (d(off := b)) (Suc off) bs = store_at d off (b # bs)"
proof
  fix i
  show "store_at (d(off := b)) (Suc off) bs i = store_at d off (b # bs) i"
    by (cases "i = off") (auto simp: store_at_def nth_Cons' Suc_le_eq)
qed

lemma read_body_up:
  assumes "client_fd w \<noteq> -1" "incoming w = map Rd_char ds @ Rd_char 0x23 # as"
    "0x24 \<notin> set ds" "0x23 \<notin> set ds" "count + length ds < GDB_BUF_MAX - 1"
  shows "read_body c hw count checksum w =
     Some (Body_end (checksum + sum_list ds),
           w\<lparr>pkt_data := (store_at (pkt_data w) count ds)(count + length ds := 0), pkt_len := count + length ds,
             incoming := as\<rparr>)"
  using assms
proof (induction ds arbitrary: w count checksum)
  case Nil
  then have g: "get_rsp_char c hw w = Some (0x23, w\<lparr>incoming := as\<rparr>)"
    using get_rsp_char_up [of w "0x23" as c hw] by simp
  with Nil.prems show ?case by (subst read_body_step [OF _ g]) simp_all
next
  case (Cons b ds)
  then have g: "get_rsp_char c hw w = Some (uint b, w\<lparr>incoming := map Rd_char ds @ Rd_char 0x23 # as\<rparr>)"
    by (intro get_rsp_char_up) simp_all
  let ?w1 = "w\<lparr>incoming := map Rd_char ds @ Rd_char 0x23 # as, pkt_data := (pkt_data w)(count := b)\<rparr>"
  have "read_body c hw count checksum w = read_body c hw (count + 1) (checksum + b) ?w1"
    using Cons.prems by (subst read_body_step [OF _ g]) simp_all
  also have "\<dots> = Some (Body_end (checksum + b + sum_list ds),
           ?w1\<lparr>pkt_data := (store_at (pkt_data ?w1) (count + 1) ds)(count + 1 + length ds := 0), pkt_len := count + 1 + length ds,
             incoming := as\<rparr>)"
    using Cons.prems by (intro Cons.IH) simp_all
  finally show ?case by (simp add: add.assoc store_at_Cons, simp add: fun_upd_def)
qed

lemma hex_checksum:
  "push_bit 4 (word_of_int (hex (uint (hexchar (drop_bit 4 s))))) + word_of_int (hex (uint (hexchar s))) = s" for s :: u8
proof -
  have "push_bit 4 (take_bit 4 (drop_bit 4 s)) + take_bit 4 s = push_bit 4 (take_bit 4 (drop_bit 4 s)) OR take_bit 4 s"
    by (rule disjunctive_add_eq_or) (auto intro!: bit_word_eqI simp: bit_and_iff bit_take_bit_iff)
  then show ?thesis by (simp add: hex_pair)
qed


text \<open>
  A frame with body \<open>ds\<close> and check digits \<open>h\<close>, \<open>l\<close>: the state behind it, and the verdict.
\<close>

definition take_frame :: "u8 list \<Rightarrow> read_answer list \<Rightarrow> ('s, 'z) rsp_bridge_scheme \<Rightarrow> ('s, 'z) rsp_bridge_scheme" where
  "take_frame ds as w =
     w\<lparr>pkt_data := (store_at (pkt_data w) 0 ds)(length ds := 0), pkt_len := length ds, incoming := as\<rparr>"

lemma take_frame_simps [simp]:
  "link_up (take_frame ds as w) = link_up w" "sent (take_frame ds as w) = sent w"
  "incoming (take_frame ds as w) = as" "pkt_len (take_frame ds as w) = length ds"
  "pkt_data (take_frame ds as w) = (store_at (pkt_data w) 0 ds)(length ds := 0)"
  by (simp_all add: take_frame_def)

lemma get_packet_frame:
  assumes "link_up w"
    "incoming w = map Rd_char noise @ Rd_char 0x24 # map Rd_char ds @ [Rd_char 0x23, Rd_char h, Rd_char l] @ as"
    "0x24 \<notin> set noise" "0x03 \<notin> set noise" "0x24 \<notin> set ds" "0x23 \<notin> set ds" "length ds < GDB_BUF_MAX - 1"
  shows "get_packet c hw w =
     (if sum_list ds = push_bit 4 (word_of_int (hex (uint h))) + word_of_int (hex (uint l))
      then Some (True, take_frame ds as (w\<lparr>sent := sent w @ [0x2b]\<rparr>))
      else get_packet c hw (take_frame ds as (w\<lparr>sent := sent w @ [0x2d]\<rparr>)))"
proof -
  let ?w1 = "w\<lparr>incoming := map Rd_char ds @ Rd_char 0x23 # Rd_char h # Rd_char l # as\<rparr>"
  let ?w2 = "take_frame ds (Rd_char h # Rd_char l # as) w"
  let ?w3 = "take_frame ds (Rd_char l # as) w"
  let ?w4 = "take_frame ds as w"
  have s: "wait_start c hw w = Some (Started, ?w1)"
    using assms by (intro wait_start_up) (auto simp: link_upD)
  have b: "read_body c hw 0 0 ?w1 = Some (Body_end (sum_list ds), ?w2)"
    using read_body_up [of ?w1 ds "Rd_char h # Rd_char l # as" 0 c hw 0] assms
    by (simp add: link_upD take_frame_def)
  have up: "link_up ?w4" "client_fd ?w2 \<noteq> -1" "client_fd ?w3 \<noteq> -1"
    using assms(1) by (simp_all add: take_frame_def link_up_def)
  have g: "get_rsp_char c hw ?w2 = Some (uint h, ?w3)" "get_rsp_char c hw ?w3 = Some (uint l, ?w4)"
    using up get_rsp_char_up [of ?w2 h "Rd_char l # as" c hw] get_rsp_char_up [of ?w3 l as c hw]
    by (simp_all add: take_frame_def)
  have p: "put_rsp_char c hw ch ?w4 = Some (take_frame ds as (w\<lparr>sent := sent w @ [ch]\<rparr>))" for ch
    using put_rsp_char_up [OF up(1)] by (simp add: take_frame_def)
  show ?thesis
    by (subst get_packet.simps) (simp add: s b check_frame_def g p)
qed

lemma get_packet_accepts:
  assumes "link_up w"
    "incoming w = map Rd_char noise @ map Rd_char (packet_chars bs) @ as"
    "0x24 \<notin> set noise" "0x03 \<notin> set noise" "length (packet_body bs) < GDB_BUF_MAX - 1"
  shows "get_packet c hw w = Some (True, take_frame (packet_body bs) as (w\<lparr>sent := sent w @ [0x2b]\<rparr>))"
proof -
  have "0x24 \<notin> set (packet_body bs)" "0x23 \<notin> set (packet_body bs)"
    using packet_body_plain [of _ bs] by blast+
  moreover have "incoming w = map Rd_char noise @ Rd_char 0x24 # map Rd_char (packet_body bs)
      @ [Rd_char 0x23, Rd_char (hexchar (drop_bit 4 (sum_list (packet_body bs)))), Rd_char (hexchar (sum_list (packet_body bs)))] @ as"
    using assms(2) by (simp add: packet_chars_def Let_def)
  ultimately show ?thesis
    using get_packet_frame [OF assms(1), of noise "packet_body bs" "hexchar (drop_bit 4 (sum_list (packet_body bs)))"
        "hexchar (sum_list (packet_body bs))" as c hw] assms(3-5)
    by (simp only: hex_checksum if_True simp_thms)
qed

text \<open>
  C16. What one end sends the other end receives. Whatever noise without \<open>$\<close> and break characters comes
  first, then a frame whose check digits are wrong, then the frame \<open>put_packet\<close> builds for \<open>bs\<close>:
  \<open>get_packet\<close> refuses the first with \<open>-\<close>, accepts the second with \<open>+\<close>, leaves in the buffer the escaped
  body of \<open>bs\<close>, terminated by a zero, with its length, and consumes nothing behind the frame. The
  body may be as long as the buffer allows (two bytes less than its size).
\<close>

theorem get_packet_roundtrip:
  assumes "link_up w"
    and "incoming w = map Rd_char noise @ (Rd_char 0x24 # map Rd_char ds @ [Rd_char 0x23, Rd_char h, Rd_char l])
           @ map Rd_char (packet_chars bs) @ as"
    and "0x24 \<notin> set noise" "0x03 \<notin> set noise" "0x24 \<notin> set ds" "0x23 \<notin> set ds"
    and "length ds < GDB_BUF_MAX - 1" "length (packet_body bs) < GDB_BUF_MAX - 1"
    and "sum_list ds \<noteq> push_bit 4 (word_of_int (hex (uint h))) + word_of_int (hex (uint l))"
  shows "\<exists>w'. get_packet c hw w = Some (True, w') \<and> sent w' = sent w @ [0x2d, 0x2b] \<and> incoming w' = as
     \<and> pkt_len w' = length (packet_body bs) \<and> slice_at (pkt_data w') 0 (pkt_len w') = packet_body bs
     \<and> pkt_data w' (pkt_len w') = 0"
proof -
  let ?w1 = "take_frame ds (map Rd_char (packet_chars bs) @ as) (w\<lparr>sent := sent w @ [0x2d]\<rparr>)"
  have "get_packet c hw w = get_packet c hw ?w1"
    using get_packet_frame [of w noise ds h l "map Rd_char (packet_chars bs) @ as" c hw] assms
    by (simp only: if_False simp_thms append.simps append_assoc)
  also have "\<dots> = Some (True, take_frame (packet_body bs) as (?w1\<lparr>sent := sent ?w1 @ [0x2b]\<rparr>))"
    using assms by (intro get_packet_accepts [where noise = "[]"]) simp_all
  finally show ?thesis
    by (intro exI conjI, assumption) (auto intro!: slice_at_eqI simp: store_at_def)
qed


theorem get_packet_roundtrip_witness:
  "\<exists>w'. get_packet xess DBG_HW_ADVANCED
       (rsp_on idle_dev (map Rd_char [0x2b, 0x24, 0x41, 0x23, 0x30, 0x30] @ map Rd_char (packet_chars (str ''m0,4''))))
       = Some (True, w')
     \<and> sent w' = [0x2d, 0x2b] \<and> slice_at (pkt_data w') 0 (pkt_len w') = str ''m0,4''"
proof -
  have body: "packet_body (str ''m0,4'') = str ''m0,4''" by code_simp
  have bad: "(0x41 :: u8) \<noteq> push_bit 4 (word_of_int (hex (uint (0x30 :: u8)))) + word_of_int (hex (uint (0x30 :: u8)))"
    by code_simp
  show ?thesis
    using get_packet_roundtrip [of "rsp_on idle_dev (map Rd_char [0x2b, 0x24, 0x41, 0x23, 0x30, 0x30]
        @ map Rd_char (packet_chars (str ''m0,4'')))" "[0x2b]" "[0x41]" "0x30" "0x30" "str ''m0,4''" "[]" xess DBG_HW_ADVANCED]
      bad
    by (auto simp: body GDB_BUF_MAX_def)
qed

subsection \<open>Bounds\<close>

text \<open>\<open>same_beyond\<close>: the memory behind the packet buffer has not been written.\<close>

definition same_beyond :: "('s, 'z) rsp_bridge_scheme \<Rightarrow> ('s, 'z) rsp_bridge_scheme \<Rightarrow> bool" where
  "same_beyond w w' \<longleftrightarrow> (\<forall>i \<ge> GDB_BUF_MAX. pkt_data w' i = pkt_data w i)"

lemma same_beyond_trans: "same_beyond w w' \<Longrightarrow> same_beyond w' w'' \<Longrightarrow> same_beyond w w''"
  by (simp add: same_beyond_def)

lemma client_close_pkt:
  "rsp_client_close c hw w = Some w' \<Longrightarrow> pkt_data w' = pkt_data w \<and> pkt_len w' = pkt_len w"
  by (erule client_close_cases) simp

lemma get_rsp_char_pkt: "get_rsp_char c hw w = Some (ch, w') \<Longrightarrow> pkt_data w' = pkt_data w \<and> pkt_len w' = pkt_len w"
  by (auto simp: get_rsp_char_def Let_def split: Option.bind_splits if_splits dest!: client_close_pkt)

lemma put_rsp_char_pkt: "put_rsp_char c hw ch w = Some w' \<Longrightarrow> pkt_data w' = pkt_data w \<and> pkt_len w' = pkt_len w"
  by (auto simp: put_rsp_char_def Let_def split: if_splits prod.splits dest!: client_close_pkt)

lemma wait_start_pkt:
  "wait_start c hw w = Some (r, w') \<Longrightarrow>
     same_beyond w w' \<and> (r = Interrupted \<longrightarrow> pkt_len w' = 1 \<and> pkt_data w' 0 = 0x03)"
proof (induction c hw w rule: wait_start.induct)
  case (1 c hw w)
  from "1.prems" obtain ch w1 where g: "get_rsp_char c hw w = Some (ch, w1)"
    by (subst (asm) wait_start.simps) (auto split: Option.bind_splits)
  note pkt = get_rsp_char_pkt [OF g]
  consider "ch = 0x24 \<or> ch = -1 \<or> ch = 0x03" | "ch \<noteq> 0x24" "ch \<noteq> -1" "ch \<noteq> 0x03" by blast
  then show ?case
  proof cases
    case 1
    with "1.prems" g pkt show ?thesis
      by (subst (asm) wait_start.simps) (auto simp: same_beyond_def GDB_BUF_MAX_def split: if_splits)
  next
    case 2
    with "1.prems" g have "wait_start c hw w1 = Some (r, w')"
      by (subst (asm) wait_start.simps) simp
    with "1.IH" [OF g refl 2] pkt show ?thesis by (simp add: same_beyond_def)
  qed
qed

lemma read_body_pkt:
  "read_body c hw count cs w = Some (r, w') \<Longrightarrow> count < GDB_BUF_MAX \<Longrightarrow>
     same_beyond w w' \<and> (r \<noteq> Body_failed \<longrightarrow> pkt_len w' < GDB_BUF_MAX \<and> pkt_data w' (pkt_len w') = 0)"
proof (induction c hw count cs w rule: read_body.induct)
  case (1 c hw count cs w)
  show ?case
  proof (cases "count < GDB_BUF_MAX - 1")
    case True
    then obtain ch w1 where g: "get_rsp_char c hw w = Some (ch, w1)"
      using read_body_gets "1.prems"(1) by blast
    note pkt = get_rsp_char_pkt [OF g]
    note eq = read_body_step [OF True g, of cs]
    consider "ch = -1 \<or> ch = 0x23" | "ch = 0x24" | "ch \<noteq> -1" "ch \<noteq> 0x23" "ch \<noteq> 0x24" by blast
    then show ?thesis
    proof cases
      case 1
      with "1.prems" pkt show ?thesis unfolding eq by (elim disjE) (auto simp: same_beyond_def)
    next
      case 2
      with "1.prems" have "read_body c hw 0 0 w1 = Some (r, w')" unfolding eq by simp
      with "1.IH"(1) [OF refl True g refl] 2 pkt show ?thesis by (simp add: same_beyond_def GDB_BUF_MAX_def)
    next
      case 3
      with "1.prems" have "read_body c hw (count + 1) (cs + word_of_int ch)
          (w1\<lparr>pkt_data := (pkt_data w1)(count := word_of_int ch)\<rparr>) = Some (r, w')" unfolding eq by simp
      with "1.IH"(2) [OF refl True g refl] 3 pkt True show ?thesis by (simp add: same_beyond_def)
    qed
  next
    case False
    with "1.prems" show ?thesis by (subst (asm) read_body.simps) (auto simp: same_beyond_def)
  qed
qed

lemma check_frame_pkt:
  "check_frame c hw checksum w = Some (v, w') \<Longrightarrow> pkt_data w' = pkt_data w \<and> pkt_len w' = pkt_len w"
  by (auto simp: check_frame_def split: Option.bind_splits if_splits dest!: get_rsp_char_pkt put_rsp_char_pkt)

lemma get_packet_pkt:
  "get_packet c hw w = Some (ok, w') \<Longrightarrow>
     same_beyond w w' \<and> (ok \<longrightarrow> pkt_len w' < GDB_BUF_MAX
       \<and> (pkt_data w' (pkt_len w') = 0 \<or> pkt_len w' = 1 \<and> pkt_data w' 0 = 0x03))"
proof (induction c hw w rule: get_packet.induct)
  case (1 c hw w)
  from "1.prems" obtain s w1 where s: "wait_start c hw w = Some (s, w1)"
    by (subst (asm) get_packet.simps) (auto split: Option.bind_splits)
  note ws = wait_start_pkt [OF s]
  show ?case
  proof (cases "s = Started")
    case False
    with "1.prems" s ws show ?thesis
      by (subst (asm) get_packet.simps) (cases s, auto simp: GDB_BUF_MAX_def)
  next
    case True
    then have started: "s \<noteq> Start_failed" "s \<noteq> Interrupted" by auto
    from "1.prems" s started obtain b w2 where b: "read_body c hw 0 0 w1 = Some (b, w2)"
      by (subst (asm) get_packet.simps) (auto split: Option.bind_splits)
    have rb: "same_beyond w w2" "b \<noteq> Body_failed \<longrightarrow> pkt_len w2 < GDB_BUF_MAX \<and> pkt_data w2 (pkt_len w2) = 0"
      using read_body_pkt [OF b] ws same_beyond_trans by (auto simp: GDB_BUF_MAX_def)
    show ?thesis
    proof (cases b)
      case Body_failed
      with "1.prems" s b started rb show ?thesis by (subst (asm) get_packet.simps) simp
    next
      case Body_overrun
      with "1.prems" s b started have "get_packet c hw w2 = Some (ok, w')" by (subst (asm) get_packet.simps) simp
      with "1.IH"(2) [OF s refl started b refl] Body_overrun same_beyond_trans [OF rb(1)] show ?thesis by auto
    next
      case (Body_end checksum)
      with "1.prems" s b started obtain v w3 where v: "check_frame c hw checksum w2 = Some (v, w3)"
        by (subst (asm) get_packet.simps) (auto split: Option.bind_splits)
      have w3: "same_beyond w w3" "pkt_len w3 < GDB_BUF_MAX" "pkt_data w3 (pkt_len w3) = 0"
        using check_frame_pkt [OF v] rb Body_end by (simp_all add: same_beyond_def)
      show ?thesis
      proof (cases v)
        case Refused
        with "1.prems" s b started Body_end v have "get_packet c hw w3 = Some (ok, w')"
          by (subst (asm) get_packet.simps) simp
        with "1.IH"(1) [OF s refl started b refl Body_end v refl] Refused same_beyond_trans [OF w3(1)]
        show ?thesis by auto
      qed (use "1.prems" s b started Body_end v w3 in \<open>subst (asm) get_packet.simps, simp\<close>)+
    qed
  qed
qed

text \<open>
  C17. Bounds of the packet buffer. Whatever the peer sends, \<open>get_packet\<close> writes no byte behind the
  \<open>GDB_BUF_MAX\<close> bytes of its buffer; when it returns a packet, the length is less than the size of
  the buffer, and the packet is terminated by a zero byte in the buffer or is the one-byte break.
\<close>

theorem get_packet_bounds:
  assumes "get_packet c hw w = Some (ok, w')"
  shows "(\<forall>i. GDB_BUF_MAX \<le> i \<longrightarrow> pkt_data w' i = pkt_data w i)
     \<and> (ok \<longrightarrow> pkt_len w' < GDB_BUF_MAX \<and> (pkt_data w' (pkt_len w') = 0 \<or> pkt_len w' = 1 \<and> pkt_data w' 0 = 0x03))"
  using get_packet_pkt [OF assms] by (simp add: same_beyond_def)

theorem get_packet_bounds_witness:
  "\<exists>w'. get_packet xess DBG_HW_ADVANCED (rsp_on idle_dev (map Rd_char (packet_chars (str ''?'')))) = Some (True, w')
     \<and> pkt_len w' < GDB_BUF_MAX"
proof -
  have body: "packet_body (str ''?'') = str ''?''" by code_simp
  have "get_packet xess DBG_HW_ADVANCED (rsp_on idle_dev (map Rd_char (packet_chars (str ''?'')))) =
      Some (True, take_frame (packet_body (str ''?'')) []
        (rsp_on idle_dev (map Rd_char (packet_chars (str ''?'')))\<lparr>sent := [0x2b]\<rparr>))"
    using get_packet_accepts [of "rsp_on idle_dev (map Rd_char (packet_chars (str ''?'')))" "[]" "str ''?''" "[]"]
    by (simp add: body GDB_BUF_MAX_def)
  with get_packet_bounds [OF this] show ?thesis by blast
qed

end
