(* ===== verification/Rsp_Server.thy ===== *)
theory Rsp_Server
  imports Rsp_Packets
begin

unbundle bit_operations_syntax

text \<open>
  rsp-server.c: the handlers of the GDB requests. Each takes the state with the request in the static
  packet buffer and returns the state after its last call, or \<open>None\<close> where the source would not come
  back or runs into undefined behaviour (a read of what was never written, a null pointer, overflow
  of a signed integer). Locals that a failed register access leaves unset have the value \<open>junk\<close>.
  Messages to the terminal have no counterpart, so a branch that only prints a warning is \<open>Some w\<close>.
\<close>

abbreviation chr :: "char \<Rightarrow> u8" where "chr x \<equiv> of_char x"

definition OR1K_TRAP_INSTR :: u32 where "OR1K_TRAP_INSTR = 0x21000001"
definition PPC_REGNUM :: u32 where "PPC_REGNUM = 32"
definition NPC_REGNUM :: u32 where "NPC_REGNUM = 33"
definition SR_REGNUM :: u32 where "SR_REGNUM = 34"

definition TARGET_SIGNAL_NONE :: int where "TARGET_SIGNAL_NONE = 0"
definition TARGET_SIGNAL_INT :: int where "TARGET_SIGNAL_INT = 2"
definition TARGET_SIGNAL_ILL :: int where "TARGET_SIGNAL_ILL = 4"
definition TARGET_SIGNAL_TRAP :: int where "TARGET_SIGNAL_TRAP = 5"
definition TARGET_SIGNAL_FPE :: int where "TARGET_SIGNAL_FPE = 8"
definition TARGET_SIGNAL_BUS :: int where "TARGET_SIGNAL_BUS = 10"
definition TARGET_SIGNAL_SEGV :: int where "TARGET_SIGNAL_SEGV = 11"
definition TARGET_SIGNAL_ALRM :: int where "TARGET_SIGNAL_ALRM = 14"
definition TARGET_SIGNAL_USR2 :: int where "TARGET_SIGNAL_USR2 = 31"
definition TARGET_SIGNAL_PWR :: int where "TARGET_SIGNAL_PWR = 32"

definition SPR_SR_SM :: u32 where "SPR_SR_SM = 0x1"
definition SPR_DMR1_ST :: u32 where "SPR_DMR1_ST = 0x00400000"
definition SPR_DMR1_BT :: u32 where "SPR_DMR1_BT = 0x00800000"
definition SPR_DMR2_WBS :: u32 where "SPR_DMR2_WBS = 0xffc00000"
definition SPR_DSR_BUSEE :: u32 where "SPR_DSR_BUSEE = 0x2"
definition SPR_DSR_AE :: u32 where "SPR_DSR_AE = 0x20"
definition SPR_DSR_IIE :: u32 where "SPR_DSR_IIE = 0x40"
definition SPR_DSR_RE :: u32 where "SPR_DSR_RE = 0x400"
definition SPR_DSR_FPE :: u32 where "SPR_DSR_FPE = 0x1000"
definition SPR_DSR_TE :: u32 where "SPR_DSR_TE = 0x2000"

subsection \<open>Shared calls\<close>

definition cpu_read ::
  "'s jtag_cable_t \<Rightarrow> dbg_hw \<Rightarrow> u32 \<Rightarrow> u32 \<Rightarrow> ('s, 'z) rsp_bridge_scheme \<Rightarrow> (u32 \<times> u32 \<times> ('s, 'z) rsp_bridge_scheme) option" where
  "cpu_read c hw adr old w = on_jtag2 (dbg_cpu0_read c hw adr old) w"

definition cpu_write ::
  "'s jtag_cable_t \<Rightarrow> dbg_hw \<Rightarrow> u32 \<Rightarrow> u32 \<Rightarrow> ('s, 'z) rsp_bridge_scheme \<Rightarrow> (u32 \<times> ('s, 'z) rsp_bridge_scheme) option" where
  "cpu_write c hw adr v w = on_jtag (dbg_cpu0_write c hw adr v) w"

definition reply ::
  "'s jtag_cable_t \<Rightarrow> dbg_hw \<Rightarrow> string \<Rightarrow> ('s, 'z) rsp_bridge_scheme \<Rightarrow> ('s, 'z) rsp_bridge_scheme option" where
  "reply c hw s w = put_str_packet c hw (str s) w"

text \<open>The reply to an access that either worked or did not.\<close>

definition reply_status ::
  "'s jtag_cable_t \<Rightarrow> dbg_hw \<Rightarrow> u32 \<Rightarrow> ('s, 'z) rsp_bridge_scheme \<Rightarrow> ('s, 'z) rsp_bridge_scheme option" where
  "reply_status c hw errcode w = (if errcode = APP_ERR_NONE then reply c hw ''OK'' w else reply c hw ''E01'' w)"

definition has_prefix :: "string \<Rightarrow> u8 list \<Rightarrow> bool" where
  "has_prefix p s \<longleftrightarrow> take (length p) s = str p"

definition request :: "('s, 'z) rsp_bridge_scheme \<Rightarrow> u8 list" where
  "request w = c_string_at (pkt_data w) 0"

text \<open>Replies that are built in the packet buffer: the string is stored there, terminated, and sent.\<close>

definition put_in_buffer ::
  "'s jtag_cable_t \<Rightarrow> dbg_hw \<Rightarrow> u8 list \<Rightarrow> ('s, 'z) rsp_bridge_scheme \<Rightarrow> ('s, 'z) rsp_bridge_scheme option" where
  "put_in_buffer c hw bs w =
     (let d = store_at (pkt_data w) 0 (bs @ [0]); s = c_string_at d 0 in
      put_packet c hw s (w\<lparr>pkt_data := d, pkt_len := length s\<rparr>))"

text \<open>\<open>int\<close> arithmetic that must not overflow.\<close>

definition c_int :: "int \<Rightarrow> int option" where
  "c_int x = (if - (2 ^ 31) \<le> x \<and> x < 2 ^ 31 then Some x else None)"

subsection \<open>Exceptions\<close>

definition signal_of :: "u32 \<Rightarrow> int option" where
  "signal_of except =
     (if except = 0x1 then Some TARGET_SIGNAL_PWR
      else if except = 0x2 then Some TARGET_SIGNAL_BUS
      else if except = 0x4 then Some TARGET_SIGNAL_SEGV
      else if except = 0x8 then Some TARGET_SIGNAL_SEGV
      else if except = 0x10 then Some TARGET_SIGNAL_ALRM
      else if except = 0x20 then Some TARGET_SIGNAL_BUS
      else if except = 0x40 then Some TARGET_SIGNAL_ILL
      else if except = 0x80 then Some TARGET_SIGNAL_INT
      else if except = 0x100 then Some TARGET_SIGNAL_SEGV
      else if except = 0x200 then Some TARGET_SIGNAL_SEGV
      else if except = 0x400 then Some TARGET_SIGNAL_FPE
      else if except = 0x800 then Some TARGET_SIGNAL_USR2
      else if except = 0x1000 then Some TARGET_SIGNAL_FPE
      else if except = 0x2000 then Some TARGET_SIGNAL_TRAP
      else if except = 0 then Some TARGET_SIGNAL_TRAP
      else None)"

definition rsp_exception :: "u32 \<Rightarrow> ('s, 'z) rsp_bridge_scheme \<Rightarrow> ('s, 'z) rsp_bridge_scheme" where
  "rsp_exception except w =
     (case signal_of except of Some sv \<Rightarrow> w\<lparr>sigval := sv\<rparr> | None \<Rightarrow> w)"

definition rsp_report_exception ::
  "'s jtag_cable_t \<Rightarrow> dbg_hw \<Rightarrow> ('s, 'z) rsp_bridge_scheme \<Rightarrow> ('s, 'z) rsp_bridge_scheme option" where
  "rsp_report_exception c hw w =
     (if sigval w < 0 \<or> 256 \<le> sigval w then None
      else put_packet c hw [chr CHR ''S'', hexchars ! nat (sigval w div 16), hexchars ! nat (sigval w mod 16)] w)"

definition set_npc ::
  "'s jtag_cable_t \<Rightarrow> dbg_hw \<Rightarrow> u32 \<Rightarrow> ('s, 'z) rsp_bridge_scheme \<Rightarrow> (u32 \<times> ('s, 'z) rsp_bridge_scheme) option" where
  "set_npc c hw addr w =
     do { (errcode, w) \<leftarrow> cpu_write c hw SPR_NPC addr w;
          Some (errcode, w\<lparr>cached_npc := addr, use_cached_npc := True\<rparr>) }"

subsection \<open>Continue and step\<close>

definition clear_watch_status ::
  "'s jtag_cable_t \<Rightarrow> dbg_hw \<Rightarrow> u32 \<Rightarrow> ('s, 'z) rsp_bridge_scheme \<Rightarrow> (u32 \<times> ('s, 'z) rsp_bridge_scheme) option" where
  "clear_watch_status c hw old w =
     do { (_, tmp, w) \<leftarrow> cpu_read c hw SPR_DMR2 old w;
          (if tmp AND SPR_DMR2_WBS \<noteq> 0
           then do { (_, w) \<leftarrow> cpu_write c hw SPR_DMR2 tmp w; Some (tmp, w) }
           else Some (tmp, w)) }"

definition rsp_continue_generic ::
  "'s jtag_cable_t \<Rightarrow> dbg_hw \<Rightarrow> u32 \<Rightarrow> ('s, 'z) rsp_bridge_scheme \<Rightarrow> ('s, 'z) rsp_bridge_scheme option" where
  "rsp_continue_generic c hw except w =
     do { (_, w) \<leftarrow> cpu_write c hw SPR_DRR 0 w;
          (tmp, w) \<leftarrow> clear_watch_status c hw (junk w) w;
          (_, tmp, w) \<leftarrow> cpu_read c hw SPR_DMR1 tmp w;
          (_, w) \<leftarrow> cpu_write c hw SPR_DMR1 (tmp AND NOT (SPR_DMR1_ST OR SPR_DMR1_BT)) w;
          let w = set_stall_state False w;
          Some (w\<lparr>client_waiting := True, single_step_mode := False\<rparr>) }"

definition rsp_continue ::
  "'s jtag_cable_t \<Rightarrow> dbg_hw \<Rightarrow> ('s, 'z) rsp_bridge_scheme \<Rightarrow> ('s, 'z) rsp_bridge_scheme option" where
  "rsp_continue c hw w =
     (if request w = str ''c'' then rsp_continue_generic c hw EXCEPT_NONE w
      else case do { s \<leftarrow> scan_char (chr CHR ''c'') (request w); scan_hex s } of
             None \<Rightarrow> rsp_continue_generic c hw EXCEPT_NONE w
           | Some (addr, _) \<Rightarrow>
               do { (_, w) \<leftarrow> set_npc c hw addr w; rsp_continue_generic c hw EXCEPT_NONE w })"

definition rsp_continue_with_signal :: "('s, 'z) rsp_bridge_scheme \<Rightarrow> ('s, 'z) rsp_bridge_scheme option" where
  "rsp_continue_with_signal w = Some w"

definition rsp_step_generic ::
  "'s jtag_cable_t \<Rightarrow> dbg_hw \<Rightarrow> u32 \<Rightarrow> ('s, 'z) rsp_bridge_scheme \<Rightarrow> ('s, 'z) rsp_bridge_scheme option" where
  "rsp_step_generic c hw except w =
     do { (_, w) \<leftarrow> cpu_write c hw SPR_DRR 0 w;
          (tmp, w) \<leftarrow> clear_watch_status c hw 0 w;
          w \<leftarrow> (if \<not> single_step_mode w
               then do { (_, tmp, w) \<leftarrow> cpu_read c hw SPR_DMR1 tmp w;
                         let tmp = tmp OR (SPR_DMR1_ST OR SPR_DMR1_BT);
                         (_, w) \<leftarrow> cpu_write c hw SPR_DMR1 tmp w;
                         (_, tmp, w) \<leftarrow> cpu_read c hw SPR_DSR tmp w;
                         w \<leftarrow> (if tmp AND SPR_DSR_TE = 0
                              then do { (_, w) \<leftarrow> cpu_write c hw SPR_DSR (tmp OR SPR_DSR_TE) w; Some w }
                              else Some w);
                         Some (w\<lparr>single_step_mode := True\<rparr>) }
               else Some w);
          let w = set_stall_state False w;
          Some (w\<lparr>client_waiting := True\<rparr>) }"

text \<open>The address of a step request is parsed and not used.\<close>

definition rsp_step ::
  "'s jtag_cable_t \<Rightarrow> dbg_hw \<Rightarrow> ('s, 'z) rsp_bridge_scheme \<Rightarrow> ('s, 'z) rsp_bridge_scheme option" where
  "rsp_step c hw w = rsp_step_generic c hw EXCEPT_NONE w"

text \<open>So is the signal (\<open>strtoul\<close> in base 10).\<close>

definition dec_value :: "u8 list \<Rightarrow> u32" where
  "dec_value s =
     (let (neg, _, s) = scan_sign (length s) (skip_space s);
          v = foldl (\<lambda>v d. v * 10 + nat (uint d - 48)) 0 (takeWhile (\<lambda>d. 0x30 \<le> d \<and> d \<le> 0x39) s)
      in if v > 0xFFFFFFFF then 0xFFFFFFFF else if neg then - of_nat v else of_nat v)"

definition rsp_step_with_signal ::
  "'s jtag_cable_t \<Rightarrow> dbg_hw \<Rightarrow> ('s, 'z) rsp_bridge_scheme \<Rightarrow> ('s, 'z) rsp_bridge_scheme option" where
  "rsp_step_with_signal c hw w = rsp_step_generic c hw (dec_value (c_string_at (pkt_data w) 1)) w"

definition rsp_restart ::
  "'s jtag_cable_t \<Rightarrow> dbg_hw \<Rightarrow> ('s, 'z) rsp_bridge_scheme \<Rightarrow> ('s, 'z) rsp_bridge_scheme option" where
  "rsp_restart c hw w = do { (_, w) \<leftarrow> set_npc c hw (start_addr w) w; Some w }"


subsection \<open>Registers\<close>

text \<open>
  \<open>reg2hex\<close> terminates each register with a zero that the next one overwrites, so the packet is the
  digits of the 32 GPRs, PPC, NPC and SR in a row.
\<close>

definition rsp_read_all_regs ::
  "'s jtag_cable_t \<Rightarrow> dbg_hw \<Rightarrow> ('s, 'z) rsp_bridge_scheme \<Rightarrow> ('s, 'z) rsp_bridge_scheme option" where
  "rsp_read_all_regs c hw w =
     do { (e1, regbuf, w) \<leftarrow> on_jtag2 (dbg_cpu0_read_block c hw SPR_GPR_BASE (replicate MAX_GPRS (junk w)) (int MAX_GPRS)) w;
          let gprs = map (\<lambda>r. regbuf ! r) [0..<MAX_GPRS];
          (e2, regbuf, w) \<leftarrow> on_jtag2 (dbg_cpu0_read_block c hw SPR_NPC regbuf 3) w;
          let npc = (if use_cached_npc w then cached_npc w else regbuf ! 0);
          let bs = concat (map (\<lambda>v. take 8 (reg2hex v)) (gprs @ [regbuf ! 2, npc, regbuf ! 1]));
          (if e1 OR e2 = APP_ERR_NONE then put_packet c hw bs w else reply c hw ''E01'' w) }"

text \<open>The digits are taken from the start of the packet, where its first character is the \<open>G\<close>.\<close>

definition reg_at :: "('s, 'z) rsp_bridge_scheme \<Rightarrow> nat \<Rightarrow> u32 option" where
  "reg_at w r = hex2reg (slice_at (pkt_data w) (r * 8) 8)"

definition rsp_write_all_regs ::
  "'s jtag_cable_t \<Rightarrow> dbg_hw \<Rightarrow> ('s, 'z) rsp_bridge_scheme \<Rightarrow> ('s, 'z) rsp_bridge_scheme option" where
  "rsp_write_all_regs c hw w =
     (let regbuf = map (\<lambda>r. the (reg_at w r)) [0..<MAX_GPRS] in
      do { (e1, w) \<leftarrow> on_jtag (dbg_cpu0_write_block c hw SPR_GPR_BASE regbuf (int MAX_GPRS)) w;
           npc \<leftarrow> reg_at w (unat NPC_REGNUM);
           sr \<leftarrow> reg_at w (unat SR_REGNUM);
           ppc \<leftarrow> reg_at w (unat PPC_REGNUM);
           let regbuf = regbuf[0 := npc, 1 := sr, 2 := ppc];
           (e2, w) \<leftarrow> on_jtag (dbg_cpu0_write_block c hw SPR_NPC regbuf 3) w;
           reply_status c hw (e1 OR e2) w })"

definition send_reg ::
  "'s jtag_cable_t \<Rightarrow> dbg_hw \<Rightarrow> u32 \<Rightarrow> u32 \<Rightarrow> ('s, 'z) rsp_bridge_scheme \<Rightarrow> ('s, 'z) rsp_bridge_scheme option" where
  "send_reg c hw errcode tmp w =
     (if errcode = APP_ERR_NONE then put_in_buffer c hw (take 8 (reg2hex tmp)) w else reply c hw ''E01'' w)"

definition rsp_read_reg ::
  "'s jtag_cable_t \<Rightarrow> dbg_hw \<Rightarrow> ('s, 'z) rsp_bridge_scheme \<Rightarrow> ('s, 'z) rsp_bridge_scheme option" where
  "rsp_read_reg c hw w =
     (case do { s \<leftarrow> scan_char (chr CHR ''p'') (request w); scan_hex s } of
        None \<Rightarrow> reply c hw ''E01'' w
      | Some (regnum, _) \<Rightarrow>
          if regnum < of_nat MAX_GPRS then
            do { (e, tmp, w) \<leftarrow> cpu_read c hw (SPR_GPR_BASE + regnum) (junk w) w; send_reg c hw e tmp w }
          else if regnum = PPC_REGNUM then
            do { (e, tmp, w) \<leftarrow> cpu_read c hw SPR_PPC (junk w) w; send_reg c hw e tmp w }
          else if regnum = NPC_REGNUM then
            (if use_cached_npc w then send_reg c hw APP_ERR_NONE (cached_npc w) w
             else do { (e, tmp, w) \<leftarrow> cpu_read c hw SPR_NPC (junk w) w; send_reg c hw e tmp w })
          else if regnum = SR_REGNUM then
            do { (e, tmp, w) \<leftarrow> cpu_read c hw SPR_SR (junk w) w; send_reg c hw e tmp w }
          else reply c hw ''E01'' w)"

text \<open>\<open>valstr\<close> has the characters of the value and a zero; \<open>hex2reg\<close> reads eight of them.\<close>

definition rsp_write_reg ::
  "'s jtag_cable_t \<Rightarrow> dbg_hw \<Rightarrow> ('s, 'z) rsp_bridge_scheme \<Rightarrow> ('s, 'z) rsp_bridge_scheme option" where
  "rsp_write_reg c hw w =
     (case do { s \<leftarrow> scan_char (chr CHR ''P'') (request w);
                (regnum, s) \<leftarrow> scan_hex s;
                s \<leftarrow> scan_char (chr CHR ''='') s;
                valstr \<leftarrow> scan_word8 s;
                Some (regnum, valstr) } of
        None \<Rightarrow> reply c hw ''E01'' w
      | Some (regnum, valstr) \<Rightarrow>
          if regnum < of_nat MAX_GPRS then
            do { v \<leftarrow> hex2reg valstr; (e, w) \<leftarrow> cpu_write c hw (SPR_GPR_BASE + regnum) v w; reply_status c hw e w }
          else if regnum = PPC_REGNUM then
            do { v \<leftarrow> hex2reg valstr; (e, w) \<leftarrow> cpu_write c hw SPR_PPC v w; reply_status c hw e w }
          else if regnum = NPC_REGNUM then
            do { v \<leftarrow> hex2reg valstr; (e, w) \<leftarrow> set_npc c hw v w; reply_status c hw e w }
          else if regnum = SR_REGNUM then
            do { v \<leftarrow> hex2reg valstr; (e, w) \<leftarrow> cpu_write c hw SPR_SR v w; reply_status c hw e w }
          else reply c hw ''E01'' w)"

subsection \<open>Memory\<close>

definition scan_addr_len :: "u8 \<Rightarrow> u8 list \<Rightarrow> (u32 \<times> int) option" where
  "scan_addr_len ch s =
     do { s \<leftarrow> scan_char ch s;
          (addr, s) \<leftarrow> scan_hex s;
          s \<leftarrow> scan_char (chr CHR '','') s;
          (len, _) \<leftarrow> scan_hex s;
          Some (addr, sint len) }"

text \<open>A negative length, as \<open>size_t\<close>, is more than \<open>malloc\<close> can give: no byte of the result may be used.\<close>

definition rsp_read_mem ::
  "'s jtag_cable_t \<Rightarrow> dbg_hw \<Rightarrow> ('s, 'z) rsp_bridge_scheme \<Rightarrow> ('s, 'z) rsp_bridge_scheme option" where
  "rsp_read_mem c hw w =
     (case scan_addr_len (chr CHR ''m'') (request w) of
        None \<Rightarrow> reply c hw ''E01'' w
      | Some (addr, len) \<Rightarrow>
          do { len2 \<leftarrow> c_int (len * 2);
               let len = (if len2 \<ge> int GDB_BUF_MAX then int ((GDB_BUF_MAX - 1) div 2) else len);
               let tmpbuf = replicate (nat len) (ucast (junk w));
               (errcode, tmpbuf, w) \<leftarrow> on_jtag2 (dbg_wb_read_block8 c hw addr tmpbuf len) w;
               (if errcode = APP_ERR_NONE then put_in_buffer c hw (ascii2hex tmpbuf) w
                else reply c hw ''E01'' (w\<lparr>pkt_data := store_at (pkt_data w) 0 (ascii2hex tmpbuf)\<rparr>)) })"

text \<open>\<open>memchr\<close> searches the whole buffer; without a colon in it the source goes on with a null pointer.\<close>

function colon_at :: "buffer \<Rightarrow> nat \<Rightarrow> nat option" where
  "colon_at d i = (if GDB_BUF_MAX \<le> i then None else if d i = chr CHR '':'' then Some i else colon_at d (i + 1))"
  by pat_completeness auto
termination by (relation "measure (\<lambda>(d, i). GDB_BUF_MAX - i)") auto

declare colon_at.simps [simp del]

definition data_start :: "('s, 'z) rsp_bridge_scheme \<Rightarrow> nat option" where
  "data_start w = map_option Suc (colon_at (pkt_data w) 0)"

definition hex_byte :: "u8 \<Rightarrow> u8 \<Rightarrow> u8" where
  "hex_byte h l = push_bit 4 (word_of_int (hex (uint h))) OR word_of_int (hex (uint l))"

definition rsp_write_mem ::
  "'s jtag_cable_t \<Rightarrow> dbg_hw \<Rightarrow> ('s, 'z) rsp_bridge_scheme \<Rightarrow> ('s, 'z) rsp_bridge_scheme option" where
  "rsp_write_mem c hw w =
     (case scan_addr_len (chr CHR ''M'') (request w) of
        None \<Rightarrow> reply c hw ''E01'' w
      | Some (addr, len) \<Rightarrow>
          do { symdat \<leftarrow> data_start w;
               let datlen = int (pkt_len w) - int symdat;
               len2 \<leftarrow> c_int (len * 2);
               (if len2 \<noteq> datlen then reply c hw ''E01'' w
                else
                  do { let tmpbuf = map (\<lambda>off. hex_byte (pkt_data w (symdat + off * 2)) (pkt_data w (symdat + off * 2 + 1)))
                                      [0..<nat len];
                       (errcode, w) \<leftarrow> on_jtag (dbg_wb_write_block8 c hw addr tmpbuf len) w;
                       reply_status c hw errcode w }) })"

definition rsp_write_mem_bin ::
  "'s jtag_cable_t \<Rightarrow> dbg_hw \<Rightarrow> ('s, 'z) rsp_bridge_scheme \<Rightarrow> ('s, 'z) rsp_bridge_scheme option" where
  "rsp_write_mem_bin c hw w =
     (case scan_addr_len (chr CHR ''X'') (request w) of
        None \<Rightarrow> reply c hw ''E01'' w
      | Some (addr, len) \<Rightarrow>
          do { off \<leftarrow> data_start w;
               let (newlen, d) = rsp_unescape off (pkt_len w - off) (pkt_data w);
               let w = w\<lparr>pkt_data := d\<rparr>;
               let len = (if int newlen \<noteq> len then min len (int newlen) else len);
               (errcode, w) \<leftarrow> on_jtag (dbg_wb_write_block8 c hw addr (slice_at d off (nat len)) len) w;
               reply_status c hw errcode w })"

end
