(* ===== verification/Rsp_Dispatch.thy ===== *)
theory Rsp_Dispatch
  imports Rsp_Server
begin

unbundle bit_operations_syntax

text \<open>
  rsp-server.c, continued: the query, set and \<open>v\<close> packets, the monitor commands, the matchpoints, the
  dispatcher \<open>rsp_client_request\<close>, the connection of a new client, one call of \<open>handle_rsp\<close>, and
  \<open>rsp_init\<close>. The answers of the network calls are arguments.
\<close>

subsection \<open>Queries and settings\<close>

text \<open>\<open>%8x\<close>: the digits without leading zeros, filled up with blanks to eight characters.\<close>

definition print_8x :: "u32 \<Rightarrow> u8 list" where
  "print_8x v =
     (let ds = take 8 (reg2hex v); k = length (takeWhile (\<lambda>d. d = 0x30) (take 7 ds))
      in replicate k 0x20 @ drop k ds)"

text \<open>A command that is neither \<open>readspr\<close> nor \<open>writespr\<close> gets no answer.\<close>

definition rsp_command ::
  "'s jtag_cable_t \<Rightarrow> dbg_hw \<Rightarrow> ('s, 'z) rsp_bridge_scheme \<Rightarrow> ('s, 'z) rsp_bridge_scheme option" where
  "rsp_command c hw w =
     (let cmd = c_string (hex2ascii (c_string_at (pkt_data w) (length ''qRcmd,''))) in
      if has_prefix ''readspr'' cmd then
        (case do { s \<leftarrow> scan_string ''readspr'' cmd; scan_hex_width 4 (skip_space s) } of
           None \<Rightarrow> reply c hw ''E01'' w
         | Some (regno, _) \<Rightarrow>
             if regno > MAX_SPRS then reply c hw ''E01'' w
             else do { (_, tmp, w) \<leftarrow> cpu_read c hw regno (junk w) w;
                       put_in_buffer c hw (ascii2hex (print_8x tmp)) w })
      else if has_prefix ''writespr'' cmd then
        (case do { s \<leftarrow> scan_string ''writespr'' cmd;
                   (regno, s) \<leftarrow> scan_hex_width 4 (skip_space s);
                   (val, _) \<leftarrow> scan_hex_width 8 (skip_space s);
                   Some (regno, val) } of
           None \<Rightarrow> reply c hw ''E01'' w
         | Some (regno, val) \<Rightarrow>
             if regno > MAX_SPRS then reply c hw ''E01'' w
             else do { (_, w) \<leftarrow> cpu_write c hw regno val w; reply c hw ''OK'' w })
      else Some w)"

definition rsp_query ::
  "'s jtag_cable_t \<Rightarrow> dbg_hw \<Rightarrow> ('s, 'z) rsp_bridge_scheme \<Rightarrow> ('s, 'z) rsp_bridge_scheme option" where
  "rsp_query c hw w =
     (let s = request w in
      if s = str ''qC'' then reply c hw '''' w
      else if has_prefix ''qCRC'' s then reply c hw ''E01'' w
      else if s = str ''qfThreadInfo'' then reply c hw ''m-1'' w
      else if s = str ''qsThreadInfo'' then reply c hw ''l'' w
      else if has_prefix ''qGetTLSAddr:'' s then reply c hw '''' w
      else if has_prefix ''qL'' s then reply c hw ''qM001'' w
      else if s = str ''qOffsets'' then reply c hw ''Text=0;Data=0;Bss=0'' w
      else if has_prefix ''qP'' s then reply c hw '''' w
      else if has_prefix ''qRcmd,'' s then rsp_command c hw w
      else if has_prefix ''qSupported'' s then reply c hw ''PacketSize=4000'' w
      else if has_prefix ''qSymbol:'' s then reply c hw ''OK'' w
      else if has_prefix ''qThreadExtraInfo,'' s then put_in_buffer c hw (ascii2hex (str ''Runnable'' @ [0])) w
      else if has_prefix ''qXfer:'' s then reply c hw '''' w
      else if has_prefix ''qAttached'' s then reply c hw '''' w
      else if s = str ''qTStatus'' then reply c hw '''' w
      else Some w)"

definition rsp_set ::
  "'s jtag_cable_t \<Rightarrow> dbg_hw \<Rightarrow> ('s, 'z) rsp_bridge_scheme \<Rightarrow> ('s, 'z) rsp_bridge_scheme option" where
  "rsp_set c hw w =
     (let s = request w in
      if has_prefix ''QPassSignals:'' s then reply c hw '''' w
      else if has_prefix ''QTDP'' s \<or> has_prefix ''QFrame'' s \<or> s = str ''QTStart'' \<or> s = str ''QTStop''
           \<or> s = str ''QTinit'' \<or> has_prefix ''QTro'' s then reply c hw '''' w
      else Some w)"

definition rsp_vpkt ::
  "'s jtag_cable_t \<Rightarrow> dbg_hw \<Rightarrow> ('s, 'z) rsp_bridge_scheme \<Rightarrow> ('s, 'z) rsp_bridge_scheme option" where
  "rsp_vpkt c hw w =
     (let s = request w in
      if has_prefix ''vAttach;'' s then reply c hw ''S05'' w
      else if s = str ''vCont?'' then reply c hw '''' w
      else if has_prefix ''vCont'' s then Some w
      else if has_prefix ''vFile:'' s then reply c hw '''' w
      else if has_prefix ''vFlashErase:'' s then reply c hw ''E01'' w
      else if has_prefix ''vFlashWrite:'' s then reply c hw ''E01'' w
      else if s = str ''vFlashDone'' then reply c hw ''E01'' w
      else if has_prefix ''vRun;'' s then do { w \<leftarrow> rsp_restart c hw w; reply c hw ''S05'' w }
      else reply c hw ''E01'' w)"

subsection \<open>Matchpoints\<close>

definition mp_type_of :: "int \<Rightarrow> mp_type option" where
  "mp_type_of n =
     (if n = 0 then Some BP_MEMORY else if n = 1 then Some BP_HARDWARE else if n = 2 then Some WP_WRITE
      else if n = 3 then Some WP_READ else if n = 4 then Some WP_ACCESS else None)"

definition scan_matchpoint :: "u8 \<Rightarrow> u8 list \<Rightarrow> (int \<times> u32) option" where
  "scan_matchpoint ch s =
     do { s \<leftarrow> scan_char ch s;
          (type, s) \<leftarrow> scan_digit s;
          s \<leftarrow> scan_char (chr CHR '','') s;
          (addr, s) \<leftarrow> scan_hex s;
          s \<leftarrow> scan_char (chr CHR '','') s;
          (len, _) \<leftarrow> scan_digit s;
          Some (type, addr) }"

definition wgb_bit :: "u32 \<Rightarrow> u32" where
  "wgb_bit hwp = push_bit 12 (push_bit (unat hwp) 1)"

definition remove_memory_breakpoint ::
  "'s jtag_cable_t \<Rightarrow> dbg_hw \<Rightarrow> u32 \<Rightarrow> ('s, 'z) rsp_bridge_scheme \<Rightarrow> ('s, 'z) rsp_bridge_scheme option" where
  "remove_memory_breakpoint c hw addr w =
     (let (mpe, h) = mp_hash_delete BP_MEMORY addr (mp_table w); w = w\<lparr>mp_table := h\<rparr> in
      case mpe of
        None \<Rightarrow> reply c hw ''OK'' w
      | Some mpe \<Rightarrow>
          do { (_, _, w) \<leftarrow> on_jtag2 (dbg_wb_write_block32 c hw addr [mpe_instr mpe] 1) w;
               reply c hw ''OK'' w })"

definition remove_watchpoint ::
  "'s jtag_cable_t \<Rightarrow> dbg_hw \<Rightarrow> mp_type \<Rightarrow> u32 \<Rightarrow> ('s, 'z) rsp_bridge_scheme \<Rightarrow> ('s, 'z) rsp_bridge_scheme option" where
  "remove_watchpoint c hw type addr w =
     (let (mpe, h) = mp_hash_delete type addr (mp_table w); w = w\<lparr>mp_table := h\<rparr> in
      case mpe of
        None \<Rightarrow> reply c hw ''OK'' w
      | Some mpe \<Rightarrow>
          (let hwp = mpe_instr mpe in
           if 32 \<le> hwp then None
           else
             do { (_, regdata, w) \<leftarrow> cpu_read c hw SPR_DMR2 (junk w) w;
                  (_, w) \<leftarrow> cpu_write c hw SPR_DMR2 (regdata AND NOT (wgb_bit hwp)) w;
                  (_, w) \<leftarrow> cpu_write c hw (SPR_DCR hwp) 0x01 w;
                  use \<leftarrow> hwp_return_watchpoint (sint hwp) (hwp_in_use w);
                  reply c hw ''OK'' (w\<lparr>hwp_in_use := use\<rparr>) }))"

definition rsp_remove_matchpoint ::
  "'s jtag_cable_t \<Rightarrow> dbg_hw \<Rightarrow> ('s, 'z) rsp_bridge_scheme \<Rightarrow> ('s, 'z) rsp_bridge_scheme option" where
  "rsp_remove_matchpoint c hw w =
     (case scan_matchpoint (chr CHR ''z'') (request w) of
        None \<Rightarrow> reply c hw ''E01'' w
      | Some (n, addr) \<Rightarrow>
          (case mp_type_of n of
             None \<Rightarrow> reply c hw ''E01'' w
           | Some BP_MEMORY \<Rightarrow> remove_memory_breakpoint c hw addr w
           | Some type \<Rightarrow> remove_watchpoint c hw type addr w))"

definition insert_memory_breakpoint ::
  "'s jtag_cable_t \<Rightarrow> dbg_hw \<Rightarrow> u32 \<Rightarrow> ('s, 'z) rsp_bridge_scheme \<Rightarrow> ('s, 'z) rsp_bridge_scheme option" where
  "insert_memory_breakpoint c hw addr w =
     do { (_, instbuf, w) \<leftarrow> on_jtag2 (dbg_wb_read_block32 c hw addr [junk w] 1) w;
          let w = w\<lparr>mp_table := mp_hash_add BP_MEMORY addr (instbuf ! 0) (mp_table w)\<rparr>;
          (_, _, w) \<leftarrow> on_jtag2 (dbg_wb_write_block32 c hw addr [OR1K_TRAP_INSTR] 1) w;
          reply c hw ''OK'' w }"

text \<open>
  The four hardware branches differ in the comparison \<open>dcr\<close>. The table keeps the number of the
  watchpoint where a memory breakpoint keeps the instruction.
\<close>

definition insert_watchpoint ::
  "'s jtag_cable_t \<Rightarrow> dbg_hw \<Rightarrow> mp_type \<Rightarrow> u32 \<Rightarrow> u32 \<Rightarrow> ('s, 'z) rsp_bridge_scheme \<Rightarrow> ('s, 'z) rsp_bridge_scheme option" where
  "insert_watchpoint c hw type dcr addr w =
     (let (hwp, use) = hwp_get_available_watchpoint (hwp_in_use w); w = w\<lparr>hwp_in_use := use\<rparr> in
      if hwp = -1 then reply c hw '''' w
      else
        (let n = of_int hwp; w = w\<lparr>mp_table := mp_hash_add type addr n (mp_table w)\<rparr> in
         do { (_, w) \<leftarrow> cpu_write c hw (SPR_DVR n) addr w;
              (_, w) \<leftarrow> cpu_write c hw (SPR_DCR n) dcr w;
              (_, regdata, w) \<leftarrow> cpu_read c hw SPR_DMR2 dcr w;
              let regdata = regdata OR wgb_bit n;
              (_, w) \<leftarrow> cpu_write c hw SPR_DMR2 regdata w;
              (_, regdata, w) \<leftarrow> cpu_read c hw SPR_DMR1 regdata w;
              let regdata = regdata AND NOT (push_bit (2 * unat n) 0x3);
              (_, w) \<leftarrow> cpu_write c hw SPR_DMR1 regdata w;
              reply c hw ''OK'' w }))"

definition rsp_insert_matchpoint ::
  "'s jtag_cable_t \<Rightarrow> dbg_hw \<Rightarrow> ('s, 'z) rsp_bridge_scheme \<Rightarrow> ('s, 'z) rsp_bridge_scheme option" where
  "rsp_insert_matchpoint c hw w =
     (case scan_matchpoint (chr CHR ''Z'') (request w) of
        None \<Rightarrow> reply c hw ''E01'' w
      | Some (n, addr) \<Rightarrow>
          (case mp_type_of n of
             None \<Rightarrow> reply c hw ''E01'' w
           | Some BP_MEMORY \<Rightarrow> insert_memory_breakpoint c hw addr w
           | Some BP_HARDWARE \<Rightarrow> insert_watchpoint c hw BP_HARDWARE 0x23 addr w
           | Some WP_WRITE \<Rightarrow> insert_watchpoint c hw WP_WRITE 0x63 addr w
           | Some WP_READ \<Rightarrow> insert_watchpoint c hw WP_READ 0x43 addr w
           | Some WP_ACCESS \<Rightarrow> insert_watchpoint c hw WP_ACCESS 0xC3 addr w))"

subsection \<open>The dispatcher\<close>

definition not_stopped_msg :: string where
  "not_stopped_msg = ''O6154677274656e20746f73206f74707064650a0d''"

text \<open>The calls that serve \<open>D\<close>, in their order.\<close>

fun run_calls :: "('w \<Rightarrow> 'w option) list \<Rightarrow> 'w \<Rightarrow> 'w option" where
  "run_calls [] w = Some w"
| "run_calls (f # fs) w = do { w \<leftarrow> f w; run_calls fs w }"

definition detach_calls ::
  "'s jtag_cable_t \<Rightarrow> dbg_hw \<Rightarrow> (('s, 'z) rsp_bridge_scheme \<Rightarrow> ('s, 'z) rsp_bridge_scheme option) list" where
  "detach_calls c hw = [reply c hw ''OK'', rsp_client_close c hw, \<lambda>w. Some (set_stall_state False w)]"

text \<open>The requests \<open>b\<close>, \<open>B\<close>, \<open>d\<close>, \<open>F\<close>, \<open>k\<close>, \<open>r\<close>, \<open>t\<close> and unknown ones are only warned about.\<close>

definition rsp_dispatch ::
  "'s jtag_cable_t \<Rightarrow> dbg_hw \<Rightarrow> u8 \<Rightarrow> ('s, 'z) rsp_bridge_scheme \<Rightarrow> ('s, 'z) rsp_bridge_scheme option" where
  "rsp_dispatch c hw ch w =
     (if ch = 0x03 then Some w
      else if ch = chr CHR ''!'' then reply c hw ''OK'' w
      else if ch = chr CHR ''?'' then rsp_report_exception c hw w
      else if ch = chr CHR ''A'' then reply c hw ''E01'' w
      else if ch = chr CHR ''c'' then rsp_continue c hw w
      else if ch = chr CHR ''C'' then rsp_continue_with_signal w
      else if ch = chr CHR ''D'' then
        run_calls (detach_calls c hw) w
      else if ch = chr CHR ''g'' then rsp_read_all_regs c hw w
      else if ch = chr CHR ''G'' then rsp_write_all_regs c hw w
      else if ch = chr CHR ''H'' then reply c hw ''OK'' w
      else if ch = chr CHR ''i'' then rsp_step c hw w
      else if ch = chr CHR ''I'' then rsp_step_with_signal c hw w
      else if ch = chr CHR ''m'' then rsp_read_mem c hw w
      else if ch = chr CHR ''M'' then rsp_write_mem c hw w
      else if ch = chr CHR ''p'' then rsp_read_reg c hw w
      else if ch = chr CHR ''P'' then rsp_write_reg c hw w
      else if ch = chr CHR ''q'' then rsp_query c hw w
      else if ch = chr CHR ''Q'' then rsp_set c hw w
      else if ch = chr CHR ''R'' then rsp_restart c hw w
      else if ch = chr CHR ''s'' then rsp_step c hw w
      else if ch = chr CHR ''S'' then rsp_step_with_signal c hw w
      else if ch = chr CHR ''T'' then reply c hw ''OK'' w
      else if ch = chr CHR ''v'' then rsp_vpkt c hw w
      else if ch = chr CHR ''X'' then rsp_write_mem_bin c hw w
      else if ch = chr CHR ''z'' then rsp_remove_matchpoint c hw w
      else if ch = chr CHR ''Z'' then rsp_insert_matchpoint c hw w
      else Some w)"

definition rsp_client_request ::
  "'s jtag_cable_t \<Rightarrow> dbg_hw \<Rightarrow> ('s, 'z) rsp_bridge_scheme \<Rightarrow> ('s, 'z) rsp_bridge_scheme option" where
  "rsp_client_request c hw w =
     do { (ok, w) \<leftarrow> get_packet c hw w;
          (if \<not> ok then rsp_client_close c hw w
           else if target_running w then
             (if pkt_data w 0 = 0x03 then Some (set_stall_state True w)
              else reply c hw not_stopped_msg w)
           else rsp_dispatch c hw (pkt_data w 0) w) }"


subsection \<open>A new client\<close>

text \<open>
  The answers a connection attempt gets: the descriptor of \<open>accept\<close>, whether its error may be ignored
  (\<open>EWOULDBLOCK\<close>, \<open>EAGAIN\<close>), whether the \<open>fcntl\<close> and \<open>setsockopt\<close> calls work, and the two pipes.
\<close>

record accept_answers =
  acc_fd :: int
  acc_ignore :: bool
  acc_getfl :: bool
  acc_setfl :: bool
  acc_nodelay :: bool
  acc_pipe1 :: "(int \<times> int) option"
  acc_pipe2 :: "(int \<times> int) option"

definition client_setup ::
  "'s jtag_cable_t \<Rightarrow> dbg_hw \<Rightarrow> int \<Rightarrow> ('s, 'z) rsp_bridge_scheme \<Rightarrow> ('s, 'z) rsp_bridge_scheme option" where
  "client_setup c hw fd w =
     (let w = set_stall_state True (w\<lparr>client_fd := fd\<rparr>);
          w = w\<lparr>target_running := False, single_step_mode := False\<rparr>
      in do { (_, tmp, w) \<leftarrow> cpu_read c hw SPR_DSR (junk w) w;
              (_, w) \<leftarrow> cpu_write c hw SPR_DSR (tmp OR SPR_DSR_TE OR SPR_DSR_FPE OR SPR_DSR_RE OR SPR_DSR_IIE
                                                OR SPR_DSR_AE OR SPR_DSR_BUSEE) w;
              (_, tmp, w) \<leftarrow> cpu_read c hw SPR_SR tmp w;
              (_, w) \<leftarrow> cpu_write c hw SPR_SR (tmp OR SPR_SR_SM) w;
              Some w })"

definition rsp_server_request ::
  "'s jtag_cable_t \<Rightarrow> dbg_hw \<Rightarrow> accept_answers \<Rightarrow> ('s, 'z) rsp_bridge_scheme \<Rightarrow> ('s, 'z) rsp_bridge_scheme option" where
  "rsp_server_request c hw a w =
     (if acc_fd a < 0 then
        (if acc_ignore a then Some w
         else do { w \<leftarrow> rsp_client_close c hw w; Some (rsp_server_close w) })
      else if client_fd w \<noteq> -1 then Some w
      else if \<not> acc_getfl a \<or> \<not> acc_setfl a \<or> \<not> acc_nodelay a then Some w
      else
        do { (r, fds, w) \<leftarrow> register_with_monitor_thread (acc_pipe1 a) (acc_pipe2 a) (pipe_fds w) w;
             let w = w\<lparr>pipe_fds := fds\<rparr>;
             (if 0 > r then Some (rsp_server_close w)
              else client_setup c hw (acc_fd a) w) })"

subsection \<open>The main loop body\<close>

datatype server_poll = SP_error | SP_intr | SP_timeout | SP_input accept_answers | SP_other

datatype client_poll = CP_error | CP_intr | CP_timeout | CP_client | CP_monitor | CP_other

text \<open>
  The loop that waits for a client; \<open>True\<close> when there is one, \<open>False\<close> when the server socket had to
  be closed. With no more answers, \<open>poll\<close> blocks.
\<close>

fun await_client ::
  "'s jtag_cable_t \<Rightarrow> dbg_hw \<Rightarrow> server_poll list \<Rightarrow> ('s, 'z) rsp_bridge_scheme \<Rightarrow> (bool \<times> ('s, 'z) rsp_bridge_scheme) option" where
  "await_client c hw polls w =
     (if client_fd w \<noteq> -1 then Some (True, w)
      else case polls of
             [] \<Rightarrow> None
           | p # polls \<Rightarrow>
               (case p of
                  SP_intr \<Rightarrow> await_client c hw polls w
                | SP_timeout \<Rightarrow> await_client c hw polls w
                | SP_input a \<Rightarrow>
                    do { w \<leftarrow> rsp_server_request c hw a w;
                         await_client c hw polls (w\<lparr>client_waiting := False\<rparr>) }
                | _ \<Rightarrow> do { w \<leftarrow> rsp_client_close c hw w; Some (False, rsp_server_close w) }))"

declare await_client.simps [simp del]

text \<open>After a trap at a breakpoint the instruction there has yet to be executed: the NPC goes back to it.\<close>

definition adjust_npc ::
  "'s jtag_cable_t \<Rightarrow> dbg_hw \<Rightarrow> u32 \<Rightarrow> ('s, 'z) rsp_bridge_scheme \<Rightarrow> ('s, 'z) rsp_bridge_scheme option" where
  "adjust_npc c hw ppcval w =
     (if sigval w = TARGET_SIGNAL_TRAP then
        (if mp_hash_lookup BP_MEMORY ppcval (mp_table w) \<noteq> None
         then do { (_, w) \<leftarrow> set_npc c hw ppcval w; Some w }
         else do { (_, dmr2val, w) \<leftarrow> cpu_read c hw SPR_DMR2 (junk w) w;
                   (if dmr2val AND SPR_DMR2_WBS \<noteq> 0
                    then do { (_, w) \<leftarrow> set_npc c hw ppcval w; Some w }
                    else Some w) })
      else Some w)"

text \<open>The CPU has halted: the reason is noted, and the client, if it waits for it, is told.\<close>

definition target_halted ::
  "'s jtag_cable_t \<Rightarrow> dbg_hw \<Rightarrow> ('s, 'z) rsp_bridge_scheme \<Rightarrow> ('s, 'z) rsp_bridge_scheme option" where
  "target_halted c hw w =
     do { (_, drrval, w) \<leftarrow> cpu_read c hw SPR_DRR (junk w) (w\<lparr>target_running := False\<rparr>);
          let w = rsp_exception drrval w;
          (if client_waiting w then
             do { (_, ppcval, w) \<leftarrow> cpu_read c hw SPR_PPC (junk w) w;
                  w \<leftarrow> adjust_npc c hw ppcval w;
                  w \<leftarrow> rsp_report_exception c hw w;
                  Some (w\<lparr>client_waiting := False\<rparr>) }
           else Some w) }"

definition monitor_event ::
  "'s jtag_cable_t \<Rightarrow> dbg_hw \<Rightarrow> ('s, 'z) rsp_bridge_scheme \<Rightarrow> ('s, 'z) rsp_bridge_scheme option" where
  "monitor_event c hw w =
     do { (b, w) \<leftarrow> read_pipe (snd (pipe_fds w)) w;
          let monitor_status = (case b of Some ch \<Rightarrow> ch | None \<Rightarrow> ucast (junk w));
          (if monitor_status = ch_H then (if target_running w then target_halted c hw w else Some w)
           else if monitor_status = ch_R then Some (w\<lparr>target_running := True\<rparr>)
           else Some w) }"

definition handle_rsp ::
  "'s jtag_cable_t \<Rightarrow> dbg_hw \<Rightarrow> server_poll list \<Rightarrow> client_poll \<Rightarrow> ('s, 'z) rsp_bridge_scheme \<Rightarrow>
     (int \<times> ('s, 'z) rsp_bridge_scheme) option" where
  "handle_rsp c hw polls p w =
     (if server_fd w = -1 then Some (0, w)
      else
        do { (ok, w) \<leftarrow> await_client c hw polls w;
             (if \<not> ok then Some (0, w)
              else
                (case p of
                   CP_error \<Rightarrow> do { w \<leftarrow> rsp_client_close c hw w; Some (0, rsp_server_close w) }
                 | CP_intr \<Rightarrow> Some (1, w)
                 | CP_timeout \<Rightarrow> Some (1, w)
                 | CP_client \<Rightarrow> do { w \<leftarrow> rsp_client_request c hw w; Some (1, w) }
                 | CP_monitor \<Rightarrow> do { w \<leftarrow> monitor_event c hw w; Some (1, w) }
                 | CP_other \<Rightarrow> do { w \<leftarrow> rsp_client_close c hw w; Some (1, w) })) })"

subsection \<open>Initialisation\<close>

record init_answers =
  ini_proto :: "int option"
  ini_service :: bool
  ini_socket :: int
  ini_reuse :: bool
  ini_getfl :: bool
  ini_setfl :: bool
  ini_hostname :: bool
  ini_hostent :: bool
  ini_bind :: bool
  ini_listen :: bool

definition rsp_init :: "int \<Rightarrow> init_answers \<Rightarrow> ('s, 'z) rsp_bridge_scheme \<Rightarrow> ('s, 'z) rsp_bridge_scheme" where
  "rsp_init portNum a w =
     (let w = w\<lparr>client_waiting := False, proto_num := -1, server_fd := -1, client_fd := -1, sigval := 0,
                start_addr := EXCEPT_RESET, mp_table := mp_hash_init\<rparr> in
      case ini_proto a of
        None \<Rightarrow> w
      | Some p \<Rightarrow>
          (let w = w\<lparr>proto_num := p\<rparr> in
           if portNum = 0 \<and> \<not> ini_service a then w
           else
             (let w = w\<lparr>server_fd := ini_socket a\<rparr> in
              if ini_socket a < 0 then w
              else if \<not> ini_reuse a \<or> \<not> ini_getfl a \<or> \<not> ini_setfl a \<or> \<not> ini_hostname a \<or> \<not> ini_hostent a
                   \<or> \<not> ini_bind a \<or> \<not> ini_listen a
                then rsp_server_close w
              else w)))"

end
