(* ===== verification/Rsp_Invariants.thy ===== *)
theory Rsp_Invariants
  imports Rsp_Dispatch
begin

text \<open>
  What the RSP server keeps: the matchpoint table well-formed, the pool of watchpoints and the table
  consistent with the hardware's eight watchpoints, a signal number that fits its two digits, and the
  mutex of the debug interface free between calls. \<open>quiet\<close> is the frame of everything but the
  matchpoint handlers and the exception bookkeeping.
\<close>

definition quiet :: "('s, 'z) rsp_bridge_scheme \<Rightarrow> ('s, 'z) rsp_bridge_scheme \<Rightarrow> bool" where
  "quiet w w' \<longleftrightarrow> mp_table w' = mp_table w \<and> hwp_in_use w' = hwp_in_use w \<and> sigval w' = sigval w
     \<and> (\<not> dbg_access_mutex (jtag w) \<longrightarrow> \<not> dbg_access_mutex (jtag w'))"

lemma quiet_refl [simp]: "quiet w w"
  by (simp add: quiet_def)

lemma quiet_trans: "quiet w w' \<Longrightarrow> quiet w' w'' \<Longrightarrow> quiet w w''"
  by (simp add: quiet_def)

lemma quiet_upd [simp]:
  "quiet w (w'\<lparr>sent := s\<rparr>) = quiet w w'" "quiet w (w'\<lparr>incoming := as\<rparr>) = quiet w w'"
  "quiet w (w'\<lparr>write_answers := was\<rparr>) = quiet w w'" "quiet w (w'\<lparr>pkt_data := d\<rparr>) = quiet w w'"
  "quiet w (w'\<lparr>pkt_len := n\<rparr>) = quiet w w'" "quiet w (w'\<lparr>client_waiting := b\<rparr>) = quiet w w'"
  "quiet w (w'\<lparr>single_step_mode := b\<rparr>) = quiet w w'" "quiet w (w'\<lparr>target_running := b\<rparr>) = quiet w w'"
  "quiet w (w'\<lparr>cached_npc := a\<rparr>) = quiet w w'" "quiet w (w'\<lparr>use_cached_npc := b\<rparr>) = quiet w w'"
  "quiet w (w'\<lparr>client_fd := fd\<rparr>) = quiet w w'" "quiet w (w'\<lparr>server_fd := fd\<rparr>) = quiet w w'"
  "quiet w (w'\<lparr>pipe_fds := fds\<rparr>) = quiet w w'" "quiet w (w'\<lparr>pipes := ps\<rparr>) = quiet w w'"
  "quiet w (w'\<lparr>connections := cs\<rparr>) = quiet w w'" "quiet w (w'\<lparr>pipes_mutex := b\<rparr>) = quiet w w'"
  "quiet w (w'\<lparr>target_is_running := b\<rparr>) = quiet w w'"
  by (simp_all add: quiet_def)

lemma quiet_jtag: "(\<not> dbg_access_mutex (jtag w') \<longrightarrow> \<not> dbg_access_mutex st) \<Longrightarrow> quiet w w' \<Longrightarrow> quiet w (w'\<lparr>jtag := st\<rparr>)"
  by (auto simp: quiet_def)

lemma sigval_write_pipe [simp]: "sigval (write_pipe fd b w) = sigval w" "sigval (set_stall_state s w) = sigval w"
  by (simp_all add: write_pipe_def set_stall_state_def Let_def)

lemma quiet_pipe [simp]: "quiet w (write_pipe fd b w') = quiet w w'" "quiet w (set_stall_state s w') = quiet w w'"
  by (simp_all add: quiet_def)

text \<open>\<open>quietly w r\<close>: if the computation \<open>r\<close>, begun in \<open>w\<close>, returns, it has been quiet.\<close>

definition quietly :: "('s, 'z) rsp_bridge_scheme \<Rightarrow> ('s, 'z) rsp_bridge_scheme option \<Rightarrow> bool" where
  "quietly w r \<longleftrightarrow> (\<forall>w'. r = Some w' \<longrightarrow> quiet w w')"

definition quietly2 :: "('s, 'z) rsp_bridge_scheme \<Rightarrow> ('v \<times> ('s, 'z) rsp_bridge_scheme) option \<Rightarrow> bool" where
  "quietly2 w r \<longleftrightarrow> (\<forall>v w'. r = Some (v, w') \<longrightarrow> quiet w w')"

definition quietly3 :: "('s, 'z) rsp_bridge_scheme \<Rightarrow> ('e \<times> 'v \<times> ('s, 'z) rsp_bridge_scheme) option \<Rightarrow> bool" where
  "quietly3 w r \<longleftrightarrow> (\<forall>e v w'. r = Some (e, v, w') \<longrightarrow> quiet w w')"

lemma quietlyI: "(\<And>w'. r = Some w' \<Longrightarrow> quiet w w') \<Longrightarrow> quietly w r"
  by (simp add: quietly_def)

lemma quietly_simps [simp]: "quietly w None" "quietly w (Some w') = quiet w w'"
  "quietly2 w None" "quietly2 w (Some (v, w')) = quiet w w'"
  "quietly3 w None" "quietly3 w (Some (e, v, w')) = quiet w w'"
  by (simp_all add: quietly_def quietly2_def quietly3_def)

named_theorems quiet_intros \<open>calls that are quiet\<close>

lemma quietly_bind: "quietly w1 m \<Longrightarrow> quiet w w1 \<Longrightarrow> (\<And>w2. quiet w w2 \<Longrightarrow> quietly w (k w2)) \<Longrightarrow> quietly w (m \<bind> k)"
  by (cases m) (auto simp: quietly_def intro: quiet_trans)

lemma quietly_bind2:
  assumes "quietly2 w1 m" "quiet w w1" "\<And>v w2. quiet w w2 \<Longrightarrow> quietly w (k (v, w2))"
  shows "quietly w (m \<bind> k)"
proof (cases m)
  case (Some r)
  then obtain v w2 where r: "r = (v, w2)" by (cases r) auto
  with assms(1) Some have "quiet w1 w2" by simp
  with assms(2) have "quiet w w2" by (rule quiet_trans)
  with assms(3) r Some show ?thesis by simp
qed simp

lemma quietly_bind3:
  assumes "quietly3 w1 m" "quiet w w1" "\<And>e v w2. quiet w w2 \<Longrightarrow> quietly w (k (e, v, w2))"
  shows "quietly w (m \<bind> k)"
proof (cases m)
  case (Some r)
  then obtain e v w2 where r: "r = (e, v, w2)" by (cases r) auto
  with assms(1) Some have "quiet w1 w2" by simp
  with assms(2) have "quiet w w2" by (rule quiet_trans)
  with assms(3) r Some show ?thesis by simp
qed simp

lemma quietly_trans: "quietly w1 m \<Longrightarrow> quiet w w1 \<Longrightarrow> quietly w m"
  by (auto simp: quietly_def intro: quiet_trans)

lemma quietly_option_bind: "(\<And>v. quietly w (k v)) \<Longrightarrow> quietly w (m \<bind> k)"
  by (cases m) auto

lemma client_close_quiet [quiet_intros]: "quietly w (rsp_client_close c hw w)"
  by (rule quietlyI) (erule client_close_cases, auto simp: quiet_def)

lemma put_rsp_char_quiet [quiet_intros]: "quietly w (put_rsp_char c hw ch w)"
  by (auto simp: put_rsp_char_def Let_def split: prod.splits intro!: quietly_trans [OF client_close_quiet])

lemma put_chars_quiet: "quietly w (put_chars c hw cs w)"
  by (induction cs arbitrary: w) (auto intro!: quietly_bind [OF put_rsp_char_quiet] intro: quietly_trans)

lemma get_rsp_char_quiet: "quietly2 w (get_rsp_char c hw w)"
proof -
  have "quiet w w'" if "rsp_client_close c hw (w\<lparr>incoming := as\<rparr>) = Some w'" for as w'
    using quietly_trans [OF client_close_quiet, of w "w\<lparr>incoming := as\<rparr>" c hw] that by (simp add: quietly_def)
  then show ?thesis
    by (auto simp: get_rsp_char_def quietly2_def Let_def split: Option.bind_splits if_splits)
qed

lemma put_packet_quiet [quiet_intros]: "quietly w (put_packet c hw bs w)"
proof (induction c hw bs w rule: put_packet.induct)
  case (1 c hw bs w)
  show ?case
  proof (cases "put_chars c hw (packet_chars bs) w")
    case None
    then show ?thesis by (subst put_packet.simps) simp
  next
    case (Some w1)
    with put_chars_quiet have q1: "quiet w w1" by (metis quietly_simps(2))
    show ?thesis
    proof (cases "get_rsp_char c hw w1")
      case None
      with Some show ?thesis by (subst put_packet.simps) simp
    next
      case (Some r)
      then obtain ch w2 where r: "r = (ch, w2)" by (cases r) auto
      with get_rsp_char_quiet Some have q2: "quiet w1 w2" by (metis quietly_simps(4))
      have "quietly w (put_packet c hw bs w2)" if "ch \<noteq> -1" "ch \<noteq> 0x2b"
        using "1.IH" [OF \<open>put_chars c hw (packet_chars bs) w = Some w1\<close> Some [unfolded r] refl that]
          quiet_trans [OF q1 q2] by (rule quietly_trans)
      then show ?thesis
        using \<open>put_chars c hw (packet_chars bs) w = Some w1\<close> Some r quiet_trans [OF q1 q2]
        by (subst put_packet.simps) auto
    qed
  qed
qed

lemma reply_quiet [quiet_intros]: "quietly w (put_str_packet c hw s w)" "quietly w (reply c hw t w)"
    "quietly w (reply_status c hw e w)"
  by (simp_all add: put_str_packet_def reply_def reply_status_def Let_def put_packet_quiet)

lemma put_in_buffer_quiet [quiet_intros]: "quietly w (put_in_buffer c hw bs w)"
  by (auto simp: put_in_buffer_def Let_def intro!: quietly_trans [OF put_packet_quiet])

lemma on_jtag_quiet:
  "(\<And>e st. f (jtag w) = Some (e, st) \<Longrightarrow> api_step c hw (jtag w) st) \<Longrightarrow> quietly2 w (on_jtag f w)"
  by (auto simp: quietly2_def on_jtag_eq intro!: quiet_jtag dest!: api_step_free)

lemma on_jtag2_quiet:
  "(\<And>e v st. f (jtag w) = Some (e, v, st) \<Longrightarrow> api_step c hw (jtag w) st) \<Longrightarrow> quietly3 w (on_jtag2 f w)"
  by (auto simp: quietly3_def on_jtag2_eq intro!: quiet_jtag dest!: api_step_free)

lemma cpu_write_quiet: "quietly2 w (cpu_write c hw adr v w)"
  unfolding cpu_write_def by (rule on_jtag_quiet) (erule api_step.intros)

lemma cpu_read_quiet: "quietly3 w (cpu_read c hw adr old w)"
  unfolding cpu_read_def by (rule on_jtag2_quiet) (erule api_step.intros)

lemma block_write_quiet:
  "quietly2 w (on_jtag (dbg_cpu0_write_block c hw adr ws n) w)"
  "quietly2 w (on_jtag (dbg_wb_write_block8 c hw adr bs n) w)"
  by (rule on_jtag_quiet, erule api_step.intros)+

lemma block_read_quiet:
  "quietly3 w (on_jtag2 (dbg_cpu0_read_block c hw adr ws n) w)"
  "quietly3 w (on_jtag2 (dbg_wb_read_block8 c hw adr bs n) w)"
  "quietly3 w (on_jtag2 (dbg_wb_read_block32 c hw adr ws n) w)"
  "quietly3 w (on_jtag2 (dbg_wb_write_block32 c hw adr ws n) w)"
  by (rule on_jtag2_quiet, erule api_step.intros)+

lemma set_npc_quiet: "quietly2 w (set_npc c hw addr w)"
  using cpu_write_quiet [of w c hw SPR_NPC addr]
  by (auto simp: set_npc_def quietly2_def split: Option.bind_splits)

lemma clear_watch_status_quiet: "quietly2 w (clear_watch_status c hw old w)"
proof -
  have "quiet w w''" if "cpu_read c hw SPR_DMR2 old w = Some (e, tmp, w')" "cpu_write c hw SPR_DMR2 tmp w' = Some (e', w'')"
    for e tmp w' e' w''
    using cpu_read_quiet [of w] cpu_write_quiet [of w'] that quiet_trans
    by (metis quietly_simps(4) quietly_simps(6))
  then show ?thesis
    using cpu_read_quiet [of w c hw SPR_DMR2 old]
    by (auto simp: clear_watch_status_def quietly2_def quietly3_def split: Option.bind_splits if_splits)
qed

lemmas quiet_binds =
  quietly_bind2 [OF cpu_write_quiet] quietly_bind3 [OF cpu_read_quiet]
  quietly_bind2 [OF block_write_quiet(1)] quietly_bind2 [OF block_write_quiet(2)]
  quietly_bind3 [OF block_read_quiet(1)] quietly_bind3 [OF block_read_quiet(2)]
  quietly_bind3 [OF block_read_quiet(3)] quietly_bind3 [OF block_read_quiet(4)]
  quietly_bind2 [OF set_npc_quiet] quietly_bind2 [OF clear_watch_status_quiet]
  quietly_bind [OF client_close_quiet] quietly_bind [OF reply_quiet(2)]


subsection \<open>The quiet handlers\<close>

lemma report_exception_quiet [quiet_intros]: "quietly w (rsp_report_exception c hw w)"
  by (simp add: rsp_report_exception_def put_packet_quiet)

lemmas quiet_tails = quietly_trans [OF reply_quiet(2)] quietly_trans [OF reply_quiet(3)]
  quietly_trans [OF put_packet_quiet] quietly_trans [OF put_in_buffer_quiet] quietly_trans [OF report_exception_quiet]

lemmas quiet_values =
  quietly_option_bind [where m = "hex2reg bs" for bs] quietly_option_bind [where m = "reg_at u r" for u r]
  quietly_option_bind [where m = "c_int x" for x] quietly_option_bind [where m = "data_start u" for u]

lemma continue_generic_quiet: "quietly w (rsp_continue_generic c hw ex w)"
  by (auto simp: rsp_continue_generic_def Let_def intro!: quiet_binds)

lemma continue_quiet [quiet_intros]: "quietly w (rsp_continue c hw w)"
  by (auto simp: rsp_continue_def continue_generic_quiet split: option.splits
      intro!: quiet_binds intro: quietly_trans [OF continue_generic_quiet])

lemma step_generic_quiet [quiet_intros]: "quietly w (rsp_step_generic c hw ex w)"
proof -
  have mode: "quietly w1 (if \<not> single_step_mode w1 then
       do { (_, tmp, w) \<leftarrow> cpu_read c hw SPR_DMR1 tmp w1;
            let tmp = tmp OR (SPR_DMR1_ST OR SPR_DMR1_BT);
            (_, w) \<leftarrow> cpu_write c hw SPR_DMR1 tmp w;
            (_, tmp, w) \<leftarrow> cpu_read c hw SPR_DSR tmp w;
            w \<leftarrow> (if tmp AND SPR_DSR_TE = 0
                 then do { (_, w) \<leftarrow> cpu_write c hw SPR_DSR (tmp OR SPR_DSR_TE) w; Some w }
                 else Some w);
            Some (w\<lparr>single_step_mode := True\<rparr>) }
       else Some w1)" for w1 :: "('a, 'b) rsp_bridge_scheme" and tmp
    by (auto simp: Let_def intro!: quiet_binds)
  show ?thesis
    unfolding rsp_step_generic_def Let_def
    by (auto intro!: quiet_binds quietly_bind [OF mode [unfolded Let_def]])
qed

lemma step_quiet [quiet_intros]: "quietly w (rsp_step c hw w)" "quietly w (rsp_step_with_signal c hw w)"
  by (simp_all add: rsp_step_def rsp_step_with_signal_def step_generic_quiet)

lemma restart_quiet [quiet_intros]: "quietly w (rsp_restart c hw w)"
  by (auto simp: rsp_restart_def intro!: quiet_binds)

lemma read_all_regs_quiet [quiet_intros]: "quietly w (rsp_read_all_regs c hw w)"
  by (auto simp: rsp_read_all_regs_def Let_def intro!: quiet_binds quiet_tails)

lemma write_all_regs_quiet [quiet_intros]: "quietly w (rsp_write_all_regs c hw w)"
  by (auto simp: rsp_write_all_regs_def Let_def intro!: quiet_binds quiet_values quiet_tails)

lemma read_reg_quiet [quiet_intros]: "quietly w (rsp_read_reg c hw w)"
  by (auto simp: rsp_read_reg_def send_reg_def split: option.splits intro!: quiet_binds quiet_tails)

lemma write_reg_quiet [quiet_intros]: "quietly w (rsp_write_reg c hw w)"
  by (auto simp: rsp_write_reg_def split: option.splits intro!: quiet_values quiet_binds quiet_tails)

lemma read_mem_quiet [quiet_intros]: "quietly w (rsp_read_mem c hw w)"
  by (auto simp: rsp_read_mem_def Let_def split: option.splits intro!: quiet_values quiet_binds quiet_tails)

lemma write_mem_quiet [quiet_intros]: "quietly w (rsp_write_mem c hw w)"
  by (auto simp: rsp_write_mem_def Let_def split: option.splits intro!: quiet_values quiet_binds quiet_tails)

lemma write_mem_bin_quiet [quiet_intros]: "quietly w (rsp_write_mem_bin c hw w)"
  by (auto simp: rsp_write_mem_bin_def Let_def split: option.splits prod.splits
      intro!: quiet_values quiet_binds quiet_tails)

lemma command_quiet: "quietly w (rsp_command c hw w)"
  by (auto simp: rsp_command_def Let_def reply_quiet split: option.splits intro!: quiet_binds quiet_tails)

lemma query_quiet [quiet_intros]: "quietly w (rsp_query c hw w)"
  by (simp add: rsp_query_def Let_def reply_quiet command_quiet put_in_buffer_quiet)

lemma set_quiet [quiet_intros]: "quietly w (rsp_set c hw w)"
  by (simp add: rsp_set_def Let_def reply_quiet)

lemma vpkt_quiet [quiet_intros]: "quietly w (rsp_vpkt c hw w)"
  by (auto simp: rsp_vpkt_def Let_def reply_quiet intro!: quietly_bind [OF restart_quiet] quiet_tails)


lemma wait_start_quiet: "quietly2 w (wait_start c hw w)"
proof (induction c hw w rule: wait_start.induct)
  case (1 c hw w)
  show ?case
  proof (cases "get_rsp_char c hw w")
    case (Some r)
    obtain ch w1 where r: "r = (ch, w1)" by (cases r) auto
    with get_rsp_char_quiet Some have q: "quiet w w1" by (metis quietly_simps(4))
    have "quietly2 w (wait_start c hw w1)" if "ch \<noteq> 0x24" "ch \<noteq> -1" "ch \<noteq> 0x03"
      using "1.IH" [OF Some [unfolded r] refl that] q quiet_trans unfolding quietly2_def by blast
    with Some r q show ?thesis by (subst wait_start.simps) auto
  qed (subst wait_start.simps, simp)
qed

lemma read_body_quiet: "quietly2 w (read_body c hw count cs w)"
proof (induction c hw count cs w rule: read_body.induct)
  case (1 c hw count cs w)
  show ?case
  proof (cases "count < GDB_BUF_MAX - 1")
    case True
    show ?thesis
    proof (cases "get_rsp_char c hw w")
      case (Some r)
      obtain ch w1 where r: "r = (ch, w1)" by (cases r) auto
      with get_rsp_char_quiet Some have q: "quiet w w1" by (metis quietly_simps(4))
      let ?w2 = "w1\<lparr>pkt_data := (pkt_data w1)(count := word_of_int ch)\<rparr>"
      have "quietly2 w (read_body c hw 0 0 w1)" if "ch \<noteq> -1" "ch = 0x24"
        using "1.IH"(1) [OF refl True Some [unfolded r] refl that] q quiet_trans unfolding quietly2_def by blast
      moreover have "quietly2 w (read_body c hw (count + 1) (cs + word_of_int ch) ?w2)"
        if "ch \<noteq> -1" "ch \<noteq> 0x24" "ch \<noteq> 0x23"
        using "1.IH"(2) [OF refl True Some [unfolded r] refl that] quiet_trans [of w ?w2] q
        unfolding quietly2_def by simp
      ultimately show ?thesis using q by (subst read_body_step [OF True Some [unfolded r]]) auto
    qed (subst read_body.simps, simp add: True)
  qed (subst read_body.simps, simp)
qed

lemma check_frame_quiet: "quietly2 w (check_frame c hw checksum w)"
proof -
  have "quiet w w''" if "get_rsp_char c hw w = Some (ch, w')" "get_rsp_char c hw w' = Some (ch', w'')" for ch w' ch' w''
    using get_rsp_char_quiet that quiet_trans by (metis quietly_simps(4))
  moreover have "quiet w w'" if "put_rsp_char c hw n u = Some w'" "quiet w u" for n u w'
    using put_rsp_char_quiet that quiet_trans by (metis quietly_simps(2))
  ultimately show ?thesis
    using get_rsp_char_quiet [of w c hw]
    by (auto simp: check_frame_def quietly2_def split: Option.bind_splits if_splits)
qed

lemma get_packet_quiet: "quietly2 w (get_packet c hw w)"
proof (induction c hw w rule: get_packet.induct)
  case (1 c hw w)
  have step: "quietly2 u m \<Longrightarrow> quiet w u \<Longrightarrow> quietly2 w m" for u :: "('a, 'b) rsp_bridge_scheme" and m :: "(bool \<times> _) option"
    using quiet_trans unfolding quietly2_def by blast
  show ?case
    unfolding quietly2_def
  proof (intro allI impI)
    fix v w' assume "get_packet c hw w = Some (v, w')"
    then obtain s w1 where s: "wait_start c hw w = Some (s, w1)"
      and rest: "(if s = Start_failed then Some (False, w1) else if s = Interrupted then Some (True, w1)
         else read_body c hw 0 0 w1 \<bind> (\<lambda>(b, w2). case b of
             Body_failed \<Rightarrow> Some (False, w2) | Body_overrun \<Rightarrow> get_packet c hw w2
           | Body_end checksum \<Rightarrow> check_frame c hw checksum w2 \<bind> (\<lambda>(v, w3).
               if v = Verdict_failed then Some (False, w3) else if v = Refused then get_packet c hw w3
               else Some (True, w3)))) = Some (v, w')"
      by (subst (asm) get_packet.simps) (auto split: Option.bind_splits)
    have q1: "quiet w w1" using wait_start_quiet s by (metis quietly_simps(4))
    have q2: "quiet w w2" if "read_body c hw 0 0 w1 = Some (b, w2)" for b w2
      using read_body_quiet that q1 quiet_trans by (metis quietly_simps(4))
    have q3: "quiet w w3" if "read_body c hw 0 0 w1 = Some (b, w2)" "check_frame c hw cs w2 = Some (x, w3)" for b w2 cs x w3
      using check_frame_quiet q2 that quiet_trans by (metis quietly_simps(4))
    from rest q1 q2 q3 show "quiet w w'"
      using step [OF "1.IH"(2) [OF s refl]] step [OF "1.IH"(1) [OF s refl]]
      by (fastforce split: if_splits Option.bind_splits body_result.splits simp: quietly2_def)
  qed
qed


subsection \<open>The invariant\<close>

definition hw_entries_ok :: "mp_hash \<Rightarrow> bool" where
  "hw_entries_ok h \<longleftrightarrow>
     (\<forall>ty a e. ty \<noteq> BP_MEMORY \<longrightarrow> mp_hash_lookup ty a h = Some e \<longrightarrow> unat (mpe_instr e) < HWP_MAX_WP)"

definition rsp_inv :: "('s, 'z) rsp_bridge_scheme \<Rightarrow> bool" where
  "rsp_inv w \<longleftrightarrow> mp_invar (mp_table w) \<and> hw_entries_ok (mp_table w) \<and> length (hwp_in_use w) = HWP_MAX_WP
     \<and> 0 \<le> sigval w \<and> sigval w < 256 \<and> \<not> dbg_access_mutex (jtag w)"

lemma rsp_inv_quiet: "rsp_inv w \<Longrightarrow> quiet w w' \<Longrightarrow> rsp_inv w'"
  by (simp add: rsp_inv_def quiet_def)

definition safe :: "('s, 'z) rsp_bridge_scheme option \<Rightarrow> bool" where
  "safe r \<longleftrightarrow> (\<forall>w'. r = Some w' \<longrightarrow> rsp_inv w')"

lemma safe_simps [simp]: "safe None" "safe (Some w) = rsp_inv w"
  by (simp_all add: safe_def)

lemma safe_tail: "quietly w r \<Longrightarrow> rsp_inv w \<Longrightarrow> safe r"
  by (auto simp: safe_def quietly_def intro: rsp_inv_quiet)

lemma safe_bind: "quietly w m \<Longrightarrow> rsp_inv w \<Longrightarrow> (\<And>w2. rsp_inv w2 \<Longrightarrow> safe (k w2)) \<Longrightarrow> safe (m \<bind> k)"
  by (cases m) (auto intro: rsp_inv_quiet)

lemma safe_bind2: "quietly2 w m \<Longrightarrow> rsp_inv w \<Longrightarrow> (\<And>v w2. rsp_inv w2 \<Longrightarrow> safe (k (v, w2))) \<Longrightarrow> safe (m \<bind> k)"
  by (cases m) (auto, blast intro: rsp_inv_quiet)

lemma safe_bind3:
  "quietly3 w m \<Longrightarrow> rsp_inv w \<Longrightarrow> (\<And>e v w2. rsp_inv w2 \<Longrightarrow> safe (k (e, v, w2))) \<Longrightarrow> safe (m \<bind> k)"
  by (cases m) (auto, blast intro: rsp_inv_quiet)

lemma safe_first: "safe m \<Longrightarrow> (\<And>w2. rsp_inv w2 \<Longrightarrow> safe (k w2)) \<Longrightarrow> safe (m \<bind> k)"
  by (cases m) auto

lemmas safe_binds = safe_bind2 [OF cpu_write_quiet] safe_bind3 [OF cpu_read_quiet]
  safe_bind3 [OF block_read_quiet(3)] safe_bind3 [OF block_read_quiet(4)] safe_bind [OF client_close_quiet]
  safe_bind2 [OF set_npc_quiet] safe_bind [OF reply_quiet(2)] safe_bind [OF report_exception_quiet]

lemma rsp_inv_upd [simp]:
  "rsp_inv (w\<lparr>sent := s\<rparr>) = rsp_inv w" "rsp_inv (w\<lparr>pkt_data := d\<rparr>) = rsp_inv w"
  "rsp_inv (w\<lparr>client_waiting := b\<rparr>) = rsp_inv w" "rsp_inv (w\<lparr>single_step_mode := b\<rparr>) = rsp_inv w"
  "rsp_inv (w\<lparr>target_running := b\<rparr>) = rsp_inv w" "rsp_inv (w\<lparr>client_fd := fd\<rparr>) = rsp_inv w"
  "rsp_inv (w\<lparr>server_fd := fd\<rparr>) = rsp_inv w" "rsp_inv (w\<lparr>pipe_fds := fds\<rparr>) = rsp_inv w"
  "rsp_inv (w\<lparr>pipes := ps\<rparr>) = rsp_inv w" "rsp_inv (set_stall_state st w) = rsp_inv w"
  "rsp_inv (w\<lparr>connections := cs\<rparr>) = rsp_inv w" "rsp_inv (w\<lparr>pipes_mutex := b\<rparr>) = rsp_inv w"
  "rsp_inv (w\<lparr>target_is_running := b\<rparr>) = rsp_inv w"
  by (simp_all add: rsp_inv_def)

lemma rsp_inv_table:
  assumes "rsp_inv w"
  shows "rsp_inv (w\<lparr>mp_table := snd (mp_hash_delete ty a (mp_table w))\<rparr>)"
    and "ty = BP_MEMORY \<or> unat i < HWP_MAX_WP \<Longrightarrow> rsp_inv (w\<lparr>mp_table := mp_hash_add ty a i (mp_table w)\<rparr>)"
  using assms by (auto simp: rsp_inv_def hw_entries_ok_def mp.table_laws split: if_splits)

lemma remove_memory_breakpoint_safe: "rsp_inv w \<Longrightarrow> safe (remove_memory_breakpoint c hw addr w)"
  using rsp_inv_table(1) [of w BP_MEMORY addr]
  by (auto simp: remove_memory_breakpoint_def Let_def split: prod.splits option.splits
      intro!: safe_binds safe_tail [OF reply_quiet(2)])

lemma hwp_return_length: "hwp_return_watchpoint n use = Some use' \<Longrightarrow> length use' = length use"
  by (auto simp: hwp_return_watchpoint_def split: if_splits)

lemma remove_watchpoint_safe:
  assumes "rsp_inv w"
  shows "safe (remove_watchpoint c hw ty addr w)"
proof -
  have ret: "safe (hwp_return_watchpoint n (hwp_in_use u) \<bind> (\<lambda>use. reply c hw ''OK'' (u\<lparr>hwp_in_use := use\<rparr>)))"
    if "rsp_inv u" for n and u :: "('a, 'b) rsp_bridge_scheme"
  proof (cases "hwp_return_watchpoint n (hwp_in_use u)")
    case (Some use)
    with that have "rsp_inv (u\<lparr>hwp_in_use := use\<rparr>)" by (auto simp: rsp_inv_def dest: hwp_return_length)
    with Some show ?thesis by (simp add: safe_tail [OF reply_quiet(2)])
  qed simp
  show ?thesis
    using rsp_inv_table(1) [OF assms, of ty addr]
    by (auto simp: remove_watchpoint_def Let_def split: prod.splits option.splits
        intro!: safe_binds ret safe_tail [OF reply_quiet(2)])
qed

lemma insert_memory_breakpoint_safe: "rsp_inv w \<Longrightarrow> safe (insert_memory_breakpoint c hw addr w)"
  by (auto simp: insert_memory_breakpoint_def Let_def intro!: safe_binds rsp_inv_table safe_tail [OF reply_quiet(2)])

lemma hwp_get_range:
  assumes "hwp_get_available_watchpoint use = (r, use')" "length use = HWP_MAX_WP"
  shows "length use' = HWP_MAX_WP \<and> (r \<noteq> -1 \<longrightarrow> 0 \<le> r \<and> r < int HWP_MAX_WP)"
proof (cases "hwp_free use = {}")
  case True
  with hwp.get_none [OF assms(2)] assms show ?thesis by simp
next
  case False
  with hwp.get_some [OF assms(2) _ assms(1)] have "r = int (Min (hwp_free use))" "length use' = HWP_MAX_WP" by auto
  moreover have "Min (hwp_free use) \<in> hwp_free use"
    using False hwp.finite_free [OF assms(2)] by simp
  ultimately show ?thesis by (simp add: hwp_free_def)
qed

lemma insert_watchpoint_safe:
  assumes "rsp_inv w"
  shows "safe (insert_watchpoint c hw ty dcr addr w)"
proof -
  obtain r use where get: "hwp_get_available_watchpoint (hwp_in_use w) = (r, use)" by (cases "hwp_get_available_watchpoint (hwp_in_use w)")
  with assms have range: "length use = HWP_MAX_WP" "r \<noteq> -1 \<Longrightarrow> 0 \<le> r \<and> r < int HWP_MAX_WP"
    using hwp_get_range by (auto simp: rsp_inv_def)
  then have inv: "rsp_inv (w\<lparr>hwp_in_use := use\<rparr>)" using assms by (simp add: rsp_inv_def)
  have "unat (of_int r :: u32) < HWP_MAX_WP" if "r \<noteq> -1"
    using range(2) [OF that] by (auto simp: HWP_MAX_WP_def unat_eq_nat_uint unsigned_of_int take_bit_int_eq_self)
  then have "rsp_inv (w\<lparr>hwp_in_use := use, mp_table := mp_hash_add ty addr (of_int r) (mp_table w)\<rparr>)" if "r \<noteq> -1"
    using rsp_inv_table(2) [OF inv, of ty "of_int r" addr] that by simp
  then show ?thesis
    using inv unfolding insert_watchpoint_def Let_def get
    by (auto intro!: safe_binds safe_tail [OF reply_quiet(2)])
qed

lemma dispatch_safe: "rsp_inv w \<Longrightarrow> safe (rsp_dispatch c hw ch w)"
proof -
  assume inv: "rsp_inv w"
  have "safe (rsp_remove_matchpoint c hw w)" "safe (rsp_insert_matchpoint c hw w)"
    using inv by (auto simp: rsp_remove_matchpoint_def rsp_insert_matchpoint_def
        remove_memory_breakpoint_safe remove_watchpoint_safe insert_memory_breakpoint_safe insert_watchpoint_safe
        split: option.splits mp_type.splits intro!: safe_tail [OF reply_quiet(2)])
  moreover have "safe (run_calls (detach_calls c hw) w)"
    using inv by (auto simp: detach_calls_def intro!: safe_binds)
  moreover have "safe (rsp_continue_with_signal w)" using inv by (simp add: rsp_continue_with_signal_def)
  ultimately show ?thesis
    unfolding rsp_dispatch_def using inv by (simp add: quiet_intros [THEN safe_tail])
qed

lemma client_request_safe: "rsp_inv w \<Longrightarrow> safe (rsp_client_request c hw w)"
  unfolding rsp_client_request_def
  by (rule safe_bind2 [OF get_packet_quiet])
    (auto intro: safe_tail [OF client_close_quiet] safe_tail [OF reply_quiet(2)] dispatch_safe)


lemma client_setup_safe: "rsp_inv w \<Longrightarrow> safe (client_setup c hw fd w)"
  by (auto simp: client_setup_def Let_def intro!: safe_binds)

lemma server_close_inv [simp]: "rsp_inv (rsp_server_close w) = rsp_inv w"
  by (simp add: rsp_server_close_def)

lemma register_inv:
  "register_with_monitor_thread p1 p2 fds w = Some (r, fds', w') \<Longrightarrow> rsp_inv w' = rsp_inv w"
  by (auto simp: register_with_monitor_thread_def lock_pipes_def unlock_pipes_def open_pipe_def Let_def
      split: if_splits option.splits Option.bind_splits)

lemma server_request_safe: "rsp_inv w \<Longrightarrow> safe (rsp_server_request c hw a w)"
proof -
  assume inv: "rsp_inv w"
  have "safe (register_with_monitor_thread p1 p2 fds w \<bind> (\<lambda>(r, fds, w). let w = w\<lparr>pipe_fds := fds\<rparr> in
      if 0 > r then Some (rsp_server_close w) else client_setup c hw (acc_fd a) w))" for p1 p2 fds
    using inv by (cases "register_with_monitor_thread p1 p2 fds w")
      (auto simp: Let_def dest!: register_inv intro!: client_setup_safe)
  then show ?thesis
    unfolding rsp_server_request_def using inv by (auto intro!: safe_binds)
qed

lemma await_client_safe:
  "await_client c hw polls w = Some (ok, w') \<Longrightarrow> rsp_inv w \<Longrightarrow> rsp_inv w'"
proof (induction polls arbitrary: w)
  case Nil
  then show ?case by (subst (asm) await_client.simps) (auto split: if_splits)
next
  case (Cons p polls)
  show ?case
  proof (cases "client_fd w \<noteq> -1")
    case True
    with Cons.prems show ?thesis by (subst (asm) await_client.simps) simp
  next
    case False
    have closed: "rsp_inv u" if "rsp_client_close c hw w = Some u" for u
      using safe_tail [OF client_close_quiet Cons.prems(2)] that by (simp add: safe_def)
    have req: "rsp_inv u" if "rsp_server_request c hw a w = Some u" for a u
      using server_request_safe [OF Cons.prems(2)] that unfolding safe_def by blast
    from Cons.prems False show ?thesis
      by (subst (asm) await_client.simps)
        (cases p, auto split: Option.bind_splits dest!: closed req intro: Cons.IH)
  qed
qed

lemma sig_range: "signal_of ex = Some sv \<Longrightarrow> 0 \<le> sv \<and> sv < 256"
  by (auto simp: signal_of_def TARGET_SIGNAL_PWR_def TARGET_SIGNAL_BUS_def TARGET_SIGNAL_SEGV_def
      TARGET_SIGNAL_ALRM_def TARGET_SIGNAL_ILL_def TARGET_SIGNAL_INT_def TARGET_SIGNAL_FPE_def
      TARGET_SIGNAL_USR2_def TARGET_SIGNAL_TRAP_def split: if_splits)

lemma rsp_exception_inv: "rsp_inv w \<Longrightarrow> rsp_inv (rsp_exception ex w)"
  by (auto simp: rsp_exception_def rsp_inv_def split: option.splits dest: sig_range)

lemma adjust_npc_safe: "rsp_inv w \<Longrightarrow> safe (adjust_npc c hw ppc w)"
  by (auto simp: adjust_npc_def intro!: safe_binds)

lemma target_halted_safe: "rsp_inv w \<Longrightarrow> safe (target_halted c hw w)"
  unfolding target_halted_def Let_def
  by (auto intro!: safe_binds safe_first [OF adjust_npc_safe] rsp_exception_inv)

lemma monitor_event_safe: "rsp_inv w \<Longrightarrow> safe (monitor_event c hw w)"
proof -
  assume inv: "rsp_inv w"
  have "rsp_inv w'" if "read_pipe fd w = Some (b, w')" for fd b w'
    using inv that by (auto simp: read_pipe_def split: option.splits)
  then show ?thesis
    unfolding monitor_event_def Let_def
    by (cases "read_pipe (snd (pipe_fds w)) w") (auto simp: target_halted_safe)
qed

lemma handle_rsp_inv:
  assumes "handle_rsp c hw polls p w = Some (r, w')" "rsp_inv w"
  shows "rsp_inv w'"
proof (cases "server_fd w = -1")
  case True
  with assms show ?thesis by (simp add: handle_rsp_def)
next
  case False
  with assms obtain ok w1 where a: "await_client c hw polls w = Some (ok, w1)"
    by (auto simp: handle_rsp_def split: Option.bind_splits)
  from await_client_safe [OF a assms(2)] have inv: "rsp_inv w1" .
  have "safe (rsp_client_close c hw w1)" using safe_tail [OF client_close_quiet inv] .
  with assms(1) False a inv client_request_safe [OF inv, of c hw] monitor_event_safe [OF inv, of c hw]
  show ?thesis
    by (cases p) (auto simp: handle_rsp_def safe_def split: Option.bind_splits if_splits)
qed

text \<open>
  The two threads, interleaved between calls: the RSP thread calls \<open>handle_rsp\<close>, the monitor thread
  makes a pass of its loop, another server leaves or registers.
\<close>

inductive bridge_step :: "'s jtag_cable_t \<Rightarrow> dbg_hw \<Rightarrow> 's rsp_bridge \<Rightarrow> 's rsp_bridge \<Rightarrow> bool" for c hw where
  bs_rsp: "handle_rsp c hw polls p w = Some (r, w') \<Longrightarrow> bridge_step c hw w w'"
| bs_monitor: "target_handler_pass c hw sel b w = Some w' \<Longrightarrow> bridge_step c hw w w'"
| bs_register: "register_with_monitor_thread p1 p2 fds w = Some (r, fds', w') \<Longrightarrow> bridge_step c hw w w'"
| bs_unregister: "unregister_with_monitor_thread fds w = Some (fds', w') \<Longrightarrow> bridge_step c hw w w'"

lemma write_pipe_inv [simp]: "rsp_inv (write_pipe fd b w) = rsp_inv w"
  by (simp add: write_pipe_def)

lemma notify_inv [simp]: "rsp_inv (notify_listeners b w) = rsp_inv w"
proof -
  have "rsp_inv (fold (\<lambda>conn. write_pipe (m2s_wr conn) b) conns w) = rsp_inv w" for conns
    by (induction conns arbitrary: w) simp_all
  then show ?thesis by (simp add: notify_listeners_def)
qed

lemma stall_cpu_safe: "rsp_inv w \<Longrightarrow> safe (stall_cpu c hw s w)"
  unfolding stall_cpu_def Let_def
  by (rule safe_bind2 [OF on_jtag_quiet]) (auto intro: api_cpu0_write_ctrl)

lemma monitor_command_safe: "rsp_inv w \<Longrightarrow> safe (monitor_command c hw cmd w)"
  by (auto simp: monitor_command_def intro!: safe_first [OF stall_cpu_safe])

lemma serve_connections_safe: "rsp_inv w \<Longrightarrow> safe (serve_connections c hw ready conns w)"
proof (induction conns arbitrary: w)
  case (Cons conn conns)
  have rd: "rsp_inv w'" if "read_pipe fd w = Some (b, w')" for fd b w'
    using Cons.prems that by (auto simp: read_pipe_def split: option.splits)
  show ?case
  proof (cases "read_pipe (s2m_rd conn) w")
    case (Some r)
    obtain b w1 where r: "r = (b, w1)" by (cases r)
    with rd Some have "rsp_inv w1" by blast
    then have "safe (case b of Some cmd \<Rightarrow> monitor_command c hw cmd w1 | None \<Rightarrow> Some w1)"
      by (auto simp: monitor_command_safe split: option.splits)
    then have "safe ((case b of Some cmd \<Rightarrow> monitor_command c hw cmd w1 | None \<Rightarrow> Some w1)
        \<bind> serve_connections c hw ready conns)"
      using Cons.IH by (rule safe_first)
    with Some r Cons show ?thesis by simp
  qed (use Cons in simp)
qed simp

lemma ctrl_read_quiet: "quietly3 w (on_jtag2 (dbg_cpu0_read_ctrl c hw adr b) w)"
  by (rule on_jtag2_quiet) (erule api_step.intros)

lemma poll_target_safe: "rsp_inv w \<Longrightarrow> safe (poll_target c hw b w)"
  unfolding poll_target_def by (auto simp: lock_pipes_def unlock_pipes_def intro!: safe_bind3 [OF ctrl_read_quiet])

lemma target_handler_pass_safe: "rsp_inv w \<Longrightarrow> safe (target_handler_pass c hw sel b w)"
  by (cases sel) (auto simp: target_handler_pass_def lock_pipes_def unlock_pipes_def
      intro!: poll_target_safe safe_first [OF serve_connections_safe])

lemma bridge_step_inv: "bridge_step c hw w w' \<Longrightarrow> rsp_inv w \<Longrightarrow> rsp_inv w'"
proof (induction rule: bridge_step.induct)
  case (bs_rsp polls p w r w')
  then show ?case using handle_rsp_inv by blast
next
  case (bs_monitor sel b w w')
  then show ?case using target_handler_pass_safe unfolding safe_def by blast
next
  case (bs_register p1 p2 fds w r fds' w')
  then show ?case by (simp add: register_inv)
next
  case (bs_unregister fds w fds' w')
  then show ?case by (auto elim!: unregister_cases)
qed

text \<open>
  The RSP server and the monitor thread together. From a state in which the matchpoint table and
  the pool are well-formed, no sequence of calls of \<open>handle_rsp\<close> (whatever GDB sends, whatever the
  network answers, whether the connection breaks in the middle of a packet), passes of the monitor
  and registrations breaks this: the entries of the table hang in the right chains without
  duplicates, every hardware matchpoint names one of the eight watchpoints, the signal fits two
  hexadecimal digits, and the mutex of the debug interface is free.
\<close>

theorem rsp_invariant:
  assumes "(bridge_step c hw)\<^sup>*\<^sup>* w w'" "rsp_inv w"
  shows "mp_invar (mp_table w')
     \<and> (\<forall>ty a e. ty \<noteq> BP_MEMORY \<longrightarrow> mp_hash_lookup ty a (mp_table w') = Some e \<longrightarrow> unat (mpe_instr e) < HWP_MAX_WP)
     \<and> length (hwp_in_use w') = HWP_MAX_WP \<and> 0 \<le> sigval w' \<and> sigval w' < 256 \<and> \<not> dbg_access_mutex (jtag w')"
proof -
  from assms have "rsp_inv w'"
    by (induction rule: rtranclp_induct) (auto intro: bridge_step_inv)
  then show ?thesis by (simp add: rsp_inv_def hw_entries_ok_def)
qed

lemma rsp_on_inv: "rsp_inv (rsp_on idle_dev as)"
  by (simp add: rsp_inv_def mp.table_laws hw_entries_ok_def board_simps)

theorem rsp_invariant_witness:
  "\<exists>w'. (bridge_step xess DBG_HW_ADVANCED)\<^sup>*\<^sup>*
      (rsp_on idle_dev (map Rd_char (packet_chars (str ''H'')) @ [Rd_char 0x2b])) w'
     \<and> sent w' = 0x2b # packet_chars (str ''OK'') \<and> mp_invar (mp_table w') \<and> \<not> dbg_access_mutex (jtag w')"
proof -
  let ?w = "rsp_on idle_dev (map Rd_char (packet_chars (str ''H'')) @ [Rd_char 0x2b])"
  let ?w1 = "take_frame (packet_body (str ''H'')) [Rd_char 0x2b] (?w\<lparr>sent := [0x2b]\<rparr>)"
  have body: "packet_body (str ''H'') = [0x48]" by code_simp
  have get: "get_packet xess DBG_HW_ADVANCED ?w = Some (True, ?w1)"
    using get_packet_accepts [of ?w "[]" "str ''H''" "[Rd_char 0x2b]"] by (simp add: body GDB_BUF_MAX_def)
  have run: "\<not> target_running ?w1" "pkt_data ?w1 0 = 0x48"
    by (simp_all add: take_frame_def body store_at_def)
  let ?w2 = "?w1\<lparr>sent := 0x2b # packet_chars (str ''OK''), incoming := []\<rparr>"
  have rep: "reply xess DBG_HW_ADVANCED ''OK'' ?w1 = Some ?w2"
    using put_packet_up [of ?w1 "[]" "[]" xess DBG_HW_ADVANCED "str ''OK''"]
    by (simp add: reply_def put_str_packet_def GDB_BUF_MAX_def)
  have "rsp_client_request xess DBG_HW_ADVANCED ?w = Some ?w2"
    using get run rep by (simp add: rsp_client_request_def rsp_dispatch_def)
  moreover have "server_fd ?w = 3" by (simp add: rsp_on_def bridge.defs rsp_bridge.defs)
  ultimately have "handle_rsp xess DBG_HW_ADVANCED [] CP_client ?w = Some (1, ?w2)"
    by (simp add: handle_rsp_def await_client.simps)
  then have steps: "(bridge_step xess DBG_HW_ADVANCED)\<^sup>*\<^sup>* ?w ?w2"
    by (intro r_into_rtranclp) (rule bs_rsp)
  from rsp_invariant [OF this rsp_on_inv] steps show ?thesis by auto
qed

end
