(* ===== verification/Rsp_Requests.thy ===== *)
theory Rsp_Requests
  imports Rsp_Invariants
begin

unbundle bit_operations_syntax

text \<open>
  What single requests of GDB do: the memory writes reach the debug interface with exactly the bytes
  GDB sent, a running target is protected, a break reaches the CPU, breakpoints can be set twice and
  removed, and where the handlers do not do what they mean to.
\<close>

subsection \<open>Requests in the buffer\<close>

text \<open>\<open>holds w bs\<close>: the buffer has the packet \<open>bs\<close> as \<open>get_packet\<close> leaves it.\<close>

definition holds :: "('s, 'z) rsp_bridge_scheme \<Rightarrow> u8 list \<Rightarrow> bool" where
  "holds w bs \<longleftrightarrow> pkt_len w = length bs \<and> length bs < GDB_BUF_MAX
     \<and> slice_at (pkt_data w) 0 (length bs) = bs \<and> pkt_data w (length bs) = 0"

lemma holds_nth: "holds w bs \<Longrightarrow> i < length bs \<Longrightarrow> pkt_data w i = bs ! i"
  unfolding holds_def by (metis add_0 nth_slice_at)

lemma take_frame_holds: "length bs < GDB_BUF_MAX \<Longrightarrow> holds (take_frame bs as w) bs"
  by (auto simp: holds_def store_at_def intro: slice_at_eqI)

text \<open>The request as a string: everything up to the first zero byte.\<close>

lemma c_string_at_from:
  "holds w bs \<Longrightarrow> i \<le> length bs \<Longrightarrow> c_string_at (pkt_data w) i = c_string (drop i bs)"
proof (induction "length bs - i" arbitrary: i)
  case 0
  then show ?case by (subst c_string_at.simps) (simp add: holds_def c_string_def)
next
  case (Suc n)
  then have i: "i < length bs" "i < GDB_BUF_MAX" by (auto simp: holds_def)
  then have "drop i bs = bs ! i # drop (Suc i) bs" by (simp add: Cons_nth_drop_Suc)
  moreover have "c_string_at (pkt_data w) (Suc i) = c_string (drop (Suc i) bs)"
    using Suc.hyps Suc.prems i by (intro Suc.hyps(1)) auto
  ultimately show ?case
    using i holds_nth [OF Suc.prems(1) i(1)] by (subst c_string_at.simps) (simp add: c_string_def)
qed

lemma request_string: "holds w bs \<Longrightarrow> request w = c_string bs"
  using c_string_at_from [of w bs 0] by (simp add: request_def)

lemma c_string_append: "0 \<notin> set xs \<Longrightarrow> c_string (xs @ ys) = xs @ c_string ys"
  unfolding c_string_def by (rule takeWhile_append2) auto

lemma c_string_id: "0 \<notin> set xs \<Longrightarrow> c_string xs = xs"
  using c_string_append [of xs "[]"] by (simp add: c_string_def)

text \<open>The head of a memory request: letter, address, comma, length, colon.\<close>

definition mem_head :: "char \<Rightarrow> u8 list \<Rightarrow> u8 list \<Rightarrow> u8 list" where
  "mem_head ch da dl = [chr ch] @ da @ [0x2c] @ dl @ [0x3a]"

lemma mem_head_nonzero:
  assumes "hexnum da addr" "hexnum dl len" "chr ch \<noteq> 0" "chr ch \<noteq> (0x3a :: u8)"
  shows "0 \<notin> set (mem_head ch da dl)" "0x3a \<notin> set (chr ch # da @ 0x2c # dl)"
  using assms hexnum_chars by (fastforce simp: mem_head_def)+

lemma scan_mem_head:
  assumes "hexnum da addr" "hexnum dl len"
  shows "scan_addr_len (chr ch) (mem_head ch da dl @ rest) = Some (addr, sint len)"
proof -
  have comma: "\<not> ishex 0x2c" and colon: "\<not> ishex 0x3a" by code_simp+
  have "scan_hex (da @ 0x2c # dl @ 0x3a # rest) = Some (addr, 0x2c # dl @ 0x3a # rest)"
    using scan_hexnum [OF assms(1), of "0x2c # dl @ 0x3a # rest"] comma by simp
  moreover have "scan_hex (dl @ 0x3a # rest) = Some (len, 0x3a # rest)"
    using scan_hexnum [OF assms(2), of "0x3a # rest"] colon by simp
  ultimately show ?thesis by (simp add: scan_addr_len_def mem_head_def)
qed

lemma colon_at_skip:
  "(\<And>j. i \<le> j \<Longrightarrow> j < k \<Longrightarrow> d j \<noteq> 0x3a) \<Longrightarrow> d k = 0x3a \<Longrightarrow> i \<le> k \<Longrightarrow> k < GDB_BUF_MAX \<Longrightarrow> colon_at d i = Some k"
proof (induction "k - i" arbitrary: i)
  case 0
  then show ?case by (subst colon_at.simps) simp
next
  case (Suc n)
  then have "d i \<noteq> 0x3a" "i < GDB_BUF_MAX" by simp_all
  moreover have "colon_at d (Suc i) = Some k"
    using Suc.prems Suc.hyps(2) by (intro Suc.hyps(1)) auto
  ultimately show ?case by (subst colon_at.simps) simp
qed

lemma data_start_head:
  assumes "holds w (mem_head ch da dl @ rest)" "0x3a \<notin> set (chr ch # da @ 0x2c # dl)"
  shows "data_start w = Some (length (mem_head ch da dl))"
proof -
  let ?bs = "mem_head ch da dl @ rest"
  define pre where "pre = chr ch # da @ 0x2c # dl"
  let ?k = "length pre"
  have bs: "?bs = pre @ 0x3a # rest" by (simp add: mem_head_def pre_def)
  have len: "?k < length ?bs" by (simp add: bs)
  have "pkt_data w j \<noteq> 0x3a" if "j < ?k" for j
  proof -
    have "pkt_data w j = pre ! j"
      using holds_nth [OF assms(1), of j] that len by (simp add: bs nth_append)
    then show ?thesis using assms(2) that nth_mem [of j pre] by (auto simp: pre_def)
  qed
  moreover have "pkt_data w ?k = 0x3a"
    using holds_nth [OF assms(1) len] by (simp add: bs)
  moreover have "?k < GDB_BUF_MAX" using assms(1) len by (simp add: holds_def)
  ultimately have "colon_at (pkt_data w) 0 = Some ?k" by (intro colon_at_skip) auto
  then show ?thesis by (simp add: data_start_def mem_head_def pre_def)
qed


subsection \<open>Writing memory\<close>

lemma hex_byte_pair: "hex_byte (hexchar (drop_bit 4 b)) (hexchar b) = b"
  using hex_pair [of b] by (simp add: hex_byte_def)

lemma length_ascii2hex [simp]: "length (ascii2hex bs) = 2 * length bs"
  by (induction bs) (simp_all add: ascii2hex_def)

lemma nth_ascii2hex:
  "i < length bs \<Longrightarrow> ascii2hex bs ! (2 * i) = hexchar (drop_bit 4 (bs ! i)) \<and> ascii2hex bs ! (2 * i + 1) = hexchar (bs ! i)"
proof (induction bs arbitrary: i)
  case (Cons b bs)
  then show ?case by (cases i) (simp_all add: ascii2hex_def)
qed simp

lemma sint_small: "n < 2 ^ 31 \<Longrightarrow> sint (of_nat n :: u32) = int n"
  by (simp add: signed_of_nat signed_take_bit_int_eq_self)

lemma packet_lt: "holds w bs \<Longrightarrow> length bs < 2 ^ 14"
  by (simp add: holds_def GDB_BUF_MAX_def)

text \<open>
  Memory written by GDB, as hexadecimal digits. A packet \<open>M<addr>,<length>:<digits>\<close> whose digits
  are those of the bytes \<open>bs\<close> and whose length is theirs makes one call of \<open>dbg_wb_write_block8\<close>, with
  that address, exactly these bytes and that length, and answers \<open>OK\<close> or \<open>E01\<close> by its error code.
\<close>

theorem rsp_write_mem_bytes:
  assumes "holds w (mem_head CHR ''M'' da dl @ ascii2hex bs)" "hexnum da addr" "hexnum dl (of_nat (length bs))"
  shows "rsp_write_mem c hw w =
     do { (e, w) \<leftarrow> on_jtag (dbg_wb_write_block8 c hw addr bs (int (length bs))) w;
          if e = APP_ERR_NONE then put_str_packet c hw (str ''OK'') w else put_str_packet c hw (str ''E01'') w }"
proof -
  let ?h = "length (mem_head CHR ''M'' da dl)"
  have head: "0 \<notin> set (mem_head CHR ''M'' da dl)" "0x3a \<notin> set (chr CHR ''M'' # da @ 0x2c # dl)"
    using mem_head_nonzero [OF assms(2,3), of "CHR ''M''"] by simp_all
  have small: "length bs < 2 ^ 30" using packet_lt [OF assms(1)] by simp
  have scan: "scan_addr_len (chr CHR ''M'') (request w) = Some (addr, int (length bs))"
    using scan_mem_head [OF assms(2,3), of "CHR ''M''" "c_string (ascii2hex bs)"] small
    by (simp add: request_string [OF assms(1)] c_string_append [OF head(1)] sint_small)
  have start: "data_start w = Some ?h" by (rule data_start_head [OF assms(1) head(2)])
  have len: "int (pkt_len w) - int ?h = int (length bs) * 2" using assms(1) by (simp add: holds_def)
  have digit: "pkt_data w (?h + k) = ascii2hex bs ! k" if "k < 2 * length bs" for k
    using holds_nth [OF assms(1), of "?h + k"] that by (simp add: nth_append)
  have "hex_byte (pkt_data w (?h + off * 2)) (pkt_data w (?h + off * 2 + 1)) = bs ! off" if "off < length bs" for off
    using digit [of "2 * off"] digit [of "2 * off + 1"] nth_ascii2hex [OF that] that
    by (simp add: mult.commute hex_byte_pair add.assoc)
  then have data: "map (\<lambda>off. hex_byte (pkt_data w (?h + off * 2)) (pkt_data w (?h + off * 2 + 1))) [0..<length bs] = bs"
    by (intro nth_equalityI) auto
  have int: "c_int (int (length bs) * 2) = Some (int (length bs) * 2)" using small by (simp add: c_int_def)
  show ?thesis
    unfolding rsp_write_mem_def scan option.case prod.case start Let_def Option.bind.bind_lunit len int
    by (simp only: nat_int data reply_status_def [abs_def] reply_def) simp
qed


definition with_packet :: "u8 list \<Rightarrow> wires parport rsp_bridge" where
  "with_packet bs = take_frame bs [] (rsp_on idle_dev [])"

lemma with_packet_holds: "length bs < GDB_BUF_MAX \<Longrightarrow> holds (with_packet bs) bs"
  unfolding with_packet_def by (rule take_frame_holds)

theorem rsp_write_mem_bytes_witness:
  "rsp_write_mem xess DBG_HW_ADVANCED (with_packet (str ''M100,2:dead'')) =
     do { (e, w) \<leftarrow> on_jtag (dbg_wb_write_block8 xess DBG_HW_ADVANCED 0x100 [0xde, 0xad] 2) (with_packet (str ''M100,2:dead''));
          if e = APP_ERR_NONE then put_str_packet xess DBG_HW_ADVANCED (str ''OK'') w
          else put_str_packet xess DBG_HW_ADVANCED (str ''E01'') w }"
proof -
  have num: "hexnum (str ''100'') 0x100" "hexnum (str ''2'') (of_nat (length [0xde, 0xad :: u8]))"
    by (simp_all only: hexnum_def) code_simp+
  have pkt: "mem_head CHR ''M'' (str ''100'') (str ''2'') @ ascii2hex [0xde, 0xad] = str ''M100,2:dead''" by code_simp
  have "holds (with_packet (str ''M100,2:dead'')) (str ''M100,2:dead'')"
    by (rule with_packet_holds) (simp add: GDB_BUF_MAX_def)
  with rsp_write_mem_bytes [OF _ num, of "with_packet (str ''M100,2:dead'')" xess DBG_HW_ADVANCED] pkt
  show ?thesis by simp
qed

text \<open>
  C18. Memory written by GDB, as binary data. A packet \<open>X<addr>,<length>:<data>\<close> whose data are the bytes
  \<open>bs\<close> in escaped form, zero bytes included, makes one call of \<open>dbg_wb_write_block8\<close> with that address
  and exactly these bytes; the packet buffer then has the unescaped data in place.
\<close>

theorem rsp_write_mem_bin_bytes:
  assumes "holds w (mem_head CHR ''X'' da dl @ packet_body bs)" "hexnum da addr" "hexnum dl (of_nat (length bs))"
  shows "\<exists>d. slice_at d (length (mem_head CHR ''X'' da dl)) (length bs) = bs \<and>
     rsp_write_mem_bin c hw w =
       do { (e, w) \<leftarrow> on_jtag (dbg_wb_write_block8 c hw addr bs (int (length bs))) (w\<lparr>pkt_data := d\<rparr>);
            if e = APP_ERR_NONE then put_str_packet c hw (str ''OK'') w else put_str_packet c hw (str ''E01'') w }"
proof -
  let ?h = "length (mem_head CHR ''X'' da dl)"
  let ?n = "length (packet_body bs)"
  have head: "0 \<notin> set (mem_head CHR ''X'' da dl)" "0x3a \<notin> set (chr CHR ''X'' # da @ 0x2c # dl)"
    using mem_head_nonzero [OF assms(2,3), of "CHR ''X''"] by simp_all
  have "slice_at (pkt_data w) (?h + 0) ?n = packet_body bs"
    using holds_nth [OF assms(1)] by (intro slice_at_eqI) (simp_all add: nth_append)
  from unescape_loop_body [OF this, of 0 ?n] obtain d where
    d: "rsp_unescape ?h ?n (pkt_data w) = (length bs, d)" "slice_at d ?h (length bs) = bs"
    by (auto simp: rsp_unescape_def)
  have "length bs \<le> ?n"
    by (induction bs) (auto simp: escape_char_def)
  then have small: "length bs < 2 ^ 31" using packet_lt [OF assms(1)] by simp
  have scan: "scan_addr_len (chr CHR ''X'') (request w) = Some (addr, int (length bs))"
    using scan_mem_head [OF assms(2,3), of "CHR ''X''" "c_string (packet_body bs)"] small
    by (simp add: request_string [OF assms(1)] c_string_append [OF head(1)] sint_small)
  have start: "data_start w = Some ?h" by (rule data_start_head [OF assms(1) head(2)])
  have len: "pkt_len w - ?h = ?n" using assms(1) by (simp add: holds_def)
  have "rsp_write_mem_bin c hw w =
       do { (e, w) \<leftarrow> on_jtag (dbg_wb_write_block8 c hw addr bs (int (length bs))) (w\<lparr>pkt_data := d\<rparr>);
            if e = APP_ERR_NONE then put_str_packet c hw (str ''OK'') w else put_str_packet c hw (str ''E01'') w }"
    unfolding rsp_write_mem_bin_def scan option.case prod.case start Let_def Option.bind.bind_lunit len d(1)
    by (simp only: nat_int d(2) reply_status_def [abs_def] reply_def) (simp add: d(2))
  with d(2) show ?thesis by blast
qed

theorem rsp_write_mem_bin_bytes_witness:
  "\<exists>d. slice_at d 8 3 = [0x7d, 0, 0x23] \<and>
     rsp_write_mem_bin xess DBG_HW_ADVANCED (with_packet (str ''X1000,3:'' @ packet_body [0x7d, 0, 0x23])) =
       do { (e, w) \<leftarrow> on_jtag (dbg_wb_write_block8 xess DBG_HW_ADVANCED 0x1000 [0x7d, 0, 0x23] 3)
                        (with_packet (str ''X1000,3:'' @ packet_body [0x7d, 0, 0x23])\<lparr>pkt_data := d\<rparr>);
            if e = APP_ERR_NONE then put_str_packet xess DBG_HW_ADVANCED (str ''OK'') w
            else put_str_packet xess DBG_HW_ADVANCED (str ''E01'') w }"
proof -
  let ?bs = "[0x7d, 0, 0x23] :: u8 list"
  have num: "hexnum (str ''1000'') 0x1000" "hexnum (str ''3'') (of_nat (length ?bs))"
    by (simp_all only: hexnum_def) code_simp+
  have head: "mem_head CHR ''X'' (str ''1000'') (str ''3'') = str ''X1000,3:''" by code_simp
  have "length (str ''X1000,3:'' @ packet_body ?bs) < GDB_BUF_MAX" by code_simp
  from with_packet_holds [OF this] have
    "holds (with_packet (str ''X1000,3:'' @ packet_body ?bs)) (mem_head CHR ''X'' (str ''1000'') (str ''3'') @ packet_body ?bs)"
    by (simp only: head)
  from rsp_write_mem_bin_bytes [OF this num, of xess DBG_HW_ADVANCED, unfolded head]
  show ?thesis by (simp only: length_str list.size) (simp add: numeral_eq_Suc)
qed


subsection \<open>While the target runs\<close>

lemma put_str_packet_up:
  assumes "link_up w" "incoming w = Rd_char 0x2b # as" "length s < GDB_BUF_MAX"
  shows "put_str_packet c hw s w = Some (w\<lparr>sent := sent w @ packet_chars s, incoming := as\<rparr>)"
  using put_packet_up [of w "[]" as c hw s] assms by (simp add: put_str_packet_def)

lemma reply_up:
  "link_up w \<Longrightarrow> incoming w = Rd_char 0x2b # as \<Longrightarrow> length s < GDB_BUF_MAX \<Longrightarrow>
     reply c hw s w = Some (w\<lparr>sent := sent w @ packet_chars (str s), incoming := as\<rparr>)"
  by (simp add: reply_def put_str_packet_up)

lemma take_frame_frame [simp]:
  "jtag (take_frame ds as w) = jtag w" "pipes (take_frame ds as w) = pipes w"
  "mp_table (take_frame ds as w) = mp_table w" "target_running (take_frame ds as w) = target_running w"
  "pipe_fds (take_frame ds as w) = pipe_fds w" "hwp_in_use (take_frame ds as w) = hwp_in_use w"
  "client_fd (take_frame ds as w) = client_fd w" "junk (take_frame ds as w) = junk w"
  by (simp_all add: take_frame_def)

lemma get_packet_break:
  assumes "client_fd w \<noteq> -1" "incoming w = Rd_char 0x03 # as"
  shows "get_packet c hw w = Some (True, w\<lparr>incoming := as, pkt_data := (pkt_data w)(0 := 0x03), pkt_len := 1\<rparr>)"
proof -
  have "wait_start c hw w = Some (Interrupted, w\<lparr>incoming := as, pkt_data := (pkt_data w)(0 := 0x03), pkt_len := 1\<rparr>)"
    by (subst wait_start.simps) (simp add: get_rsp_char_up [OF assms])
  then show ?thesis by (subst get_packet.simps) simp
qed

lemma take_frame_first:
  "bs = [] \<or> hd bs \<noteq> 0x03 \<Longrightarrow> pkt_data (take_frame (packet_body bs) as w) 0 \<noteq> 0x03"
  by (cases bs) (auto simp: store_at_def escape_char_def)

lemma running_reply:
  assumes "link_up w" "target_running w" "incoming w = map Rd_char (packet_chars bs) @ Rd_char 0x2b # as"
    "length (packet_body bs) < GDB_BUF_MAX - 1" "bs = [] \<or> hd bs \<noteq> 0x03"
  shows "rsp_client_request c hw w = Some (take_frame (packet_body bs) as
           (w\<lparr>sent := sent w @ 0x2b # packet_chars (str not_stopped_msg)\<rparr>))"
proof -
  let ?w1 = "take_frame (packet_body bs) (Rd_char 0x2b # as) (w\<lparr>sent := sent w @ [0x2b]\<rparr>)"
  have get: "get_packet c hw w = Some (True, ?w1)"
    using assms by (intro get_packet_accepts [where noise = "[]"]) simp_all
  have first: "pkt_data ?w1 0 \<noteq> 0x03" using assms(5) by (rule take_frame_first)
  have msg: "length not_stopped_msg < GDB_BUF_MAX" by code_simp
  have "reply c hw not_stopped_msg ?w1 =
      Some (?w1\<lparr>sent := sent ?w1 @ packet_chars (str not_stopped_msg), incoming := as\<rparr>)"
    using assms(1) msg by (intro reply_up) simp_all
  with get first assms(2) show ?thesis by (simp add: rsp_client_request_def) (simp add: take_frame_def)
qed

lemma running_break:
  assumes "link_up w" "target_running w" "incoming w = Rd_char 0x03 # as"
  shows "rsp_client_request c hw w =
     Some (set_stall_state True (w\<lparr>incoming := as, pkt_data := (pkt_data w)(0 := 0x03), pkt_len := 1\<rparr>))"
  using get_packet_break [of w as c hw] assms by (simp add: link_upD rsp_client_request_def)

lemma pipes_set_stall: "pipes (set_stall_state st w) = pipes (write_pipe (fst (pipe_fds w)) (if st then ch_S else ch_U) w)"
  by (simp add: set_stall_state_def write_pipe_def Let_def)

text \<open>
  C19. Requests while the target runs. A well-formed packet that does not start with the break
  character is acknowledged and answered with the message that the target is not stopped, whatever
  request it is; neither the JTAG state nor a pipe to the monitor nor the matchpoint table is
  touched. A break character, in contrast, writes the stall command into the pipe to the monitor and
  sends nothing.
\<close>

theorem running_target_protected:
  assumes "link_up w" "target_running w"
  shows "(incoming w = map Rd_char (packet_chars bs) @ Rd_char 0x2b # as \<and> length (packet_body bs) < GDB_BUF_MAX - 1
       \<and> (bs = [] \<or> hd bs \<noteq> 0x03) \<longrightarrow>
       (\<exists>w'. rsp_client_request c hw w = Some w' \<and> jtag w' = jtag w \<and> pipes w' = pipes w \<and> mp_table w' = mp_table w
          \<and> target_running w' \<and> sent w' = sent w @ 0x2b # packet_chars (str not_stopped_msg)))
     \<and> (incoming w = Rd_char 0x03 # as \<longrightarrow>
       (\<exists>w'. rsp_client_request c hw w = Some w' \<and> jtag w' = jtag w \<and> sent w' = sent w
          \<and> pipes w' = pipes (write_pipe (fst (pipe_fds w)) ch_S w)))"
  using running_reply [OF assms, of bs as c hw] running_break [OF assms, of as c hw] assms(2)
  by (auto simp: pipes_set_stall) (simp add: write_pipe_def)

theorem running_target_protected_witness:
  "\<exists>w'. rsp_client_request xess DBG_HW_ADVANCED
       (rsp_on idle_dev (map Rd_char (packet_chars (str ''m0,4'')) @ [Rd_char 0x2b])\<lparr>target_running := True\<rparr>) = Some w'
     \<and> jtag w' = board idle_dev \<and> sent w' = 0x2b # packet_chars (str not_stopped_msg)"
proof -
  let ?w = "rsp_on idle_dev (map Rd_char (packet_chars (str ''m0,4'')) @ [Rd_char 0x2b])\<lparr>target_running := True\<rparr>"
  have up: "link_up ?w" "target_running ?w" by (simp_all add: link_up_def)
  have "length (packet_body (str ''m0,4'')) < GDB_BUF_MAX - 1" "hd (str ''m0,4'') \<noteq> 0x03" by code_simp+
  with running_target_protected [OF up, of "str ''m0,4''" "[]" xess DBG_HW_ADVANCED] show ?thesis by auto
qed

subsection \<open>A break reaches the CPU\<close>

text \<open>The RSP server registered as the only server, with nothing in its pipes.\<close>

definition registered :: "fdstruct \<Rightarrow> ('s, 'z) rsp_bridge_scheme \<Rightarrow> bool" where
  "registered conn w \<longleftrightarrow> connections w = [conn] \<and> pipe_fds w = (s2m_wr conn, m2s_rd conn) \<and> \<not> pipes_mutex w
     \<and> distinct [s2m_rd conn, s2m_wr conn, m2s_rd conn, m2s_wr conn]
     \<and> pipes w = [\<lparr>rd_end = s2m_rd conn, wr_end = s2m_wr conn, in_pipe = []\<rparr>,
                 \<lparr>rd_end = m2s_rd conn, wr_end = m2s_wr conn, in_pipe = []\<rparr>]"

lemma stall_cpu_access:
  "stall_cpu c hw s w = Some w' \<Longrightarrow> \<exists>e. dbg_cpu0_write_ctrl c hw 0 (if s > 0 then 1 else 0) (jtag w) = Some (e, jtag w')"
  by (auto simp: stall_cpu_def on_jtag_def Let_def split: Option.bind_splits if_splits)

lemma monitor_command_stall:
  assumes "monitor_command c hw ch_S w = Some w'" "distinct (map m2s_wr (connections w))"
  shows "\<not> target_is_running w'"
    "pipes w' = map (\<lambda>p. if wr_end p \<in> m2s_wr ` set (connections w) then p\<lparr>in_pipe := in_pipe p @ [ch_H]\<rparr> else p) (pipes w)"
    "if target_is_running w then \<exists>e. dbg_cpu0_write_ctrl c hw 0 1 (jtag w) = Some (e, jtag w') else jtag w' = jtag w"
proof -
  obtain w1 where w': "w' = notify_listeners ch_H w1" and
    w1: "\<not> target_is_running w1" "connections w1 = connections w" "pipes w1 = pipes w"
      "if target_is_running w then \<exists>e. dbg_cpu0_write_ctrl c hw 0 1 (jtag w) = Some (e, jtag w1) else jtag w1 = jtag w"
  proof (cases "target_is_running w")
    case True
    then obtain u where u: "stall_cpu c hw 1 w = Some u" "w' = notify_listeners ch_H u"
      using assms(1) by (auto simp: monitor_command_def split: Option.bind_splits)
    show thesis using stall_cpu_frame [OF u(1)] stall_cpu_access [OF u(1)] True by (intro that [OF u(2)]) auto
  next
    case False
    with assms(1) show thesis by (intro that [of w]) (auto simp: monitor_command_def)
  qed
  show "\<not> target_is_running w'"
    "pipes w' = map (\<lambda>p. if wr_end p \<in> m2s_wr ` set (connections w) then p\<lparr>in_pipe := in_pipe p @ [ch_H]\<rparr> else p) (pipes w)"
    using w' w1 assms(2) by (simp_all add: pipes_notify)
  show "if target_is_running w then \<exists>e. dbg_cpu0_write_ctrl c hw 0 1 (jtag w) = Some (e, jtag w') else jtag w' = jtag w"
    using w' w1(4) by (simp split: if_splits)
qed

text \<open>
  C20. A break from GDB stops the CPU and is reported back. With the RSP server registered at the
  monitor and its target running, the break character followed by one pass of the monitor thread that
  finds the pipe readable makes the access that stalls the CPU, a write of 1 to the control register of
  CPU 0, if the monitor has the CPU as running, and no access otherwise; the CPU is noted as stopped, and
  the byte \<open>H\<close>, and nothing else, is in the pipe \<open>handle_rsp\<close> polls; the command pipe is empty again. (An
  error of the access is only printed. In the example the hardware has taken the command: CPU 0 is
  selected, and the write of its control register with the stall bit has been shifted in.)
\<close>

theorem break_stops_target:
  assumes "link_up w" "target_running w" "incoming w = Rd_char 0x03 # as" "registered conn w"
    and "rsp_client_request c hw w = Some w1"
    and "target_handler_pass c hw (Select_ready [s2m_rd conn]) b w1 = Some w2"
  shows "\<not> target_is_running w2
     \<and> (if target_is_running w then \<exists>e. dbg_cpu0_write_ctrl c hw 0 1 (jtag w) = Some (e, jtag w2) else jtag w2 = jtag w)
     \<and> (\<exists>w3. read_pipe (snd (pipe_fds w)) w2 = Some (Some ch_H, w3) \<and> pipes w3 = pipes w)"
proof -
  let ?p1 = "\<lparr>rd_end = s2m_rd conn, wr_end = s2m_wr conn, in_pipe = []\<rparr>"
  let ?p2 = "\<lparr>rd_end = m2s_rd conn, wr_end = m2s_wr conn, in_pipe = []\<rparr>"
  have reg: "connections w = [conn]" "pipe_fds w = (s2m_wr conn, m2s_rd conn)" "\<not> pipes_mutex w" "pipes w = [?p1, ?p2]"
    and fds: "distinct [s2m_rd conn, s2m_wr conn, m2s_rd conn, m2s_wr conn]"
    using assms(4) by (simp_all add: registered_def)
  have w1: "w1 = set_stall_state True (w\<lparr>incoming := as, pkt_data := (pkt_data w)(0 := 0x03), pkt_len := 1\<rparr>)"
    using running_break [OF assms(1-3)] assms(5) by simp
  have p: "pipes w1 = [?p1\<lparr>in_pipe := [ch_S]\<rparr>, ?p2]" "connections w1 = [conn]" "\<not> pipes_mutex w1"
    "jtag w1 = jtag w" "target_is_running w1 = target_is_running w"
    using reg fds unfolding w1 by (auto simp: pipes_set_stall write_pipe_def set_stall_state_def)
  let ?u = "w1\<lparr>pipes_mutex := True, pipes := [?p1, ?p2]\<rparr>"
  obtain w' where cmd: "monitor_command c hw ch_S ?u = Some w'" and w2: "w2 = unlock_pipes w'"
    using assms(6) p
    by (auto simp: target_handler_pass_def lock_pipes_def unlock_pipes_def read_pipe_def split: Option.bind_splits)
  have "\<not> target_is_running w'" "pipes w' = [?p1, ?p2\<lparr>in_pipe := [ch_H]\<rparr>]"
    "if target_is_running w then \<exists>e. dbg_cpu0_write_ctrl c hw 0 1 (jtag w) = Some (e, jtag w') else jtag w' = jtag w"
    using monitor_command_stall [OF cmd] p fds by auto
  with w2 reg fds show ?thesis by (auto simp: unlock_pipes_def read_pipe_def)
qed

definition rsp_registered :: "read_answer list \<Rightarrow> wires parport rsp_bridge" where
  "rsp_registered as = (rsp_on (idle_dev\<lparr>latched_jtag_ir := DEBUG\<rparr>) as)\<lparr>target_running := True, target_is_running := True,
     connections := [\<lparr>s2m_rd = 5, s2m_wr = 6, m2s_rd = 7, m2s_wr = 8\<rparr>], pipe_fds := (6, 7),
     pipes := [\<lparr>rd_end = 5, wr_end = 6, in_pipe = []\<rparr>, \<lparr>rd_end = 7, wr_end = 8, in_pipe = []\<rparr>]\<rparr>"

theorem break_stops_target_witness:
  "\<exists>w1 w2. rsp_client_request xess DBG_HW_ADVANCED (rsp_registered [Rd_char 0x03]) = Some w1
     \<and> target_handler_pass xess DBG_HW_ADVANCED (Select_ready [5]) 0 w1 = Some w2
     \<and> \<not> target_is_running w2 \<and> (\<exists>w3. read_pipe 7 w2 = Some (Some ch_H, w3))
     \<and> module_id_reg (board_dev (cable (jtag w2))) = 1
     \<and> (ucast (drop_bit 45 (input_shift_reg (board_dev (cable (jtag w2))))) :: u8) = 0x49"
proof -
  let ?conn = "\<lparr>s2m_rd = 5, s2m_wr = 6, m2s_rd = 7, m2s_wr = 8\<rparr>" and ?d = "idle_dev\<lparr>latched_jtag_ir := DEBUG\<rparr>"
  let ?w = "rsp_registered [Rd_char 0x03]"
  have hyps: "link_up ?w" "target_running ?w" "incoming ?w = [Rd_char 0x03]" "registered ?conn ?w"
    by (simp_all add: rsp_registered_def link_up_def registered_def)
  have start: "target_is_running ?w" "jtag ?w = board ?d" by (simp_all add: rsp_registered_def)
  note req = running_break [OF hyps(1-3), of xess DBG_HW_ADVANCED]
  let ?w1 = "set_stall_state True (?w\<lparr>incoming := [], pkt_data := (pkt_data ?w)(0 := 0x03), pkt_len := 1\<rparr>)"
  obtain st where st: "dbg_cpu0_write_ctrl xess DBG_HW_ADVANCED 0 1 (board ?d) = Some (APP_ERR_NONE, st)"
    "module_id_reg (board_dev (cable st)) = 1" "(ucast (drop_bit 45 (input_shift_reg (board_dev (cable st)))) :: u8) = 0x49"
    using cpu0_write_ctrl_lands [OF xess_cable, of "board ?d" 0 1]
    by (auto simp: coherent_def idle_dev_def power_on_dev_def debug_select_def DBG_MAX_MODULES_def)
  have "\<exists>w2. target_handler_pass xess DBG_HW_ADVANCED (Select_ready [5]) 0 ?w1 = Some w2"
    using st(1) by (simp add: target_handler_pass_def lock_pipes_def unlock_pipes_def rsp_registered_def set_stall_state_def
        write_pipe_def read_pipe_def monitor_command_def ch_S_def ch_U_def stall_cpu_def on_jtag_def)
  then obtain w2 where pass: "target_handler_pass xess DBG_HW_ADVANCED (Select_ready [5]) 0 ?w1 = Some w2" by blast
  from break_stops_target [OF hyps req, of 0 w2] pass req hyps(4) start st
  show ?thesis by (auto simp: registered_def)
qed

subsection \<open>Memory breakpoints\<close>

lemma insert_memory_breakpoint_table:
  assumes "insert_memory_breakpoint c hw a w = Some w'"
  obtains e v wr where "on_jtag2 (dbg_wb_read_block32 c hw a [junk w] 1) w = Some (e, v, wr)"
    "mp_table w' = mp_hash_add BP_MEMORY a (v ! 0) (mp_table w)"
proof -
  from assms obtain e v wr e2 v2 ww where
    r: "on_jtag2 (dbg_wb_read_block32 c hw a [junk w] 1) w = Some (e, v, wr)" and
    wt: "on_jtag2 (dbg_wb_write_block32 c hw a [OR1K_TRAP_INSTR] 1)
          (wr\<lparr>mp_table := mp_hash_add BP_MEMORY a (v ! 0) (mp_table wr)\<rparr>) = Some (e2, v2, ww)" and
    rep: "reply c hw ''OK'' ww = Some w'"
    by (auto simp: insert_memory_breakpoint_def split: Option.bind_splits)
  have "quiet ww w'" using reply_quiet(2) rep by (metis quietly_simps(2))
  moreover have "mp_table wr = mp_table w" using r by (auto simp: on_jtag2_eq)
  moreover have "mp_table ww = mp_hash_add BP_MEMORY a (v ! 0) (mp_table wr)" using wt by (auto simp: on_jtag2_eq)
  ultimately show thesis using r that by (simp add: quiet_def)
qed

lemma remove_memory_breakpoint_lookup:
  "remove_memory_breakpoint c hw a w =
     (let w1 = w\<lparr>mp_table := snd (mp_hash_delete BP_MEMORY a (mp_table w))\<rparr> in
      case mp_hash_lookup BP_MEMORY a (mp_table w) of
        None \<Rightarrow> reply c hw ''OK'' w1
      | Some mpe \<Rightarrow>
          do { (_, _, u) \<leftarrow> on_jtag2 (dbg_wb_write_block32 c hw a [mpe_instr mpe] 1) w1; reply c hw ''OK'' u })"
  by (simp add: remove_memory_breakpoint_def Let_def case_prod_beta mp.delete_found)

text \<open>
  C21. A memory breakpoint that is set twice and removed. When there was no breakpoint at the address
  and the first insertion read the word \<open>i\<close> from memory, then after a second insertion of the same
  breakpoint (a repeated packet, which reads back the trap instruction) the removal writes exactly
  \<open>i\<close> back to that address, the table has no breakpoint there any more, and a second removal only
  answers \<open>OK\<close>.
\<close>

theorem breakpoint_restores_instruction:
  assumes "rsp_inv w" "mp_hash_lookup BP_MEMORY a (mp_table w) = None"
    and "on_jtag2 (dbg_wb_read_block32 c hw a [junk w] 1) w = Some (e, [i], wr)"
    and "insert_memory_breakpoint c hw a w = Some w1" "insert_memory_breakpoint c hw a w1 = Some w2"
  shows "\<exists>h. mp_hash_lookup BP_MEMORY a h = None \<and>
       remove_memory_breakpoint c hw a w2 =
         do { (_, _, u) \<leftarrow> on_jtag2 (dbg_wb_write_block32 c hw a [i] 1) (w2\<lparr>mp_table := h\<rparr>); reply c hw ''OK'' u }
     \<and> (\<forall>u. mp_table u = h \<longrightarrow>
          remove_memory_breakpoint c hw a u = reply c hw ''OK'' (u\<lparr>mp_table := snd (mp_hash_delete BP_MEMORY a h)\<rparr>))"
proof -
  have inv1: "rsp_inv w1"
    using insert_memory_breakpoint_safe [OF assms(1)] assms(4) unfolding safe_def by blast
  have w1: "mp_table w1 = mp_hash_add BP_MEMORY a i (mp_table w)"
    using insert_memory_breakpoint_table [OF assms(4)] assms(3) by auto
  obtain j where w2: "mp_table w2 = mp_hash_add BP_MEMORY a j (mp_table w1)"
    using insert_memory_breakpoint_table [OF assms(5)] by blast
  let ?h = "snd (mp_hash_delete BP_MEMORY a (mp_table w2))"
  have invs: "mp_invar (mp_table w)" "mp_invar (mp_table w2)"
    using assms(1) inv1 w2 by (simp_all add: rsp_inv_def mp.table_laws)
  have "mp_hash_lookup BP_MEMORY a (mp_table w2) = Some \<lparr>mpe_type = BP_MEMORY, mpe_addr = a, mpe_instr = i\<rparr>"
    using mp.first_instr_returned [OF invs(1) assms(2), of "[j]" i] w1 w2 by (simp add: mp.delete_found)
  moreover have "mp_hash_lookup BP_MEMORY a ?h = None" using invs(2) by (simp add: mp.table_laws)
  ultimately show ?thesis
    by (intro exI [of _ ?h]) (simp add: remove_memory_breakpoint_lookup)
qed

text \<open>
  For the concrete runs below: a cable that answers every operation with an error, and a server with
  a client on it. The handlers go on in spite of the errors.
\<close>

definition unplugged :: "unit jtag_cable_t" where
  "unplugged =
     \<lparr>name = ''none'', inout_func = \<lambda>_ s. Some (APP_ERR_USB, 0, s), out_func = \<lambda>_ s. Some (APP_ERR_USB, s),
      init_func = \<lambda>s. Some (APP_ERR_USB, s), opt_func = \<lambda>_ _ s. Some (APP_ERR_USB, s),
      bit_out_func = \<lambda>_ s. Some (APP_ERR_USB, s), bit_inout_func = \<lambda>_ s. Some (APP_ERR_USB, 0, s),
      stream_out_func = \<lambda>_ _ _ s. Some (APP_ERR_USB, s),
      stream_inout_func = \<lambda>_ is _ _ s. Some (APP_ERR_USB, is, s),
      flush_func = None, opts = None, help_text = None\<rparr>"

definition lone_jtag :: "int \<Rightarrow> unit jtag" where
  "lone_jtag chain = (config_set_IR_size 4 (init_jtag () []))\<lparr>current_chain := chain, desired_chain := chain\<rparr>"

definition lone :: "read_answer list \<Rightarrow> unit rsp_bridge" where
  "lone as = \<lparr>jtag = lone_jtag DC_CPU0, pipes = [], target_is_running = False, monitor_thread_running = True,
     connections = [], pipes_mutex = False, client_waiting = False, target_running = False,
     single_step_mode = False, proto_num = 6, server_fd = 3, client_fd = 4, sigval = 0, start_addr = EXCEPT_RESET,
     mp_table = mp_hash_init, use_cached_npc = False, cached_npc = 0, pipe_fds = (-1, -1),
     hwp_in_use = replicate HWP_MAX_WP 0, pkt_data = (\<lambda>_. 0), pkt_len = 0, incoming = as, write_answers = [],
     sent = [], junk = 0x15000000\<rparr>"

lemma lone_simps [simp]:
  "jtag (lone as) = lone_jtag DC_CPU0" "mp_table (lone as) = mp_hash_init" "junk (lone as) = 0x15000000"
  "link_up (lone as)" "incoming (lone as) = as" "hwp_in_use (lone as) = replicate HWP_MAX_WP 0"
  by (simp_all add: lone_def link_up_def)


lemma lone_cpu_write [simp]:
  "dbg_cpu0_write unplugged DBG_HW_ADVANCED adr v (lone_jtag DC_CPU0) = Some (APP_ERR_USB, lone_jtag DC_CPU0)"
  by code_simp

lemma lone_cpu_read [simp]:
  "dbg_cpu0_read unplugged DBG_HW_ADVANCED adr v (lone_jtag DC_CPU0) =
     Some (APP_ERR_USB, word_of_bytes (byte_of v 0) (byte_of v 1) (byte_of v 2) (byte_of v 3), lone_jtag DC_CPU0)"
  by code_simp

lemma lone_wb [simp]:
  "dbg_wb_read_block32 unplugged DBG_HW_ADVANCED 0x100 [0x15000000] 1 (lone_jtag DC_CPU0) =
     Some (APP_ERR_USB, [0x15000000], lone_jtag DC_WISHBONE)"
  "dbg_wb_read_block32 unplugged DBG_HW_ADVANCED 0x100 [0x15000000] 1 (lone_jtag DC_WISHBONE) =
     Some (APP_ERR_USB, [0x15000000], lone_jtag DC_WISHBONE)"
  "dbg_wb_write_block32 unplugged DBG_HW_ADVANCED adr [v] 1 (lone_jtag DC_WISHBONE) =
     Some (APP_ERR_USB, [v], lone_jtag DC_WISHBONE)"
  by code_simp+

lemma lone_inv: "rsp_inv (lone as)"
proof -
  have "\<not> dbg_access_mutex (lone_jtag DC_CPU0)" by code_simp
  then show ?thesis by (simp add: rsp_inv_def mp.table_laws hw_entries_ok_def, simp add: lone_def)
qed

lemma buf_lt [simp]: "2 < GDB_BUF_MAX" "0 < GDB_BUF_MAX" "Suc (Suc 0) < GDB_BUF_MAX"
  by (simp_all add: GDB_BUF_MAX_def)

theorem breakpoint_restores_instruction_witness:
  "\<exists>w1 w2 h. insert_memory_breakpoint unplugged DBG_HW_ADVANCED 0x100 (lone [Rd_char 0x2b, Rd_char 0x2b]) = Some w1
     \<and> insert_memory_breakpoint unplugged DBG_HW_ADVANCED 0x100 w1 = Some w2
     \<and> remove_memory_breakpoint unplugged DBG_HW_ADVANCED 0x100 w2 =
         do { (_, _, u) \<leftarrow> on_jtag2 (dbg_wb_write_block32 unplugged DBG_HW_ADVANCED 0x100 [0x15000000] 1) (w2\<lparr>mp_table := h\<rparr>);
              reply unplugged DBG_HW_ADVANCED ''OK'' u }"
proof -
  let ?w = "lone [Rd_char 0x2b, Rd_char 0x2b]"
  have rd: "on_jtag2 (dbg_wb_read_block32 unplugged DBG_HW_ADVANCED 0x100 [junk ?w] 1) ?w =
      Some (APP_ERR_USB, [0x15000000], ?w\<lparr>jtag := lone_jtag DC_WISHBONE\<rparr>)"
    by (simp add: on_jtag2_def)
  obtain w1 where w1: "insert_memory_breakpoint unplugged DBG_HW_ADVANCED 0x100 ?w = Some w1"
    and w1s: "jtag w1 = lone_jtag DC_WISHBONE" "junk w1 = 0x15000000" "link_up w1" "incoming w1 = [Rd_char 0x2b]"
    by (simp add: insert_memory_breakpoint_def on_jtag2_def reply_up [where as = "[Rd_char 0x2b]"] Let_def)
  obtain w2 where w2: "insert_memory_breakpoint unplugged DBG_HW_ADVANCED 0x100 w1 = Some w2"
    using w1s by (simp add: insert_memory_breakpoint_def on_jtag2_def reply_up [where as = "[]"] Let_def)
  have none: "mp_hash_lookup BP_MEMORY 0x100 (mp_table ?w) = None" by (simp add: mp.lookup_empty)
  from breakpoint_restores_instruction [OF lone_inv none rd w1 w2] w1 w2 show ?thesis by blast
qed

subsection \<open>Watchpoints\<close>

lemma insert_watchpoint_effect:
  assumes "insert_watchpoint c hw ty dcr a w = Some w'" "hwp_get_available_watchpoint (hwp_in_use w) = (r, use)"
  shows "hwp_in_use w' = use" "mp_table w' = (if r = -1 then mp_table w else mp_hash_add ty a (of_int r) (mp_table w))"
proof -
  let ?w0 = "w\<lparr>hwp_in_use := use\<rparr>"
  let ?w1 = "?w0\<lparr>mp_table := mp_hash_add ty a (of_int r) (mp_table w)\<rparr>"
  have "quietly (if r = -1 then ?w0 else ?w1) (insert_watchpoint c hw ty dcr a w)"
    using assms(2) by (auto simp: insert_watchpoint_def Let_def intro!: quiet_binds quiet_tails)
  with assms(1) have "quiet (if r = -1 then ?w0 else ?w1) w'" by (simp add: quietly_def)
  then show "hwp_in_use w' = use" "mp_table w' = (if r = -1 then mp_table w else mp_hash_add ty a (of_int r) (mp_table w))"
    by (auto simp: quiet_def split: if_splits)
qed

end
