(* ===== verification/Rsp_Defects.thy ===== *)
theory Rsp_Defects
  imports Rsp_Requests
begin

unbundle bit_operations_syntax

text \<open>
  Where the handlers of rsp-server.c do not do what their comments promise: a repeated packet for a
  hardware watchpoint takes a second watchpoint for good, detaching leaves the CPU stalled, and the
  packet that writes all registers is read one character off.
\<close>

subsection \<open>A repeated watchpoint packet\<close>

lemma remove_watchpoint_effect:
  assumes "remove_watchpoint c hw ty a w = Some w'" "mp_hash_lookup ty a (mp_table w) = Some mpe"
    "hwp_return_watchpoint (sint (mpe_instr mpe)) (hwp_in_use w) = Some use"
  shows "hwp_in_use w' = use \<and> mp_table w' = snd (mp_hash_delete ty a (mp_table w))"
proof -
  let ?hwp = "mpe_instr mpe"
  obtain h where del: "mp_hash_delete ty a (mp_table w) = (Some mpe, h)"
    using assms(2) mp.delete_found [of ty a "mp_table w"] by (cases "mp_hash_delete ty a (mp_table w)") auto
  from assms(1) obtain e r wr e2 w2 e3 w3 use' where
    rd: "cpu_read c hw SPR_DMR2 (junk w) (w\<lparr>mp_table := h\<rparr>) = Some (e, r, wr)" and
    w2: "cpu_write c hw SPR_DMR2 (r AND NOT (wgb_bit ?hwp)) wr = Some (e2, w2)" and
    w3: "cpu_write c hw (SPR_DCR ?hwp) 0x01 w2 = Some (e3, w3)" and
    use': "hwp_return_watchpoint (sint ?hwp) (hwp_in_use w3) = Some use'" and
    rep: "reply c hw ''OK'' (w3\<lparr>hwp_in_use := use'\<rparr>) = Some w'"
    by (auto simp: remove_watchpoint_def del Let_def split: Option.bind_splits if_splits)
  have "quiet (w\<lparr>mp_table := h\<rparr>) w3"
    using cpu_read_quiet rd cpu_write_quiet w2 w3 quiet_trans by (metis quietly_simps(4,6))
  moreover have "quiet (w3\<lparr>hwp_in_use := use'\<rparr>) w'" using reply_quiet(2) rep by (metis quietly_simps(2))
  ultimately show ?thesis using use' assms(3) del by (simp add: quiet_def)
qed

lemma remove_watchpoint_absent:
  assumes "remove_watchpoint c hw ty a w = Some w'" "mp_hash_lookup ty a (mp_table w) = None"
  shows "hwp_in_use w' = hwp_in_use w"
proof -
  have "fst (mp_hash_delete ty a (mp_table w)) = None" using assms(2) by (simp add: mp.delete_found)
  then obtain h where "reply c hw ''OK'' (w\<lparr>mp_table := h\<rparr>) = Some w'"
    using assms(1) by (cases "mp_hash_delete ty a (mp_table w)") (auto simp: remove_watchpoint_def Let_def)
  then have "quiet (w\<lparr>mp_table := h\<rparr>) w'" using reply_quiet(2) by (metis quietly_simps(2))
  then show ?thesis by (simp add: quiet_def)
qed

lemma sint_watchpoint: "0 \<le> r \<Longrightarrow> r < int HWP_MAX_WP \<Longrightarrow> sint (of_int r :: u32) = r"
  by (simp add: HWP_MAX_WP_def signed_of_int signed_take_bit_int_eq_self)

lemma put_back: "m \<in> F \<Longrightarrow> F1 = F - {m} \<Longrightarrow> n \<in> F1 \<Longrightarrow> insert m (F1 - {n}) = F - {n} \<and> n \<in> F"
  by blast

text \<open>
  C22. A repeated packet for a hardware watchpoint loses a watchpoint. The comment over
  \<open>rsp_insert_matchpoint\<close> asks that repeated packets cause no trouble. When GDB sends the packet for the
  same matchpoint twice and two watchpoints are free, the second packet takes a second watchpoint, and
  the table keeps only the first. Removing the matchpoint gives the first back; the second is in use
  though no entry of that type and address names it, and removing the matchpoint again changes nothing.
\<close>

theorem duplicate_watchpoint_leaks:
  assumes "rsp_inv w" "mp_hash_lookup ty a (mp_table w) = None"
    and "hwp_get_available_watchpoint (hwp_in_use w) = (r1, use1)" "r1 \<noteq> -1"
    and "hwp_get_available_watchpoint use1 = (r2, use2)" "r2 \<noteq> -1"
    and "insert_watchpoint c hw ty dcr a w = Some w1" "insert_watchpoint c hw ty dcr a w1 = Some w2"
    and "remove_watchpoint c hw ty a w2 = Some w3"
  shows "mp_hash_lookup ty a (mp_table w3) = None
     \<and> hwp_free (hwp_in_use w3) = hwp_free (hwp_in_use w) - {nat r2} \<and> nat r2 \<in> hwp_free (hwp_in_use w)
     \<and> (\<forall>w4. remove_watchpoint c hw ty a w3 = Some w4 \<longrightarrow> hwp_in_use w4 = hwp_in_use w3)"
proof -
  let ?f = "hwp_free (hwp_in_use w)"
  have len: "length (hwp_in_use w) = HWP_MAX_WP" and inv: "mp_invar (mp_table w)"
    using assms(1) by (simp_all add: rsp_inv_def)
  have ne: "?f \<noteq> {}" using hwp.get_none [OF len] assms(3,4) by auto
  from hwp.get_some [OF len ne assms(3)] have
    r1: "r1 = int (Min ?f)" "hwp_free use1 = ?f - {Min ?f}" "length use1 = HWP_MAX_WP" by auto
  have ne1: "hwp_free use1 \<noteq> {}" using hwp.get_none [OF r1(3)] assms(5,6) by auto
  from hwp.get_some [OF r1(3) ne1 assms(5)] have
    r2: "r2 = int (Min (hwp_free use1))" "hwp_free use2 = hwp_free use1 - {Min (hwp_free use1)}"
        "length use2 = HWP_MAX_WP" by auto
  have mem: "Min ?f \<in> ?f" "nat r2 \<in> hwp_free use1"
    using ne ne1 r2(1) hwp.finite_free [OF len] hwp.finite_free [OF r1(3)] by simp_all
  from hwp.give_back [OF r2(3) mem(1) len] obtain use3 where
    use3: "hwp_return_watchpoint r1 use2 = Some use3" "hwp_free use3 = insert (Min ?f) (hwp_free use2)"
    using r1(1) by auto
  have i1: "hwp_in_use w1 = use1" "mp_table w1 = mp_hash_add ty a (of_int r1) (mp_table w)"
    using insert_watchpoint_effect [OF assms(7,3)] assms(4) by simp_all
  have i2: "hwp_in_use w2 = use2" "mp_table w2 = mp_hash_add ty a (of_int r2) (mp_table w1)"
    using insert_watchpoint_effect [OF assms(8) assms(5) [folded i1(1)]] assms(6) by simp_all
  have found: "mp_hash_lookup ty a (mp_table w2) = Some \<lparr>mpe_type = ty, mpe_addr = a, mpe_instr = of_int r1\<rparr>"
    using inv assms(2) i1(2) i2(2) by (simp add: mp.table_laws)
  have "sint (of_int r1 :: u32) = r1"
    using hwp_get_range [OF assms(3) len] assms(4) by (simp add: sint_watchpoint)
  with remove_watchpoint_effect [OF assms(9) found] use3(1) i2(1) have
    w3: "hwp_in_use w3 = use3" "mp_table w3 = snd (mp_hash_delete ty a (mp_table w2))" by simp_all
  have gone: "mp_hash_lookup ty a (mp_table w3) = None"
    using inv i1(2) i2(2) w3(2) by (simp add: mp.table_laws)
  have "hwp_free use2 = hwp_free use1 - {nat r2}" using r2(1,2) by simp
  then have "hwp_free use3 = ?f - {nat r2}" "nat r2 \<in> ?f"
    using put_back [OF mem(1) r1(2) mem(2)] use3(2) by simp_all
  with gone w3(1) remove_watchpoint_absent [OF _ gone] show ?thesis by blast
qed

lemma get_on_lone: "hwp_get_available_watchpoint (replicate HWP_MAX_WP 0) = (0, [1, 0, 0, 0, 0, 0, 0, 0])"
  "hwp_get_available_watchpoint [1, 0, 0, 0, 0, 0, 0, 0] = (1, [1, 1, 0, 0, 0, 0, 0, 0])"
  by code_simp+

lemma lone_cpu [simp]:
  "jtag w = lone_jtag DC_CPU0 \<Longrightarrow> cpu_write unplugged DBG_HW_ADVANCED adr v w = Some (APP_ERR_USB, w)"
  "jtag w = lone_jtag DC_CPU0 \<Longrightarrow> cpu_read unplugged DBG_HW_ADVANCED adr v w =
     Some (APP_ERR_USB, word_of_bytes (byte_of v 0) (byte_of v 1) (byte_of v 2) (byte_of v 3), w)"
  by (simp_all add: cpu_write_def cpu_read_def on_jtag_def on_jtag2_def)

lemma lone_insert_watchpoint:
  assumes "jtag w = lone_jtag DC_CPU0" "link_up w" "incoming w = Rd_char 0x2b # as"
  shows "\<exists>w'. insert_watchpoint unplugged DBG_HW_ADVANCED ty dcr a w = Some w' \<and> jtag w' = lone_jtag DC_CPU0
     \<and> link_up w' \<and> incoming w' = as"
  using assms
  by (cases "hwp_get_available_watchpoint (hwp_in_use w)")
    (simp add: insert_watchpoint_def Let_def reply_up [where as = as] link_up_def)

lemma lone_remove_watchpoint:
  assumes "jtag w = lone_jtag DC_CPU0" "link_up w" "incoming w = Rd_char 0x2b # as"
    "mp_hash_lookup ty a (mp_table w) = Some mpe" "mpe_instr mpe = 0"
  shows "\<exists>w'. remove_watchpoint unplugged DBG_HW_ADVANCED ty a w = Some w'"
proof -
  obtain use where "hwp_return_watchpoint (sint (mpe_instr mpe)) (hwp_in_use w) = Some use"
    using assms(5) by (cases "hwp_in_use w ! 0 = 0") (auto simp: hwp_return_watchpoint_def HWP_MAX_WP_def)
  moreover have "fst (mp_hash_delete ty a (mp_table w)) = Some mpe" using assms(4) by (simp add: mp.delete_found)
  ultimately show ?thesis
    using assms
    by (cases "mp_hash_delete ty a (mp_table w)")
      (simp add: remove_watchpoint_def Let_def reply_up [where as = as] link_up_def not_le)
qed

theorem duplicate_watchpoint_leaks_witness:
  "\<exists>w1 w2 w3. insert_watchpoint unplugged DBG_HW_ADVANCED WP_WRITE 0x63 0x100 (lone (replicate 3 (Rd_char 0x2b))) = Some w1
     \<and> insert_watchpoint unplugged DBG_HW_ADVANCED WP_WRITE 0x63 0x100 w1 = Some w2
     \<and> remove_watchpoint unplugged DBG_HW_ADVANCED WP_WRITE 0x100 w2 = Some w3
     \<and> mp_hash_lookup WP_WRITE 0x100 (mp_table w3) = None
     \<and> hwp_free (hwp_in_use w3) = hwp_free (replicate HWP_MAX_WP 0) - {1}"
proof -
  let ?w = "lone (replicate 3 (Rd_char 0x2b))"
  let ?ins = "insert_watchpoint unplugged DBG_HW_ADVANCED WP_WRITE 0x63 0x100"
  have none: "mp_hash_lookup WP_WRITE 0x100 (mp_table ?w) = None" by (simp add: mp.lookup_empty)
  have get: "hwp_get_available_watchpoint (hwp_in_use ?w) = (0, [1, 0, 0, 0, 0, 0, 0, 0])" by (simp add: get_on_lone)
  obtain w1 where w1: "?ins ?w = Some w1" "jtag w1 = lone_jtag DC_CPU0" "link_up w1" "incoming w1 = replicate 2 (Rd_char 0x2b)"
    using lone_insert_watchpoint [of ?w "replicate 2 (Rd_char 0x2b)" WP_WRITE "0x63" "0x100"] by (auto simp: numeral_eq_Suc)
  obtain w2 where w2: "?ins w1 = Some w2" "jtag w2 = lone_jtag DC_CPU0" "link_up w2" "incoming w2 = [Rd_char 0x2b]"
    using lone_insert_watchpoint [of w1 "[Rd_char 0x2b]" WP_WRITE "0x63" "0x100"] w1 by (auto simp: numeral_eq_Suc)
  have t1: "hwp_in_use w1 = [1, 0, 0, 0, 0, 0, 0, 0]" "mp_table w1 = mp_hash_add WP_WRITE 0x100 0 mp_hash_init"
    using insert_watchpoint_effect [OF w1(1) get] by simp_all
  then have "mp_table w2 = mp_hash_add WP_WRITE 0x100 1 (mp_hash_add WP_WRITE 0x100 0 mp_hash_init)"
    using insert_watchpoint_effect(2) [OF w2(1)] get_on_lone(2) by simp
  then have "mp_hash_lookup WP_WRITE 0x100 (mp_table w2) = Some \<lparr>mpe_type = WP_WRITE, mpe_addr = 0x100, mpe_instr = 0\<rparr>"
    by (simp add: mp.table_laws)
  from lone_remove_watchpoint [OF w2(2-4) this] obtain w3 where
    w3: "remove_watchpoint unplugged DBG_HW_ADVANCED WP_WRITE 0x100 w2 = Some w3" by auto
  from duplicate_watchpoint_leaks [OF lone_inv none get _ get_on_lone(2) _ w1(1) w2(1) w3] w1(1) w2(1) w3
  show ?thesis by auto
qed

subsection \<open>Detaching\<close>

text \<open>Calls of the thread of a server, with passes of the monitor thread before, between and after them.\<close>

inductive interleaved ::
  "'s jtag_cable_t \<Rightarrow> dbg_hw \<Rightarrow> (('s, 'z) bridge_scheme \<Rightarrow> ('s, 'z) bridge_scheme option) list
     \<Rightarrow> ('s, 'z) bridge_scheme \<Rightarrow> ('s, 'z) bridge_scheme \<Rightarrow> bool" for c hw where
  il_done: "interleaved c hw [] w w"
| il_call: "f w = Some u \<Longrightarrow> interleaved c hw fs u w' \<Longrightarrow> interleaved c hw (f # fs) w w'"
| il_pass: "target_handler_pass c hw sel b w = Some u \<Longrightarrow> interleaved c hw fs u w' \<Longrightarrow> interleaved c hw fs w w'"

lemma interleaved_calls: "run_calls fs w = Some w' \<Longrightarrow> interleaved c hw fs w w'"
  by (induction fs arbitrary: w) (auto intro: interleaved.intros split: Option.bind_splits)

text \<open>Nobody asks for the CPU to run.\<close>

definition no_request :: "pipe list \<Rightarrow> bool" where
  "no_request ps \<longleftrightarrow> (\<forall>p \<in> set ps. rd_end p \<noteq> -1 \<and> wr_end p \<noteq> -1 \<and> ch_U \<notin> set (in_pipe p))"

definition only_pipes :: "('s, 'z) bridge_scheme \<Rightarrow> ('s, 'z) bridge_scheme \<Rightarrow> bool" where
  "only_pipes w w' \<longleftrightarrow> (\<exists>ps. w' = w\<lparr>pipes := ps\<rparr> \<and> no_request ps)"

lemma only_pipesI: "no_request ps \<Longrightarrow> only_pipes w (w\<lparr>pipes := ps\<rparr>)"
  by (auto simp: only_pipes_def)

lemma only_pipes_refl: "no_request (pipes w) \<Longrightarrow> only_pipes w w"
  unfolding only_pipes_def by (intro exI [of _ "pipes w"]) simp

lemma only_pipes_trans: "only_pipes w u \<Longrightarrow> only_pipes u w' \<Longrightarrow> only_pipes w w'"
  by (auto simp: only_pipes_def)

lemma only_pipesD: "only_pipes w w' \<Longrightarrow> no_request (pipes w') \<and> target_is_running w' = target_is_running w"
  by (auto simp: only_pipes_def)

lemma write_no_request: "b \<noteq> ch_U \<Longrightarrow> no_request (pipes w) \<Longrightarrow> only_pipes w (write_pipe fd b w)"
  unfolding write_pipe_def by (rule only_pipesI) (auto simp: no_request_def)

lemma notify_no_request: "b \<noteq> ch_U \<Longrightarrow> no_request (pipes w) \<Longrightarrow> only_pipes w (notify_listeners b w)"
proof -
  assume b: "b \<noteq> ch_U"
  have "no_request (pipes u) \<Longrightarrow> only_pipes u (fold (\<lambda>conn. write_pipe (m2s_wr conn) b) conns u)" for conns u
    by (induction conns arbitrary: u)
      (simp_all add: only_pipes_refl, meson b only_pipesD only_pipes_trans write_no_request)
  then show "no_request (pipes w) \<Longrightarrow> only_pipes w (notify_listeners b w)" by (simp add: notify_listeners_def)
qed

lemma take_no_request: "take_from fd ps = Some (Some (b, ps')) \<Longrightarrow> no_request ps \<Longrightarrow> b \<noteq> ch_U \<and> no_request ps'"
  by (induction ps arbitrary: ps') (auto simp: no_request_def split: if_splits list.splits option.splits)

lemma read_no_request: "read_pipe fd w = Some (b, w') \<Longrightarrow> no_request (pipes w) \<Longrightarrow> b \<noteq> Some ch_U \<and> only_pipes w w'"
  by (auto simp: read_pipe_def only_pipes_refl split: option.splits dest: take_no_request)
    (auto simp: only_pipes_def dest: take_no_request)

lemma command_no_request:
  "monitor_command c hw cmd w = Some w' \<Longrightarrow> cmd \<noteq> ch_U \<Longrightarrow> \<not> target_is_running w \<Longrightarrow> no_request (pipes w) \<Longrightarrow> only_pipes w w'"
  using notify_no_request [of ch_H w] by (auto simp: monitor_command_def ch_H_def ch_U_def only_pipes_refl split: if_splits)

lemma serve_no_request:
  "serve_connections c hw ready conns w = Some w' \<Longrightarrow> \<not> target_is_running w \<Longrightarrow> no_request (pipes w) \<Longrightarrow> only_pipes w w'"
proof (induction conns arbitrary: w)
  case Nil
  then show ?case by (simp add: only_pipes_refl)
next
  case (Cons conn conns)
  show ?case
  proof (cases "s2m_rd conn \<in> set ready")
    case True
    with Cons.prems(1) obtain b u v where u: "read_pipe (s2m_rd conn) w = Some (b, u)"
      and v: "(case b of Some cmd \<Rightarrow> monitor_command c hw cmd u | None \<Rightarrow> Some u) = Some v"
      and rest: "serve_connections c hw ready conns v = Some w'"
      by (auto split: Option.bind_splits)
    note ru = read_no_request [OF u Cons.prems(3)]
    then have "\<not> target_is_running u" "no_request (pipes u)" using only_pipesD Cons.prems(2) by blast+
    with v ru have "only_pipes u v" by (auto simp: only_pipes_refl command_no_request split: option.splits)
    then have "only_pipes w v" using ru only_pipes_trans by blast
    moreover have "only_pipes v w'" using Cons.IH [OF rest] calculation only_pipesD Cons.prems(2) by blast
    ultimately show ?thesis by (rule only_pipes_trans)
  qed (use Cons in simp)
qed

lemma pass_no_request:
  assumes "target_handler_pass c hw sel b w = Some w'" "\<not> target_is_running w" "no_request (pipes w)" "\<not> pipes_mutex w"
  shows "only_pipes w w'"
proof -
  have free: "w\<lparr>pipes_mutex := False\<rparr> = w" using assms(4) by (cases w) simp
  show ?thesis
  proof (cases sel)
    case (Select_ready ready)
    then obtain u where "serve_connections c hw ready (connections w) (w\<lparr>pipes_mutex := True\<rparr>) = Some u"
      and w': "w' = u\<lparr>pipes_mutex := False\<rparr>"
      using assms(1,4) by (auto simp: target_handler_pass_def lock_pipes_def unlock_pipes_def split: Option.bind_splits)
    then have "only_pipes (w\<lparr>pipes_mutex := True\<rparr>) u" using serve_no_request assms(2,3) by fastforce
    then obtain ps where "u = w\<lparr>pipes_mutex := True, pipes := ps\<rparr>" "no_request ps" by (auto simp: only_pipes_def)
    then have "w' = w\<lparr>pipes := ps\<rparr>" using assms(4) unfolding w' by (cases w) simp
    with \<open>no_request ps\<close> show ?thesis by (simp add: only_pipesI)
  qed (use assms free in \<open>auto simp: target_handler_pass_def lock_pipes_def unlock_pipes_def poll_target_def only_pipes_refl\<close>)
qed

lemma passes_no_request:
  fixes w :: "('s, 'z) bridge_scheme"
  shows "interleaved c hw [] w w' \<Longrightarrow> \<not> target_is_running w \<Longrightarrow> no_request (pipes w) \<Longrightarrow> \<not> pipes_mutex w \<Longrightarrow> only_pipes w w'"
proof (induction "[] :: (('s, 'z) bridge_scheme \<Rightarrow> ('s, 'z) bridge_scheme option) list" w w' rule: interleaved.induct)
  case (il_pass sel b w u w')
  then have "only_pipes w u" using pass_no_request by blast
  moreover have "only_pipes u w'" using il_pass calculation by (auto simp: only_pipes_def)
  ultimately show ?case by (rule only_pipes_trans)
qed (simp add: only_pipes_refl)

lemma interleaved_call:
  "interleaved c hw (f # fs) w w' \<Longrightarrow> \<exists>u v. interleaved c hw [] w u \<and> f u = Some v \<and> interleaved c hw fs v w'"
proof (induction "f # fs" w w' rule: interleaved.induct)
  case (il_call w u w')
  then show ?case using il_done by blast
next
  case (il_pass sel b w u w')
  then show ?case using interleaved.il_pass by blast
qed

lemma call_no_request:
  assumes "interleaved c hw (f # fs) w w'" "\<not> target_is_running w" "no_request (pipes w)" "\<not> pipes_mutex w"
  obtains ps v where "f (w\<lparr>pipes := ps\<rparr>) = Some v" "no_request ps" "interleaved c hw fs v w'"
proof -
  obtain u v where u: "interleaved c hw [] w u" "f u = Some v" "interleaved c hw fs v w'"
    using interleaved_call [OF assms(1)] by blast
  from passes_no_request [OF u(1) assms(2-4)] u(2,3) that show thesis by (auto simp: only_pipes_def)
qed

lemma no_request_close: "no_request (pipes w) \<Longrightarrow> no_request (pipes (close_fd fd w))"
  by (auto simp: close_fd_def no_request_def)

lemma unregister_found:
  assumes "unregister_with_monitor_thread fds w = Some (fds', w')" "0 \<le> fst fds" "0 \<le> snd fds" "find_conn fds (connections w) \<noteq> None"
    "no_request (pipes w)"
  shows "fds' = (-1, -1) \<and> jtag w' = jtag w \<and> target_is_running w' = target_is_running w \<and> \<not> pipes_mutex w' \<and> no_request (pipes w')"
  using assms
  by (auto simp: unregister_with_monitor_thread_def lock_pipes_def unlock_pipes_def Let_def no_request_close
      split: Option.bind_splits if_splits)

lemma close_no_request:
  assumes "rsp_client_close c hw w = Some w'" "0 \<le> fst (pipe_fds w)" "0 \<le> snd (pipe_fds w)"
    "find_conn (pipe_fds w) (connections w) \<noteq> None" "no_request (pipes w)" "\<not> target_running w" "\<not> target_is_running w"
  shows "pipe_fds w' = (-1, -1) \<and> client_fd w' = -1 \<and> \<not> target_is_running w' \<and> \<not> pipes_mutex w' \<and> no_request (pipes w')
     \<and> (\<exists>e. dbg_cpu0_write c hw SPR_DSR 0 (jtag w) = Some (e, jtag w'))"
proof -
  from assms(1,6) obtain e st fds w2 where
    st: "dbg_cpu0_write c hw SPR_DSR 0 (jtag w) = Some (e, st)" and
    un: "unregister_with_monitor_thread (pipe_fds w) (w\<lparr>jtag := st\<rparr>) = Some (fds, w2)" and
    w': "w' = (if client_fd w2 \<noteq> -1 then w2\<lparr>pipe_fds := fds, client_fd := -1\<rparr> else w2\<lparr>pipe_fds := fds\<rparr>)"
    by (auto simp: rsp_client_close_def on_jtag_def Let_def split: Option.bind_splits if_splits)
  from unregister_found [OF un] assms(2-5,7) st show ?thesis by (auto simp: w')
qed

text \<open>
  C23. Detaching does not let the CPU run. On the packet \<open>D\<close> the server answers, closes the connection
  and then asks for the CPU to be unstalled, but closing has unregistered it from the monitor and
  cleared its pipes (the comment there says that this must come after the last call of
  \<open>set_stall_state\<close>). From a state with the CPU stopped and no request to run in any pipe, and whatever
  passes of the monitor thread come before, between and after the three calls: when they have been made
  the client is closed, the CPU is noted as stopped, and the only access to the hardware in all this time has
  been the one that clears the register DSR. So the CPU has not been started, and it never is by a later pass.
\<close>

theorem detach_leaves_cpu_stalled:
  assumes "link_up w" "incoming w = Rd_char 0x2b # as" "\<not> target_running w" "\<not> target_is_running w" "\<not> pipes_mutex w"
    and "0 \<le> fst (pipe_fds w)" "0 \<le> snd (pipe_fds w)" "find_conn (pipe_fds w) (connections w) \<noteq> None"
    and "\<forall>p \<in> set (pipes w). rd_end p \<noteq> -1 \<and> wr_end p \<noteq> -1 \<and> ch_U \<notin> set (in_pipe p)"
    and "interleaved c hw (detach_calls c hw) w w'"
  shows "client_fd w' = -1 \<and> \<not> target_is_running w' \<and> (\<exists>e. dbg_cpu0_write c hw SPR_DSR 0 (jtag w) = Some (e, jtag w'))"
proof -
  have quiet: "no_request (pipes w)" using assms(9) by (simp add: no_request_def)
  obtain ps1 v1 where v1: "reply c hw ''OK'' (w\<lparr>pipes := ps1\<rparr>) = Some v1" "no_request ps1"
    "interleaved c hw [rsp_client_close c hw, \<lambda>w. Some (set_stall_state False w)] v1 w'"
    using call_no_request [OF assms(10) [unfolded detach_calls_def] assms(4) quiet assms(5)] .
  have "link_up (w\<lparr>pipes := ps1\<rparr>)" "incoming (w\<lparr>pipes := ps1\<rparr>) = Rd_char 0x2b # as" using assms(1,2) by (simp_all add: link_up_def)
  from reply_up [OF this] v1(1) have v1': "v1 = w\<lparr>pipes := ps1, sent := sent w @ packet_chars (str ''OK''), incoming := as\<rparr>"
    by simp
  then have "\<not> target_is_running v1" "no_request (pipes v1)" "\<not> pipes_mutex v1" using assms(4,5) v1(2) by simp_all
  from call_no_request [OF v1(3) this] obtain ps2 v2 where
    v2: "rsp_client_close c hw (v1\<lparr>pipes := ps2\<rparr>) = Some v2" "no_request ps2" "interleaved c hw [\<lambda>w. Some (set_stall_state False w)] v2 w'" .
  have c: "pipe_fds v2 = (-1, -1)" "client_fd v2 = -1" "\<not> target_is_running v2" "\<not> pipes_mutex v2" "no_request (pipes v2)"
    "\<exists>e. dbg_cpu0_write c hw SPR_DSR 0 (jtag w) = Some (e, jtag v2)"
    using close_no_request [OF v2(1)] v2(2) assms(3-8) by (simp_all add: v1')
  obtain ps3 v3 where v3: "set_stall_state False (v2\<lparr>pipes := ps3\<rparr>) = v3" "no_request ps3" "interleaved c hw [] v3 w'"
    using call_no_request [OF v2(3) c(3,5,4)] by auto
  have "map (\<lambda>p. if wr_end p = -1 then p\<lparr>in_pipe := in_pipe p @ [ch_U]\<rparr> else p) ps3 = ps3"
    using v3(2) by (intro map_idI) (auto simp: no_request_def)
  then have v3': "v3 = v2\<lparr>use_cached_npc := False, pipes := ps3\<rparr>"
    using v3(1) c(1) by (auto simp: set_stall_state_def write_pipe_def Let_def)
  then have "only_pipes v3 w'" using passes_no_request [OF v3(3)] c(3,4) v3(2) by simp
  then show ?thesis using v3' c by (auto simp: only_pipes_def)
qed

theorem detach_leaves_cpu_stalled_witness:
  "\<exists>w'. interleaved unplugged DBG_HW_ADVANCED (detach_calls unplugged DBG_HW_ADVANCED)
        ((lone [Rd_char 0x2b])\<lparr>pipes := [\<lparr>rd_end = 5, wr_end = 6, in_pipe = []\<rparr>, \<lparr>rd_end = 7, wr_end = 8, in_pipe = []\<rparr>],
            connections := [\<lparr>s2m_rd = 5, s2m_wr = 6, m2s_rd = 7, m2s_wr = 8\<rparr>], pipe_fds := (6, 7)\<rparr>) w'
     \<and> client_fd w' = -1 \<and> \<not> target_is_running w'"
proof -
  let ?conn = "\<lparr>s2m_rd = 5, s2m_wr = 6, m2s_rd = 7, m2s_wr = 8\<rparr>"
  let ?w = "(lone [Rd_char 0x2b])\<lparr>pipes := [\<lparr>rd_end = 5, wr_end = 6, in_pipe = []\<rparr>, \<lparr>rd_end = 7, wr_end = 8, in_pipe = []\<rparr>],
            connections := [?conn], pipe_fds := (6, 7)\<rparr>"
  have hyps: "link_up ?w" "incoming ?w = [Rd_char 0x2b]" "\<not> target_running ?w" "\<not> target_is_running ?w" "\<not> pipes_mutex ?w"
    by (simp_all add: link_up_def lone_def)
  have "\<exists>w'. run_calls (detach_calls unplugged DBG_HW_ADVANCED) ?w = Some w'"
    using hyps(1-3) by (simp add: detach_calls_def reply_up [OF hyps(1,2)] rsp_client_close_def on_jtag_def
        unregister_with_monitor_thread_def lock_pipes_def unlock_pipes_def Let_def)
      (simp add: lone_def is_conn_def close_fd_def)
  then obtain w' where w': "interleaved unplugged DBG_HW_ADVANCED (detach_calls unplugged DBG_HW_ADVANCED) ?w w'"
    using interleaved_calls by blast
  from detach_leaves_cpu_stalled [OF hyps _ _ _ _ w'] w' show ?thesis by (auto simp: is_conn_def ch_U_def)
qed

subsection \<open>Writing all registers\<close>

text \<open>The packet GDB sends: \<open>G\<close> and the eight digits of each register.\<close>

definition all_regs_packet :: "u32 list \<Rightarrow> u8 list" where
  "all_regs_packet vs = chr CHR ''G'' # concat (map (\<lambda>v. take 8 (reg2hex v)) vs)"

lemma reg_digits:
  "r < length vs \<Longrightarrow> i < 8 \<Longrightarrow> concat (map (\<lambda>v. take 8 (reg2hex v)) vs) ! (r * 8 + i) = hexchar (drop_bit (28 - i * 4) (vs ! r))"
proof (induction vs arbitrary: r)
  case (Cons v vs)
  then show ?case by (cases r) (simp_all add: nth_append reg2hex_def)
qed simp

lemma length_all_regs [simp]: "length (all_regs_packet vs) = Suc (length vs * 8)"
proof -
  have "length (concat (map (\<lambda>v. take 8 (reg2hex v)) vs)) = length vs * 8" by (induction vs) simp_all
  then show ?thesis by (simp add: all_regs_packet_def)
qed

lemma slice_Suc_digits:
  assumes "d 0 = x" "\<And>i. i < 7 \<Longrightarrow> d (Suc i) = hexchar (drop_bit (28 - i * 4) v)"
  shows "slice_at d 0 8 = [x, hexchar (drop_bit 28 v), hexchar (drop_bit 24 v), hexchar (drop_bit 20 v),
    hexchar (drop_bit 16 v), hexchar (drop_bit 12 v), hexchar (drop_bit 8 v), hexchar (drop_bit 4 v)]"
  using assms(1) assms(2) [of 0] assms(2) [of 1] assms(2) [of 2] assms(2) [of 3] assms(2) [of 4] assms(2) [of 5]
    assms(2) [of 6]
  by (simp add: slice_at_def upt_rec eval_nat_numeral)

lemma shifted_nibbles:
  "push_bit 24 (take_bit 4 (drop_bit 28 v)) OR push_bit 20 (take_bit 4 (drop_bit 24 v))
     OR push_bit 16 (take_bit 4 (drop_bit 20 v)) OR push_bit 12 (take_bit 4 (drop_bit 16 v))
     OR push_bit 8 (take_bit 4 (drop_bit 12 v)) OR push_bit 4 (take_bit 4 (drop_bit 8 v))
     OR take_bit 4 (drop_bit 4 v) = drop_bit 4 v" (is "?v = _")
  for v :: u32
proof (rule bit_word_eqI)
  fix k assume "k < LENGTH(32)"
  then have "k \<ge> 28 \<or> 24 \<le> k \<and> k < 28 \<or> 20 \<le> k \<and> k < 24 \<or> 16 \<le> k \<and> k < 20 \<or>
      12 \<le> k \<and> k < 16 \<or> 8 \<le> k \<and> k < 12 \<or> 4 \<le> k \<and> k < 8 \<or> k < 4" by auto
  with \<open>k < LENGTH(32)\<close> show "bit ?v k = bit (drop_bit 4 v) k"
    by (elim disjE) (auto simp: bit_or_iff bit_push_bit_iff bit_take_bit_iff bit_drop_bit_eq dest: bit_imp_le_length)
qed

lemma hex2reg_shifted:
  "hex2reg [x, hexchar (drop_bit 28 v), hexchar (drop_bit 24 v), hexchar (drop_bit 20 v), hexchar (drop_bit 16 v),
      hexchar (drop_bit 12 v), hexchar (drop_bit 8 v), hexchar (drop_bit 4 v)]
     = Some (push_bit 28 (word_of_int (hex (uint x))) OR drop_bit 4 v)" for v :: u32
proof -
  have "[0..<8] = [0, 1, 2, 3, 4, 5, 6, 7 :: nat]" by (simp add: upt_rec)
  then show ?thesis using shifted_nibbles [of v] by (simp add: hex2reg_def or.assoc)
qed

text \<open>
  The packet that writes all registers is read one digit off. When GDB sends \<open>G\<close> and the digits of
  the register values \<open>vs\<close> (at most all that fit in the buffer), the value the server takes for
  register 0 is its true value shifted right by four bits with the top digit \<open>F\<close> from the letter \<open>G\<close>,
  and the value for every later one has as its top digit the lowest digit of the register before it:
  no register gets its value unless the digits happen to agree.
\<close>

theorem all_registers_misread:
  assumes "holds w (all_regs_packet vs)" "r < length vs"
  shows "reg_at w r = Some ((if r = 0 then 0xF0000000 else push_bit 28 (vs ! (r - 1))) OR drop_bit 4 (vs ! r))"
proof -
  let ?d = "\<lambda>i. pkt_data w (r * 8 + i)"
  have digit: "pkt_data w (Suc (q * 8 + i)) = hexchar (drop_bit (28 - i * 4) (vs ! q))" if "q < length vs" "i < 8" for q i
  proof -
    have "Suc (q * 8 + i) < length (all_regs_packet vs)" using that by simp
    from holds_nth [OF assms(1) this] show ?thesis using reg_digits [OF that] by (simp add: all_regs_packet_def)
  qed
  obtain x where x: "?d 0 = x"
    "push_bit 28 (word_of_int (hex (uint x))) = (if r = 0 then 0xF0000000 else push_bit 28 (vs ! (r - 1)))"
  proof (cases r)
    case 0
    moreover have "pkt_data w 0 = chr CHR ''G''" using holds_nth [OF assms(1), of 0] by (simp add: all_regs_packet_def)
    moreover have "push_bit 28 (word_of_int (hex (uint (chr CHR ''G'')))) = (0xF0000000 :: u32)" by code_simp
    ultimately show thesis using that by simp
  next
    case (Suc q)
    have "?d 0 = hexchar (vs ! q)" using digit [of q 7] assms(2) by (simp add: Suc)
    moreover have "push_bit 28 (take_bit 4 v) = push_bit 28 v" for v :: u32
      by (rule bit_word_eqI) (auto simp: bit_push_bit_iff bit_take_bit_iff)
    ultimately show thesis using that Suc by simp
  qed
  have "slice_at (pkt_data w) (r * 8) 8 = slice_at ?d 0 8" by (rule slice_at_eqI) simp_all
  then show ?thesis
    using slice_Suc_digits [where d = ?d, OF x(1), of "vs ! r"] digit [OF assms(2)] hex2reg_shifted [of x "vs ! r"] x(2)
    by (simp add: reg_at_def)
qed

theorem all_registers_misread_witness:
  "reg_at (with_packet (all_regs_packet [0x12345678, 0x9abcdef0])) 0 = Some 0xF1234567 \<and>
   reg_at (with_packet (all_regs_packet [0x12345678, 0x9abcdef0])) 1 = Some 0x89abcdef"
proof -
  have h: "holds (with_packet (all_regs_packet [0x12345678, 0x9abcdef0])) (all_regs_packet [0x12345678, 0x9abcdef0])"
    by (rule with_packet_holds) (simp add: GDB_BUF_MAX_def)
  show ?thesis
    using all_registers_misread [OF h, of 0] all_registers_misread [OF h, of 1] by simp
qed

end
