(* ===== verification/Hwp_Server.thy ===== *)
theory Hwp_Server
  imports Hwp_Link Rsp_Defects
begin

unbundle bit_operations_syntax

text \<open>
  hwp_server.c: the server for external programs that use the hardware watchpoints. The record
  \<open>process\<close> is the state of the whole bridge: what the RSP server and the monitor share, and the globals
  of hwp_server.c. \<open>hwp_in_use\<close> is a field of the part below, since the RSP server borrows from it. The
  endless loops of the thread are one pass each, over the answers of \<open>accept\<close> and \<open>select\<close>.
\<close>

record 's process = "'s rsp_bridge" +
  hwp_link :: hwp_link
  hwp_server_fd :: int
  hwp_pipe_fds :: "int \<times> int"
  hwp_portnum :: int
  hwp_server_running :: bool
  hwp_target_is_running :: bool
  use_cached_dmr2 :: bool
  cached_dmr2 :: u32

definition hwp_put ::
  "(hwp_link \<Rightarrow> hwp_link option) \<Rightarrow> ('s, 'z) process_scheme \<Rightarrow> ('s, 'z) process_scheme option" where
  "hwp_put f w = do { l \<leftarrow> f (hwp_link w); Some (w\<lparr>hwp_link := l\<rparr>) }"

definition hwp_reply :: "string \<Rightarrow> ('s, 'z) process_scheme \<Rightarrow> ('s, 'z) process_scheme option" where
  "hwp_reply s w = hwp_put (hwp_put_str_packet (hl_fd (hwp_link w)) s) w"

definition hwp_server_close :: "('s, 'z) process_scheme \<Rightarrow> ('s, 'z) process_scheme" where
  "hwp_server_close w = (if hwp_server_fd w \<noteq> -1 then w\<lparr>hwp_server_fd := -1\<rparr> else w)"

subsection \<open>Reports\<close>

text \<open>
  \<open>hexchars\<close> has sixteen digits and its terminator; a program counter of 272 or more indexes past its
  end. The packet is a string, so a terminator in it ends it.
\<close>

definition hwp_report_stop ::
  "'s jtag_cable_t \<Rightarrow> dbg_hw \<Rightarrow> ('s, 'z) process_scheme \<Rightarrow> ('s, 'z) process_scheme option" where
  "hwp_report_stop c hw w =
     do { (_, ppcval, w) \<leftarrow> cpu_read c hw SPR_PPC (junk w) w;
          (if drop_bit 4 ppcval > 16 then None
           else hwp_put (hwp_put_packet (hl_fd (hwp_link w))
                  (c_string [chr CHR ''S'', (hexchars @ [0]) ! unat (drop_bit 4 ppcval),
                             hexchars ! unat (ppcval mod 16)])) w) }"

definition hwp_report_run :: "('s, 'z) process_scheme \<Rightarrow> ('s, 'z) process_scheme option" where
  "hwp_report_run w = hwp_put (hwp_put_packet (hl_fd (hwp_link w)) (str ''RUN'')) w"

subsection \<open>Registers\<close>

definition hwp_request :: "('s, 'z) process_scheme \<Rightarrow> u8 list" where
  "hwp_request w = c_string_at (hl_data (hwp_link w)) 0"

definition hwp_send_reg :: "u32 \<Rightarrow> hwp_link \<Rightarrow> hwp_link option" where
  "hwp_send_reg tmp l =
     (let l = l\<lparr>hl_data := store_at (hl_data l) 0 (hwp_reg2hex tmp), hl_len := 8\<rparr> in
      hwp_put_packet (hl_fd l) (slice_at (hl_data l) 0 (hl_len l)) l)"

definition hwp_read_reg ::
  "'s jtag_cable_t \<Rightarrow> dbg_hw \<Rightarrow> ('s, 'z) process_scheme \<Rightarrow> ('s, 'z) process_scheme option" where
  "hwp_read_reg c hw w =
     (case do { s \<leftarrow> scan_char (chr CHR ''p'') (hwp_request w); scan_hex s } of
        None \<Rightarrow> hwp_reply ''E01'' w
      | Some (regnum, _) \<Rightarrow>
          do { (errcode, tmp, w) \<leftarrow> (if regnum = SPR_DMR2 \<and> use_cached_dmr2 w
                                    then Some (APP_ERR_NONE, cached_dmr2 w, w)
                                    else cpu_read c hw regnum (junk w) w);
               (if errcode = APP_ERR_NONE then hwp_put (hwp_send_reg tmp) w else hwp_reply ''E01'' w) })"

text \<open>Writing a control register of a watchpoint decides who may have the watchpoint.\<close>

definition mark_dcr :: "u32 \<Rightarrow> u32 \<Rightarrow> u8 list \<Rightarrow> u8 list" where
  "mark_dcr regnum val use =
     (if regnum \<ge> SPR_DCR 0 \<and> regnum \<le> SPR_DCR 7
      then (let dcridx = unat (regnum - SPR_DCR 0); cc = val AND 0x0E; ct = val AND 0xE0 in
            if cc = 0 \<or> ct = 0 then hwp_set_in_use dcridx 0 use else hwp_set_in_use dcridx 1 use)
      else use)"

definition hwp_write_reg ::
  "'s jtag_cable_t \<Rightarrow> dbg_hw \<Rightarrow> ('s, 'z) process_scheme \<Rightarrow> ('s, 'z) process_scheme option" where
  "hwp_write_reg c hw w =
     (case do { s \<leftarrow> scan_char (chr CHR ''P'') (hwp_request w);
                (regnum, s) \<leftarrow> scan_hex s;
                s \<leftarrow> scan_char (chr CHR ''='') s;
                valstr \<leftarrow> scan_word8 s;
                Some (regnum, valstr) } of
        None \<Rightarrow> hwp_reply ''E01'' w
      | Some (regnum, valstr) \<Rightarrow>
          do { val \<leftarrow> hwp_hex2reg valstr;
               (errcode, w) \<leftarrow> cpu_write c hw regnum val w;
               w \<leftarrow> (if errcode = APP_ERR_NONE then hwp_reply ''OK'' w else hwp_reply ''E01'' w);
               Some (w\<lparr>hwp_in_use := mark_dcr regnum val (hwp_in_use w)\<rparr>) })"

subsection \<open>Requests\<close>

definition hwp_client_request ::
  "'s jtag_cable_t \<Rightarrow> dbg_hw \<Rightarrow> ('s, 'z) process_scheme \<Rightarrow> ('s, 'z) process_scheme option" where
  "hwp_client_request c hw w =
     do { (ok, l) \<leftarrow> hwp_get_packet (hwp_link w);
          let w = w\<lparr>hwp_link := l\<rparr>;
          (if \<not> ok then Some (w\<lparr>hwp_link := hwp_client_close l\<rparr>)
           else if hl_data l 0 = chr CHR ''?'' then
             (if hwp_target_is_running w then hwp_report_run w else hwp_report_stop c hw w)
           else if hl_data l 0 = chr CHR ''p'' then hwp_read_reg c hw w
           else if hl_data l 0 = chr CHR ''P'' then hwp_write_reg c hw w
           else Some w) }"

subsection \<open>The thread\<close>

definition hwp_monitor_status :: "('s, 'z) process_scheme \<Rightarrow> ('s, 'z) process_scheme option" where
  "hwp_monitor_status w =
     do { (b, w) \<leftarrow> read_pipe (snd (hwp_pipe_fds w)) w;
          Some (if b = Some ch_H then w\<lparr>hwp_target_is_running := False\<rparr>
                else if b = Some ch_R then w\<lparr>hwp_target_is_running := True, use_cached_dmr2 := False\<rparr>
                else w) }"

text \<open>Errors of the \<open>fcntl\<close> calls on a new client are only warned about.\<close>

definition hwp_accept :: "int \<Rightarrow> ('s, 'z) process_scheme \<Rightarrow> ('s, 'z) process_scheme" where
  "hwp_accept fd w =
     (let w = w\<lparr>hwp_link := (hwp_link w)\<lparr>hl_fd := fd\<rparr>\<rparr> in
      if fd = -1 then w else w\<lparr>use_cached_dmr2 := False\<rparr>)"

text \<open>\<open>ready\<close> is what \<open>select\<close> leaves in the set. A client closed in this pass is in no set.\<close>

definition hwp_serve ::
  "'s jtag_cable_t \<Rightarrow> dbg_hw \<Rightarrow> select_result \<Rightarrow> ('s, 'z) process_scheme \<Rightarrow> ('s, 'z) process_scheme option" where
  "hwp_serve c hw sel w =
     (case sel of
        Select_ready ready \<Rightarrow>
          do { w \<leftarrow> (if snd (hwp_pipe_fds w) \<in> set ready then hwp_monitor_status w else Some w);
               (if hl_fd (hwp_link w) \<in> set ready then hwp_client_request c hw w else Some w) }
      | _ \<Rightarrow> Some w)"

text \<open>
  One pass of the thread: with no client it accepts one, with a client it serves it, and when the
  server has been stopped it closes the connection and ends.
\<close>

definition hwp_server_pass ::
  "'s jtag_cable_t \<Rightarrow> dbg_hw \<Rightarrow> int \<Rightarrow> select_result \<Rightarrow> ('s, 'z) process_scheme \<Rightarrow> ('s, 'z) process_scheme option" where
  "hwp_server_pass c hw fd sel w =
     (if \<not> hwp_server_running w then Some (w\<lparr>hwp_link := hwp_client_close (hwp_link w)\<rparr>)
      else if hl_fd (hwp_link w) = -1 then Some (hwp_accept fd w)
      else hwp_serve c hw sel w)"

definition hwp_server_start :: "bool \<Rightarrow> ('s, 'z) process_scheme \<Rightarrow> int \<times> ('s, 'z) process_scheme" where
  "hwp_server_start created w =
     (let w = w\<lparr>hwp_server_running := True\<rparr> in if \<not> created then (0, w) else (1, w))"

definition hwp_server_stop :: "('s, 'z) process_scheme \<Rightarrow> int \<times> ('s, 'z) process_scheme" where
  "hwp_server_stop w = (1, hwp_server_close (w\<lparr>hwp_server_running := False\<rparr>))"

subsection \<open>Initialisation\<close>

text \<open>
  The loop over the control registers; a watchpoint is there when its register reads with the lowest
  bit set. Whatever could not be read is in use.
\<close>

function hwp_probe ::
  "'s jtag_cable_t \<Rightarrow> dbg_hw \<Rightarrow> nat \<Rightarrow> nat \<Rightarrow> u32 \<Rightarrow> ('s, 'z) process_scheme \<Rightarrow> (nat \<times> ('s, 'z) process_scheme) option" where
  "hwp_probe c hw i status tmp w =
     (if i < HWP_MAX_WP then
        do { (errcode, tmp, w) \<leftarrow> cpu_read c hw (SPR_DCR (of_nat i)) tmp w;
             let present = (errcode = APP_ERR_NONE \<and> tmp AND 1 \<noteq> 0);
             hwp_probe c hw (i + 1) (if present then status + 1 else status) tmp
               (w\<lparr>hwp_in_use := hwp_set_in_use i (if present then 0 else 1) (hwp_in_use w)\<rparr>) }
      else Some (status, w))"
  by pat_completeness auto
termination by (relation "measure (\<lambda>(c, hw, i, status, tmp, w). HWP_MAX_WP - i)") auto

declare hwp_probe.simps [simp del]

text \<open>\<open>%i\<close>, and the port as it is handed to \<open>getaddrinfo\<close>: four characters at most.\<close>

fun digits_of :: "nat \<Rightarrow> string" where
  "digits_of n = (if n < 10 then [char_of (48 + n)] else digits_of (n div 10) @ [char_of (48 + n mod 10)])"

declare digits_of.simps [simp del]

definition decimal :: "int \<Rightarrow> string" where
  "decimal n = (if n < 0 then CHR ''-'' # digits_of (nat (- n)) else digits_of (nat n))"

definition hwp_port_string :: "int \<Rightarrow> string" where
  "hwp_port_string portNum = take 4 (decimal portNum)"

record hwp_answers =
  hwi_addrinfo :: "string \<Rightarrow> bool"
  hwi_socket :: int
  hwi_reuse :: bool
  hwi_bind :: bool
  hwi_listen :: bool
  hwi_pipe1 :: "(int \<times> int) option"
  hwi_pipe2 :: "(int \<times> int) option"

definition hwp_init ::
  "'s jtag_cable_t \<Rightarrow> dbg_hw \<Rightarrow> int \<Rightarrow> hwp_answers \<Rightarrow> ('s, 'z) process_scheme \<Rightarrow> (int \<times> ('s, 'z) process_scheme) option" where
  "hwp_init c hw portNum a w =
     do { (status, w) \<leftarrow> hwp_probe c hw 0 0 (junk w) w;
          (if status = 0 then Some (0, w)
           else
             (let w = w\<lparr>hwp_server_fd := -1, hwp_link := (hwp_link w)\<lparr>hl_fd := -1\<rparr>, hwp_portnum := portNum\<rparr> in
              if \<not> hwi_addrinfo a (hwp_port_string portNum) then Some (0, w)
              else
                (let w = w\<lparr>hwp_server_fd := hwi_socket a\<rparr> in
                 if hwi_socket a < 0 then Some (0, w)
                 else if \<not> hwi_reuse a \<or> \<not> hwi_bind a \<or> \<not> hwi_listen a then Some (0, hwp_server_close w)
                 else
                   do { (r, fds, w) \<leftarrow> register_with_monitor_thread (hwi_pipe1 a) (hwi_pipe2 a) (hwp_pipe_fds w) w;
                        let w = w\<lparr>hwp_pipe_fds := fds\<rparr>;
                        (if 0 > r then Some (0, hwp_server_close w) else Some (1, w)) }))) }"

end
