(* ===== verification/Jsp_Server.thy ===== *)
theory Jsp_Server
  imports Hwp_Server
begin

unbundle bit_operations_syntax

text \<open>
  jsp_server.c: a terminal on the serial port of the debug unit. Bytes from the client wait in one ring
  buffer until the hardware takes them, bytes of the hardware in another until the client takes them.
  The answers of \<open>recv\<close> and \<open>send\<close> still to come are in the state: bytes the client has sent, which one
  call takes as far as they fit; the end of the connection, which every further call reports again; an
  error, which \<open>EAGAIN\<close> is too, and which is the answer when there is nothing more.
\<close>

definition JSP_BUFFER_SIZE :: nat where "JSP_BUFFER_SIZE = 256"

record ring =
  rb_buf :: "u8 list"
  rb_rd :: nat
  rb_wr :: nat
  rb_count :: nat

datatype recv_answer = Rcv_bytes "u8 list" | Rcv_eof | Rcv_error

datatype send_answer = Snd_count nat | Snd_error

record 's jsp_process = "'s process" +
  jsp_server_fd :: int
  jsp_client_fd :: int
  jsp_pipe_fds :: "int \<times> int"
  jsp_hostname :: "u8 list"
  jsp_ipstr :: "u8 list"
  jsp_portnum :: int
  jsp_tohw :: ring
  jsp_fromhw :: ring
  jsp_server_running :: bool
  jsp_target_is_running :: bool
  jsp_recvs :: "recv_answer list"
  jsp_sends :: "send_answer list"
  jsp_out :: "u8 list"

subsection \<open>The ring buffers\<close>

text \<open>A block written to the buffer, up to its end at most; it is the target of one \<open>recv\<close>.\<close>

definition ring_space :: "ring \<Rightarrow> nat" where
  "ring_space r = min (JSP_BUFFER_SIZE - rb_wr r) (JSP_BUFFER_SIZE - rb_count r)"

definition ring_append :: "u8 list \<Rightarrow> ring \<Rightarrow> ring" where
  "ring_append bs r =
     r\<lparr>rb_buf := take (rb_wr r) (rb_buf r) @ bs @ drop (rb_wr r + length bs) (rb_buf r),
       rb_wr := (rb_wr r + length bs) mod JSP_BUFFER_SIZE, rb_count := rb_count r + length bs\<rparr>"

text \<open>A single byte, as the loop over the received bytes queues it, with no look at the room left.\<close>

definition ring_put :: "u8 \<Rightarrow> ring \<Rightarrow> ring" where
  "ring_put b r =
     r\<lparr>rb_buf := (rb_buf r)[rb_wr r := b], rb_wr := (rb_wr r + 1) mod JSP_BUFFER_SIZE, rb_count := rb_count r + 1\<rparr>"

definition ring_available :: "ring \<Rightarrow> nat" where
  "ring_available r = min (rb_count r) (JSP_BUFFER_SIZE - rb_rd r)"

definition ring_drop :: "nat \<Rightarrow> ring \<Rightarrow> ring" where
  "ring_drop n r = r\<lparr>rb_count := rb_count r - n, rb_rd := (rb_rd r + n) mod JSP_BUFFER_SIZE\<rparr>"

text \<open>The bytes from the read index on, with wrap-around.\<close>

definition ring_peek :: "nat \<Rightarrow> ring \<Rightarrow> u8 list" where
  "ring_peek n r = map (\<lambda>i. rb_buf r ! ((rb_rd r + i) mod JSP_BUFFER_SIZE)) [0..<n]"

definition ring_clear :: "ring \<Rightarrow> ring" where
  "ring_clear r = r\<lparr>rb_rd := 0, rb_wr := 0, rb_count := 0\<rparr>"

subsection \<open>The socket\<close>

text \<open>\<open>recv\<close> into \<open>space\<close> bytes: the bytes, or nothing when it fails.\<close>

fun recv_bytes :: "nat \<Rightarrow> recv_answer list \<Rightarrow> u8 list option \<times> recv_answer list" where
  "recv_bytes space [] = (None, [])"
| "recv_bytes space (Rcv_error # as) = (None, as)"
| "recv_bytes space (Rcv_eof # as) = (Some [], Rcv_eof # as)"
| "recv_bytes space (Rcv_bytes bs # as) =
     (Some (take space bs), if space < length bs then Rcv_bytes (drop space bs) # as else as)"

text \<open>\<open>send\<close> of \<open>len\<close> bytes: how many went out, or nothing when it fails.\<close>

fun send_count :: "nat \<Rightarrow> send_answer list \<Rightarrow> nat option \<times> send_answer list" where
  "send_count len [] = (Some len, [])"
| "send_count len (Snd_error # as) = (None, as)"
| "send_count len (Snd_count n # as) = (Some (min n len), as)"

text \<open>
  One of the two rounds of \<open>jsp_queue_data_from_client\<close>; whether it may go on to the next. A negative
  length, which a counter beyond the size of the buffer would make, is as \<open>size_t\<close> more than the buffer.
\<close>

definition jsp_recv ::
  "('s, 'z) jsp_process_scheme \<Rightarrow> (bool \<times> ('s, 'z) jsp_process_scheme) option" where
  "jsp_recv w =
     (if rb_count (jsp_tohw w) > JSP_BUFFER_SIZE \<or> rb_wr (jsp_tohw w) > JSP_BUFFER_SIZE then None
      else (let (r, as) = recv_bytes (ring_space (jsp_tohw w)) (jsp_recvs w); w = w\<lparr>jsp_recvs := as\<rparr> in
            case r of
              None \<Rightarrow> Some (False, w)
            | Some bs \<Rightarrow> Some (True, if bs \<noteq> [] then w\<lparr>jsp_tohw := ring_append bs (jsp_tohw w)\<rparr> else w)))"

definition jsp_queue_data_from_client ::
  "('s, 'z) jsp_process_scheme \<Rightarrow> ('s, 'z) jsp_process_scheme option" where
  "jsp_queue_data_from_client w =
     do { (ok, w) \<leftarrow> jsp_recv w;
          (if \<not> ok then Some w else do { (_, w) \<leftarrow> jsp_recv w; Some w }) }"

text \<open>One of the two rounds of \<open>jsp_send_data_to_client\<close>.\<close>

definition jsp_send :: "('s, 'z) jsp_process_scheme \<Rightarrow> ('s, 'z) jsp_process_scheme" where
  "jsp_send w =
     (if rb_count (jsp_fromhw w) > 0 then
        (let n = ring_available (jsp_fromhw w);
             (r, as) = send_count n (jsp_sends w);
             w = w\<lparr>jsp_sends := as\<rparr> in
         case r of
           None \<Rightarrow> w
         | Some k \<Rightarrow>
             w\<lparr>jsp_out := jsp_out w @ take k (drop (rb_rd (jsp_fromhw w)) (rb_buf (jsp_fromhw w))),
               jsp_fromhw := ring_drop k (jsp_fromhw w)\<rparr>)
      else w)"

definition jsp_send_data_to_client :: "('s, 'z) jsp_process_scheme \<Rightarrow> ('s, 'z) jsp_process_scheme" where
  "jsp_send_data_to_client w = jsp_send (jsp_send w)"

text \<open>The loop of \<open>jsp_send_all\<close>: each call starts from the front of the message again.\<close>

fun send_all :: "send_answer list \<Rightarrow> u8 list \<Rightarrow> nat \<Rightarrow> u8 list \<times> send_answer list" where
  "send_all [] msg sofar = (if sofar < length msg then msg else [], [])"
| "send_all (a # as) msg sofar =
     (if sofar < length msg then
        (case a of
           Snd_error \<Rightarrow> ([], as)
         | Snd_count n \<Rightarrow>
             (let k = min n (length msg); (out, as') = send_all as msg (sofar + k) in (take k msg @ out, as')))
      else ([], a # as))"

definition jsp_send_all :: "u8 list \<Rightarrow> ('s, 'z) jsp_process_scheme \<Rightarrow> ('s, 'z) jsp_process_scheme" where
  "jsp_send_all msg w =
     (let (out, as) = send_all (jsp_sends w) msg 0 in w\<lparr>jsp_out := jsp_out w @ out, jsp_sends := as\<rparr>)"

text \<open>The arrays are sent with their terminating zeros, the other strings without.\<close>

definition jsp_print_welcome :: "('s, 'z) jsp_process_scheme \<Rightarrow> ('s, 'z) jsp_process_scheme" where
  "jsp_print_welcome w =
     (let w = jsp_send_all (str ''Advanced Debug System JTAG Serial Port Server'' @ [0x0a, 0x0d, 0]) w;
          w = jsp_send_all (c_string (jsp_hostname w)) w;
          w = jsp_send_all (str '' ('' @ [0]) w;
          w = jsp_send_all (c_string (jsp_ipstr w)) w;
          w = jsp_send_all (str ''), port '' @ [0]) w
      in jsp_send_all (take 22 (str (decimal (jsp_portnum w)) @ [0x0a, 0x0a, 0x0d])) w)"

subsection \<open>The hardware\<close>

text \<open>\<open>rcvbuf\<close> has room for eight bytes.\<close>

definition jsp_hardware_transact ::
  "'s jtag_cable_t \<Rightarrow> ('s, 'z) jsp_process_scheme \<Rightarrow> ('s, 'z) jsp_process_scheme option" where
  "jsp_hardware_transact c w =
     (let bytes_to_send = (if rb_count (jsp_tohw w) > 8 then 8 else rb_count (jsp_tohw w));
          sendbuf = ring_peek bytes_to_send (jsp_tohw w)
      in do { (ret, r, w) \<leftarrow> on_jtag2 (dbg_serial_sndrcv c bytes_to_send sendbuf) w;
              (if ret \<noteq> APP_ERR_NONE then Some w
               else
                 do { (rcvbuf, sent) \<leftarrow> r;
                      (if length rcvbuf > 8 then None
                       else Some (w\<lparr>jsp_tohw := ring_drop sent (jsp_tohw w),
                                    jsp_fromhw := fold ring_put rcvbuf (jsp_fromhw w)\<rparr>)) }) })"

subsection \<open>The thread\<close>

definition jsp_server_close :: "('s, 'z) jsp_process_scheme \<Rightarrow> ('s, 'z) jsp_process_scheme" where
  "jsp_server_close w = (if jsp_server_fd w \<noteq> -1 then w\<lparr>jsp_server_fd := -1\<rparr> else w)"

definition jsp_client_close :: "('s, 'z) jsp_process_scheme \<Rightarrow> ('s, 'z) jsp_process_scheme" where
  "jsp_client_close w = (if jsp_client_fd w \<noteq> -1 then w\<lparr>jsp_client_fd := -1\<rparr> else w)"

definition jsp_accept :: "int \<Rightarrow> ('s, 'z) jsp_process_scheme \<Rightarrow> ('s, 'z) jsp_process_scheme" where
  "jsp_accept fd w =
     (let w = w\<lparr>jsp_client_fd := fd\<rparr> in
      if fd = -1 then w
      else jsp_print_welcome (w\<lparr>jsp_tohw := ring_clear (jsp_tohw w), jsp_fromhw := ring_clear (jsp_fromhw w)\<rparr>))"

definition jsp_monitor_status :: "('s, 'z) jsp_process_scheme \<Rightarrow> ('s, 'z) jsp_process_scheme option" where
  "jsp_monitor_status w =
     do { (b, w) \<leftarrow> read_pipe (snd (jsp_pipe_fds w)) w;
          Some (if b = Some ch_H then w\<lparr>jsp_target_is_running := False\<rparr>
                else if b = Some ch_R then w\<lparr>jsp_target_is_running := True\<rparr>
                else w) }"

text \<open>One pass of the inner loop, over the answer of \<open>select\<close>.\<close>

definition jsp_serve ::
  "'s jtag_cable_t \<Rightarrow> select_result \<Rightarrow> ('s, 'z) jsp_process_scheme \<Rightarrow> ('s, 'z) jsp_process_scheme option" where
  "jsp_serve c sel w =
     do { w \<leftarrow> (case sel of
                 Select_ready ready \<Rightarrow>
                   do { w \<leftarrow> (if snd (jsp_pipe_fds w) \<in> set ready then jsp_monitor_status w else Some w);
                        (if jsp_client_fd w \<in> set ready then jsp_queue_data_from_client w else Some w) }
               | _ \<Rightarrow> Some w);
          let w = jsp_send_data_to_client w;
          (if jsp_target_is_running w then jsp_hardware_transact c w else Some w) }"

definition jsp_server_pass ::
  "'s jtag_cable_t \<Rightarrow> int \<Rightarrow> select_result \<Rightarrow> ('s, 'z) jsp_process_scheme \<Rightarrow> ('s, 'z) jsp_process_scheme option" where
  "jsp_server_pass c fd sel w =
     (if \<not> jsp_server_running w then Some (jsp_client_close w)
      else if jsp_client_fd w = -1 then Some (jsp_accept fd w)
      else jsp_serve c sel w)"

definition jsp_server_start :: "bool \<Rightarrow> ('s, 'z) jsp_process_scheme \<Rightarrow> int \<times> ('s, 'z) jsp_process_scheme" where
  "jsp_server_start created w =
     (let w = w\<lparr>jsp_server_running := True\<rparr> in if \<not> created then (0, w) else (1, w))"

definition jsp_server_stop :: "('s, 'z) jsp_process_scheme \<Rightarrow> int \<times> ('s, 'z) jsp_process_scheme" where
  "jsp_server_stop w = (1, jsp_server_close (w\<lparr>jsp_server_running := False\<rparr>))"

text \<open>
  The names are what \<open>gethostname\<close> (nothing when it fails) and \<open>inet_ntop\<close> give; the other answers are
  those \<open>hwp_init\<close> gets too.
\<close>

definition jsp_init ::
  "int \<Rightarrow> hwp_answers \<Rightarrow> u8 list option \<Rightarrow> u8 list \<Rightarrow> ('s, 'z) jsp_process_scheme \<Rightarrow> ('s, 'z) jsp_process_scheme option" where
  "jsp_init portNum a host ip w =
     (let w = w\<lparr>jsp_server_fd := -1, jsp_client_fd := -1, jsp_portnum := portNum\<rparr> in
      if \<not> hwi_addrinfo a (hwp_port_string portNum) then Some w
      else
        (let w = w\<lparr>jsp_ipstr := ip, jsp_hostname := (case host of Some h \<Rightarrow> h | None \<Rightarrow> [0]),
                   jsp_server_fd := hwi_socket a\<rparr> in
         if hwi_socket a < 0 then Some w
         else if \<not> hwi_reuse a \<or> \<not> hwi_bind a \<or> \<not> hwi_listen a then Some (jsp_server_close w)
         else
           do { (r, fds, w) \<leftarrow> register_with_monitor_thread (hwi_pipe1 a) (hwi_pipe2 a) (jsp_pipe_fds w) w;
                let w = w\<lparr>jsp_pipe_fds := fds\<rparr>;
                Some (if 0 > r then jsp_server_close w else w) }))"

end
