(* ===== verification/Hwp_Requests.thy ===== *)
theory Hwp_Requests
  imports Hwp_Server
begin

unbundle bit_operations_syntax

text \<open>
  What the requests of the HWP server do, what all threads of the process keep together, and where the
  two servers disagree about who has a watchpoint.
\<close>

subsection \<open>The invariant with all threads\<close>

lemma rsp_inv_hwp [simp]:
  "rsp_inv (w\<lparr>hwp_link := l\<rparr>) = rsp_inv w" "rsp_inv (w\<lparr>hwp_server_fd := fd\<rparr>) = rsp_inv w"
  "rsp_inv (w\<lparr>hwp_pipe_fds := fds\<rparr>) = rsp_inv w" "rsp_inv (w\<lparr>hwp_server_running := b\<rparr>) = rsp_inv w"
  "rsp_inv (w\<lparr>hwp_target_is_running := b\<rparr>) = rsp_inv w" "rsp_inv (w\<lparr>use_cached_dmr2 := b\<rparr>) = rsp_inv w"
  "rsp_inv (w\<lparr>hwp_portnum := n\<rparr>) = rsp_inv w" "rsp_inv (hwp_server_close w) = rsp_inv w"
  by (simp_all add: rsp_inv_def hwp_server_close_def)

lemma hwp_put_safe: "rsp_inv w \<Longrightarrow> safe (hwp_put f w)"
  by (cases "f (hwp_link w)") (simp_all add: hwp_put_def)

lemma hwp_reply_safe: "rsp_inv w \<Longrightarrow> safe (hwp_reply s w)"
  by (simp add: hwp_reply_def hwp_put_safe)

lemma length_set_in_use [simp]: "length (hwp_set_in_use wp b use) = length use"
  by (simp add: hwp_set_in_use_def)

lemma length_mark_dcr [simp]: "length (mark_dcr regnum val use) = length use"
  by (simp add: mark_dcr_def Let_def)

lemma rsp_inv_in_use: "rsp_inv w \<Longrightarrow> length use = length (hwp_in_use w) \<Longrightarrow> rsp_inv (w\<lparr>hwp_in_use := use\<rparr>)"
  by (simp add: rsp_inv_def)

lemma cpu_read_inv: "cpu_read c hw adr old w = Some (e, v, w') \<Longrightarrow> rsp_inv w \<Longrightarrow> rsp_inv w'"
  using cpu_read_quiet rsp_inv_quiet by (metis quietly_simps(6))

lemma cpu_write_inv: "cpu_write c hw adr v w = Some (e, w') \<Longrightarrow> rsp_inv w \<Longrightarrow> rsp_inv w'"
  using cpu_write_quiet rsp_inv_quiet by (metis quietly_simps(4))

lemma hwp_read_reg_safe: "rsp_inv w \<Longrightarrow> safe (hwp_read_reg c hw w)"
  by (auto simp: hwp_read_reg_def hwp_reply_safe hwp_put_safe split: option.splits Option.bind_splits if_splits
      dest: cpu_read_inv intro!: safe_bind3 [OF cpu_read_quiet])

lemma hwp_write_reg_safe: "rsp_inv w \<Longrightarrow> safe (hwp_write_reg c hw w)"
proof -
  have tail: "safe ((if e = APP_ERR_NONE then hwp_reply ''OK'' u else hwp_reply ''E01'' u) \<bind>
      (\<lambda>w. Some (w\<lparr>hwp_in_use := mark_dcr r v (hwp_in_use w)\<rparr>)))"
    if "rsp_inv u" for e r v and u :: "('a, 'b) process_scheme"
    using that by (auto intro!: safe_first [OF hwp_reply_safe] rsp_inv_in_use)
  assume inv: "rsp_inv w"
  have "safe (do { val \<leftarrow> hwp_hex2reg valstr;
               (errcode, w) \<leftarrow> cpu_write c hw r val w;
               w \<leftarrow> (if errcode = APP_ERR_NONE then hwp_reply ''OK'' w else hwp_reply ''E01'' w);
               Some (w\<lparr>hwp_in_use := mark_dcr r val (hwp_in_use w)\<rparr>) })" for valstr r
    by (cases "hwp_hex2reg valstr") (auto intro!: safe_bind2 [OF cpu_write_quiet inv] tail)
  then show ?thesis
    unfolding hwp_write_reg_def by (auto simp: hwp_reply_safe inv split: option.splits)
qed

lemma hwp_report_safe: "rsp_inv w \<Longrightarrow> safe (hwp_report_stop c hw w)" "rsp_inv w \<Longrightarrow> safe (hwp_report_run w)"
  by (auto simp: hwp_report_stop_def hwp_report_run_def hwp_put_safe intro!: safe_bind3 [OF cpu_read_quiet])

lemma hwp_client_request_safe: "rsp_inv w \<Longrightarrow> safe (hwp_client_request c hw w)"
  by (cases "hwp_get_packet (hwp_link w)")
    (auto simp: hwp_client_request_def Let_def hwp_report_safe hwp_read_reg_safe hwp_write_reg_safe)

lemma read_pipe_inv: "read_pipe fd w = Some (b, w') \<Longrightarrow> rsp_inv w \<Longrightarrow> rsp_inv w'"
  by (auto simp: read_pipe_def split: option.splits)

lemma hwp_monitor_status_safe: "rsp_inv w \<Longrightarrow> safe (hwp_monitor_status w)"
  by (cases "read_pipe (snd (hwp_pipe_fds w)) w") (auto simp: hwp_monitor_status_def dest: read_pipe_inv)

lemma hwp_server_pass_safe: "rsp_inv w \<Longrightarrow> safe (hwp_server_pass c hw fd sel w)"
proof -
  assume inv: "rsp_inv w"
  then have "safe (hwp_serve c hw sel w)"
    by (cases sel) (auto simp: hwp_serve_def hwp_client_request_safe intro!: safe_first [OF hwp_monitor_status_safe])
  with inv show ?thesis by (simp add: hwp_server_pass_def hwp_accept_def Let_def)
qed

lemma hwp_probe_step:
  "i < HWP_MAX_WP \<Longrightarrow> cpu_read c hw (SPR_DCR (of_nat i)) tmp w = Some (e, v, u) \<Longrightarrow>
     hwp_probe c hw i status tmp w =
       (let present = (e = APP_ERR_NONE \<and> v AND 1 \<noteq> 0) in
        hwp_probe c hw (i + 1) (if present then status + 1 else status) v
          (u\<lparr>hwp_in_use := hwp_set_in_use i (if present then 0 else 1) (hwp_in_use u)\<rparr>))"
  by (subst hwp_probe.simps) simp

lemma hwp_probe_inv: "hwp_probe c hw i status tmp w = Some (n, w') \<Longrightarrow> rsp_inv w \<Longrightarrow> rsp_inv w'"
proof (induction c hw i status tmp w rule: hwp_probe.induct)
  case (1 c hw i status tmp w)
  show ?case
  proof (cases "i < HWP_MAX_WP")
    case True
    with "1.prems" obtain e v u where rd: "cpu_read c hw (SPR_DCR (of_nat i)) tmp w = Some (e, v, u)"
      by (subst (asm) hwp_probe.simps) (auto split: Option.bind_splits)
    have "rsp_inv u" using cpu_read_inv [OF rd "1.prems"(2)] .
    then show ?thesis
      using "1.prems"(1) "1.IH" [OF True rd refl refl refl] unfolding hwp_probe_step [OF True rd]
      by (simp add: Let_def rsp_inv_in_use)
  next
    case False
    with "1.prems" show ?thesis by (subst (asm) hwp_probe.simps) simp
  qed
qed

lemma hwp_init_inv: "hwp_init c hw n a w = Some (r, w') \<Longrightarrow> rsp_inv w \<Longrightarrow> rsp_inv w'"
  by (auto simp: hwp_init_def Let_def split: Option.bind_splits if_splits dest!: hwp_probe_inv register_inv)

text \<open>
  The three threads, interleaved between calls: \<open>bridge_step\<close> with the HWP server beside the RSP server
  and the monitor.
\<close>

inductive process_step :: "'s jtag_cable_t \<Rightarrow> dbg_hw \<Rightarrow> 's process \<Rightarrow> 's process \<Rightarrow> bool" for c hw where
  ps_rsp: "handle_rsp c hw polls p w = Some (r, w') \<Longrightarrow> process_step c hw w w'"
| ps_monitor: "target_handler_pass c hw sel b w = Some w' \<Longrightarrow> process_step c hw w w'"
| ps_hwp_init: "hwp_init c hw portNum a w = Some (r, w') \<Longrightarrow> process_step c hw w w'"
| ps_hwp_start: "hwp_server_start created w = (r, w') \<Longrightarrow> process_step c hw w w'"
| ps_hwp: "hwp_server_pass c hw fd sel w = Some w' \<Longrightarrow> process_step c hw w w'"
| ps_hwp_stop: "hwp_server_stop w = (r, w') \<Longrightarrow> process_step c hw w w'"
| ps_register: "register_with_monitor_thread p1 p2 fds w = Some (r, fds', w') \<Longrightarrow> process_step c hw w w'"
| ps_unregister: "unregister_with_monitor_thread fds w = Some (fds', w') \<Longrightarrow> process_step c hw w w'"

lemma process_step_inv: "process_step c hw w w' \<Longrightarrow> rsp_inv w \<Longrightarrow> rsp_inv w'"
proof (induction rule: process_step.induct)
  case (ps_rsp polls p w r w')
  then show ?case using handle_rsp_inv by blast
next
  case (ps_monitor sel b w w')
  then show ?case using target_handler_pass_safe unfolding safe_def by blast
next
  case (ps_hwp fd sel w w')
  then show ?case using hwp_server_pass_safe unfolding safe_def by blast
next
  case (ps_register p1 p2 fds w r fds' w')
  then show ?case by (simp add: register_inv)
next
  case (ps_unregister fds w fds' w')
  then show ?case by (auto elim!: unregister_cases)
qed (auto simp: hwp_init_inv hwp_server_start_def hwp_server_stop_def Let_def split: if_splits)

text \<open>
  All threads of the bridge. From a state in which the matchpoint table and the pool are well-formed,
  no interleaving of calls of \<open>handle_rsp\<close>, passes of the monitor, passes of the HWP server (whatever its
  clients send, wherever the connections break), its initialisation, start and stop, and registrations
  breaks this: the table stays a well-formed hash table, every hardware matchpoint names one of the
  eight watchpoints, the pool has eight entries, the signal fits two hexadecimal digits, and the mutex
  of the debug interface is free.
\<close>

theorem process_invariant:
  assumes "(process_step c hw)\<^sup>*\<^sup>* w w'" "rsp_inv w"
  shows "mp_invar (mp_table w')
     \<and> (\<forall>ty a e. ty \<noteq> BP_MEMORY \<longrightarrow> mp_hash_lookup ty a (mp_table w') = Some e \<longrightarrow> unat (mpe_instr e) < HWP_MAX_WP)
     \<and> length (hwp_in_use w') = HWP_MAX_WP \<and> 0 \<le> sigval w' \<and> sigval w' < 256 \<and> \<not> dbg_access_mutex (jtag w')"
proof -
  from assms have "rsp_inv w'"
    by (induction rule: rtranclp_induct) (auto intro: process_step_inv)
  then show ?thesis by (simp add: rsp_inv_def hw_entries_ok_def)
qed

text \<open>For the concrete runs: the bridge with the unplugged cable, and a client of the HWP server.\<close>

definition lone_link :: "u8 list \<Rightarrow> read_answer list \<Rightarrow> hwp_link" where
  "lone_link bs as =
     \<lparr>hl_fd = 9, hl_in = as, hl_writes = [], hl_sent = [], hl_data = store_at (\<lambda>_. 0) 0 bs, hl_len = length bs\<rparr>"

definition lone_process :: "hwp_link \<Rightarrow> unit process" where
  "lone_process l = rsp_bridge.extend (lone [Rd_char 0x2b]) (process.fields l 8 (5, 7) 9928 True False False 0)"

lemma lone_process_simps [simp]:
  "jtag (lone_process l) = lone_jtag DC_CPU0" "mp_table (lone_process l) = mp_hash_init"
  "hwp_link (lone_process l) = l" "link_up (lone_process l)" "incoming (lone_process l) = [Rd_char 0x2b]"
  "hwp_in_use (lone_process l) = replicate HWP_MAX_WP 0" "hwp_server_running (lone_process l)"
  "hwp_target_is_running (lone_process l) = False" "junk (lone_process l) = 0x15000000" "pipes (lone_process l) = []"
  "snd (hwp_pipe_fds (lone_process l)) = 7"
  by (simp_all add: lone_process_def lone_def rsp_bridge.defs process.defs link_up_def)

lemma lone_process_inv: "rsp_inv (lone_process l)"
proof -
  have "sigval (lone_process l) = 0" by (simp add: lone_process_def lone_def rsp_bridge.defs process.defs)
  then show ?thesis using lone_inv [of "[]"] by (simp add: rsp_inv_def)
qed

theorem process_invariant_witness:
  "\<exists>w'. (process_step unplugged DBG_HW_ADVANCED)\<^sup>*\<^sup>* (lone_process (lone_link [] [Rd_eof])) w'
     \<and> hl_fd (hwp_link w') = -1 \<and> mp_invar (mp_table w') \<and> \<not> dbg_access_mutex (jtag w')"
proof -
  let ?w = "lone_process (lone_link [] [Rd_eof])"
  let ?w' = "?w\<lparr>hwp_link := (lone_link [] [])\<lparr>hl_fd := -1\<rparr>\<rparr>"
  have get: "get_hwp_rsp_char 9 (lone_link [] [Rd_eof]) = Some (-1, (lone_link [] [])\<lparr>hl_fd := -1\<rparr>)"
    by (simp add: get_hwp_rsp_char_def lone_link_def hwp_client_close_def)
  have "hl_fd (lone_link [] [Rd_eof]) = 9" by (simp add: lone_link_def)
  then have "hwp_get_packet (lone_link [] [Rd_eof]) = Some (False, (lone_link [] [])\<lparr>hl_fd := -1\<rparr>)"
    by (simp add: hwp_get_packet.simps hwp_wait_start.simps get)
  then have "hwp_server_pass unplugged DBG_HW_ADVANCED 0 (Select_ready [9]) ?w = Some ?w'"
    by (simp add: hwp_server_pass_def hwp_serve_def hwp_client_request_def hwp_client_close_def lone_link_def)
  then have steps: "(process_step unplugged DBG_HW_ADVANCED)\<^sup>*\<^sup>* ?w ?w'"
    by (intro r_into_rtranclp) (rule ps_hwp)
  from process_invariant [OF this lone_process_inv] steps show ?thesis by auto
qed

subsection \<open>Requests\<close>

text \<open>The client of the HWP server, with a packet in the buffer and a connection that is up.\<close>

definition hwp_holds :: "hwp_link \<Rightarrow> u8 list \<Rightarrow> bool" where
  "hwp_holds l bs \<longleftrightarrow> hl_len l = length bs \<and> length bs < HWP_BUF_MAX
     \<and> slice_at (hl_data l) 0 (length bs) = bs \<and> hl_data l (length bs) = 0"

lemma hwp_request_string: "hwp_holds (hwp_link w) bs \<Longrightarrow> 0 \<notin> set bs \<Longrightarrow> hwp_request w = bs"
  using c_string_at_slice [of "hl_data (hwp_link w)" 0 "length bs"]
  by (simp add: hwp_request_def hwp_holds_def HWP_BUF_MAX_def GDB_BUF_MAX_def)

lemma scan_word8_reg2hex: "scan_word8 (take 8 (reg2hex v)) = Some (reg2hex v)"
proof -
  have "\<not> isspace d" if "d \<in> set (take 8 (reg2hex v))" for d
    using that hexchar_plain by (auto simp: reg2hex_Cons)
  then have "skip_space (take 8 (reg2hex v)) = take 8 (reg2hex v)"
    "takeWhile (\<lambda>ch. \<not> isspace ch) (take 8 (reg2hex v)) = take 8 (reg2hex v)"
    by (auto simp: skip_space_def takeWhile_eq_all_conv dropWhile_eq_self_iff reg2hex_Cons)
  moreover have "take 8 (reg2hex v) @ [0] = reg2hex v" by (simp add: reg2hex_Cons)
  ultimately show ?thesis by (simp add: scan_word8_def reg2hex_Cons)
qed

text \<open>The packet that writes a register: \<open>P\<close>, the number, an equals sign, eight digits.\<close>

definition write_reg_packet :: "u8 list \<Rightarrow> u32 \<Rightarrow> u8 list" where
  "write_reg_packet ds val = chr CHR ''P'' # ds @ chr CHR ''='' # take 8 (reg2hex val)"

lemma scan_write_reg:
  assumes "hexnum ds regnum"
  shows "do { s \<leftarrow> scan_char (chr CHR ''P'') (write_reg_packet ds val);
              (r, s) \<leftarrow> scan_hex s;
              s \<leftarrow> scan_char (chr CHR ''='') s;
              valstr \<leftarrow> scan_word8 s;
              Some (r, valstr) } = Some (regnum, reg2hex val)"
proof -
  have "\<not> ishex (chr CHR ''='')" by code_simp
  then have "scan_hex (ds @ chr CHR ''='' # take 8 (reg2hex val)) = Some (regnum, chr CHR ''='' # take 8 (reg2hex val))"
    by (intro scan_hexnum [OF assms]) simp
  then show ?thesis by (simp add: write_reg_packet_def scan_word8_reg2hex)
qed

lemma write_reg_nonzero: "hexnum ds regnum \<Longrightarrow> 0 \<notin> set (write_reg_packet ds val)"
  using hexnum_chars [of ds regnum] hexnum_chars [OF hexnum_reg2hex, of _ val]
  by (auto simp: write_reg_packet_def)

text \<open>The comparison a value of a control register asks for is on.\<close>

definition compares :: "u32 \<Rightarrow> bool" where
  "compares val \<longleftrightarrow> val AND 0x0E \<noteq> 0 \<and> val AND 0xE0 \<noteq> 0"

lemma mark_dcr_SPR_DCR:
  "k < HWP_MAX_WP \<Longrightarrow> mark_dcr (SPR_DCR (of_nat k)) val use = use[k := if compares val then 1 else 0]"
proof -
  assume k: "k < HWP_MAX_WP"
  then have "k \<in> {0, 1, 2, 3, 4, 5, 6, 7}" by (auto simp: HWP_MAX_WP_def)
  then show ?thesis
    by (auto simp: mark_dcr_def SPR_DCR_def SPRGROUP_D_def Let_def compares_def hwp_set_in_use_def HWP_MAX_WP_def)
qed

lemma hwp_write_reg_run:
  assumes "hwp_holds (hwp_link w) (write_reg_packet ds val)" "hexnum ds regnum"
  shows "hwp_write_reg c hw w =
     do { (e, w) \<leftarrow> cpu_write c hw regnum val w;
          w \<leftarrow> (if e = APP_ERR_NONE then hwp_reply ''OK'' w else hwp_reply ''E01'' w);
          Some (w\<lparr>hwp_in_use := mark_dcr regnum val (hwp_in_use w)\<rparr>) }"
  unfolding hwp_write_reg_def hwp_request_string [OF assms(1) write_reg_nonzero [OF assms(2)]]
    scan_write_reg [OF assms(2)]
  using hex2reg_reg2hex [of val "[]"] by simp

text \<open>
  A register written by an HWP client. The packet \<open>P<number>=<digits>\<close> makes one write of that value
  to that register of the CPU and is answered \<open>OK\<close> or \<open>E01\<close> by its error code. Whether or not the
  write worked, if the register is the control register of one of the eight watchpoints then that
  watchpoint is noted as in use exactly when the value asks for a comparison, and every other entry of
  the pool, and the pool for every other register, stays as it was.
\<close>

theorem hwp_write_reg_marks:
  assumes "hwp_holds (hwp_link w) (write_reg_packet ds val)" "hexnum ds regnum"
  shows "\<exists>mark. hwp_write_reg c hw w =
       do { (e, w) \<leftarrow> cpu_write c hw regnum val w;
            w \<leftarrow> (if e = APP_ERR_NONE then hwp_reply ''OK'' w else hwp_reply ''E01'' w);
            Some (w\<lparr>hwp_in_use := mark (hwp_in_use w)\<rparr>) }
     \<and> (\<forall>k < HWP_MAX_WP. regnum = SPR_DCR (of_nat k) \<longrightarrow> mark = (\<lambda>use. use[k := if compares val then 1 else 0]))
     \<and> ((\<forall>k < HWP_MAX_WP. regnum \<noteq> SPR_DCR (of_nat k)) \<longrightarrow> mark = (\<lambda>use. use))"
proof (intro exI conjI)
  show "hwp_write_reg c hw w =
       do { (e, w) \<leftarrow> cpu_write c hw regnum val w;
            w \<leftarrow> (if e = APP_ERR_NONE then hwp_reply ''OK'' w else hwp_reply ''E01'' w);
            Some (w\<lparr>hwp_in_use := mark_dcr regnum val (hwp_in_use w)\<rparr>) }"
    by (rule hwp_write_reg_run [OF assms])
  show "\<forall>k < HWP_MAX_WP. regnum = SPR_DCR (of_nat k) \<longrightarrow> mark_dcr regnum val = (\<lambda>use. use[k := if compares val then 1 else 0])"
    by (simp add: mark_dcr_SPR_DCR fun_eq_iff)
  show "(\<forall>k < HWP_MAX_WP. regnum \<noteq> SPR_DCR (of_nat k)) \<longrightarrow> mark_dcr regnum val = (\<lambda>use. use)"
  proof
    assume no: "\<forall>k < HWP_MAX_WP. regnum \<noteq> SPR_DCR (of_nat k)"
    have "\<not> (regnum \<ge> SPR_DCR 0 \<and> regnum \<le> SPR_DCR 7)"
    proof
      assume r: "regnum \<ge> SPR_DCR 0 \<and> regnum \<le> SPR_DCR 7"
      let ?k = "unat (regnum - SPR_DCR 0)"
      have "?k = unat regnum - unat (SPR_DCR 0)" using r by (simp add: unat_sub)
      moreover have "unat regnum \<le> unat (SPR_DCR 7)" using r by (simp add: word_le_nat_alt)
      ultimately have "?k < HWP_MAX_WP" by (simp add: SPR_DCR_def SPRGROUP_D_def HWP_MAX_WP_def)
      moreover have "regnum = SPR_DCR (of_nat ?k)" by (simp add: SPR_DCR_def)
      ultimately show False using no by blast
    qed
    then show "mark_dcr regnum val = (\<lambda>use. use)" by (auto simp: mark_dcr_def fun_eq_iff)
  qed
qed

lemma lone_link_holds: "length bs < HWP_BUF_MAX \<Longrightarrow> hwp_holds (lone_link bs as) bs"
  by (auto simp: hwp_holds_def lone_link_def store_at_def intro: slice_at_eqI)

lemma dcr_packet:
  "hexnum (str ''3008'') (SPR_DCR 0)" "write_reg_packet (str ''3008'') 0x63 = str ''P3008=00000063''"
  "write_reg_packet (str ''3008'') 0x01 = str ''P3008=00000001''"
proof -
  show "hexnum (str ''3008'') (SPR_DCR 0)"
    by (simp only: hexnum_def SPR_DCR_def SPRGROUP_D_def) code_simp
qed code_simp+

theorem hwp_write_reg_marks_witness:
  "hwp_write_reg unplugged DBG_HW_ADVANCED (lone_process (lone_link (str ''P3008=00000063'') [Rd_char 0x2b])) =
     do { w \<leftarrow> hwp_reply ''E01'' (lone_process (lone_link (str ''P3008=00000063'') [Rd_char 0x2b]));
          Some (w\<lparr>hwp_in_use := (hwp_in_use w)[0 := 1]\<rparr>) }"
proof -
  let ?w = "lone_process (lone_link (str ''P3008=00000063'') [Rd_char 0x2b])"
  have "hwp_holds (hwp_link ?w) (write_reg_packet (str ''3008'') 0x63)"
    unfolding dcr_packet by (simp add: lone_link_holds HWP_BUF_MAX_def)
  from hwp_write_reg_marks [OF this dcr_packet(1), of unplugged DBG_HW_ADVANCED]
  obtain mark where run: "hwp_write_reg unplugged DBG_HW_ADVANCED ?w =
       do { (e, w) \<leftarrow> cpu_write unplugged DBG_HW_ADVANCED (SPR_DCR 0) 0x63 ?w;
            w \<leftarrow> (if e = APP_ERR_NONE then hwp_reply ''OK'' w else hwp_reply ''E01'' w);
            Some (w\<lparr>hwp_in_use := mark (hwp_in_use w)\<rparr>) }"
    and mark: "\<forall>k < HWP_MAX_WP. SPR_DCR 0 = SPR_DCR (of_nat k) \<longrightarrow> mark = (\<lambda>use. use[k := if compares 0x63 then 1 else 0])"
    by (elim exE conjE) (rule that)
  have "compares 0x63" by (simp add: compares_def)
  with mark [rule_format, of 0] have "mark = (\<lambda>use. use[0 := 1])" by (simp add: HWP_MAX_WP_def)
  moreover have "APP_ERR_USB \<noteq> APP_ERR_NONE" by (simp add: APP_ERR_USB_def APP_ERR_NONE_def)
  ultimately show ?thesis unfolding run by simp
qed

subsection \<open>A watchpoint lent twice\<close>

lemma hwp_reply_frame:
  "hwp_reply s w = Some w' \<Longrightarrow> mp_table w' = mp_table w \<and> hwp_in_use w' = hwp_in_use w \<and> jtag w' = jtag w"
  by (auto simp: hwp_reply_def hwp_put_def split: Option.bind_splits)

lemma hwp_write_reg_effect:
  assumes "hwp_holds (hwp_link w) (write_reg_packet ds val)" "hexnum ds regnum" "hwp_write_reg c hw w = Some w'"
  shows "mp_table w' = mp_table w \<and> hwp_in_use w' = mark_dcr regnum val (hwp_in_use w)"
proof -
  from assms(3) obtain e w1 s w2 where
    w1: "cpu_write c hw regnum val w = Some (e, w1)" and w2: "hwp_reply s w1 = Some w2" and
    w': "w' = w2\<lparr>hwp_in_use := mark_dcr regnum val (hwp_in_use w2)\<rparr>"
    unfolding hwp_write_reg_run [OF assms(1,2)] by (auto split: Option.bind_splits if_splits)
  have "quiet w w1" using cpu_write_quiet w1 by (metis quietly_simps(4))
  then show ?thesis using hwp_reply_frame [OF w2] w' by (simp add: quiet_def)
qed

lemma hwp_free_freed: "length use = HWP_MAX_WP \<Longrightarrow> k < HWP_MAX_WP \<Longrightarrow> hwp_free use = {} \<Longrightarrow> hwp_free (use[k := 0]) = {k}"
  by (auto simp: hwp_free_def nth_list_update)

text \<open>
  C24. A client of the HWP server can take away the watchpoint GDB uses. When all watchpoints are in use,
  GDB has one of them for a matchpoint, and an HWP client writes a value without a comparison to the
  control register of that one, the pool has it as free, and the next matchpoint of GDB gets it too:
  two matchpoints in the table then name the same watchpoint, of which only the second is set.
\<close>

theorem watchpoint_lent_twice:
  assumes "rsp_inv w" "hwp_free (hwp_in_use w) = {}" "k < HWP_MAX_WP"
    and "mp_hash_lookup ty a (mp_table w) = Some e" "mpe_instr e = of_nat k"
    and "mp_hash_lookup ty' b (mp_table w) = None"
    and "hwp_holds (hwp_link w) (write_reg_packet ds val)" "hexnum ds (SPR_DCR (of_nat k))" "\<not> compares val"
    and "hwp_write_reg c hw w = Some w1" "insert_watchpoint c hw ty' dcr b w1 = Some w2"
  shows "map_option mpe_instr (mp_hash_lookup ty a (mp_table w2)) = Some (of_nat k)
     \<and> map_option mpe_instr (mp_hash_lookup ty' b (mp_table w2)) = Some (of_nat k)"
proof -
  have inv: "mp_invar (mp_table w)" "length (hwp_in_use w) = HWP_MAX_WP"
    using assms(1) by (simp_all add: rsp_inv_def)
  have w1: "mp_table w1 = mp_table w" "hwp_in_use w1 = (hwp_in_use w)[k := 0]"
    using hwp_write_reg_effect [OF assms(7,8,10)] assms(3,9) by (simp_all add: mark_dcr_SPR_DCR)
  then have free: "length (hwp_in_use w1) = HWP_MAX_WP" "hwp_free (hwp_in_use w1) = {k}"
    using inv(2) assms(2,3) by (simp_all add: hwp_free_freed)
  obtain r use where get: "hwp_get_available_watchpoint (hwp_in_use w1) = (r, use)" by fastforce
  have r: "r = int k" using hwp.get_some [OF free(1) _ get] free(2) by simp
  then have "mp_table w2 = mp_hash_add ty' b (of_int r) (mp_table w)"
    using insert_watchpoint_effect(2) [OF assms(11) get] w1(1) by simp
  then show ?thesis using inv(1) assms(4-6) r by (auto simp: mp.table_laws)
qed

lemma hwp_reply_up:
  assumes "hl_fd (hwp_link w) \<noteq> -1" "hl_writes (hwp_link w) = []" "hl_in (hwp_link w) = Rd_char 0x2b # as"
  shows "\<exists>l. hwp_reply s w = Some (w\<lparr>hwp_link := l\<rparr>)"
proof -
  define fd where "fd = hl_fd (hwp_link w)"
  have put: "hl_fd l = fd \<Longrightarrow> hl_writes l = [] \<Longrightarrow> fold (put_hwp_rsp_char fd) cs l = l\<lparr>hl_sent := hl_sent l @ cs\<rparr>" for cs l
    using assms(1) by (induction cs arbitrary: l) (simp_all add: put_hwp_rsp_char_def fd_def)
  have get: "hl_fd l = fd \<Longrightarrow> hl_in l = Rd_char 0x2b # as \<Longrightarrow> get_hwp_rsp_char fd l = Some (0x2b, l\<lparr>hl_in := as\<rparr>)" for l
    using assms(1) by (simp add: get_hwp_rsp_char_def fd_def)
  show ?thesis
    using assms fd_def put get
    by (auto simp: hwp_reply_def hwp_put_def hwp_put_str_packet_def hwp_put_packet.simps Let_def)
qed

theorem watchpoint_lent_twice_witness:
  "\<exists>(w :: unit process) w1 w2. hwp_write_reg unplugged DBG_HW_ADVANCED w = Some w1
     \<and> insert_watchpoint unplugged DBG_HW_ADVANCED BP_HARDWARE 0x23 0x200 w1 = Some w2
     \<and> map_option mpe_instr (mp_hash_lookup WP_WRITE 0x100 (mp_table w2)) = Some 0
     \<and> map_option mpe_instr (mp_hash_lookup BP_HARDWARE 0x200 (mp_table w2)) = Some 0"
proof -
  let ?w0 = "lone_process (lone_link (str ''P3008=00000001'') [Rd_char 0x2b])"
  let ?w = "?w0\<lparr>mp_table := mp_hash_add WP_WRITE 0x100 0 mp_hash_init, hwp_in_use := replicate HWP_MAX_WP 1\<rparr>"
  have inv: "rsp_inv ?w"
    using lone_process_inv [of "lone_link (str ''P3008=00000001'') [Rd_char 0x2b]"]
    by (auto simp: rsp_inv_def hw_entries_ok_def mp.table_laws HWP_MAX_WP_def split: if_splits)
  have busy: "hwp_free (hwp_in_use ?w) = {}" by (simp add: hwp_free_def)
  have e: "mp_hash_lookup WP_WRITE 0x100 (mp_table ?w) = Some \<lparr>mpe_type = WP_WRITE, mpe_addr = 0x100, mpe_instr = 0\<rparr>"
    and none: "mp_hash_lookup BP_HARDWARE 0x200 (mp_table ?w) = None"
    by (simp_all add: mp.table_laws)
  have holds: "hwp_holds (hwp_link ?w) (write_reg_packet (str ''3008'') 0x01)"
    unfolding dcr_packet by (simp add: lone_link_holds HWP_BUF_MAX_def)
  have dcr: "hexnum (str ''3008'') (SPR_DCR (of_nat 0))" using dcr_packet(1) by simp
  have off: "\<not> compares 0x01" by (simp add: compares_def)
  have "\<exists>w1. hwp_write_reg unplugged DBG_HW_ADVANCED ?w = Some w1 \<and> jtag w1 = lone_jtag DC_CPU0 \<and> link_up w1
      \<and> incoming w1 = [Rd_char 0x2b]"
  proof -
    have "\<exists>l. hwp_reply ''E01'' ?w = Some (?w\<lparr>hwp_link := l\<rparr>)"
      by (rule hwp_reply_up [where as = "[]"]) (simp_all add: lone_link_def)
    then obtain l where "hwp_reply ''E01'' ?w = Some (?w\<lparr>hwp_link := l\<rparr>)" by blast
    moreover have "APP_ERR_USB \<noteq> APP_ERR_NONE" by (simp add: APP_ERR_USB_def APP_ERR_NONE_def)
    moreover have "link_up (?w\<lparr>hwp_link := l\<rparr>)"
      using lone_process_simps(4) by (simp add: link_up_def)
    moreover have "cpu_write unplugged DBG_HW_ADVANCED (SPR_DCR (of_nat 0)) 0x01 ?w = Some (APP_ERR_USB, ?w)"
      by (rule lone_cpu) simp
    ultimately show ?thesis by (subst hwp_write_reg_run [OF holds dcr]) (simp add: link_up_def)
  qed
  then obtain w1 where w1: "hwp_write_reg unplugged DBG_HW_ADVANCED ?w = Some w1" "jtag w1 = lone_jtag DC_CPU0" "link_up w1"
      "incoming w1 = [Rd_char 0x2b]" by blast
  from lone_insert_watchpoint [OF w1(2-4)] obtain w2 where
    w2: "insert_watchpoint unplugged DBG_HW_ADVANCED BP_HARDWARE 0x23 0x200 w1 = Some w2" by blast
  from watchpoint_lent_twice [OF inv busy _ e _ none holds dcr off w1(1) w2] have
    "map_option mpe_instr (mp_hash_lookup WP_WRITE 0x100 (mp_table w2)) = Some 0
     \<and> map_option mpe_instr (mp_hash_lookup BP_HARDWARE 0x200 (mp_table w2)) = Some 0"
    by (simp add: HWP_MAX_WP_def)
  with w1(1) w2 show ?thesis by (intro exI [of _ ?w] exI [of _ w1] exI [of _ w2]) simp
qed

subsection \<open>The report of a stop\<close>

text \<open>
  The report of a stop reads past a table. On the request \<open>?\<close> with the target stopped, when the
  program counter is 272 or more, which it is for any program outside the vector of the reset
  exception, the digits of the report are taken from behind the end of \<open>hexchars\<close>: the source formats
  the whole counter as if it were a signal number.
\<close>

theorem hwp_report_stop_overruns:
  assumes "hwp_get_packet (hwp_link w) = Some (True, l)" "hl_data l 0 = chr CHR ''?''" "\<not> hwp_target_is_running w"
    and "cpu_read c hw SPR_PPC (junk w) (w\<lparr>hwp_link := l\<rparr>) = Some (e, ppcval, w')" "272 \<le> ppcval"
  shows "hwp_client_request c hw w = None"
proof -
  have "drop_bit 4 ppcval > 16"
  proof -
    have "unat ppcval div 16 \<ge> 17" using assms(5) by (simp add: word_le_nat_alt)
    then show ?thesis by (simp only: word_less_nat_alt unat_drop_bit_eq) (simp add: drop_bit_eq_div)
  qed
  with assms show ?thesis by (simp add: hwp_client_request_def hwp_report_stop_def)
qed

theorem hwp_report_stop_overruns_witness:
  "hwp_client_request unplugged DBG_HW_ADVANCED
     (lone_process (lone_link [] (map Rd_char (packet_chars (str ''?''))))) = None"
proof -
  let ?l = "lone_link [] (map Rd_char (packet_chars (str ''?'')))"
  let ?l' = "\<lparr>hl_fd = 9, hl_in = [], hl_writes = [], hl_sent = [0x2b], hl_data = (\<lambda>_. 0)(0 := 0x3f, 1 := 0), hl_len = 1\<rparr>"
  have "packet_chars (str ''?'') = [0x24, 0x3f, 0x23, 0x33, 0x66]" by code_simp
  then have get: "hwp_get_packet (hwp_link (lone_process ?l)) = Some (True, ?l')"
    by (simp add: lone_link_def)
      (simp add: hwp_get_packet.simps hwp_wait_start.simps hwp_read_body.simps hwp_check_frame_def
        get_hwp_rsp_char_def put_hwp_rsp_char_def HWP_BUF_MAX_def hex_def)
  have rd: "cpu_read unplugged DBG_HW_ADVANCED SPR_PPC (junk (lone_process ?l)) ((lone_process ?l)\<lparr>hwp_link := ?l'\<rparr>)
      = Some (APP_ERR_USB, 0x15000000, (lone_process ?l)\<lparr>hwp_link := ?l'\<rparr>)"
    by (simp add: byte_of_def word_of_bytes_def)
  show ?thesis
    by (rule hwp_report_stop_overruns [OF get _ _ rd]) simp_all
qed

end
