(* ===== verification/Jsp_Queues.thy ===== *)
theory Jsp_Queues
  imports Jsp_Server Hwp_Requests
begin

text \<open>
  The serial port server as two queues. The locale \<open>byte_queue\<close> is what the server relies on when it
  keeps bytes; the ring buffers provide it as long as they do not overflow. A pass of the thread moves
  bytes from the client to the hardware and back without loss or reordering; what happens when the
  buffer for the client overflows, and when the client leaves, is at the end.
\<close>

locale byte_queue =
  fixes contents :: "'q \<Rightarrow> u8 list"
    and invar :: "'q \<Rightarrow> bool"
    and put :: "u8 \<Rightarrow> 'q \<Rightarrow> 'q"
    and leave :: "nat \<Rightarrow> 'q \<Rightarrow> 'q"
    and capacity :: nat
  assumes bounded: "invar q \<Longrightarrow> length (contents q) \<le> capacity"
    and put_law: "invar q \<Longrightarrow> length (contents q) < capacity \<Longrightarrow>
        invar (put b q) \<and> contents (put b q) = contents q @ [b]"
    and leave_law: "invar q \<Longrightarrow> n \<le> length (contents q) \<Longrightarrow>
        invar (leave n q) \<and> contents (leave n q) = drop n (contents q)"
begin

lemma put_all:
  "invar q \<Longrightarrow> length (contents q) + length bs \<le> capacity \<Longrightarrow>
     invar (fold put bs q) \<and> contents (fold put bs q) = contents q @ bs"
  by (induction bs arbitrary: q) (simp_all add: put_law)

text \<open>What leaves and what stays is what was there and what entered, in order.\<close>

lemma in_order:
  assumes "invar q" "length (contents q) + length bs \<le> capacity" "n \<le> length (contents q)"
  shows "take n (contents q) @ contents (fold put bs (leave n q)) = contents q @ bs"
    and "invar (fold put bs (leave n q))"
  using leave_law [OF assms(1,3)] put_all [of "leave n q" bs] assms by auto

end

subsection \<open>The ring buffer\<close>

definition ring_ok :: "ring \<Rightarrow> bool" where
  "ring_ok r \<longleftrightarrow> length (rb_buf r) = JSP_BUFFER_SIZE \<and> rb_rd r < JSP_BUFFER_SIZE \<and> rb_count r \<le> JSP_BUFFER_SIZE
     \<and> rb_wr r = (rb_rd r + rb_count r) mod JSP_BUFFER_SIZE"

definition ring_contents :: "ring \<Rightarrow> u8 list" where
  "ring_contents r = ring_peek (rb_count r) r"

lemma length_peek [simp]: "length (ring_peek n r) = n"
  by (simp add: ring_peek_def)

lemma length_contents [simp]: "length (ring_contents r) = rb_count r"
  by (simp add: ring_contents_def)

lemma nth_peek [simp]: "i < n \<Longrightarrow> ring_peek n r ! i = rb_buf r ! ((rb_rd r + i) mod JSP_BUFFER_SIZE)"
  by (simp add: ring_peek_def)

lemma nth_contents [simp]: "i < rb_count r \<Longrightarrow> ring_contents r ! i = rb_buf r ! ((rb_rd r + i) mod JSP_BUFFER_SIZE)"
  by (simp add: ring_contents_def)

lemma peek_contents: "n \<le> rb_count r \<Longrightarrow> ring_peek n r = take n (ring_contents r)"
  by (rule nth_equalityI) simp_all

lemma wrap: "a < 2 * JSP_BUFFER_SIZE \<Longrightarrow> a mod JSP_BUFFER_SIZE = (if a < JSP_BUFFER_SIZE then a else a - JSP_BUFFER_SIZE)"
  by (simp add: mod_if)

lemma size_pos [simp]: "0 < JSP_BUFFER_SIZE" "JSP_BUFFER_SIZE \<noteq> 0"
  by (simp_all add: JSP_BUFFER_SIZE_def)

lemma ring_okD:
  assumes "ring_ok r"
  shows "length (rb_buf r) = JSP_BUFFER_SIZE" "rb_rd r < JSP_BUFFER_SIZE" "rb_count r \<le> JSP_BUFFER_SIZE"
    "rb_wr r < JSP_BUFFER_SIZE"
    "rb_wr r = (if rb_rd r + rb_count r < JSP_BUFFER_SIZE then rb_rd r + rb_count r else rb_rd r + rb_count r - JSP_BUFFER_SIZE)"
  using assms by (auto simp: ring_ok_def wrap)

lemma ring_append_ok:
  assumes "ring_ok r" "length bs \<le> ring_space r"
  shows "ring_ok (ring_append bs r) \<and> ring_contents (ring_append bs r) = ring_contents r @ bs"
proof -
  note ok = ring_okD [OF assms(1)]
  have space: "rb_wr r + length bs \<le> JSP_BUFFER_SIZE" "rb_count r + length bs \<le> JSP_BUFFER_SIZE"
    using assms(2) ok by (auto simp: ring_space_def)
  have "ring_contents (ring_append bs r) ! i = (ring_contents r @ bs) ! i" if "i < rb_count r + length bs" for i
  proof -
    have w: "(rb_rd r + i) mod JSP_BUFFER_SIZE =
        (if rb_rd r + i < JSP_BUFFER_SIZE then rb_rd r + i else rb_rd r + i - JSP_BUFFER_SIZE)"
      using that space ok(2) by (intro wrap) simp
    show ?thesis
    proof (cases "i < rb_count r")
      case True
      with that space ok w show ?thesis
        by (auto simp: ring_contents_def ring_append_def nth_append split: if_splits)
    next
      case False
      with that space ok(1,2) w ok(5) show ?thesis
        by (auto simp: ring_contents_def ring_append_def nth_append split: if_splits)
    qed
  qed
  then have "ring_contents (ring_append bs r) = ring_contents r @ bs"
    by (intro nth_equalityI) (simp_all add: ring_append_def)
  moreover have "ring_ok (ring_append bs r)"
    using assms(1) space by (simp add: ring_ok_def ring_append_def mod_add_left_eq add.assoc)
  ultimately show ?thesis by simp
qed

lemma ring_put_append: "ring_ok r \<Longrightarrow> ring_put b r = ring_append [b] r"
  using ring_okD [of r] by (simp add: ring_put_def ring_append_def upd_conv_take_nth_drop)

interpretation rq: byte_queue ring_contents ring_ok ring_put ring_drop JSP_BUFFER_SIZE
proof
  show "ring_ok q \<Longrightarrow> length (ring_contents q) \<le> JSP_BUFFER_SIZE" for q
    by (simp add: ring_ok_def)
  show "ring_ok (ring_put b q) \<and> ring_contents (ring_put b q) = ring_contents q @ [b]"
    if "ring_ok q" "length (ring_contents q) < JSP_BUFFER_SIZE" for q b
  proof -
    have "length [b] \<le> ring_space q" using ring_okD(4) [OF that(1)] that(2) by (auto simp: ring_space_def Suc_le_eq)
    from ring_append_ok [OF that(1) this] show ?thesis by (simp add: ring_put_append that(1))
  qed
  show "ring_ok (ring_drop n q) \<and> ring_contents (ring_drop n q) = drop n (ring_contents q)"
    if "ring_ok q" "n \<le> length (ring_contents q)" for q n
  proof
    have "((rb_rd q + n) mod JSP_BUFFER_SIZE + (rb_count q - n)) mod JSP_BUFFER_SIZE
        = (rb_rd q + n + (rb_count q - n)) mod JSP_BUFFER_SIZE"
      by (rule mod_add_left_eq)
    also have "rb_rd q + n + (rb_count q - n) = rb_rd q + rb_count q" using that(2) by simp
    finally show "ring_ok (ring_drop n q)"
      using that(1) by (auto simp: ring_ok_def ring_drop_def)
    show "ring_contents (ring_drop n q) = drop n (ring_contents q)"
      using that by (intro nth_equalityI) (simp_all add: ring_contents_def ring_drop_def mod_add_left_eq add.assoc)
  qed
qed

lemma send_slice:
  assumes "ring_ok r" "k \<le> ring_available r"
  shows "take k (drop (rb_rd r) (rb_buf r)) = take k (ring_contents r)" "k \<le> rb_count r"
proof -
  note ok = ring_okD [OF assms(1)]
  have k: "k \<le> rb_count r" "rb_rd r + k \<le> JSP_BUFFER_SIZE" using assms(2) ok(2) by (auto simp: ring_available_def)
  then show "k \<le> rb_count r" by simp
  show "take k (drop (rb_rd r) (rb_buf r)) = take k (ring_contents r)"
    using k ok(1) by (intro nth_equalityI) simp_all
qed

subsection \<open>The calls of the server\<close>

text \<open>The bytes the client has sent that \<open>recv\<close> has yet to return.\<close>

fun unread :: "recv_answer list \<Rightarrow> u8 list" where
  "unread [] = []"
| "unread (Rcv_bytes bs # as) = bs @ unread as"
| "unread (Rcv_error # as) = unread as"
| "unread (Rcv_eof # as) = []"

lemma recv_bytes_law:
  "recv_bytes space as = (r, as') \<Longrightarrow>
     (case r of Some bs \<Rightarrow> bs | None \<Rightarrow> []) @ unread as' = unread as \<and> (\<forall>bs. r = Some bs \<longrightarrow> length bs \<le> space)"
  by (induction space as rule: recv_bytes.induct) (auto split: if_splits)

lemma send_count_le: "send_count len as = (Some k, as') \<Longrightarrow> k \<le> len"
  by (induction len as rule: send_count.induct) auto

text \<open>What the two receiving rounds leave alone.\<close>

definition same_but_input :: "('s, 'z) jsp_process_scheme \<Rightarrow> ('s, 'z) jsp_process_scheme \<Rightarrow> bool" where
  "same_but_input w w' \<longleftrightarrow> w' = w\<lparr>jsp_recvs := jsp_recvs w', jsp_tohw := jsp_tohw w'\<rparr>"

lemma jsp_recv_law:
  assumes "ring_ok (jsp_tohw w)"
  shows "\<exists>ok w' bs. jsp_recv w = Some (ok, w') \<and> ring_ok (jsp_tohw w') \<and> same_but_input w w'
     \<and> ring_contents (jsp_tohw w') = ring_contents (jsp_tohw w) @ bs \<and> bs @ unread (jsp_recvs w') = unread (jsp_recvs w)"
proof -
  obtain r as where r: "recv_bytes (ring_space (jsp_tohw w)) (jsp_recvs w) = (r, as)" by fastforce
  note law = recv_bytes_law [OF r]
  have small: "\<not> rb_count (jsp_tohw w) > JSP_BUFFER_SIZE" "\<not> rb_wr (jsp_tohw w) > JSP_BUFFER_SIZE"
    using ring_okD(3,4) [OF assms] by simp_all
  show ?thesis
  proof (cases "\<exists>b bs. r = Some (b # bs)")
    case True
    then obtain bs where bs: "r = Some bs" "bs \<noteq> []" by blast
    then have "ring_ok (ring_append bs (jsp_tohw w)) \<and>
        ring_contents (ring_append bs (jsp_tohw w)) = ring_contents (jsp_tohw w) @ bs"
      using law by (intro ring_append_ok [OF assms]) simp
    with bs r law small show ?thesis
      by (intro exI [of _ True] exI [of _ "w\<lparr>jsp_recvs := as, jsp_tohw := ring_append bs (jsp_tohw w)\<rparr>"] exI [of _ bs])
        (simp add: jsp_recv_def same_but_input_def)
  next
    case False
    then have "r = None \<or> r = Some []" by (metis neq_Nil_conv not_None_eq)
    with r law small assms show ?thesis
      by (intro exI [of _ "r \<noteq> None"] exI [of _ "w\<lparr>jsp_recvs := as\<rparr>"] exI [of _ "[]"])
        (auto simp: jsp_recv_def same_but_input_def)
  qed
qed

lemma jsp_queue_law:
  assumes "ring_ok (jsp_tohw w)"
  shows "\<exists>w' bs. jsp_queue_data_from_client w = Some w' \<and> ring_ok (jsp_tohw w') \<and> same_but_input w w'
     \<and> ring_contents (jsp_tohw w') = ring_contents (jsp_tohw w) @ bs \<and> bs @ unread (jsp_recvs w') = unread (jsp_recvs w)"
proof -
  from jsp_recv_law [OF assms] obtain ok w1 bs where
    w1: "jsp_recv w = Some (ok, w1)" "ring_ok (jsp_tohw w1)" "same_but_input w w1"
      "ring_contents (jsp_tohw w1) = ring_contents (jsp_tohw w) @ bs" "bs @ unread (jsp_recvs w1) = unread (jsp_recvs w)"
    by blast
  from jsp_recv_law [OF w1(2)] obtain ok2 w2 bs2 where
    w2: "jsp_recv w1 = Some (ok2, w2)" "ring_ok (jsp_tohw w2)" "same_but_input w1 w2"
      "ring_contents (jsp_tohw w2) = ring_contents (jsp_tohw w1) @ bs2" "bs2 @ unread (jsp_recvs w2) = unread (jsp_recvs w1)"
    by blast
  have "same_but_input w w2"
    using w1(3) w2(3) unfolding same_but_input_def by (cases w, cases w1, cases w2) simp
  show ?thesis
  proof (cases ok)
    case True
    with w1 w2 \<open>same_but_input w w2\<close> show ?thesis
      by (intro exI [of _ w2] exI [of _ "bs @ bs2"]) (simp add: jsp_queue_data_from_client_def)
  next
    case False
    with w1 show ?thesis by (intro exI [of _ w1] exI [of _ bs]) (simp add: jsp_queue_data_from_client_def)
  qed
qed

text \<open>What the sending rounds leave alone.\<close>

definition same_but_output :: "('s, 'z) jsp_process_scheme \<Rightarrow> ('s, 'z) jsp_process_scheme \<Rightarrow> bool" where
  "same_but_output w w' \<longleftrightarrow> w' = w\<lparr>jsp_sends := jsp_sends w', jsp_fromhw := jsp_fromhw w', jsp_out := jsp_out w'\<rparr>"

lemma jsp_send_law:
  assumes "ring_ok (jsp_fromhw w)"
  shows "ring_ok (jsp_fromhw (jsp_send w)) \<and> same_but_output w (jsp_send w)
     \<and> jsp_out (jsp_send w) @ ring_contents (jsp_fromhw (jsp_send w)) = jsp_out w @ ring_contents (jsp_fromhw w)
     \<and> rb_count (jsp_fromhw (jsp_send w)) \<le> rb_count (jsp_fromhw w)"
proof (cases "rb_count (jsp_fromhw w) > 0")
  case True
  obtain r as where r: "send_count (ring_available (jsp_fromhw w)) (jsp_sends w) = (r, as)" by fastforce
  show ?thesis
  proof (cases r)
    case None
    with True r assms show ?thesis by (simp add: jsp_send_def same_but_output_def)
  next
    case (Some k)
    with r have k: "k \<le> ring_available (jsp_fromhw w)" using send_count_le by blast
    note slice = send_slice [OF assms k]
    have "ring_ok (ring_drop k (jsp_fromhw w)) \<and>
        ring_contents (ring_drop k (jsp_fromhw w)) = drop k (ring_contents (jsp_fromhw w))"
      using slice(2) by (intro rq.leave_law [OF assms]) simp
    with True r Some slice show ?thesis
      by (simp add: jsp_send_def same_but_output_def) (simp add: ring_drop_def)
  qed
qed (simp add: jsp_send_def same_but_output_def assms)

lemma jsp_send_data_law:
  assumes "ring_ok (jsp_fromhw w)" "w' = jsp_send_data_to_client w"
  shows "ring_ok (jsp_fromhw w')" "same_but_output w w'"
    "jsp_out w' @ ring_contents (jsp_fromhw w') = jsp_out w @ ring_contents (jsp_fromhw w)"
    "rb_count (jsp_fromhw w') \<le> rb_count (jsp_fromhw w)"
proof -
  note 1 = jsp_send_law [OF assms(1)]
  note 2 = jsp_send_law [OF conjunct1 [OF 1]]
  have "same_but_output w (jsp_send (jsp_send w))"
    using 1 2 unfolding same_but_output_def by (cases w, cases "jsp_send w", cases "jsp_send (jsp_send w)") simp
  then show "ring_ok (jsp_fromhw w')" "same_but_output w w'"
    "jsp_out w' @ ring_contents (jsp_fromhw w') = jsp_out w @ ring_contents (jsp_fromhw w)"
    "rb_count (jsp_fromhw w') \<le> rb_count (jsp_fromhw w)"
    using 1 2 by (simp_all add: assms(2) jsp_send_data_to_client_def)
qed

lemma serial_sndrcv_range:
  assumes "dbg_serial_sndrcv c n bs st = Some (e, Some (d, k), st')"
  shows "k \<le> n"
  using assms
  by (auto simp: dbg_serial_sndrcv_def adbg_jsp_transact_def Let_def min_le_iff_disj
      split: Option.bind_splits if_splits)

lemma jsp_transact_law:
  assumes "jsp_hardware_transact c w = Some w'" "ring_ok (jsp_tohw w)" "ring_ok (jsp_fromhw w)"
    "rb_count (jsp_fromhw w) \<le> 248"
  shows "\<exists>e r. ring_ok (jsp_tohw w') \<and> ring_ok (jsp_fromhw w') \<and> jsp_recvs w' = jsp_recvs w \<and> jsp_out w' = jsp_out w
     \<and> dbg_serial_sndrcv c (min (rb_count (jsp_tohw w)) 8) (take 8 (ring_contents (jsp_tohw w))) (jtag w) = Some (e, r, jtag w')
     \<and> (if e = APP_ERR_NONE
        then \<exists>data k. r = Some (data, k) \<and> k \<le> rb_count (jsp_tohw w)
           \<and> ring_contents (jsp_tohw w') = drop k (ring_contents (jsp_tohw w))
           \<and> ring_contents (jsp_fromhw w') = ring_contents (jsp_fromhw w) @ data
        else jsp_tohw w' = jsp_tohw w \<and> jsp_fromhw w' = jsp_fromhw w)"
proof -
  let ?n = "min (rb_count (jsp_tohw w)) 8"
  have n: "(if rb_count (jsp_tohw w) > 8 then 8 else rb_count (jsp_tohw w)) = ?n" by simp
  have buf: "ring_peek ?n (jsp_tohw w) = take 8 (ring_contents (jsp_tohw w))"
    by (simp add: peek_contents) (simp add: min_def)
  from assms(1) obtain e r st where
    hw: "dbg_serial_sndrcv c ?n (take 8 (ring_contents (jsp_tohw w))) (jtag w) = Some (e, r, st)"
    unfolding jsp_hardware_transact_def n buf Let_def by (auto simp: on_jtag2_def split: Option.bind_splits)
  show ?thesis
  proof (cases "e = APP_ERR_NONE")
    case False
    then have "w' = w\<lparr>jtag := st\<rparr>"
      using assms(1) hw unfolding jsp_hardware_transact_def n buf Let_def by (simp add: on_jtag2_def)
    with False hw assms(2,3) show ?thesis by simp
  next
    case True
    then obtain data k where r: "r = Some (data, k)" "length data \<le> 8" and
      w': "w' = w\<lparr>jtag := st, jsp_tohw := ring_drop k (jsp_tohw w), jsp_fromhw := fold ring_put data (jsp_fromhw w)\<rparr>"
      using assms(1) hw unfolding jsp_hardware_transact_def n buf Let_def
      by (auto simp: on_jtag2_def split: Option.bind_splits if_splits)
    have k: "k \<le> length (ring_contents (jsp_tohw w))" using serial_sndrcv_range [OF hw [unfolded r]] by simp
    have "length (ring_contents (jsp_fromhw w)) + length data \<le> JSP_BUFFER_SIZE"
      using assms(4) r(2) by (simp add: JSP_BUFFER_SIZE_def)
    with rq.put_all [OF assms(3)] rq.leave_law [OF assms(2) k] k hw r w' True show ?thesis by simp
  qed
qed

lemma jsp_monitor_status_frame:
  "jsp_monitor_status w = Some w' \<Longrightarrow> jtag w' = jtag w \<and> jsp_tohw w' = jsp_tohw w \<and> jsp_fromhw w' = jsp_fromhw w
     \<and> jsp_out w' = jsp_out w \<and> jsp_recvs w' = jsp_recvs w \<and> jsp_client_fd w' = jsp_client_fd w
     \<and> jsp_server_running w' = jsp_server_running w"
  by (auto simp: jsp_monitor_status_def read_pipe_def split: Option.bind_splits option.splits if_splits)

text \<open>What the part of a pass before the sending does.\<close>

lemma jsp_serve_input:
  fixes w :: "('s, 'z) jsp_process_scheme"
  assumes "ring_ok (jsp_tohw w)" "jsp_serve c sel w = Some w'"
  obtains w1 rcv where "jtag w1 = jtag w" "ring_ok (jsp_tohw w1)"
    "ring_contents (jsp_tohw w1) = ring_contents (jsp_tohw w) @ rcv" "rcv @ unread (jsp_recvs w1) = unread (jsp_recvs w)"
    "jsp_out w1 = jsp_out w" "jsp_fromhw w1 = jsp_fromhw w" "jsp_client_fd w1 = jsp_client_fd w"
    "jsp_server_running w1 = jsp_server_running w"
    "(let w2 = jsp_send_data_to_client w1 in
      if jsp_target_is_running w2 then jsp_hardware_transact c w2 else Some w2) = Some w'"
proof -
  define tail where "tail = (\<lambda>w1 :: ('s, 'z) jsp_process_scheme. let w2 = jsp_send_data_to_client w1 in
      if jsp_target_is_running w2 then jsp_hardware_transact c w2 else Some w2)"
  have serve: "jsp_serve c sel w =
     (case sel of
        Select_ready ready \<Rightarrow>
          do { w \<leftarrow> (if snd (jsp_pipe_fds w) \<in> set ready then jsp_monitor_status w else Some w);
               (if jsp_client_fd w \<in> set ready then jsp_queue_data_from_client w else Some w) }
      | _ \<Rightarrow> Some w) \<bind> tail"
    by (simp add: jsp_serve_def tail_def)
  show thesis
  proof (cases sel)
    case (Select_ready ready)
    with assms(2) serve obtain u w1 where
      u: "(if snd (jsp_pipe_fds w) \<in> set ready then jsp_monitor_status w else Some w) = Some u" and
      w1: "(if jsp_client_fd u \<in> set ready then jsp_queue_data_from_client u else Some u) = Some w1" "tail w1 = Some w'"
      by (auto split: Option.bind_splits)
    from u have us: "jtag u = jtag w" "jsp_tohw u = jsp_tohw w" "jsp_fromhw u = jsp_fromhw w" "jsp_out u = jsp_out w"
      "jsp_recvs u = jsp_recvs w" "jsp_client_fd u = jsp_client_fd w" "jsp_server_running u = jsp_server_running w"
      using jsp_monitor_status_frame [of w u] by (auto split: if_splits)
    show thesis
    proof (cases "jsp_client_fd u \<in> set ready")
      case True
      from jsp_queue_law [of u] us(2) assms(1) w1(1) True obtain rcv where
        q: "ring_ok (jsp_tohw w1)" "same_but_input u w1" "ring_contents (jsp_tohw w1) = ring_contents (jsp_tohw u) @ rcv"
          "rcv @ unread (jsp_recvs w1) = unread (jsp_recvs u)"
        by auto
      have "jtag w1 = jtag u" "jsp_out w1 = jsp_out u" "jsp_fromhw w1 = jsp_fromhw u" "jsp_client_fd w1 = jsp_client_fd u"
        "jsp_server_running w1 = jsp_server_running u"
        using q(2) unfolding same_but_input_def by (cases w1, cases u, simp)+
      with q us w1(2) show thesis by (intro that [of w1 rcv]) (simp_all add: tail_def)
    next
      case False
      with us w1 assms(1) show thesis by (intro that [of w1 "[]"]) (simp_all add: tail_def)
    qed
  next
    case Select_error
    then have "tail w = Some w'" using assms(2) serve by simp
    with assms(1) show thesis by (intro that [of w "[]"]) (simp_all add: tail_def)
  next
    case Select_timeout
    then have "tail w = Some w'" using assms(2) serve by simp
    with assms(1) show thesis by (intro that [of w "[]"]) (simp_all add: tail_def)
  qed
qed

text \<open>
  C25. The serial port server moves bytes in order, and loses none as long as at most 248 wait for the client
  when the hardware is served. In a pass of the thread over well-formed buffers: the bytes received from
  the client go behind those waiting for the hardware. While the target runs, the first up to eight of
  these are handed to the hardware, and as many as it says it has taken leave the buffer; the bytes it
  gives go behind those waiting for the client, and what the client has been sent, followed by what waits
  for it, is what it was before followed by these bytes. While the target is stopped, or when the access
  fails, nothing but the bytes received and sent is moved. The buffers are well-formed again. The bound on
  the bytes waiting is what makes the eight that the hardware may give fit; the property after this one
  is about what happens without it.
\<close>

theorem jsp_pass_in_order:
  assumes "jsp_server_running w" "jsp_client_fd w \<noteq> -1" "ring_ok (jsp_tohw w)" "ring_ok (jsp_fromhw w)"
    and "jsp_target_is_running w' \<Longrightarrow> rb_count (jsp_fromhw w) \<le> 248" "jsp_server_pass c fd sel w = Some w'"
  shows "ring_ok (jsp_tohw w') \<and> ring_ok (jsp_fromhw w') \<and>
     (\<exists>rcv q. rcv @ unread (jsp_recvs w') = unread (jsp_recvs w) \<and> q = ring_contents (jsp_tohw w) @ rcv
        \<and> (if jsp_target_is_running w'
           then \<exists>e r. dbg_serial_sndrcv c (min (length q) 8) (take 8 q) (jtag w) = Some (e, r, jtag w')
             \<and> (if e = APP_ERR_NONE
                then \<exists>data k. r = Some (data, k) \<and> k \<le> length q \<and> ring_contents (jsp_tohw w') = drop k q
                   \<and> jsp_out w' @ ring_contents (jsp_fromhw w') = jsp_out w @ ring_contents (jsp_fromhw w) @ data
                else ring_contents (jsp_tohw w') = q
                   \<and> jsp_out w' @ ring_contents (jsp_fromhw w') = jsp_out w @ ring_contents (jsp_fromhw w))
           else jtag w' = jtag w \<and> ring_contents (jsp_tohw w') = q
             \<and> jsp_out w' @ ring_contents (jsp_fromhw w') = jsp_out w @ ring_contents (jsp_fromhw w)))"
proof -
  have "jsp_serve c sel w = Some w'" using assms(1,2,6) by (simp add: jsp_server_pass_def)
  from jsp_serve_input [OF assms(3) this] obtain w1 rcv where
    w1: "jtag w1 = jtag w" "ring_ok (jsp_tohw w1)" "ring_contents (jsp_tohw w1) = ring_contents (jsp_tohw w) @ rcv"
      "rcv @ unread (jsp_recvs w1) = unread (jsp_recvs w)" "jsp_out w1 = jsp_out w" "jsp_fromhw w1 = jsp_fromhw w" and
    w': "(let w2 = jsp_send_data_to_client w1 in
      if jsp_target_is_running w2 then jsp_hardware_transact c w2 else Some w2) = Some w'"
    by metis
  define w2 where w2: "w2 = jsp_send_data_to_client w1"
  note send = jsp_send_data_law [of w1, unfolded w1(6), OF assms(4) w2]
  have w2s: "jtag w2 = jtag w" "jsp_tohw w2 = jsp_tohw w1" "jsp_recvs w2 = jsp_recvs w1"
    using send(2) w1(1) unfolding same_but_output_def by (cases w1, cases w2, simp)+
  let ?q = "ring_contents (jsp_tohw w) @ rcv"
  show ?thesis
  proof (cases "jsp_target_is_running w2")
    case False
    then have "w' = w2" using w' by (simp add: w2 Let_def)
    with False send w1 w2s show ?thesis by (intro conjI exI [of _ rcv] exI [of _ ?q]) simp_all
  next
    case True
    have run: "jsp_hardware_transact c w2 = Some w'" using w' True by (simp add: w2 Let_def)
    have still: "jsp_target_is_running w'" using run True
      by (auto simp: jsp_hardware_transact_def on_jtag2_def Let_def split: Option.bind_splits if_splits)
    have q: "rb_count (jsp_tohw w1) = length ?q" by (simp only: length_contents [symmetric] w1(3))
    have room: "rb_count (jsp_fromhw w2) \<le> 248" using send(4) assms(5) [OF still] by simp
    from jsp_transact_law [OF run, unfolded w2s, OF w1(2) send(1) room] obtain e r where
      ok: "ring_ok (jsp_tohw w')" "ring_ok (jsp_fromhw w')" "jsp_recvs w' = jsp_recvs w1" "jsp_out w' = jsp_out w2"
        "dbg_serial_sndrcv c (min (length ?q) 8) (take 8 ?q) (jtag w) = Some (e, r, jtag w')" and
      res: "if e = APP_ERR_NONE
          then \<exists>data k. r = Some (data, k) \<and> k \<le> length ?q \<and> ring_contents (jsp_tohw w') = drop k ?q
             \<and> ring_contents (jsp_fromhw w') = ring_contents (jsp_fromhw w2) @ data
          else jsp_tohw w' = jsp_tohw w1 \<and> jsp_fromhw w' = jsp_fromhw w2"
      unfolding q w1(3) by blast
    then have "if e = APP_ERR_NONE
        then \<exists>data k. r = Some (data, k) \<and> k \<le> length ?q \<and> ring_contents (jsp_tohw w') = drop k ?q
           \<and> jsp_out w' @ ring_contents (jsp_fromhw w') = jsp_out w @ ring_contents (jsp_fromhw w) @ data
        else ring_contents (jsp_tohw w') = ?q
           \<and> jsp_out w' @ ring_contents (jsp_fromhw w') = jsp_out w @ ring_contents (jsp_fromhw w)"
      using send(3) w1(3,5) by (cases "e = APP_ERR_NONE") auto
    with ok w1(4) still show ?thesis by (intro conjI exI [of _ rcv] exI [of _ ?q]) auto
  qed
qed

subsection \<open>Overflow\<close>

lemma fold_ring_put_frame:
  "rb_rd (fold ring_put bs r) = rb_rd r" "rb_count (fold ring_put bs r) = rb_count r + length bs"
  "length (rb_buf (fold ring_put bs r)) = length (rb_buf r)"
  "rb_wr r < JSP_BUFFER_SIZE \<Longrightarrow> rb_wr (fold ring_put bs r) = (rb_wr r + length bs) mod JSP_BUFFER_SIZE"
  by (induction bs rule: rev_induct) (simp_all add: ring_put_def mod_Suc_eq)

lemma rb_buf_put [simp]: "rb_buf (ring_put b r) = (rb_buf r)[rb_wr r := b]"
  by (simp add: ring_put_def)

lemma mod_apart: "i < j \<Longrightarrow> j < i + JSP_BUFFER_SIZE \<Longrightarrow> i mod JSP_BUFFER_SIZE \<noteq> j mod JSP_BUFFER_SIZE"
  by (metis add_diff_cancel_left' less_imp_add_positive mod_eq_dvd_iff_nat nat_dvd_not_less nat_less_le add_less_cancel_left)

lemma fold_ring_put_nth:
  "length (rb_buf r) = JSP_BUFFER_SIZE \<Longrightarrow> rb_wr r < JSP_BUFFER_SIZE \<Longrightarrow> length bs \<le> JSP_BUFFER_SIZE \<Longrightarrow> i < length bs \<Longrightarrow>
     rb_buf (fold ring_put bs r) ! ((rb_wr r + i) mod JSP_BUFFER_SIZE) = bs ! i"
proof (induction bs rule: rev_induct)
  case (snoc b bs)
  show ?case
  proof (cases "i = length bs")
    case True
    then show ?thesis using snoc.prems(1,2) by (simp add: fold_ring_put_frame)
  next
    case False
    then have "(rb_wr r + i) mod JSP_BUFFER_SIZE \<noteq> (rb_wr r + length bs) mod JSP_BUFFER_SIZE"
      using snoc.prems(3,4) by (intro mod_apart) simp_all
    with snoc False show ?thesis by (simp add: fold_ring_put_frame nth_append)
  qed
qed simp

text \<open>
  C26. The buffer for the client has no guard. When it is full because the client does not read, and the
  hardware gives \<open>n > 0\<close> more bytes, they overwrite the \<open>n\<close> oldest ones, which the client never
  gets; the counter then exceeds the size of the buffer, so the new bytes are what is sent next, out of
  order, and again at the end.
\<close>

theorem jsp_overflow_corrupts:
  assumes "ring_ok (jsp_fromhw w)" "rb_count (jsp_fromhw w) = JSP_BUFFER_SIZE"
    and "dbg_serial_sndrcv c (min (rb_count (jsp_tohw w)) 8) (ring_peek (min (rb_count (jsp_tohw w)) 8) (jsp_tohw w)) (jtag w)
           = Some (APP_ERR_NONE, Some (data, k), st)"
    and "length data \<le> 8"
  shows "\<exists>w'. jsp_hardware_transact c w = Some w' \<and> rb_count (jsp_fromhw w') = JSP_BUFFER_SIZE + length data
     \<and> ring_contents (jsp_fromhw w') = data @ drop (length data) (ring_contents (jsp_fromhw w)) @ data"
proof -
  let ?r = "jsp_fromhw w"
  let ?r' = "fold ring_put data ?r"
  note ok = ring_okD [OF assms(1)]
  have wr: "rb_wr ?r = rb_rd ?r" using ok(2,5) assms(2) by simp
  have small: "length data \<le> JSP_BUFFER_SIZE" using assms(4) by (simp add: JSP_BUFFER_SIZE_def)
  have new: "rb_buf ?r' ! ((rb_rd ?r + i) mod JSP_BUFFER_SIZE) = data ! i" if "i < length data" for i
    using fold_ring_put_nth [OF ok(1,4) small that] wr by simp
  have old: "rb_buf ?r' ! ((rb_rd ?r + i) mod JSP_BUFFER_SIZE) = rb_buf ?r ! ((rb_rd ?r + i) mod JSP_BUFFER_SIZE)"
    if "length data \<le> i" "i < JSP_BUFFER_SIZE" for i
    using that
  proof (induction data rule: rev_induct)
    case (snoc b bs)
    have "(rb_rd ?r + length bs) mod JSP_BUFFER_SIZE \<noteq> (rb_rd ?r + i) mod JSP_BUFFER_SIZE"
      using snoc.prems by (intro mod_apart) simp_all
    with snoc ok(4) show ?case by (simp add: fold_ring_put_frame wr)
  qed simp
  have "ring_contents ?r' = data @ drop (length data) (ring_contents ?r) @ data" (is "?lhs = ?rhs")
  proof (rule nth_equalityI)
    show "length ?lhs = length ?rhs" using assms(2) small by (simp add: fold_ring_put_frame)
    fix i assume "i < length ?lhs"
    then have i: "i < JSP_BUFFER_SIZE + length data" using assms(2) by (simp add: fold_ring_put_frame)
    show "?lhs ! i = ?rhs ! i"
    proof (cases "i < JSP_BUFFER_SIZE")
      case True
      with new old small assms(2) show ?thesis
        by (cases "i < length data") (auto simp: fold_ring_put_frame nth_append)
    next
      case False
      then obtain j where j: "i = JSP_BUFFER_SIZE + j" by (metis le_Suc_ex not_less)
      then have "(rb_rd ?r + i) mod JSP_BUFFER_SIZE = (rb_rd ?r + j) mod JSP_BUFFER_SIZE"
        by (metis add.left_commute mod_add_self1)
      with new [of j] i j small assms(2) show ?thesis by (auto simp: fold_ring_put_frame nth_append)
    qed
  qed
  moreover have "jsp_hardware_transact c w =
      Some (w\<lparr>jtag := st, jsp_tohw := ring_drop k (jsp_tohw w), jsp_fromhw := ?r'\<rparr>)"
  proof -
    have n: "(if rb_count (jsp_tohw w) > 8 then 8 else rb_count (jsp_tohw w)) = min (rb_count (jsp_tohw w)) 8" by simp
    show ?thesis unfolding jsp_hardware_transact_def n Let_def using assms(3,4) by (simp add: on_jtag2_def)
  qed
  ultimately show ?thesis using assms(2) by (simp add: fold_ring_put_frame)
qed

subsection \<open>A client that has left\<close>

definition holds_client :: "int \<Rightarrow> ('s, 'z) jsp_process_scheme \<Rightarrow> bool" where
  "holds_client fd w \<longleftrightarrow> jsp_server_running w \<and> jsp_client_fd w = fd"

lemma jsp_recv_holds: "jsp_recv w = Some (ok, w') \<Longrightarrow> holds_client fd w' = holds_client fd w"
  by (auto simp: jsp_recv_def Let_def holds_client_def split: if_splits prod.splits option.splits)

lemma jsp_queue_holds: "jsp_queue_data_from_client w = Some w' \<Longrightarrow> holds_client fd w' = holds_client fd w"
  by (auto simp: jsp_queue_data_from_client_def split: Option.bind_splits if_splits dest!: jsp_recv_holds [of _ _ _ fd])

lemma jsp_send_holds [simp]: "holds_client fd (jsp_send w) = holds_client fd w"
  by (simp add: jsp_send_def Let_def holds_client_def split: prod.splits option.splits)

lemma jsp_transact_holds: "jsp_hardware_transact c w = Some w' \<Longrightarrow> holds_client fd w' = holds_client fd w"
  by (auto simp: jsp_hardware_transact_def Let_def on_jtag2_def holds_client_def split: Option.bind_splits if_splits)

lemma jsp_monitor_holds: "jsp_monitor_status w = Some w' \<Longrightarrow> holds_client fd w' = holds_client fd w"
  using jsp_monitor_status_frame [of w w'] by (simp add: holds_client_def)

lemma jsp_serve_holds: "jsp_serve c sel w = Some w' \<Longrightarrow> holds_client fd w' = holds_client fd w"
  by (auto simp: jsp_serve_def jsp_send_data_to_client_def Let_def
      split: select_result.splits Option.bind_splits if_splits
      dest!: jsp_transact_holds [of _ _ _ fd] jsp_queue_holds [of _ _ fd] jsp_monitor_holds [of _ _ fd])

lemma jsp_pass_holds:
  assumes "jsp_server_pass c fd sel w = Some w'" "holds_client n w" "n \<noteq> -1"
  shows "holds_client n w'"
proof -
  have "jsp_serve c sel w = Some w'" using assms by (simp add: jsp_server_pass_def holds_client_def)
  from jsp_serve_holds [OF this, of n] assms(2) show ?thesis by simp
qed

text \<open>
  A client is never let go. Neither an error nor the end of its connection, which \<open>recv\<close> reports
  with zero bytes, makes the server close the connection: as long as nobody stops the server, no number
  of passes changes the descriptor, so the server never comes back to accept another client.
\<close>

theorem jsp_client_never_released:
  assumes "(\<lambda>w w'. \<exists>fd sel. jsp_server_pass c fd sel w = Some w')\<^sup>*\<^sup>* w w'"
    and "jsp_server_running w" "jsp_client_fd w \<noteq> -1"
  shows "jsp_server_running w' \<and> jsp_client_fd w' = jsp_client_fd w"
proof -
  from assms(1) have "holds_client (jsp_client_fd w) w'"
  proof (induction rule: rtranclp_induct)
    case base
    show ?case using assms(2) by (simp add: holds_client_def)
  next
    case (step y z)
    with assms(3) show ?case using jsp_pass_holds by blast
  qed
  then show ?thesis by (simp add: holds_client_def)
qed

subsection \<open>Concrete runs\<close>

text \<open>A cable whose answers say that the serial port has one byte, an \<open>A\<close>, and no room.\<close>

definition talking :: "unit jtag_cable_t" where
  "talking = unplugged\<lparr>stream_out_func := (\<lambda>_ _ _ s. Some (APP_ERR_NONE, s)),
     stream_inout_func := (\<lambda>_ _ _ _ s. Some (APP_ERR_NONE, [0x4110, 0, 0], s)),
     bit_out_func := (\<lambda>_ s. Some (APP_ERR_NONE, s)), bit_inout_func := (\<lambda>_ s. Some (APP_ERR_NONE, 0, s))\<rparr>"

definition full_ring :: ring where
  "full_ring = \<lparr>rb_buf = replicate JSP_BUFFER_SIZE 0x42, rb_rd = 3, rb_wr = 3, rb_count = JSP_BUFFER_SIZE\<rparr>"

definition empty_ring :: ring where
  "empty_ring = \<lparr>rb_buf = replicate JSP_BUFFER_SIZE 0, rb_rd = 0, rb_wr = 0, rb_count = 0\<rparr>"

definition terminal :: "recv_answer list \<Rightarrow> ring \<Rightarrow> unit jsp_process" where
  "terminal as r = process.extend ((lone_process (lone_link [] []))\<lparr>jtag := lone_jtag DC_JSP\<rparr>)
     (jsp_process.fields 10 11 (12, 13) [0] [0] 9944 empty_ring r True True as [] [])"

lemma terminal_simps [simp]:
  "jtag (terminal as r) = lone_jtag DC_JSP" "jsp_client_fd (terminal as r) = 11" "jsp_tohw (terminal as r) = empty_ring"
  "jsp_fromhw (terminal as r) = r" "jsp_server_running (terminal as r)" "jsp_target_is_running (terminal as r)"
  "jsp_recvs (terminal as r) = as" "jsp_sends (terminal as r) = []" "jsp_out (terminal as r) = []"
  "jsp_pipe_fds (terminal as r) = (12, 13)"
  by (simp_all add: terminal_def process.defs jsp_process.defs)

lemma ring_samples [simp]:
  "ring_ok empty_ring" "ring_ok full_ring" "rb_count empty_ring = 0" "rb_count full_ring = JSP_BUFFER_SIZE"
  "rb_wr empty_ring = 0"
  by (simp_all add: ring_ok_def empty_ring_def full_ring_def JSP_BUFFER_SIZE_def)

lemma serial_talks: "dbg_serial_sndrcv talking 0 [] (lone_jtag DC_JSP) = Some (APP_ERR_NONE, Some ([0x41], 0), lone_jtag DC_JSP)"
  by code_simp

theorem jsp_overflow_corrupts_witness:
  "\<exists>w'. jsp_hardware_transact talking (terminal [] full_ring) = Some w' \<and> rb_count (jsp_fromhw w') = 257
     \<and> ring_contents (jsp_fromhw w') = [0x41] @ drop 1 (ring_contents full_ring) @ [0x41]"
proof -
  have "ring_peek 0 empty_ring = []" by (simp add: ring_peek_def)
  with serial_talks jsp_overflow_corrupts [of "terminal [] full_ring" talking "[0x41]" 0 "lone_jtag DC_JSP"]
  show ?thesis by (simp add: JSP_BUFFER_SIZE_def)
qed

lemma pass_of_terminal:
  assumes "jsp_queue_data_from_client (terminal as empty_ring) = Some w1" "jsp_fromhw w1 = empty_ring"
    "jsp_client_fd w1 = 11" "jsp_target_is_running w1"
    "dbg_serial_sndrcv talking (rb_count (jsp_tohw w1)) (ring_peek (rb_count (jsp_tohw w1)) (jsp_tohw w1)) (jtag w1)
       = Some (APP_ERR_NONE, Some ([0x41], 0), lone_jtag DC_JSP)" "rb_count (jsp_tohw w1) \<le> 8"
  shows "jsp_server_pass talking 0 (Select_ready [11]) (terminal as empty_ring)
    = Some (w1\<lparr>jtag := lone_jtag DC_JSP, jsp_tohw := ring_drop 0 (jsp_tohw w1), jsp_fromhw := ring_put 0x41 empty_ring\<rparr>)"
proof -
  have "jsp_send_data_to_client w1 = w1" using assms(2) by (simp add: jsp_send_data_to_client_def jsp_send_def)
  with assms show ?thesis
    by (simp add: jsp_server_pass_def jsp_serve_def jsp_hardware_transact_def on_jtag2_def)
qed

theorem jsp_client_never_released_witness:
  "\<exists>w'. (\<lambda>w w'. \<exists>fd sel. jsp_server_pass talking fd sel w = Some w')\<^sup>*\<^sup>* (terminal [Rcv_eof] empty_ring) w'
     \<and> jsp_recvs w' = [Rcv_eof] \<and> jsp_server_running w' \<and> jsp_client_fd w' = 11"
proof -
  let ?w = "terminal [Rcv_eof] empty_ring"
  let ?step = "\<lambda>w w'. \<exists>fd sel. jsp_server_pass talking fd sel w = Some w'"
  have recv: "jsp_recv ?w = Some (True, ?w\<lparr>jsp_recvs := [Rcv_eof]\<rparr>)" by (simp add: jsp_recv_def JSP_BUFFER_SIZE_def)
  have same: "?w\<lparr>jsp_recvs := [Rcv_eof]\<rparr> = ?w" by (simp add: terminal_def process.defs jsp_process.defs)
  have "jsp_queue_data_from_client ?w = Some ?w" using recv unfolding same by (simp add: jsp_queue_data_from_client_def)
  then have "jsp_server_pass talking 0 (Select_ready [11]) ?w = Some (?w\<lparr>jtag := lone_jtag DC_JSP,
      jsp_tohw := ring_drop 0 empty_ring, jsp_fromhw := ring_put 0x41 empty_ring\<rparr>)"
    using pass_of_terminal [of "[Rcv_eof]" ?w] serial_talks by (simp add: ring_peek_def)
  then obtain w' where w': "jsp_server_pass talking 0 (Select_ready [11]) ?w = Some w'" "jsp_recvs w' = [Rcv_eof]"
    by simp
  then have "?step ?w w'" by blast
  then have steps: "?step\<^sup>*\<^sup>* ?w w'" by (rule r_into_rtranclp)
  from jsp_client_never_released [OF this] w'(2) steps show ?thesis by (intro exI [of _ w']) simp
qed

lemma serial_takes_none:
  "dbg_serial_sndrcv talking 1 [0x43] (lone_jtag DC_JSP) = Some (APP_ERR_NONE, Some ([0x41], 0), lone_jtag DC_JSP)"
  by code_simp

theorem jsp_pass_in_order_witness:
  "\<exists>w'. jsp_server_pass talking 0 (Select_ready [11]) (terminal [Rcv_bytes [0x43]] empty_ring) = Some w'
     \<and> ring_contents (jsp_tohw w') = [0x43] \<and> jsp_out w' @ ring_contents (jsp_fromhw w') = [0x41]
     \<and> ring_ok (jsp_tohw w') \<and> ring_ok (jsp_fromhw w')"
proof -
  let ?w = "terminal [Rcv_bytes [0x43]] empty_ring"
  let ?w1 = "?w\<lparr>jsp_recvs := [], jsp_tohw := ring_append [0x43] empty_ring\<rparr>"
  have space: "ring_space empty_ring = 256" "rb_count (ring_append [0x43] empty_ring) = 1"
    "rb_wr (ring_append [0x43] empty_ring) = 1" "ring_peek 1 (ring_append [0x43] empty_ring) = [0x43]"
    by (simp_all add: ring_space_def ring_append_def empty_ring_def ring_peek_def JSP_BUFFER_SIZE_def)
  have "jsp_queue_data_from_client ?w = Some ?w1"
    by (simp add: jsp_queue_data_from_client_def jsp_recv_def space JSP_BUFFER_SIZE_def)
  from pass_of_terminal [OF this] have pass: "jsp_server_pass talking 0 (Select_ready [11]) ?w =
      Some (?w1\<lparr>jtag := lone_jtag DC_JSP, jsp_tohw := ring_drop 0 (ring_append [0x43] empty_ring),
        jsp_fromhw := ring_put 0x41 empty_ring\<rparr>)"
    by (simp add: space [unfolded One_nat_def] serial_takes_none [unfolded One_nat_def])
  from jsp_pass_in_order [OF _ _ _ _ _ pass] have
    "ring_ok (ring_drop 0 (ring_append [0x43] empty_ring)) \<and> ring_ok (ring_put 0x41 empty_ring)"
    by simp
  moreover have "ring_contents (ring_drop 0 (ring_append [0x43] empty_ring)) = [0x43]"
    "ring_contents (ring_put 0x41 empty_ring) = [0x41]"
    by (simp_all add: ring_contents_def ring_peek_def ring_drop_def ring_append_def ring_put_def empty_ring_def
        JSP_BUFFER_SIZE_def)
  ultimately show ?thesis using pass by simp
qed

end
