(* ===== verification/Bsdl_Lookup.thy ===== *)
theory Bsdl_Lookup
  imports Bsdl_Parse
begin

unbundle bit_operations_syntax

text \<open>
  bsdl.c: the descriptions read so far and the directories not yet searched. A lookup searches what is
  known, then reads one file after the other until a description matches. The file system is an
  argument: the names in a directory that can be opened, and the answers for a file. A node of the linked
  list never changes, so the pointer to the last one used is a copy of it. The locale \<open>lookup_cache\<close> is
  what the main program relies on. The allocations of \<open>bsdl_init\<close> and \<open>bsdl_add_directory\<close> succeed.
\<close>

definition MAX_BSDL_DIRS :: nat where "MAX_BSDL_DIRS = 64"

record bsdl_fs =
  fs_dir :: "u8 list \<Rightarrow> u8 list list option"
  fs_file :: "u8 list \<Rightarrow> bsdl_os"

record bsdl =
  bsdl_dirs :: "u8 list list"
  bsdl_current_dir :: int
  bsdl_open_dir :: "u8 list list option"
  bsdl_infos :: "bsdlinfo list"
  bsdl_last :: "bsdlinfo option"
  bsdl_scratchpad_size :: nat
  bsdl_reallocs :: "bool list"

definition bsdl_init :: "bool list \<Rightarrow> bsdl" where
  "bsdl_init os =
     \<lparr>bsdl_dirs = [str ''/opt/bsdl'', str ''/usr/share/bsdl'', str ''~/.bsdl'', str ''.''] @ replicate (MAX_BSDL_DIRS - 4) [],
      bsdl_current_dir = 3, bsdl_open_dir = None, bsdl_infos = [], bsdl_last = None,
      bsdl_scratchpad_size = 64, bsdl_reallocs = os\<rparr>"

definition bsdl_add_directory :: "u8 list \<Rightarrow> bsdl \<Rightarrow> bsdl" where
  "bsdl_add_directory dirname st =
     (if bsdl_current_dir st \<ge> int MAX_BSDL_DIRS - 1 then st
      else st\<lparr>bsdl_current_dir := bsdl_current_dir st + 1,
              bsdl_dirs := (bsdl_dirs st)[nat (bsdl_current_dir st + 1) := dirname]\<rparr>)"

definition matches :: "u32 \<Rightarrow> bsdlinfo \<Rightarrow> bool" where
  "matches idcode info \<longleftrightarrow> bi_idcode info AND bi_idcode_mask info = idcode AND bi_idcode_mask info"

definition is_bsdl_file :: "u8 list \<Rightarrow> bool" where
  "is_bsdl_file nm =
     (case strrchr 0x2e nm of
        None \<Rightarrow> False
      | Some c \<Rightarrow> c \<in> {str ''.bsd'', str ''.bsdl'', str ''.BSD'', str ''.BSDL''})"

definition full_path :: "u8 list \<Rightarrow> u8 list \<Rightarrow> u8 list" where
  "full_path dir nm = dir @ 0x2f # nm"

text \<open>
  The path in the scratchpad, which is doubled once if it may not be large enough; no path when that
  fails. \<open>None\<close>: the path is written past the end of the scratchpad.
\<close>

definition scratch_path :: "u8 list \<Rightarrow> u8 list \<Rightarrow> bsdl \<Rightarrow> (u8 list option \<times> bsdl) option" where
  "scratch_path dir nm st =
     (let need = length nm + length dir + 2 in
      if need \<ge> bsdl_scratchpad_size st then
        (let (ok, os) = (case bsdl_reallocs st of [] \<Rightarrow> (True, []) | b # os \<Rightarrow> (b, os));
             st = st\<lparr>bsdl_reallocs := os\<rparr> in
         if \<not> ok then Some (None, st)
         else if need > bsdl_scratchpad_size st * 2 then None
         else Some (Some (full_path dir nm), st\<lparr>bsdl_scratchpad_size := bsdl_scratchpad_size st * 2\<rparr>))
      else Some (Some (full_path dir nm), st))"

lemma scratch_path_keeps:
  "scratch_path dir nm st = Some (r, st') \<Longrightarrow>
     bsdl_open_dir st' = bsdl_open_dir st \<and> bsdl_current_dir st' = bsdl_current_dir st \<and> bsdl_dirs st' = bsdl_dirs st
     \<and> bsdl_infos st' = bsdl_infos st \<and> bsdl_last st' = bsdl_last st"
  by (auto simp: scratch_path_def Let_def split: if_splits list.splits)

text \<open>One iteration per directory opened, directory closed and file.\<close>

function bsdl_search :: "bsdl_fs \<Rightarrow> u32 \<Rightarrow> bsdl \<Rightarrow> (bsdlinfo option \<times> bsdl) option" where
  "bsdl_search fs idcode st =
     (case bsdl_open_dir st of
        None \<Rightarrow>
          (if bsdl_current_dir st < 0 then Some (None, st)
           else bsdl_search fs idcode
                  (st\<lparr>bsdl_open_dir := fs_dir fs (bsdl_dirs st ! nat (bsdl_current_dir st)),
                      bsdl_current_dir := bsdl_current_dir st - 1\<rparr>))
      | Some [] \<Rightarrow> bsdl_search fs idcode (st\<lparr>bsdl_open_dir := None\<rparr>)
      | Some (nm # nms) \<Rightarrow>
          (if \<not> is_bsdl_file nm then bsdl_search fs idcode (st\<lparr>bsdl_open_dir := Some nms\<rparr>)
           else
             (case scratch_path (bsdl_dirs st ! nat (bsdl_current_dir st + 1)) nm (st\<lparr>bsdl_open_dir := Some nms\<rparr>) of
                None \<Rightarrow> None
              | Some (None, st) \<Rightarrow> bsdl_search fs idcode st
              | Some (Some path, st) \<Rightarrow>
                  (case parse_extract_values (fs_file fs path) of
                     None \<Rightarrow> None
                   | Some None \<Rightarrow> bsdl_search fs idcode st
                   | Some (Some info) \<Rightarrow>
                       (if matches idcode info
                        then Some (Some info, st\<lparr>bsdl_infos := bsdl_infos st @ [info], bsdl_last := Some info\<rparr>)
                        else bsdl_search fs idcode (st\<lparr>bsdl_infos := bsdl_infos st @ [info]\<rparr>))))))"
  by pat_completeness auto
termination
  by (relation "measures [\<lambda>(_, _, st). 2 * nat (bsdl_current_dir st + 1) + (if bsdl_open_dir st = None then 0 else 1),
      \<lambda>(_, _, st). case bsdl_open_dir st of None \<Rightarrow> 0 | Some nms \<Rightarrow> length nms]")
    (auto dest!: scratch_path_keeps)

declare bsdl_search.simps [simp del]

definition get_bsdl_info :: "bsdl_fs \<Rightarrow> u32 \<Rightarrow> bsdl \<Rightarrow> (bsdlinfo option \<times> bsdl) option" where
  "get_bsdl_info fs idcode st =
     (case bsdl_last st of
        Some info \<Rightarrow> if matches idcode info then Some (Some info, st) else
          (case find (matches idcode) (bsdl_infos st) of
             Some info \<Rightarrow> Some (Some info, st\<lparr>bsdl_last := Some info\<rparr>)
           | None \<Rightarrow> bsdl_search fs idcode st)
      | None \<Rightarrow>
          (case find (matches idcode) (bsdl_infos st) of
             Some info \<Rightarrow> Some (Some info, st\<lparr>bsdl_last := Some info\<rparr>)
           | None \<Rightarrow> bsdl_search fs idcode st))"

definition bsdl_get_name :: "bsdl_fs \<Rightarrow> u32 \<Rightarrow> bsdl \<Rightarrow> (u8 list option \<times> bsdl) option" where
  "bsdl_get_name fs idcode st =
     do { (info, st) \<leftarrow> get_bsdl_info fs idcode st; Some (case info of Some i \<Rightarrow> bi_name i | None \<Rightarrow> None, st) }"

definition bsdl_get_IR_size :: "bsdl_fs \<Rightarrow> u32 \<Rightarrow> bsdl \<Rightarrow> (int \<times> bsdl) option" where
  "bsdl_get_IR_size fs idcode st =
     do { (info, st) \<leftarrow> get_bsdl_info fs idcode st; Some (case info of Some i \<Rightarrow> bi_IR_size i | None \<Rightarrow> -1, st) }"

definition bsdl_get_debug_cmd :: "bsdl_fs \<Rightarrow> u32 \<Rightarrow> bsdl \<Rightarrow> (u32 \<times> bsdl) option" where
  "bsdl_get_debug_cmd fs idcode st =
     do { (info, st) \<leftarrow> get_bsdl_info fs idcode st;
          Some (case info of Some i \<Rightarrow> bi_cmd_debug i | None \<Rightarrow> TAP_CMD_INVALID, st) }"

definition bsdl_get_user1_cmd :: "bsdl_fs \<Rightarrow> u32 \<Rightarrow> bsdl \<Rightarrow> (u32 \<times> bsdl) option" where
  "bsdl_get_user1_cmd fs idcode st =
     do { (info, st) \<leftarrow> get_bsdl_info fs idcode st;
          Some (case info of Some i \<Rightarrow> bi_cmd_user1 i | None \<Rightarrow> TAP_CMD_INVALID, st) }"

definition bsdl_get_idcode_cmd :: "bsdl_fs \<Rightarrow> u32 \<Rightarrow> bsdl \<Rightarrow> (u32 \<times> bsdl) option" where
  "bsdl_get_idcode_cmd fs idcode st =
     do { (info, st) \<leftarrow> get_bsdl_info fs idcode st;
          Some (case info of Some i \<Rightarrow> bi_cmd_idcode i | None \<Rightarrow> TAP_CMD_INVALID, st) }"

subsection \<open>What a lookup promises\<close>

text \<open>
  \<open>known\<close>: all there is to be found. A lookup does not change it, finds something exactly if there is
  something, and finds it again.
\<close>

locale lookup_cache =
  fixes known :: "'st \<Rightarrow> 'i list"
    and okay :: "'st \<Rightarrow> bool"
    and matching :: "'k \<Rightarrow> 'i \<Rightarrow> bool"
    and lookup :: "'k \<Rightarrow> 'st \<Rightarrow> ('i option \<times> 'st) option"
  assumes keeps: "okay st \<Longrightarrow> lookup k st = Some (r, st') \<Longrightarrow> okay st' \<and> known st' = known st"
    and found: "okay st \<Longrightarrow> lookup k st = Some (Some i, st') \<Longrightarrow> i \<in> set (known st) \<and> matching k i"
    and missing: "okay st \<Longrightarrow> lookup k st = Some (None, st') \<Longrightarrow> i \<in> set (known st) \<Longrightarrow> \<not> matching k i"
begin

definition lookups :: "'st \<Rightarrow> 'st \<Rightarrow> bool" where
  "lookups = (\<lambda>st st'. \<exists>k r. lookup k st = Some (r, st'))\<^sup>*\<^sup>*"

lemma lookups_keep: "lookups st st' \<Longrightarrow> okay st \<Longrightarrow> okay st' \<and> known st' = known st"
  unfolding lookups_def by (induction rule: rtranclp_induct) (auto dest: keeps)

lemma answer:
  assumes "okay st0" "lookups st0 st" "lookup k st = Some (r, st')"
  shows "case r of None \<Rightarrow> \<forall>i \<in> set (known st0). \<not> matching k i
    | Some i \<Rightarrow> i \<in> set (known st0) \<and> matching k i"
  using lookups_keep [OF assms(2,1)] found [of st k _ st'] missing [of st k st'] assms(3)
  by (auto split: option.splits)

lemma unique_answer:
  assumes "okay st0" "lookups st0 st" "lookup k st = Some (r, st')"
    and "i \<in> set (known st0)" "\<And>j. j \<in> set (known st0) \<Longrightarrow> matching k j \<longleftrightarrow> j = i"
  shows "r = Some i"
  using answer [OF assms(1-3)] assms(4,5) by (auto split: option.splits)

end

subsection \<open>All there is to be found\<close>

definition file_infos :: "bsdl_fs \<Rightarrow> u8 list \<Rightarrow> u8 list \<Rightarrow> bsdlinfo list" where
  "file_infos fs dir nm =
     (if is_bsdl_file nm
      then (case parse_extract_values (fs_file fs (full_path dir nm)) of Some (Some info) \<Rightarrow> [info] | _ \<Rightarrow> [])
      else [])"

definition dir_infos :: "bsdl_fs \<Rightarrow> u8 list \<Rightarrow> u8 list list option \<Rightarrow> bsdlinfo list" where
  "dir_infos fs dir r = (case r of None \<Rightarrow> [] | Some nms \<Rightarrow> concat (map (file_infos fs dir) nms))"

fun closed_infos :: "bsdl_fs \<Rightarrow> u8 list list \<Rightarrow> nat \<Rightarrow> bsdlinfo list" where
  "closed_infos fs dirs 0 = []"
| "closed_infos fs dirs (Suc k) = dir_infos fs (dirs ! k) (fs_dir fs (dirs ! k)) @ closed_infos fs dirs k"

definition pending_infos :: "bsdl_fs \<Rightarrow> bsdl \<Rightarrow> bsdlinfo list" where
  "pending_infos fs st =
     dir_infos fs (bsdl_dirs st ! nat (bsdl_current_dir st + 1)) (bsdl_open_dir st)
     @ closed_infos fs (bsdl_dirs st) (nat (bsdl_current_dir st + 1))"

definition known_infos :: "bsdl_fs \<Rightarrow> bsdl \<Rightarrow> bsdlinfo list" where
  "known_infos fs st = bsdl_infos st @ pending_infos fs st"

text \<open>No reallocation is going to fail, and the last description used is one of those read.\<close>

definition bsdl_ok :: "bsdl \<Rightarrow> bool" where
  "bsdl_ok st \<longleftrightarrow> bsdl_reallocs st = [] \<and> bsdl_current_dir st \<ge> -1
     \<and> (\<forall>info. bsdl_last st = Some info \<longrightarrow> info \<in> set (bsdl_infos st))"

lemma find_append: "find P (xs @ ys) = (case find P xs of Some x \<Rightarrow> Some x | None \<Rightarrow> find P ys)"
  by (induction xs) simp_all

lemma find_SomeD: "find P xs = Some x \<Longrightarrow> x \<in> set xs \<and> P x"
  by (auto simp: find_Some_iff)

lemma scratch_path_ok:
  "scratch_path dir nm st = Some (r, st') \<Longrightarrow> bsdl_reallocs st = [] \<Longrightarrow>
     r = Some (full_path dir nm) \<and> bsdl_reallocs st' = []"
  by (auto simp: scratch_path_def Let_def split: if_splits)

lemma pending_next:
  assumes "bsdl_open_dir st = Some (nm # nms)" "bsdl_open_dir st' = Some nms"
    "bsdl_dirs st' = bsdl_dirs st" "bsdl_current_dir st' = bsdl_current_dir st"
  shows "pending_infos fs st = file_infos fs (bsdl_dirs st ! nat (bsdl_current_dir st + 1)) nm @ pending_infos fs st'"
  using assms by (simp add: pending_infos_def dir_infos_def)

definition search_result :: "bsdl_fs \<Rightarrow> u32 \<Rightarrow> bsdl \<Rightarrow> bsdlinfo option \<Rightarrow> bsdl \<Rightarrow> bool" where
  "search_result fs idcode st r st' \<longleftrightarrow>
     r = find (matches idcode) (pending_infos fs st) \<and> bsdl_ok st' \<and> known_infos fs st' = known_infos fs st
     \<and> (case r of Some info \<Rightarrow> bsdl_last st' = Some info
        | None \<Rightarrow> bsdl_open_dir st' = None \<and> bsdl_current_dir st' < 0)"

lemma search_result_same:
  "search_result fs idcode st1 r st' \<Longrightarrow> pending_infos fs st1 = pending_infos fs st \<Longrightarrow>
     bsdl_infos st1 = bsdl_infos st \<Longrightarrow> search_result fs idcode st r st'"
  unfolding search_result_def known_infos_def by (elim conjE) (simp only: simp_thms)

lemma search_result_more:
  "search_result fs idcode st1 r st' \<Longrightarrow> pending_infos fs st = info # pending_infos fs st1 \<Longrightarrow>
     bsdl_infos st1 = bsdl_infos st @ [info] \<Longrightarrow> \<not> matches idcode info \<Longrightarrow> search_result fs idcode st r st'"
  unfolding search_result_def known_infos_def by (elim conjE) (simp only: simp_thms find.simps if_False append.simps append_assoc)

lemma search_spec:
  "bsdl_search fs idcode st = Some (r, st') \<Longrightarrow> bsdl_ok st \<Longrightarrow> search_result fs idcode st r st'"
proof (induction fs idcode st rule: bsdl_search.induct)
  case (1 fs idcode st)
  note run = "1.prems"(1) [unfolded bsdl_search.simps [of fs idcode st]] and ok = "1.prems"(2)
  show ?case
  proof (cases "bsdl_open_dir st")
    case None
    show ?thesis
    proof (cases "bsdl_current_dir st < 0")
      case True
      with None run ok show ?thesis by (auto simp: search_result_def pending_infos_def dir_infos_def)
    next
      case False
      let ?st = "st\<lparr>bsdl_open_dir := fs_dir fs (bsdl_dirs st ! nat (bsdl_current_dir st)),
          bsdl_current_dir := bsdl_current_dir st - 1\<rparr>"
      have "nat (bsdl_current_dir st + 1) = Suc (nat (bsdl_current_dir st))" using False by simp
      then have "pending_infos fs ?st = pending_infos fs st"
        using None by (simp add: pending_infos_def dir_infos_def)
      moreover have "bsdl_ok ?st" using ok False by (simp add: bsdl_ok_def)
      moreover have "bsdl_search fs idcode ?st = Some (r, st')" using run None False by simp
      ultimately show ?thesis using 1(1) [OF None False] search_result_same by simp
    qed
  next
    case (Some names)
    show ?thesis
    proof (cases names)
      case Nil
      let ?st = "st\<lparr>bsdl_open_dir := None\<rparr>"
      have "pending_infos fs ?st = pending_infos fs st" using Some Nil by (simp add: pending_infos_def dir_infos_def)
      moreover have "bsdl_ok ?st" using ok by (simp add: bsdl_ok_def)
      moreover have "bsdl_search fs idcode ?st = Some (r, st')" using run Some Nil by simp
      ultimately show ?thesis using 1(2) [OF Some Nil] search_result_same by simp
    next
      case (Cons nm nms)
      note here = Some [unfolded Cons]
      let ?dir = "bsdl_dirs st ! nat (bsdl_current_dir st + 1)"
      let ?st = "st\<lparr>bsdl_open_dir := Some nms\<rparr>"
      have ok': "bsdl_ok ?st" using ok by (simp add: bsdl_ok_def)
      show ?thesis
      proof (cases "is_bsdl_file nm")
        case False
        have "pending_infos fs ?st = pending_infos fs st"
          using pending_next [OF here, of ?st fs] False by (simp add: file_infos_def)
        moreover have "bsdl_search fs idcode ?st = Some (r, st')" using run here False by simp
        ultimately show ?thesis using 1(3) [OF Some Cons False _ ok'] search_result_same by simp
      next
        case True
        with run here obtain p st2 where scratch: "scratch_path ?dir nm ?st = Some (p, st2)"
          by (cases "scratch_path ?dir nm ?st") auto
        note same = scratch_path_keeps [OF scratch]
        have p: "p = Some (full_path ?dir nm)" "bsdl_reallocs st2 = []"
          using scratch_path_ok [OF scratch] ok by (simp_all add: bsdl_ok_def)
        have ok2: "bsdl_ok st2" using ok p(2) same by (simp add: bsdl_ok_def)
        have pend: "pending_infos fs st = file_infos fs ?dir nm @ pending_infos fs st2"
          using same by (intro pending_next [OF here]) simp_all
        from run here True scratch p obtain q where
          q: "parse_extract_values (fs_file fs (full_path ?dir nm)) = Some q"
          by (cases "parse_extract_values (fs_file fs (full_path ?dir nm))") auto
        have infos: "file_infos fs ?dir nm = (case q of Some info \<Rightarrow> [info] | None \<Rightarrow> [])"
          using True q by (simp add: file_infos_def split: option.splits)
        have T: "\<not> \<not> is_bsdl_file nm" using True by simp
        note ih = Some Cons T scratch refl p(1)
        show ?thesis
        proof (cases q)
          case None
          have "bsdl_search fs idcode st2 = Some (r, st')" using run here True scratch p q None by simp
          from 1(5) [OF ih q None this ok2] show ?thesis
            by (rule search_result_same) (use pend infos None same in simp_all)
        next
          case (Some info)
          let ?st2 = "st2\<lparr>bsdl_infos := bsdl_infos st2 @ [info]\<rparr>"
          have pend': "pending_infos fs st = info # pending_infos fs ?st2"
            using pend infos Some by (simp add: pending_infos_def)
          show ?thesis
          proof (cases "matches idcode info")
            case True
            with run here T scratch p q Some have res: "r = Some info" "st' = ?st2\<lparr>bsdl_last := Some info\<rparr>" by auto
            have "pending_infos fs st' = pending_infos fs ?st2" by (simp add: res(2) pending_infos_def)
            moreover have "bsdl_ok st'" using ok2 by (simp add: res(2) bsdl_ok_def)
            ultimately show ?thesis
              using pend' True res same by (simp add: search_result_def known_infos_def)
          next
            case False
            have "bsdl_search fs idcode ?st2 = Some (r, st')" using run here T scratch p q Some False by simp
            moreover have "bsdl_ok ?st2" using ok2 by (auto simp: bsdl_ok_def)
            ultimately have "search_result fs idcode ?st2 r st'" using 1(6) [OF ih q Some False] by simp
            then show ?thesis by (rule search_result_more [OF _ pend' _ False]) (use same in simp)
          qed
        qed
      qed
    qed
  qed
qed


lemma get_spec:
  assumes "get_bsdl_info fs idcode st = Some (r, st')" "bsdl_ok st"
  shows "bsdl_ok st' \<and> known_infos fs st' = known_infos fs st
     \<and> r = (if \<exists>info. bsdl_last st = Some info \<and> matches idcode info then bsdl_last st
            else find (matches idcode) (known_infos fs st))
     \<and> get_bsdl_info fs idcode st' = Some (r, st')"
proof (cases "\<exists>info. bsdl_last st = Some info \<and> matches idcode info")
  case True
  then obtain info where info: "bsdl_last st = Some info" "matches idcode info" by blast
  with assms(1) have "r = Some info" "st' = st" by (simp_all add: get_bsdl_info_def)
  with info assms show ?thesis by simp
next
  case False
  have run: "(case find (matches idcode) (bsdl_infos st) of
        Some info \<Rightarrow> Some (Some info, st\<lparr>bsdl_last := Some info\<rparr>)
      | None \<Rightarrow> bsdl_search fs idcode st) = Some (r, st')"
    using assms(1) False by (auto simp: get_bsdl_info_def split: option.splits if_splits)
  show ?thesis
  proof (cases "find (matches idcode) (bsdl_infos st)")
    case (Some info)
    then have i: "info \<in> set (bsdl_infos st)" "matches idcode info" by (auto simp: find_Some_iff)
    have res: "r = Some info" "st' = st\<lparr>bsdl_last := Some info\<rparr>" using run Some by auto
    have "bsdl_ok st'" using assms(2) i by (simp add: res(2) bsdl_ok_def)
    moreover have "known_infos fs st' = known_infos fs st" by (simp add: res(2) known_infos_def pending_infos_def)
    moreover have "find (matches idcode) (known_infos fs st) = Some info" by (simp add: known_infos_def find_append Some)
    moreover have "get_bsdl_info fs idcode st' = Some (r, st')" by (simp add: res get_bsdl_info_def i(2))
    ultimately show ?thesis by (simp only: if_not_P [OF False] res(1) simp_thms)
  next
    case None
    with run have "bsdl_search fs idcode st = Some (r, st')" by simp
    from search_spec [OF this assms(2)] have
      post: "r = find (matches idcode) (pending_infos fs st)" "bsdl_ok st'" "known_infos fs st' = known_infos fs st"
        "case r of Some info \<Rightarrow> bsdl_last st' = Some info | None \<Rightarrow> bsdl_open_dir st' = None \<and> bsdl_current_dir st' < 0"
      unfolding search_result_def by blast+
    have find: "find (matches idcode) (known_infos fs st) = r"
      by (simp add: known_infos_def find_append None post(1))
    have "get_bsdl_info fs idcode st' = Some (r, st')"
    proof (cases r)
      case (Some info)
      then have "matches idcode info" using post(1) by (auto simp: find_Some_iff)
      with Some post(4) show ?thesis by (simp add: get_bsdl_info_def)
    next
      case None
      have "find (matches idcode) (known_infos fs st') = None" using find None post(3) by simp
      then have "find (matches idcode) (bsdl_infos st') = None"
        by (simp add: known_infos_def find_append split: option.splits)
      moreover have "\<not> (\<exists>info. bsdl_last st' = Some info \<and> matches idcode info)"
        using calculation post(2) by (auto simp: bsdl_ok_def find_None_iff)
      ultimately show ?thesis
        using None post(4) by (auto simp: get_bsdl_info_def bsdl_search.simps [of fs idcode st'] split: option.splits)
    qed
    with post find False show ?thesis by auto
  qed
qed

interpretation bl: lookup_cache "known_infos fs" bsdl_ok matches "get_bsdl_info fs" for fs
proof
  show "bsdl_ok st' \<and> known_infos fs st' = known_infos fs st"
    if "bsdl_ok st" "get_bsdl_info fs k st = Some (r, st')" for st k r st'
    using get_spec [OF that(2,1)] by blast
  show "i \<in> set (known_infos fs st) \<and> matches k i"
    if "bsdl_ok st" "get_bsdl_info fs k st = Some (Some i, st')" for st k i st'
  proof (cases "\<exists>info. bsdl_last st = Some info \<and> matches k info")
    case True
    with get_spec [OF that(2,1)] have "bsdl_last st = Some i" "matches k i" by auto
    with that(1) show ?thesis by (simp add: bsdl_ok_def known_infos_def)
  next
    case False
    with get_spec [OF that(2,1)] have "find (matches k) (known_infos fs st) = Some i" by simp
    then show ?thesis by (rule find_SomeD)
  qed
  show "\<not> matches k i"
    if "bsdl_ok st" "get_bsdl_info fs k st = Some (None, st')" "i \<in> set (known_infos fs st)" for st k st' i
    using get_spec [OF that(2,1)] that(3)
    by (metis find_None_iff option.distinct(1))
qed

text \<open>
  C30. Lookups read the files only as far as they have to, yet answer as if all had been read. After any
  sequence of lookups from a state in which nothing is going to fail, a lookup that returns finds a
  description exactly if one of those in the files (and of those already read) matches the ID code under
  its mask, and what it finds is one of these; the set of descriptions is the same afterwards, and the
  same lookup again gives the same answer and changes nothing.
\<close>

theorem bsdl_lookup_complete:
  assumes "bsdl_ok st0" "(\<lambda>st st'. \<exists>k r. get_bsdl_info fs k st = Some (r, st'))\<^sup>*\<^sup>* st0 st"
    and "get_bsdl_info fs idcode st = Some (r, st')"
  shows "(case r of
       None \<Rightarrow> \<forall>info \<in> set (known_infos fs st0). \<not> matches idcode info
     | Some info \<Rightarrow> info \<in> set (known_infos fs st0) \<and> matches idcode info)
     \<and> known_infos fs st' = known_infos fs st0 \<and> get_bsdl_info fs idcode st' = Some (r, st')"
proof -
  have steps: "bl.lookups fs st0 st" using assms(2) by (simp add: bl.lookups_def)
  note ok = bl.lookups_keep [OF steps assms(1)]
  from bl.answer [OF assms(1) steps assms(3)] get_spec [OF assms(3)] ok show ?thesis by auto
qed

text \<open>For the concrete runs: one file in the current directory.\<close>

definition one_file :: "u8 list \<Rightarrow> bsdl_fs" where
  "one_file text =
     \<lparr>fs_dir = (\<lambda>d. if d = str ''.'' then Some [str ''readme'', str ''x.bsd''] else None),
      fs_file = (\<lambda>p. \<lparr>os_contents = if p = str ''./x.bsd'' then Some text else None, os_filedata = True,
        os_strdup = True, os_cmdbuf = True, os_info = True\<rparr>)\<rparr>"

definition sample_text :: "u8 list" where
  "sample_text = str ''entity XC is'' @ 0x0a
     # str ''attribute IDCODE_REGISTER of XC : entity is '' @ 0x22 # str ''XXXX0000000000000000000000000011'' @ [0x22, 0x3b, 0x0a]"

lemma sample_lookup:
  "(case get_bsdl_info (one_file sample_text) 0x10000003 (bsdl_init []) of
      Some (Some i, st) \<Rightarrow> bi_name i = Some (str ''XC'') \<and> bi_idcode i = 3 \<and> bi_idcode_mask i = 0x0fffffff
    | _ \<Rightarrow> False)"
  by code_simp

lemma bsdl_init_ok: "bsdl_ok (bsdl_init [])"
  by (simp add: bsdl_init_def bsdl_ok_def)

theorem bsdl_lookup_complete_witness:
  "\<exists>i st'. get_bsdl_info (one_file sample_text) 0x10000003 (bsdl_init []) = Some (Some i, st')
     \<and> get_bsdl_info (one_file sample_text) 0x10000003 st' = Some (Some i, st')"
proof -
  obtain i st' where "get_bsdl_info (one_file sample_text) 0x10000003 (bsdl_init []) = Some (Some i, st')"
    using sample_lookup by (auto split: option.splits prod.splits)
  with bsdl_lookup_complete [OF bsdl_init_ok rtranclp.rtrancl_refl this] show ?thesis by blast
qed

subsection \<open>Lookups return\<close>

definition readable :: "bsdl_fs \<Rightarrow> nat \<Rightarrow> u8 list \<Rightarrow> u8 list \<Rightarrow> bool" where
  "readable fs cap dir nm \<longleftrightarrow> is_bsdl_file nm \<longrightarrow>
     parse_extract_values (fs_file fs (full_path dir nm)) \<noteq> None \<and> length nm + length dir + 2 \<le> cap"

definition all_readable :: "bsdl_fs \<Rightarrow> bsdl \<Rightarrow> bool" where
  "all_readable fs st \<longleftrightarrow>
     (\<forall>nms. bsdl_open_dir st = Some nms \<longrightarrow>
        list_all (readable fs (bsdl_scratchpad_size st) (bsdl_dirs st ! nat (bsdl_current_dir st + 1))) nms)
     \<and> (\<forall>i. 0 \<le> i \<and> i \<le> bsdl_current_dir st \<longrightarrow>
        (\<forall>nms. fs_dir fs (bsdl_dirs st ! nat i) = Some nms \<longrightarrow>
           list_all (readable fs (bsdl_scratchpad_size st) (bsdl_dirs st ! nat i)) nms))"

lemma readable_mono:
  "list_all (readable fs cap dir) nms \<Longrightarrow> cap \<le> cap' \<Longrightarrow> list_all (readable fs cap' dir) nms"
  by (erule list.pred_mono_strong) (auto simp: readable_def)

lemma all_readable_mono:
  assumes "all_readable fs st" "bsdl_open_dir st' = bsdl_open_dir st" "bsdl_current_dir st' = bsdl_current_dir st"
    "bsdl_dirs st' = bsdl_dirs st" "bsdl_scratchpad_size st \<le> bsdl_scratchpad_size st'"
  shows "all_readable fs st'"
  using assms(1) readable_mono [OF _ assms(5)] unfolding all_readable_def assms(2-4) by blast

lemma scratch_path_returns:
  assumes "length nm + length dir + 2 \<le> bsdl_scratchpad_size st"
  obtains p st' where "scratch_path dir nm st = Some (p, st')" "bsdl_scratchpad_size st \<le> bsdl_scratchpad_size st'"
    "p = None \<or> p = Some (full_path dir nm)"
proof -
  obtain ok os where os: "(case bsdl_reallocs st of [] \<Rightarrow> (True, []) | b # os \<Rightarrow> (b, os)) = (ok, os)" by fastforce
  have "\<exists>p st'. scratch_path dir nm st = Some (p, st') \<and> bsdl_scratchpad_size st \<le> bsdl_scratchpad_size st'
      \<and> (p = None \<or> p = Some (full_path dir nm))"
    using assms by (cases ok) (auto simp: scratch_path_def os Let_def)
  then show thesis using that by blast
qed

lemma search_returns: "all_readable fs st \<Longrightarrow> \<exists>y. bsdl_search fs idcode st = Some y"
proof (induction fs idcode st rule: bsdl_search.induct)
  case (1 fs idcode st)
  show ?case
  proof (cases "bsdl_open_dir st")
    case None
    show ?thesis
    proof (cases "bsdl_current_dir st < 0")
      case True
      with None show ?thesis by (simp add: bsdl_search.simps [of fs idcode st])
    next
      case False
      let ?st = "st\<lparr>bsdl_open_dir := fs_dir fs (bsdl_dirs st ! nat (bsdl_current_dir st)),
          bsdl_current_dir := bsdl_current_dir st - 1\<rparr>"
      have "all_readable fs ?st" using "1.prems" False by (auto simp: all_readable_def)
      from 1(1) [OF None False this] None False show ?thesis by (simp add: bsdl_search.simps [of fs idcode st])
    qed
  next
    case (Some names)
    show ?thesis
    proof (cases names)
      case Nil
      have "all_readable fs (st\<lparr>bsdl_open_dir := None\<rparr>)" using "1.prems" by (simp add: all_readable_def)
      from 1(2) [OF Some Nil this] Some Nil show ?thesis by (simp add: bsdl_search.simps [of fs idcode st])
    next
      case (Cons nm nms)
      let ?dir = "bsdl_dirs st ! nat (bsdl_current_dir st + 1)"
      let ?st = "st\<lparr>bsdl_open_dir := Some nms\<rparr>"
      have all: "all_readable fs ?st" and entry: "readable fs (bsdl_scratchpad_size st) ?dir nm"
        using "1.prems" Some Cons by (simp_all add: all_readable_def)
      show ?thesis
      proof (cases "is_bsdl_file nm")
        case False
        from 1(3) [OF Some Cons False all] Some Cons False show ?thesis by (simp add: bsdl_search.simps [of fs idcode st])
      next
        case True
        with entry have read: "parse_extract_values (fs_file fs (full_path ?dir nm)) \<noteq> None"
            "length nm + length ?dir + 2 \<le> bsdl_scratchpad_size st"
          by (simp_all add: readable_def)
        then obtain q where q: "parse_extract_values (fs_file fs (full_path ?dir nm)) = Some q" by blast
        have short: "length nm + length ?dir + 2 \<le> bsdl_scratchpad_size ?st" using read(2) by simp
        obtain p st2 where scratch: "scratch_path ?dir nm ?st = Some (p, st2)"
          and size: "bsdl_scratchpad_size ?st \<le> bsdl_scratchpad_size st2" and p: "p = None \<or> p = Some (full_path ?dir nm)"
          by (rule scratch_path_returns [OF short])
        have all2: "all_readable fs (st2\<lparr>bsdl_infos := is\<rparr>)" for "is"
          using scratch_path_keeps [OF scratch] size by (intro all_readable_mono [OF all]) simp_all
        have all2': "all_readable fs st2"
          using scratch_path_keeps [OF scratch] size by (intro all_readable_mono [OF all]) simp_all
        have T: "\<not> \<not> is_bsdl_file nm" using True by simp
        note unfold = bsdl_search.simps [of fs idcode st] Some Cons True scratch
        show ?thesis
        proof (cases p)
          case None
          from 1(4) [OF Some Cons T scratch refl None all2'] unfold None show ?thesis by simp
        next
          case (Some path)
          with p have path: "p = Some (full_path ?dir nm)" by simp
          note ih = \<open>bsdl_open_dir st = Some names\<close> Cons T scratch refl path q
          show ?thesis
          proof (cases q)
            case None
            from 1(5) [OF ih None all2'] unfold path q None show ?thesis by simp
          next
            case (Some info)
            from 1(6) [OF ih Some _ all2] unfold path q Some show ?thesis by (cases "matches idcode info") simp_all
          qed
        qed
      qed
    qed
  qed
qed

text \<open>
  C31. A lookup returns whenever every description file in the directories not yet searched can be read
  to its end and every path fits into the scratchpad, whether or not the reallocation of the scratchpad
  succeeds.
\<close>

theorem bsdl_lookup_returns:
  assumes "all_readable fs st"
  shows "\<exists>y. get_bsdl_info fs idcode st = Some y"
  using search_returns [OF assms, of idcode] by (auto simp: get_bsdl_info_def split: option.splits)

lemma sample_readable: "all_readable (one_file sample_text) (bsdl_init [False])"
proof -
  have "list_all (readable (one_file sample_text) 64 (str ''.'')) [str ''readme'', str ''x.bsd'']" by code_simp
  then show ?thesis by (auto simp: all_readable_def bsdl_init_def one_file_def split: if_splits)
qed

theorem bsdl_lookup_returns_witness:
  "\<exists>y. get_bsdl_info (one_file sample_text) 5 (bsdl_init [False]) = Some y"
  by (rule bsdl_lookup_returns [OF sample_readable])

end
