(* ===== verification/Bridge_Setup.thy ===== *)
theory Bridge_Setup
  imports Bsdl_Lookup Tap_Transactions
begin

unbundle bit_operations_syntax

text \<open>
  adv_jtag_bridge.c up to the servers: the command line, and the configuration of the scan chain from
  the ID codes, the device descriptions and the settings given by hand. The options \<open>getopt\<close> finds are
  arguments, as are the outcomes of \<open>realloc\<close>. \<open>None\<close> is \<open>exit\<close>, too.
\<close>

definition IR_START_SETS :: nat where "IR_START_SETS = 16"
definition ALTERA_MANUFACTURER_ID :: u32 where "ALTERA_MANUFACTURER_ID = 0x6E"
definition XILINX_MANUFACTURER_ID :: u32 where "XILINX_MANUFACTURER_ID = 0x49"
definition default_port :: string where "default_port = ''9999''"
definition default_jspport :: string where "default_jspport = ''9944''"
definition default_hwpport :: string where "default_hwpport = ''9928''"

record irset =
  dev_index :: int
  ir_length :: int

record 's startup =
  su_jtag :: "'s jtag"
  su_bsdl :: bsdl
  cable_in_use :: "'s jtag_cable_t option"
  target_dev_pos :: u32
  do_selftest :: bool
  cmd_line_ir_sizes :: "irset list"
  ir_reallocs :: nat
  ir_realloc_answers :: "bool list"
  cmd_line_cmd_debug :: int
  port :: "string option"
  jspport :: "string option"
  hwpport :: "string option"
  force_alt_vjtag :: int
  idcodes :: "u32 list"

subsection \<open>The command line\<close>

definition get_ir_opts :: "u8 list \<Rightarrow> (int \<times> int) option" where
  "get_ir_opts optstr =
     (case strstr (str '':'') optstr of
        None \<Rightarrow> None
      | Some ptr \<Rightarrow>
          Some (sint (strtoul 10 (take (length optstr - length ptr) optstr)), sint (strtoul 10 (tl ptr))))"

definition add_ir_set :: "int \<Rightarrow> int \<Rightarrow> 's startup \<Rightarrow> 's startup option" where
  "add_ir_set idx val st =
     (let sets = cmd_line_ir_sizes st @ [\<lparr>dev_index = idx, ir_length = val\<rparr>] in
      if length (cmd_line_ir_sizes st) \<ge> IR_START_SETS * 2 ^ ir_reallocs st then
        (let (ok, os) = (case ir_realloc_answers st of [] \<Rightarrow> (True, []) | b # os \<Rightarrow> (b, os)) in
         if \<not> ok then None
         else Some (st\<lparr>ir_reallocs := ir_reallocs st + 1, ir_realloc_answers := os, cmd_line_ir_sizes := sets\<rparr>))
      else Some (st\<lparr>cmd_line_ir_sizes := sets\<rparr>))"

text \<open>One round of the loop over the global options.\<close>

definition parse_opt :: "char \<times> string \<Rightarrow> 's startup \<Rightarrow> 's startup option" where
  "parse_opt opt st =
     (let (c, optarg) = opt; s = str optarg in
      if c = CHR ''g'' then Some (st\<lparr>port := Some optarg\<rparr>)
      else if c = CHR ''j'' then Some (st\<lparr>jspport := Some optarg\<rparr>)
      else if c = CHR ''w'' then Some (st\<lparr>hwpport := Some optarg\<rparr>)
      else if c = CHR ''x'' then Some (st\<lparr>target_dev_pos := of_int (fst (strtol10 s))\<rparr>)
      else if c = CHR ''l'' then do { (idx, val) \<leftarrow> get_ir_opts s; add_ir_set idx val st }
      else if c = CHR ''c'' then Some (st\<lparr>cmd_line_cmd_debug := sint (strtoul 16 s)\<rparr>)
      else if c = CHR ''v'' then Some (st\<lparr>su_jtag := config_set_vjtag_cmd_vir (strtoul 16 s) (su_jtag st)\<rparr>)
      else if c = CHR ''r'' then Some (st\<lparr>su_jtag := config_set_vjtag_cmd_vdr (strtoul 16 s) (su_jtag st)\<rparr>)
      else if c = CHR ''t'' then Some (st\<lparr>do_selftest := True\<rparr>)
      else if c = CHR ''a'' then Some (st\<lparr>force_alt_vjtag := (if fst (strtol10 s) = 1 then 1 else -1)\<rparr>)
      else if c = CHR ''b'' then Some (st\<lparr>su_bsdl := bsdl_add_directory s (su_bsdl st)\<rparr>)
      else None)"

fun parse_opts :: "(char \<times> string) list \<Rightarrow> 's startup \<Rightarrow> 's startup option" where
  "parse_opts [] st = Some st"
| "parse_opts (opt # os) st = do { st \<leftarrow> parse_opt opt st; parse_opts os st }"

text \<open>The search for the name of a cable among the arguments that are no options.\<close>

fun find_cable :: "string list \<Rightarrow> 's jtag_cable_t list \<Rightarrow> 's jtag_cable_t option" where
  "find_cable [] cables = None"
| "find_cable (a # as) cables =
     (let (e, found) = cable_select a cables None in
      if e = APP_ERR_NONE then found else find_cable as cables)"

fun parse_cable_opts :: "(int \<times> string) list \<Rightarrow> 's startup \<Rightarrow> 's startup option" where
  "parse_cable_opts [] st = Some st"
| "parse_cable_opts ((c, arg) # os) st =
     (if c = 63 then None
      else do { (e, s) \<leftarrow> cable_parse_opt (cable_in_use st) c arg (cable (su_jtag st));
                (if e \<noteq> APP_ERR_NONE then None
                 else parse_cable_opts os (st\<lparr>su_jtag := (su_jtag st)\<lparr>cable := s\<rparr>\<rparr>)) })"

text \<open>
  \<open>options\<close> are the global options, \<open>args\<close> the arguments from \<open>optind\<close> on; \<open>cable_getopt\<close> is the second
  series of calls of \<open>getopt\<close>, over the arguments behind the first of \<open>args\<close>.
\<close>

definition parse_args ::
  "'s jtag_cable_t list \<Rightarrow> (char \<times> string) list \<Rightarrow> string list \<Rightarrow> (string list \<Rightarrow> string option \<Rightarrow> (int \<times> string) list)
     \<Rightarrow> 's startup \<Rightarrow> 's startup option" where
  "parse_args cables options args cable_getopt st =
     (let st = st\<lparr>port := None, jspport := None, hwpport := None, force_alt_vjtag := 0, cmd_line_cmd_debug := -1\<rparr> in
      do { st \<leftarrow> parse_opts options st;
           let st = st\<lparr>port := Some (case port st of Some p \<Rightarrow> p | None \<Rightarrow> default_port),
                       jspport := Some (case jspport st of Some p \<Rightarrow> p | None \<Rightarrow> default_jspport),
                       hwpport := Some (case hwpport st of Some p \<Rightarrow> p | None \<Rightarrow> default_hwpport)\<rparr>;
           c \<leftarrow> find_cable args cables;
           parse_cable_opts (cable_getopt (tl args) (cable_get_args (Some c))) (st\<lparr>cable_in_use := Some c\<rparr>) })"

subsection \<open>What is known about a device\<close>

definition override :: "irset list \<Rightarrow> int \<Rightarrow> int \<Rightarrow> int" where
  "override sets devidx v = foldl (\<lambda>v s. if dev_index s = devidx then ir_length s else v) v sets"

definition get_IR_size :: "bsdl_fs \<Rightarrow> nat \<Rightarrow> 's startup \<Rightarrow> (int \<times> 's startup) option" where
  "get_IR_size fs devidx st =
     do { idc \<leftarrow> word_at (idcodes st) devidx;
          (retval, st) \<leftarrow>
            (if idc \<noteq> IDCODE_INVALID
             then do { (n, b) \<leftarrow> bsdl_get_IR_size fs idc (su_bsdl st); Some (n, st\<lparr>su_bsdl := b\<rparr>) }
             else Some (-1, st));
          let retval = override (cmd_line_ir_sizes st) (int devidx) retval;
          (if retval < 0 then None else Some (retval, st)) }"

definition get_debug_cmd :: "bsdl_fs \<Rightarrow> nat \<Rightarrow> 's startup \<Rightarrow> (u32 \<times> 's startup) option" where
  "get_debug_cmd fs devidx st =
     do { idc \<leftarrow> word_at (idcodes st) devidx;
          let manuf_id = drop_bit 1 idc AND 0x7FF;
          (retval, st) \<leftarrow>
            (if idc \<noteq> IDCODE_INVALID
             then do { (cmd, b) \<leftarrow> (if manuf_id = XILINX_MANUFACTURER_ID then bsdl_get_user1_cmd else bsdl_get_debug_cmd)
                                     fs idc (su_bsdl st);
                       Some (cmd, st\<lparr>su_bsdl := b\<rparr>) }
             else Some (TAP_CMD_INVALID, st));
          Some (if cmd_line_cmd_debug st \<ge> 0 then of_int (cmd_line_cmd_debug st) else retval, st) }"

subsection \<open>Configuring the chain\<close>

text \<open>The table of devices that is printed; the lookups it makes are repeated later.\<close>

fun list_devices :: "bsdl_fs \<Rightarrow> u32 list \<Rightarrow> bsdl \<Rightarrow> bsdl option" where
  "list_devices fs [] b = Some b"
| "list_devices fs (idc # ids) b =
     (if idc \<noteq> IDCODE_INVALID then
        do { (_, b) \<leftarrow> bsdl_get_name fs idc b; (_, b) \<leftarrow> bsdl_get_IR_size fs idc b; list_devices fs ids b }
      else list_devices fs ids b)"

text \<open>The loop over the devices: \<open>i\<close> and \<open>bits\<close> (\<open>total\<close> in C) are its variables, \<open>n\<close> the number of rounds left.\<close>

fun add_IR_sizes :: "bsdl_fs \<Rightarrow> nat \<Rightarrow> nat \<Rightarrow> nat \<Rightarrow> int \<Rightarrow> 's startup \<Rightarrow> (int \<times> 's startup) option" where
  "add_IR_sizes fs target 0 i bits st = Some (bits, st)"
| "add_IR_sizes fs target (Suc n) i bits st =
     (if i = target then
        add_IR_sizes fs target n (i + 1) 0 (st\<lparr>su_jtag := config_set_IR_postfix_bits bits (su_jtag st)\<rparr>)
      else do { (k, st) \<leftarrow> get_IR_size fs i st; add_IR_sizes fs target n (i + 1) (bits + k) st })"

definition on_su_jtag :: "('s jtag \<Rightarrow> (u32 \<times> 's jtag) option) \<Rightarrow> 's startup \<Rightarrow> (u32 \<times> 's startup) option" where
  "on_su_jtag f st = do { (e, j) \<leftarrow> f (su_jtag st); Some (e, st\<lparr>su_jtag := j\<rparr>) }"

definition set_jtag :: "('s jtag \<Rightarrow> 's jtag) \<Rightarrow> 's startup \<Rightarrow> 's startup" where
  "set_jtag f st = st\<lparr>su_jtag := f (su_jtag st)\<rparr>"

text \<open>The settings for the target at position \<open>t\<close>: its place in the chain, its debug command, its kludges.\<close>

definition place_target :: "bsdl_fs \<Rightarrow> nat \<Rightarrow> 's startup \<Rightarrow> 's startup option" where
  "place_target fs t st =
     do { (n, st) \<leftarrow> get_IR_size fs t st;
          (bits, st) \<leftarrow> add_IR_sizes fs t (length (idcodes st)) 0 0 (set_jtag (config_set_IR_size n) st);
          Some (set_jtag (config_set_DR_postfix_bits (int t))
                 (set_jtag (config_set_DR_prefix_bits (int (length (idcodes st)) - int t - 1))
                   (set_jtag (config_set_IR_prefix_bits bits) st))) }"

definition choose_command :: "bsdl_fs \<Rightarrow> nat \<Rightarrow> u32 \<Rightarrow> 's startup \<Rightarrow> 's startup option" where
  "choose_command fs t manuf_id st =
     (if force_alt_vjtag st = -1 \<or> (force_alt_vjtag st = 0 \<and> manuf_id \<noteq> ALTERA_MANUFACTURER_ID) then
        do { (cmd, st) \<leftarrow> get_debug_cmd fs t st;
             (if cmd = TAP_CMD_INVALID then None else Some (set_jtag (config_set_debug_cmd cmd) st)) }
      else Some st)"

definition choose_kludges :: "u32 \<Rightarrow> 's startup \<Rightarrow> 's startup" where
  "choose_kludges manuf_id st =
     set_jtag (config_set_alt_vjtag
         (if force_alt_vjtag st = 1 then 1 else if force_alt_vjtag st = -1 then 0
          else if manuf_id = ALTERA_MANUFACTURER_ID then 1 else 0))
       (if manuf_id = XILINX_MANUFACTURER_ID then set_jtag (config_set_xilinx_bscan 1) st else st)"

definition configure_target :: "bsdl_fs \<Rightarrow> nat \<Rightarrow> 's startup \<Rightarrow> 's startup option" where
  "configure_target fs t st =
     do { idc \<leftarrow> word_at (idcodes st) t;
          let manuf_id = drop_bit 1 idc AND 0x7FF;
          st \<leftarrow> place_target fs t st;
          st \<leftarrow> choose_command fs t manuf_id st;
          Some (choose_kludges manuf_id st) }"

definition check_idcode :: "'s jtag_cable_t \<Rightarrow> bsdl_fs \<Rightarrow> nat \<Rightarrow> 's startup \<Rightarrow> 's startup option" where
  "check_idcode c fs t st =
     do { idc \<leftarrow> word_at (idcodes st) t;
          (cmd, b) \<leftarrow> bsdl_get_idcode_cmd fs idc (su_bsdl st);
          let st = st\<lparr>su_bsdl := b\<rparr>;
          (if cmd \<noteq> TAP_CMD_INVALID then
             do { (e, id_read, j) \<leftarrow> jtag_get_idcode c cmd (su_jtag st);
                  (if e \<noteq> APP_ERR_NONE then None else Some (st\<lparr>su_jtag := j\<rparr>)) }
           else Some st) }"

text \<open>\<open>legacy\<close>: built for the legacy debug unit, which takes chains of one device only.\<close>

definition configure_chain :: "'s jtag_cable_t \<Rightarrow> bool \<Rightarrow> bsdl_fs \<Rightarrow> 's startup \<Rightarrow> 's startup option" where
  "configure_chain c legacy fs st =
     do { (e1, j) \<leftarrow> tap_reset c (su_jtag st);
          (e2, ids, j) \<leftarrow> jtag_enumerate_chain c j;
          (if e1 OR e2 \<noteq> APP_ERR_NONE then None
           else
             do { ids \<leftarrow> ids;
                  b \<leftarrow> list_devices fs ids (su_bsdl st);
                  let st = st\<lparr>su_jtag := j, su_bsdl := b, idcodes := ids\<rparr>;
                  (if legacy \<and> length ids > 1 then None
                   else if unat (target_dev_pos st) \<ge> length ids then None
                   else
                     do { let t = unat (target_dev_pos st);
                          st \<leftarrow> configure_target fs t st;
                          st \<leftarrow> check_idcode c fs t st;
                          (e, st) \<leftarrow> on_su_jtag (tap_enable_debug_module c) st;
                          (if e \<noteq> APP_ERR_NONE then None else Some st) }) }) }"

subsection \<open>Ports\<close>

text \<open>
  The three ports, as numbers. When the port of the serial server is no number, the default is stored
  in the variable of the RSP server, which has been used by then; so it is for the HWP server.
\<close>

definition server_ports :: "string \<Rightarrow> string \<Rightarrow> string \<Rightarrow> (int \<times> int \<times> int) option" where
  "server_ports p j h =
     (let (rsp, s) = strtol10 (str p);
          (rsp, s) = (if s \<noteq> [] then strtol10 (str default_port) else (rsp, s)) in
      if s \<noteq> [] then None
      else
        (let (jsp, s) = strtol10 (str j);
             s = (if s \<noteq> [] then snd (strtol10 (str default_jspport)) else s) in
         if s \<noteq> [] then None
         else
           (let (hwp, s) = strtol10 (str h);
                s = (if s \<noteq> [] then snd (strtol10 (str default_hwpport)) else s) in
            if s \<noteq> [] then None else Some (rsp, jsp, hwp))))"

end
