(* ===== verification/Chain_Setup.thy ===== *)
theory Chain_Setup
  imports Bridge_Setup
begin

text \<open>
  What the configuration of the chain achieves: from the lengths of the instruction registers that the
  device descriptions and the command line give, the bridge addresses the target and puts every
  other device into bypass.
\<close>

text \<open>The settings that describe the place of the target in the chain.\<close>

definition place :: "'s jtag \<Rightarrow> int \<times> int \<times> int \<times> int \<times> int" where
  "place j = (global_IR_size j, global_IR_postfix_bits j, global_IR_prefix_bits j,
     global_DR_prefix_bits j, global_DR_postfix_bits j)"

lemma place_indep [simp]: "chain_indep place" "place (j\<lparr>global_altera_virtual_jtag := b\<rparr>) = place j"
  "place (config_set_debug_cmd cmd j) = place j" "place (config_set_xilinx_bscan x j) = place j"
  "place (config_set_alt_vjtag x j) = place j"
  by (simp_all add: chain_indep_def place_def config_set_debug_cmd_def config_set_xilinx_bscan_def config_set_alt_vjtag_def)

lemma get_idcode_place: "jtag_get_idcode c cmd j = Some (e, v, j') \<Longrightarrow> place j' = place j"
proof -
  have ops: "keeps place (run_all [tap_set_ir c cmd, tap_set_shift_dr c])"
    "keeps place (run_all [jtag_write_bit c TMS, jtag_write_bit c 0])"
    by (intro keeps_intros; auto intro: keeps_intros)+
  have stream: "keeps2 place (jtag_read_write_stream c [0] [0] 32 True True)"
    by (intro keeps_intros) simp
  show "jtag_get_idcode c cmd j = Some (e, v, j') \<Longrightarrow> place j' = place j"
    by (auto simp: jtag_get_idcode_def Let_def simp del: run_all.simps split: Option.bind_splits
        dest!: keepsD [OF ops(1)] keepsD [OF ops(2)] keeps2D [OF stream])
qed

subsection \<open>Lengths of instruction registers\<close>

text \<open>The length \<open>k\<close> for the device at position \<open>i\<close>, by what is known and what was set by hand.\<close>

definition device_IR :: "bsdlinfo list \<Rightarrow> irset list \<Rightarrow> u32 list \<Rightarrow> nat \<Rightarrow> int \<Rightarrow> bool" where
  "device_IR infos sets ids i k \<longleftrightarrow>
     i < length ids \<and> 0 \<le> k \<and>
     (\<exists>n. k = override sets (int i) n \<and>
        (if ids ! i = IDCODE_INVALID \<or> (\<forall>info \<in> set infos. \<not> matches (ids ! i) info) then n = -1
         else \<exists>info \<in> set infos. matches (ids ! i) info \<and> n = bi_IR_size info))"

text \<open>What the lookups leave alone.\<close>

definition same_setup :: "bsdl_fs \<Rightarrow> 's startup \<Rightarrow> 's startup \<Rightarrow> bool" where
  "same_setup fs st st' \<longleftrightarrow>
     st' = st\<lparr>su_bsdl := su_bsdl st', su_jtag := su_jtag st'\<rparr>
     \<and> bsdl_ok (su_bsdl st') \<and> known_infos fs (su_bsdl st') = known_infos fs (su_bsdl st)"

lemma same_setup_trans: "same_setup fs st1 st2 \<Longrightarrow> same_setup fs st2 st3 \<Longrightarrow> same_setup fs st1 st3"
  by (cases st1, cases st2, cases st3) (simp add: same_setup_def)

lemma same_setup_simps:
  "same_setup fs st st' \<Longrightarrow> idcodes st' = idcodes st" "same_setup fs st st' \<Longrightarrow> cmd_line_ir_sizes st' = cmd_line_ir_sizes st"
  "same_setup fs st st' \<Longrightarrow> target_dev_pos st' = target_dev_pos st"
  "same_setup fs st st' \<Longrightarrow> known_infos fs (su_bsdl st') = known_infos fs (su_bsdl st)"
  "same_setup fs st st' \<Longrightarrow> bsdl_ok (su_bsdl st')"
  by (cases st, cases st', simp add: same_setup_def)+

lemma same_setup_jtag: "bsdl_ok (su_bsdl st) \<Longrightarrow> same_setup fs st (set_jtag f st)"
  by (simp add: same_setup_def set_jtag_def)

lemma same_setup_bsdl:
  "bsdl_ok (su_bsdl st) \<Longrightarrow> get_bsdl_info fs idc (su_bsdl st) = Some (r, b) \<Longrightarrow> same_setup fs st (st\<lparr>su_bsdl := b\<rparr>)"
  using bl.keeps [of "su_bsdl st" fs idc r b] by (simp add: same_setup_def)

lemma get_IR_size_spec:
  assumes "get_IR_size fs i st = Some (k, st')" "bsdl_ok (su_bsdl st)"
  shows "device_IR (known_infos fs (su_bsdl st)) (cmd_line_ir_sizes st) (idcodes st) i k
     \<and> same_setup fs st st' \<and> su_jtag st' = su_jtag st"
proof -
  let ?id = "idcodes st ! i"
  have i: "i < length (idcodes st)" using assms(1) by (auto simp: get_IR_size_def word_at_def split: if_splits)
  show ?thesis
  proof (cases "?id = IDCODE_INVALID")
    case True
    with assms i show ?thesis by (auto simp: get_IR_size_def device_IR_def same_setup_def Let_def split: if_splits)
  next
    case False
    with assms(1) i obtain r b where r: "get_bsdl_info fs ?id (su_bsdl st) = Some (r, b)" and
      k: "k = override (cmd_line_ir_sizes st) (int i) (case r of Some info \<Rightarrow> bi_IR_size info | None \<Rightarrow> -1)" "0 \<le> k"
        "st' = st\<lparr>su_bsdl := b\<rparr>"
      by (auto simp: get_IR_size_def bsdl_get_IR_size_def Let_def split: Option.bind_splits if_splits)
    have "device_IR (known_infos fs (su_bsdl st)) (cmd_line_ir_sizes st) (idcodes st) i k"
    proof (cases r)
      case None
      with bl.missing [OF assms(2) r [unfolded None]] k i show ?thesis by (auto simp: device_IR_def)
    next
      case (Some info)
      with bl.found [OF assms(2) r [unfolded Some]] k i False show ?thesis by (auto simp: device_IR_def)
    qed
    with k(3) same_setup_bsdl [OF assms(2) r] show ?thesis by simp
  qed
qed

lemma add_IR_sizes_spec:
  "add_IR_sizes fs t n i bits st = Some (bits', st') \<Longrightarrow> bsdl_ok (su_bsdl st) \<Longrightarrow>
     \<exists>ks. length ks = n \<and> same_setup fs st st'
       \<and> (\<forall>j < n. i + j \<noteq> t \<longrightarrow> device_IR (known_infos fs (su_bsdl st)) (cmd_line_ir_sizes st) (idcodes st) (i + j) (ks ! j))
       \<and> (if i \<le> t \<and> t < i + n
          then su_jtag st' = config_set_IR_postfix_bits (bits + sum_list (take (t - i) ks)) (su_jtag st)
             \<and> bits' = sum_list (drop (t - i + 1) ks)
          else su_jtag st' = su_jtag st \<and> bits' = bits + sum_list ks)"
proof (induction n arbitrary: i bits st)
  case 0
  then show ?case by (auto simp: same_setup_def)
next
  case (Suc n)
  show ?case
  proof (cases "i = t")
    case True
    let ?st = "st\<lparr>su_jtag := config_set_IR_postfix_bits bits (su_jtag st)\<rparr>"
    have "add_IR_sizes fs t n (i + 1) 0 ?st = Some (bits', st')" "bsdl_ok (su_bsdl ?st)"
      using Suc.prems True by simp_all
    from Suc.IH [OF this] obtain ks where ks: "length ks = n" "same_setup fs ?st st'"
      "\<forall>j < n. i + 1 + j \<noteq> t \<longrightarrow> device_IR (known_infos fs (su_bsdl st)) (cmd_line_ir_sizes st) (idcodes st) (i + 1 + j) (ks ! j)"
      "su_jtag st' = su_jtag ?st" "bits' = sum_list ks"
      using True by auto
    have "same_setup fs st ?st" using Suc.prems(2) by (simp add: same_setup_def)
    then have same: "same_setup fs st st'" using ks(2) by (rule same_setup_trans)
    show ?thesis
      using ks(1,3-5) same True by (intro exI [of _ "0 # ks"]) (auto simp: nth_Cons split: nat.splits)
  next
    case False
    with Suc.prems(1) obtain k st1 where k: "get_IR_size fs i st = Some (k, st1)"
      and rest: "add_IR_sizes fs t n (i + 1) (bits + k) st1 = Some (bits', st')"
      by (auto split: Option.bind_splits)
    note dev = get_IR_size_spec [OF k Suc.prems(2)]
    then have same1: "same_setup fs st st1" by simp
    from Suc.IH [OF rest same_setup_simps(5) [OF same1]] obtain ks where ks: "length ks = n" "same_setup fs st1 st'"
      "\<forall>j < n. i + 1 + j \<noteq> t \<longrightarrow> device_IR (known_infos fs (su_bsdl st)) (cmd_line_ir_sizes st) (idcodes st) (i + 1 + j) (ks ! j)"
      "if i + 1 \<le> t \<and> t < i + 1 + n
       then su_jtag st' = config_set_IR_postfix_bits (bits + k + sum_list (take (t - (i + 1)) ks)) (su_jtag st)
         \<and> bits' = sum_list (drop (t - (i + 1) + 1) ks)
       else su_jtag st' = su_jtag st \<and> bits' = bits + k + sum_list ks"
      using same_setup_simps(1,2,4) [OF same1] dev by auto
    have "device_IR (known_infos fs (su_bsdl st)) (cmd_line_ir_sizes st) (idcodes st) (i + j) ((k # ks) ! j)"
      if "j < Suc n" "i + j \<noteq> t" for j
      using dev ks(3) that by (cases j) auto
    moreover have "take (t - i) (k # ks) = k # take (t - (i + 1)) ks" "drop (t - i + 1) (k # ks) = drop (t - (i + 1) + 1) ks"
      if "i + 1 \<le> t"
    proof -
      have "t - i = Suc (t - (i + 1))" using that by simp
      then show "take (t - i) (k # ks) = k # take (t - (i + 1)) ks"
        "drop (t - i + 1) (k # ks) = drop (t - (i + 1) + 1) ks" by simp_all
    qed
    ultimately show ?thesis
      using ks(1,4) False same_setup_trans [OF same1 ks(2)]
      by (intro exI [of _ "k # ks"]) (auto simp: Suc_le_eq add.assoc)
  qed
qed


definition placed :: "bsdl_fs \<Rightarrow> nat \<Rightarrow> 's startup \<Rightarrow> 's startup \<Rightarrow> bool" where
  "placed fs t st st' \<longleftrightarrow> same_setup fs st st' \<and> t < length (idcodes st) \<and>
     (\<exists>ks. length ks = length (idcodes st)
       \<and> (\<forall>j < length (idcodes st). device_IR (known_infos fs (su_bsdl st)) (cmd_line_ir_sizes st) (idcodes st) j (ks ! j))
       \<and> place (su_jtag st') = (ks ! t, sum_list (take t ks), sum_list (drop (t + 1) ks),
           int (length (idcodes st)) - int t - 1, int t))"

lemma placed_kept: "placed fs t st st1 \<Longrightarrow> same_setup fs st1 st2 \<Longrightarrow> place (su_jtag st2) = place (su_jtag st1) \<Longrightarrow> placed fs t st st2"
  using same_setup_trans [of fs st st1 st2] by (auto simp: placed_def)

lemma place_target_spec:
  assumes "place_target fs t st = Some st'" "bsdl_ok (su_bsdl st)"
  shows "placed fs t st st'"
proof -
  let ?N = "length (idcodes st)"
  obtain n st1 where n: "get_IR_size fs t st = Some (n, st1)"
    using assms(1) by (auto simp: place_target_def split: Option.bind_splits)
  note dev = get_IR_size_spec [OF n assms(2)]
  then have s1: "same_setup fs st st1" and t: "t < ?N" by (simp_all add: device_IR_def)
  define st2 where "st2 = set_jtag (config_set_IR_size n) st1"
  have s2: "same_setup fs st st2"
    unfolding st2_def by (rule same_setup_trans [OF s1 same_setup_jtag [OF same_setup_simps(5) [OF s1]]])
  obtain bits st3 where bits: "add_IR_sizes fs t ?N 0 0 st2 = Some (bits, st3)" and
    st': "st' = set_jtag (config_set_DR_postfix_bits (int t))
      (set_jtag (config_set_DR_prefix_bits (int (length (idcodes st3)) - int t - 1)) (set_jtag (config_set_IR_prefix_bits bits) st3))"
    using assms(1) n same_setup_simps(1) [OF s1] by (auto simp: place_target_def st2_def split: Option.bind_splits)
  from add_IR_sizes_spec [OF bits same_setup_simps(5) [OF s2]] obtain ks where
    ks: "length ks = ?N" "same_setup fs st2 st3"
      "\<forall>j < ?N. j \<noteq> t \<longrightarrow> device_IR (known_infos fs (su_bsdl st)) (cmd_line_ir_sizes st) (idcodes st) j (ks ! j)"
      "su_jtag st3 = config_set_IR_postfix_bits (sum_list (take t ks)) (su_jtag st2)" "bits = sum_list (drop (t + 1) ks)"
    using t same_setup_simps [OF s2] by auto
  have s3: "same_setup fs st st3" by (rule same_setup_trans [OF s2 ks(2)])
  then have "same_setup fs st st'" by (cases st, cases st3) (simp add: st' set_jtag_def same_setup_def)
  moreover have "place (su_jtag st') = (n, sum_list (take t ks), sum_list (drop (t + 1) ks), int ?N - int t - 1, int t)"
    by (simp add: st' set_jtag_def place_def config_set_DR_postfix_bits_def config_set_DR_prefix_bits_def
        config_set_IR_prefix_bits_def config_set_IR_postfix_bits_def config_set_IR_size_def ks(4,5) st2_def
        same_setup_simps(1) [OF s3])
  ultimately show ?thesis
    unfolding placed_def using t ks(1,3) dev
    by (intro conjI exI [of _ "ks[t := n]"]) (auto simp: nth_list_update drop_update_cancel)
qed

lemma choose_command_spec:
  assumes "choose_command fs t manuf_id st = Some st'" "bsdl_ok (su_bsdl st)"
  shows "same_setup fs st st' \<and> place (su_jtag st') = place (su_jtag st)"
  using assms
  by (auto simp: choose_command_def get_debug_cmd_def bsdl_get_user1_cmd_def bsdl_get_debug_cmd_def Let_def
      set_jtag_def same_setup_def split: if_splits Option.bind_splits dest!: bl.keeps [rotated])

lemma choose_kludges_spec:
  "bsdl_ok (su_bsdl st) \<Longrightarrow>
     same_setup fs st (choose_kludges m st) \<and> place (su_jtag (choose_kludges m st)) = place (su_jtag st)"
  by (auto simp: choose_kludges_def set_jtag_def same_setup_def)

lemma configure_target_spec:
  assumes "configure_target fs t st = Some st'" "bsdl_ok (su_bsdl st)"
  shows "placed fs t st st'"
proof -
  from assms(1) obtain m st1 st2 where st1: "place_target fs t st = Some st1" and
    st2: "choose_command fs t m st1 = Some st2" and st': "st' = choose_kludges m st2"
    by (auto simp: configure_target_def Let_def split: Option.bind_splits)
  note 1 = place_target_spec [OF st1 assms(2)]
  then have ok1: "bsdl_ok (su_bsdl st1)" using same_setup_simps(5) by (auto simp: placed_def)
  note 2 = choose_command_spec [OF st2 ok1]
  then have ok2: "bsdl_ok (su_bsdl st2)" using same_setup_simps(5) by blast
  note 3 = choose_kludges_spec [OF ok2, of fs m]
  show ?thesis unfolding st' using placed_kept [OF placed_kept [OF 1], of st2] 2 3 by blast
qed

lemma check_idcode_spec:
  assumes "check_idcode c fs t st = Some st'" "bsdl_ok (su_bsdl st)"
  shows "same_setup fs st st' \<and> place (su_jtag st') = place (su_jtag st)"
  using assms
  by (auto simp: check_idcode_def bsdl_get_idcode_cmd_def Let_def same_setup_def
      split: if_splits Option.bind_splits dest!: bl.keeps [rotated] get_idcode_place)

lemma enable_place: "tap_enable_debug_module c j = Some (e, j') \<Longrightarrow> place j' = place j"
  by (rule keepsD [OF keeps_tap_enable_debug_module]) simp_all

lemma list_devices_keeps:
  "list_devices fs ids b = Some b' \<Longrightarrow> bsdl_ok b \<Longrightarrow> bsdl_ok b' \<and> known_infos fs b' = known_infos fs b"
  by (induction ids arbitrary: b)
    (auto simp: bsdl_get_name_def bsdl_get_IR_size_def split: if_splits Option.bind_splits dest!: bl.keeps [rotated])

lemma configure_chain_spec:
  assumes "configure_chain c legacy fs st = Some st'" "bsdl_ok (su_bsdl st)"
  obtains st0 where "placed fs (unat (target_dev_pos st)) st0 st'" "known_infos fs (su_bsdl st0) = known_infos fs (su_bsdl st)"
    "cmd_line_ir_sizes st0 = cmd_line_ir_sizes st" "legacy \<longrightarrow> length (idcodes st0) \<le> 1"
proof -
  let ?t = "unat (target_dev_pos st)"
  from assms(1) obtain j ids b st2 st3 e where
    b: "list_devices fs ids (su_bsdl st) = Some b" and one: "legacy \<longrightarrow> length ids \<le> 1" and
    st2: "configure_target fs ?t (st\<lparr>su_jtag := j, su_bsdl := b, idcodes := ids\<rparr>) = Some st2" and
    st3: "check_idcode c fs ?t st2 = Some st3" and
    st': "on_su_jtag (tap_enable_debug_module c) st3 = Some (e, st')"
    by (auto simp: configure_chain_def Let_def split: if_splits Option.bind_splits)
  let ?st0 = "st\<lparr>su_jtag := j, su_bsdl := b, idcodes := ids\<rparr>"
  note lists = list_devices_keeps [OF b assms(2)]
  then have p2: "placed fs ?t ?st0 st2" using configure_target_spec [OF st2] by simp
  then have "bsdl_ok (su_bsdl st2)" using same_setup_simps(5) by (auto simp: placed_def)
  note check = check_idcode_spec [OF st3 this]
  then have p3: "placed fs ?t ?st0 st3" using placed_kept [OF p2] by blast
  then have "bsdl_ok (su_bsdl st3)" using same_setup_simps(5) by (auto simp: placed_def)
  then have "same_setup fs st3 st'" "place (su_jtag st') = place (su_jtag st3)"
    using st' by (auto simp: on_su_jtag_def same_setup_def split: Option.bind_splits dest: enable_place)
  then have "placed fs ?t ?st0 st'" using placed_kept [OF p3] by blast
  then show thesis by (rule that) (use lists one in auto)
qed

subsection \<open>The chain as the bridge sees it\<close>

text \<open>
  Configuring the chain. When it returns, the target is on the chain (the only device, if built for
  the legacy debug unit); the length of its instruction register and the number of bits before and
  behind it are those of the lengths that a description matching the ID code of each device gives, or
  the command line instead (last setting first), and one data bit is reserved for every other device on
  either side. The tap operations that follow in the same call leave these settings alone.
\<close>

theorem chain_configured:
  assumes "configure_chain c legacy fs st = Some st'" "bsdl_ok (su_bsdl st)"
  shows "unat (target_dev_pos st) < length (idcodes st') \<and> (legacy \<longrightarrow> length (idcodes st') \<le> 1) \<and>
     (\<exists>ks. length ks = length (idcodes st')
       \<and> (\<forall>i < length ks. device_IR (known_infos fs (su_bsdl st)) (cmd_line_ir_sizes st) (idcodes st') i (ks ! i))
       \<and> global_IR_size (su_jtag st') = ks ! unat (target_dev_pos st)
       \<and> global_IR_postfix_bits (su_jtag st') = sum_list (take (unat (target_dev_pos st)) ks)
       \<and> global_IR_prefix_bits (su_jtag st') = sum_list (drop (unat (target_dev_pos st) + 1) ks)
       \<and> global_DR_postfix_bits (su_jtag st') = int (unat (target_dev_pos st))
       \<and> global_DR_prefix_bits (su_jtag st') = int (length ks) - int (unat (target_dev_pos st)) - 1)"
proof -
  obtain st0 where "placed fs (unat (target_dev_pos st)) st0 st'" "known_infos fs (su_bsdl st0) = known_infos fs (su_bsdl st)"
    "cmd_line_ir_sizes st0 = cmd_line_ir_sizes st" "legacy \<longrightarrow> length (idcodes st0) \<le> 1"
    by (rule configure_chain_spec [OF assms])
  moreover from this(1) have "idcodes st' = idcodes st0" using same_setup_simps(1) by (auto simp: placed_def)
  ultimately show ?thesis by (auto simp: placed_def place_def)
qed

definition ideal_cable :: "(u8 \<Rightarrow> 'd \<Rightarrow> 'd) \<Rightarrow> ('d \<Rightarrow> bool) \<Rightarrow> 'd jtag_cable_t" where
  "ideal_cable step tdo =
     \<lparr>name = ''ideal'', inout_func = \<lambda>_ s. Some (0, 0, s), out_func = \<lambda>_ s. Some (0, s),
      init_func = \<lambda>s. Some (0, s), opt_func = \<lambda>_ _ s. Some (0, s),
      bit_out_func = \<lambda>p s. Some (0, step p s), bit_inout_func = \<lambda>p s. Some (0, of_bool (tdo s), step p s),
      stream_out_func = \<lambda>ws n l s. Some (0, fold step (stream_packets ws (nat n) l) s),
      stream_inout_func = \<lambda>ws ins n l s.
        Some (0, pack_bits (tdo_trace step tdo (stream_packets ws (nat n) l) s) @ drop ((nat n + 31) div 32) ins,
              fold step (stream_packets ws (nat n) l) s),
      flush_func = None, opts = None, help_text = None\<rparr>"

lemma ideal_cable_contract: "jtag_cable (ideal_cable step tdo) (\<lambda>s. s) (\<lambda>_. True) step tdo"
  by unfold_locales (simp_all add: ideal_cable_def cable_flush_def APP_ERR_NONE_def)

definition no_files :: bsdl_fs where
  "no_files = \<lparr>fs_dir = (\<lambda>_. None), fs_file = (\<lambda>_. \<lparr>os_contents = None, os_filedata = False, os_strdup = False,
     os_cmdbuf = False, os_info = False\<rparr>)\<rparr>"

text \<open>
  A chain for the concrete runs: two devices without ID codes, as their answers on TDO; the lengths of
  their instruction registers are set by hand, and the second is the target.
\<close>

definition two_devices :: "bool list startup" where
  "two_devices =
     \<lparr>su_jtag = init_jtag (replicate 14 False @ [False, False] @ replicate 7 True) [], su_bsdl = bsdl_init [],
      cable_in_use = None, target_dev_pos = 1, do_selftest = False,
      cmd_line_ir_sizes = [\<lparr>dev_index = 0, ir_length = 4\<rparr>, \<lparr>dev_index = 1, ir_length = 5\<rparr>], ir_reallocs = 0,
      ir_realloc_answers = [], cmd_line_cmd_debug = 8, port = None, jspport = None, hwpport = None,
      force_alt_vjtag = 0, idcodes = []\<rparr>"

abbreviation "scripted \<equiv> ideal_cable (\<lambda>_. tl) (\<lambda>bs. bs \<noteq> [] \<and> hd bs)"

lemma two_devices_found:
  "(case configure_chain scripted False no_files two_devices of
      None \<Rightarrow> False
    | Some st \<Rightarrow> idcodes st = [IDCODE_INVALID, IDCODE_INVALID] \<and> place (su_jtag st) = (5, 4, 0, 0, 1) \<and> ir_buffer_ready (su_jtag st))"
  by code_simp

lemma two_devices_ok: "bsdl_ok (su_bsdl two_devices)"
  by (simp add: two_devices_def bsdl_ok_def bsdl_init_def)

theorem chain_configured_witness:
  "\<exists>st'. configure_chain scripted False no_files two_devices = Some st' \<and> global_IR_size (su_jtag st') = 5
     \<and> unat (target_dev_pos two_devices) < length (idcodes st')"
proof -
  obtain st' where "configure_chain scripted False no_files two_devices = Some st'" "place (su_jtag st') = (5, 4, 0, 0, 1)"
    using two_devices_found by (auto split: option.splits)
  with chain_configured [OF this(1) two_devices_ok] show ?thesis by (auto simp: place_def)
qed

lemma int_sum_list: "int (sum_list xs) = sum_list (map int xs)"
  by (induction xs) simp_all

lemma map_nth_slice: "b \<le> length ks \<Longrightarrow> map ((!) ks) [a..<b] = take (b - a) (drop a ks)"
  by (rule nth_equalityI) simp_all

text \<open>
  C28. The configured bridge addresses its target. After the configuration, with a cable that keeps its
  contract and with the memory for the scan image, setting an instruction is one scan of the whole chain,
  from Run-Test/Idle and back: ones for each device nearer to the cable's data input, as many as its
  instruction register is long, then the instruction for the target, then ones for the devices behind; so
  every other device gets the bypass instruction. This is so exactly when the configuration has put the
  instruction in front of the last bit of a 32-bit word of the image; otherwise no instruction can be set, as
  the source makes an undefined shift.
\<close>

theorem target_addressed:
  assumes "configure_chain c legacy fs st = Some st'" "bsdl_ok (su_bsdl st)"
    and "jtag_cable c dev ok step tdo" "ok (cable (su_jtag st'))" "ir_buffer_ready (su_jtag st')"
    and "0 < global_IR_size (su_jtag st')"
  shows "\<exists>ks. length ks = length (idcodes st')
     \<and> (\<forall>i < length ks. device_IR (known_infos fs (su_bsdl st)) (cmd_line_ir_sizes st) (idcodes st') i (int (ks ! i)))
     \<and> (if global_IR_postfix_bits (su_jtag st') mod 32 + global_IR_size (su_jtag st') < 32
        then \<exists>j. tap_set_ir c ir (su_jtag st') = Some (APP_ERR_NONE, j)
          \<and> dev (cable j) = fold step ([TMS, TMS, 0, 0]
            @ scan_packets (concat (map (\<lambda>i. if i = unat (target_dev_pos st) then map (bit ir) [0..<ks ! i] else replicate (ks ! i) True)
                 [0..<length ks])) @ [TMS, 0]) (dev (cable (su_jtag st')))
        else tap_set_ir c ir (su_jtag st') = None)"
proof -
  let ?t = "unat (target_dev_pos st)" and ?j = "su_jtag st'"
  obtain st0 where st0: "placed fs ?t st0 st'" "known_infos fs (su_bsdl st0) = known_infos fs (su_bsdl st)"
    "cmd_line_ir_sizes st0 = cmd_line_ir_sizes st"
    by (rule configure_chain_spec [OF assms(1,2)])
  then obtain zs where t: "?t < length (idcodes st')" and zs: "length zs = length (idcodes st')"
    "\<forall>i < length zs. device_IR (known_infos fs (su_bsdl st)) (cmd_line_ir_sizes st) (idcodes st') i (zs ! i)"
    "place ?j = (zs ! ?t, sum_list (take ?t zs), sum_list (drop (?t + 1) zs), int (length zs) - int ?t - 1, int ?t)"
    using same_setup_simps(1) [of fs st0 st'] by (auto simp: placed_def)
  define ks where "ks = map nat zs"
  have "map int ks = zs" using zs(2) by (intro nth_equalityI) (simp_all add: ks_def device_IR_def)
  then have sums: "sum_list (take m zs) = int (sum_list (take m ks))" "sum_list (drop m zs) = int (sum_list (drop m ks))" for m
    by (simp_all add: take_map drop_map int_sum_list flip: \<open>map int ks = zs\<close>)
  have nth: "zs ! i = int (ks ! i)" if "i < length zs" for i using that zs(2) by (simp add: ks_def device_IR_def)
  have len: "length ks = length zs" by (simp add: ks_def)
  have place: "global_IR_size ?j = int (ks ! ?t)" "global_IR_postfix_bits ?j = int (sum_list (take ?t ks))"
    "global_IR_prefix_bits ?j = int (sum_list (drop (?t + 1) ks))"
    using zs(3) t zs(1) nth by (simp_all add: place_def sums)
  have pos: "0 < ks ! ?t" using assms(6) by (simp add: place)
  have ones: "concat (map (\<lambda>i. replicate (ks ! i) True) [a..<b]) = replicate (sum_list (map ((!) ks) [a..<b])) True" for a b
    by (induction b) (simp_all add: replicate_add)
  have "[0..<length ks] = [0..<?t] @ ?t # [?t + 1..<length ks]"
    using t zs(1) len upt_add_eq_append [of 0 ?t "length ks - ?t"] upt_conv_Cons [of ?t "length ks"] by simp
  moreover have others: "concat (map (\<lambda>i. if i = ?t then map (bit ir) [0..<ks ! i] else replicate (ks ! i) True) [a..<b])
      = concat (map (\<lambda>i. replicate (ks ! i) True) [a..<b])" if "b \<le> ?t \<or> ?t < a" for a b
    using that by (intro arg_cong [of _ _ concat] map_cong) auto
  ultimately have "concat (map (\<lambda>i. if i = ?t then map (bit ir) [0..<ks ! i] else replicate (ks ! i) True) [0..<length ks])
      = concat (map (\<lambda>i. replicate (ks ! i) True) [0..<?t]) @ map (bit ir) [0..<ks ! ?t]
        @ concat (map (\<lambda>i. replicate (ks ! i) True) [?t + 1..<length ks])"
    by (simp only: map_append list.map concat_append concat.simps others le_refl less_add_same_cancel1 zero_less_one simp_thms if_True)
  also have "\<dots> = replicate (sum_list (take ?t ks)) True @ map (bit ir) [0..<ks ! ?t]
        @ replicate (sum_list (drop (?t + 1) ks)) True"
    using t zs(1) len unfolding ones by (simp add: map_nth_slice)
  finally have bits: "concat (map (\<lambda>i. if i = ?t then map (bit ir) [0..<ks ! i] else replicate (ks ! i) True) [0..<length ks])
      = replicate (sum_list (take ?t ks)) True @ map (bit ir) [0..<ks ! ?t] @ replicate (sum_list (drop (?t + 1) ks)) True" .
  have cond: "global_IR_postfix_bits ?j mod 32 + global_IR_size ?j = int (sum_list (take ?t ks) mod 32 + ks ! ?t)"
    by (simp add: place zmod_int)
  show ?thesis
  proof (cases "sum_list (take ?t ks) mod 32 + ks ! ?t < 32")
    case True
    obtain j where "tap_set_ir c ir ?j = Some (APP_ERR_NONE, j)"
      "dev (cable j) = fold step ([TMS, TMS, 0, 0] @ scan_packets (concat (map (\<lambda>i. if i = ?t then map (bit ir) [0..<ks ! i]
          else replicate (ks ! i) True) [0..<length ks])) @ [TMS, 0]) (dev (cable ?j))"
      unfolding bits APP_ERR_NONE_def by (rule jtag_cable.set_ir_succeeds [OF assms(3-5) place pos True])
    moreover have "global_IR_postfix_bits ?j mod 32 + global_IR_size ?j < 32" using True unfolding cond by linarith
    ultimately show ?thesis using zs(1,2) nth len by (intro exI [of _ ks]) simp
  next
    case False
    then have "\<not> global_IR_postfix_bits ?j mod 32 + global_IR_size ?j < 32" unfolding cond by linarith
    moreover have "tap_set_ir c ir ?j = None" using False by (intro set_ir_undefined [OF assms(5) place(1,2)]) simp
    ultimately show ?thesis using zs(1,2) nth len by (intro exI [of _ ks]) simp
  qed
qed

theorem target_addressed_witness:
  "\<exists>st' j. configure_chain scripted False no_files two_devices = Some st'
     \<and> tap_set_ir scripted 8 (su_jtag st') = Some (APP_ERR_NONE, j)"
proof -
  obtain st' where st': "configure_chain scripted False no_files two_devices = Some st'"
    "place (su_jtag st') = (5, 4, 0, 0, 1)" "ir_buffer_ready (su_jtag st')"
    using two_devices_found by (auto split: option.splits)
  show ?thesis
    using target_addressed [OF st'(1) two_devices_ok ideal_cable_contract _ st'(3), of 8] st' by (auto simp: place_def)
qed

end
