(* ===== verification/Self_Test.thy ===== *)
theory Self_Test
  imports Dbg_Api
begin

unbundle bit_operations_syntax

text \<open>
  or32_selftest.c: the test of the target before the servers start, with the options of the file as they
  are (TEST_SRAM and TEST_OR1K). The calls of dbg_api.h it makes are the record \<open>debug_api\<close>, which
  \<open>bridge_api\<close> fills with the functions of the bridge; a call whose error code CHECK finds nonzero ends
  the process. The old content of the variable a call reads into is an argument. The functions for the
  memory controller and the SDRAM are compiled, but not called.
\<close>

subsection \<open>The calls it makes\<close>

record 's debug_api =
  wb_read32 :: "u32 \<Rightarrow> u32 \<Rightarrow> 's \<Rightarrow> (u32 \<times> u32 \<times> 's) option"
  wb_write32 :: "u32 \<Rightarrow> u32 \<Rightarrow> 's op"
  wb_read_block32 :: "u32 \<Rightarrow> u32 list \<Rightarrow> int \<Rightarrow> 's \<Rightarrow> (u32 \<times> u32 list \<times> 's) option"
  wb_read_block16 :: "u32 \<Rightarrow> u8 list \<Rightarrow> int \<Rightarrow> 's \<Rightarrow> (u32 \<times> u8 list \<times> 's) option"
  wb_read_block8 :: "u32 \<Rightarrow> u8 list \<Rightarrow> int \<Rightarrow> 's \<Rightarrow> (u32 \<times> u8 list \<times> 's) option"
  wb_write_block32 :: "u32 \<Rightarrow> u32 list \<Rightarrow> int \<Rightarrow> 's \<Rightarrow> (u32 \<times> u32 list \<times> 's) option"
  wb_write_block16 :: "u32 \<Rightarrow> u8 list \<Rightarrow> int \<Rightarrow> 's \<Rightarrow> (u32 \<times> u8 list \<times> 's) option"
  wb_write_block8 :: "u32 \<Rightarrow> u8 list \<Rightarrow> int \<Rightarrow> 's op"
  cpu0_read :: "u32 \<Rightarrow> u32 \<Rightarrow> 's \<Rightarrow> (u32 \<times> u32 \<times> 's) option"
  cpu0_write :: "u32 \<Rightarrow> u32 \<Rightarrow> 's op"
  cpu0_read_ctrl :: "u32 \<Rightarrow> u8 \<Rightarrow> 's \<Rightarrow> (u32 \<times> u8 \<times> 's) option"
  cpu0_write_ctrl :: "u32 \<Rightarrow> u8 \<Rightarrow> 's op"

definition bridge_api :: "'s jtag_cable_t \<Rightarrow> dbg_hw \<Rightarrow> 's jtag debug_api" where
  "bridge_api c hw =
     \<lparr>wb_read32 = dbg_wb_read32 c hw, wb_write32 = dbg_wb_write32 c hw,
      wb_read_block32 = dbg_wb_read_block32 c hw, wb_read_block16 = dbg_wb_read_block16 c hw,
      wb_read_block8 = dbg_wb_read_block8 c hw, wb_write_block32 = dbg_wb_write_block32 c hw,
      wb_write_block16 = dbg_wb_write_block16 c hw, wb_write_block8 = dbg_wb_write_block8 c hw,
      cpu0_read = dbg_cpu0_read c hw, cpu0_write = dbg_cpu0_write c hw,
      cpu0_read_ctrl = dbg_cpu0_read_ctrl c hw, cpu0_write_ctrl = dbg_cpu0_write_ctrl c hw\<rparr>"

text \<open>CHECK on a call, and on a call that stores a value.\<close>

definition check :: "(u32 \<times> 's) option \<Rightarrow> 's option" where
  "check r = do { (i, st) \<leftarrow> r; (if i \<noteq> 0 then None else Some st) }"

definition check_val :: "(u32 \<times> 'a \<times> 's) option \<Rightarrow> ('a \<times> 's) option" where
  "check_val r = do { (i, x, st) \<leftarrow> r; (if i \<noteq> 0 then None else Some (x, st)) }"

fun write_words :: "'s debug_api \<Rightarrow> (u32 \<times> u32) list \<Rightarrow> 's \<Rightarrow> 's option" where
  "write_words api [] st = Some st"
| "write_words api ((adr, w) # ws) st = do { st \<leftarrow> check (wb_write32 api adr w st); write_words api ws st }"

text \<open>Reads into one variable, one address after the other.\<close>

fun read_words :: "'s debug_api \<Rightarrow> u32 list \<Rightarrow> u32 \<Rightarrow> 's \<Rightarrow> (u32 \<times> 's) option" where
  "read_words api [] ins st = Some (ins, st)"
| "read_words api (adr # as) ins st =
     do { (ins, st) \<leftarrow> check_val (wb_read32 api adr ins st); read_words api as ins st }"

subsection \<open>The memory controller\<close>

definition MC_BASE_ADDR :: u32 where "MC_BASE_ADDR = 0x93000000"
definition FLASH_BASE_ADDR :: u32 where "FLASH_BASE_ADDR = 0xf0000000"
definition SDRAM_BASE :: u32 where "SDRAM_BASE = 0"
definition SDRAM_SIZE :: u32 where "SDRAM_SIZE = 0x400"
definition SRAM_BASE :: u32 where "SRAM_BASE = 0"
definition SRAM_SIZE :: u32 where "SRAM_SIZE = 0x04000000"

definition MC_BAR_0 :: u32 where "MC_BAR_0 = 0x00"
definition MC_AMR_0 :: u32 where "MC_AMR_0 = 0x04"
definition MC_WTR_0 :: u32 where "MC_WTR_0 = 0x30"
definition MC_RTR_0 :: u32 where "MC_RTR_0 = 0x34"
definition MC_OSR :: u32 where "MC_OSR = 0xe8"
definition MC_BAR_1 :: u32 where "MC_BAR_1 = 0x08"
definition MC_BAR_4 :: u32 where "MC_BAR_4 = 0x80"
definition MC_AMR_1 :: u32 where "MC_AMR_1 = 0x0c"
definition MC_AMR_4 :: u32 where "MC_AMR_4 = 0x84"
definition MC_CCR_1 :: u32 where "MC_CCR_1 = 0x24"
definition MC_CCR_4 :: u32 where "MC_CCR_4 = 0xa0"
definition MC_RATR :: u32 where "MC_RATR = 0xb0"
definition MC_RCDR :: u32 where "MC_RCDR = 0xc8"
definition MC_RCTR :: u32 where "MC_RCTR = 0xb4"
definition MC_REFCTR :: u32 where "MC_REFCTR = 0xc4"
definition MC_PTR :: u32 where "MC_PTR = 0xbc"
definition MC_RRDR :: u32 where "MC_RRDR = 0xb8"
definition MC_RIR :: u32 where "MC_RIR = 0xcc"
definition MC_ORR :: u32 where "MC_ORR = 0xe4"

definition init_mc :: "'s debug_api \<Rightarrow> u32 \<Rightarrow> 's \<Rightarrow> (u32 \<times> 's) option" where
  "init_mc api insn st =
     do { st \<leftarrow> write_words api
            ([(MC_BASE_ADDR + MC_BAR_0, FLASH_BASE_ADDR AND 0xffff0000),
              (MC_BASE_ADDR + MC_AMR_0, 0xf0000000 AND 0xffff0000),
              (MC_BASE_ADDR + MC_WTR_0, 0x00011009), (MC_BASE_ADDR + MC_RTR_0, 0x01002009),
              (MC_BASE_ADDR + MC_OSR, 0x40000000),
              (MC_BASE_ADDR + MC_BAR_4, SDRAM_BASE AND 0xffff0000),
              (MC_BASE_ADDR + MC_AMR_4, NOT (SDRAM_SIZE - 1) AND 0xffff0000),
              (MC_BASE_ADDR + MC_CCR_4, 0x00bf0005), (MC_BASE_ADDR + MC_RATR, 6),
              (MC_BASE_ADDR + MC_RCDR, 2), (MC_BASE_ADDR + MC_RCTR, 6), (MC_BASE_ADDR + MC_REFCTR, 6),
              (MC_BASE_ADDR + MC_PTR, 1), (MC_BASE_ADDR + MC_RRDR, 0), (MC_BASE_ADDR + MC_RIR, 0xC0),
              (MC_BASE_ADDR + MC_OSR, 0x5e000000), (MC_BASE_ADDR + MC_ORR, 0x5e000000),
              (MC_BASE_ADDR + MC_OSR, 0x6e000000)]
             @ replicate 8 (MC_BASE_ADDR + MC_ORR, 0x6e000000)
             @ [(MC_BASE_ADDR + MC_OSR, 0x7e000033), (MC_BASE_ADDR + MC_ORR, 0x7e000033),
                (MC_BASE_ADDR + MC_CCR_4, 0xc0bf0005)]) st;
          check_val (wb_read32 api (MC_BASE_ADDR + MC_CCR_4) insn st) }"

definition init_sram :: "'s debug_api \<Rightarrow> 's \<Rightarrow> 's option" where
  "init_sram api st =
     write_words api
       [(MC_BASE_ADDR + MC_BAR_1, SRAM_BASE AND 0xffff0000),
        (MC_BASE_ADDR + MC_AMR_1, NOT (SRAM_SIZE - 1) AND 0xffff0000),
        (MC_BASE_ADDR + MC_CCR_1, 0xc020001f)] st"

subsection \<open>Memory\<close>

text \<open>Each word is read back and compared at once.\<close>

fun read_back :: "'s debug_api \<Rightarrow> (u32 \<times> u32) list \<Rightarrow> u32 \<Rightarrow> 's \<Rightarrow> (bool \<times> u32 \<times> 's) option" where
  "read_back api [] insn st = Some (True, insn, st)"
| "read_back api ((adr, w) # ws) insn st =
     do { (insn, st) \<leftarrow> check_val (wb_read32 api adr insn st);
          (if w \<noteq> insn then Some (False, insn, st) else read_back api ws insn st) }"

definition sdram_words :: "(u32 \<times> u32) list" where
  "sdram_words = map (\<lambda>i. (SDRAM_BASE + i, i)) [0x10, 0x20, 0x40, 0x80, 0x100, 0x200]"

definition sdram_data4 :: "u32 list" where
  "sdram_data4 =
     map (\<lambda>i. let i = of_nat i in push_bit 24 (4 * i + 3) OR push_bit 16 (4 * i + 2) OR push_bit 8 (4 * i + 1) OR 4 * i)
       [0..<8]"

definition sdram_data2 :: "u8 list" where
  "sdram_data2 =
     concat (map (\<lambda>i. let i = of_nat i in bytes_of_half (push_bit 8 (4 * i + 1) OR 4 * i)) [0..<16])"

definition sdram_data1 :: "u8 list" where
  "sdram_data1 = map (\<lambda>i. 4 * of_nat i) [0..<32]"

text \<open>The lengths of the block transfers are those of the source, \<open>0x20\<close> elements each.\<close>

definition test_sdram :: "'s debug_api \<Rightarrow> u32 \<Rightarrow> 's op" where
  "test_sdram api insn st =
     do { st \<leftarrow> write_words api sdram_words st;
          (same, insn, st) \<leftarrow> read_back api sdram_words insn st;
          (if \<not> same then Some (APP_ERR_TEST_FAIL, st)
           else
             do { (d4, st) \<leftarrow> check_val (wb_write_block32 api SDRAM_BASE sdram_data4 0x20 st);
                  (d4, st) \<leftarrow> check_val (wb_read_block32 api SDRAM_BASE d4 0x20 st);
                  (if take 8 d4 \<noteq> sdram_data4 then Some (APP_ERR_TEST_FAIL, st)
                   else
                     do { (d2, st) \<leftarrow> check_val (wb_write_block16 api SDRAM_BASE sdram_data2 0x20 st);
                          (d2, st) \<leftarrow> check_val (wb_read_block16 api SDRAM_BASE d2 0x20 st);
                          (if take 32 d2 \<noteq> sdram_data2 then Some (APP_ERR_TEST_FAIL, st)
                           else
                             do { st \<leftarrow> check (wb_write_block8 api SDRAM_BASE sdram_data1 0x20 st);
                                  (d1, st) \<leftarrow> check_val (wb_read_block8 api SDRAM_BASE sdram_data1 0x20 st);
                                  Some (if take 32 d1 \<noteq> sdram_data1 then APP_ERR_TEST_FAIL else APP_ERR_NONE, st)
                                }) }) }) }"

definition sdram2_words :: "(u32 \<times> u32) list" where
  "sdram2_words =
     [(SDRAM_BASE + 0x04, 0x33334444), (SDRAM_BASE + 0x08, 0x55556666), (SDRAM_BASE + 0x0c, 0x77778888),
      (SDRAM_BASE + 0x10, 0x9999aaaa), (SDRAM_BASE + 0x14, 0xbbbbcccc), (SDRAM_BASE + 0x18, 0xddddeeee),
      (SDRAM_BASE + 0x1c, 0xffff0000), (SDRAM_BASE + 0x20, 0xdeadbeef)]"

definition test_sdram_2 :: "'s debug_api \<Rightarrow> u32 \<Rightarrow> 's op" where
  "test_sdram_2 api insn st =
     do { st \<leftarrow> check (wb_write32 api SDRAM_BASE 0x12345678 st);
          (insn, st) \<leftarrow> check_val (wb_read32 api SDRAM_BASE insn st);
          (if insn \<noteq> 0x12345678 then Some (APP_ERR_TEST_FAIL, st)
           else
             do { st \<leftarrow> check (wb_write32 api SDRAM_BASE 0x11112222 st);
                  (insn, st) \<leftarrow> check_val (wb_read32 api SDRAM_BASE insn st);
                  (if insn \<noteq> 0x11112222 then Some (APP_ERR_TEST_FAIL, st)
                   else
                     do { st \<leftarrow> write_words api sdram2_words st;
                          (insn, st) \<leftarrow> read_words api (SDRAM_BASE # map fst sdram2_words) insn st;
                          Some (if insn \<noteq> 0xdeadbeef then APP_ERR_TEST_FAIL else APP_ERR_NONE, st) }) }) }"

definition sram_words :: "(u32 \<times> u32) list" where
  "sram_words =
     [(SRAM_BASE + 0x00, 0x11112222), (SRAM_BASE + 0x04, 0x33334444), (SRAM_BASE + 0x08, 0x55556666),
      (SRAM_BASE + 0x0c, 0x77778888), (SRAM_BASE + 0x10, 0x9999aaaa), (SRAM_BASE + 0x14, 0xbbbbcccc),
      (SRAM_BASE + 0x18, 0xddddeeee), (SRAM_BASE + 0x1c, 0xffff0000), (SRAM_BASE + 0x20, 0xdedababa)]"

definition test_sram :: "'s debug_api \<Rightarrow> u32 \<Rightarrow> 's op" where
  "test_sram api ins st =
     do { st \<leftarrow> write_words api sram_words st;
          (ins, st) \<leftarrow> read_words api (map fst sram_words) ins st;
          Some (if ins \<noteq> 0xdedababa then APP_ERR_TEST_FAIL else APP_ERR_NONE, st) }"

subsection \<open>The CPU\<close>

definition CPU_OP_ADR :: u32 where "CPU_OP_ADR = 0"

definition stall_cpus :: "'s debug_api \<Rightarrow> u8 \<Rightarrow> 's op" where
  "stall_cpus api stalled st =
     do { st \<leftarrow> check (cpu0_write_ctrl api 0 1 st);
          (stalled, st) \<leftarrow> check_val (cpu0_read_ctrl api 0 stalled st);
          Some (if stalled AND 1 = 0 then APP_ERR_TEST_FAIL else APP_ERR_NONE, st) }"

text \<open>The local variables of \<open>test_or1k_cpu0\<close>.\<close>

record cpu_test =
  ct_npc :: u32
  ct_ppc :: u32
  ct_r1 :: u32
  ct_insn :: u32
  ct_stalled :: u8
  ct_result :: u32

text \<open>Polling until the CPU has stalled; it need not end.\<close>

partial_function (option) wait_stalled :: "'s debug_api \<Rightarrow> u8 \<Rightarrow> 's \<Rightarrow> (u8 \<times> 's) option" where
  "wait_stalled api stalled st =
     do { (stalled, st) \<leftarrow> check_val (cpu0_read_ctrl api CPU_OP_ADR stalled st);
          (if stalled AND 1 = 0 then wait_stalled api stalled st else Some (stalled, st)) }"

declare wait_stalled.simps [code]

definition unstall_and_wait :: "'s debug_api \<Rightarrow> cpu_test \<times> 's \<Rightarrow> (cpu_test \<times> 's) option" where
  "unstall_and_wait api = (\<lambda>(v, st).
     do { st \<leftarrow> check (cpu0_write_ctrl api CPU_OP_ADR 0 st);
          (stalled, st) \<leftarrow> wait_stalled api (ct_stalled v) st;
          Some (v\<lparr>ct_stalled := stalled\<rparr>, st) })"

fun repeat_unstall :: "'s debug_api \<Rightarrow> nat \<Rightarrow> cpu_test \<times> 's \<Rightarrow> (cpu_test \<times> 's) option" where
  "repeat_unstall api 0 x = Some x"
| "repeat_unstall api (Suc n) x = do { x \<leftarrow> unstall_and_wait api x; repeat_unstall api n x }"

definition NPC_REG :: u32 where "NPC_REG = push_bit 11 0 + 16"
definition PPC_REG :: u32 where "PPC_REG = push_bit 11 0 + 18"
definition SR_REG :: u32 where "SR_REG = push_bit 11 0 + 17"
definition DMR1_REG :: u32 where "DMR1_REG = push_bit 11 6 + 16"
definition DSR_REG :: u32 where "DSR_REG = push_bit 11 6 + 20"

definition read_pcs :: "'s debug_api \<Rightarrow> cpu_test \<times> 's \<Rightarrow> (cpu_test \<times> 's) option" where
  "read_pcs api = (\<lambda>(v, st).
     do { (npc, st) \<leftarrow> check_val (cpu0_read api NPC_REG (ct_npc v) st);
          (ppc, st) \<leftarrow> check_val (cpu0_read api PPC_REG (ct_ppc v) st);
          (r1, st) \<leftarrow> check_val (cpu0_read api 0x401 (ct_r1 v) st);
          Some (v\<lparr>ct_npc := npc, ct_ppc := ppc, ct_r1 := r1\<rparr>, st) })"

definition add_result :: "cpu_test \<times> 's \<Rightarrow> cpu_test \<times> 's" where
  "add_result = (\<lambda>(v, st). (v\<lparr>ct_result := ct_npc v + ct_ppc v + ct_r1 v + ct_result v\<rparr>, st))"

text \<open>One of the tests with a trap: at \<open>adr\<close>, started at \<open>pc\<close> if that is given.\<close>

definition trap_test :: "'s debug_api \<Rightarrow> u32 \<Rightarrow> u32 option \<Rightarrow> cpu_test \<times> 's \<Rightarrow> (cpu_test \<times> 's) option" where
  "trap_test api adr pc = (\<lambda>(v, st).
     do { (insn, st) \<leftarrow> check_val (wb_read32 api (SDRAM_BASE + adr) (ct_insn v) st);
          st \<leftarrow> check (wb_write32 api (SDRAM_BASE + adr) 0x21000001 st);
          st \<leftarrow> (case pc of Some p \<Rightarrow> check (cpu0_write api NPC_REG (SDRAM_BASE + p) st) | None \<Rightarrow> Some st);
          x \<leftarrow> unstall_and_wait api (v\<lparr>ct_insn := insn\<rparr>, st);
          (v, st) \<leftarrow> read_pcs api x;
          st \<leftarrow> check (wb_write32 api (SDRAM_BASE + adr) (ct_insn v) st);
          Some (add_result (v, st)) })"

definition cpu_program :: "(u32 \<times> u32) list" where
  "cpu_program =
     [(SDRAM_BASE + 0x00, 0xe0000005), (SDRAM_BASE + 0x04, 0x9c200000), (SDRAM_BASE + 0x08, 0x18400000),
      (SDRAM_BASE + 0x0c, 0xa8420030), (SDRAM_BASE + 0x10, 0x9c210001), (SDRAM_BASE + 0x14, 0x9c210001),
      (SDRAM_BASE + 0x18, 0xd4020800), (SDRAM_BASE + 0x1c, 0x9c210001), (SDRAM_BASE + 0x20, 0x84620000),
      (SDRAM_BASE + 0x24, 0x03fffffb), (SDRAM_BASE + 0x28, 0xe0211800)]"

definition setup_cpu :: "'s debug_api \<Rightarrow> 's \<Rightarrow> 's option" where
  "setup_cpu api st =
     do { st \<leftarrow> check (cpu0_write api SR_REG 1 st);
          st \<leftarrow> check (cpu0_write api DSR_REG 0x2000 st);
          st \<leftarrow> check (cpu0_write api NPC_REG SDRAM_BASE st);
          check (cpu0_write api DMR1_REG (push_bit 22 1) st) }"

definition trap_tests :: "'s debug_api \<Rightarrow> cpu_test \<times> 's \<Rightarrow> (cpu_test \<times> 's) option" where
  "trap_tests api x =
     do { x \<leftarrow> trap_test api 0x28 None x;
          x \<leftarrow> trap_test api 0x24 (Some 0x10) x;
          x \<leftarrow> trap_test api 0x20 (Some 0x24) x;
          x \<leftarrow> trap_test api 0x1c (Some 0x20) x;
          x \<leftarrow> trap_test api 0x20 (Some 0x1c) x;
          trap_test api 0x10 (Some 0x20) x }"

definition step_tests :: "'s debug_api \<Rightarrow> cpu_test \<times> 's \<Rightarrow> (cpu_test \<times> 's) option" where
  "step_tests api = (\<lambda>(v, st).
     do { st \<leftarrow> check (cpu0_write api DMR1_REG (push_bit 22 1) st);
          x \<leftarrow> repeat_unstall api 5 (v, st);
          x \<leftarrow> read_pcs api x;
          let (v, st) = add_result x;
          st \<leftarrow> check (cpu0_write api NPC_REG (SDRAM_BASE + 0x24) st);
          x \<leftarrow> repeat_unstall api 2 (v, st);
          x \<leftarrow> read_pcs api x;
          Some (add_result x) })"

definition test_or1k_cpu0 :: "'s debug_api \<Rightarrow> cpu_test \<Rightarrow> 's op" where
  "test_or1k_cpu0 api v st =
     do { st \<leftarrow> write_words api cpu_program st;
          st \<leftarrow> setup_cpu api st;
          x \<leftarrow> repeat_unstall api 11 (v, st);
          (v, st) \<leftarrow> read_pcs api x;
          let v = v\<lparr>ct_result := ct_npc v + ct_ppc v + ct_r1 v\<rparr>;
          st \<leftarrow> check (cpu0_write api DMR1_REG 0 st);
          x \<leftarrow> trap_tests api (v, st);
          (v, st) \<leftarrow> step_tests api x;
          Some (if ct_result v XOR 0xdeaddae1 \<noteq> 0xdeaddead then APP_ERR_TEST_FAIL else APP_ERR_NONE, st) }"

definition dbg_test :: "'s debug_api \<Rightarrow> cpu_test \<Rightarrow> 's op" where
  "dbg_test api v st =
     do { (success, st) \<leftarrow> stall_cpus api (ct_stalled v) st;
          (if success = APP_ERR_NONE then
             do { (e1, st) \<leftarrow> test_sram api (ct_insn v) st;
                  (e2, st) \<leftarrow> test_or1k_cpu0 api v st;
                  Some (success OR e1 OR e2, st) }
           else Some (APP_ERR_TEST_FAIL, st)) }"

subsection \<open>What the verdict depends on\<close>

text \<open>The same calls, with the values they read on record: from memory, and from registers of the CPU.\<close>

datatype reading = Mem u32 | Reg u32

fun reg_value :: "reading \<Rightarrow> u32 list" where
  "reg_value (Mem w) = []"
| "reg_value (Reg w) = [w]"

definition lift_op :: "'s op \<Rightarrow> ('s \<times> reading list) op" where
  "lift_op f = (\<lambda>(st, log). do { (e, st) \<leftarrow> f st; Some (e, st, log) })"

definition lift_read :: "('a \<Rightarrow> reading list) \<Rightarrow> ('s \<Rightarrow> (u32 \<times> 'a \<times> 's) option)
    \<Rightarrow> 's \<times> reading list \<Rightarrow> (u32 \<times> 'a \<times> 's \<times> reading list) option" where
  "lift_read r f = (\<lambda>(st, log). do { (e, x, st) \<leftarrow> f st; Some (e, x, st, log @ r x) })"

definition logged :: "'s debug_api \<Rightarrow> ('s \<times> reading list) debug_api" where
  "logged api =
     \<lparr>wb_read32 = \<lambda>adr d. lift_read (\<lambda>w. [Mem w]) (wb_read32 api adr d), wb_write32 = \<lambda>adr w. lift_op (wb_write32 api adr w),
      wb_read_block32 = \<lambda>adr d n. lift_read (map Mem) (wb_read_block32 api adr d n),
      wb_read_block16 = \<lambda>adr d n. lift_read (\<lambda>_. []) (wb_read_block16 api adr d n),
      wb_read_block8 = \<lambda>adr d n. lift_read (\<lambda>_. []) (wb_read_block8 api adr d n),
      wb_write_block32 = \<lambda>adr d n. lift_read (\<lambda>_. []) (wb_write_block32 api adr d n),
      wb_write_block16 = \<lambda>adr d n. lift_read (\<lambda>_. []) (wb_write_block16 api adr d n),
      wb_write_block8 = \<lambda>adr d n. lift_op (wb_write_block8 api adr d n),
      cpu0_read = \<lambda>adr d. lift_read (\<lambda>w. [Reg w]) (cpu0_read api adr d), cpu0_write = \<lambda>adr w. lift_op (cpu0_write api adr w),
      cpu0_read_ctrl = \<lambda>adr d. lift_read (\<lambda>_. []) (cpu0_read_ctrl api adr d),
      cpu0_write_ctrl = \<lambda>adr d. lift_op (cpu0_write_ctrl api adr d)\<rparr>"

lemma logged_simps [simp]:
  "wb_read32 (logged api) adr d = lift_read (\<lambda>w. [Mem w]) (wb_read32 api adr d)"
  "wb_write32 (logged api) adr w = lift_op (wb_write32 api adr w)"
  "cpu0_read (logged api) adr d = lift_read (\<lambda>w. [Reg w]) (cpu0_read api adr d)"
  "cpu0_write (logged api) adr w = lift_op (cpu0_write api adr w)"
  "cpu0_read_ctrl (logged api) adr b = lift_read (\<lambda>_. []) (cpu0_read_ctrl api adr b)"
  "cpu0_write_ctrl (logged api) adr b = lift_op (cpu0_write_ctrl api adr b)"
  by (simp_all add: logged_def)

lemma check_lift [simp]:
  "check (lift_op f (st, log)) = do { st \<leftarrow> check (f st); Some (st, log) }"
  "check_val (lift_read r g (st, log)) = do { (x, st) \<leftarrow> check_val (g st); Some (x, st, log @ r x) }"
  by (auto simp: lift_op_def lift_read_def check_def check_val_def split: Option.bind_splits)

lemma logged_writes [simp]:
  "write_words (logged api) ws (st, log) = do { st \<leftarrow> write_words api ws st; Some (st, log) }"
  by (induction ws arbitrary: st) (auto split: Option.bind_splits)

lemma logged_reads:
  "read_words (logged api) as ins (st, log) = Some (ins', st', log') \<Longrightarrow>
     read_words api as ins st = Some (ins', st') \<and>
     (\<exists>ws. log' = log @ map Mem ws \<and> length ws = length as \<and> (as \<noteq> [] \<longrightarrow> ins' = last ws))"
proof (induction as arbitrary: ins st log)
  case (Cons adr as)
  then obtain w st1 where w: "check_val (wb_read32 api adr ins st) = Some (w, st1)"
    "read_words (logged api) as w (st1, log @ [Mem w]) = Some (ins', st', log')"
    by (auto split: Option.bind_splits)
  from Cons.IH [OF w(2)] obtain ws where "read_words api as w st1 = Some (ins', st')"
    "log' = (log @ [Mem w]) @ map Mem ws" "length ws = length as" "as \<noteq> [] \<longrightarrow> ins' = last ws" by auto
  with w(1) Cons.prems show ?case
    by (intro conjI exI [of _ "w # ws"]) (cases as; auto)+
qed simp

text \<open>
  The memory test writes nine words and reads all of them, but only the last decides: whatever the
  other eight reads give, the test passes exactly if the ninth gives the word written there.
\<close>

theorem sram_test_sees_last:
  assumes "test_sram (logged api) u (st, []) = Some (e, st', log)"
  shows "\<exists>ws. log = map Mem ws \<and> length ws = 9 \<and> e = (if ws ! 8 = 0xdedababa then APP_ERR_NONE else APP_ERR_TEST_FAIL)
     \<and> test_sram api u st = Some (e, st')"
proof -
  obtain st1 ins where r: "write_words api sram_words st = Some st1"
    "read_words (logged api) (map fst sram_words) u (st1, []) = Some (ins, st', log)"
    "e = (if ins \<noteq> 0xdedababa then APP_ERR_TEST_FAIL else APP_ERR_NONE)"
    using assms by (auto simp: test_sram_def split: Option.bind_splits)
  from logged_reads [OF r(2)] obtain ws where ws: "log = map Mem ws" "length ws = length sram_words" "ins = last ws"
    "read_words api (map fst sram_words) u st1 = Some (ins, st')" by (auto simp: sram_words_def)
  have "length ws = 9" using ws(2) by (simp add: sram_words_def)
  then have "last ws = ws ! 8" by (cases ws rule: rev_cases) (auto simp: nth_append)
  with r ws \<open>length ws = 9\<close> show ?thesis by (auto simp: test_sram_def)
qed

definition reg_values :: "reading list \<Rightarrow> u32 list" where
  "reg_values log = concat (map reg_value log)"

lemma reg_values_simps [simp]:
  "reg_values [] = []" "reg_values (xs @ ys) = reg_values xs @ reg_values ys" "reg_values (Mem w # xs) = reg_values xs"
  "reg_values (Reg w # xs) = w # reg_values xs"
  by (simp_all add: reg_values_def)

lemma logged_wait:
  assumes "wait_stalled (logged api) b (st, log) = Some (b', st', log')"
  shows "wait_stalled api b st = Some (b', st') \<and> log' = log"
proof -
  let ?P = "\<lambda>api' b x r. api' = logged api \<longrightarrow> wait_stalled api b (fst x) = Some (fst r, fst (snd r)) \<and> snd (snd r) = snd x"
  have "?P (logged api) b (st, log) (b', st', log')"
  proof (rule wait_stalled.raw_induct [of ?P, OF _ assms], intro impI)
    fix wait and api' :: "('a \<times> reading list) debug_api" and b x and r :: "u8 \<times> 'a \<times> reading list"
    assume ih: "\<And>api' b x r. wait api' b x = Some r \<Longrightarrow> ?P api' b x r" and api': "api' = logged api"
      and run: "do { (b, x) \<leftarrow> check_val (cpu0_read_ctrl api' CPU_OP_ADR b x);
                     (if b AND 1 = 0 then wait api' b x else Some (b, x)) } = Some r"
    obtain st log where x: "x = (st, log)" by (cases x)
    from run obtain b1 st1 where b1: "check_val (cpu0_read_ctrl api CPU_OP_ADR b st) = Some (b1, st1)"
      "(if b1 AND 1 = 0 then wait (logged api) b1 (st1, log) else Some (b1, st1, log)) = Some r"
      unfolding api' x by (auto split: Option.bind_splits)
    show "wait_stalled api b (fst x) = Some (fst r, fst (snd r)) \<and> snd (snd r) = snd x"
    proof (cases "b1 AND 1 = 0")
      case True
      with ih [of "logged api" b1 "(st1, log)" r] b1 show ?thesis by (subst wait_stalled.simps) (simp add: x)
    next
      case False
      with b1 have "r = (b1, st1, log)" by simp
      with b1(1) show ?thesis by (subst wait_stalled.simps) (simp add: x if_not_P [OF False])
    qed
  qed
  then show ?thesis by simp
qed

text \<open>From one state of the variables and the record to another: \<open>n\<close> registers more, and all of them added.\<close>

definition accounted :: "nat \<Rightarrow> cpu_test \<Rightarrow> reading list \<Rightarrow> cpu_test \<Rightarrow> reading list \<Rightarrow> bool" where
  "accounted n v log v' log' \<longleftrightarrow>
     length (reg_values log') = length (reg_values log) + n
     \<and> ct_result v' - sum_list (reg_values log') = ct_result v - sum_list (reg_values log)"

lemma accounted_trans:
  "accounted n v log v' log' \<Longrightarrow> accounted m v' log' v'' log'' \<Longrightarrow> accounted (n + m) v log v'' log''"
  by (simp add: accounted_def)

definition simulates ::
  "nat \<Rightarrow> 's debug_api \<Rightarrow> (cpu_test \<times> 's \<Rightarrow> (cpu_test \<times> 's) option)
     \<Rightarrow> (cpu_test \<times> 's \<times> reading list \<Rightarrow> (cpu_test \<times> 's \<times> reading list) option) \<Rightarrow> bool" where
  "simulates n api f f' \<longleftrightarrow> (\<forall>v st log v' st' log'. f' (v, st, log) = Some (v', st', log') \<longrightarrow>
     f (v, st) = Some (v', st') \<and> accounted n v log v' log')"

lemma simulatesD:
  "simulates n api f f' \<Longrightarrow> f' (v, st, log) = Some (v', st', log') \<Longrightarrow>
     f (v, st) = Some (v', st') \<and> accounted n v log v' log'"
  by (simp add: simulates_def)

lemma simulates_bind:
  assumes "simulates n api f f'" "simulates m api g g'"
  shows "simulates (n + m) api (\<lambda>x. f x \<bind> g) (\<lambda>x. f' x \<bind> g')"
  unfolding simulates_def
proof (intro allI impI)
  fix v st log v' st' log'
  assume "f' (v, st, log) \<bind> g' = Some (v', st', log')"
  then obtain v1 st1 log1 where 1: "f' (v, st, log) = Some (v1, st1, log1)" "g' (v1, st1, log1) = Some (v', st', log')"
    by (auto split: Option.bind_splits)
  from simulatesD [OF assms(1) 1(1)] simulatesD [OF assms(2) 1(2)]
  show "f (v, st) \<bind> g = Some (v', st') \<and> accounted (n + m) v log v' log'"
    by (auto intro: accounted_trans)
qed

lemma simulates_unstall: "simulates 0 api (unstall_and_wait api) (unstall_and_wait (logged api))"
  by (auto simp: simulates_def unstall_and_wait_def accounted_def split: Option.bind_splits dest!: logged_wait)

lemma simulates_repeat: "simulates 0 api (repeat_unstall api n) (repeat_unstall (logged api) n)"
proof (induction n)
  case 0
  show ?case by (simp add: simulates_def accounted_def)
next
  case (Suc n)
  from simulates_bind [OF simulates_unstall this] show ?case by (simp add: simulates_def)
qed

lemma logged_pcs:
  "read_pcs (logged api) (v, st, log) = Some (v', st', log') \<Longrightarrow>
     read_pcs api (v, st) = Some (v', st') \<and> ct_result v' = ct_result v \<and> ct_insn v' = ct_insn v
     \<and> reg_values log' = reg_values log @ [ct_npc v', ct_ppc v', ct_r1 v']"
  by (auto simp: read_pcs_def split: Option.bind_splits)

lemma simulates_read_add:
  "simulates 3 api (\<lambda>x. read_pcs api x \<bind> (\<lambda>x. Some (add_result x)))
     (\<lambda>x. read_pcs (logged api) x \<bind> (\<lambda>x. Some (add_result x)))"
  by (auto simp: simulates_def accounted_def add_result_def split: Option.bind_splits dest!: logged_pcs)

lemma simulates_trap: "simulates 3 api (trap_test api adr pc) (trap_test (logged api) adr pc)"
  unfolding simulates_def
proof (intro allI impI)
  fix v st log v' st' log'
  assume run: "trap_test (logged api) adr pc (v, st, log) = Some (v', st', log')"
  let ?pc = "\<lambda>st. case pc of Some p \<Rightarrow> check (cpu0_write api NPC_REG (SDRAM_BASE + p) st) | None \<Rightarrow> Some st"
  from run obtain insn st1 st2 st3 v4 st4 log4 v5 st5 log5 st6 where
    steps: "check_val (wb_read32 api (SDRAM_BASE + adr) (ct_insn v) st) = Some (insn, st1)"
      "check (wb_write32 api (SDRAM_BASE + adr) 0x21000001 st1) = Some st2" "?pc st2 = Some st3"
      "unstall_and_wait (logged api) (v\<lparr>ct_insn := insn\<rparr>, st3, log @ [Mem insn]) = Some (v4, st4, log4)"
      "read_pcs (logged api) (v4, st4, log4) = Some (v5, st5, log5)"
      "check (wb_write32 api (SDRAM_BASE + adr) (ct_insn v5) st5) = Some st6"
      "(v', st', log') = add_result (v5, st6, log5)"
    unfolding trap_test_def prod.case by (cases pc) (auto split: Option.bind_splits)
  from simulatesD [OF simulates_unstall steps(4)] logged_pcs [OF steps(5)] steps
  show "trap_test api adr pc (v, st) = Some (v', st') \<and> accounted 3 v log v' log'"
    by (auto simp: trap_test_def add_result_def accounted_def)
qed

lemma simulates_traps: "simulates 18 api (trap_tests api) (trap_tests (logged api))"
  using simulates_bind [OF simulates_bind [OF simulates_bind [OF simulates_bind [OF simulates_bind
      [OF simulates_trap simulates_trap] simulates_trap] simulates_trap] simulates_trap] simulates_trap]
  by (simp add: trap_tests_def [abs_def])

lemma simulates_read_repeat:
  "simulates 3 api (\<lambda>x. repeat_unstall api n x \<bind> (\<lambda>x. read_pcs api x \<bind> (\<lambda>x. Some (add_result x))))
     (\<lambda>x. repeat_unstall (logged api) n x \<bind> (\<lambda>x. read_pcs (logged api) x \<bind> (\<lambda>x. Some (add_result x))))"
  using simulates_bind [OF simulates_repeat [of api n] simulates_read_add] by simp

lemma simulates_cpu0_write:
  "simulates 0 api (\<lambda>(v, st). do { st \<leftarrow> check (cpu0_write api adr w st); Some (v, st) })
     (\<lambda>(v, st). do { st \<leftarrow> check (cpu0_write (logged api) adr w st); Some (v, st) })"
  by (auto simp: simulates_def accounted_def split: Option.bind_splits)

lemma step_tests_alt:
  "step_tests api = (\<lambda>x. (case x of (v, st) \<Rightarrow> do { st \<leftarrow> check (cpu0_write api DMR1_REG (push_bit 22 1) st); Some (v, st) })
     \<bind> (\<lambda>x. repeat_unstall api 5 x \<bind> (\<lambda>x. read_pcs api x \<bind> (\<lambda>x. Some (add_result x))))
     \<bind> (\<lambda>(v, st). do { st \<leftarrow> check (cpu0_write api NPC_REG (SDRAM_BASE + 0x24) st); Some (v, st) })
     \<bind> (\<lambda>x. repeat_unstall api 2 x \<bind> (\<lambda>x. read_pcs api x \<bind> (\<lambda>x. Some (add_result x)))))"
  by (rule ext) (simp add: step_tests_def case_prod_unfold Let_def Option.bind_assoc)

lemma simulates_steps: "simulates 6 api (step_tests api) (step_tests (logged api))"
  using simulates_bind [OF simulates_bind [OF simulates_bind [OF simulates_cpu0_write simulates_read_repeat]
      simulates_cpu0_write] simulates_read_repeat, of api DMR1_REG "push_bit 22 1" 5 NPC_REG "SDRAM_BASE + 0x24" 2]
  unfolding step_tests_alt by simp

text \<open>
  The verdict on the CPU. Whenever the test returns, it has read twenty-seven registers of the CPU
  (the next and the previous program counter and a general register, after each of nine runs), and it
  passes exactly if they add up to the sum of what it expects, 0x44c.
\<close>

theorem cpu_test_verdict:
  assumes "test_or1k_cpu0 (logged api) v (st, []) = Some (e, st', log)"
  shows "length (reg_values log) = 27
     \<and> e = (if sum_list (reg_values log) = 0x44c then APP_ERR_NONE else APP_ERR_TEST_FAIL)
     \<and> test_or1k_cpu0 api v st = Some (e, st')"
proof -
  have cpu_set: "setup_cpu (logged api) (st, log) = do { st \<leftarrow> setup_cpu api st; Some (st, log) }" for st log
    by (simp add: setup_cpu_def Option.bind_assoc)
  let ?sum = "\<lambda>v. v\<lparr>ct_result := ct_npc v + ct_ppc v + ct_r1 v\<rparr>"
  obtain st1 st2 v3 st3 log3 v4 st4 log4 st5 v6 st6 log6 v7 where steps:
    "write_words api cpu_program st = Some st1" "setup_cpu api st1 = Some st2"
    "repeat_unstall (logged api) 11 (v, st2, []) = Some (v3, st3, log3)"
    "read_pcs (logged api) (v3, st3, log3) = Some (v4, st4, log4)"
    "check (cpu0_write api DMR1_REG 0 st4) = Some st5"
    "trap_tests (logged api) (?sum v4, st5, log4) = Some (v6, st6, log6)"
    "step_tests (logged api) (v6, st6, log6) = Some (v7, st', log)"
    "e = (if ct_result v7 XOR 0xdeaddae1 \<noteq> 0xdeaddead then APP_ERR_TEST_FAIL else APP_ERR_NONE)"
    using assms by (auto simp: test_or1k_cpu0_def cpu_set Let_def split: Option.bind_splits)
  note run = simulatesD [OF simulates_repeat steps(3)] logged_pcs [OF steps(4)]
    simulatesD [OF simulates_traps steps(6)] simulatesD [OF simulates_steps steps(7)]
  have "accounted 24 (?sum v4) log4 v7 log" using accounted_trans [of 18 _ _ _ _ 6] run by fastforce
  moreover have "length (reg_values log4) = 3" "sum_list (reg_values log4) = ct_result (?sum v4)"
    using run by (auto simp: accounted_def)
  ultimately have count: "length (reg_values log) = 27" and "sum_list (reg_values log) = ct_result v7"
    by (auto simp: accounted_def)
  moreover have "w XOR 0xdeaddae1 = 0xdeaddead \<longleftrightarrow> w = 0x44c" for w :: u32
  proof -
    have "w XOR a = b \<longleftrightarrow> w = b XOR a" for a b :: u32 by (auto simp: xor.assoc)
    from this [of "0xdeaddae1" "0xdeaddead"] show ?thesis by simp
  qed
  ultimately show ?thesis using steps run by (auto simp: test_or1k_cpu0_def Let_def)
qed

subsection \<open>A target that passes\<close>

text \<open>
  For the concrete runs: the instructions of the test program, with delay slot, single step and trap.
  \<open>o_pc\<close> is the next instruction, \<open>o_next\<close> the one behind it.
\<close>

record or1k =
  o_mem :: "u32 list"
  o_reg :: "u32 list"
  o_pc :: u32
  o_next :: u32
  o_ppc :: u32
  o_step :: bool
  o_stalled :: bool

definition or1k_exec :: "or1k \<Rightarrow> or1k" where
  "or1k_exec m =
     (let at = (\<lambda>adr. unat (drop_bit 2 adr)); insn = o_mem m ! at (o_pc m); opc = drop_bit 26 insn;
          rd = unat (drop_bit 21 insn AND 31); ra = o_reg m ! unat (drop_bit 16 insn AND 31);
          rb = o_reg m ! unat (drop_bit 11 insn AND 31); imm = insn AND 0xffff;
          m' = m\<lparr>o_ppc := o_pc m, o_pc := o_next m, o_next := o_next m + 4\<rparr> in
      if opc = 0x38 then m'\<lparr>o_reg := (o_reg m)[rd := (if insn AND 15 = 5 then ra XOR rb else ra + rb)]\<rparr>
      else if opc = 0x27 then m'\<lparr>o_reg := (o_reg m)[rd := ra + imm]\<rparr>
      else if opc = 0x06 then m'\<lparr>o_reg := (o_reg m)[rd := push_bit 16 imm]\<rparr>
      else if opc = 0x2a then m'\<lparr>o_reg := (o_reg m)[rd := ra OR imm]\<rparr>
      else if opc = 0x35 then
        m'\<lparr>o_mem := (o_mem m)[at (ra + (push_bit 11 (drop_bit 21 insn AND 31) OR (insn AND 0x7ff))) := rb]\<rparr>
      else if opc = 0x21 then m'\<lparr>o_reg := (o_reg m)[rd := o_mem m ! at (ra + imm)]\<rparr>
      else if opc = 0x00 then m'\<lparr>o_next := o_pc m + push_bit 2 (insn OR 0xfc000000)\<rparr>
      else m'\<lparr>o_stalled := True\<rparr>)"

fun or1k_run :: "nat \<Rightarrow> or1k \<Rightarrow> or1k" where
  "or1k_run 0 m = m"
| "or1k_run (Suc n) m =
     (if o_stalled m then m
      else (let m = or1k_exec m in if o_step m then m\<lparr>o_stalled := True\<rparr> else or1k_run n m))"

definition or1k_api :: "or1k debug_api" where
  "or1k_api =
     \<lparr>wb_read32 = \<lambda>adr _ m. Some (0, o_mem m ! unat (drop_bit 2 adr), m),
      wb_write32 = \<lambda>adr w m. Some (0, m\<lparr>o_mem := (o_mem m)[unat (drop_bit 2 adr) := w]\<rparr>),
      wb_read_block32 = \<lambda>_ _ _ _. None, wb_read_block16 = \<lambda>_ _ _ _. None, wb_read_block8 = \<lambda>_ _ _ _. None,
      wb_write_block32 = \<lambda>_ _ _ _. None, wb_write_block16 = \<lambda>_ _ _ _. None, wb_write_block8 = \<lambda>_ _ _ _. None,
      cpu0_read = \<lambda>adr _ m. Some (0, if adr = 16 then o_pc m else if adr = 18 then o_ppc m else o_reg m ! unat (adr - 0x400), m),
      cpu0_write = \<lambda>adr w m. Some (0, if adr = 16 then m\<lparr>o_pc := w, o_next := w + 4\<rparr>
        else if adr = 0x3010 then m\<lparr>o_step := bit w 22\<rparr> else m),
      cpu0_read_ctrl = \<lambda>_ _ m. Some (0, of_bool (o_stalled m), m),
      cpu0_write_ctrl = \<lambda>_ d m. Some (0, if bit d 0 then m\<lparr>o_stalled := True\<rparr> else or1k_run 20 (m\<lparr>o_stalled := False\<rparr>))\<rparr>"

definition or1k_reset :: or1k where
  "or1k_reset = \<lparr>o_mem = replicate 16 0, o_reg = replicate 4 0, o_pc = 0x100, o_next = 0x104, o_ppc = 0, o_step = False,
     o_stalled = False\<rparr>"

definition unset :: cpu_test where
  "unset = \<lparr>ct_npc = 0, ct_ppc = 0, ct_r1 = 0, ct_insn = 0, ct_stalled = 0, ct_result = 0\<rparr>"

lemma or1k_passes:
  "(case test_or1k_cpu0 (logged or1k_api) unset (or1k_reset, []) of Some (e, m, log) \<Rightarrow> e = 0 | None \<Rightarrow> False)"
  by code_simp

theorem cpu_test_verdict_witness:
  "\<exists>m log. test_or1k_cpu0 (logged or1k_api) unset (or1k_reset, []) = Some (APP_ERR_NONE, m, log)
     \<and> sum_list (reg_values log) = 0x44c \<and> test_or1k_cpu0 or1k_api unset or1k_reset = Some (APP_ERR_NONE, m)"
proof -
  obtain m log where "test_or1k_cpu0 (logged or1k_api) unset (or1k_reset, []) = Some (APP_ERR_NONE, m, log)"
    using or1k_passes by (auto simp: APP_ERR_NONE_def split: option.splits)
  with cpu_test_verdict [OF this] show ?thesis
    by (auto simp: APP_ERR_NONE_def APP_ERR_TEST_FAIL_def split: if_splits)
qed

lemma or1k_sram:
  "(case test_sram (logged or1k_api) 0 (or1k_reset, []) of Some (e, m, log) \<Rightarrow> e = 0 | None \<Rightarrow> False)"
  by code_simp

theorem sram_test_sees_last_witness:
  "\<exists>m log. test_sram (logged or1k_api) 0 (or1k_reset, []) = Some (APP_ERR_NONE, m, log)
     \<and> test_sram or1k_api 0 or1k_reset = Some (APP_ERR_NONE, m)"
proof -
  obtain m log where "test_sram (logged or1k_api) 0 (or1k_reset, []) = Some (APP_ERR_NONE, m, log)"
    using or1k_sram by (auto simp: APP_ERR_NONE_def split: option.splits)
  with sram_test_sees_last [OF this] show ?thesis by auto
qed

end
