(* ===== verification/Bridge_Main.thy ===== *)
theory Bridge_Main
  imports Jsp_Queues Chain_Setup Self_Test
begin

unbundle bit_operations_syntax

text \<open>
  \<open>main\<close> of adv_jtag_bridge.c: from the command line to the servers, and the threads that run from then
  on. What the calls of the system answer is in \<open>system\<close>. \<open>None\<close>: the process ends, or a call does not
  come back. The name of the cable and the help text are not kept.
\<close>

subsection \<open>The globals\<close>

definition initial_startup :: "'s \<Rightarrow> malloc_oracle \<Rightarrow> bool list \<Rightarrow> bool list \<Rightarrow> 's startup" where
  "initial_startup s os bsdl_os ir_os =
     \<lparr>su_jtag = init_jtag s os, su_bsdl = bsdl_init bsdl_os, cable_in_use = None, target_dev_pos = 0, do_selftest = False,
      cmd_line_ir_sizes = [], ir_reallocs = 0, ir_realloc_answers = ir_os, cmd_line_cmd_debug = -1, port = None,
      jspport = None, hwpport = None, force_alt_vjtag = 0, idcodes = []\<rparr>"

text \<open>What the peers will send, how the writes to them will go, and the content of uninitialised locals.\<close>

record peers =
  gdb_reads :: "read_answer list"
  gdb_writes :: "write_answer list"
  terminal_reads :: "recv_answer list"
  terminal_writes :: "send_answer list"
  stack_junk :: u32

text \<open>The globals of the servers as the program starts, with the state of the chain given.\<close>

definition no_ring :: ring where
  "no_ring = \<lparr>rb_buf = replicate JSP_BUFFER_SIZE 0, rb_rd = 0, rb_wr = 0, rb_count = 0\<rparr>"

definition initial_process :: "'s jtag \<Rightarrow> peers \<Rightarrow> 's jsp_process" where
  "initial_process j p =
     \<lparr>jtag = j, pipes = [], target_is_running = False, monitor_thread_running = False, connections = [],
      pipes_mutex = False,
      client_waiting = False, target_running = False, single_step_mode = False, proto_num = 0, server_fd = 0,
      client_fd = 0, sigval = 0, start_addr = 0, mp_table = mp_hash_init, use_cached_npc = False, cached_npc = 0,
      pipe_fds = (0, 0), hwp_in_use = replicate HWP_MAX_WP 0, pkt_data = (\<lambda>_. 0), pkt_len = 0,
      incoming = gdb_reads p, write_answers = gdb_writes p, sent = [], junk = stack_junk p,
      hwp_link = \<lparr>hl_fd = -1, hl_in = [], hl_writes = [], hl_sent = [], hl_data = (\<lambda>_. 0), hl_len = 0\<rparr>,
      hwp_server_fd = -1, hwp_pipe_fds = (0, 0), hwp_portnum = 0, hwp_server_running = False,
      hwp_target_is_running = False, use_cached_dmr2 = False, cached_dmr2 = 0,
      jsp_server_fd = -1, jsp_client_fd = -1, jsp_pipe_fds = (0, 0), jsp_hostname = [], jsp_ipstr = [], jsp_portnum = 0,
      jsp_tohw = no_ring, jsp_fromhw = no_ring, jsp_server_running = False, jsp_target_is_running = False,
      jsp_recvs = terminal_reads p, jsp_sends = terminal_writes p, jsp_out = []\<rparr>"

subsection \<open>Start-up\<close>

definition init_cable :: "'s startup \<Rightarrow> 's startup option" where
  "init_cable st =
     do { (e, s) \<leftarrow> cable_init (cable_in_use st) (cable (su_jtag st));
          (if e \<noteq> APP_ERR_NONE then None else Some (st\<lparr>su_jtag := (su_jtag st)\<lparr>cable := s\<rparr>\<rparr>)) }"

definition run_selftest :: "'s jtag_cable_t \<Rightarrow> dbg_hw \<Rightarrow> cpu_test \<Rightarrow> 's startup \<Rightarrow> 's startup option" where
  "run_selftest c hw v st =
     (if do_selftest st then
        do { (e, j) \<leftarrow> dbg_test (bridge_api c hw) v (su_jtag st);
             (if e \<noteq> APP_ERR_NONE then None else Some (st\<lparr>su_jtag := j\<rparr>)) }
      else Some st)"

record system =
  sys_malloc :: bool
  sys_monitor :: bool
  sys_rsp :: init_answers
  sys_jsp :: hwp_answers
  sys_jsp_host :: "u8 list option"
  sys_jsp_ip :: "u8 list"
  sys_jsp_thread :: bool
  sys_hwp :: hwp_answers
  sys_hwp_thread :: bool

definition start_servers ::
  "'s jtag_cable_t \<Rightarrow> dbg_hw \<Rightarrow> int \<times> int \<times> int \<Rightarrow> system \<Rightarrow> 's jsp_process \<Rightarrow> 's jsp_process option" where
  "start_servers c hw ports a w =
     (let (rsp, jsp, hwp) = ports; w = rsp_init rsp (sys_rsp a) (snd (start_monitor_thread (sys_monitor a) w)) in
      do { w \<leftarrow> jsp_init jsp (sys_jsp a) (sys_jsp_host a) (sys_jsp_ip a) w;
           let w = snd (jsp_server_start (sys_jsp_thread a) w);
           (r, w) \<leftarrow> hwp_init c hw hwp (sys_hwp a) w;
           Some (if r \<noteq> 0 then snd (hwp_server_start (sys_hwp_thread a) w) else w) })"

text \<open>Up to the loop over \<open>handle_rsp\<close>; the result is the driver in use and the state.\<close>

definition bridge_main ::
  "dbg_hw \<Rightarrow> 's jtag_cable_t list \<Rightarrow> (char \<times> string) list \<Rightarrow> string list
     \<Rightarrow> (string list \<Rightarrow> string option \<Rightarrow> (int \<times> string) list) \<Rightarrow> bsdl_fs \<Rightarrow> cpu_test \<Rightarrow> system \<Rightarrow> peers \<Rightarrow> 's startup
     \<Rightarrow> ('s jtag_cable_t \<times> 's jsp_process) option" where
  "bridge_main hw cables options args cable_getopt fs v a p st =
     (if \<not> sys_malloc a then None
      else
        do { st \<leftarrow> parse_args cables options args cable_getopt st;
             st \<leftarrow> init_cable st;
             c \<leftarrow> cable_in_use st;
             st \<leftarrow> configure_chain c (hw = DBG_HW_LEGACY) fs st;
             st \<leftarrow> run_selftest c hw v st;
             rsp \<leftarrow> port st;
             jsp \<leftarrow> jspport st;
             hwp \<leftarrow> hwpport st;
             ports \<leftarrow> server_ports rsp jsp hwp;
             w \<leftarrow> start_servers c hw ports a (initial_process (su_jtag st) p);
             Some (c, w) })"

text \<open>
  From then on: the main thread calls \<open>handle_rsp\<close>, the other threads make their passes.
\<close>

inductive program_step :: "'s jtag_cable_t \<Rightarrow> dbg_hw \<Rightarrow> 's jsp_process \<Rightarrow> 's jsp_process \<Rightarrow> bool" for c hw where
  main_thread: "handle_rsp c hw polls p w = Some (r, w') \<Longrightarrow> program_step c hw w w'"
| monitor_thread: "target_handler_pass c hw sel b w = Some w' \<Longrightarrow> program_step c hw w w'"
| hwp_thread: "hwp_server_pass c hw fd sel w = Some w' \<Longrightarrow> program_step c hw w w'"
| jsp_thread: "jsp_server_pass c fd sel w = Some w' \<Longrightarrow> program_step c hw w w'"

inductive_simps program_step_simps: "program_step c hw w w'"

subsection \<open>The serial port server keeps out of the way\<close>

lemma rsp_inv_jsp [simp]:
  "rsp_inv (w\<lparr>jsp_server_fd := fd\<rparr>) = rsp_inv w" "rsp_inv (w\<lparr>jsp_client_fd := fd\<rparr>) = rsp_inv w"
  "rsp_inv (w\<lparr>jsp_pipe_fds := fds\<rparr>) = rsp_inv w" "rsp_inv (w\<lparr>jsp_hostname := h\<rparr>) = rsp_inv w"
  "rsp_inv (w\<lparr>jsp_ipstr := ip\<rparr>) = rsp_inv w" "rsp_inv (w\<lparr>jsp_portnum := n\<rparr>) = rsp_inv w"
  "rsp_inv (w\<lparr>jsp_tohw := r\<rparr>) = rsp_inv w" "rsp_inv (w\<lparr>jsp_fromhw := r\<rparr>) = rsp_inv w"
  "rsp_inv (w\<lparr>jsp_server_running := b\<rparr>) = rsp_inv w" "rsp_inv (w\<lparr>jsp_target_is_running := b\<rparr>) = rsp_inv w"
  "rsp_inv (w\<lparr>jsp_recvs := rs\<rparr>) = rsp_inv w" "rsp_inv (w\<lparr>jsp_sends := ss\<rparr>) = rsp_inv w"
  "rsp_inv (w\<lparr>jsp_out := out\<rparr>) = rsp_inv w"
  by (simp_all add: rsp_inv_def)

lemma jsp_close_inv [simp]:
  "rsp_inv (jsp_server_close w) = rsp_inv w" "rsp_inv (jsp_client_close w) = rsp_inv w"
  "rsp_inv (jsp_send w) = rsp_inv w" "rsp_inv (jsp_send_all msg w) = rsp_inv w"
  by (simp_all add: jsp_server_close_def jsp_client_close_def jsp_send_def jsp_send_all_def Let_def case_prod_unfold
      split: option.split)

lemma jsp_accept_inv [simp]: "rsp_inv (jsp_accept fd w) = rsp_inv w"
  by (simp add: jsp_accept_def jsp_print_welcome_def Let_def)

lemma jsp_recv_inv: "jsp_recv w = Some (ok, w') \<Longrightarrow> rsp_inv w' = rsp_inv w"
  by (auto simp: jsp_recv_def Let_def case_prod_unfold split: if_splits option.splits)

lemma jsp_queue_inv: "jsp_queue_data_from_client w = Some w' \<Longrightarrow> rsp_inv w' = rsp_inv w"
  by (auto simp: jsp_queue_data_from_client_def split: Option.bind_splits if_splits dest!: jsp_recv_inv)

lemma jsp_monitor_status_inv: "jsp_monitor_status w = Some w' \<Longrightarrow> rsp_inv w \<Longrightarrow> rsp_inv w'"
  by (auto simp: jsp_monitor_status_def split: Option.bind_splits if_splits dest: read_pipe_inv)

lemma serial_free: "dbg_serial_sndrcv c n bs st = Some (e, r, st') \<Longrightarrow> \<not> dbg_access_mutex st'"
  by (auto simp: dbg_serial_sndrcv_def split: Option.bind_splits if_splits dest!: dbg_unlock_free)

lemma jsp_transact_inv: "jsp_hardware_transact c w = Some w' \<Longrightarrow> rsp_inv w \<Longrightarrow> rsp_inv w'"
  by (auto simp: jsp_hardware_transact_def on_jtag2_def Let_def rsp_inv_def
      split: Option.bind_splits if_splits dest!: serial_free)

lemma jsp_server_pass_inv:
  assumes "jsp_server_pass c fd sel w = Some w'" "rsp_inv w"
  shows "rsp_inv w'"
proof -
  have serve: "rsp_inv w'" if run: "jsp_serve c sel w = Some w'"
  proof -
    from run obtain w1 where w1: "(case sel of
          Select_ready ready \<Rightarrow>
            do { w \<leftarrow> (if snd (jsp_pipe_fds w) \<in> set ready then jsp_monitor_status w else Some w);
                 (if jsp_client_fd w \<in> set ready then jsp_queue_data_from_client w else Some w) }
        | _ \<Rightarrow> Some w) = Some w1"
      and rest: "(let w = jsp_send_data_to_client w1 in
        if jsp_target_is_running w then jsp_hardware_transact c w else Some w) = Some w'"
      by (auto simp: jsp_serve_def split: Option.bind_splits)
    have "rsp_inv w1" using w1 assms(2)
      by (auto split: select_result.splits if_splits Option.bind_splits dest!: jsp_queue_inv dest: jsp_monitor_status_inv)
    then have "rsp_inv (jsp_send_data_to_client w1)" by (simp add: jsp_send_data_to_client_def)
    with rest show ?thesis by (auto simp: Let_def split: if_splits dest: jsp_transact_inv)
  qed
  show ?thesis using assms serve by (auto simp: jsp_server_pass_def split: if_splits)
qed

lemma program_step_inv: "program_step c hw w w' \<Longrightarrow> rsp_inv w \<Longrightarrow> rsp_inv w'"
proof (induction rule: program_step.induct)
  case (main_thread polls p w r w')
  then show ?case using handle_rsp_inv by blast
next
  case (monitor_thread sel b w w')
  then show ?case using target_handler_pass_safe unfolding safe_def by blast
next
  case (hwp_thread fd sel w w')
  then show ?case using hwp_server_pass_safe unfolding safe_def by blast
qed (rule jsp_server_pass_inv)

subsection \<open>The start-up establishes the invariant\<close>

text \<open>The first access of \<open>hwp_init\<close> returns only if the mutex of the debug interface is free.\<close>

lemma hwp_probe_mutex: "hwp_probe c hw 0 n t w = Some r \<Longrightarrow> \<not> dbg_access_mutex (jtag w)"
  by (subst (asm) hwp_probe.simps)
    (auto simp: HWP_MAX_WP_def cpu_read_def on_jtag2_def dbg_cpu0_read_def dbg_lock_def split: Option.bind_splits if_splits)

lemma hwp_init_mutex: "hwp_init c hw n a w = Some r \<Longrightarrow> \<not> dbg_access_mutex (jtag w)"
  by (auto simp: hwp_init_def dest!: hwp_probe_mutex split: Option.bind_splits)

text \<open>All of the invariant but the mutex.\<close>

definition tables_inv :: "('s, 'z) rsp_bridge_scheme \<Rightarrow> bool" where
  "tables_inv w \<longleftrightarrow> mp_invar (mp_table w) \<and> hw_entries_ok (mp_table w) \<and> length (hwp_in_use w) = HWP_MAX_WP
     \<and> 0 \<le> sigval w \<and> sigval w < 256"

lemma rsp_inv_tables: "rsp_inv w \<longleftrightarrow> tables_inv w \<and> \<not> dbg_access_mutex (jtag w)"
  by (auto simp: rsp_inv_def tables_inv_def)

lemma rsp_init_tables: "tables_inv (rsp_init n a w) = (length (hwp_in_use w) = HWP_MAX_WP)"
  by (auto simp: rsp_init_def tables_inv_def hw_entries_ok_def mp.table_laws rsp_server_close_def Let_def split: option.split)

lemma tables_inv_upd [simp]:
  "tables_inv (w\<lparr>jsp_server_fd := fd\<rparr>) = tables_inv w" "tables_inv (w\<lparr>jsp_client_fd := fd\<rparr>) = tables_inv w"
  "tables_inv (w\<lparr>jsp_pipe_fds := fds\<rparr>) = tables_inv w" "tables_inv (w\<lparr>jsp_hostname := h\<rparr>) = tables_inv w"
  "tables_inv (w\<lparr>jsp_ipstr := ip\<rparr>) = tables_inv w" "tables_inv (w\<lparr>jsp_portnum := n\<rparr>) = tables_inv w"
  "tables_inv (w\<lparr>jsp_server_running := b\<rparr>) = tables_inv w" "tables_inv (jsp_server_close w) = tables_inv w"
  by (simp_all add: tables_inv_def jsp_server_close_def)

lemma register_tables:
  "register_with_monitor_thread p1 p2 fds w = Some (r, fds', w') \<Longrightarrow> tables_inv w' = tables_inv w"
  by (auto simp: tables_inv_def register_with_monitor_thread_def lock_pipes_def unlock_pipes_def open_pipe_def Let_def
      split: if_splits option.splits Option.bind_splits)

lemma jsp_init_keeps: "jsp_init n a h ip w = Some w' \<Longrightarrow> tables_inv w' = tables_inv w"
  unfolding jsp_init_def Let_def
  by (simp split: if_splits Option.bind_splits prod.splits) (auto dest!: register_tables)

lemma start_servers_inv:
  assumes "start_servers c hw ports a w = Some w'" "length (hwp_in_use w) = HWP_MAX_WP"
  shows "rsp_inv w'"
proof -
  obtain rsp jsp hwp where ports: "ports = (rsp, jsp, hwp)" by (cases ports)
  let ?w = "rsp_init rsp (sys_rsp a) (snd (start_monitor_thread (sys_monitor a) w))"
  from assms(1) obtain w1 r w2 where
    w1: "jsp_init jsp (sys_jsp a) (sys_jsp_host a) (sys_jsp_ip a) ?w = Some w1" and
    w2: "hwp_init c hw hwp (sys_hwp a) (snd (jsp_server_start (sys_jsp_thread a) w1)) = Some (r, w2)" and
    w': "w' = (if r \<noteq> 0 then snd (hwp_server_start (sys_hwp_thread a) w2) else w2)"
    by (auto simp: start_servers_def ports Let_def split: Option.bind_splits)
  let ?w1 = "snd (jsp_server_start (sys_jsp_thread a) w1)"
  have "tables_inv ?w" using assms(2) by (simp add: rsp_init_tables start_monitor_thread_def Let_def)
  then have "tables_inv w1" using jsp_init_keeps [OF w1] by simp
  then have "tables_inv ?w1" by (simp add: tables_inv_def jsp_server_start_def Let_def)
  then have "rsp_inv ?w1" using hwp_init_mutex [OF w2] by (simp add: rsp_inv_tables)
  from hwp_init_inv [OF w2 this] show ?thesis by (simp add: w' hwp_server_start_def Let_def)
qed

text \<open>
  C32. The whole program. Whatever the command line, the device descriptions, the chain, the self test and
  the system, if the start-up gets as far as the servers, then in every interleaving of the main thread,
  the monitor and the two server threads, whatever their clients send, the matchpoint table stays a
  well-formed hash table, every hardware matchpoint names one of the eight watchpoints, the pool has
  eight entries, the signal fits two hexadecimal digits, and the mutex of the debug interface is free.
\<close>

theorem program_invariant:
  assumes "bridge_main hw cables options args cable_getopt fs v a p st = Some (c, w)" "(program_step c hw)\<^sup>*\<^sup>* w w'"
  shows "mp_invar (mp_table w')
     \<and> (\<forall>ty a e. ty \<noteq> BP_MEMORY \<longrightarrow> mp_hash_lookup ty a (mp_table w') = Some e \<longrightarrow> unat (mpe_instr e) < HWP_MAX_WP)
     \<and> length (hwp_in_use w') = HWP_MAX_WP \<and> 0 \<le> sigval w' \<and> sigval w' < 256 \<and> \<not> dbg_access_mutex (jtag w')"
proof -
  obtain ports j where "start_servers c hw ports a (initial_process j p) = Some w"
    using assms(1) by (auto simp: bridge_main_def split: Option.bind_splits if_splits)
  then have "rsp_inv w" by (rule start_servers_inv) (simp add: initial_process_def)
  with assms(2) have "rsp_inv w'"
    by (induction rule: rtranclp_induct) (auto intro: program_step_inv)
  then show ?thesis by (simp add: rsp_inv_def hw_entries_ok_def)
qed

text \<open>
  For the concrete run: a cable named \<open>tape\<close> whose TDO levels are given, and which fails once they are
  used up, on the chain of two devices; the command line says all there is to know.
\<close>

definition tape :: "bool list jtag_cable_t" where
  "tape =
     (let c = scripted; dead = (\<lambda>s. s = []) in
      c\<lparr>name := ''tape'', bit_out_func := (\<lambda>p s. if dead s then Some (APP_ERR_USB, s) else bit_out_func c p s),
        bit_inout_func := (\<lambda>p s. if dead s then Some (APP_ERR_USB, 0, s) else bit_inout_func c p s),
        stream_out_func := (\<lambda>ws n l s. if dead s then Some (APP_ERR_USB, s) else stream_out_func c ws n l s),
        stream_inout_func := (\<lambda>ws is n l s. if dead s then Some (APP_ERR_USB, is, s) else stream_inout_func c ws is n l s)\<rparr>)"

definition tape_start :: "bool list startup" where
  "tape_start = initial_startup (replicate 14 False @ [False, False] @ replicate 7 True @ replicate 30 False) [] [] []"

definition tape_system :: system where
  "tape_system =
     \<lparr>sys_malloc = True, sys_monitor = True,
      sys_rsp = \<lparr>ini_proto = Some 6, ini_service = True, ini_socket = 3, ini_reuse = True, ini_getfl = True,
        ini_setfl = True, ini_hostname = True, ini_hostent = True, ini_bind = True, ini_listen = True\<rparr>,
      sys_jsp = \<lparr>hwi_addrinfo = \<lambda>_. True, hwi_socket = 4, hwi_reuse = True, hwi_bind = True, hwi_listen = True,
        hwi_pipe1 = Some (5, 6), hwi_pipe2 = Some (7, 8)\<rparr>,
      sys_jsp_host = None, sys_jsp_ip = [], sys_jsp_thread = True,
      sys_hwp = \<lparr>hwi_addrinfo = \<lambda>_. True, hwi_socket = 9, hwi_reuse = True, hwi_bind = True, hwi_listen = True,
        hwi_pipe1 = Some (10, 11), hwi_pipe2 = Some (12, 13)\<rparr>,
      sys_hwp_thread = True\<rparr>"

definition no_peers :: peers where
  "no_peers = \<lparr>gdb_reads = [], gdb_writes = [], terminal_reads = [], terminal_writes = [], stack_junk = 0\<rparr>"

definition tape_main :: "(bool list jtag_cable_t \<times> bool list jsp_process) option" where
  "tape_main = bridge_main DBG_HW_ADVANCED [tape]
     [(CHR ''x'', ''1''), (CHR ''l'', ''0:4''), (CHR ''l'', ''1:5''), (CHR ''c'', ''8'')] [''tape'']
     (\<lambda>_ _. []) no_files unset tape_system no_peers tape_start"

lemma tape_main_runs:
  "(case tape_main of None \<Rightarrow> False | Some (c, w) \<Rightarrow> name c = ''tape'' \<and> jsp_server_fd w = 4 \<and> server_fd w = 3
      \<and> monitor_thread_running w \<and> jsp_server_running w \<and> jsp_client_fd w = -1)"
  by code_simp

theorem program_invariant_witness:
  "\<exists>c w w'. tape_main = Some (c, w) \<and> program_step c DBG_HW_ADVANCED w w' \<and> mp_invar (mp_table w')
     \<and> length (hwp_in_use w') = HWP_MAX_WP"
proof -
  obtain c w where main: "tape_main = Some (c, w)" and w: "jsp_server_running w" "jsp_client_fd w = -1"
    using tape_main_runs by (auto split: option.splits)
  then have pass: "jsp_server_pass c (-1) Select_timeout w = Some (jsp_accept (-1) w)" by (simp add: jsp_server_pass_def)
  then have step: "program_step c DBG_HW_ADVANCED w (jsp_accept (-1) w)" by (rule jsp_thread)
  from program_invariant [OF main [unfolded tape_main_def] r_into_rtranclp, OF this] main step show ?thesis by blast
qed

end
