(* ===== verification/Packet_Streams.thy ===== *)
theory Packet_Streams
  imports Cable_Parallel Rsp_Codec
begin

unbundle bit_operations_syntax

text \<open>
  The stream functions that cable_usbblaster.c and cable_ft245.c have in common: whole bytes go out in
  packets of the shift mode, the bits left over by the shared routines of cable_common.c. The calls in
  which the two files differ are the record \<open>packet_port\<close>. The locale \<open>packet_cable\<close> says what
  these calls must do, and holds what the stream functions then do; both drivers are shown to be such a
  cable.
\<close>

subsection \<open>The stream functions\<close>

definition USBBLASTER_CMD_READ :: u8 where "USBBLASTER_CMD_READ = 0x40"
definition USBBLASTER_CMD_BYTESHIFT :: u8 where "USBBLASTER_CMD_BYTESHIFT = 0x80"
definition USBBLASTER_MAX_WRITE :: nat where "USBBLASTER_MAX_WRITE = 63"
definition USBBLASTER_MAX_READ :: nat where "USBBLASTER_MAX_READ = 62"

text \<open>
  \<open>pk_lower\<close> lowers the clock, \<open>pk_open\<close> opens the device if it has to be opened, \<open>pk_send\<close>
  sends a packet and is whether all of it went out, \<open>pk_get n t ins\<close> waits for \<open>n\<close> bytes and stores them
  at byte \<open>t\<close> of \<open>ins\<close>, \<open>pk_fail\<close> is what is done about an error in a read, \<open>pk_low\<close> notes
  that the clock is low.
\<close>

record 's packet_port =
  pk_lower :: "'s op"
  pk_open :: "'s op"
  pk_send :: "u8 list \<Rightarrow> 's \<Rightarrow> bool \<times> 's"
  pk_get :: "nat \<Rightarrow> u32 \<Rightarrow> u32 list \<Rightarrow> 's \<Rightarrow> ((u32 \<times> u32 list) option \<times> 's) option"
  pk_fail :: "'s \<Rightarrow> 's"
  pk_low :: "'s \<Rightarrow> 's"

text \<open>
  What goes out by bytes and what by bits: at least one bit is kept back for TMS. For a length of zero or
  less the unsigned count of bytes is huge, and the stream is read out of bounds; the shared routines,
  which the model calls then, do not come back either.
\<close>

definition split_stream :: "int \<Rightarrow> bool \<Rightarrow> nat \<times> nat" where
  "split_stream len_bits set_last_bit =
     (let bytes = nat len_bits div 8; leftover = nat len_bits - bytes * 8 in
      if leftover = 0 \<and> set_last_bit then (bytes - 1, leftover + 8) else (bytes, leftover))"

text \<open>The byte behind the whole bytes; the word it is in is read even if it is not used.\<close>

definition byte_behind :: "u32 list \<Rightarrow> nat \<Rightarrow> u32 option" where
  "byte_behind stream bytes =
     do { w \<leftarrow> word_at stream (bytes div 4); Some (drop_bit (bytes mod 4 * 8) w AND 0xFF) }"

text \<open>\<open>data\<close>: the bytes still to go.\<close>

function write_packets :: "'s packet_port \<Rightarrow> u8 list \<Rightarrow> 's \<Rightarrow> u32 \<times> 's" where
  "write_packets p data s =
     (if data = [] then (APP_ERR_NONE, s)
      else
        (let chunk = take USBBLASTER_MAX_WRITE data; n = length chunk;
             (sent, s) = pk_send p ((USBBLASTER_CMD_BYTESHIFT OR (of_nat n AND 0x3F)) # chunk) s in
         if \<not> sent then (APP_ERR_USB, s) else write_packets p (drop USBBLASTER_MAX_WRITE data) s))"
  by pat_completeness auto
termination by (relation "measure (\<lambda>(_, data, _). length data)") (auto simp: USBBLASTER_MAX_WRITE_def)

declare write_packets.simps [simp del]

function read_packets ::
  "'s packet_port \<Rightarrow> u8 list \<Rightarrow> u32 \<Rightarrow> u32 list \<Rightarrow> 's \<Rightarrow> (u32 \<times> u32 list \<times> 's) option" where
  "read_packets p data t ins s =
     (if data = [] then Some (APP_ERR_NONE, ins, s)
      else
        (let chunk = take USBBLASTER_MAX_READ data; n = length chunk;
             cmd = USBBLASTER_CMD_BYTESHIFT OR USBBLASTER_CMD_READ OR (of_nat n AND 0x3F);
             (sent, s) = pk_send p (cmd # chunk) s in
         if \<not> sent then Some (APP_ERR_USB, ins, pk_fail p s)
         else
           (case pk_get p n t ins s of
              None \<Rightarrow> None
            | Some (None, s) \<Rightarrow> Some (APP_ERR_USB, ins, pk_fail p s)
            | Some (Some (t, ins), s) \<Rightarrow> read_packets p (drop USBBLASTER_MAX_READ data) t ins s)))"
  by pat_completeness auto
termination by (relation "measure (\<lambda>(_, data, _). length data)") (auto simp: USBBLASTER_MAX_READ_def)

declare read_packets.simps [simp del]

text \<open>\<open>c\<close>: the driver struct, through which the shared routines reach the pins.\<close>

definition packet_write_stream ::
  "'s packet_port \<Rightarrow> (u32 \<Rightarrow> nat \<Rightarrow> u32) \<Rightarrow> 's jtag_cable_t \<Rightarrow> u32 list \<Rightarrow> int \<Rightarrow> bool \<Rightarrow> 's op" where
  "packet_write_stream p shr c stream len_bits set_last_bit s =
     (let (bytes, leftover) = split_stream len_bits set_last_bit in
      if bytes = 0 then cable_common_write_stream shr c stream len_bits set_last_bit s
      else
        do { (err, s) \<leftarrow> pk_lower p s;
             leftover_bits \<leftarrow> byte_behind stream bytes;
             (rv, s) \<leftarrow> pk_open p s;
             (if rv \<noteq> APP_ERR_NONE then Some (rv, s)
              else if bytes > length (bytes_of_words stream) then None
              else
                (let (e, s) = write_packets p (take bytes (bytes_of_words stream)) s;
                     s = pk_low p s in
                 if leftover \<noteq> 0 then cable_common_write_stream shr c [leftover_bits] (int leftover) set_last_bit s
                 else Some (err OR e, s))) })"

text \<open>
  The counter \<open>t\<close> of the bytes of the stream is unsigned; a byte is put into the lane of its index in
  this read.
\<close>

fun store_received :: "u32 \<Rightarrow> nat \<Rightarrow> u8 list \<Rightarrow> u32 list \<Rightarrow> u32 list option" where
  "store_received t i [] ins = Some ins"
| "store_received t i (b # bs) ins =
     (let k = unat (drop_bit 2 (t + of_nat i)) in
      do { w \<leftarrow> word_at ins k;
           ins \<leftarrow> put_at ins k (w OR push_bit (i mod 4 * 8) (ucast b));
           store_received t (i + 1) bs ins })"

text \<open>The counter of the loop that clears the words is an \<open>unsigned char\<close>.\<close>

definition clear_input :: "nat \<Rightarrow> u32 list \<Rightarrow> u32 list option" where
  "clear_input n ins =
     (let words = n div 32; all = (if n mod 32 \<noteq> 0 then words + 1 else words) in
      if words > 255 \<or> all > length ins then None else Some (replicate all 0 @ drop all ins))"

text \<open>After an error in the middle of a stream the words already received stay in the buffer.\<close>

definition packet_read_stream ::
  "'s packet_port \<Rightarrow> (u32 \<Rightarrow> nat \<Rightarrow> u32) \<Rightarrow> 's jtag_cable_t \<Rightarrow> u32 list \<Rightarrow> u32 list \<Rightarrow> int \<Rightarrow> bool
     \<Rightarrow> 's \<Rightarrow> (u32 \<times> u32 list \<times> 's) option" where
  "packet_read_stream p shr c outstream instream len_bits set_last_bit s =
     (let (bytes, leftover) = split_stream len_bits set_last_bit in
      if bytes = 0 then cable_common_read_stream shr c outstream instream len_bits set_last_bit s
      else
        do { (retval, s) \<leftarrow> pk_lower p s;
             ins \<leftarrow> clear_input (nat len_bits) instream;
             leftover_bits \<leftarrow> byte_behind outstream bytes;
             (rv, s) \<leftarrow> pk_open p s;
             (if rv \<noteq> APP_ERR_NONE then Some (rv, ins, s)
              else if bytes > length (bytes_of_words outstream) then None
              else
                do { (e, ins, s) \<leftarrow> read_packets p (take bytes (bytes_of_words outstream)) 0 ins s;
                     (if e \<noteq> APP_ERR_NONE then Some (e, ins, s)
                      else
                        (let s = pk_low p s in
                         if leftover \<noteq> 0 then
                           do { (e, rest, s) \<leftarrow> cable_common_read_stream shr c [leftover_bits] [0] (int leftover) set_last_bit s;
                                r \<leftarrow> word_at rest 0;
                                w \<leftarrow> word_at ins (bytes div 4);
                                ins \<leftarrow> put_at ins (bytes div 4) (w OR push_bit (8 * (bytes mod 4)) (r AND 0xFF));
                                Some (retval OR e, ins, s) }
                         else Some (retval, ins, s))) }) })"

subsection \<open>Bits of bytes\<close>

definition byte_bits :: "u8 list \<Rightarrow> bool list" where
  "byte_bits bs = map (\<lambda>i. bit (bs ! (i div 8)) (i mod 8)) [0..<8 * length bs]"

definition bytes_of_bits :: "bool list \<Rightarrow> u8 list" where
  "bytes_of_bits bs = map (\<lambda>k. horner_sum of_bool 2 (take 8 (drop (8 * k) bs))) [0..<length bs div 8]"

lemma length_byte_bits [simp]: "length (byte_bits bs) = 8 * length bs"
  by (simp add: byte_bits_def)

lemma length_bytes_of_bits [simp]: "length (bytes_of_bits bs) = length bs div 8"
  by (simp add: bytes_of_bits_def)

lemma nth_byte_bits: "i < 8 * length bs \<Longrightarrow> byte_bits bs ! i = bit (bs ! (i div 8)) (i mod 8)"
  by (simp add: byte_bits_def)

lemma byte_bits_Nil [simp]: "byte_bits [] = []"
  by (simp add: byte_bits_def)

lemma byte_bits_append: "byte_bits (as @ bs) = byte_bits as @ byte_bits bs"
proof (rule nth_equalityI)
  fix i assume i: "i < length (byte_bits (as @ bs))"
  show "byte_bits (as @ bs) ! i = (byte_bits as @ byte_bits bs) ! i"
  proof (cases "i < 8 * length as")
    case True
    then have "i div 8 < length as" by (simp add: less_mult_imp_div_less mult.commute)
    then show ?thesis using True i by (simp add: nth_append nth_byte_bits)
  next
    case False
    then obtain j where "i = 8 * length as + j" by (metis le_Suc_ex not_less)
    then show ?thesis using i by (simp add: nth_append nth_byte_bits)
  qed
qed simp

lemma bit_bytes_of_bits:
  assumes "k < length bs div 8" "j < 8"
  shows "bit (bytes_of_bits bs ! k) j = bs ! (8 * k + j)"
proof -
  have "8 * k + 8 \<le> length bs" using assms(1) by (simp add: less_eq_div_iff_mult_less_eq Suc_le_eq [symmetric])
  then show ?thesis using assms by (simp add: bytes_of_bits_def bit_horner_sum_bit_word_iff nth_append)
qed

lemma nth_bytes: "k < 4 * length ws \<Longrightarrow> bytes_of_words ws ! k = byte_of (ws ! (k div 4)) (k mod 4)"
proof (induction ws arbitrary: k)
  case (Cons w ws)
  show ?case
  proof (cases "k < 4")
    case True
    then have "k = 0 \<or> k = 1 \<or> k = 2 \<or> k = 3" by auto
    then show ?thesis by auto
  next
    case False
    then obtain j where "k = j + 4" by (metis add.commute le_Suc_ex not_less)
    then show ?thesis using Cons div_add_self2 [of 4 j] by simp
  qed
qed simp

lemma bit_byte: "j < 8 \<Longrightarrow> bit (byte_of w k) j = bit w (8 * k + j)"
  by (simp add: byte_of_def bit_ucast_iff bit_drop_bit_eq)

lemma byte_index: "8 * (i div 8 mod 4) + i mod 8 = (i::nat) mod 32"
  using mod_mult2_eq [of i 8 4] by simp

lemma byte_pos:
  assumes "i < (8 :: nat)"
  shows "(8 * n + i) div 32 = n div 4" "(8 * n + i) mod 32 = n mod 4 * 8 + i" "n mod 4 * 8 + i < 32"
proof -
  let ?a = "n div 4" and ?r = "n mod 4 * 8 + i"
  have e: "8 * n + i = 32 * ?a + ?r" using div_mult_mod_eq [of n 4] by linarith
  have "n mod 4 < 4" by simp
  with assms show lt: "?r < 32" by linarith
  show "(8 * n + i) div 32 = ?a" "(8 * n + i) mod 32 = ?r" unfolding e using lt by simp_all
qed

lemma stream_bytes:
  assumes "8 * m \<le> 32 * length ws"
  shows "byte_bits (take m (bytes_of_words ws)) = stream_bits ws (8 * m)"
proof (rule nth_equalityI)
  have len: "length (take m (bytes_of_words ws)) = m" using assms by simp
  then show "length (byte_bits (take m (bytes_of_words ws))) = length (stream_bits ws (8 * m))" by simp
  fix i assume "i < length (byte_bits (take m (bytes_of_words ws)))"
  then have i: "i < 8 * m" using len by simp
  then have "i div 8 < m" by (simp add: less_mult_imp_div_less mult.commute)
  then show "byte_bits (take m (bytes_of_words ws)) ! i = stream_bits ws (8 * m) ! i"
    using i len assms
    by (simp add: nth_byte_bits stream_bits_def stream_bit_def nth_bytes bit_byte byte_index flip: div_mult2_eq)
qed

text \<open>A stream is its whole bytes and then the bits left over.\<close>

lemma split_stream_bounds:
  assumes "split_stream (int n) l = (bytes, leftover)" "0 < n" "bytes \<noteq> 0"
  shows "8 * bytes + leftover = n" "leftover \<le> 8" "l \<longrightarrow> 0 < leftover"
  using assms by (auto simp: split_stream_def Let_def split: if_splits)

lemma split_whole_words: "0 < n \<Longrightarrow> n = 32 * length ws \<Longrightarrow> split_stream (int n) False = (4 * length ws, 0)"
  unfolding split_stream_def Let_def nat_int by simp

lemma behind_last_word: "byte_behind ws (4 * length ws) = None"
  by (simp add: byte_behind_def word_at_def)

lemma packet_streams_overrun:
  assumes "0 < n" "n = 32 * length ws"
  shows "packet_write_stream p shr c ws (int n) False s = None"
    "packet_read_stream p shr c ws ins (int n) False s = None"
  using assms unfolding packet_write_stream_def packet_read_stream_def split_whole_words [OF assms]
  by (simp_all add: behind_last_word split: Option.bind_split)

lemma byte_behind_bits:
  assumes "bytes div 4 < length ws"
  obtains w where "byte_behind ws bytes = Some w" "\<And>i. i < 8 \<Longrightarrow> bit w i = stream_bit ws (8 * bytes + i)"
proof -
  have "bit (drop_bit (bytes mod 4 * 8) (ws ! (bytes div 4)) AND 0xFF) i = stream_bit ws (8 * bytes + i)" if i: "i < 8" for i
  proof -
    note 1 = byte_pos(1) [OF i, of bytes] and 2 = byte_pos(2) [OF i, of bytes]
    have "bit (0xFF :: u32) i"
    proof -
      have "i \<in> {0, 1, 2, 3, 4, 5, 6, 7}" using i by auto
      then show ?thesis by auto
    qed
    then show ?thesis unfolding stream_bit_def 1 2 by (simp only: bit_and_iff bit_drop_bit_eq o_apply simp_thms add.commute)
  qed
  with assms that show thesis by (auto simp: byte_behind_def)
qed

lemma packets_by_bytes:
  assumes "8 * bytes + leftover = n" "leftover \<le> 8" "n \<le> 32 * length ws" "l \<longrightarrow> 0 < leftover"
    and "\<And>i. i < 8 \<Longrightarrow> bit w i = stream_bit ws (8 * bytes + i)"
  shows "stream_packets ws n l = map of_bool (byte_bits (take bytes (bytes_of_words ws))) @ stream_packets [w] leftover l"
proof -
  have "stream_packet ws n l i = of_bool (stream_bit ws i)" if "i < 8 * bytes" for i
    using that assms(1,4) by (auto simp: stream_packet_def TDO_def)
  moreover have "stream_packet ws n l (i + 8 * bytes) = stream_packet [w] leftover l i" if "i < leftover" for i
    using that assms by (auto simp: stream_packet_def stream_bit_def add.commute)
  moreover have "[0..<n] = [0..<8 * bytes] @ map (\<lambda>i. i + 8 * bytes) [0..<leftover]"
    using assms(1) upt_add_eq_append [of 0 "8 * bytes" leftover] by (simp add: map_add_upt add.commute)
  ultimately show ?thesis
    using assms(1,3) by (simp add: stream_packets_def stream_bytes stream_bits_def)
qed

lemma split_stream_room:
  assumes "0 < n" "n \<le> 32 * length ws" "n < 32 * length ws \<or> l" "split_stream (int n) l = (bytes, leftover)"
  shows "bytes div 4 < length ws"
proof -
  have "8 * bytes < 32 * length ws"
  proof (cases "bytes = 0")
    case False
    with split_stream_bounds [OF assms(4,1)] assms(2,3) show ?thesis by linarith
  qed (use assms(1,2) in auto)
  then show ?thesis by (simp add: less_mult_imp_div_less)
qed

lemma split_stream_short:
  assumes "0 < n" "n < 504" "split_stream (int n) l = (bytes, leftover)"
  shows "bytes \<le> 62"
  using split_stream_bounds [OF assms(3,1)] assms(2) by (cases "bytes = 0") linarith+

subsection \<open>What a read stores\<close>

lemma lane_bit:
  assumes "j < 32"
  shows "bit (push_bit (q * 8) (ucast (b :: u8)) :: u32) j \<longleftrightarrow> j div 8 = q \<and> bit b (j mod 8)"
proof -
  have "q * 8 \<le> j \<and> bit b (j - q * 8) \<longleftrightarrow> j div 8 = q \<and> bit b (j mod 8)"
  proof (cases "j div 8 = q")
    case True
    then have "q * 8 \<le> j" "j - q * 8 = j mod 8" using minus_div_mult_eq_mod [of j 8] by auto
    with True show ?thesis by simp
  next
    case False
    have "\<not> bit b (j - q * 8)" if "q * 8 \<le> j"
    proof -
      have "\<not> j - q * 8 < 8" using that False by auto
      then show ?thesis using bit_imp_le_length [of b "j - q * 8"] by auto
    qed
    with False show ?thesis by blast
  qed
  then show ?thesis using assms by (auto simp: bit_push_bit_iff bit_ucast_iff)
qed

lemma word_index:
  assumes "t + i < 2 ^ 32"
  shows "unat (drop_bit 2 (of_nat t + of_nat i :: u32)) = (t + i) div 4"
proof -
  have "unat (of_nat t + of_nat i :: u32) = t + i"
    unfolding of_nat_add [symmetric] unat_of_nat using assms by (simp add: mod_less)
  moreover have "unat (drop_bit 2 w) = unat w div 4" for w :: u32
    by (simp only: unat_drop_bit_eq) (simp add: drop_bit_eq_div unat_div)
  ultimately show ?thesis by simp
qed

lemma store_received_ok:
  "t + i + length bs \<le> 4 * length ins \<Longrightarrow> t + i + length bs < 2 ^ 32 \<Longrightarrow>
   \<exists>ins'. store_received (of_nat t) i bs ins = Some ins' \<and> length ins' = length ins
     \<and> (\<forall>k < length ins. \<forall>j < 32. bit (ins' ! k) j \<longleftrightarrow> bit (ins ! k) j
          \<or> (\<exists>m < length bs. (t + i + m) div 4 = k \<and> j div 8 = (i + m) mod 4 \<and> bit (bs ! m) (j mod 8)))"
proof (induction bs arbitrary: i ins)
  case (Cons b bs)
  let ?k = "(t + i) div 4"
  have room: "?k < length ins" using Cons.prems(1) by (simp add: less_mult_imp_div_less)
  let ?ins = "ins[?k := ins ! ?k OR push_bit (i mod 4 * 8) (ucast b)]"
  obtain ins' where ins': "store_received (of_nat t) (Suc i) bs ?ins = Some ins'" "length ins' = length ins"
    "\<forall>k < length ins. \<forall>j < 32. bit (ins' ! k) j \<longleftrightarrow> bit (?ins ! k) j
       \<or> (\<exists>m < length bs. (t + Suc i + m) div 4 = k \<and> j div 8 = (Suc i + m) mod 4 \<and> bit (bs ! m) (j mod 8))"
    using Cons.IH [of "Suc i" ?ins] Cons.prems by auto
  have "store_received (of_nat t) i (b # bs) ins = Some ins'"
    using room ins'(1) Cons.prems(2) by (simp add: word_index)
  moreover have "bit (ins' ! k) j \<longleftrightarrow> bit (ins ! k) j
      \<or> (\<exists>m < length (b # bs). (t + i + m) div 4 = k \<and> j div 8 = (i + m) mod 4 \<and> bit ((b # bs) ! m) (j mod 8))"
    if "k < length ins" "j < 32" for k j
  proof -
    have "bit (?ins ! k) j \<longleftrightarrow> bit (ins ! k) j \<or> (?k = k \<and> j div 8 = i mod 4 \<and> bit b (j mod 8))"
      using that room by (simp add: nth_list_update bit_or_iff lane_bit [OF that(2)] del: bit_push_bit_iff)
    moreover have "bit (ins' ! k) j \<longleftrightarrow> bit (?ins ! k) j
        \<or> (\<exists>m < length bs. (t + Suc i + m) div 4 = k \<and> j div 8 = (Suc i + m) mod 4 \<and> bit (bs ! m) (j mod 8))"
      using ins'(3) that by blast
    ultimately show ?thesis by (simp add: Ex_less_Suc2)
  qed
  ultimately show ?case using ins'(2) by blast
qed simp

text \<open>The input buffer of \<open>n\<close> bits with the levels \<open>tr\<close> stored: the rest of its words is zero.\<close>

definition holds_bits :: "nat \<Rightarrow> bool list \<Rightarrow> u32 list \<Rightarrow> u32 list \<Rightarrow> bool" where
  "holds_bits n tr ins0 ins \<longleftrightarrow> length ins = length ins0 \<and>
     (\<forall>k < length ins. \<forall>j < 32. bit (ins ! k) j \<longleftrightarrow>
        (32 * k + j < length tr \<and> tr ! (32 * k + j)) \<or> ((n + 31) div 32 \<le> k \<and> bit (ins0 ! k) j))"

lemma received_all:
  assumes "holds_bits n tr ins0 ins" "length tr = n" "n \<le> 32 * length ins0"
  shows "ins = pack_bits tr @ drop ((n + 31) div 32) ins0"
proof (rule nth_equalityI)
  have w: "(n + 31) div 32 \<le> length ins0" using assms(3) by linarith
  then show len: "length ins = length (pack_bits tr @ drop ((n + 31) div 32) ins0)"
    using assms by (simp add: holds_bits_def length_pack_bits)
  fix k assume k: "k < length ins"
  have bits: "bit (ins ! k) j \<longleftrightarrow> (32 * k + j < n \<and> tr ! (32 * k + j)) \<or> ((n + 31) div 32 \<le> k \<and> bit (ins0 ! k) j)"
    if "j < 32" for j using assms(1,2) k that by (simp add: holds_bits_def)
  show "ins ! k = (pack_bits tr @ drop ((n + 31) div 32) ins0) ! k"
  proof (cases "k < (n + 31) div 32")
    case True
    then have "(pack_bits tr @ drop ((n + 31) div 32) ins0) ! k = word_of_bits (take 32 (drop (32 * k) tr))"
      using assms(2) by (simp add: nth_append length_pack_bits nth_pack_bits)
    moreover have "ins ! k = word_of_bits (take 32 (drop (32 * k) tr))"
      using True bits assms(2) by (intro bit_word_eqI) (auto simp: bit_word_of_bits)
    ultimately show ?thesis by simp
  next
    case False
    then have "n \<le> 32 * k" by linarith
    then have "ins ! k = ins0 ! k" using False bits by (intro bit_word_eqI) auto
    then show ?thesis using False assms(2) w k len by (simp add: nth_append length_pack_bits)
  qed
qed

lemma byte_lane:
  assumes "j < 32"
  shows "(\<exists>m < length bs. m div 4 = k \<and> j div 8 = m mod 4 \<and> bit (bs ! m) (j mod 8)) \<longleftrightarrow>
     32 * k + j < 8 * length bs \<and> byte_bits bs ! (32 * k + j)"
proof -
  let ?m = "4 * k + j div 8"
  have at: "(32 * k + j) div 8 = ?m" "(32 * k + j) mod 8 = j mod 8"
    using div_mult_self3 [of 8 "4 * k" j] mod_mult_self4 [of 8 "4 * k" j] by (simp_all add: mult.commute)
  have "j div 8 < 4" using assms by (simp add: less_mult_imp_div_less)
  then have m: "m div 4 = k \<and> j div 8 = m mod 4 \<longleftrightarrow> m = ?m" for m
    using mult_div_mod_eq [of 4 m] by auto
  have "(32 * k + j) div 8 < length bs \<longleftrightarrow> 32 * k + j < length bs * 8" by (rule div_less_iff_less_mult) simp
  then have lt: "?m < length bs \<longleftrightarrow> 32 * k + j < 8 * length bs" unfolding at(1) by (simp only: mult.commute [of 8 "length bs"])
  have "byte_bits bs ! (32 * k + j) = bit (bs ! ?m) (j mod 8)" if "32 * k + j < 8 * length bs"
    using nth_byte_bits [OF that] unfolding at .
  moreover have "(\<exists>m < length bs. m div 4 = k \<and> j div 8 = m mod 4 \<and> bit (bs ! m) (j mod 8)) \<longleftrightarrow>
      ?m < length bs \<and> bit (bs ! ?m) (j mod 8)" (is "?ex \<longleftrightarrow> ?one")
  proof
    assume ?ex
    then obtain m' where "m' < length bs" "m' div 4 = k \<and> j div 8 = m' mod 4" "bit (bs ! m') (j mod 8)" by blast
    then show ?one using m [of m'] by (metis (lifting))
  next
    assume ?one
    then show ?ex using m [of ?m] by (metis (lifting))
  qed
  ultimately show ?thesis using lt by blast
qed

lemma received_bytes:
  assumes "8 * length bs \<le> n" "n \<le> 32 * length ins0" "n \<le> 4096"
  shows "\<exists>ins. store_received 0 0 bs (replicate ((n + 31) div 32) 0 @ drop ((n + 31) div 32) ins0) = Some ins
     \<and> holds_bits n (byte_bits bs) ins0 ins"
proof -
  let ?w = "(n + 31) div 32" and ?ins = "replicate ((n + 31) div 32) 0 @ drop ((n + 31) div 32) ins0"
  have w: "?w \<le> length ins0" using assms(2) by linarith
  then have len: "length ?ins = length ins0" by simp
  obtain ins where ins: "store_received 0 0 bs ?ins = Some ins" "length ins = length ins0"
    "\<forall>k < length ins0. \<forall>j < 32. bit (ins ! k) j \<longleftrightarrow> bit (?ins ! k) j
       \<or> (\<exists>m < length bs. m div 4 = k \<and> j div 8 = m mod 4 \<and> bit (bs ! m) (j mod 8))"
    using store_received_ok [of 0 0 bs ?ins] assms unfolding len by auto
  have "bit (?ins ! k) j \<longleftrightarrow> ?w \<le> k \<and> bit (ins0 ! k) j" if "k < length ins0" for k j
    using that w by (simp add: nth_append)
  with ins show ?thesis by (auto simp: holds_bits_def byte_lane)
qed

lemma low_byte_of_bits: "length tr \<le> 8 \<Longrightarrow> word_of_bits tr AND 0xFF = word_of_bits tr"
proof (rule bit_word_eqI)
  fix i assume "length tr \<le> 8" "i < LENGTH(32)"
  moreover have "bit (0xFF :: u32) i" if "i < 8"
  proof -
    have "i \<in> {0, 1, 2, 3, 4, 5, 6, 7}" using that by auto
    then show ?thesis by auto
  qed
  ultimately show "bit (word_of_bits tr AND 0xFF) i = bit (word_of_bits tr) i"
    by (auto simp: bit_and_iff bit_word_of_bits)
qed

lemma received_more:
  assumes "holds_bits n tr ins0 ins" "length tr = 8 * m" "length tr2 \<le> 8" "m div 4 < length ins"
  shows "holds_bits n (tr @ tr2) ins0 (ins[m div 4 := ins ! (m div 4) OR push_bit (8 * (m mod 4)) (word_of_bits tr2 AND 0xFF)])"
    (is "holds_bits n _ ins0 ?ins")
proof -
  let ?q = "m div 4" and ?r = "m mod 4"
  have m: "8 * m = 32 * ?q + 8 * ?r" using mult_div_mod_eq [of 4 m] by linarith
  have "bit (?ins ! k) j \<longleftrightarrow> bit (ins ! k) j \<or> (8 * m \<le> 32 * k + j \<and> 32 * k + j < 8 * m + length tr2 \<and> tr2 ! (32 * k + j - 8 * m))"
    if "k < length ins" "j < 32" for k j
  proof (cases "k = ?q")
    case True
    then show ?thesis using that m assms(3,4)
      by (auto simp: low_byte_of_bits bit_or_iff bit_push_bit_iff bit_word_of_bits)
  next
    case False
    have "?r < 4" by simp
    have "\<not> (8 * m \<le> 32 * k + j \<and> 32 * k + j < 8 * m + length tr2)"
    proof
      assume "8 * m \<le> 32 * k + j \<and> 32 * k + j < 8 * m + length tr2"
      then have "32 * ?q \<le> 32 * k + j" "32 * k + j < 32 * ?q + 32" using assms(3) m \<open>?r < 4\<close> by linarith+
      then show False using False that(2) by linarith
    qed
    then show ?thesis using False by (auto simp: nth_list_update)
  qed
  moreover have "32 * k + j < length (tr @ tr2) \<and> (tr @ tr2) ! (32 * k + j) \<longleftrightarrow>
      (32 * k + j < length tr \<and> tr ! (32 * k + j))
      \<or> (8 * m \<le> 32 * k + j \<and> 32 * k + j < 8 * m + length tr2 \<and> tr2 ! (32 * k + j - 8 * m))" for k j
    using assms(2) by (auto simp: nth_append)
  ultimately show ?thesis
    using assms(1) unfolding holds_bits_def length_list_update by blast
qed

lemma byte_bits_of_bits:
  assumes "length tr = 8 * m"
  shows "byte_bits (bytes_of_bits tr) = tr"
proof (rule nth_equalityI)
  fix i assume "i < length (byte_bits (bytes_of_bits tr))"
  then have i: "i < 8 * m" using assms by simp
  then have "i div 8 < m" by (simp add: less_mult_imp_div_less mult.commute)
  then show "byte_bits (bytes_of_bits tr) ! i = tr ! i"
    using assms i by (simp add: nth_byte_bits bit_bytes_of_bits)
qed (simp add: assms)

lemma cleared_words: "n < 8192 \<Longrightarrow> n \<le> 32 * length ins \<Longrightarrow>
    clear_input n ins = Some (replicate ((n + 31) div 32) 0 @ drop ((n + 31) div 32) ins)"
proof -
  assume n: "n < 8192" "n \<le> 32 * length ins"
  have "(if n mod 32 \<noteq> 0 then n div 32 + 1 else n div 32) = (n + 31) div 32"
  proof (cases "n mod 32 = 0")
    case True
    then show ?thesis by auto
  next
    case False
    then have "(n mod 32 + 31) div 32 = 1" using mod_less_divisor [of 32 n] by (intro div_nat_eqI) auto
    then have "(n + 31) div 32 = n div 32 + 1" by (simp add: div_add1_eq [of n 31 32])
    with False show ?thesis by simp
  qed
  moreover have "n div 32 < 256" "(n + 31) div 32 \<le> length ins" using n by linarith+
  ultimately show ?thesis unfolding clear_input_def Let_def by auto
qed

text \<open>Sixty-four bytes are two packets; the second one starts again at the first lane.\<close>

lemma two_packets_stored:
  assumes "length tr1 = 496" "length tr2 = 16" "16 \<le> length ins"
  shows "\<exists>ins1 ins2. store_received 0 0 (bytes_of_bits tr1) (replicate 16 0 @ drop 16 ins) = Some ins1
     \<and> store_received 62 0 (bytes_of_bits tr2) ins1 = Some ins2 \<and> length ins2 = length ins
     \<and> (\<forall>j < 32. bit (ins2 ! 15) j \<longleftrightarrow> j < 16 \<and> (tr1 ! (480 + j) \<or> tr2 ! j))"
proof -
  let ?ins = "replicate 16 0 @ drop 16 ins"
  have len: "length ?ins = length ins" using assms(3) by simp
  obtain ins1 where ins1: "store_received 0 0 (bytes_of_bits tr1) ?ins = Some ins1" "length ins1 = length ins"
    "\<forall>k < length ins. \<forall>j < 32. bit (ins1 ! k) j \<longleftrightarrow> bit (?ins ! k) j
       \<or> (\<exists>m < 62. m div 4 = k \<and> j div 8 = m mod 4 \<and> bit (bytes_of_bits tr1 ! m) (j mod 8))"
    using store_received_ok [of 0 0 "bytes_of_bits tr1" ?ins] assms unfolding len by auto
  obtain ins2 where ins2: "store_received 62 0 (bytes_of_bits tr2) ins1 = Some ins2" "length ins2 = length ins"
    "\<forall>k < length ins. \<forall>j < 32. bit (ins2 ! k) j \<longleftrightarrow> bit (ins1 ! k) j
       \<or> (\<exists>m < 2. (62 + m) div 4 = k \<and> j div 8 = m mod 4 \<and> bit (bytes_of_bits tr2 ! m) (j mod 8))"
    using store_received_ok [of 62 0 "bytes_of_bits tr2" ins1] assms unfolding ins1(2) by auto
  have "bit (ins2 ! 15) j \<longleftrightarrow> j < 16 \<and> (tr1 ! (480 + j) \<or> tr2 ! j)" if j: "j < 32" for j
  proof -
    have bits: "byte_bits (bytes_of_bits tr1) = tr1" "byte_bits (bytes_of_bits tr2) = tr2"
      using byte_bits_of_bits [of tr1 62] byte_bits_of_bits [of tr2 2] assms by simp_all
    have "bit (ins1 ! 15) j \<longleftrightarrow> j < 16 \<and> tr1 ! (480 + j)"
      using ins1(3) assms j byte_lane [OF j, of "bytes_of_bits tr1" 15] by (simp add: bits nth_append)
    moreover have "(62 + m) div 4 = 15 \<longleftrightarrow> m div 4 = 0" if "m < 2" for m :: nat
      using that by presburger
    then have "bit (ins2 ! 15) j \<longleftrightarrow> bit (ins1 ! 15) j \<or> (j < 16 \<and> tr2 ! j)"
      using ins2(3) assms j byte_lane [OF j, of "bytes_of_bits tr2" 0] by (simp add: bits cong: conj_cong)
    ultimately show ?thesis by blast
  qed
  with ins1(1) ins2(1,2) show ?thesis by blast
qed
lemma shift_cmd:
  assumes "n \<le> 63"
  shows "bit (USBBLASTER_CMD_BYTESHIFT OR (of_nat n AND 0x3F)) 7"
    "unat ((USBBLASTER_CMD_BYTESHIFT OR (of_nat n AND 0x3F)) AND 0x3F) = n"
    "\<not> bit (USBBLASTER_CMD_BYTESHIFT OR (of_nat n AND 0x3F)) 6"
    "bit (USBBLASTER_CMD_BYTESHIFT OR USBBLASTER_CMD_READ OR (of_nat n AND 0x3F)) 7"
    "unat ((USBBLASTER_CMD_BYTESHIFT OR USBBLASTER_CMD_READ OR (of_nat n AND 0x3F)) AND 0x3F) = n"
    "bit (USBBLASTER_CMD_BYTESHIFT OR USBBLASTER_CMD_READ OR (of_nat n AND 0x3F)) 6"
proof -
  have n: "n \<in> set [0..<64]" using assms by simp
  have all: "\<forall>n \<in> set [0..<64]. bit (USBBLASTER_CMD_BYTESHIFT OR (of_nat n AND 0x3F)) 7
      \<and> unat ((USBBLASTER_CMD_BYTESHIFT OR (of_nat n AND 0x3F)) AND 0x3F) = n
      \<and> \<not> bit (USBBLASTER_CMD_BYTESHIFT OR (of_nat n AND 0x3F)) 6
      \<and> bit (USBBLASTER_CMD_BYTESHIFT OR USBBLASTER_CMD_READ OR (of_nat n AND 0x3F)) 7
      \<and> unat ((USBBLASTER_CMD_BYTESHIFT OR USBBLASTER_CMD_READ OR (of_nat n AND 0x3F)) AND 0x3F) = n
      \<and> bit (USBBLASTER_CMD_BYTESHIFT OR USBBLASTER_CMD_READ OR (of_nat n AND 0x3F)) 6"
    by code_simp
  from all n show "bit (USBBLASTER_CMD_BYTESHIFT OR (of_nat n AND 0x3F)) 7"
    "unat ((USBBLASTER_CMD_BYTESHIFT OR (of_nat n AND 0x3F)) AND 0x3F) = n"
    "\<not> bit (USBBLASTER_CMD_BYTESHIFT OR (of_nat n AND 0x3F)) 6"
    "bit (USBBLASTER_CMD_BYTESHIFT OR USBBLASTER_CMD_READ OR (of_nat n AND 0x3F)) 7"
    "unat ((USBBLASTER_CMD_BYTESHIFT OR USBBLASTER_CMD_READ OR (of_nat n AND 0x3F)) AND 0x3F) = n"
    "bit (USBBLASTER_CMD_BYTESHIFT OR USBBLASTER_CMD_READ OR (of_nat n AND 0x3F)) 6"
    by blast+
qed

subsection \<open>Cables that shift packets\<close>

locale packet_cable = bitbang_cable c dev level ok pin_step tdo shr
  for c :: "'s jtag_cable_t" and dev :: "'s \<Rightarrow> 'd" and level ok pin_step tdo shr +
  fixes port :: "'s packet_port" and ready :: "'s \<Rightarrow> bool"
  assumes lower_ok: "ok s \<Longrightarrow> \<exists>s'. pk_lower port s = Some (0, s') \<and> ready s' \<and> dev s' = dev s"
    and open_ok: "ready s \<Longrightarrow> pk_open port s = Some (0, s)"
    and send_ok: "ready s \<Longrightarrow> bs \<noteq> [] \<Longrightarrow> length bs \<le> 63 \<Longrightarrow>
       \<exists>s'. pk_send port ((USBBLASTER_CMD_BYTESHIFT OR (of_nat (length bs) AND 0x3F)) # bs) s = (True, s') \<and> ready s'
         \<and> dev s' = fold step (map of_bool (byte_bits bs)) (dev s)"
    and get_ok: "ready s \<Longrightarrow> bs \<noteq> [] \<Longrightarrow> length bs \<le> 62 \<Longrightarrow>
       store_received t 0 (bytes_of_bits (tdo_trace step tdo (map of_bool (byte_bits bs)) (dev s))) ins = Some ins' \<Longrightarrow>
       \<exists>s1 s'. pk_send port ((USBBLASTER_CMD_BYTESHIFT OR USBBLASTER_CMD_READ OR (of_nat (length bs) AND 0x3F)) # bs) s = (True, s1)
         \<and> pk_get port (length bs) t ins s1 = Some (Some (t + of_nat (length bs), ins'), s') \<and> ready s'
         \<and> dev s' = fold step (map of_bool (byte_bits bs)) (dev s)"
    and low_ok: "ready s \<Longrightarrow> ok (pk_low port s) \<and> dev (pk_low port s) = dev s"
begin

lemma write_packets_ok:
  "ready s \<Longrightarrow> \<exists>s'. write_packets port data s = (0, s') \<and> ready s'
     \<and> dev s' = fold step (map of_bool (byte_bits data)) (dev s)"
proof (induction "length data" arbitrary: data s rule: less_induct)
  case less
  show ?case
  proof (cases "data = []")
    case True
    with less.prems show ?thesis by (subst write_packets.simps) (simp add: APP_ERR_NONE_def)
  next
    case False
    let ?chunk = "take USBBLASTER_MAX_WRITE data" and ?rest = "drop USBBLASTER_MAX_WRITE data"
    let ?cmd = "USBBLASTER_CMD_BYTESHIFT OR (of_nat (length (take USBBLASTER_MAX_WRITE data)) AND 0x3F)"
    have chunk: "?chunk \<noteq> []" "length ?chunk \<le> 63" using False by (simp_all add: USBBLASTER_MAX_WRITE_def)
    obtain s1 where s1: "pk_send port (?cmd # ?chunk) s = (True, s1)" "ready s1"
      "dev s1 = fold step (map of_bool (byte_bits ?chunk)) (dev s)"
      using send_ok [OF less.prems chunk] by blast
    have "length ?rest < length data" using False by (simp add: USBBLASTER_MAX_WRITE_def)
    from less.hyps [OF this s1(2)] obtain s' where s': "write_packets port ?rest s1 = (0, s')" "ready s'"
      "dev s' = fold step (map of_bool (byte_bits ?rest)) (dev s1)"
      by blast
    have "write_packets port data s = (0, s')"
      using False s1(1) s'(1) by (subst write_packets.simps) (simp add: Let_def)
    moreover have "byte_bits data = byte_bits ?chunk @ byte_bits ?rest"
      by (simp flip: byte_bits_append)
    ultimately show ?thesis using s' s1(3) by simp
  qed
qed

lemma write_stream_ok:
  assumes "ok s" "0 < n" "n \<le> 32 * length ws"
    and room: "split_stream (int n) l = (bytes, leftover)" "bytes div 4 < length ws"
  shows "\<exists>s'. packet_write_stream port shr c ws (int n) l s = Some (0, s')
     \<and> ok s' \<and> dev s' = fold step (stream_packets ws n l) (dev s)"
proof (cases "bytes = 0")
  case True
  then show ?thesis using write_stream [OF assms(1-3)] by (simp add: packet_write_stream_def room)
next
  case False
  note split = split_stream_bounds [OF room(1) assms(2) False]
  obtain w where w: "byte_behind ws bytes = Some w" "\<And>i. i < 8 \<Longrightarrow> bit w i = stream_bit ws (8 * bytes + i)"
    using byte_behind_bits [OF room(2)] by blast
  note packets = packets_by_bytes [OF split(1,2) assms(3) split(3) w(2)]
  obtain s1 where s1: "pk_lower port s = Some (0, s1)" "ready s1" "dev s1 = dev s"
    using lower_ok [OF assms(1)] by blast
  let ?data = "take bytes (bytes_of_words ws)"
  obtain s2 where s2: "write_packets port ?data s1 = (0, s2)" "ready s2"
    "dev s2 = fold step (map of_bool (byte_bits ?data)) (dev s1)"
    using write_packets_ok [OF s1(2)] by blast
  let ?s2 = "pk_low port s2"
  have ok2: "ok ?s2" and dev2: "dev ?s2 = dev s2" using low_ok [OF s2(2)] by blast+
  have len: "bytes \<le> length (bytes_of_words ws)" using split(1) assms(3) by simp
  have start: "packet_write_stream port shr c ws (int n) l s =
      (if leftover \<noteq> 0 then cable_common_write_stream shr c [w] (int leftover) l ?s2
       else Some (0, ?s2))"
    using s1(1) open_ok [OF s1(2)] s2(1) w(1) len False
    by (simp add: packet_write_stream_def room(1) APP_ERR_NONE_def)
  show ?thesis
  proof (cases "leftover = 0")
    case True
    with start ok2 dev2 s2(3) s1(3) packets show ?thesis by (simp add: stream_packets_def)
  next
    case lo: False
    obtain s3 where "cable_common_write_stream shr c [w] (int leftover) l ?s2 = Some (0, s3)"
      "ok s3" "dev s3 = fold step (stream_packets [w] leftover l) (dev ?s2)"
      using write_stream [OF ok2, where n = leftover and ws = "[w]"] lo split(2) by auto
    with start lo dev2 s2(3) s1(3) packets show ?thesis by simp
  qed
qed

lemma read_packets_step:
  assumes "ready s" "data \<noteq> []"
    and chunk: "chunk = take 62 data" "tr = tdo_trace step tdo (map of_bool (byte_bits chunk)) (dev s)"
    and store: "store_received t 0 (bytes_of_bits tr) ins = Some ins'"
  shows "\<exists>s'. read_packets port data t ins s = read_packets port (drop 62 data) (t + of_nat (length chunk)) ins' s'
     \<and> ready s' \<and> dev s' = fold step (map of_bool (byte_bits chunk)) (dev s)"
proof -
  have n: "length chunk \<le> 62" "chunk \<noteq> []" using assms(2) by (simp_all add: chunk(1))
  show ?thesis
    using get_ok [OF assms(1) n(2,1) store [unfolded chunk(2)]] assms(2)
    unfolding read_packets.simps [of port data] Let_def USBBLASTER_MAX_READ_def chunk(1) [symmetric] by auto
qed

lemma read_packets_done: "read_packets port [] t ins s = Some (0, ins, s)"
  by (simp add: read_packets.simps APP_ERR_NONE_def)

lemma read_packets_ok:
  assumes "ready s" "data \<noteq> []" "length data \<le> 62"
    and tr: "tr = tdo_trace step tdo (map of_bool (byte_bits data)) (dev s)"
    and store: "store_received t 0 (bytes_of_bits tr) ins = Some ins'"
  shows "\<exists>s'. read_packets port data t ins s = Some (0, ins', s') \<and> ready s'
     \<and> dev s' = fold step (map of_bool (byte_bits data)) (dev s)"
  using read_packets_step [OF assms(1,2) _ tr store] assms(3) by (auto simp: read_packets_done)

lemma read_stream_ok:
  assumes "ok s" "0 < n" "n \<le> 32 * length ws" "n \<le> 32 * length ins"
    and room: "split_stream (int n) l = (bytes, leftover)" "bytes div 4 < length ws" and short: "bytes \<le> 62"
  shows "\<exists>s'. packet_read_stream port shr c ws ins (int n) l s =
       Some (0, pack_bits (tdo_trace step tdo (stream_packets ws n l) (dev s)) @ drop ((n + 31) div 32) ins, s')
     \<and> ok s' \<and> dev s' = fold step (stream_packets ws n l) (dev s)"
proof (cases "bytes = 0")
  case True
  then show ?thesis using read_stream [OF assms(1-4)] by (simp add: packet_read_stream_def room)
next
  case False
  note split = split_stream_bounds [OF room(1) assms(2) False]
  obtain w where w: "byte_behind ws bytes = Some w" "\<And>i. i < 8 \<Longrightarrow> bit w i = stream_bit ws (8 * bytes + i)"
    using byte_behind_bits [OF room(2)] by blast
  note packets = packets_by_bytes [OF split(1,2) assms(3) split(3) w(2)]
  have n: "n \<le> 4096" using split(1,2) short by linarith
  obtain s1 where s1: "pk_lower port s = Some (0, s1)" "ready s1" "dev s1 = dev s"
    using lower_ok [OF assms(1)] by blast
  let ?data = "take bytes (bytes_of_words ws)"
  let ?tr = "tdo_trace step tdo (map of_bool (byte_bits (take bytes (bytes_of_words ws)))) (dev s1)"
  have len: "bytes \<le> length (bytes_of_words ws)" using split(1) assms(3) by simp
  then have "length ?data = bytes" by simp
  then have data: "length ?data = bytes" "?data \<noteq> []" using False by fastforce+
  then have tr: "length ?tr = 8 * bytes" by simp
  obtain ins1 where ins1: "store_received 0 0 (bytes_of_bits ?tr) (replicate ((n + 31) div 32) 0 @ drop ((n + 31) div 32) ins) = Some ins1"
    "holds_bits n ?tr ins ins1"
    using received_bytes [of "bytes_of_bits ?tr" n ins] n assms(4) split(1) data(1) byte_bits_of_bits [OF tr] by auto
  have len1: "length ins1 = length ins" using ins1(2) by (simp add: holds_bits_def)
  obtain s2 where s2: "read_packets port ?data 0 (replicate ((n + 31) div 32) 0 @ drop ((n + 31) div 32) ins) s1 = Some (0, ins1, s2)"
    "ready s2"
    "dev s2 = fold step (map of_bool (byte_bits ?data)) (dev s1)"
    using read_packets_ok [OF s1(2) data(2) _ refl ins1(1)] short data(1) by auto
  let ?s2 = "pk_low port s2"
  have ok2: "ok ?s2" and dev2: "dev ?s2 = dev s2" using low_ok [OF s2(2)] by blast+
  have clear: "clear_input n ins = Some (replicate ((n + 31) div 32) 0 @ drop ((n + 31) div 32) ins)"
    using n assms(4) by (intro cleared_words) auto
  have start: "packet_read_stream port shr c ws ins (int n) l s =
      (if leftover \<noteq> 0 then
         do { (e, rest, s) \<leftarrow> cable_common_read_stream shr c [w] [0] (int leftover) l ?s2;
              r \<leftarrow> word_at rest 0;
              v \<leftarrow> word_at ins1 (bytes div 4);
              ins \<leftarrow> put_at ins1 (bytes div 4) (v OR push_bit (8 * (bytes mod 4)) (r AND 0xFF));
              Some (0 OR e, ins, s) }
       else Some (0, ins1, ?s2))"
    using s1(1) open_ok [OF s1(2)] s2(1) w(1) len False clear
    by (simp add: packet_read_stream_def room(1) APP_ERR_NONE_def)
  show ?thesis
  proof (cases "leftover = 0")
    case True
    with start ok2 dev2 s2(3) s1(3) packets received_all [OF ins1(2) _ assms(4)] tr split(1)
    show ?thesis by (simp add: stream_packets_def)
  next
    case lo: False
    let ?tr2 = "tdo_trace step tdo (stream_packets [w] leftover l) (dev ?s2)"
    obtain s3 where s3: "cable_common_read_stream shr c [w] [0] (int leftover) l ?s2 =
        Some (0, pack_bits ?tr2 @ drop ((leftover + 31) div 32) [0], s3)"
      "ok s3" "dev s3 = fold step (stream_packets [w] leftover l) (dev ?s2)"
      using read_stream [OF ok2, where n = leftover and ws = "[w]" and ins = "[0]"] lo split(2) by auto
    have "length ?tr2 = leftover" by simp
    then have ne: "?tr2 \<noteq> []" using lo by (metis list.size(3))
    have rest: "word_at (pack_bits ?tr2 @ drop ((leftover + 31) div 32) [0]) 0 = Some (word_of_bits ?tr2)"
      using lo split(2) pack_bits_single [of ?tr2] ne by simp
    have q: "bytes div 4 < length ins1" using lo split(1) assms(4) len1 by (simp add: less_mult_imp_div_less)
    have all: "?tr @ ?tr2 = tdo_trace step tdo (stream_packets ws n l) (dev s)"
      using s2(3) s1(3) dev2 by (simp add: packets tdo_trace_append)
    have "holds_bits n (?tr @ ?tr2) ins (ins1[bytes div 4 := ins1 ! (bytes div 4)
        OR push_bit (8 * (bytes mod 4)) (word_of_bits ?tr2 AND 0xFF)])"
      using split(2) by (intro received_more [OF ins1(2) tr _ q]) simp
    then have "ins1[bytes div 4 := ins1 ! (bytes div 4) OR push_bit (8 * (bytes mod 4)) (word_of_bits ?tr2 AND 0xFF)] =
        pack_bits (?tr @ ?tr2) @ drop ((n + 31) div 32) ins"
      using split(1) tr assms(4) by (intro received_all) auto
    with start lo s3 rest q s2(3) s1(3) dev2 all show ?thesis by (simp add: packets)
  qed
qed

lemma read_stream_long:
  assumes "ok s" "17 \<le> length ws" "16 \<le> length ins"
    and tr: "tr = tdo_trace step tdo (stream_packets ws 512 False) (dev s)"
  shows "\<exists>ins' s'. packet_read_stream port shr c ws ins 512 False s = Some (0, ins', s')
     \<and> (\<forall>i < 32. bit (ins' ! 15) i \<longleftrightarrow> i < 16 \<and> (tr ! (480 + i) \<or> tr ! (496 + i)))"
proof -
  obtain w where w: "byte_behind ws 64 = Some w"
    using byte_behind_bits [of 64 ws] assms(2) by auto
  obtain s1 where s1: "pk_lower port s = Some (0, s1)" "ready s1" "dev s1 = dev s"
    using lower_ok [OF assms(1)] by blast
  let ?data = "take 64 (bytes_of_words ws)"
  let ?a = "take 62 ?data" and ?b = "drop 62 ?data"
  have len: "length ?data = 64" "length ?a = 62" "length ?b = 2" using assms(2) by auto
  then have ne: "?data \<noteq> []" "?b \<noteq> []" by fastforce+
  let ?tr1 = "tdo_trace step tdo (map of_bool (byte_bits ?a)) (dev s1)"
  let ?d = "fold step (map of_bool (byte_bits ?a)) (dev s1)"
  let ?tr2 = "tdo_trace step tdo (map of_bool (byte_bits ?b)) ?d"
  have ps: "stream_packets ws 512 False = map of_bool (byte_bits ?data)"
    using assms(2) stream_bytes [of 64 ws] by (simp add: stream_packets_def stream_packet_def stream_bits_def TDO_def)
  have bytes: "byte_bits ?data = byte_bits ?a @ byte_bits ?b"
    by (simp only: append_take_drop_id flip: byte_bits_append)
  have trace: "tr = ?tr1 @ ?tr2"
    unfolding tr ps s1(3) bytes map_append tdo_trace_append ..
  have lens: "length ?tr1 = 496" "length ?tr2 = 16" using len by simp_all
  obtain ins1 ins2 where st: "store_received 0 0 (bytes_of_bits ?tr1) (replicate 16 0 @ drop 16 ins) = Some ins1"
    "store_received 62 0 (bytes_of_bits ?tr2) ins1 = Some ins2"
    "\<forall>i < 32. bit (ins2 ! 15) i \<longleftrightarrow> i < 16 \<and> (?tr1 ! (480 + i) \<or> ?tr2 ! i)"
    using two_packets_stored [OF lens assms(3)] by blast
  obtain s2 where s2: "read_packets port ?data 0 (replicate 16 0 @ drop 16 ins) s1 = read_packets port ?b 62 ins1 s2"
    "ready s2" "dev s2 = ?d"
    using read_packets_step [OF s1(2) ne(1) refl refl st(1)] len(2) by auto
  obtain s3 where s3: "read_packets port ?b 62 ins1 s2 = Some (0, ins2, s3)"
    using read_packets_ok [OF s2(2) ne(2), of ?tr2 62 ins1 ins2] st(2) s2(3) len(3) by auto
  have "packet_read_stream port shr c ws ins 512 False s =
      Some (0, ins2, pk_low port s3)"
    using s1(1) open_ok [OF s1(2)] w s2(1) s3(1) assms(2,3) cleared_words [of 512 ins]
    by (simp add: packet_read_stream_def split_stream_def APP_ERR_NONE_def)
  moreover have "tr ! (480 + i) = ?tr1 ! (480 + i)" "tr ! (496 + i) = ?tr2 ! i" if "i < 16" for i
    using that lens by (simp_all add: trace nth_append)
  ultimately show ?thesis using st(3) by blast
qed

lemma packet_write:
  assumes "ok s" "0 < n" "n \<le> 32 * length ws" "n < 32 * length ws \<or> l"
  shows "\<exists>s'. packet_write_stream port shr c ws (int n) l s = Some (0, s')
     \<and> ok s' \<and> dev s' = fold step (stream_packets ws n l) (dev s)"
proof -
  obtain bytes leftover where split: "split_stream (int n) l = (bytes, leftover)" by fastforce
  show ?thesis by (rule write_stream_ok [OF assms(1-3) split split_stream_room [OF assms(2-4) split]])
qed

lemma packet_read:
  assumes "ok s" "0 < n" "n \<le> 32 * length ws" "n < 32 * length ws \<or> l" "n \<le> 32 * length ins" "n < 504"
  shows "\<exists>s'. packet_read_stream port shr c ws ins (int n) l s =
       Some (0, pack_bits (tdo_trace step tdo (stream_packets ws n l) (dev s)) @ drop ((n + 31) div 32) ins, s')
     \<and> ok s' \<and> dev s' = fold step (stream_packets ws n l) (dev s)"
proof -
  obtain bytes leftover where split: "split_stream (int n) l = (bytes, leftover)" by fastforce
  show ?thesis
    by (rule read_stream_ok [OF assms(1-3,5) split split_stream_room [OF assms(2-4) split] split_stream_short [OF assms(2,6) split]])
qed

lemma packet_read_long:
  assumes "ok s" "17 \<le> length ws" "16 \<le> length ins"
    and tr: "tr = tdo_trace step tdo (stream_packets ws 512 False) (dev s)"
  shows "\<exists>ins' s'. packet_read_stream port shr c ws ins 512 False s = Some (0, ins', s')
     \<and> (\<forall>i < 32. bit (ins' ! 15) i \<longleftrightarrow> i < 16 \<and> (bit (pack_bits tr ! 15) i \<or> bit (pack_bits tr ! 15) (16 + i)))"
proof -
  have "bit (pack_bits tr ! 15) i \<longleftrightarrow> tr ! (480 + i)" if "i < 32" for i
    using that by (simp add: tr nth_pack_bits length_pack_bits bit_word_of_bits)
  then show ?thesis using read_stream_long [OF assms] by (simp cong: conj_cong)
qed

end

end
