(* ===== verification/Libusb.thy ===== *)
theory Libusb
  imports Cable_Parallel
begin

unbundle bit_operations_syntax

text \<open>
  The calls of libusb and the timers of utilities.c, and what cable_usbblaster.c and cable_xpc_dlc9.c have
  in common: looking for a device, opening and closing it. The calls are the record \<open>libusb\<close> over the
  state \<open>'u\<close> of the bus and of what hangs on it; \<open>None\<close> is a loop that does not end. Sleeping and messages
  have no counterpart.
\<close>

record usb_device =
  idVendor :: u32
  idProduct :: u32

text \<open>
  \<open>lu_scan\<close>: the devices of each bus. A control message is given its type, request, value, index and the
  number of bytes it may return. A read returns what the call returns, and the bytes it has put into the
  buffer. \<open>lu_timer_gettime\<close> is the time that remains, in seconds and nanoseconds.
\<close>

record 'u libusb =
  lu_scan :: "'u \<Rightarrow> usb_device list list \<times> 'u"
  lu_open :: "usb_device \<Rightarrow> 'u \<Rightarrow> bool \<times> 'u"
  lu_reset :: "'u \<Rightarrow> int \<times> 'u"
  lu_close :: "'u \<Rightarrow> 'u"
  lu_control_msg :: "u8 \<Rightarrow> u8 \<Rightarrow> nat \<Rightarrow> nat \<Rightarrow> nat \<Rightarrow> 'u \<Rightarrow> (int \<times> u8 list) \<times> 'u"
  lu_set_configuration :: "'u \<Rightarrow> int \<times> 'u"
  lu_claim_interface :: "'u \<Rightarrow> int \<times> 'u"
  lu_release_interface :: "'u \<Rightarrow> int \<times> 'u"
  lu_bulk_write :: "u8 \<Rightarrow> u8 list \<Rightarrow> 'u \<Rightarrow> int \<times> 'u"
  lu_bulk_read :: "u8 \<Rightarrow> nat \<Rightarrow> 'u \<Rightarrow> (int \<times> u8 list) \<times> 'u"
  lu_timer_create :: "'u \<Rightarrow> int \<times> 'u"
  lu_timer_settime :: "'u \<Rightarrow> int \<times> 'u"
  lu_timer_gettime :: "'u \<Rightarrow> (int \<times> int) \<times> 'u"

subsection \<open>Timers\<close>

definition create_timer :: "'u libusb \<Rightarrow> 'u \<Rightarrow> u32 \<times> 'u" where
  "create_timer lib u =
     (let (r, u) = lu_timer_create lib u in
      if r \<noteq> 0 then (APP_ERR_USB, u)
      else (let (r, u) = lu_timer_settime lib u in (if r \<noteq> 0 then APP_ERR_USB else APP_ERR_NONE, u)))"

definition timedout :: "'u libusb \<Rightarrow> 'u \<Rightarrow> bool \<times> 'u" where
  "timedout lib u = (let ((sec, nsec), u) = lu_timer_gettime lib u in (sec = 0 \<and> nsec = 0, u))"

subsection \<open>Looking for, opening and closing a device\<close>

text \<open>The device found; \<open>dev\<close> is what the variable held before.\<close>

definition usb_enumerate :: "'u libusb \<Rightarrow> u32 \<Rightarrow> u32 \<Rightarrow> usb_device option \<Rightarrow> 'u \<Rightarrow> (u32 \<times> usb_device option) \<times> 'u" where
  "usb_enumerate lib vid pid dev u =
     (let (busses, u) = lu_scan lib u in
      case find (\<lambda>d. idVendor d = vid \<and> idProduct d = pid) (concat busses) of
        Some d \<Rightarrow> ((APP_ERR_NONE, Some d), u)
      | None \<Rightarrow> ((APP_ERR_CABLENOTFOUND, if busses = [] then dev else None), u))"

text \<open>Waiting for the interface, for ever if there is no timer.\<close>

partial_function (option) claim_forever :: "'u libusb \<Rightarrow> 'u \<Rightarrow> 'u option" where
  "claim_forever lib u =
     (let (rv, u) = lu_claim_interface lib u in if rv \<noteq> 0 then claim_forever lib u else Some u)"

partial_function (option) claim_in_time :: "'u libusb \<Rightarrow> bool \<Rightarrow> 'u \<Rightarrow> 'u option" where
  "claim_in_time lib not_claimed u =
     (if \<not> not_claimed then Some u
      else
        (let (expired, u) = timedout lib u in
         if expired then Some u
         else (let (rv, u) = lu_claim_interface lib u in claim_in_time lib (rv \<noteq> 0) u)))"

declare claim_forever.simps [code]
declare claim_in_time.simps [code]

text \<open>The result, and whether the handle is one; a time-out leaves it open.\<close>

definition usb_open_cable :: "'u libusb \<Rightarrow> usb_device \<Rightarrow> 'u \<Rightarrow> ((u32 \<times> bool) \<times> 'u) option" where
  "usb_open_cable lib d u =
     (let (opened, u) = lu_open lib d u in
      if \<not> opened then Some ((APP_ERR_USB, False), u)
      else
        (let (rv, u) = lu_set_configuration lib u in
         if rv \<noteq> 0 then Some ((APP_ERR_USB, False), lu_close lib u)
         else
           (let (timer, u) = create_timer lib u in
            if timer \<noteq> 0 then do { u \<leftarrow> claim_forever lib u; Some ((APP_ERR_NONE, True), u) }
            else
              do { u \<leftarrow> claim_in_time lib True u;
                   let (expired, u) = timedout lib u;
                   Some ((if expired then APP_ERR_USB else APP_ERR_NONE, True), u) })))"

definition usb_close_cable :: "'u libusb \<Rightarrow> 'u \<Rightarrow> 'u" where
  "usb_close_cable lib u = (let (rv, u) = lu_release_interface lib u in lu_close lib u)"

end
