(* ===== verification/Cable_Usbblaster.thy ===== *)
theory Cable_Usbblaster
  imports Packet_Streams Libusb
begin

unbundle bit_operations_syntax

text \<open>
  cable_usbblaster.c: the driver of the Altera USB-Blaster, over the calls of libusb. \<open>None\<close> is a loop
  that does not end, a null pointer, or an access outside of a buffer. Sleeping and messages have no
  counterpart.
\<close>

subsection \<open>State\<close>

record 'u usbblaster =
  ub_bus :: 'u
  ub_device :: "usb_device option"
  ub_open :: bool
  ub_clock_high :: bool
  ALTERA_VID :: u32
  ALTERA_PID :: u32

definition usbblaster_start :: "'u \<Rightarrow> 'u usbblaster" where
  "usbblaster_start u =
     \<lparr>ub_bus = u, ub_device = None, ub_open = False, ub_clock_high = True, ALTERA_VID = 0x09FB, ALTERA_PID = 0x6001\<rparr>"

definition on_bus :: "('u \<Rightarrow> 'a \<times> 'u) \<Rightarrow> 'u usbblaster \<Rightarrow> 'a \<times> 'u usbblaster" where
  "on_bus f s = (let (x, u) = f (ub_bus s) in (x, s\<lparr>ub_bus := u\<rparr>))"

definition EP2 :: u8 where "EP2 = 0x02"
definition EP1 :: u8 where "EP1 = 0x81"
definition USBBLASTER_CMD_TCK :: u8 where "USBBLASTER_CMD_TCK = 0x01"
definition USBBLASTER_CMD_TMS :: u8 where "USBBLASTER_CMD_TMS = 0x02"
definition USBBLASTER_CMD_nCS :: u8 where "USBBLASTER_CMD_nCS = 0x08"
definition USBBLASTER_CMD_TDI :: u8 where "USBBLASTER_CMD_TDI = 0x10"
definition USBBLASTER_CMD_OE :: u8 where "USBBLASTER_CMD_OE = 0x20"

lemmas usbblaster_consts = EP2_def EP1_def USBBLASTER_CMD_TCK_def USBBLASTER_CMD_TMS_def USBBLASTER_CMD_nCS_def
  USBBLASTER_CMD_TDI_def USBBLASTER_CMD_OE_def USBBLASTER_CMD_READ_def USBBLASTER_CMD_BYTESHIFT_def

subsection \<open>Opening and closing\<close>

definition usbblaster_start_interface :: "'u libusb \<Rightarrow> 'u usbblaster \<Rightarrow> u32 \<times> 'u usbblaster" where
  "usbblaster_start_interface lib s =
     (let ((rv, _), s) = on_bus (lu_control_msg lib 0x40 0 0 0 0) s in (if rv < 0 then APP_ERR_USB else APP_ERR_NONE, s))"

definition usbblaster_read_firmware_version :: "'u libusb \<Rightarrow> 'u usbblaster \<Rightarrow> u32 \<times> 'u usbblaster" where
  "usbblaster_read_firmware_version lib s =
     (let ((rv, _), s) = on_bus (lu_control_msg lib 0xC0 0x90 0 3 2) s in (if rv < 0 then APP_ERR_USB else APP_ERR_NONE, s))"

definition usbblaster_enumerate_bus :: "'u libusb \<Rightarrow> 'u usbblaster \<Rightarrow> u32 \<times> 'u usbblaster" where
  "usbblaster_enumerate_bus lib s =
     (let ((err, d), s) = on_bus (usb_enumerate lib (ALTERA_VID s) (ALTERA_PID s) (ub_device s)) s in
      (err, s\<lparr>ub_device := d\<rparr>))"

definition cable_usbblaster_open_cable :: "'u libusb \<Rightarrow> 'u usbblaster op" where
  "cable_usbblaster_open_cable lib s =
     do { d \<leftarrow> ub_device s;
          ((err, opened), u) \<leftarrow> usb_open_cable lib d (ub_bus s);
          Some (err, s\<lparr>ub_bus := u, ub_open := opened\<rparr>) }"

definition open_if_necessary :: "'u libusb \<Rightarrow> 'u usbblaster op" where
  "open_if_necessary lib s = (if \<not> ub_open s then cable_usbblaster_open_cable lib s else Some (APP_ERR_NONE, s))"

definition cable_usbblaster_close_cable :: "'u libusb \<Rightarrow> 'u usbblaster \<Rightarrow> 'u usbblaster" where
  "cable_usbblaster_close_cable lib s =
     (if ub_open s then s\<lparr>ub_bus := usb_close_cable lib (ub_bus s), ub_open := False\<rparr> else s)"

text \<open>A failed reset, start of the interface or read of the first two bytes is only reported.\<close>

definition cable_usbblaster_init :: "'u libusb \<Rightarrow> 'u usbblaster op" where
  "cable_usbblaster_init lib s =
     (let (err, s) = usbblaster_enumerate_bus lib s in
      if err \<noteq> 0 then Some (err, s)
      else
        do { d \<leftarrow> ub_device s;
             let (opened, s) = on_bus (lu_open lib d) s;
             (if \<not> opened then Some (APP_ERR_USB, s\<lparr>ub_open := False\<rparr>)
              else
                (let (_, s) = on_bus (lu_reset lib) s;
                     s = s\<lparr>ub_bus := lu_close lib (ub_bus s), ub_open := True\<rparr>;
                     (err, s) = usbblaster_enumerate_bus lib s in
                 if err \<noteq> 0 then Some (err, s)
                 else
                   do { (err, s) \<leftarrow> cable_usbblaster_open_cable lib s;
                        (if err \<noteq> APP_ERR_NONE then Some (err, s)
                         else
                           (let (_, s) = usbblaster_start_interface lib s;
                                (err, s) = usbblaster_read_firmware_version lib s in
                            if err \<noteq> 0 then Some (err, s\<lparr>ub_bus := lu_close lib (ub_bus s)\<rparr>)
                            else
                              (let (_, s) = on_bus (lu_bulk_read lib EP1 2) s in Some (APP_ERR_NONE, s)))) })) })"

text \<open>\<open>sscanf\<close> of an empty argument is \<open>EOF\<close>, which is not zero: the variable is used as it is.\<close>

definition scan_id :: "u32 \<Rightarrow> string \<Rightarrow> u32 option" where
  "scan_id j arg =
     (if skip_space (str arg) = [] then Some j
      else (case scan_hex (str arg) of Some (v, _) \<Rightarrow> Some v | None \<Rightarrow> None))"

definition cable_usbblaster_opt :: "u32 \<Rightarrow> int \<Rightarrow> string \<Rightarrow> 'u usbblaster op" where
  "cable_usbblaster_opt j c arg s =
     (if c = int (of_char CHR ''p'') then
        (case scan_id j arg of
           None \<Rightarrow> Some (APP_ERR_BAD_PARAM, s) | Some v \<Rightarrow> Some (APP_ERR_NONE, s\<lparr>ALTERA_PID := v\<rparr>))
      else if c = int (of_char CHR ''v'') then
        (case scan_id j arg of
           None \<Rightarrow> Some (APP_ERR_BAD_PARAM, s) | Some v \<Rightarrow> Some (APP_ERR_NONE, s\<lparr>ALTERA_VID := v\<rparr>))
      else Some (APP_ERR_BAD_PARAM, s))"

subsection \<open>Pins\<close>

definition usbblaster_pins :: "u8 \<Rightarrow> u8 \<Rightarrow> u8" where
  "usbblaster_pins base value =
     base OR line value TCLK_BIT USBBLASTER_CMD_TCK OR line value TDI_BIT USBBLASTER_CMD_TDI
     OR line value TMS_BIT USBBLASTER_CMD_TMS"

definition cable_usbblaster_out :: "'u libusb \<Rightarrow> u8 \<Rightarrow> 'u usbblaster op" where
  "cable_usbblaster_out lib value s =
     do { (rv, s) \<leftarrow> open_if_necessary lib s;
          (if rv \<noteq> APP_ERR_NONE then Some (rv, s)
           else
             (let out = usbblaster_pins (USBBLASTER_CMD_OE OR USBBLASTER_CMD_nCS) value;
                  (rv, s) = on_bus (lu_bulk_write lib EP2 [out]) s in
              Some (if rv \<noteq> 1 then APP_ERR_USB else APP_ERR_NONE, s\<lparr>ub_clock_high := (value AND TCLK_BIT \<noteq> 0)\<rparr>))) }"

text \<open>
  Reading until a third byte has come, twenty times at most; \<open>ret\<close> keeps what was read before. After an error
  the variable for the bit is not set; it is given as 0.
\<close>

fun read_third :: "'u libusb \<Rightarrow> nat \<Rightarrow> u8 list \<Rightarrow> 'u usbblaster \<Rightarrow> u8 list option \<times> 'u usbblaster" where
  "read_third lib 0 ret s = (Some ret, s)"
| "read_third lib (Suc n) ret s =
     (let ((rv, bs), s) = on_bus (lu_bulk_read lib EP1 3) s in
      if rv < 0 then (None, s)
      else (let ret = take 3 bs @ drop (length bs) ret in
            if rv < 3 then read_third lib n ret s else (Some ret, s)))"

definition cable_usbblaster_inout :: "'u libusb \<Rightarrow> u8 \<Rightarrow> 'u usbblaster \<Rightarrow> (u32 \<times> u8 \<times> 'u usbblaster) option" where
  "cable_usbblaster_inout lib value s =
     do { (rv, s) \<leftarrow> open_if_necessary lib s;
          (if rv \<noteq> APP_ERR_NONE then Some (rv, 0, s)
           else
             (let out = usbblaster_pins (USBBLASTER_CMD_OE OR USBBLASTER_CMD_nCS OR USBBLASTER_CMD_READ) value;
                  (rv, s) = on_bus (lu_bulk_write lib EP2 [out]) s in
              if rv \<noteq> 1 then Some (APP_ERR_USB, 0, cable_usbblaster_close_cable lib s)
              else
                (let s = s\<lparr>ub_clock_high := (value AND TCLK_BIT \<noteq> 0)\<rparr>;
                     (ret, s) = read_third lib 20 [0, 0, 0] s in
                 case ret of
                   None \<Rightarrow> Some (APP_ERR_USB, 0, cable_usbblaster_close_cable lib s)
                 | Some ret \<Rightarrow> do { b \<leftarrow> word_at ret 2; Some (APP_ERR_NONE, b AND 1, s) }))) }"

subsection \<open>Streams\<close>

text \<open>
  One packet of a read: until all its bytes are back, or fifteen reads in a row have brought none. The
  counters are unsigned, \<open>received\<close> counting for the packet and \<open>t\<close> (\<open>total_bytes_received\<close>) for the
  stream.
\<close>

partial_function (option) read_packet ::
  "'u libusb \<Rightarrow> nat \<Rightarrow> nat \<Rightarrow> u32 \<Rightarrow> u32 \<Rightarrow> u32 list \<Rightarrow> 'u usbblaster
     \<Rightarrow> ((u32 \<times> u32 list) option \<times> 'u usbblaster) option" where
  "read_packet lib n retries received t ins s =
     (let ask = nat (sint (of_nat n - received + 2));
          ((rv, bs), s) = on_bus (lu_bulk_read lib EP1 ask) s in
      if rv < 0 then Some (None, s)
      else if rv > int ask then None
      else
        (let retries = (if rv > 2 then 0 else retries + 1) in
         do { ins \<leftarrow> store_received t 0 (take (nat rv - 2) (drop 2 bs)) ins;
              let received = received + of_int (rv - 2);
              let t = t + of_int (rv - 2);
              (if received < of_nat n \<and> retries < 15 then read_packet lib n retries received t ins s
               else Some (Some (t, ins), s)) }))"

declare read_packet.simps [code]

text \<open>
  The calls of the stream functions. For a length of zero or less the unsigned count of bytes is huge,
  and the stream is read out of bounds; the shared routines, which the model calls then, do not come back
  either.
\<close>

definition usbblaster_port :: "'u libusb \<Rightarrow> 'u usbblaster packet_port" where
  "usbblaster_port lib =
     \<lparr>pk_lower = (\<lambda>s. if ub_clock_high s then cable_usbblaster_out lib 0 s else Some (APP_ERR_NONE, s)),
      pk_open = open_if_necessary lib,
      pk_send = (\<lambda>packet s. let (rv, s) = on_bus (lu_bulk_write lib EP2 packet) s in (rv = int (length packet), s)),
      pk_get = (\<lambda>n t ins s. read_packet lib n 0 0 t ins s),
      pk_fail = cable_usbblaster_close_cable lib,
      pk_low = (\<lambda>s. s\<lparr>ub_clock_high := False\<rparr>)\<rparr>"

definition cable_usbblaster_write_stream ::
  "(u32 \<Rightarrow> nat \<Rightarrow> u32) \<Rightarrow> 'u libusb \<Rightarrow> 'u usbblaster jtag_cable_t \<Rightarrow> u32 list \<Rightarrow> int \<Rightarrow> bool \<Rightarrow> 'u usbblaster op" where
  "cable_usbblaster_write_stream shr lib c = packet_write_stream (usbblaster_port lib) shr c"

definition cable_usbblaster_read_stream ::
  "(u32 \<Rightarrow> nat \<Rightarrow> u32) \<Rightarrow> 'u libusb \<Rightarrow> 'u usbblaster jtag_cable_t \<Rightarrow> u32 list \<Rightarrow> u32 list \<Rightarrow> int \<Rightarrow> bool
     \<Rightarrow> 'u usbblaster \<Rightarrow> (u32 \<times> u32 list \<times> 'u usbblaster) option" where
  "cable_usbblaster_read_stream shr lib c = packet_read_stream (usbblaster_port lib) shr c"

text \<open>The struct without and with the stream functions of its own.\<close>

definition usbblaster_base :: "(u32 \<Rightarrow> nat \<Rightarrow> u32) \<Rightarrow> u32 \<Rightarrow> 'u libusb \<Rightarrow> 'u usbblaster jtag_cable_t" where
  "usbblaster_base shr j lib = with_common_routines shr
     \<lparr>name = ''usbblaster'', inout_func = cable_usbblaster_inout lib, out_func = cable_usbblaster_out lib,
      init_func = cable_usbblaster_init lib, opt_func = cable_usbblaster_opt j,
      bit_out_func = (\<lambda>_ _. None), bit_inout_func = (\<lambda>_ _. None),
      stream_out_func = (\<lambda>_ _ _ _. None), stream_inout_func = (\<lambda>_ _ _ _ _. None),
      flush_func = None, opts = Some ''p:v:'',
      help_text = Some (''-p [PID] Alteranate PID for USB device (hex value)'' @ [CHR 0x0A, CHR 0x09]
        @ ''-v [VID] Alternate VID for USB device (hex value)'' @ [CHR 0x0A])\<rparr>"

definition usbblaster_cable_driver :: "(u32 \<Rightarrow> nat \<Rightarrow> u32) \<Rightarrow> u32 \<Rightarrow> 'u libusb \<Rightarrow> 'u usbblaster jtag_cable_t" where
  "usbblaster_cable_driver shr j lib =
     (let c = usbblaster_base shr j lib in
      c\<lparr>stream_out_func := cable_usbblaster_write_stream shr lib c,
        stream_inout_func := cable_usbblaster_read_stream shr lib c\<rparr>)"

end
