(* ===== verification/Usbblaster_Streams.thy ===== *)
theory Usbblaster_Streams
  imports Cable_Usbblaster Tap_Transactions
begin

unbundle bit_operations_syntax

text \<open>
  What the USB-Blaster driver makes of a stream. The box at the other end, as the comments of the source
  describe it, is the locale \<open>blaster_box\<close>: a byte without the shift flag sets the pins, a packet with it
  shifts bytes, both give back what TDO was if they ask for it, and every read is preceded by two bytes
  without meaning. Behind the box is any JTAG device. With such a box the driver is a \<open>packet_cable\<close>.
\<close>

subsection \<open>The box\<close>

locale blaster_box =
  fixes lib :: "'u libusb"
    and bdev :: "'u \<Rightarrow> 'd" and btck :: "'u \<Rightarrow> bool" and fifo :: "'u \<Rightarrow> u8 list"
    and pin_step :: "bool \<Rightarrow> bool \<Rightarrow> 'd \<Rightarrow> 'd" and tdo :: "'d \<Rightarrow> bool"
  assumes box_pins: "fifo u = [] \<Longrightarrow> \<not> bit b 7 \<Longrightarrow> bit b 5 \<Longrightarrow>
       \<exists>u'. lu_bulk_write lib EP2 [b] u = (1, u') \<and> btck u' = bit b 0
         \<and> bdev u' = (if \<not> btck u \<and> bit b 0 then pin_step (bit b 1) (bit b 4) (bdev u) else bdev u)
         \<and> fifo u' = (if bit b 6 then [of_bool (tdo (bdev u))] else [])"
    and box_shift: "fifo u = [] \<Longrightarrow> \<not> btck u \<Longrightarrow> bit b 7 \<Longrightarrow> unat (b AND 0x3F) = length bs \<Longrightarrow>
       \<exists>u'. lu_bulk_write lib EP2 (b # bs) u = (int (length bs) + 1, u') \<and> \<not> btck u'
         \<and> bdev u' = fold (pin_step False) (byte_bits bs) (bdev u)
         \<and> fifo u' = (if bit b 6 then bytes_of_bits (tdo_trace (\<lambda>p. pin_step False (bit p 0)) tdo (map of_bool (byte_bits bs)) (bdev u))
                       else [])"
    and box_read: "length (fifo u) + 2 \<le> k \<Longrightarrow>
       \<exists>x y u'. lu_bulk_read lib EP1 k u = ((int (length (fifo u)) + 2, x # y # fifo u), u')
         \<and> btck u' = btck u \<and> bdev u' = bdev u \<and> fifo u' = []"
begin

definition ok :: "'u usbblaster \<Rightarrow> bool" where
  "ok s \<longleftrightarrow> ub_open s \<and> fifo (ub_bus s) = [] \<and> (ub_clock_high s \<longleftrightarrow> btck (ub_bus s))"

abbreviation "dev s \<equiv> bdev (ub_bus s)"
abbreviation "pstep \<equiv> packet_step (\<lambda>_. pin_step)"

lemma bit_pins:
  assumes "base = USBBLASTER_CMD_OE OR USBBLASTER_CMD_nCS \<or> base = USBBLASTER_CMD_OE OR USBBLASTER_CMD_nCS OR USBBLASTER_CMD_READ"
  shows "\<not> bit (usbblaster_pins base v) 7" "bit (usbblaster_pins base v) 5" "bit (usbblaster_pins base v) 0 = bit v 0"
    "bit (usbblaster_pins base v) (Suc 0) = bit v 3" "bit (usbblaster_pins base v) 4 = bit v 2"
    "bit (usbblaster_pins base v) 6 \<longleftrightarrow> base = USBBLASTER_CMD_OE OR USBBLASTER_CMD_nCS OR USBBLASTER_CMD_READ"
  using assms by (auto simp: usbblaster_pins_def usbblaster_consts line_def pin_defs bit_or_iff)

lemma clk_bit: "v AND TCLK_BIT \<noteq> 0 \<longleftrightarrow> bit v 0"
  by (simp add: TCLK_BIT_def)

lemma out_ok:
  assumes "ok s"
  shows "\<exists>s'. cable_usbblaster_out lib v s = Some (0, s') \<and> ok s' \<and> btck (ub_bus s') = bit v 0
    \<and> dev s' = (if \<not> btck (ub_bus s) \<and> bit v 0 then pin_step (bit v 3) (bit v 2) (dev s) else dev s)"
proof -
  let ?b = "usbblaster_pins (USBBLASTER_CMD_OE OR USBBLASTER_CMD_nCS) v"
  have base: "USBBLASTER_CMD_OE OR USBBLASTER_CMD_nCS \<noteq> USBBLASTER_CMD_OE OR USBBLASTER_CMD_nCS OR USBBLASTER_CMD_READ"
    by (simp add: usbblaster_consts)
  obtain u' where "lu_bulk_write lib EP2 [?b] (ub_bus s) = (1, u')" "btck u' = bit v 0" "fifo u' = []"
    "bdev u' = (if \<not> btck (ub_bus s) \<and> bit v 0 then pin_step (bit v 3) (bit v 2) (dev s) else dev s)"
    using box_pins [of "ub_bus s" ?b] assms base by (auto simp: ok_def bit_pins)
  then show ?thesis
    using assms by (auto simp: cable_usbblaster_out_def open_if_necessary_def ok_def on_bus_def APP_ERR_NONE_def clk_bit)
qed

lemma inout_ok:
  assumes "ok s"
  shows "\<exists>s'. cable_usbblaster_inout lib v s = Some (0, of_bool (tdo (dev s)), s') \<and> ok s' \<and> btck (ub_bus s') = bit v 0
    \<and> dev s' = (if \<not> btck (ub_bus s) \<and> bit v 0 then pin_step (bit v 3) (bit v 2) (dev s) else dev s)"
proof -
  let ?b = "usbblaster_pins (USBBLASTER_CMD_OE OR USBBLASTER_CMD_nCS OR USBBLASTER_CMD_READ) v"
  obtain u1 where u1: "lu_bulk_write lib EP2 [?b] (ub_bus s) = (1, u1)" "btck u1 = bit v 0" "fifo u1 = [of_bool (tdo (dev s))]"
    "bdev u1 = (if \<not> btck (ub_bus s) \<and> bit v 0 then pin_step (bit v 3) (bit v 2) (dev s) else dev s)"
    using box_pins [of "ub_bus s" ?b] assms by (auto simp: ok_def bit_pins)
  obtain x y u2 where u2: "lu_bulk_read lib EP1 3 u1 = ((3, [x, y, of_bool (tdo (dev s))]), u2)" "btck u2 = btck u1"
    "bdev u2 = bdev u1" "fifo u2 = []"
    using box_read [of u1 3] u1(3) by auto
  have "(of_bool (tdo (dev s)) :: u8) AND 1 = of_bool (tdo (dev s))" by simp
  with u1 u2 show ?thesis
    using assms by (auto simp: cable_usbblaster_inout_def open_if_necessary_def ok_def on_bus_def APP_ERR_NONE_def clk_bit
        read_third.simps numeral_eq_Suc Let_def)
qed

definition ready :: "'u usbblaster \<Rightarrow> bool" where
  "ready s \<longleftrightarrow> ub_open s \<and> fifo (ub_bus s) = [] \<and> \<not> btck (ub_bus s)"

lemma shift_step: "fold (pin_step False) bs d = fold pstep (map of_bool bs) d"
  by (induction bs arbitrary: d) (simp_all add: packet_step_def)

lemma shift_trace:
  "tdo_trace (\<lambda>p. pin_step False (bit p 0)) tdo (map of_bool bs) d = tdo_trace pstep tdo (map of_bool bs) d"
  by (induction bs arbitrary: d) (simp_all add: packet_step_def)

lemma send_ok:
  assumes "ready s" "bs \<noteq> []" "length bs \<le> 63"
  shows "\<exists>s'. pk_send (usbblaster_port lib) ((USBBLASTER_CMD_BYTESHIFT OR (of_nat (length bs) AND 0x3F)) # bs) s = (True, s')
     \<and> ready s' \<and> dev s' = fold pstep (map of_bool (byte_bits bs)) (dev s)"
  using box_shift [of "ub_bus s" "USBBLASTER_CMD_BYTESHIFT OR (of_nat (length bs) AND 0x3F)" bs] assms(1) shift_cmd [OF assms(3)]
  by (auto simp: usbblaster_port_def on_bus_def ready_def shift_step)

lemma read_packet_ok:
  assumes "n = length (fifo (ub_bus s))" "0 < n" "n \<le> 62" "store_received t 0 (fifo (ub_bus s)) ins = Some ins'"
  shows "\<exists>s'. read_packet lib n r 0 t ins s = Some (Some (t + of_nat n, ins'), s')
     \<and> ub_open s' = ub_open s \<and> fifo (ub_bus s') = [] \<and> btck (ub_bus s') = btck (ub_bus s) \<and> dev s' = dev s"
proof -
  have n: "n \<in> set [1..<63]" using assms(2,3) by simp
  have all: "\<forall>n \<in> set [1..<63]. nat (sint (of_nat n - 0 + 2 :: u32)) = n + 2" by code_simp
  then have ask: "nat (sint (of_nat n - 0 + 2 :: u32)) = n + 2" using n by (rule bspec)
  obtain x y u' where u': "lu_bulk_read lib EP1 (n + 2) (ub_bus s) = ((int n + 2, x # y # fifo (ub_bus s)), u')"
    "btck u' = btck (ub_bus s)" "bdev u' = dev s" "fifo u' = []"
    using box_read [of "ub_bus s" "n + 2"] assms(1) by auto
  let ?s = "s\<lparr>ub_bus := u'\<rparr>"
  have read: "on_bus (lu_bulk_read lib EP1 (n + 2)) s = ((int n + 2, x # y # fifo (ub_bus s)), ?s)"
    unfolding on_bus_def u'(1) by simp
  have "read_packet lib n r 0 t ins s = Some (Some (t + of_nat n, ins'), ?s)"
    unfolding read_packet.simps [of lib n r 0 t ins s] Let_def ask read prod.case
    using assms(2,4) by (simp add: assms(1) [symmetric])
  then show ?thesis using u' by (intro exI [of _ ?s]) simp
qed

lemma get_ok:
  assumes "ready s" "bs \<noteq> []" "length bs \<le> 62"
    and store: "store_received t 0 (bytes_of_bits (tdo_trace pstep tdo (map of_bool (byte_bits bs)) (dev s))) ins = Some ins'"
  shows "\<exists>s1 s'. pk_send (usbblaster_port lib) ((USBBLASTER_CMD_BYTESHIFT OR USBBLASTER_CMD_READ OR (of_nat (length bs) AND 0x3F)) # bs) s = (True, s1)
     \<and> pk_get (usbblaster_port lib) (length bs) t ins s1 = Some (Some (t + of_nat (length bs), ins'), s') \<and> ready s'
     \<and> dev s' = fold pstep (map of_bool (byte_bits bs)) (dev s)"
proof -
  let ?cmd = "USBBLASTER_CMD_BYTESHIFT OR USBBLASTER_CMD_READ OR (of_nat (length bs) AND 0x3F)"
  have n: "length bs \<le> 63" and pos: "0 < length bs" using assms(2,3) by simp_all
  obtain u1 where u1: "lu_bulk_write lib EP2 (?cmd # bs) (ub_bus s) = (int (length bs) + 1, u1)" "\<not> btck u1"
    "fifo u1 = bytes_of_bits (tdo_trace pstep tdo (map of_bool (byte_bits bs)) (dev s))"
    "bdev u1 = fold pstep (map of_bool (byte_bits bs)) (dev s)"
    using box_shift [of "ub_bus s" ?cmd bs] assms(1) shift_cmd [OF n] by (auto simp: ready_def shift_trace shift_step)
  let ?s1 = "s\<lparr>ub_bus := u1\<rparr>"
  have len: "length bs = length (fifo (ub_bus ?s1))" by (simp add: u1(3))
  have store1: "store_received t 0 (fifo (ub_bus ?s1)) ins = Some ins'" using store u1(3) by simp
  obtain s' where "read_packet lib (length bs) 0 0 t ins ?s1 = Some (Some (t + of_nat (length bs), ins'), s')"
    "ub_open s'" "fifo (ub_bus s') = []" "\<not> btck (ub_bus s')" "dev s' = bdev u1"
    using read_packet_ok [OF len pos assms(3) store1, of 0] assms(1) u1(2) by (auto simp: ready_def)
  with u1(1,4) show ?thesis by (auto simp: usbblaster_port_def on_bus_def ready_def)
qed

end

lemmas usbblaster_wired = common_routines_wired [OF usbblaster_base_def]

sublocale blaster_box \<subseteq> packets: packet_cable "usbblaster_base x86_shr j lib" "\<lambda>s. bdev (ub_bus s)"
    "\<lambda>s. btck (ub_bus s)" ok "\<lambda>_. pin_step" tdo x86_shr "usbblaster_port lib" ready for j
proof unfold_locales
  fix s assume s: "ok s"
  show "\<exists>s'. pk_lower (usbblaster_port lib) s = Some (0, s') \<and> ready s' \<and> dev s' = dev s"
    using s out_ok [OF s, of 0] by (auto simp: usbblaster_port_def APP_ERR_NONE_def ok_def ready_def)
next
  fix s assume "ready s"
  then show "pk_open (usbblaster_port lib) s = Some (0, s)"
    "ok (pk_low (usbblaster_port lib) s) \<and> dev (pk_low (usbblaster_port lib) s) = dev s"
    by (simp_all add: usbblaster_port_def open_if_necessary_def ready_def ok_def APP_ERR_NONE_def)
qed (use out_ok inout_ok send_ok get_ok in \<open>simp_all add: usbblaster_wired x86_shr_small x86_shr_wraps [symmetric]\<close>)

context blaster_box
begin

lemma driver_streams:
  "stream_out_func (usbblaster_cable_driver x86_shr j lib) =
     packet_write_stream (usbblaster_port lib) x86_shr (usbblaster_base x86_shr j lib)"
  "stream_inout_func (usbblaster_cable_driver x86_shr j lib) =
     packet_read_stream (usbblaster_port lib) x86_shr (usbblaster_base x86_shr j lib)"
  by (simp_all add: usbblaster_cable_driver_def Let_def cable_usbblaster_write_stream_def cable_usbblaster_read_stream_def)

lemmas driver_write = packets.packet_write [folded driver_streams]
lemmas driver_read = packets.packet_read [folded driver_streams]
lemmas driver_read_long = packets.packet_read_long [folded driver_streams]

end

subsection \<open>The box on a device\<close>

text \<open>
  The box, with a device on its wires that takes a step of \<open>step\<close> at each rising clock edge: what it has
  been asked to read and not yet given back is in \<open>bl_fifo\<close>.
\<close>

record 'd blaster =
  bl_dev :: 'd
  bl_tck :: bool
  bl_fifo :: "u8 list"

fun blaster_write ::
  "(bool \<Rightarrow> bool \<Rightarrow> 'd \<Rightarrow> 'd) \<Rightarrow> ('d \<Rightarrow> bool) \<Rightarrow> u8 list \<Rightarrow> 'd blaster \<Rightarrow> int \<times> 'd blaster" where
  "blaster_write step tdo [] x = (0, x)"
| "blaster_write step tdo (b # bs) x =
     (let d = bl_dev x; bits = byte_bits bs in
      (int (length bs) + 1,
       if bit b 7 then
         \<lparr>bl_dev = fold (step False) bits d, bl_tck = False,
          bl_fifo = bl_fifo x @ (if bit b 6 then
            bytes_of_bits (tdo_trace (\<lambda>p. step False (bit p 0)) tdo (map of_bool bits) d) else [])\<rparr>
       else
         \<lparr>bl_dev = (if \<not> bl_tck x \<and> bit b 0 then step (bit b 1) (bit b 4) d else d), bl_tck = bit b 0,
          bl_fifo = bl_fifo x @ (if bit b 6 then [of_bool (tdo d)] else [])\<rparr>))"

definition blaster_read :: "nat \<Rightarrow> 'd blaster \<Rightarrow> (int \<times> u8 list) \<times> 'd blaster" where
  "blaster_read k x =
     (let bs = take (k - 2) (bl_fifo x) in
      ((int (length bs) + 2, 0x31 # 0x60 # bs), x\<lparr>bl_fifo := drop (k - 2) (bl_fifo x)\<rparr>))"

definition blaster_lib :: "(bool \<Rightarrow> bool \<Rightarrow> 'd \<Rightarrow> 'd) \<Rightarrow> ('d \<Rightarrow> bool) \<Rightarrow> 'd blaster libusb" where
  "blaster_lib step tdo =
     \<lparr>lu_scan = (\<lambda>x. ([[\<lparr>idVendor = 0x1D6B, idProduct = 2\<rparr>], [\<lparr>idVendor = 0x09FB, idProduct = 0x6001\<rparr>]], x)),
      lu_open = (\<lambda>d x. (True, x)), lu_reset = (\<lambda>x. (0, x)), lu_close = (\<lambda>x. x),
      lu_control_msg = (\<lambda>_ _ _ _ n x. ((int n, replicate n 0), x)), lu_set_configuration = (\<lambda>x. (0, x)),
      lu_claim_interface = (\<lambda>x. (0, x)), lu_release_interface = (\<lambda>x. (0, x)),
      lu_bulk_write = (\<lambda>_. blaster_write step tdo), lu_bulk_read = (\<lambda>_. blaster_read),
      lu_timer_create = (\<lambda>x. (0, x)), lu_timer_settime = (\<lambda>x. (0, x)), lu_timer_gettime = (\<lambda>x. ((0, 5), x))\<rparr>"

lemma blaster_box_lib: "blaster_box (blaster_lib step tdo) bl_dev bl_tck bl_fifo step tdo"
  by unfold_locales (auto simp: blaster_lib_def blaster_read_def Let_def)

interpretation blaster_tap: blaster_box "blaster_lib (tck_cycle False) tdo_mux_out" bl_dev bl_tck bl_fifo
    "tck_cycle False" tdo_mux_out
  by (rule blaster_box_lib)

subsection \<open>What the driver promises\<close>

lemma usbblaster_overrun:
  assumes "0 < n" "n = 32 * length ws"
  shows "stream_out_func (usbblaster_cable_driver shr j lib) ws (int n) False s = None"
    "stream_inout_func (usbblaster_cable_driver shr j lib) ws ins (int n) False s = None"
  using packet_streams_overrun [OF assms]
  by (simp_all add: usbblaster_cable_driver_def Let_def cable_usbblaster_write_stream_def cable_usbblaster_read_stream_def)

text \<open>
  C33. A stream written through the USB-Blaster driver reaches the device bit by bit if the last bit is
  marked or its words are not filled to the last bit: although whole bytes go out in packets of 63 and the
  bits left over one by one, the device takes the steps of the pins that the stream asks for, in that order,
  with TMS at the last bit if wanted. A stream without a mark that fills its words, like the 32 bits of a
  CRC in one word, makes the driver read the word behind the array, although it does not use it; such a
  call has no result.
\<close>

lemma usbblaster_write_stream_shifts:
  assumes "blaster_box lib bdev btck fifo pin_step tdo"
    and "ub_open s" "fifo (ub_bus s) = []" "ub_clock_high s \<longleftrightarrow> btck (ub_bus s)"
    and "0 < n" "n \<le> 32 * length ws"
  shows "if n < 32 * length ws \<or> l
     then \<exists>s'. stream_out_func (usbblaster_cable_driver x86_shr j lib) ws (int n) l s = Some (0, s')
       \<and> ub_open s' \<and> fifo (ub_bus s') = [] \<and> (ub_clock_high s' \<longleftrightarrow> btck (ub_bus s'))
       \<and> bdev (ub_bus s') = fold (packet_step (\<lambda>_. pin_step)) (stream_packets ws n l) (bdev (ub_bus s))
     else stream_out_func (usbblaster_cable_driver x86_shr j lib) ws (int n) l s = None"
proof (cases "n < 32 * length ws \<or> l")
  case True
  then show ?thesis using blaster_box.driver_write [OF assms(1) _ assms(5,6) True, of s] assms(2-4)
    unfolding blaster_box.ok_def [OF assms(1)] by auto
next
  case False
  then show ?thesis using usbblaster_overrun(1) [OF assms(5), of ws] assms(6) by auto
qed

text \<open>A box that is open, its wires low or high, and a TAP that shifts out its identification.\<close>

definition blaster_shifting :: "bool \<Rightarrow> debug_dev blaster usbblaster" where
  "blaster_shifting clk =
     (usbblaster_start \<lparr>bl_dev = power_on_dev\<lparr>TAP_state := Shift_DR\<rparr>, bl_tck = clk, bl_fifo = []\<rparr>)
       \<lparr>ub_open := True, ub_clock_high := clk\<rparr>"

lemma usbblaster_write_stream_shifts_witness:
  "\<exists>s'. stream_out_func (usbblaster_cable_driver x86_shr 0 (blaster_lib (tck_cycle False) tdo_mux_out)) [0xFFFFFFFF, 0xFFFFFFFF] 60 True (blaster_shifting True) = Some (0, s')
     \<and> TAP_state (bl_dev (ub_bus s')) = Exit1_DR \<and> idcode_reg (bl_dev (ub_bus s')) = 0xFFFFFFFF"
proof -
  have "TAP_state (fold (packet_step (\<lambda>_. tck_cycle False)) (stream_packets [0xFFFFFFFF, 0xFFFFFFFF] 60 True)
        (power_on_dev\<lparr>TAP_state := Shift_DR\<rparr>)) = Exit1_DR"
    "idcode_reg (fold (packet_step (\<lambda>_. tck_cycle False)) (stream_packets [0xFFFFFFFF, 0xFFFFFFFF] 60 True)
        (power_on_dev\<lparr>TAP_state := Shift_DR\<rparr>)) = 0xFFFFFFFF"
    by code_simp+
  then show ?thesis
    using usbblaster_write_stream_shifts [OF blaster_tap.blaster_box_axioms, of "blaster_shifting True" 60 "[0xFFFFFFFF, 0xFFFFFFFF]" True 0]
    by (auto simp: blaster_shifting_def usbblaster_start_def)
qed

text \<open>
  C34. A stream of one packet, that is of up to 503 bits, which is read and written through the USB-Blaster
  driver comes back as the shared bit by bit routine would give it, if the last bit is marked or its words
  are not filled to the last bit: the level of TDO before each step of the device is in the word and at
  the place of its bit, unused bits of the last word are zero, and the words of the buffer behind the stream
  are as they were. A stream without a mark that fills its words makes the driver read the word behind the
  array, as in a write.
\<close>

lemma usbblaster_read_stream_returns:
  assumes "blaster_box lib bdev btck fifo pin_step tdo"
    and "ub_open s" "fifo (ub_bus s) = []" "ub_clock_high s \<longleftrightarrow> btck (ub_bus s)"
    and "0 < n" "n \<le> 32 * length ws" "n \<le> 32 * length ins" "n < 504"
  shows "if n < 32 * length ws \<or> l
     then \<exists>s'. stream_inout_func (usbblaster_cable_driver x86_shr j lib) ws ins (int n) l s =
         Some (0, pack_bits (tdo_trace (packet_step (\<lambda>_. pin_step)) tdo (stream_packets ws n l) (bdev (ub_bus s)))
                  @ drop ((n + 31) div 32) ins, s')
       \<and> ub_open s' \<and> fifo (ub_bus s') = [] \<and> (ub_clock_high s' \<longleftrightarrow> btck (ub_bus s'))
       \<and> bdev (ub_bus s') = fold (packet_step (\<lambda>_. pin_step)) (stream_packets ws n l) (bdev (ub_bus s))
     else stream_inout_func (usbblaster_cable_driver x86_shr j lib) ws ins (int n) l s = None"
proof (cases "n < 32 * length ws \<or> l")
  case True
  then show ?thesis using blaster_box.driver_read [OF assms(1) _ assms(5,6) True assms(7,8), of s] assms(2-4)
    unfolding blaster_box.ok_def [OF assms(1)] by auto
next
  case False
  then show ?thesis using usbblaster_overrun(2) [OF assms(5), of ws] assms(6) by auto
qed

lemma usbblaster_read_stream_returns_witness:
  "\<exists>s'. stream_inout_func (usbblaster_cable_driver x86_shr 0 (blaster_lib (tck_cycle False) tdo_mux_out)) [0, 0] [7, 7, 7] 35 True (blaster_shifting False) =
     Some (0, [IDCODE_VALUE, 0, 7], s')"
proof -
  have "pack_bits (tdo_trace (packet_step (\<lambda>_. tck_cycle False)) tdo_mux_out (stream_packets [0, 0] 35 True)
        (power_on_dev\<lparr>TAP_state := Shift_DR\<rparr>)) = [IDCODE_VALUE, 0]"
    by code_simp
  then show ?thesis
    using usbblaster_read_stream_returns [OF blaster_tap.blaster_box_axioms, of "blaster_shifting False" 35 "[0, 0]" "[7, 7, 7]" True 0]
    by (auto simp: blaster_shifting_def usbblaster_start_def)
qed

text \<open>
  A read of more than one packet does not return what the device gave. The lane of a received byte in its
  word is taken from its index in the packet and not from its place in the stream, so the two bytes
  that follow the 62 of a first packet are put into the lower half of their word, over the bytes that are
  there: after 512 bits the upper half of word 15 is zero, and its lower half is the bitwise or of both
  halves, and the driver reports no error.
\<close>

lemma usbblaster_long_read_garbled:
  assumes "blaster_box lib bdev btck fifo pin_step tdo"
    and "ub_open s" "fifo (ub_bus s) = []" "ub_clock_high s \<longleftrightarrow> btck (ub_bus s)"
    and "17 \<le> length ws" "16 \<le> length ins"
    and tr: "tr = tdo_trace (packet_step (\<lambda>_. pin_step)) tdo (stream_packets ws 512 False) (bdev (ub_bus s))"
  shows "\<exists>ins' s'. stream_inout_func (usbblaster_cable_driver x86_shr j lib) ws ins 512 False s = Some (0, ins', s')
     \<and> (\<forall>i < 32. bit (ins' ! 15) i \<longleftrightarrow> i < 16 \<and> (bit (pack_bits tr ! 15) i \<or> bit (pack_bits tr ! 15) (16 + i)))"
  using blaster_box.driver_read_long [OF assms(1) _ assms(5-7)] assms(2-4)
  unfolding blaster_box.ok_def [OF assms(1)] by blast

text \<open>A device whose register is the one bit of BYPASS: what goes in comes out one step later.\<close>

lemma usbblaster_long_read_garbled_witness:
  "\<exists>ws ins' s'. stream_inout_func (usbblaster_cable_driver x86_shr 0 (blaster_lib (\<lambda>_ tdi _. tdi) id)) ws (replicate 16 0) 512 False
      ((usbblaster_start \<lparr>bl_dev = False, bl_tck = False, bl_fifo = []\<rparr>)\<lparr>ub_open := True, ub_clock_high := False\<rparr>) = Some (0, ins', s')
    \<and> pack_bits (tdo_trace (packet_step (\<lambda>_ _ tdi _. tdi)) id (stream_packets ws 512 False) False) ! 15 = 0xFFFF0000
    \<and> bit (ins' ! 15) 0 \<and> \<not> bit (ins' ! 15) 31"
proof -
  let ?ws = "replicate 15 0 @ [0x7FFF8000, 0] :: u32 list"
  let ?s = "(usbblaster_start \<lparr>bl_dev = False, bl_tck = False, bl_fifo = []\<rparr>)\<lparr>ub_open := True, ub_clock_high := False\<rparr>"
  let ?tr = "tdo_trace (packet_step (\<lambda>_ _ tdi _. tdi)) id (stream_packets ?ws 512 False) False"
  have tr: "pack_bits ?tr ! 15 = 0xFFFF0000" by code_simp
  have start: "ub_open ?s" "bl_fifo (ub_bus ?s) = []" "ub_clock_high ?s \<longleftrightarrow> bl_tck (ub_bus ?s)" "bl_dev (ub_bus ?s) = False"
    by (simp_all add: usbblaster_start_def)
  have len: "17 \<le> length ?ws" "16 \<le> length (replicate 16 0)" by simp_all
  obtain ins' s' where run: "stream_inout_func (usbblaster_cable_driver x86_shr 0 (blaster_lib (\<lambda>_ tdi _. tdi) id)) ?ws (replicate 16 0) 512 False ?s
      = Some (0, ins', s')"
    and bits: "\<forall>i < 32. bit (ins' ! 15) i \<longleftrightarrow> i < 16 \<and> (bit (pack_bits ?tr ! 15) i \<or> bit (pack_bits ?tr ! 15) (16 + i))"
    using usbblaster_long_read_garbled [OF blaster_box_lib start(1-3) len refl] unfolding start(4) by blast
  have "bit (0xFFFF0000 :: u32) (16 + 0)" by simp
  then have "bit (ins' ! 15) 0" "\<not> bit (ins' ! 15) 31" using bits unfolding tr by auto
  with run tr show ?thesis by blast
qed

end
