(* ===== verification/Cable_Ft245.thy ===== *)
theory Cable_Ft245
  imports Usbblaster_Streams
begin

unbundle bit_operations_syntax

text \<open>
  cable_ft245.c and cable_usbblaster_ftdi.c: the drivers of the USB-Blaster over libftdi. The calls of
  libftdi are the record \<open>libftdi\<close> over the state \<open>'u\<close> of the bus and of what hangs on it; \<open>None\<close> is an
  access outside of a buffer. The two files share the functions that reach the pins; the second one sends
  streams bit by bit. The functions for closing are never called. With a box that keeps the protocol, the
  locale \<open>ftdi_box\<close>, the first driver is a \<open>packet_cable\<close> and the second one keeps the whole cable
  contract.
\<close>

subsection \<open>libftdi\<close>

text \<open>A read returns what the call returns, and the bytes it has put into the buffer.\<close>

record 'u libftdi =
  lf_init :: "'u \<Rightarrow> int \<times> 'u"
  lf_usb_open :: "u32 \<Rightarrow> u32 \<Rightarrow> 'u \<Rightarrow> int \<times> 'u"
  lf_usb_reset :: "'u \<Rightarrow> int \<times> 'u"
  lf_set_latency_timer :: "nat \<Rightarrow> 'u \<Rightarrow> int \<times> 'u"
  lf_get_latency_timer :: "'u \<Rightarrow> int \<times> 'u"
  lf_disable_bitbang :: "'u \<Rightarrow> 'u"
  lf_set_baudrate :: "nat \<Rightarrow> 'u \<Rightarrow> int \<times> 'u"
  lf_write_data :: "u8 list \<Rightarrow> 'u \<Rightarrow> int \<times> 'u"
  lf_read_data :: "nat \<Rightarrow> 'u \<Rightarrow> (int \<times> u8 list) \<times> 'u"

record 'u ft245 =
  ft_bus :: 'u
  ft_in :: "u8 list"
  ft_VID :: u32
  ft_PID :: u32

text \<open>\<open>ft_in\<close> is \<open>data_in_scratchpad\<close>, which keeps its bytes from call to call.\<close>

definition ft245_start :: "'u \<Rightarrow> 'u ft245" where
  "ft245_start u = \<lparr>ft_bus = u, ft_in = replicate 64 0, ft_VID = 0x09FB, ft_PID = 0x6001\<rparr>"

definition on_ftdi :: "('u \<Rightarrow> 'a \<times> 'u) \<Rightarrow> 'u ft245 \<Rightarrow> 'a \<times> 'u ft245" where
  "on_ftdi f s = (let (x, u) = f (ft_bus s) in (x, s\<lparr>ft_bus := u\<rparr>))"

definition FTDI_OTHERS :: u8 where "FTDI_OTHERS = 0x2C"

subsection \<open>Bytes\<close>

text \<open>The result, and the count.\<close>

definition usb_blaster_buf_write :: "'u libftdi \<Rightarrow> u8 list \<Rightarrow> 'u ft245 \<Rightarrow> (int \<times> int) \<times> 'u ft245" where
  "usb_blaster_buf_write lib bf s =
     (let (rv, s) = on_ftdi (lf_write_data lib bf) s in (if rv < 0 then (-1, 0) else (0, rv), s))"

text \<open>At most \<open>timeout\<close> reads; \<open>n\<close> bytes have been received.\<close>

primrec buf_read_loop ::
  "'u libftdi \<Rightarrow> nat \<Rightarrow> nat \<Rightarrow> nat \<Rightarrow> u8 list \<Rightarrow> 'u ft245 \<Rightarrow> ((int \<times> nat \<times> u8 list) \<times> 'u ft245) option" where
  "buf_read_loop lib sz 0 n bf s = Some ((0, n, bf), s)"
| "buf_read_loop lib sz (Suc timeout) n bf s =
     (if n \<ge> sz then Some ((0, n, bf), s)
      else
        (let ((rv, bs), s) = on_ftdi (lf_read_data lib (sz - n)) s in
         if rv < 0 then Some ((-1, 0, bf), s)
         else if rv > int (sz - n) \<or> n + nat rv > length bf then None
         else buf_read_loop lib sz timeout (n + nat rv)
                (take n bf @ take (nat rv) bs @ drop (n + nat rv) bf) s))"

definition usb_blaster_buf_read ::
  "'u libftdi \<Rightarrow> nat \<Rightarrow> u8 list \<Rightarrow> 'u ft245 \<Rightarrow> ((int \<times> nat \<times> u8 list) \<times> 'u ft245) option" where
  "usb_blaster_buf_read lib sz bf s = buf_read_loop lib sz 100 0 bf s"

subsection \<open>Pins\<close>

definition ftdi_pins :: "bool \<Rightarrow> bool \<Rightarrow> bool \<Rightarrow> u8" where
  "ftdi_pins tck tms tdi =
     FTDI_OTHERS OR (if tck then USBBLASTER_CMD_TCK else 0) OR (if tms then USBBLASTER_CMD_TMS else 0)
     OR (if tdi then USBBLASTER_CMD_TDI else 0)"

definition usb_blaster_write :: "'u libftdi \<Rightarrow> bool \<Rightarrow> bool \<Rightarrow> bool \<Rightarrow> 'u ft245 \<Rightarrow> 'u ft245" where
  "usb_blaster_write lib tck tms tdi s = snd (usb_blaster_buf_write lib [ftdi_pins tck tms tdi] s)"

text \<open>The byte sent is the buffer of the read: if nothing comes back, its lowest bit, TCK, is the result.\<close>

definition usb_blaster_write_read :: "'u libftdi \<Rightarrow> bool \<Rightarrow> bool \<Rightarrow> bool \<Rightarrow> 'u ft245 \<Rightarrow> (u8 \<times> 'u ft245) option" where
  "usb_blaster_write_read lib tck tms tdi s =
     (let bf = [ftdi_pins tck tms tdi OR USBBLASTER_CMD_READ];
          (_, s) = usb_blaster_buf_write lib bf s in
      do { ((_, _, bf), s) \<leftarrow> usb_blaster_buf_read lib 1 bf s;
           b \<leftarrow> word_at bf 0;
           Some (b AND 1, s) })"

definition cable_ft245_out :: "'u libftdi \<Rightarrow> u8 \<Rightarrow> 'u ft245 op" where
  "cable_ft245_out lib value s =
     Some (0, usb_blaster_write lib (value AND TCLK_BIT \<noteq> 0) (value AND TMS_BIT \<noteq> 0) (value AND TDI_BIT \<noteq> 0) s)"

definition cable_ft245_inout :: "'u libftdi \<Rightarrow> u8 \<Rightarrow> 'u ft245 \<Rightarrow> (u32 \<times> u8 \<times> 'u ft245) option" where
  "cable_ft245_inout lib value s =
     do { (b, s) \<leftarrow> usb_blaster_write_read lib (value AND TCLK_BIT \<noteq> 0) (value AND TMS_BIT \<noteq> 0) (value AND TDI_BIT \<noteq> 0) s;
          Some (0, b, s) }"

subsection \<open>Opening and options\<close>

definition usb_blaster_speed :: "'u libftdi \<Rightarrow> nat \<Rightarrow> 'u ft245 \<Rightarrow> int \<times> 'u ft245" where
  "usb_blaster_speed lib speed s =
     (let (rv, s) = on_ftdi (lf_set_baudrate lib speed) s in (if rv < 0 then -1 else 0, s))"

definition cable_ft245_init :: "'u libftdi \<Rightarrow> 'u ft245 op" where
  "cable_ft245_init lib s =
     (let (rv, s) = on_ftdi (lf_init lib) s in
      if rv < 0 then Some (-1, s)
      else let (rv, s) = on_ftdi (lf_usb_open lib (ft_VID s) (ft_PID s)) s in
      if rv < 0 then Some (-1, s)
      else let (rv, s) = on_ftdi (lf_usb_reset lib) s in
      if rv < 0 then Some (-1, s)
      else let (rv, s) = on_ftdi (lf_set_latency_timer lib 2) s in
      if rv < 0 then Some (-1, s)
      else let (rv, s) = on_ftdi (lf_get_latency_timer lib) s in
      if rv < 0 then Some (-1, s)
      else let s = s\<lparr>ft_bus := lf_disable_bitbang lib (ft_bus s)\<rparr>; (_, s) = usb_blaster_speed lib 300000 s in
      Some (0, s))"

definition cable_ft245_opt :: "u32 \<Rightarrow> int \<Rightarrow> string \<Rightarrow> 'u ft245 op" where
  "cable_ft245_opt j c arg s =
     (if c = int (of_char CHR ''p'') then
        (case scan_id j arg of
           None \<Rightarrow> Some (APP_ERR_BAD_PARAM, s) | Some v \<Rightarrow> Some (APP_ERR_NONE, s\<lparr>ft_PID := v\<rparr>))
      else if c = int (of_char CHR ''v'') then
        (case scan_id j arg of
           None \<Rightarrow> Some (APP_ERR_BAD_PARAM, s) | Some v \<Rightarrow> Some (APP_ERR_NONE, s\<lparr>ft_VID := v\<rparr>))
      else Some (APP_ERR_BAD_PARAM, s))"

subsection \<open>Streams\<close>

text \<open>One packet of a read: until all its bytes are back, or fifteen reads in a row have brought none.\<close>

function ft245_read_packet ::
  "'u libftdi \<Rightarrow> nat \<Rightarrow> nat \<Rightarrow> nat \<Rightarrow> u32 \<Rightarrow> u32 list \<Rightarrow> 'u ft245
     \<Rightarrow> ((u32 \<times> u32 list) option \<times> 'u ft245) option" where
  "ft245_read_packet lib n retries received t ins s =
     (case usb_blaster_buf_read lib (n - received) (ft_in s) s of
        None \<Rightarrow> None
      | Some ((rv, count, bf), s) \<Rightarrow>
          (let s = s\<lparr>ft_in := bf\<rparr> in
           if rv < 0 then Some (None, s)
           else
             (let retries = (if count > 0 then 0 else retries + 1) in
              case store_received t 0 (take count bf) ins of
                None \<Rightarrow> None
              | Some ins \<Rightarrow>
                  (let received = received + count; t = t + of_nat count in
                   if received < n \<and> retries < 15 then ft245_read_packet lib n retries received t ins s
                   else Some (Some (t, ins), s)))))"
  by pat_completeness auto
termination by (relation "measures [\<lambda>(_, n, _, received, _). n - received, \<lambda>(_, _, retries, _). 15 - retries]") auto

declare ft245_read_packet.simps [simp del]

definition ft245_port :: "'u libftdi \<Rightarrow> 'u ft245 packet_port" where
  "ft245_port lib =
     \<lparr>pk_lower = cable_ft245_out lib 0, pk_open = (\<lambda>s. Some (APP_ERR_NONE, s)),
      pk_send = (\<lambda>packet s. let ((_, count), s) = usb_blaster_buf_write lib packet s in (count = int (length packet), s)),
      pk_get = (\<lambda>n t ins s. ft245_read_packet lib n 0 0 t ins s),
      pk_fail = (\<lambda>s. s), pk_low = (\<lambda>s. s)\<rparr>"

definition cable_ft245_write_stream ::
  "(u32 \<Rightarrow> nat \<Rightarrow> u32) \<Rightarrow> 'u libftdi \<Rightarrow> 'u ft245 jtag_cable_t \<Rightarrow> u32 list \<Rightarrow> int \<Rightarrow> bool \<Rightarrow> 'u ft245 op" where
  "cable_ft245_write_stream shr lib c = packet_write_stream (ft245_port lib) shr c"

definition cable_ft245_read_stream ::
  "(u32 \<Rightarrow> nat \<Rightarrow> u32) \<Rightarrow> 'u libftdi \<Rightarrow> 'u ft245 jtag_cable_t \<Rightarrow> u32 list \<Rightarrow> u32 list \<Rightarrow> int \<Rightarrow> bool
     \<Rightarrow> 'u ft245 \<Rightarrow> (u32 \<times> u32 list \<times> 'u ft245) option" where
  "cable_ft245_read_stream shr lib c = packet_read_stream (ft245_port lib) shr c"

definition ft245_base :: "(u32 \<Rightarrow> nat \<Rightarrow> u32) \<Rightarrow> u32 \<Rightarrow> 'u libftdi \<Rightarrow> 'u ft245 jtag_cable_t" where
  "ft245_base shr j lib = with_common_routines shr
     \<lparr>name = ''ft245'', inout_func = cable_ft245_inout lib, out_func = cable_ft245_out lib,
      init_func = cable_ft245_init lib, opt_func = cable_ft245_opt j,
      bit_out_func = (\<lambda>_ _. None), bit_inout_func = (\<lambda>_ _. None),
      stream_out_func = (\<lambda>_ _ _ _. None), stream_inout_func = (\<lambda>_ _ _ _ _. None),
      flush_func = None, opts = Some ''p:v:'',
      help_text = Some (''-p [PID] Alteranate PID for USB device (hex value)'' @ [CHR 0x0A, CHR 0x09]
        @ ''-v [VID] Alternate VID for USB device (hex value)'' @ [CHR 0x0A])\<rparr>"

definition ft245_cable_driver :: "(u32 \<Rightarrow> nat \<Rightarrow> u32) \<Rightarrow> u32 \<Rightarrow> 'u libftdi \<Rightarrow> 'u ft245 jtag_cable_t" where
  "ft245_cable_driver shr j lib =
     (let c = ft245_base shr j lib in
      c\<lparr>stream_out_func := cable_ft245_write_stream shr lib c,
        stream_inout_func := cable_ft245_read_stream shr lib c\<rparr>)"

subsection \<open>cable\_usbblaster\_ftdi.c\<close>

text \<open>
  The alternative driver, in no build of the program and without a driver struct: the same functions for
  bytes and pins, no options, and copies of the shared routines for the streams.
\<close>

definition usbblaster_ftdi_out :: "'u libftdi \<Rightarrow> u8 \<Rightarrow> 'u ft245 op" where
  "usbblaster_ftdi_out lib value s =
     Some (0, usb_blaster_write lib (value AND TCLK_BIT \<noteq> 0) (value AND TMS_BIT \<noteq> 0) (value AND TDI_BIT \<noteq> 0) s)"

definition usbblaster_ftdi_inout :: "'u libftdi \<Rightarrow> u8 \<Rightarrow> 'u ft245 \<Rightarrow> (u32 \<times> u8 \<times> 'u ft245) option" where
  "usbblaster_ftdi_inout lib value s =
     do { (b, s) \<leftarrow> usb_blaster_write_read lib (value AND TCLK_BIT \<noteq> 0) (value AND TMS_BIT \<noteq> 0) (value AND TDI_BIT \<noteq> 0) s;
          Some (0, b, s) }"

definition usbblaster_ftdi_init :: "'u libftdi \<Rightarrow> 'u ft245 op" where
  "usbblaster_ftdi_init lib s =
     (let (rv, s) = on_ftdi (lf_init lib) s in
      if rv < 0 then Some (-1, s)
      else let (rv, s) = on_ftdi (lf_usb_open lib 0x09FB 0x6001) s in
      if rv < 0 then Some (-1, s)
      else let (rv, s) = on_ftdi (lf_usb_reset lib) s in
      if rv < 0 then Some (-1, s)
      else let (rv, s) = on_ftdi (lf_set_latency_timer lib 2) s in
      if rv < 0 then Some (-1, s)
      else let (rv, s) = on_ftdi (lf_get_latency_timer lib) s in
      if rv < 0 then Some (-1, s)
      else let s = s\<lparr>ft_bus := lf_disable_bitbang lib (ft_bus s)\<rparr>; (_, s) = usb_blaster_speed lib 300000 s in
      Some (0, s))"

definition usbblaster_ftdi_opt :: "int \<Rightarrow> string \<Rightarrow> 'u ft245 op" where
  "usbblaster_ftdi_opt c arg s = Some (APP_ERR_BAD_PARAM, s)"

definition usbblaster_ftdi_write_stream ::
  "(u32 \<Rightarrow> nat \<Rightarrow> u32) \<Rightarrow> 'u ft245 jtag_cable_t \<Rightarrow> u32 list \<Rightarrow> int \<Rightarrow> bool \<Rightarrow> 'u ft245 op" where
  "usbblaster_ftdi_write_stream shr c stream len_bits set_last_bit s =
     (if len_bits \<le> 0 then None
      else do { (e, index, s) \<leftarrow> write_stream_loop shr c stream (nat (len_bits - 1)) (0, 0) s;
                w \<leftarrow> word_at stream index;
                let out = ucast (shr w (nat (len_bits - 1)) AND 1);
                let out = (if set_last_bit then out OR TMS else out);
                (e', s) \<leftarrow> cable_write_bit c out s;
                Some (e OR e', s) })"

definition usbblaster_ftdi_read_stream ::
  "(u32 \<Rightarrow> nat \<Rightarrow> u32) \<Rightarrow> 'u ft245 jtag_cable_t \<Rightarrow> u32 list \<Rightarrow> u32 list \<Rightarrow> int \<Rightarrow> bool
     \<Rightarrow> 'u ft245 \<Rightarrow> (u32 \<times> u32 list \<times> 'u ft245) option" where
  "usbblaster_ftdi_read_stream shr c outstream instream len_bits set_last_bit s =
     (if len_bits \<le> 0 then None
      else do { ins \<leftarrow> put_at instream 0 0;
                (e, (index, b), ins, s) \<leftarrow> read_stream_loop shr c outstream ins (nat (len_bits - 1)) (0, 0) s;
                w \<leftarrow> word_at outstream index;
                let outval = ucast (shr w (nat (len_bits - 1)) AND 1);
                let outval = (if set_last_bit then outval OR TMS else outval);
                (e', inval, s) \<leftarrow> cable_read_write_bit c outval s;
                v \<leftarrow> word_at ins index;
                ins \<leftarrow> put_at ins index (v OR push_bit b (ucast inval));
                Some (e OR e', ins, s) })"

subsection \<open>The box\<close>

locale ftdi_box =
  fixes lib :: "'u libftdi"
    and bdev :: "'u \<Rightarrow> 'd" and btck :: "'u \<Rightarrow> bool" and fifo :: "'u \<Rightarrow> u8 list"
    and pin_step :: "bool \<Rightarrow> bool \<Rightarrow> 'd \<Rightarrow> 'd" and tdo :: "'d \<Rightarrow> bool"
  assumes box_pins: "fifo u = [] \<Longrightarrow> \<not> bit b 7 \<Longrightarrow> bit b 5 \<Longrightarrow>
       \<exists>u'. lf_write_data lib [b] u = (1, u') \<and> btck u' = bit b 0
         \<and> bdev u' = (if \<not> btck u \<and> bit b 0 then pin_step (bit b 1) (bit b 4) (bdev u) else bdev u)
         \<and> fifo u' = (if bit b 6 then [of_bool (tdo (bdev u))] else [])"
    and box_shift: "fifo u = [] \<Longrightarrow> \<not> btck u \<Longrightarrow> bit b 7 \<Longrightarrow> unat (b AND 0x3F) = length bs \<Longrightarrow>
       \<exists>u'. lf_write_data lib (b # bs) u = (int (length bs) + 1, u') \<and> \<not> btck u'
         \<and> bdev u' = fold (pin_step False) (byte_bits bs) (bdev u)
         \<and> fifo u' = (if bit b 6 then bytes_of_bits (tdo_trace (\<lambda>p. pin_step False (bit p 0)) tdo (map of_bool (byte_bits bs)) (bdev u))
                       else [])"
    and box_read: "fifo u \<noteq> [] \<Longrightarrow> length (fifo u) \<le> k \<Longrightarrow>
       \<exists>u'. lf_read_data lib k u = ((int (length (fifo u)), fifo u), u')
         \<and> btck u' = btck u \<and> bdev u' = bdev u \<and> fifo u' = []"
begin

definition ok :: "'u ft245 \<Rightarrow> bool" where
  "ok s \<longleftrightarrow> fifo (ft_bus s) = [] \<and> length (ft_in s) = 64"

definition ready :: "'u ft245 \<Rightarrow> bool" where
  "ready s \<longleftrightarrow> ok s \<and> \<not> btck (ft_bus s)"

abbreviation "dev s \<equiv> bdev (ft_bus s)"
abbreviation "pstep \<equiv> packet_step (\<lambda>_. pin_step)"

lemma bit_pins:
  "\<not> bit (ftdi_pins a b c) 7" "bit (ftdi_pins a b c) 5" "bit (ftdi_pins a b c) 0 = a"
  "bit (ftdi_pins a b c) (Suc 0) = b" "bit (ftdi_pins a b c) 4 = c" "\<not> bit (ftdi_pins a b c) 6"
  by (simp_all add: ftdi_pins_def FTDI_OTHERS_def usbblaster_consts bit_or_iff)

lemma bit_read_pins:
  "\<not> bit (ftdi_pins a b c OR USBBLASTER_CMD_READ) 7" "bit (ftdi_pins a b c OR USBBLASTER_CMD_READ) 5"
  "bit (ftdi_pins a b c OR USBBLASTER_CMD_READ) 0 = a" "bit (ftdi_pins a b c OR USBBLASTER_CMD_READ) (Suc 0) = b"
  "bit (ftdi_pins a b c OR USBBLASTER_CMD_READ) 4 = c" "bit (ftdi_pins a b c OR USBBLASTER_CMD_READ) 6"
  by (simp_all add: bit_pins USBBLASTER_CMD_READ_def bit_or_iff)

lemma pin_bits: "v AND TCLK_BIT \<noteq> 0 \<longleftrightarrow> bit v 0" "v AND TMS_BIT \<noteq> 0 \<longleftrightarrow> bit v 3" "v AND TDI_BIT \<noteq> 0 \<longleftrightarrow> bit v 2"
  by (simp_all add: pin_defs)

lemma out_ok:
  assumes "ok s"
  shows "\<exists>s'. cable_ft245_out lib v s = Some (0, s') \<and> ok s' \<and> btck (ft_bus s') = bit v 0
    \<and> dev s' = (if \<not> btck (ft_bus s) \<and> bit v 0 then pin_step (bit v 3) (bit v 2) (dev s) else dev s)"
  using box_pins [of "ft_bus s" "ftdi_pins (bit v 0) (bit v 3) (bit v 2)"] assms
  by (auto simp: cable_ft245_out_def usb_blaster_write_def usb_blaster_buf_write_def on_ftdi_def ok_def bit_pins pin_bits)

lemma buf_read_ok:
  assumes "fifo (ft_bus s) \<noteq> []" "length (fifo (ft_bus s)) = n" "n \<le> length bf"
  shows "\<exists>s'. usb_blaster_buf_read lib n bf s = Some ((0, n, fifo (ft_bus s) @ drop n bf), s')
    \<and> fifo (ft_bus s') = [] \<and> btck (ft_bus s') = btck (ft_bus s) \<and> dev s' = dev s \<and> ft_in s' = ft_in s"
proof -
  obtain u' where "lf_read_data lib n (ft_bus s) = ((int n, fifo (ft_bus s)), u')" "btck u' = btck (ft_bus s)"
    "bdev u' = dev s" "fifo u' = []"
    using box_read [of "ft_bus s" n] assms by auto
  moreover have "0 < n" using assms(1,2) by auto
  ultimately show ?thesis
    using assms by (auto simp: usb_blaster_buf_read_def on_ftdi_def numeral_eq_Suc)
qed

lemma inout_ok:
  assumes "ok s"
  shows "\<exists>s'. cable_ft245_inout lib v s = Some (0, of_bool (tdo (dev s)), s') \<and> ok s' \<and> btck (ft_bus s') = bit v 0
    \<and> dev s' = (if \<not> btck (ft_bus s) \<and> bit v 0 then pin_step (bit v 3) (bit v 2) (dev s) else dev s)"
proof -
  let ?b = "ftdi_pins (bit v 0) (bit v 3) (bit v 2) OR USBBLASTER_CMD_READ"
  obtain u1 where u1: "lf_write_data lib [?b] (ft_bus s) = (1, u1)" "btck u1 = bit v 0" "fifo u1 = [of_bool (tdo (dev s))]"
    "bdev u1 = (if \<not> btck (ft_bus s) \<and> bit v 0 then pin_step (bit v 3) (bit v 2) (dev s) else dev s)"
    using box_pins [of "ft_bus s" ?b] assms by (auto simp: ok_def bit_pins bit_read_pins)
  let ?s1 = "s\<lparr>ft_bus := u1\<rparr>"
  obtain s2 where s2: "usb_blaster_buf_read lib 1 [?b] ?s1 = Some ((0, 1, [of_bool (tdo (dev s))]), s2)"
    "fifo (ft_bus s2) = []" "btck (ft_bus s2) = btck u1" "dev s2 = bdev u1" "ft_in s2 = ft_in s"
    using buf_read_ok [of ?s1 1 "[?b]"] u1(3) by auto
  have "(of_bool (tdo (dev s)) :: u8) AND 1 = of_bool (tdo (dev s))" by simp
  with u1 s2 assms show ?thesis
    by (auto simp: cable_ft245_inout_def usb_blaster_write_read_def usb_blaster_buf_write_def on_ftdi_def ok_def pin_bits Let_def)
qed

lemma shift_step: "fold (pin_step False) bs d = fold pstep (map of_bool bs) d"
  by (induction bs arbitrary: d) (simp_all add: packet_step_def)

lemma shift_trace:
  "tdo_trace (\<lambda>p. pin_step False (bit p 0)) tdo (map of_bool bs) d = tdo_trace pstep tdo (map of_bool bs) d"
  by (induction bs arbitrary: d) (simp_all add: packet_step_def)

lemma send_ok:
  assumes "ready s" "bs \<noteq> []" "length bs \<le> 63"
  shows "\<exists>s'. pk_send (ft245_port lib) ((USBBLASTER_CMD_BYTESHIFT OR (of_nat (length bs) AND 0x3F)) # bs) s = (True, s')
     \<and> ready s' \<and> dev s' = fold pstep (map of_bool (byte_bits bs)) (dev s)"
  using box_shift [of "ft_bus s" "USBBLASTER_CMD_BYTESHIFT OR (of_nat (length bs) AND 0x3F)" bs] assms(1) shift_cmd [OF assms(3)]
  by (auto simp: ft245_port_def usb_blaster_buf_write_def on_ftdi_def ready_def ok_def shift_step)

lemma get_ok:
  assumes "ready s" "bs \<noteq> []" "length bs \<le> 62"
    and store: "store_received t 0 (bytes_of_bits (tdo_trace pstep tdo (map of_bool (byte_bits bs)) (dev s))) ins = Some ins'"
  shows "\<exists>s1 s'. pk_send (ft245_port lib) ((USBBLASTER_CMD_BYTESHIFT OR USBBLASTER_CMD_READ OR (of_nat (length bs) AND 0x3F)) # bs) s = (True, s1)
     \<and> pk_get (ft245_port lib) (length bs) t ins s1 = Some (Some (t + of_nat (length bs), ins'), s') \<and> ready s'
     \<and> dev s' = fold pstep (map of_bool (byte_bits bs)) (dev s)"
proof -
  let ?cmd = "USBBLASTER_CMD_BYTESHIFT OR USBBLASTER_CMD_READ OR (of_nat (length bs) AND 0x3F)"
  have n: "length bs \<le> 63" and pos: "0 < length bs" using assms(2,3) by simp_all
  obtain u1 where u1: "lf_write_data lib (?cmd # bs) (ft_bus s) = (int (length bs) + 1, u1)" "\<not> btck u1"
    "fifo u1 = bytes_of_bits (tdo_trace pstep tdo (map of_bool (byte_bits bs)) (dev s))"
    "bdev u1 = fold pstep (map of_bool (byte_bits bs)) (dev s)"
    using box_shift [of "ft_bus s" ?cmd bs] assms(1) shift_cmd [OF n] by (auto simp: ready_def ok_def shift_trace shift_step)
  let ?s1 = "s\<lparr>ft_bus := u1\<rparr>"
  have len: "length (fifo u1) = length bs" by (simp add: u1(3))
  then have ne: "fifo u1 \<noteq> []" using pos by fastforce
  obtain s2 where s2: "usb_blaster_buf_read lib (length bs) (ft_in s) ?s1 = Some ((0, length bs, fifo u1 @ drop (length bs) (ft_in s)), s2)"
    "fifo (ft_bus s2) = []" "btck (ft_bus s2) = btck u1" "dev s2 = bdev u1"
    using buf_read_ok [of ?s1 "length bs" "ft_in s"] ne len assms(1,3) by (auto simp: ready_def ok_def)
  let ?s2 = "s2\<lparr>ft_in := fifo u1 @ drop (length bs) (ft_in s)\<rparr>"
  have "ft245_read_packet lib (length bs) 0 0 t ins ?s1 = Some (Some (t + of_nat (length bs), ins'), ?s2)"
    using s2(1) pos len store by (subst ft245_read_packet.simps) (simp add: u1(3) Let_def)
  moreover have "ready ?s2" using s2 u1(2) len assms(1,3) by (simp add: ready_def ok_def)
  ultimately show ?thesis
    using u1(1,4) s2(4) by (auto simp: ft245_port_def usb_blaster_buf_write_def on_ftdi_def)
qed

end

lemmas ft245_wired = common_routines_wired [OF ft245_base_def]

sublocale ftdi_box \<subseteq> packets: packet_cable "ft245_base x86_shr j lib" "\<lambda>s. bdev (ft_bus s)"
    "\<lambda>s. btck (ft_bus s)" ok "\<lambda>_. pin_step" tdo x86_shr "ft245_port lib" ready for j
proof unfold_locales
  fix s assume s: "ok s"
  show "\<exists>s'. pk_lower (ft245_port lib) s = Some (0, s') \<and> ready s' \<and> dev s' = dev s"
    using out_ok [OF s, of 0] by (auto simp: ft245_port_def ready_def)
next
  fix s assume "ready s"
  then show "pk_open (ft245_port lib) s = Some (0, s)"
    "ok (pk_low (ft245_port lib) s) \<and> dev (pk_low (ft245_port lib) s) = dev s"
    by (simp_all add: ft245_port_def ready_def APP_ERR_NONE_def)
qed (use out_ok inout_ok send_ok get_ok in \<open>simp_all add: ft245_wired x86_shr_small x86_shr_wraps [symmetric]\<close>)

context ftdi_box
begin

lemma driver_streams:
  "stream_out_func (ft245_cable_driver x86_shr j lib) =
     packet_write_stream (ft245_port lib) x86_shr (ft245_base x86_shr j lib)"
  "stream_inout_func (ft245_cable_driver x86_shr j lib) =
     packet_read_stream (ft245_port lib) x86_shr (ft245_base x86_shr j lib)"
  by (simp_all add: ft245_cable_driver_def Let_def cable_ft245_write_stream_def cable_ft245_read_stream_def)

lemmas driver_write = packets.packet_write [folded driver_streams]
lemmas driver_read = packets.packet_read [folded driver_streams]

end

subsection \<open>The box on a device\<close>

definition ftdi_read :: "nat \<Rightarrow> 'd blaster \<Rightarrow> (int \<times> u8 list) \<times> 'd blaster" where
  "ftdi_read k x =
     (let bs = take k (bl_fifo x) in ((int (length bs), bs), x\<lparr>bl_fifo := drop k (bl_fifo x)\<rparr>))"

definition ftdi_lib :: "(bool \<Rightarrow> bool \<Rightarrow> 'd \<Rightarrow> 'd) \<Rightarrow> ('d \<Rightarrow> bool) \<Rightarrow> 'd blaster libftdi" where
  "ftdi_lib step tdo =
     \<lparr>lf_init = (\<lambda>x. (0, x)), lf_usb_open = (\<lambda>_ _ x. (0, x)), lf_usb_reset = (\<lambda>x. (0, x)),
      lf_set_latency_timer = (\<lambda>_ x. (0, x)), lf_get_latency_timer = (\<lambda>x. (0, x)), lf_disable_bitbang = (\<lambda>x. x),
      lf_set_baudrate = (\<lambda>_ x. (0, x)), lf_write_data = blaster_write step tdo, lf_read_data = ftdi_read\<rparr>"

interpretation ftdi_tap: ftdi_box "ftdi_lib (tck_cycle False) tdo_mux_out" bl_dev bl_tck bl_fifo
    "tck_cycle False" tdo_mux_out
  by unfold_locales (auto simp: ftdi_lib_def ftdi_read_def Let_def)

lemma buf_read_fails:
  "lf_read_data lib k (ft_bus s) = ((rv, bs), u) \<Longrightarrow> rv < 0 \<Longrightarrow> 0 < k \<Longrightarrow>
     usb_blaster_buf_read lib k bf s = Some ((-1, 0, bf), s\<lparr>ft_bus := u\<rparr>)"
  by (simp add: usb_blaster_buf_read_def on_ftdi_def numeral_eq_Suc)

lemma read_pins_clock: "(ftdi_pins a b c OR USBBLASTER_CMD_READ) AND 1 = of_bool a"
  by (cases a; cases b; cases c) (simp_all add: ftdi_pins_def FTDI_OTHERS_def usbblaster_consts USBBLASTER_CMD_READ_def)

text \<open>
  The driver over libftdi does not notice a cable that is unplugged: when every write and every read
  fails, a bit read through it still succeeds, and its value is one, whatever is sent. The errors of the
  bytes are dropped on the way to the pins, and the bit that is given back is the clock bit of the byte
  that was to be sent.
\<close>

lemma ft245_unplugged_unnoticed:
  assumes "\<And>b u. fst (lf_write_data lib b u) < 0" and "\<And>k u. fst (fst (lf_read_data lib k u)) < 0"
  shows "\<exists>s'. bit_inout_func (ft245_cable_driver x86_shr j lib) p s = Some (0, 1, s')"
proof -
  have inout: "\<exists>s'. cable_ft245_inout lib v s = Some (0, of_bool (v AND TCLK_BIT \<noteq> 0), s')" for v s
  proof -
    let ?b = "ftdi_pins (v AND TCLK_BIT \<noteq> 0) (v AND TMS_BIT \<noteq> 0) (v AND TDI_BIT \<noteq> 0) OR USBBLASTER_CMD_READ"
    obtain rv u1 where w: "lf_write_data lib [?b] (ft_bus s) = (rv, u1)" by fastforce
    obtain rv2 bs u2 where r: "lf_read_data lib 1 u1 = ((rv2, bs), u2)" by (metis prod.collapse)
    have neg: "rv2 < 0" using assms(2) [of 1 u1] r by simp
    have "usb_blaster_buf_read lib 1 [?b] (s\<lparr>ft_bus := u1\<rparr>) = Some ((-1, 0, [?b]), s\<lparr>ft_bus := u2\<rparr>)"
      using buf_read_fails [of lib 1 "s\<lparr>ft_bus := u1\<rparr>" rv2 bs u2] r neg by simp
    with w show ?thesis
      by (simp add: cable_ft245_inout_def usb_blaster_write_read_def usb_blaster_buf_write_def on_ftdi_def
          read_pins_clock Let_def)
  qed
  have clk: "(packet_pins p OR TCLK_BIT) AND TCLK_BIT \<noteq> 0" by (simp add: TCLK_BIT_def bit_or_iff)
  obtain s' where "cable_ft245_inout lib (packet_pins p OR TCLK_BIT)
      (usb_blaster_write lib (packet_pins p AND TCLK_BIT \<noteq> 0) (packet_pins p AND TMS_BIT \<noteq> 0) (packet_pins p AND TDI_BIT \<noteq> 0) s)
      = Some (0, 1, s')"
    using inout [of "packet_pins p OR TCLK_BIT"] unfolding eqTrueI [OF clk] of_bool_eq by blast
  then show ?thesis
    by (simp add: ft245_cable_driver_def Let_def ft245_wired cable_common_read_write_bit_def cable_ft245_out_def)
qed

definition ftdi_unplugged :: "unit libftdi" where
  "ftdi_unplugged =
     \<lparr>lf_init = (\<lambda>x. (0, x)), lf_usb_open = (\<lambda>_ _ x. (-3, x)), lf_usb_reset = (\<lambda>x. (-1, x)),
      lf_set_latency_timer = (\<lambda>_ x. (-1, x)), lf_get_latency_timer = (\<lambda>x. (-1, x)), lf_disable_bitbang = (\<lambda>x. x),
      lf_set_baudrate = (\<lambda>_ x. (-1, x)), lf_write_data = (\<lambda>_ x. (-1, x)), lf_read_data = (\<lambda>_ x. ((-1, []), x))\<rparr>"

lemma ft245_unplugged_unnoticed_witness:
  "\<exists>s'. bit_inout_func (ft245_cable_driver x86_shr 0 ftdi_unplugged) 0 (ft245_start ()) = Some (0, 1, s')"
  by (rule ft245_unplugged_unnoticed) (simp_all add: ftdi_unplugged_def)

end
