(* ===== verification/Cable_Sim.thy ===== *)
theory Cable_Sim
  imports Cable_Parallel Rsp_Codec C_Strings
begin

unbundle bit_operations_syntax

text \<open>
  cable_sim.c: the two drivers for simulated hardware. One talks to the VPI plugin of the simulator over a
  socket, the other one to a simulation over two files. The calls of the operating system are the record
  \<open>sim_os\<close> over the state \<open>'w\<close> of the world; \<open>None\<close> is a read that blocks for ever, a loop that does not
  end, or a null pointer that is used. Sleeping and messages have no counterpart.
\<close>

subsection \<open>The operating system\<close>

text \<open>
  \<open>so_host\<close> is whether the name of the server is known. \<open>so_recv\<close> blocks; it gives back its result and the
  byte it has put into the buffer. \<open>so_write\<close> replaces the contents of a file, and \<open>so_read\<close> gives them;
  both fail if the file can not be opened.
\<close>

record 'w sim_os =
  so_socket :: "'w \<Rightarrow> int \<times> 'w"
  so_host :: "string \<Rightarrow> 'w \<Rightarrow> bool \<times> 'w"
  so_connect :: "string \<Rightarrow> u16 \<Rightarrow> 'w \<Rightarrow> int \<times> 'w"
  so_send :: "u8 \<Rightarrow> 'w \<Rightarrow> int \<times> 'w"
  so_recv :: "'w \<Rightarrow> ((int \<times> u8) \<times> 'w) option"
  so_write :: "string \<Rightarrow> u8 list \<Rightarrow> 'w \<Rightarrow> bool \<times> 'w"
  so_read :: "string \<Rightarrow> 'w \<Rightarrow> u8 list option \<times> 'w"
  so_malloc :: "nat \<Rightarrow> 'w \<Rightarrow> bool \<times> 'w"

text \<open>\<open>None\<close> as the name of a file or of the server is a null or dangling pointer.\<close>

record 'w sim_cable =
  sc_world :: 'w
  vpi_port :: int
  vpi_server :: "string option"
  gdb_in :: "string option"
  gdb_out :: "string option"

definition sim_cable_start :: "'w \<Rightarrow> 'w sim_cable" where
  "sim_cable_start w =
     \<lparr>sc_world = w, vpi_port = 4567, vpi_server = Some ''localhost'',
      gdb_in = Some ''gdb_in.dat'', gdb_out = Some ''gdb_out.dat''\<rparr>"

definition in_world :: "('w \<Rightarrow> 'a \<times> 'w) \<Rightarrow> 'w sim_cable \<Rightarrow> 'a \<times> 'w sim_cable" where
  "in_world f s = (let (x, w) = f (sc_world s) in (x, s\<lparr>sc_world := w\<rparr>))"

definition sim_recv :: "'w sim_os \<Rightarrow> 'w sim_cable \<Rightarrow> ((int \<times> u8) \<times> 'w sim_cable) option" where
  "sim_recv os s = do { (x, w) \<leftarrow> so_recv os (sc_world s); Some (x, s\<lparr>sc_world := w\<rparr>) }"

subsection \<open>VPI\<close>

definition cable_vpi_init :: "'w sim_os \<Rightarrow> 'w sim_cable op" where
  "cable_vpi_init os s =
     (let (fd, s) = in_world (so_socket os) s in
      if fd < 0 then Some (APP_ERR_CONNECT, s)
      else
        do { server \<leftarrow> vpi_server s;
             let (known, s) = in_world (so_host os server) s;
             (if \<not> known then Some (APP_ERR_CONNECT, s)
              else
                (let (rv, s) = in_world (so_connect os server (of_int (vpi_port s))) s in
                 Some (if rv = -1 then APP_ERR_CONNECT else APP_ERR_NONE, s))) })"

text \<open>At the end of the connection nothing is received, and \<open>ack\<close> keeps its value.\<close>

partial_function (option) await_ack :: "'w sim_os \<Rightarrow> u8 \<Rightarrow> u8 \<Rightarrow> 'w sim_cable \<Rightarrow> (bool \<times> 'w sim_cable) option" where
  "await_ack os wanted ack s =
     do { ((ret, b), s) \<leftarrow> sim_recv os s;
          (if ret < 0 then Some (False, s)
           else (let ack = (if ret = 0 then ack else b) in
                 if ack \<noteq> wanted then await_ack os wanted ack s else Some (True, s))) }"

declare await_ack.simps [code]

definition cable_vpi_wait :: "'w sim_os \<Rightarrow> 'w sim_cable \<Rightarrow> 'w sim_cable option" where
  "cable_vpi_wait os s =
     (let (_, s) = in_world (so_send os 0x81) s in do { (_, s) \<leftarrow> sim_recv os s; Some s })"

text \<open>\<open>j\<close>: the value of \<open>ack\<close> before anything has been received.\<close>

definition cable_vpi_out :: "'w sim_os \<Rightarrow> u8 \<Rightarrow> u8 \<Rightarrow> 'w sim_cable op" where
  "cable_vpi_out os j value s =
     (let (_, s) = in_world (so_send os value) s in
      do { (received, s) \<leftarrow> await_ack os (value OR 0x10) j s;
           (if \<not> received then Some (APP_ERR_CONNECT, s)
            else do { s \<leftarrow> cable_vpi_wait os s; Some (APP_ERR_NONE, s) }) })"

definition cable_vpi_inout :: "'w sim_os \<Rightarrow> u8 \<Rightarrow> u8 \<Rightarrow> 'w sim_cable \<Rightarrow> (u32 \<times> u8 \<times> 'w sim_cable) option" where
  "cable_vpi_inout os j value s =
     (let (_, s) = in_world (so_send os 0x80) s in
      do { ((ret, b), s) \<leftarrow> sim_recv os s;
           let dat = (if ret > 0 then b else 0x80);
           (_, s) \<leftarrow> cable_vpi_out os j value s;
           s \<leftarrow> cable_vpi_wait os s;
           Some (APP_ERR_NONE, dat, s) })"

definition cable_vpi_opt :: "'w sim_os \<Rightarrow> int \<Rightarrow> string \<Rightarrow> 'w sim_cable op" where
  "cable_vpi_opt os c arg s =
     (if c = int (of_char CHR ''p'') then
        (let v = sint (of_int (fst (strtol10 (str arg))) :: u32); s = s\<lparr>vpi_port := v\<rparr> in
         Some (if v = 0 then APP_ERR_BAD_PARAM else APP_ERR_NONE, s))
      else if c = int (of_char CHR ''s'') then
        (let (got, s) = in_world (so_malloc os (length arg + 1)) s in
         if \<not> got then Some (APP_ERR_MALLOC, s\<lparr>vpi_server := None\<rparr>)
         else Some (APP_ERR_NONE, s\<lparr>vpi_server := Some arg\<rparr>))
      else Some (APP_ERR_BAD_PARAM, s))"

definition vpi_cable_driver :: "(u32 \<Rightarrow> nat \<Rightarrow> u32) \<Rightarrow> u8 \<Rightarrow> 'w sim_os \<Rightarrow> 'w sim_cable jtag_cable_t" where
  "vpi_cable_driver shr j os = with_common_routines shr
     \<lparr>name = ''vpi'', inout_func = cable_vpi_inout os j, out_func = cable_vpi_out os j,
      init_func = cable_vpi_init os, opt_func = cable_vpi_opt os,
      bit_out_func = (\<lambda>_ _. None), bit_inout_func = (\<lambda>_ _. None),
      stream_out_func = (\<lambda>_ _ _ _. None), stream_inout_func = (\<lambda>_ _ _ _ _. None),
      flush_func = None, opts = Some ''s:p:'',
      help_text = Some (''-p [port] Port number that the VPI module is listening on'' @ [CHR 0x0A, CHR 0x09]
        @ ''-s [server] Server that the VPI module is running on'' @ [CHR 0x0A])\<rparr>"

subsection \<open>Files\<close>

definition cable_rtl_sim_init :: "'w sim_os \<Rightarrow> 'w sim_cable op" where
  "cable_rtl_sim_init os s =
     do { file \<leftarrow> gdb_in s;
          let (ok, s) = in_world (so_write os file []) s;
          Some (if ok then APP_ERR_NONE else APP_ERR_INIT_FAILED, s) }"

text \<open>\<open>%02X\<close> of a byte, and a newline.\<close>

definition hex_line :: "u8 \<Rightarrow> u8 list" where
  "hex_line v = str [(''0123456789ABCDEF'' :: string) ! (unat v div 16), ''0123456789ABCDEF'' ! (unat v mod 16), CHR 0x0A]"

text \<open>
  \<open>num\<close> is \<open>num_read\<close>; an empty file gives \<open>EOF\<close>, which is not zero, and leaves it.
\<close>

partial_function (option) await_file_ack :: "'w sim_os \<Rightarrow> string \<Rightarrow> u32 \<Rightarrow> u32 \<Rightarrow> 'w sim_cable \<Rightarrow> 'w sim_cable option" where
  "await_file_ack os file wanted num s =
     (let (contents, s) = in_world (so_read os file) s in
      do { text \<leftarrow> contents;
           let (r, num) = (if skip_space text = [] then (-1, num)
             else case scan_hex text of None \<Rightarrow> (0 :: int, num) | Some (v, _) \<Rightarrow> (1, v));
           (if r = 0 \<or> num \<noteq> wanted then await_file_ack os file wanted num s else Some s) })"

declare await_file_ack.simps [code]

definition write_file :: "'w sim_os \<Rightarrow> string option \<Rightarrow> u8 list \<Rightarrow> 'w sim_cable \<Rightarrow> 'w sim_cable option" where
  "write_file os file text s =
     do { file \<leftarrow> file;
          let (ok, s) = in_world (so_write os file text) s;
          (if ok then Some s else None) }"

definition cable_rtl_sim_out :: "'w sim_os \<Rightarrow> u32 \<Rightarrow> u8 \<Rightarrow> 'w sim_cable op" where
  "cable_rtl_sim_out os j value s =
     do { s \<leftarrow> write_file os (gdb_in s) (str [CHR ''F'', CHR 0x0A]) s;
          s \<leftarrow> write_file os (gdb_out s) (hex_line value) s;
          file \<leftarrow> gdb_out s;
          s \<leftarrow> await_file_ack os file (0x10 OR ucast value) j s;
          Some (APP_ERR_NONE, s) }"

partial_function (option) await_bit :: "'w sim_os \<Rightarrow> string \<Rightarrow> 'w sim_cable \<Rightarrow> (u8 \<times> 'w sim_cable) option" where
  "await_bit os file s =
     (let (contents, s) = in_world (so_read os file) s in
      case contents of
        Some (ch # _) \<Rightarrow> if ch = 0x30 then Some (0, s) else if ch = 0x31 then Some (1, s) else await_bit os file s
      | _ \<Rightarrow> await_bit os file s)"

declare await_bit.simps [code]

definition cable_rtl_sim_inout :: "'w sim_os \<Rightarrow> u32 \<Rightarrow> u8 \<Rightarrow> 'w sim_cable \<Rightarrow> (u32 \<times> u8 \<times> 'w sim_cable) option" where
  "cable_rtl_sim_inout os j value s =
     do { file \<leftarrow> gdb_in s;
          (data, s) \<leftarrow> await_bit os file s;
          (_, s) \<leftarrow> cable_rtl_sim_out os j value s;
          Some (APP_ERR_NONE, data, s) }"

definition cable_rtl_sim_opt :: "'w sim_os \<Rightarrow> int \<Rightarrow> string \<Rightarrow> 'w sim_cable op" where
  "cable_rtl_sim_opt os c arg s =
     (if c = int (of_char CHR ''d'') then
        (let (got, s) = in_world (so_malloc os (length arg + 12)) s in
         if \<not> got then Some (APP_ERR_MALLOC, s\<lparr>gdb_in := None\<rparr>)
         else
           (let (got, s) = in_world (so_malloc os (length arg + 13)) s in
            if \<not> got then Some (APP_ERR_MALLOC, s\<lparr>gdb_in := None, gdb_out := None\<rparr>)
            else Some (APP_ERR_NONE, s\<lparr>gdb_in := Some (arg @ ''/gdb_in.dat''), gdb_out := Some (arg @ ''/gdb_out.dat'')\<rparr>)))
      else Some (APP_ERR_BAD_PARAM, s))"

definition rtl_cable_driver :: "(u32 \<Rightarrow> nat \<Rightarrow> u32) \<Rightarrow> u32 \<Rightarrow> 'w sim_os \<Rightarrow> 'w sim_cable jtag_cable_t" where
  "rtl_cable_driver shr j os = with_common_routines shr
     \<lparr>name = ''rtl_sim'', inout_func = cable_rtl_sim_inout os j, out_func = cable_rtl_sim_out os j,
      init_func = cable_rtl_sim_init os, opt_func = cable_rtl_sim_opt os,
      bit_out_func = (\<lambda>_ _. None), bit_inout_func = (\<lambda>_ _. None),
      stream_out_func = (\<lambda>_ _ _ _. None), stream_inout_func = (\<lambda>_ _ _ _ _. None),
      flush_func = None, opts = Some ''d:'',
      help_text = Some (''-d [directory] Directory in which gdb_in.dat/gdb_out.dat may be found'' @ [CHR 0x0A])\<rparr>"

end
