(* ===== verification/Sim_Library.thy ===== *)
theory Sim_Library
  imports Cable_Sim Tap_Transactions
begin

unbundle bit_operations_syntax

text \<open>
  jp-io-vpi.c: the plugin through which a Verilog simulation takes bytes from the bridge. The calls of the
  operating system are the record \<open>plugin_os\<close> over the state \<open>'w\<close> of the world; the argument of a system
  task is the value \<open>vpi_arg\<close>. Below, the module dbg_comm_vpi.v that calls the tasks, and the simulation
  as a whole, seen from the bridge: the driver over it keeps the contract of a cable.
\<close>

subsection \<open>The plugin\<close>

text \<open>Sockets do not block: \<open>None\<close> from \<open>po_recv\<close> and \<open>po_accept\<close> is an error, nothing to read or nobody there included.\<close>

record 'w plugin_os =
  po_socket :: "'w \<Rightarrow> int \<times> 'w"
  po_bind :: "u16 \<Rightarrow> 'w \<Rightarrow> int \<times> 'w"
  po_listen :: "'w \<Rightarrow> int \<times> 'w"
  po_accept :: "'w \<Rightarrow> bool \<times> 'w"
  po_recv :: "'w \<Rightarrow> u8 list option \<times> 'w"
  po_send :: "u8 \<Rightarrow> 'w \<Rightarrow> 'w"

datatype vpi_arg = NoArg | NetArg (aval: u32) (bval: u32) | RegArg | OtherArg

record jp_globals =
  vpi_out :: u8
  jp_got_con :: bool
  count_comp :: bool
  jp_waiting :: bool

definition jp_globals_init :: jp_globals where
  "jp_globals_init = \<lparr>vpi_out = 0, jp_got_con = False, count_comp = False, jp_waiting = False\<rparr>"

definition vpi_jp_out :: "vpi_arg \<Rightarrow> jp_globals \<Rightarrow> jp_globals" where
  "vpi_jp_out arg g =
     (case arg of NetArg a b \<Rightarrow> if b AND 1 \<noteq> 0 then g else g\<lparr>vpi_out := ucast (a AND 1)\<rparr> | _ \<Rightarrow> g)"

definition jp_check_con :: "'w plugin_os \<Rightarrow> jp_globals \<times> 'w \<Rightarrow> bool \<times> jp_globals \<times> 'w" where
  "jp_check_con os = (\<lambda>(g, w).
     let (accepted, w) = po_accept os w in
     if \<not> accepted then (False, g, w) else (True, g\<lparr>jp_got_con := True\<rparr>, w))"

text \<open>The value put into the argument, if one is.\<close>

definition vpi_jp_in :: "'w plugin_os \<Rightarrow> vpi_arg \<Rightarrow> jp_globals \<times> 'w \<Rightarrow> u32 option \<times> jp_globals \<times> 'w" where
  "vpi_jp_in os arg = (\<lambda>(g, w).
     let (connected, g, w) = (if \<not> jp_got_con g then jp_check_con os (g, w) else (True, g, w)) in
     if \<not> connected then (None, g, w)
     else
       (let (ret, w) = po_recv os w in
        case ret of
          Some (dat # _) \<Rightarrow>
            if dat = 0x80 then (None, g, po_send os (vpi_out g) w)
            else if dat = 0x81 then
              (if count_comp g then (None, g, po_send os 0xFF w) else (None, g\<lparr>jp_waiting := True\<rparr>, w))
            else if arg \<noteq> RegArg then (None, g, w)
            else (Some ((ucast dat AND 0xF) OR 0x10), g\<lparr>count_comp := False\<rparr>, po_send os (dat OR 0x10) w)
        | _ \<Rightarrow> (None, g, w)))"

definition jp_wait_time :: "'w plugin_os \<Rightarrow> jp_globals \<times> 'w \<Rightarrow> jp_globals \<times> 'w" where
  "jp_wait_time os = (\<lambda>(g, w).
     let (g, w) = (if jp_waiting g then (g\<lparr>jp_waiting := False\<rparr>, po_send os 0xFF w) else (g, w)) in
     (g\<lparr>count_comp := True\<rparr>, w))"

text \<open>\<open>arg\<close> is the argument as a string, if there is one.\<close>

definition init_sock :: "'w plugin_os \<Rightarrow> string option \<Rightarrow> jp_globals \<times> 'w \<Rightarrow> jp_globals \<times> 'w" where
  "init_sock os arg = (\<lambda>(g, w).
     case arg of
       None \<Rightarrow> (g, w)
     | Some p \<Rightarrow>
         (let (fd, w) = po_socket os w in
          if fd < 0 then (g, w)
          else (let (rv, w) = po_bind os (of_int (fst (strtol10 (str p)))) w in
          if rv = -1 then (g, w)
          else (let (rv, w) = po_listen os w in
          if rv = -1 then (g, w)
          else (g\<lparr>jp_got_con := False, jp_waiting := False\<rparr>, w)))))"

subsection \<open>The simulation\<close>

text \<open>
  dbg_comm_vpi.v with the device on its pins. \<open>phase\<close> counts the time units down to the next rising edge
  of SYS\_CLK. The connection is two queues of bytes.
\<close>

record sim_pipes =
  to_sim :: "u8 list"
  from_sim :: "u8 list"

record 'd sim =
  sim_pipes :: sim_pipes
  sim_plugin :: jp_globals
  sim_memory :: "5 word"
  in_word_r :: "4 word"
  clk_count :: "6 word"
  phase :: nat
  sim_dev :: 'd

definition pipe_os :: "sim_pipes plugin_os" where
  "pipe_os =
     \<lparr>po_socket = (\<lambda>w. (3, w)), po_bind = (\<lambda>_ w. (0, w)), po_listen = (\<lambda>w. (0, w)), po_accept = (\<lambda>w. (True, w)),
      po_recv = (\<lambda>w. case to_sim w of [] \<Rightarrow> (None, w) | b # bs \<Rightarrow> (Some [b], w\<lparr>to_sim := bs\<rparr>)),
      po_send = (\<lambda>b w. w\<lparr>from_sim := from_sim w @ [b]\<rparr>)\<rparr>"

text \<open>The pins take their new values; the device steps at a rising TCK, and a change of TDO is told to the plugin.\<close>

definition drive_pins ::
  "(bool \<Rightarrow> bool \<Rightarrow> bool \<Rightarrow> 'd \<Rightarrow> 'd) \<Rightarrow> ('d \<Rightarrow> bool) \<Rightarrow> 4 word \<Rightarrow> 'd sim \<Rightarrow> 'd sim" where
  "drive_pins step tdo v x =
     (let d = (if \<not> bit (in_word_r x) 0 \<and> bit v 0 then step (\<not> bit v 1) (bit v 3) (bit v 2) (sim_dev x) else sim_dev x) in
      x\<lparr>in_word_r := v, sim_dev := d,
        sim_plugin := (if tdo d \<noteq> tdo (sim_dev x) then vpi_jp_out (NetArg (of_bool (tdo d)) 0) (sim_plugin x) else sim_plugin x)\<rparr>)"

definition jp_in_pass ::
  "(bool \<Rightarrow> bool \<Rightarrow> bool \<Rightarrow> 'd \<Rightarrow> 'd) \<Rightarrow> ('d \<Rightarrow> bool) \<Rightarrow> 'd sim \<Rightarrow> 'd sim" where
  "jp_in_pass step tdo x =
     (let (put, g, w) = vpi_jp_in pipe_os RegArg (sim_plugin x, sim_pipes x);
          x = x\<lparr>sim_plugin := g, sim_pipes := w, sim_memory := (case put of Some v \<Rightarrow> ucast v | None \<Rightarrow> sim_memory x)\<rparr> in
      if bit (sim_memory x) 4 then
        (drive_pins step tdo (ucast (sim_memory x)) x)\<lparr>sim_memory := sim_memory x AND 0xF, clk_count := 0\<rparr>
      else x)"

definition sys_clk_edge :: "'d sim \<Rightarrow> 'd sim" where
  "sys_clk_edge x =
     (if clk_count x < 20 then x\<lparr>clk_count := clk_count x + 1\<rparr>
      else if clk_count x = 20 then
        (let (g, w) = jp_wait_time pipe_os (sim_plugin x, sim_pipes x) in
         x\<lparr>sim_plugin := g, sim_pipes := w, clk_count := clk_count x + 1\<rparr>)
      else x)"

text \<open>One time unit.\<close>

definition sim_unit ::
  "(bool \<Rightarrow> bool \<Rightarrow> bool \<Rightarrow> 'd \<Rightarrow> 'd) \<Rightarrow> ('d \<Rightarrow> bool) \<Rightarrow> 'd sim \<Rightarrow> 'd sim" where
  "sim_unit step tdo x =
     (let x = jp_in_pass step tdo x in
      case phase x of 0 \<Rightarrow> (sys_clk_edge x)\<lparr>phase := 9\<rparr> | Suc n \<Rightarrow> x\<lparr>phase := n\<rparr>)"

text \<open>
  The simulation when it first looks for bytes, after 5500 units: the port has been opened, and the first
  value of TDO was a change.
\<close>

definition sim_start :: "('d \<Rightarrow> bool) \<Rightarrow> 'd \<Rightarrow> 'd sim" where
  "sim_start tdo d =
     (let (g, w) = init_sock pipe_os (Some ''4567'') (jp_globals_init, \<lparr>to_sim = [], from_sim = []\<rparr>) in
      \<lparr>sim_pipes = w, sim_plugin = vpi_jp_out (NetArg (of_bool (tdo d)) 0) g, sim_memory = 0, in_word_r = 0,
       clk_count = 21, phase = 4, sim_dev = d\<rparr>)"

text \<open>A byte of the bridge waits in the socket; the bridge waits for a byte while time passes.\<close>

partial_function (option) sim_answer ::
  "(bool \<Rightarrow> bool \<Rightarrow> bool \<Rightarrow> 'd \<Rightarrow> 'd) \<Rightarrow> ('d \<Rightarrow> bool) \<Rightarrow> 'd sim \<Rightarrow> ((int \<times> u8) \<times> 'd sim) option" where
  "sim_answer step tdo x =
     (case from_sim (sim_pipes x) of
        b # bs \<Rightarrow> Some ((1, b), x\<lparr>sim_pipes := (sim_pipes x)\<lparr>from_sim := bs\<rparr>\<rparr>)
      | [] \<Rightarrow> sim_answer step tdo (sim_unit step tdo x))"

declare sim_answer.simps [code]

definition sim_system :: "(bool \<Rightarrow> bool \<Rightarrow> bool \<Rightarrow> 'd \<Rightarrow> 'd) \<Rightarrow> ('d \<Rightarrow> bool) \<Rightarrow> 'd sim sim_os" where
  "sim_system step tdo =
     \<lparr>so_socket = (\<lambda>x. (3, x)), so_host = (\<lambda>_ x. (True, x)), so_connect = (\<lambda>_ _ x. (0, x)),
      so_send = (\<lambda>b x. (1, x\<lparr>sim_pipes := (sim_pipes x)\<lparr>to_sim := to_sim (sim_pipes x) @ [b]\<rparr>\<rparr>)),
      so_recv = sim_answer step tdo,
      so_write = (\<lambda>_ _ x. (False, x)), so_read = (\<lambda>_ x. (None, x)), so_malloc = (\<lambda>_ x. (True, x))\<rparr>"

subsection \<open>What the simulation answers\<close>

definition sim_ok :: "('d \<Rightarrow> bool) \<Rightarrow> 'd sim \<Rightarrow> bool" where
  "sim_ok tdo x \<longleftrightarrow> to_sim (sim_pipes x) = [] \<and> from_sim (sim_pipes x) = [] \<and> jp_got_con (sim_plugin x)
     \<and> \<not> jp_waiting (sim_plugin x) \<and> vpi_out (sim_plugin x) = of_bool (tdo (sim_dev x))
     \<and> \<not> bit (sim_memory x) 4 \<and> phase x \<le> 9"

text \<open>Half a period of TCK has passed, or is being counted.\<close>

definition timed :: "'d sim \<Rightarrow> bool" where
  "timed x \<longleftrightarrow> count_comp (sim_plugin x) \<or> clk_count x \<le> 20"

text \<open>Only the clock may differ.\<close>

definition ticked :: "'d sim \<Rightarrow> 'd sim \<Rightarrow> bool" where
  "ticked x y \<longleftrightarrow> sim_pipes y = sim_pipes x \<and> vpi_out (sim_plugin y) = vpi_out (sim_plugin x)
     \<and> jp_got_con (sim_plugin y) = jp_got_con (sim_plugin x) \<and> jp_waiting (sim_plugin y) = jp_waiting (sim_plugin x)
     \<and> sim_memory y = sim_memory x \<and> in_word_r y = in_word_r x \<and> sim_dev y = sim_dev x"

lemma jp_in_nothing:
  "to_sim (sim_pipes x) = [] \<Longrightarrow> jp_got_con (sim_plugin x) \<Longrightarrow> \<not> bit (sim_memory x) 4 \<Longrightarrow> jp_in_pass step tdo x = x"
  by (simp add: jp_in_pass_def vpi_jp_in_def pipe_os_def)

lemma count_up: "(c :: 6 word) < 20 \<Longrightarrow> c + 1 \<le> 20" "(c :: 6 word) < 20 \<Longrightarrow> unat (c + 1) = Suc (unat c)"
proof -
  assume "c < 20"
  then have "unat c < 20" by (simp add: word_less_nat_alt)
  then show "unat (c + 1) = Suc (unat c)" by (simp add: unat_word_ariths)
  then show "c + 1 \<le> 20" using \<open>unat c < 20\<close> by (simp add: word_le_nat_alt)
qed

text \<open>A client that connects is accepted within the first unit, and the simulation is then ready for it.\<close>

lemma sim_start_ok: "sim_ok tdo (sim_unit step tdo (sim_start tdo d))" "sim_dev (sim_unit step tdo (sim_start tdo d)) = d"
  by (simp_all add: sim_unit_def jp_in_pass_def vpi_jp_in_def jp_check_con_def sim_start_def init_sock_def pipe_os_def
      jp_globals_init_def vpi_jp_out_def sim_ok_def Let_def split_beta split: if_splits)

text \<open>The rest of a time unit, when nobody waits for the half period.\<close>

lemma rest_of_unit:
  assumes "jp_in_pass step tdo x = y" "\<not> jp_waiting (sim_plugin y)" "phase y \<le> 9"
  shows "ticked y (sim_unit step tdo x)" "phase (sim_unit step tdo x) \<le> 9" "timed y \<Longrightarrow> timed (sim_unit step tdo x)"
proof -
  have "ticked y (sim_unit step tdo x) \<and> phase (sim_unit step tdo x) \<le> 9 \<and> (timed y \<longrightarrow> timed (sim_unit step tdo x))"
  proof (cases "phase y")
    case 0
    then show ?thesis using assms count_up(1) [of "clk_count y"]
      by (auto simp: sim_unit_def sys_clk_edge_def jp_wait_time_def timed_def ticked_def Let_def)
  next
    case (Suc n)
    then show ?thesis using assms by (auto simp: sim_unit_def timed_def ticked_def Let_def)
  qed
  then show "ticked y (sim_unit step tdo x)" "phase (sim_unit step tdo x) \<le> 9" "timed y \<Longrightarrow> timed (sim_unit step tdo x)"
    by blast+
qed

lemma sim_answer_waits: "from_sim (sim_pipes x) = [] \<Longrightarrow> sim_answer step tdo x = sim_answer step tdo (sim_unit step tdo x)"
  by (subst sim_answer.simps) simp

lemma sim_answer_there:
  "from_sim (sim_pipes x) = b # bs \<Longrightarrow>
     sim_answer step tdo x = Some ((1, b), x\<lparr>sim_pipes := (sim_pipes x)\<lparr>from_sim := bs\<rparr>\<rparr>)"
  by (subst sim_answer.simps) simp

abbreviation send_byte :: "u8 \<Rightarrow> 'd sim \<Rightarrow> 'd sim" where
  "send_byte b x \<equiv> x\<lparr>sim_pipes := (sim_pipes x)\<lparr>to_sim := to_sim (sim_pipes x) @ [b]\<rparr>\<rparr>"

text \<open>Asked for TDO, the plugin answers with it.\<close>

lemma tdo_answer:
  assumes "sim_ok tdo x"
  shows "\<exists>y. sim_answer step tdo (send_byte 0x80 x) = Some ((1, of_bool (tdo (sim_dev x))), y)
     \<and> sim_ok tdo y \<and> sim_dev y = sim_dev x \<and> in_word_r y = in_word_r x"
proof -
  let ?x = "send_byte 0x80 x" and ?b = "of_bool (tdo (sim_dev x)) :: u8"
  let ?y = "x\<lparr>sim_pipes := \<lparr>to_sim = [], from_sim = [?b]\<rparr>\<rparr>"
  have pass: "jp_in_pass step tdo ?x = ?y"
    using assms by (simp add: jp_in_pass_def vpi_jp_in_def pipe_os_def sim_ok_def)
  have "\<not> jp_waiting (sim_plugin ?y)" "phase ?y \<le> 9" using assms by (simp_all add: sim_ok_def)
  note rest = rest_of_unit(1,2) [OF pass this]
  let ?z = "sim_unit step tdo ?x"
  have "sim_answer step tdo ?x = Some ((1, ?b), ?z\<lparr>sim_pipes := (sim_pipes ?z)\<lparr>from_sim := []\<rparr>\<rparr>)"
    using assms rest(1) sim_answer_there [of ?z ?b "[]"] by (subst sim_answer_waits) (auto simp: sim_ok_def ticked_def)
  then show ?thesis using assms rest by (auto simp: sim_ok_def ticked_def)
qed

text \<open>A byte with pins is acknowledged, and the pins follow it.\<close>

lemma pins_word:
  assumes "(v :: u8) < 16"
  shows "v \<noteq> 0x80" "v \<noteq> 0x81" "bit (ucast ((ucast v AND 0xF) OR 0x10 :: u32) :: 5 word) 4"
    "ucast (ucast ((ucast v AND 0xF) OR 0x10 :: u32) :: 5 word) = (ucast v :: 4 word)"
    "\<not> bit (ucast ((ucast v AND 0xF) OR 0x10 :: u32) AND 0xF :: 5 word) 4"
proof -
  have all: "\<forall>n \<in> set [0..<16]. (of_nat n :: u8) \<noteq> 0x80 \<and> (of_nat n :: u8) \<noteq> 0x81
      \<and> bit (ucast ((ucast (of_nat n :: u8) AND 0xF) OR 0x10 :: u32) :: 5 word) 4
      \<and> ucast (ucast ((ucast (of_nat n :: u8) AND 0xF) OR 0x10 :: u32) :: 5 word) = (ucast (of_nat n :: u8) :: 4 word)
      \<and> \<not> bit (ucast ((ucast (of_nat n :: u8) AND 0xF) OR 0x10 :: u32) AND 0xF :: 5 word) 4"
    by code_simp
  have "unat v \<in> set [0..<16]" using assms by (simp add: word_less_nat_alt)
  note at = bspec [OF all this]
  have "of_nat (unat v) = v" by simp
  note at = at [unfolded this]
  from at show "v \<noteq> 0x80" "v \<noteq> 0x81" "bit (ucast ((ucast v AND 0xF) OR 0x10 :: u32) :: 5 word) 4"
    "ucast (ucast ((ucast v AND 0xF) OR 0x10 :: u32) :: 5 word) = (ucast v :: 4 word)"
    "\<not> bit (ucast ((ucast v AND 0xF) OR 0x10 :: u32) AND 0xF :: 5 word) 4"
    by blast+
qed

lemma bit_pins_word: "bit (ucast (v :: u8) :: 4 word) 0 = bit v 0" "bit (ucast (v :: u8) :: 4 word) (Suc 0) = bit v (Suc 0)"
  "bit (ucast (v :: u8) :: 4 word) 2 = bit v 2" "bit (ucast (v :: u8) :: 4 word) 3 = bit v 3"
  by (simp_all add: bit_ucast_iff)

lemma jp_in_pins:
  fixes step :: "bool \<Rightarrow> bool \<Rightarrow> bool \<Rightarrow> 'd \<Rightarrow> 'd" and x :: "'d sim"
  assumes "sim_ok tdo x" "v < 16"
  defines "d \<equiv> if \<not> bit (in_word_r x) 0 \<and> bit v 0 then step (\<not> bit v 1) (bit v 3) (bit v 2) (sim_dev x) else sim_dev x"
  shows "\<exists>m. jp_in_pass step tdo (send_byte v x) =
     x\<lparr>sim_pipes := \<lparr>to_sim = [], from_sim = [v OR 0x10]\<rparr>, sim_dev := d, in_word_r := ucast v, sim_memory := m, clk_count := 0,
       sim_plugin := (sim_plugin x)\<lparr>vpi_out := of_bool (tdo d), count_comp := False\<rparr>\<rparr> \<and> \<not> bit m 4"
proof -
  let ?m = "ucast ((ucast v AND 0xF) OR 0x10 :: u32) :: 5 word"
  let ?x = "x\<lparr>sim_pipes := \<lparr>to_sim = [], from_sim = [v OR 0x10]\<rparr>, sim_plugin := (sim_plugin x)\<lparr>count_comp := False\<rparr>, sim_memory := ?m\<rparr>"
  note m = pins_word [OF assms(2)]
  have "vpi_jp_in pipe_os RegArg (sim_plugin x, (sim_pipes x)\<lparr>to_sim := to_sim (sim_pipes x) @ [v]\<rparr>) =
      (Some ((ucast v AND 0xF) OR 0x10), (sim_plugin x)\<lparr>count_comp := False\<rparr>, \<lparr>to_sim = [], from_sim = [v OR 0x10]\<rparr>)"
    using assms(1) m(1,2) by (simp add: vpi_jp_in_def pipe_os_def sim_ok_def)
  then have pass: "jp_in_pass step tdo (send_byte v x) = (drive_pins step tdo (ucast v) ?x)\<lparr>sim_memory := ?m AND 0xF, clk_count := 0\<rparr>"
    using m(3,4) by (simp add: jp_in_pass_def drive_pins_def Let_def)
  have "drive_pins step tdo (ucast v) ?x = ?x\<lparr>in_word_r := ucast v, sim_dev := d,
      sim_plugin := (sim_plugin x)\<lparr>vpi_out := of_bool (tdo d), count_comp := False\<rparr>\<rparr>"
    using assms(1) by (cases "tdo d"; cases "tdo (sim_dev x)")
      (auto simp: drive_pins_def vpi_jp_out_def bit_pins_word sim_ok_def d_def Let_def)
  with pass m(5) show ?thesis by (intro exI [of _ "?m AND 0xF"]) simp
qed

lemma pins_answer:
  assumes "sim_ok tdo x" "v < 16"
  shows "\<exists>y. sim_answer step tdo (send_byte v x) = Some ((1, v OR 0x10), y) \<and> sim_ok tdo y \<and> timed y
     \<and> in_word_r y = ucast v
     \<and> sim_dev y = (if \<not> bit (in_word_r x) 0 \<and> bit v 0 then step (\<not> bit v 1) (bit v 3) (bit v 2) (sim_dev x) else sim_dev x)"
proof -
  obtain y where y: "jp_in_pass step tdo (send_byte v x) = y" "sim_pipes y = \<lparr>to_sim = [], from_sim = [v OR 0x10]\<rparr>"
    "sim_dev y = (if \<not> bit (in_word_r x) 0 \<and> bit v 0 then step (\<not> bit v 1) (bit v 3) (bit v 2) (sim_dev x) else sim_dev x)"
    "in_word_r y = ucast v" "\<not> bit (sim_memory y) 4" "clk_count y = 0" "vpi_out (sim_plugin y) = of_bool (tdo (sim_dev y))"
    "jp_got_con (sim_plugin y)" "\<not> jp_waiting (sim_plugin y)" "phase y \<le> 9"
    using jp_in_pins [OF assms, of step] assms(1) by (auto simp: sim_ok_def simp del: One_nat_def)
  have "timed y" by (simp add: timed_def y(6))
  note rest = rest_of_unit [OF y(1,9,10)] 
  let ?z = "sim_unit step tdo (send_byte v x)"
  have "sim_answer step tdo (send_byte v x) = Some ((1, v OR 0x10), ?z\<lparr>sim_pipes := (sim_pipes ?z)\<lparr>from_sim := []\<rparr>\<rparr>)"
    using assms(1) y(2) rest(1) sim_answer_there [of ?z "v OR 0x10" "[]"]
    by (subst sim_answer_waits) (auto simp: sim_ok_def ticked_def)
  then show ?thesis using y rest(1,2) rest(3) [OF \<open>timed y\<close>] by (auto simp: sim_ok_def ticked_def timed_def)
qed

text \<open>Asked for the half period, the plugin answers when it has passed.\<close>

lemma half_period:
  "to_sim (sim_pipes x) = [] \<Longrightarrow> from_sim (sim_pipes x) = [] \<Longrightarrow> jp_got_con (sim_plugin x) \<Longrightarrow>
   jp_waiting (sim_plugin x) \<Longrightarrow> \<not> bit (sim_memory x) 4 \<Longrightarrow> vpi_out (sim_plugin x) = of_bool (tdo (sim_dev x)) \<Longrightarrow>
   phase x \<le> 9 \<Longrightarrow> clk_count x \<le> 20 \<Longrightarrow>
   \<exists>y. sim_answer step tdo x = Some ((1, 0xFF), y) \<and> sim_ok tdo y \<and> timed y
     \<and> sim_dev y = sim_dev x \<and> in_word_r y = in_word_r x"
proof (induction "(21 - unat (clk_count x)) * 10 + phase x" arbitrary: x rule: less_induct)
  case less
  have pass: "jp_in_pass step tdo x = x" using less.prems by (intro jp_in_nothing)
  have waits: "sim_answer step tdo x = sim_answer step tdo (sim_unit step tdo x)"
    using less.prems(2) by (rule sim_answer_waits)
  show ?case
  proof (cases "phase x")
    case (Suc n)
    then have unit: "sim_unit step tdo x = x\<lparr>phase := n\<rparr>" by (simp add: sim_unit_def pass)
    show ?thesis using less.hyps [of "x\<lparr>phase := n\<rparr>"] less.prems Suc unfolding waits unit by simp
  next
    case 0
    show ?thesis
    proof (cases "clk_count x = 20")
      case True
      then have "sim_unit step tdo x = x\<lparr>sim_pipes := \<lparr>to_sim = [], from_sim = [0xFF]\<rparr>, clk_count := 21, phase := 9,
          sim_plugin := (sim_plugin x)\<lparr>jp_waiting := False, count_comp := True\<rparr>\<rparr>"
        using less.prems 0 by (simp add: sim_unit_def pass sys_clk_edge_def jp_wait_time_def pipe_os_def)
      then show ?thesis using less.prems unfolding waits by (subst sim_answer.simps) (simp add: sim_ok_def timed_def)
    next
      case False
      then have lt: "clk_count x < 20" using less.prems(8) by simp
      then have unit: "sim_unit step tdo x = x\<lparr>clk_count := clk_count x + 1, phase := 9\<rparr>"
        using 0 by (simp add: sim_unit_def pass sys_clk_edge_def)
      have "unat (clk_count x) < 20" using lt by (simp add: word_less_nat_alt)
      then show ?thesis
        using less.hyps [of "x\<lparr>clk_count := clk_count x + 1, phase := 9\<rparr>"] less.prems 0 count_up [OF lt] unfolding waits unit by simp
    qed
  qed
qed

lemma wait_answer:
  assumes "sim_ok tdo x" "timed x"
  shows "\<exists>y. sim_answer step tdo (send_byte 0x81 x) = Some ((1, 0xFF), y) \<and> sim_ok tdo y \<and> timed y
     \<and> sim_dev y = sim_dev x \<and> in_word_r y = in_word_r x"
proof (cases "count_comp (sim_plugin x)")
  case True
  let ?x = "send_byte 0x81 x" and ?y = "x\<lparr>sim_pipes := \<lparr>to_sim = [], from_sim = [0xFF]\<rparr>\<rparr>"
  have pass: "jp_in_pass step tdo ?x = ?y"
    using assms True by (simp add: jp_in_pass_def vpi_jp_in_def pipe_os_def sim_ok_def)
  have "\<not> jp_waiting (sim_plugin ?y)" "phase ?y \<le> 9" using assms(1) by (simp_all add: sim_ok_def)
  note rest = rest_of_unit [OF pass this]
  have "timed ?y" using True by (simp add: timed_def)
  let ?z = "sim_unit step tdo ?x"
  have "sim_answer step tdo ?x = Some ((1, 0xFF), ?z\<lparr>sim_pipes := (sim_pipes ?z)\<lparr>from_sim := []\<rparr>\<rparr>)"
    using assms(1) rest(1) sim_answer_there [of ?z "0xFF" "[]"] by (subst sim_answer_waits) (auto simp: sim_ok_def ticked_def)
  then show ?thesis using assms(1) rest(1,2) rest(3) [OF \<open>timed ?y\<close>] by (auto simp: sim_ok_def ticked_def timed_def)
next
  case False
  let ?x = "send_byte 0x81 x" and ?z = "x\<lparr>sim_plugin := (sim_plugin x)\<lparr>jp_waiting := True\<rparr>\<rparr>"
  have pass: "jp_in_pass step tdo ?x = ?z"
    using assms(1) False by (cases "sim_pipes x") (simp add: jp_in_pass_def vpi_jp_in_def pipe_os_def sim_ok_def)
  have "jp_in_pass step tdo ?z = ?z" using assms(1) by (intro jp_in_nothing) (simp_all add: sim_ok_def)
  then have "sim_unit step tdo ?x = sim_unit step tdo ?z" unfolding sim_unit_def pass by simp
  then have "sim_answer step tdo ?x = sim_answer step tdo ?z"
    using assms(1) sim_answer_waits [of ?x step tdo] sim_answer_waits [of ?z step tdo] by (simp add: sim_ok_def)
  moreover have "\<exists>y. sim_answer step tdo ?z = Some ((1, 0xFF), y) \<and> sim_ok tdo y \<and> timed y
      \<and> sim_dev y = sim_dev ?z \<and> in_word_r y = in_word_r ?z"
    using assms False by (intro half_period) (simp_all add: sim_ok_def timed_def)
  ultimately show ?thesis by simp
qed

subsection \<open>The driver on the simulation\<close>

abbreviation "vpi_ok tdo s \<equiv> sim_ok tdo (sc_world s)"
abbreviation "vpi_dev s \<equiv> sim_dev (sc_world s)"
abbreviation "vpi_tck s \<equiv> bit (in_word_r (sc_world s)) 0"

lemma vpi_exchange:
  "sim_answer step tdo (send_byte b (sc_world s)) = Some ((r, a), y) \<Longrightarrow>
   sim_recv (sim_system step tdo) (snd (in_world (so_send (sim_system step tdo) b) s)) = Some ((r, a), s\<lparr>sc_world := y\<rparr>)"
  by (simp add: sim_recv_def in_world_def sim_system_def)

lemma vpi_wait:
  assumes "vpi_ok tdo s" "timed (sc_world s)"
  shows "\<exists>s'. cable_vpi_wait (sim_system step tdo) s = Some s' \<and> vpi_ok tdo s' \<and> timed (sc_world s')
     \<and> vpi_dev s' = vpi_dev s \<and> vpi_tck s' = vpi_tck s"
  using wait_answer [OF assms, of step] vpi_exchange [where b = "0x81" and s = s and step = step and tdo = tdo] by (auto simp: cable_vpi_wait_def split_beta)

lemma vpi_out_pins:
  assumes "vpi_ok tdo s" "v < 16"
  shows "\<exists>s'. cable_vpi_out (sim_system step tdo) j v s = Some (0, s') \<and> vpi_ok tdo s' \<and> timed (sc_world s') \<and> vpi_tck s' = bit v 0
     \<and> vpi_dev s' = (if \<not> vpi_tck s \<and> bit v 0 then step (\<not> bit v 1) (bit v 3) (bit v 2) (vpi_dev s) else vpi_dev s)"
proof -
  obtain y where y: "sim_answer step tdo (send_byte v (sc_world s)) = Some ((1, v OR 0x10), y)" "sim_ok tdo y" "timed y"
    "in_word_r y = ucast v"
    "sim_dev y = (if \<not> vpi_tck s \<and> bit v 0 then step (\<not> bit v 1) (bit v 3) (bit v 2) (vpi_dev s) else vpi_dev s)"
    using pins_answer [OF assms, of step] by blast
  let ?s = "s\<lparr>sc_world := y\<rparr>"
  obtain s' where "cable_vpi_wait (sim_system step tdo) ?s = Some s'" "vpi_ok tdo s'" "timed (sc_world s')"
    "vpi_dev s' = vpi_dev ?s" "vpi_tck s' = vpi_tck ?s"
    using vpi_wait [of tdo ?s step] y(2,3) by auto
  moreover have "await_ack (sim_system step tdo) (v OR 0x10) j (snd (in_world (so_send (sim_system step tdo) v) s)) = Some (True, ?s)"
    using vpi_exchange [OF y(1)] by (subst await_ack.simps) simp
  ultimately show ?thesis
    using y(4,5) by (auto simp: cable_vpi_out_def split_beta bit_pins_word APP_ERR_NONE_def)
qed

lemma vpi_inout_pins:
  assumes "vpi_ok tdo s" "v < 16"
  shows "\<exists>s'. cable_vpi_inout (sim_system step tdo) j v s = Some (0, of_bool (tdo (vpi_dev s)), s') \<and> vpi_ok tdo s' \<and> vpi_tck s' = bit v 0
     \<and> vpi_dev s' = (if \<not> vpi_tck s \<and> bit v 0 then step (\<not> bit v 1) (bit v 3) (bit v 2) (vpi_dev s) else vpi_dev s)"
proof -
  obtain y where y: "sim_answer step tdo (send_byte 0x80 (sc_world s)) = Some ((1, of_bool (tdo (vpi_dev s))), y)" "sim_ok tdo y"
    "sim_dev y = vpi_dev s" "in_word_r y = in_word_r (sc_world s)"
    using tdo_answer [OF assms(1), of step] by blast
  let ?s = "s\<lparr>sc_world := y\<rparr>"
  obtain s1 where s1: "cable_vpi_out (sim_system step tdo) j v ?s = Some (0, s1)" "vpi_ok tdo s1" "timed (sc_world s1)" "vpi_tck s1 = bit v 0"
    "vpi_dev s1 = (if \<not> vpi_tck ?s \<and> bit v 0 then step (\<not> bit v 1) (bit v 3) (bit v 2) (vpi_dev ?s) else vpi_dev ?s)"
    using vpi_out_pins [of tdo ?s v step j] y(2) assms(2) by auto
  obtain s2 where "cable_vpi_wait (sim_system step tdo) s1 = Some s2" "vpi_ok tdo s2" "vpi_dev s2 = vpi_dev s1" "vpi_tck s2 = vpi_tck s1"
    using vpi_wait [OF s1(2,3)] by blast
  with s1 y(3,4) vpi_exchange [OF y(1)] show ?thesis
    by (auto simp: cable_vpi_inout_def split_beta APP_ERR_NONE_def)
qed

context bitbang_cable
begin

lemma is_cable: "jtag_cable c dev ok step tdo"
  by unfold_locales

end

lemmas vpi_wired = common_routines_wired [OF vpi_cable_driver_def]

text \<open>
  C39. The driver of the VPI cable, the plugin and the module dbg\_comm\_vpi.v together keep the contract of a
  cable, for every device on the pins: each bit written or read, and each stream, takes the device through
  the steps that were asked for and gives back the level of TDO before each of them, without an error, and
  every call returns, although each byte waits for its acknowledgement and each change of the pins for half
  a period of the clock to be counted.
\<close>

lemma vpi_cable_contract:
  fixes step :: "bool \<Rightarrow> bool \<Rightarrow> bool \<Rightarrow> 'd \<Rightarrow> 'd"
  shows "jtag_cable (vpi_cable_driver x86_shr j (sim_system step tdo)) vpi_dev (vpi_ok tdo) (packet_step step) tdo"
proof -
  let ?c = "vpi_cable_driver x86_shr j (sim_system step tdo)"
  have "bitbang_cable ?c vpi_dev vpi_tck (vpi_ok tdo) step tdo x86_shr"
  proof unfold_locales
    fix data :: u8 and s :: "'d sim sim_cable" assume d: "data < 16" and s: "vpi_ok tdo s"
    show "\<exists>s'. out_func ?c data s = Some (0, s') \<and> vpi_ok tdo s' \<and> vpi_tck s' = bit data 0
      \<and> vpi_dev s' = (if \<not> vpi_tck s \<and> bit data 0 then step (\<not> bit data 1) (bit data 3) (bit data 2) (vpi_dev s) else vpi_dev s)"
      using vpi_out_pins [OF s d, of step j] unfolding vpi_wired by auto
    show "\<exists>s'. inout_func ?c data s = Some (0, of_bool (tdo (vpi_dev s)), s') \<and> vpi_ok tdo s' \<and> vpi_tck s' = bit data 0
      \<and> vpi_dev s' = (if \<not> vpi_tck s \<and> bit data 0 then step (\<not> bit data 1) (bit data 3) (bit data 2) (vpi_dev s) else vpi_dev s)"
      using vpi_inout_pins [OF s d, of step j] unfolding vpi_wired by auto
  qed (simp_all add: vpi_wired x86_shr_small x86_shr_wraps [symmetric])
  then show ?thesis by (rule bitbang_cable.is_cable)
qed

text \<open>
  C40. When the simulator ends the connection the bridge hangs: \<open>recv\<close> then gives nothing at once and for
  ever, which the loop that waits for the acknowledgement does not take for an error, so unless the
  uninitialised byte happens to be the acknowledgement a change of the pins never comes back.
\<close>

lemma vpi_closed_hangs:
  assumes "\<And>w. \<exists>b w'. so_recv os w = Some ((0, b), w')" and "j \<noteq> v OR 0x10"
  shows "cable_vpi_out os j v s = None"
proof -
  let ?P = "\<lambda>os' wanted ack s r. os' = os \<longrightarrow> ack = wanted"
  have never: "ack = wanted" if "await_ack os wanted ack s = Some r" for wanted ack s r
  proof (rule await_ack.raw_induct [of ?P, THEN mp, OF _ that refl], rule impI)
    fix f os' wanted ack s r
    assume IH: "\<And>os' wanted ack s r. f os' wanted ack s = Some r \<Longrightarrow> os' = os \<longrightarrow> ack = wanted" and os: "os' = os"
      and step: "sim_recv os' s \<bind> (\<lambda>((ret, b), s). if ret < 0 then Some (False, s)
        else let ack = if ret = 0 then ack else b in if ack \<noteq> wanted then f os' wanted ack s else Some (True, s)) = Some r"
    obtain b w' where "so_recv os (sc_world s) = Some ((0, b), w')" using assms(1) by blast
    then have "(if ack \<noteq> wanted then f os' wanted ack (s\<lparr>sc_world := w'\<rparr>) else Some (True, s\<lparr>sc_world := w'\<rparr>)) = Some r"
      using step os by (simp add: sim_recv_def)
    with os show "ack = wanted" using IH by (auto split: if_splits)
  qed
  show ?thesis
  proof (cases "await_ack os (v OR 0x10) j (snd (in_world (so_send os v) s))")
    case None
    then show ?thesis by (simp add: cable_vpi_out_def split_beta)
  next
    case (Some r)
    with never assms(2) show ?thesis by blast
  qed
qed

definition closed_connection :: "unit sim_os" where
  "closed_connection =
     \<lparr>so_socket = (\<lambda>x. (3, x)), so_host = (\<lambda>_ x. (True, x)), so_connect = (\<lambda>_ _ x. (0, x)),
      so_send = (\<lambda>_ x. (-1, x)), so_recv = (\<lambda>x. Some ((0, 0), x)),
      so_write = (\<lambda>_ _ x. (False, x)), so_read = (\<lambda>_ x. (None, x)), so_malloc = (\<lambda>_ x. (True, x))\<rparr>"

lemma vpi_closed_hangs_witness: "cable_vpi_out closed_connection 0 5 (sim_cable_start ()) = None"
  by (rule vpi_closed_hangs) (simp_all add: closed_connection_def)

end
