(* ===== verification/Cable_Xpc.thy ===== *)
theory Cable_Xpc
  imports Packet_Streams Libusb
begin

unbundle bit_operations_syntax

text \<open>
  cable_xpc_dlc9.c: the driver of the Xilinx Platform Cable USB (DLC9), over the calls of libusb. The cable
  has two modes: pins one at a time through its FX2 controller, and sequences of bits through its CPLD.
  \<open>None\<close> is \<open>exit\<close>, a loop that does not end, a null pointer, or an access outside of a buffer. Sleeping
  and messages have no counterpart.
\<close>

subsection \<open>State\<close>

record 'u xpcusb =
  xp_bus :: 'u
  xp_device :: "usb_device option"
  xp_open :: bool
  cpld_ctrl :: bool

definition xpcusb_start :: "'u \<Rightarrow> 'u xpcusb" where
  "xpcusb_start u = \<lparr>xp_bus = u, xp_device = None, xp_open = False, cpld_ctrl = False\<rparr>"

definition XPCUSB_VID :: u32 where "XPCUSB_VID = 0x3FD"
definition XPCUSB_PID :: u32 where "XPCUSB_PID = 0x08"
definition XPCUSB_CMD_TDI :: u8 where "XPCUSB_CMD_TDI = 0x01"
definition XPCUSB_CMD_TDO :: u8 where "XPCUSB_CMD_TDO = 0x01"
definition XPCUSB_CMD_TMS :: u8 where "XPCUSB_CMD_TMS = 0x02"
definition XPCUSB_CMD_TCK :: u8 where "XPCUSB_CMD_TCK = 0x04"
definition XPCUSB_CMD_PROG :: u8 where "XPCUSB_CMD_PROG = 0x08"
definition CPLD_MAX_BYTES :: nat where "CPLD_MAX_BYTES = 4096"

text \<open>A call with the handle, which must not be null.\<close>

definition with_handle :: "('u \<Rightarrow> 'a \<times> 'u) \<Rightarrow> 'u xpcusb \<Rightarrow> ('a \<times> 'u xpcusb) option" where
  "with_handle f s = (if \<not> xp_open s then None else (let (x, u) = f (xp_bus s) in Some (x, s\<lparr>xp_bus := u\<rparr>)))"

text \<open>What a read has put into a buffer, over what was in it.\<close>

definition received_over :: "u8 list \<Rightarrow> u8 list \<Rightarrow> u8 list" where
  "received_over bs old = take (length old) bs @ drop (length bs) old"

subsection \<open>Requests to the cable\<close>

definition xpcu_request :: "'u libusb \<Rightarrow> nat \<Rightarrow> nat \<Rightarrow> 'u xpcusb \<Rightarrow> (int \<times> 'u xpcusb) option" where
  "xpcu_request lib req value s =
     do { ((rv, _), s) \<leftarrow> with_handle (lu_control_msg lib 0x40 0xB0 req value 0) s;
          Some (if rv < 0 then -1 else 0, s) }"

definition xpcu_request_28 :: "'u libusb \<Rightarrow> nat \<Rightarrow> 'u xpcusb \<Rightarrow> (int \<times> 'u xpcusb) option" where
  "xpcu_request_28 lib value = xpcu_request lib 0x28 value"

definition xpcu_select_gpio :: "'u libusb \<Rightarrow> nat \<Rightarrow> 'u xpcusb op" where
  "xpcu_select_gpio lib chain s =
     do { (r, s) \<leftarrow> xpcu_request lib 0x52 chain s; Some (if r < 0 then APP_ERR_USB else APP_ERR_NONE, s) }"

definition xpcu_write_gpio :: "'u libusb \<Rightarrow> u8 \<Rightarrow> 'u xpcusb \<Rightarrow> (int \<times> 'u xpcusb) option" where
  "xpcu_write_gpio lib bits = xpcu_request lib 0x30 (unat bits)"

definition xpcu_output_enable :: "'u libusb \<Rightarrow> bool \<Rightarrow> 'u xpcusb \<Rightarrow> (int \<times> 'u xpcusb) option" where
  "xpcu_output_enable lib enable = xpcu_request lib (if enable then 0x18 else 0x10) 0"

text \<open>Both versions are two bytes put into \<open>b\<close>.\<close>

definition xpcu_read_version :: "'u libusb \<Rightarrow> nat \<Rightarrow> u8 list \<Rightarrow> 'u xpcusb \<Rightarrow> ((int \<times> u8 list) \<times> 'u xpcusb) option" where
  "xpcu_read_version lib which b s =
     do { ((rv, bs), s) \<leftarrow> with_handle (lu_control_msg lib 0xC0 0xB0 0x50 which 2) s;
          Some ((if rv < 0 then -1 else 0, received_over bs b), s) }"

definition xpcu_read_firmware_version :: "'u libusb \<Rightarrow> u8 list \<Rightarrow> 'u xpcusb \<Rightarrow> ((int \<times> u8 list) \<times> 'u xpcusb) option" where
  "xpcu_read_firmware_version lib = xpcu_read_version lib 0"

definition xpcu_read_cpld_version :: "'u libusb \<Rightarrow> u8 list \<Rightarrow> 'u xpcusb \<Rightarrow> ((int \<times> u8 list) \<times> 'u xpcusb) option" where
  "xpcu_read_cpld_version lib = xpcu_read_version lib 1"

text \<open>\<open>out_len\<close> is 0 if there is no buffer for the answer.\<close>

definition xpcu_shift ::
  "'u libusb \<Rightarrow> nat \<Rightarrow> nat \<Rightarrow> u8 list \<Rightarrow> nat \<Rightarrow> 'u xpcusb \<Rightarrow> ((int \<times> u8 list) \<times> 'u xpcusb) option" where
  "xpcu_shift lib reqno bits input out_len s =
     do { (r, s) \<leftarrow> xpcu_request lib reqno bits s;
          (if r < 0 then Some ((-1, []), s)
           else
             do { (rv, s) \<leftarrow> with_handle (lu_bulk_write lib 0x02 input) s;
                  (if rv < 0 then Some ((-1, []), s)
                   else if out_len > 0 then
                     do { ((rv, bs), s) \<leftarrow> with_handle (lu_bulk_read lib 0x86 out_len) s;
                          Some ((if rv < 0 then -1 else 0, take out_len bs), s) }
                   else Some ((0, []), s)) }) }"

subsection \<open>Sequences of bits\<close>

record xpc_ext_transfer_state_t =
  in_bits :: nat
  out_bits :: nat
  xts_buf :: "u8 list"

definition set_flag :: "bool \<Rightarrow> nat \<Rightarrow> u8 \<Rightarrow> u8 \<Rightarrow> u8" where
  "set_flag c i flag b = (if c then b OR push_bit i flag else b)"

definition xpcusb_add_bit_for_ext_transfer ::
  "xpc_ext_transfer_state_t \<Rightarrow> bool \<Rightarrow> bool \<Rightarrow> bool \<Rightarrow> bool \<Rightarrow> xpc_ext_transfer_state_t option" where
  "xpcusb_add_bit_for_ext_transfer xts toggle_tclk tms tdi sample_tdo =
     (let bit_idx = in_bits xts mod 4; buf_idx = (in_bits xts - bit_idx) div 2 in
      do { b0 \<leftarrow> word_at (xts_buf xts) buf_idx;
           b1 \<leftarrow> word_at (xts_buf xts) (buf_idx + 1);
           let b0 = (if bit_idx = 0 then 0 else b0);
           let b1 = (if bit_idx = 0 then 0 else b1);
           let b0 = set_flag tms bit_idx 0x10 (set_flag tdi bit_idx 0x01 b0);
           let b1 = set_flag sample_tdo bit_idx 0x10 (set_flag toggle_tclk bit_idx 0x01 b1);
           Some \<lparr>in_bits = in_bits xts + 1, out_bits = out_bits xts + of_bool sample_tdo,
                 xts_buf = (xts_buf xts)[buf_idx := b0, buf_idx + 1 := b1]\<rparr> })"

text \<open>The bits behind the whole words, which are the last ones of their half word.\<close>

fun unaligned_bits :: "u8 list \<Rightarrow> nat \<Rightarrow> nat list \<Rightarrow> u32 list \<Rightarrow> u32 list option" where
  "unaligned_bits b shift [] ins = Some ins"
| "unaligned_bits b shift (i # is) ins =
     do { v \<leftarrow> word_at b ((i + shift) div 8);
          ins \<leftarrow> (if i mod 32 = 0 then put_at ins (i div 32) 0 else Some ins);
          w \<leftarrow> word_at ins (i div 32);
          ins \<leftarrow> (if bit v ((i + shift) mod 8) then put_at ins (i div 32) (w OR push_bit (i mod 32) 1) else Some ins);
          unaligned_bits b shift is ins }"

definition store_tdo :: "u8 list \<Rightarrow> nat \<Rightarrow> u32 list \<Rightarrow> u32 list option" where
  "store_tdo b n ins =
     (let words = n div 32; shift = (if n mod 16 \<noteq> 0 then 16 - n mod 16 else 0) in
      if words > length ins \<or> 4 * words > length b then None
      else
        (let ins = words_of_bytes (take (4 * words) b) @ drop words ins in
         if n mod 32 \<noteq> 0 then unaligned_bits b shift [32 * words..<n] ins else Some ins))"

definition xpcusb_do_ext_transfer ::
  "'u libusb \<Rightarrow> xpc_ext_transfer_state_t \<Rightarrow> u32 list option \<Rightarrow> 'u xpcusb
     \<Rightarrow> ((int \<times> xpc_ext_transfer_state_t \<times> u32 list option) \<times> 'u xpcusb) option" where
  "xpcusb_do_ext_transfer lib xts tdostream s =
     (let in_len = 2 * (in_bits xts div 4) + (if in_bits xts mod 4 \<noteq> 0 then 2 else 0);
          out_len = 2 * (out_bits xts div 16) + (if out_bits xts mod 16 \<noteq> 0 then 2 else 0) in
      if in_len > length (xts_buf xts) \<or> out_len > length (xts_buf xts) then None
      else
        do { ((r, bs), s) \<leftarrow> xpcu_shift lib 0xA6 (in_bits xts) (take in_len (xts_buf xts)) out_len s;
             let b = received_over bs (xts_buf xts);
             tdostream \<leftarrow> (case tdostream of
               Some ins \<Rightarrow> if r \<ge> 0 \<and> out_bits xts > 0 then map_option Some (store_tdo b (out_bits xts) ins) else Some (Some ins)
             | None \<Rightarrow> Some None);
             Some ((r, \<lparr>in_bits = 0, out_bits = 0, xts_buf = b\<rparr>, tdostream), s) })"

subsection \<open>Opening and closing\<close>

definition cable_xpcusb_open_cable :: "'u libusb \<Rightarrow> 'u xpcusb op" where
  "cable_xpcusb_open_cable lib s =
     do { d \<leftarrow> xp_device s;
          ((err, opened), u) \<leftarrow> usb_open_cable lib d (xp_bus s);
          Some (err, s\<lparr>xp_bus := u, xp_open := opened\<rparr>) }"

definition cable_xpcusb_close_cable :: "'u libusb \<Rightarrow> 'u xpcusb \<Rightarrow> 'u xpcusb" where
  "cable_xpcusb_close_cable lib s =
     (if xp_open s then s\<lparr>xp_bus := usb_close_cable lib (xp_bus s), xp_open := False\<rparr> else s)"

definition xpcusb_open_if_necessary :: "'u libusb \<Rightarrow> 'u xpcusb op" where
  "xpcusb_open_if_necessary lib s = (if \<not> xp_open s then cable_xpcusb_open_cable lib s else Some (APP_ERR_NONE, s))"

definition cable_xpcusb_fx2_init :: "'u libusb \<Rightarrow> 'u xpcusb op" where
  "cable_xpcusb_fx2_init lib s =
     do { (_, s) \<leftarrow> xpcu_select_gpio lib 0 s; Some (APP_ERR_NONE, s\<lparr>cpld_ctrl := False\<rparr>) }"

text \<open>Calls up to the first that fails.\<close>

fun xpcu_run :: "('u xpcusb \<Rightarrow> (int \<times> 'u xpcusb) option) list \<Rightarrow> 'u xpcusb \<Rightarrow> (int \<times> 'u xpcusb) option" where
  "xpcu_run [] s = Some (0, s)"
| "xpcu_run (f # fs) s = do { (r, s) \<leftarrow> f s; (if r < 0 then Some (r, s) else xpcu_run fs s) }"

text \<open>A failure is only reported, and the mode is taken to be set.\<close>

definition cable_xpcusb_cpld_init :: "'u libusb \<Rightarrow> 'u xpcusb op" where
  "cable_xpcusb_cpld_init lib s =
     do { (_, s) \<leftarrow> xpcu_run [xpcu_request_28 lib 0x11, xpcu_output_enable lib True,
            \<lambda>s. do { ((r, _), s) \<leftarrow> xpcu_shift lib 0xA6 2 [0, 0] 0 s; Some (r, s) },
            xpcu_request_28 lib 0x12] s;
          Some (APP_ERR_NONE, s\<lparr>cpld_ctrl := True\<rparr>) }"

definition xpcusb_enumerate_bus :: "'u libusb \<Rightarrow> 'u xpcusb \<Rightarrow> u32 \<times> 'u xpcusb" where
  "xpcusb_enumerate_bus lib s =
     (let ((err, d), u) = usb_enumerate lib XPCUSB_VID XPCUSB_PID (xp_device s) (xp_bus s) in
      (err, s\<lparr>xp_bus := u, xp_device := d\<rparr>))"

definition xpcu_common_init :: "'u libusb \<Rightarrow> 'u xpcusb \<Rightarrow> (int \<times> 'u xpcusb) option" where
  "xpcu_common_init lib s =
     do { (r, s) \<leftarrow> xpcu_run [xpcu_request_28 lib 0x11, xpcu_write_gpio lib 8] s;
          Some (r, if r < 0 then cable_xpcusb_close_cable lib s else s) }"

text \<open>\<open>j\<close>: the two bytes of the variable for the versions, which is not initialised.\<close>

definition xpcu_check_versions :: "'u libusb \<Rightarrow> u8 list \<Rightarrow> 'u xpcusb \<Rightarrow> (int \<times> 'u xpcusb) option" where
  "xpcu_check_versions lib j s =
     do { ((r, b), s) \<leftarrow> xpcu_read_firmware_version lib j s;
          (if r < 0 then Some (r, s)
           else
             do { ((r, b), s) \<leftarrow> xpcu_read_cpld_version lib b s;
                  Some (if r \<ge> 0 \<and> (\<forall>x \<in> set b. x = 0) then -1 else r, s) }) }"

definition cable_xpcusb_init :: "'u libusb \<Rightarrow> u8 list \<Rightarrow> 'u xpcusb op" where
  "cable_xpcusb_init lib j s =
     (let (err, s) = xpcusb_enumerate_bus lib s in
      if err \<noteq> 0 then Some (err, s)
      else
        do { d \<leftarrow> xp_device s;
             let (opened, u) = lu_open lib d (xp_bus s);
             (if \<not> opened then Some (APP_ERR_USB, s\<lparr>xp_bus := u, xp_open := False\<rparr>)
              else
                (let (_, u) = lu_reset lib u;
                     (err, s) = xpcusb_enumerate_bus lib (s\<lparr>xp_bus := lu_close lib u, xp_open := False\<rparr>) in
                 if err \<noteq> 0 then Some (err, s)
                 else
                   do { (err, s) \<leftarrow> cable_xpcusb_open_cable lib s;
                        (if err \<noteq> 0 then Some (APP_ERR_USB, s)
                         else
                           do { (r, s) \<leftarrow> xpcu_common_init lib s;
                                (r, s) \<leftarrow> (if r \<ge> 0 then xpcu_check_versions lib j s else Some (r, s));
                                let s = (if r < 0 then cable_xpcusb_close_cable lib s else s);
                                cable_xpcusb_cpld_init lib s }) })) })"

definition cable_xpcusb_opt :: "int \<Rightarrow> string \<Rightarrow> 'u xpcusb op" where
  "cable_xpcusb_opt c arg s = Some (APP_ERR_BAD_PARAM, s)"

subsection \<open>Pins\<close>

definition xpcusb_pins :: "u8 \<Rightarrow> u8" where
  "xpcusb_pins value =
     line value TCLK_BIT XPCUSB_CMD_TCK OR line value TDI_BIT XPCUSB_CMD_TDI OR line value TMS_BIT XPCUSB_CMD_TMS
     OR XPCUSB_CMD_PROG"

text \<open>Both functions open the cable and leave the mode of the CPLD if they have to.\<close>

definition xpcusb_set_pins :: "'u libusb \<Rightarrow> u8 \<Rightarrow> 'u xpcusb op" where
  "xpcusb_set_pins lib value s =
     do { (rv, s) \<leftarrow> xpcusb_open_if_necessary lib s;
          (if rv \<noteq> APP_ERR_NONE then Some (rv, s)
           else
             do { (rv, s) \<leftarrow> (if cpld_ctrl s then cable_xpcusb_fx2_init lib s else Some (APP_ERR_NONE, s));
                  (if rv \<noteq> APP_ERR_NONE then Some (rv, s)
                   else
                     do { (rv, s) \<leftarrow> xpcu_request lib 0x30 (unat (xpcusb_pins value)) s;
                          Some (if rv < 0 then (APP_ERR_USB, cable_xpcusb_close_cable lib s) else (APP_ERR_NONE, s)) }) }) }"

definition cable_xpcusb_out :: "'u libusb \<Rightarrow> u8 \<Rightarrow> 'u xpcusb op" where
  "cable_xpcusb_out lib value = xpcusb_set_pins lib value"

text \<open>After an error the variable for the bit is not set; it is given as 0.\<close>

definition cable_xpcusb_inout :: "'u libusb \<Rightarrow> u8 \<Rightarrow> 'u xpcusb \<Rightarrow> (u32 \<times> u8 \<times> 'u xpcusb) option" where
  "cable_xpcusb_inout lib value s =
     do { (rv, s) \<leftarrow> xpcusb_set_pins lib value s;
          (if rv \<noteq> APP_ERR_NONE then Some (rv, 0, s)
           else
             do { ((rv, bs), s) \<leftarrow> with_handle (lu_control_msg lib 0xC0 0xB0 0x38 0 1) s;
                  (if rv < 0 then Some (APP_ERR_USB, 0, cable_xpcusb_close_cable lib s)
                   else
                     do { ret \<leftarrow> word_at (received_over bs [0]) 0;
                          Some (APP_ERR_NONE, of_bool (ret AND XPCUSB_CMD_TDO \<noteq> 0), s) }) }) }"

definition cable_xpcusb_read_write_bit :: "'u libusb \<Rightarrow> u8 \<Rightarrow> 'u xpcusb \<Rightarrow> (u32 \<times> u8 \<times> 'u xpcusb) option" where
  "cable_xpcusb_read_write_bit lib packet_out s =
     (let data = packet_pins packet_out in
      do { (e1, bit_in, s) \<leftarrow> cable_xpcusb_inout lib data s;
           (e2, s) \<leftarrow> cable_xpcusb_out lib (data OR TCLK_BIT) s;
           Some (e1 OR e2, bit_in, s) })"

subsection \<open>Streams\<close>

text \<open>
  \<open>n\<close> bits remain, of which \<open>i\<close> is the next. A transfer that fails makes the program exit in the end.
\<close>

fun xpcusb_bits ::
  "'u libusb \<Rightarrow> u32 list option \<Rightarrow> bool \<Rightarrow> nat \<Rightarrow> nat \<Rightarrow> xpc_ext_transfer_state_t \<Rightarrow> u32 list option \<Rightarrow> 'u xpcusb
     \<Rightarrow> ((xpc_ext_transfer_state_t \<times> u32 list option) \<times> 'u xpcusb) option" where
  "xpcusb_bits lib outstream set_last_bit 0 i xts instream s = Some ((xts, instream), s)"
| "xpcusb_bits lib outstream set_last_bit (Suc n) i xts instream s =
     do { bitval \<leftarrow> (case outstream of
            Some outs \<Rightarrow> do { w \<leftarrow> word_at outs (i div 32); Some (bit w (i mod 32)) }
          | None \<Rightarrow> Some False);
          xts \<leftarrow> xpcusb_add_bit_for_ext_transfer xts True (n = 0 \<and> set_last_bit) bitval True;
          (if in_bits xts = 2 * CPLD_MAX_BYTES - 1 then
             do { ((ret, xts, instream), s) \<leftarrow> xpcusb_do_ext_transfer lib xts instream s;
                  (if ret \<noteq> 0 then None else xpcusb_bits lib outstream set_last_bit n (i + 1) xts instream s) }
           else xpcusb_bits lib outstream set_last_bit n (i + 1) xts instream s) }"

text \<open>\<open>j\<close>: the buffer of the transfer, which is not initialised.\<close>

definition cable_xpcusb_readwrite_stream ::
  "'u libusb \<Rightarrow> u8 list \<Rightarrow> u32 list option \<Rightarrow> u32 list option \<Rightarrow> int \<Rightarrow> bool \<Rightarrow> 'u xpcusb
     \<Rightarrow> (u32 \<times> u32 list option \<times> 'u xpcusb) option" where
  "cable_xpcusb_readwrite_stream lib j outstream instream len_bits set_last_bit s =
     do { (ret, s) \<leftarrow> xpcusb_open_if_necessary lib s;
          (if ret \<noteq> APP_ERR_NONE then Some (ret, instream, s)
           else
             do { (ret, s) \<leftarrow> (if \<not> cpld_ctrl s then cable_xpcusb_cpld_init lib s else Some (APP_ERR_NONE, s));
                  (if ret \<noteq> APP_ERR_NONE then Some (ret, instream, s)
                   else
                     do { ((xts, instream), s) \<leftarrow> xpcusb_bits lib outstream set_last_bit (nat len_bits) 0
                            \<lparr>in_bits = 0, out_bits = 0, xts_buf = take CPLD_MAX_BYTES j\<rparr> instream s;
                          (if in_bits xts > 0 then
                             do { xts \<leftarrow> (if in_bits xts mod 4 = 0 then xpcusb_add_bit_for_ext_transfer xts False False False False
                                    else Some xts);
                                  ((ret, _, instream), s) \<leftarrow> xpcusb_do_ext_transfer lib xts instream s;
                                  (if ret \<noteq> 0 then None else Some (APP_ERR_NONE, instream, s)) }
                           else Some (APP_ERR_NONE, instream, s)) }) }) }"

definition cable_xpcusb_write_stream :: "'u libusb \<Rightarrow> u8 list \<Rightarrow> u32 list option \<Rightarrow> int \<Rightarrow> bool \<Rightarrow> 'u xpcusb op" where
  "cable_xpcusb_write_stream lib j outstream len_bits set_last_bit s =
     do { (ret, _, s) \<leftarrow> cable_xpcusb_readwrite_stream lib j outstream None len_bits set_last_bit s; Some (ret, s) }"

definition cable_xpcusb_cpld_write_bit :: "'u libusb \<Rightarrow> u8 list \<Rightarrow> u8 \<Rightarrow> 'u xpcusb op" where
  "cable_xpcusb_cpld_write_bit lib j value s =
     cable_xpcusb_write_stream lib j (Some [of_bool (value AND TDO \<noteq> 0)]) 1 (value AND TMS \<noteq> 0) s"

text \<open>\<open>k\<close>: the variable for the bit, which is not initialised. For an error the bit is given as 0.\<close>

definition cable_xpcusb_cpld_readwrite_bit ::
  "'u libusb \<Rightarrow> u8 list \<Rightarrow> u32 \<Rightarrow> u8 \<Rightarrow> 'u xpcusb \<Rightarrow> (u32 \<times> u8 \<times> 'u xpcusb) option" where
  "cable_xpcusb_cpld_readwrite_bit lib j k value s =
     do { (r, instream, s) \<leftarrow> cable_xpcusb_readwrite_stream lib j (Some [of_bool (value AND TDO \<noteq> 0)]) (Some [k]) 1
            (value AND TMS \<noteq> 0) s;
          (if sint r < 0 then Some (r, 0, s)
           else do { ins \<leftarrow> instream; w \<leftarrow> word_at ins 0; Some (APP_ERR_NONE, ucast (w AND 1), s) }) }"

definition dlc9_cable_driver :: "'u libusb \<Rightarrow> u8 list \<Rightarrow> u32 \<Rightarrow> 'u xpcusb jtag_cable_t" where
  "dlc9_cable_driver lib j k =
     \<lparr>name = ''xpc_usb'', inout_func = cable_xpcusb_inout lib, out_func = cable_xpcusb_out lib,
      init_func = cable_xpcusb_init lib (take 2 j), opt_func = cable_xpcusb_opt,
      bit_out_func = cable_xpcusb_cpld_write_bit lib j, bit_inout_func = cable_xpcusb_cpld_readwrite_bit lib j k,
      stream_out_func = (\<lambda>outs. cable_xpcusb_write_stream lib j (Some outs)),
      stream_inout_func = (\<lambda>outs ins n l s.
        do { (ret, ins, s) \<leftarrow> cable_xpcusb_readwrite_stream lib j (Some outs) (Some ins) n l s;
             ins \<leftarrow> ins; Some (ret, ins, s) }),
      flush_func = None, opts = Some '''', help_text = Some (''no options'' @ [CHR 0x0A])\<rparr>"

end
