(* ===== verification/Xpc_Streams.thy ===== *)
theory Xpc_Streams
  imports Cable_Xpc Tap_Transactions
begin

unbundle bit_operations_syntax

text \<open>
  What the driver of the Xilinx cable makes of a stream. The CPLD at the other end, as the comments of the
  source describe it, is the locale \<open>cpld_box\<close>: a request announces a number of changes, a write brings
  them, four in each half word, and a read brings back the levels of TDO that were asked for. Behind it is
  any JTAG device.
\<close>

subsection \<open>The protocol of the CPLD\<close>

text \<open>A change: TDI, TMS, whether TCK makes a pulse, and whether TDO is read.\<close>

type_synonym cpld_change = "bool \<times> bool \<times> bool \<times> bool"

definition cpld_change_at :: "u8 list \<Rightarrow> nat \<Rightarrow> cpld_change" where
  "cpld_change_at b i =
     (bit (b ! (2 * (i div 4))) (i mod 4), bit (b ! (2 * (i div 4))) (4 + i mod 4),
      bit (b ! (2 * (i div 4) + 1)) (i mod 4), bit (b ! (2 * (i div 4) + 1)) (4 + i mod 4))"

definition cpld_changes :: "u8 list \<Rightarrow> nat \<Rightarrow> cpld_change list" where
  "cpld_changes b n = map (cpld_change_at b) [0..<n]"

fun cpld_run :: "(bool \<Rightarrow> bool \<Rightarrow> 'd \<Rightarrow> 'd) \<Rightarrow> ('d \<Rightarrow> bool) \<Rightarrow> cpld_change list \<Rightarrow> 'd \<Rightarrow> bool list \<times> 'd" where
  "cpld_run step tdo [] d = ([], d)"
| "cpld_run step tdo ((tdi, tms, tck, sample) # cs) d =
     (let (tr, d') = cpld_run step tdo cs (if tck then step tms tdi d else d) in
      (if sample then tdo d # tr else tr, d'))"

text \<open>The bits behind the whole words are the last ones of their half word.\<close>

definition cpld_reply :: "bool list \<Rightarrow> u8 list" where
  "cpld_reply tr =
     (let k = 32 * (length tr div 32); shift = (if length tr mod 16 \<noteq> 0 then 16 - length tr mod 16 else 0) in
      bytes_of_bits (take k tr @ replicate shift False @ drop k tr))"

locale cpld_box =
  fixes lib :: "'u libusb"
    and xdev :: "'u \<Rightarrow> 'd" and idle :: "'u \<Rightarrow> bool"
    and pin_step :: "bool \<Rightarrow> bool \<Rightarrow> 'd \<Rightarrow> 'd" and tdo :: "'d \<Rightarrow> bool"
  assumes box_shift: "idle u \<Longrightarrow> n mod 4 \<noteq> 0 \<Longrightarrow> length b = 2 * ((n + 3) div 4) \<Longrightarrow>
     cpld_run pin_step tdo (cpld_changes b n) (xdev u) = (tr, d) \<Longrightarrow> tr \<noteq> [] \<Longrightarrow>
     \<exists>r1 x1 u1 r2 u2 r3 u3.
       lu_control_msg lib 0x40 0xB0 0xA6 n 0 u = ((r1, x1), u1) \<and> 0 \<le> r1
       \<and> lu_bulk_write lib 0x02 b u1 = (r2, u2) \<and> 0 \<le> r2
       \<and> lu_bulk_read lib 0x86 (length (cpld_reply tr)) u2 = ((r3, cpld_reply tr), u3) \<and> 0 \<le> r3
       \<and> idle u3 \<and> xdev u3 = d"

subsection \<open>What the transfer buffer holds\<close>

definition no_change :: cpld_change where "no_change = (False, False, False, False)"

definition xts_holds :: "xpc_ext_transfer_state_t \<Rightarrow> cpld_change list \<Rightarrow> bool" where
  "xts_holds xts cs \<longleftrightarrow> in_bits xts = length cs \<and> out_bits xts = length (filter (\<lambda>(_, _, _, sample). sample) cs)
     \<and> length (xts_buf xts) = 4096
     \<and> (\<forall>i < 4 * ((length cs + 3) div 4). cpld_change_at (xts_buf xts) i = (if i < length cs then cs ! i else no_change))"

lemma xts_holds_changes: "xts_holds xts cs \<Longrightarrow> cpld_changes (xts_buf xts) (length cs) = cs"
  by (intro nth_equalityI) (auto simp: xts_holds_def cpld_changes_def)

lemma xts_holds_Nil: "length b = 4096 \<Longrightarrow> xts_holds \<lparr>in_bits = 0, out_bits = 0, xts_buf = b\<rparr> []"
  by (simp add: xts_holds_def)

lemma cpld_changes_take: "m = 2 * ((n + 3) div 4) \<Longrightarrow> cpld_changes (take m b) n = cpld_changes b n"
proof -
  assume m: "m = 2 * ((n + 3) div 4)"
  have "i div 4 < (n + 3) div 4" if "i < n" for i using that div_le_mono [of "i + 4" "n + 3" 4] by simp
  then have "2 * (i div 4) + 1 < m" if "i < n" for i using that m by fastforce
  then have "2 * (i div 4) < m \<and> 2 * (i div 4) + 1 < m" if "i < n" for i using that by fastforce
  then have "cpld_change_at (take m b) i = cpld_change_at b i" if "i < n" for i
    using that by (simp add: cpld_change_at_def)
  then show ?thesis by (simp add: cpld_changes_def)
qed

lemma bit_set_flag:
  assumes "k < 4"
  shows "bit (set_flag c k 0x01 b) j \<longleftrightarrow> bit b j \<or> (c \<and> j = k)"
    "bit (set_flag c k 0x10 b) j \<longleftrightarrow> bit b j \<or> (c \<and> j = 4 + k)"
proof -
  have "(0x10 :: u8) = push_bit 4 1" by simp
  then have e: "set_flag c k 0x10 b = (if c then b OR push_bit (4 + k) 1 else b)"
    by (simp only: set_flag_def push_bit_push_bit add.commute)
  show "bit (set_flag c k 0x01 b) j \<longleftrightarrow> bit b j \<or> (c \<and> j = k)"
    using assms by (auto simp: set_flag_def bit_simps)
  show "bit (set_flag c k 0x10 b) j \<longleftrightarrow> bit b j \<or> (c \<and> j = 4 + k)"
    using assms unfolding e by (auto simp: bit_simps)
qed

lemma half_words: "n mod 4 \<noteq> 0 \<Longrightarrow> (n + 3) div 4 = Suc (n div 4 :: nat)"
  by presburger

lemma add_bit_ok:
  assumes "xts_holds xts cs" "length cs < 8192"
  shows "\<exists>xts'. xpcusb_add_bit_for_ext_transfer xts tck tms tdi sample = Some xts' \<and> xts_holds xts' (cs @ [(tdi, tms, tck, sample)])"
proof -
  let ?n = "length cs" and ?b = "xts_buf xts"
  let ?k = "?n mod 4" and ?w = "2 * (length cs div 4)"
  have n: "in_bits xts = ?n" and len: "length ?b = 4096" and out: "out_bits xts = length (filter (\<lambda>(_, _, _, sample). sample) cs)"
    and held: "\<And>i. i < 4 * ((?n + 3) div 4) \<Longrightarrow> cpld_change_at ?b i = (if i < ?n then cs ! i else no_change)"
    using assms(1) by (simp_all add: xts_holds_def)
  have idx: "(?n - ?k) div 2 = ?w" using minus_mod_eq_mult_div [of ?n 4] by simp
  have "length cs div 4 < 2048" using assms(2) by (simp add: less_mult_imp_div_less)
  then have w: "?w + 1 < 4096" "?w < 4096" by linarith+
  define b0 where "b0 = set_flag tms ?k 0x10 (set_flag tdi ?k 0x01 (if ?k = 0 then 0 else ?b ! ?w))"
  define b1 where "b1 = set_flag sample ?k 0x10 (set_flag tck ?k 0x01 (if ?k = 0 then 0 else ?b ! (?w + 1)))"
  let ?xts = "\<lparr>in_bits = ?n + 1, out_bits = out_bits xts + of_bool sample, xts_buf = ?b[?w := b0, ?w + 1 := b1]\<rparr>"
  have add: "xpcusb_add_bit_for_ext_transfer xts tck tms tdi sample = Some ?xts"
    using w len by (simp add: xpcusb_add_bit_for_ext_transfer_def n idx Let_def b0_def b1_def)
  have "cpld_change_at (?b[?w := b0, ?w + 1 := b1]) i =
      (if i < ?n then cs ! i else if i = ?n then (tdi, tms, tck, sample) else no_change)"
    if "i < 4 * ((?n + 4) div 4)" for i
  proof (cases "i div 4 = ?n div 4")
    case False
    have "i div 4 < (?n + 4) div 4" using that by (simp only: less_mult_imp_div_less mult.commute)
    then have "i div 4 < Suc (?n div 4)" by simp
    with False have lt: "i div 4 < ?n div 4" by simp
    then have "i < ?n" using div_le_mono [of ?n i 4] by (meson not_le order.strict_iff_not)
    moreover have "i < 4 * ((?n + 3) div 4)" using \<open>i < ?n\<close> by linarith
    moreover have "cpld_change_at (?b[?w := b0, ?w + 1 := b1]) i = cpld_change_at ?b i"
      using lt by (simp add: cpld_change_at_def)
    ultimately show ?thesis using held [of i] by simp
  next
    case True
    have i: "i = 4 * (?n div 4) + i mod 4" using True mult_div_mod_eq [of 4 i] by simp
    have n4: "?n = 4 * (?n div 4) + ?k" by simp
    have cmp: "i < ?n \<longleftrightarrow> i mod 4 < ?k" "i = ?n \<longleftrightarrow> i mod 4 = ?k" using i n4 by linarith+
    have k: "?k < 4" "i mod 4 < 4" by simp_all
    then have apart: "4 + i mod 4 \<noteq> ?k" "i mod 4 \<noteq> 4 + ?k" by linarith+
    have new: "cpld_change_at (?b[?w := b0, ?w + 1 := b1]) i =
        (bit b0 (i mod 4), bit b0 (4 + i mod 4), bit b1 (i mod 4), bit b1 (4 + i mod 4))"
      using True w len by (simp add: cpld_change_at_def)
    show ?thesis
    proof (cases "?k = 0")
      case True
      then show ?thesis using k apart unfolding new cmp unfolding b0_def b1_def
        by (auto simp: bit_set_flag no_change_def)
    next
      case False
      have "i < 4 * ((?n + 3) div 4)" using i k unfolding half_words [OF False] mult_Suc_right by linarith
      from held [OF this] have old: "(bit (?b ! ?w) (i mod 4), bit (?b ! ?w) (4 + i mod 4),
          bit (?b ! (?w + 1)) (i mod 4), bit (?b ! (?w + 1)) (4 + i mod 4)) = (if i < ?n then cs ! i else no_change)"
        using \<open>i div 4 = ?n div 4\<close> by (simp add: cpld_change_at_def)
      show ?thesis
      proof (cases "i mod 4 < ?k")
        case True
        then show ?thesis using old False k apart unfolding new cmp unfolding b0_def b1_def
          by (simp add: bit_set_flag)
      next
        case ge: False
        then show ?thesis using old False k apart unfolding new cmp unfolding b0_def b1_def
          by (auto simp: bit_set_flag no_change_def)
      qed
    qed
  qed
  then have "xts_holds ?xts (cs @ [(tdi, tms, tck, sample)])"
    using len out by (auto simp: xts_holds_def nth_append add.commute)
  with add show ?thesis by blast
qed


subsection \<open>What the driver gets back\<close>

lemma pack_bits_append: "length xs mod 32 = 0 \<Longrightarrow> pack_bits (xs @ ys) = pack_bits xs @ pack_bits ys"
proof (induction xs rule: pack_bits.induct)
  case (1 xs)
  show ?case
  proof (cases "xs = []")
    case False
    then have len: "32 \<le> length xs" using 1(2) by (metis dvd_imp_le dvd_eq_mod_eq_0 length_greater_0_conv)
    then have "(length xs - 32) mod 32 = 0" using 1(2) by (simp add: le_mod_geq)
    then have "pack_bits (drop 32 xs @ ys) = pack_bits (drop 32 xs) @ pack_bits ys" using 1(1) False by simp
    then show ?thesis using False len by (simp add: pack_bits.simps [of "xs @ ys"] pack_bits.simps [of xs])
  qed simp
qed

lemma words_of_bytes_of_words: "words_of_bytes (bytes_of_words ws) = ws"
proof (induction ws)
  case (Cons w ws)
  have "word_of_bytes (byte_of w 0) (byte_of w 1) (byte_of w 2) (byte_of w 3) = w"
    by (rule bit_word_eqI) (auto simp: bit_word_of_bytes bit_byte)
  with Cons show ?case by simp
qed simp

lemma take_bytes_of_bits: "8 * m \<le> length bs \<Longrightarrow> take m (bytes_of_bits bs) = bytes_of_bits (take (8 * m) bs)"
proof (rule nth_equalityI)
  assume m: "8 * m \<le> length bs"
  then have "m \<le> length bs div 8" by simp
  then show "length (take m (bytes_of_bits bs)) = length (bytes_of_bits (take (8 * m) bs))" using m by simp
  fix k assume "k < length (take m (bytes_of_bits bs))"
  then have k: "k < m" "k < length bs div 8" "k < length (take (8 * m) bs) div 8" using m by simp_all
  have "bit (bytes_of_bits bs ! k) j = bit (bytes_of_bits (take (8 * m) bs) ! k) j" if "j < 8" for j
  proof -
    have "8 * k + j < 8 * m" using k(1) that by linarith
    then show ?thesis using k that by (simp add: bit_bytes_of_bits)
  qed
  then show "take m (bytes_of_bits bs) ! k = bytes_of_bits (take (8 * m) bs) ! k"
    using k(1) by (intro bit_word_eqI) simp
qed

lemma bytes_of_packed: "length bs mod 32 = 0 \<Longrightarrow> bytes_of_words (pack_bits bs) = bytes_of_bits bs"
proof (rule nth_equalityI)
  assume len: "length bs mod 32 = 0"
  then have words: "length bs = 32 * length (pack_bits bs)" by (simp add: length_pack_bits) presburger
  then show "length (bytes_of_words (pack_bits bs)) = length (bytes_of_bits bs)" by simp
  fix k assume "k < length (bytes_of_words (pack_bits bs))"
  then have k: "k < 4 * length (pack_bits bs)" "k div 4 < length (pack_bits bs)" by (simp_all add: less_mult_imp_div_less mult.commute)
  have "bit (bytes_of_words (pack_bits bs) ! k) j = bit (bytes_of_bits bs ! k) j" if j: "j < 8" for j
  proof -
    have at: "32 * (k div 4) + (8 * (k mod 4) + j) = 8 * k + j" using mult_div_mod_eq [of 4 k] by linarith
    have "8 * (k mod 4) + j < 32" "8 * k + j < length bs" using j k(1) words by linarith+
    moreover from this at have "8 * (k mod 4) + j < length bs - 32 * (k div 4)" by linarith
    moreover have "k < length bs div 8" using k(1) words by simp
    ultimately show ?thesis using k(2) j
      by (simp add: nth_bytes bit_byte nth_pack_bits bit_word_of_bits bit_bytes_of_bits) (simp only: at)
  qed
  then show "bytes_of_words (pack_bits bs) ! k = bytes_of_bits bs ! k" by (intro bit_word_eqI) simp
qed

lemma unaligned_ok:
  assumes "w < length ins" "n = 32 * w + m" "m < 32" "length tr = n"
    and bits: "\<And>i. 32 * w \<le> i \<Longrightarrow> i < n \<Longrightarrow> (i + shift) div 8 < length b \<and> bit (b ! ((i + shift) div 8)) ((i + shift) mod 8) = tr ! i"
  shows "k \<le> m \<Longrightarrow> (0 < k \<longrightarrow> ins ! w = word_of_bits (take k (drop (32 * w) tr))) \<Longrightarrow> (k < m \<or> 0 < k) \<Longrightarrow>
     unaligned_bits b shift [32 * w + k..<n] ins = Some (ins[w := word_of_bits (drop (32 * w) tr)])"
  using assms(1)
proof (induction "m - k" arbitrary: k ins)
  case 0
  then have "k = m" "ins ! w = word_of_bits (drop (32 * w) tr)" using assms(2,4) by simp_all
  then show ?case using assms(2) by (metis list_update_id unaligned_bits.simps(1) upt_conv_Nil order_refl)
next
  case (Suc l)
  then have k: "k < m" by simp
  let ?i = "32 * w + k"
  have i: "?i div 32 = w" "?i mod 32 = k" using k assms(3) by simp_all
  have at: "(?i + shift) div 8 < length b" "bit (b ! ((?i + shift) div 8)) ((?i + shift) mod 8) = tr ! ?i"
    using bits [of ?i] k assms(2) by simp_all
  let ?xs = "take k (drop (32 * w) tr)"
  have len: "length ?xs = k" using k assms(2,4) by simp
  have snoc: "take (Suc k) (drop (32 * w) tr) = ?xs @ [tr ! ?i]"
    using k assms(2,4) by (simp add: take_Suc_conv_app_nth)
  have word: "word_of_bits (take (Suc k) (drop (32 * w) tr)) = word_of_bits ?xs OR push_bit k (of_bool (tr ! ?i))"
    using word_of_bits_snoc [of ?xs "tr ! ?i"] k assms(3) len unfolding snoc by simp
  let ?ins = "ins[w := word_of_bits (take (Suc k) (drop (32 * w) tr))]"
  have upt: "[?i..<n] = ?i # [32 * w + Suc k..<n]" using k assms(2) by (simp add: upt_conv_Cons)
  have "unaligned_bits b shift [?i..<n] ins = unaligned_bits b shift [32 * w + Suc k..<n] ?ins"
  proof (cases "k = 0")
    case True
    then show ?thesis using Suc.prems(4) at i word unfolding upt by (cases "tr ! ?i") auto
  next
    case False
    then have "ins ! w = word_of_bits ?xs" using Suc.prems(2) by simp
    moreover from this have "ins[w := word_of_bits ?xs] = ins" by (metis list_update_id)
    ultimately show ?thesis using Suc.prems(4) False at i word unfolding upt by (cases "tr ! ?i") auto
  qed
  also have "\<dots> = Some (?ins[w := word_of_bits (drop (32 * w) tr)])"
    using Suc.hyps(2) k Suc.prems(4) by (intro Suc.hyps(1)) simp_all
  finally show ?case by simp
qed

lemma ceil_div: "0 < k \<Longrightarrow> (n + (k - 1)) div k = n div k + of_bool (n mod k \<noteq> 0)" for n k :: nat
proof -
  assume k: "0 < k"
  have "n + (k - 1) = (n mod k + (k - 1)) + n div k * k" by simp
  then have "(n + (k - 1)) div k = n div k + (n mod k + (k - 1)) div k" using k by (metis div_mult_self1 less_numeral_extra(3))
  moreover have "(n mod k + (k - 1)) div k = of_bool (n mod k \<noteq> 0)"
    using k mod_less_divisor [OF k, of n] by (cases "n mod k = 0") (auto intro!: div_nat_eqI)
  ultimately show ?thesis by simp
qed

lemma ceil32: "n mod 32 \<noteq> 0 \<Longrightarrow> (n + 31) div 32 = Suc (n div 32 :: nat)"
proof -
  assume "n mod 32 \<noteq> 0"
  moreover have "(32 :: nat) - 1 = 31" by simp
  ultimately show ?thesis using ceil_div [of 32 n]
    by (simp only: of_bool_eq simp_thms zero_less_numeral Suc_eq_plus1)
qed

lemma div_room: "n \<le> 32 * m \<Longrightarrow> n mod 32 \<noteq> 0 \<Longrightarrow> n div 32 < (m :: nat)"
  by (metis less_mult_imp_div_less mod_mult_self1_is_0 mult.commute order_le_less)

lemma reply_shift:
  assumes "s = (if n mod 16 \<noteq> 0 then 16 - n mod 16 else (0 :: nat))"
  shows "n + s = 8 * (2 * (n div 16) + (if n mod 16 \<noteq> 0 then 2 else 0))"
proof -
  define q r where "q = n div 16" and "r = n mod 16"
  then have "n = 16 * q + r" "r < 16" by simp_all
  then show ?thesis unfolding assms q_def [symmetric] r_def [symmetric] by (cases "r = 0") simp_all
qed

lemma length_reply: "length (cpld_reply tr) = 2 * (length tr div 16) + (if length tr mod 16 \<noteq> 0 then 2 else 0)"
proof -
  let ?s = "if length tr mod 16 \<noteq> 0 then 16 - length tr mod 16 else 0"
  have "length (cpld_reply tr) = (length tr + ?s) div 8" by (simp add: cpld_reply_def Let_def)
  then show ?thesis unfolding reply_shift [OF refl, of "length tr"] by simp
qed

lemma reply_words:
  assumes "w = length tr div 32"
  shows "4 * w \<le> length (cpld_reply tr)" "take (4 * w) (cpld_reply tr) = bytes_of_bits (take (32 * w) tr)"
proof -
  have "32 * w \<le> length tr" using assms by simp
  then have P: "8 * (4 * w) \<le> length (take (32 * w) tr @ xs)" for xs :: "bool list" by simp
  note take = take_bytes_of_bits [OF P]
  show "take (4 * w) (cpld_reply tr) = bytes_of_bits (take (32 * w) tr)"
    using \<open>32 * w \<le> length tr\<close> by (simp add: cpld_reply_def Let_def take flip: assms)
  show "4 * w \<le> length (cpld_reply tr)" unfolding length_reply using assms div_mult2_eq [of "length tr" 16 2] by simp
qed

lemma reply_bits:
  assumes "32 * (length tr div 32) \<le> i" "i < length tr"
    and "s = (if length tr mod 16 \<noteq> 0 then 16 - length tr mod 16 else 0)"
  shows "(i + s) div 8 < length (cpld_reply tr) \<and> bit (cpld_reply tr ! ((i + s) div 8)) ((i + s) mod 8) = tr ! i"
proof -
  let ?k = "32 * (length tr div 32)"
  let ?P = "take ?k tr @ replicate s False @ drop ?k tr"
  have reply: "cpld_reply tr = bytes_of_bits ?P" by (simp add: cpld_reply_def Let_def assms(3))
  have len: "length ?P = length tr + s" by simp
  obtain m where m: "length tr + s = 8 * m" using reply_shift [OF assms(3)] by blast
  then have "i + s < m * 8" using assms(2) by linarith
  then have "(i + s) div 8 < (length tr + s) div 8" unfolding m by (simp add: less_mult_imp_div_less)
  then have lt: "(i + s) div 8 < length ?P div 8" unfolding len .
  have "?k \<le> length tr" "\<not> i + s < ?k" "\<not> i + s - ?k < s" "i + s - ?k - s = i - ?k" using assms(1,2) by simp_all
  then have "?P ! (i + s) = tr ! i" using assms(1,2) by (simp add: nth_append)
  then show ?thesis using lt bit_bytes_of_bits [OF lt, of "(i + s) mod 8"] by (simp add: reply)
qed

text \<open>A read of \<open>tr\<close>: the words of the bits, and what was behind them.\<close>

abbreviation put_bits :: "bool list \<Rightarrow> u32 list \<Rightarrow> u32 list" where
  "put_bits tr ins \<equiv> pack_bits tr @ drop ((length tr + 31) div 32) ins"

lemma store_tdo_ok:
  assumes "length tr \<le> 32 * length ins"
  shows "store_tdo (cpld_reply tr @ rest) (length tr) ins = Some (put_bits tr ins)"
proof -
  let ?n = "length tr" and ?w = "length tr div 32" and ?b = "cpld_reply tr @ rest"
  let ?s = "if length tr mod 16 \<noteq> 0 then 16 - length tr mod 16 else 0"
  let ?ins = "pack_bits (take (32 * ?w) tr) @ drop ?w ins"
  have full: "32 * ?w \<le> ?n" "?w \<le> length ins" using assms by linarith+
  note words = reply_words [OF refl, of tr]
  have mod: "length (take (32 * ?w) tr) mod 32 = 0" using full by simp
  then have "words_of_bytes (take (4 * ?w) ?b) = pack_bits (take (32 * ?w) tr)"
    using words by (simp add: bytes_of_packed [OF mod, symmetric] words_of_bytes_of_words)
  then have start: "store_tdo ?b ?n ins = (if ?n mod 32 \<noteq> 0 then unaligned_bits ?b ?s [32 * ?w..<?n] ?ins else Some ?ins)"
    using full words(1) by (simp add: store_tdo_def Let_def)
  have packed: "length (pack_bits (take (32 * ?w) tr)) = ?w" using full by (simp add: length_pack_bits)
  have tr: "pack_bits tr = pack_bits (take (32 * ?w) tr) @ pack_bits (drop (32 * ?w) tr)"
    using pack_bits_append [OF mod, of "drop (32 * ?w) tr"] by simp
  show ?thesis
  proof (cases "?n mod 32 = 0")
    case True
    then have "drop (32 * ?w) tr = []" "(?n + 31) div 32 = ?w" using ceil_div [of 32 ?n] by simp_all
    with start True show ?thesis by simp
  next
    case False
    note room = div_room [OF assms False] ceil32 [OF False]
    have bits: "(i + ?s) div 8 < length ?b \<and> bit (?b ! ((i + ?s) div 8)) ((i + ?s) mod 8) = tr ! i"
      if "32 * ?w \<le> i" "i < ?n" for i
      using reply_bits [OF that refl] by (simp add: nth_append)
    have "unaligned_bits ?b ?s [32 * ?w + 0..<?n] ?ins = Some (?ins[?w := word_of_bits (drop (32 * ?w) tr)])"
      using room packed False bits by (intro unaligned_ok [where m = "?n mod 32"]) simp_all
    moreover have "?ins[?w := word_of_bits (drop (32 * ?w) tr)] =
        pack_bits (take (32 * ?w) tr) @ word_of_bits (drop (32 * ?w) tr) # drop (Suc ?w) ins"
      using packed room by (simp add: list_update_append upd_conv_take_nth_drop)
    moreover have "?n - 32 * ?w = ?n mod 32" by (simp add: minus_mult_div_eq_mod)
    then have "length (drop (32 * ?w) tr) \<le> 32" "drop (32 * ?w) tr \<noteq> []"
      using False mod_less_divisor [of 32 ?n] by (simp, fastforce)
    ultimately show ?thesis using start False room tr pack_bits_single [of "drop (32 * ?w) tr"] by simp
  qed
qed


text \<open>Every transfer of a read stores its bits from the first word on.\<close>

function stored_bits :: "bool list \<Rightarrow> u32 list \<Rightarrow> u32 list" where
  "stored_bits tr ins =
     (if length tr < 8191 then if tr = [] then ins else put_bits tr ins
      else stored_bits (drop 8191 tr) (put_bits (take 8191 tr) ins))"
  by pat_completeness auto
termination by (relation "measure (\<lambda>(tr, _). length tr)") auto

declare stored_bits.simps [simp del]

lemma stored_bits_Nil [simp]: "stored_bits [] ins = ins"
  by (simp add: stored_bits.simps)

lemma stored_bits_short: "tr \<noteq> [] \<Longrightarrow> length tr < 8192 \<Longrightarrow> stored_bits tr ins = put_bits tr ins"
  by (cases "length tr = 8191") (simp_all add: stored_bits.simps)

lemma stored_bits_append: "length tr = 8191 \<Longrightarrow> stored_bits (tr @ tr') ins = stored_bits tr' (put_bits tr ins)"
  by (simp add: stored_bits.simps [of "tr @ tr'"])

lemma length_put_bits: "length tr \<le> 32 * length ins \<Longrightarrow> length (put_bits tr ins) = length ins"
  by (simp add: length_pack_bits)

subsection \<open>The driver on the box\<close>

lemma length_run: "length (fst (cpld_run step tdo cs d)) = length (filter (\<lambda>(_, _, _, sample). sample) cs)"
  by (induction step tdo cs d rule: cpld_run.induct) (auto simp: split_beta)

definition packet_change :: "u8 \<Rightarrow> cpld_change" where
  "packet_change p = (bit p 0, bit p 1, True, True)"

context cpld_box
begin

abbreviation "pstep \<equiv> packet_step (\<lambda>_. pin_step)"

definition ok :: "'u xpcusb \<Rightarrow> bool" where
  "ok s \<longleftrightarrow> xp_open s \<and> cpld_ctrl s \<and> idle (xp_bus s)"

abbreviation "dev s \<equiv> xdev (xp_bus s)"

lemma run_packets:
  "cpld_run pin_step tdo (map packet_change ps) d = (tdo_trace pstep tdo ps d, fold pstep ps d)"
  "cpld_run pin_step tdo (map packet_change ps @ [no_change]) d = (tdo_trace pstep tdo ps d, fold pstep ps d)"
  by (induction ps arbitrary: d) (simp_all add: packet_change_def packet_step_def no_change_def)

lemma transfer_ok:
  assumes "xts_holds xts cs" "length cs mod 4 \<noteq> 0" "length cs < 8192" "ok s"
    and run: "cpld_run pin_step tdo cs (dev s) = (tr, d)" "tr \<noteq> []"
    and room: "\<And>x. ins = Some x \<Longrightarrow> length tr \<le> 32 * length x"
  shows "\<exists>b s'. xpcusb_do_ext_transfer lib xts ins s =
     Some ((0, \<lparr>in_bits = 0, out_bits = 0, xts_buf = b\<rparr>, map_option (put_bits tr) ins), s') \<and> length b = 4096 \<and> ok s' \<and> dev s' = d"
proof -
  let ?b = "xts_buf xts" and ?n = "length cs"
  have xts: "in_bits xts = ?n" "out_bits xts = length tr" "length ?b = 4096"
    using assms(1) length_run [of pin_step tdo cs "dev s"] by (simp_all add: xts_holds_def run(1))
  have tr: "length tr \<le> ?n" using length_run [of pin_step tdo cs "dev s"] by (simp add: run(1))
  have words: "?n div 4 < 2048" using assms(3) by (simp add: less_mult_imp_div_less)
  have in_len: "2 * (?n div 4) + 2 = 2 * ((?n + 3) div 4)" using half_words [OF assms(2)] by simp
  then have send: "length (take (2 * ((?n + 3) div 4)) ?b) = 2 * ((?n + 3) div 4)" using words xts(3) by simp
  have "cpld_run pin_step tdo (cpld_changes (take (2 * ((?n + 3) div 4)) ?b) ?n) (dev s) = (tr, d)"
    using run(1) xts_holds_changes [OF assms(1)] by (simp add: cpld_changes_take)
  moreover have "idle (xp_bus s)" "xp_open s" using assms(4) by (simp_all add: ok_def)
  ultimately obtain r1 x1 u1 r2 u2 r3 u3 where
    box: "lu_control_msg lib 0x40 0xB0 0xA6 ?n 0 (xp_bus s) = ((r1, x1), u1)" "0 \<le> r1"
      "lu_bulk_write lib 0x02 (take (2 * ((?n + 3) div 4)) ?b) u1 = (r2, u2)" "0 \<le> r2"
      "lu_bulk_read lib 0x86 (length (cpld_reply tr)) u2 = ((r3, cpld_reply tr), u3)" "0 \<le> r3" "idle u3" "xdev u3 = d"
    using box_shift [OF _ assms(2) send _ run(2)] by blast
  have pos: "0 < length (cpld_reply tr)" using run(2) length_reply [of tr] by (cases "length tr mod 16 = 0") (auto simp: div_greater_zero_iff dest: dvd_imp_le)
  have "length tr div 16 < 512" using tr assms(3) by (simp add: less_mult_imp_div_less)
  then have small: "length (cpld_reply tr) \<le> 4096" by (simp add: length_reply)
  let ?s = "s\<lparr>xp_bus := u3\<rparr>"
  have shift: "xpcu_shift lib 0xA6 ?n (take (2 * ((?n + 3) div 4)) ?b) (length (cpld_reply tr)) s = Some ((0, cpld_reply tr), ?s)"
    using box pos \<open>xp_open s\<close> by (simp add: xpcu_shift_def xpcu_request_def with_handle_def)
  have over: "received_over (cpld_reply tr) ?b = cpld_reply tr @ drop (length (cpld_reply tr)) ?b"
    using small xts(3) by (simp add: received_over_def)
  have len: "2 * (length tr div 16) + (if length tr mod 16 \<noteq> 0 then 2 else 0) = length (cpld_reply tr)"
    by (simp add: length_reply)
  have "2 * ((?n + 3) div 4) \<le> 4096" using in_len words by linarith
  moreover have "(if ?n mod 4 \<noteq> 0 then 2 else 0) = (2 :: nat)" using assms(2) by simp
  ultimately have "xpcusb_do_ext_transfer lib xts ins s =
      Some ((0, \<lparr>in_bits = 0, out_bits = 0, xts_buf = received_over (cpld_reply tr) ?b\<rparr>, map_option (put_bits tr) ins), ?s)"
    using shift small xts(3) run(2) room over
    unfolding xpcusb_do_ext_transfer_def Let_def xts(1,2) len
    by (cases ins) (simp_all only: in_len, simp_all add: store_tdo_ok)
  moreover have "length (received_over (cpld_reply tr) ?b) = 4096" using over small xts(3) by simp
  ultimately show ?thesis using assms(4) box(7,8) by (auto simp: ok_def)
qed

text \<open>\<open>qs\<close>: the packets in the buffer; \<open>ps\<close>: those still to come.\<close>

lemma bits_ok:
  assumes "n \<le> 32 * length ws"
  shows "ps = map (stream_packet ws n l) [n - k..<n] \<Longrightarrow> k \<le> n \<Longrightarrow> xts_holds xts (map packet_change qs) \<Longrightarrow> length qs < 8191 \<Longrightarrow> ok s \<Longrightarrow>
     (\<forall>x. ins = Some x \<longrightarrow> length (qs @ ps) \<le> 32 * length x) \<Longrightarrow>
     \<exists>xts' ins' s' qs'. xpcusb_bits lib (Some ws) l k (n - k) xts ins s = Some ((xts', ins'), s')
       \<and> xts_holds xts' (map packet_change qs') \<and> length qs' < 8191 \<and> ok s'
       \<and> (\<forall>x. ins' = Some x \<longrightarrow> length qs' \<le> 32 * length x)
       \<and> fold pstep qs' (dev s') = fold pstep (qs @ ps) (dev s)
       \<and> map_option (stored_bits (tdo_trace pstep tdo qs' (dev s'))) ins' = map_option (stored_bits (tdo_trace pstep tdo (qs @ ps) (dev s))) ins"
proof (induction k arbitrary: ps xts qs ins s)
  case 0
  then show ?case by (intro exI [of _ xts] exI [of _ ins] exI [of _ s] exI [of _ qs]) simp
next
  case (Suc k)
  let ?i = "n - Suc k"
  let ?p = "stream_packet ws n l (n - Suc k)" and ?ps = "map (stream_packet ws n l) [n - k..<n]"
  have i: "?i < n" "Suc ?i = n - k" using Suc.prems(2) by simp_all
  then have ps: "ps = ?p # ?ps" using Suc.prems(1) by (simp add: upt_conv_Cons)
  have word: "?i div 32 < length ws" using i(1) assms by (simp add: less_mult_imp_div_less)
  have last: "k = 0 \<longleftrightarrow> Suc ?i = n" using i by auto
  have change: "(stream_bit ws ?i, k = 0 \<and> l, True, True) = packet_change ?p"
    unfolding last by (auto simp: packet_change_def stream_packet_def TDO_def TMS_def bit_or_iff)
  obtain xts1 where xts1: "xpcusb_add_bit_for_ext_transfer xts True (k = 0 \<and> l) (stream_bit ws ?i) True = Some xts1"
    "xts_holds xts1 (map packet_change (qs @ [?p]))"
    using add_bit_ok [OF Suc.prems(3), of True "k = 0 \<and> l" "stream_bit ws ?i" True] Suc.prems(4) unfolding change by auto
  have bits: "in_bits xts1 = Suc (length qs)" using xts1(2) by (simp add: xts_holds_def)
  have step: "xpcusb_bits lib (Some ws) l (Suc k) ?i xts ins s =
      (if Suc (length qs) = 8191 then
         do { ((ret, xts, instream), s) \<leftarrow> xpcusb_do_ext_transfer lib xts1 ins s;
              (if ret \<noteq> 0 then None else xpcusb_bits lib (Some ws) l k (?i + 1) xts instream s) }
       else xpcusb_bits lib (Some ws) l k (?i + 1) xts1 ins s)"
    using word xts1(1) bits by (simp add: stream_bit_def CPLD_MAX_BYTES_def)
  have next_i: "?i + 1 = n - k" using i(2) by simp
  note step = step [unfolded next_i]
  show ?case
  proof (cases "Suc (length qs) = 8191")
    case False
    then have "length (qs @ [?p]) < 8191" using Suc.prems(4) by simp
    from Suc.IH [OF refl _ xts1(2) this Suc.prems(5)] show ?thesis
      using Suc.prems(2,6) False unfolding step ps by simp
  next
    case True
    let ?qs = "qs @ [?p]"
    let ?tr = "tdo_trace pstep tdo ?qs (dev s)"
    have len: "length (map packet_change ?qs) = 8191" "length ?tr = 8191" using True by simp_all
    then have ne: "?tr \<noteq> []" by fastforce
    have room: "length ?tr \<le> 32 * length x" if "ins = Some x" for x
      using Suc.prems(6) that ps by simp
    obtain b s1 where s1: "xpcusb_do_ext_transfer lib xts1 ins s =
        Some ((0, \<lparr>in_bits = 0, out_bits = 0, xts_buf = b\<rparr>, map_option (put_bits ?tr) ins), s1)" "length b = 4096" "ok s1"
      "dev s1 = fold pstep ?qs (dev s)"
      using transfer_ok [OF xts1(2) _ _ Suc.prems(5) run_packets(1) ne, of ins] len room by auto
    let ?ins = "map_option (put_bits ?tr) ins"
    have rest: "\<forall>x. ?ins = Some x \<longrightarrow> length ([] @ ?ps) \<le> 32 * length x"
    proof (intro allI impI)
      fix x assume "?ins = Some x"
      then obtain y where y: "ins = Some y" "x = put_bits ?tr y" by (cases ins) auto
      then have "length x = length y" using room [OF y(1)] length_put_bits by blast
      then show "length ([] @ ?ps) \<le> 32 * length x" using Suc.prems(6) y(1) ps by simp
    qed
    have fresh: "xts_holds \<lparr>in_bits = 0, out_bits = 0, xts_buf = b\<rparr> (map packet_change [])"
      using xts_holds_Nil [OF s1(2)] by simp
    have all: "tdo_trace pstep tdo (qs @ ps) (dev s) = ?tr @ tdo_trace pstep tdo ?ps (dev s1)"
      "fold pstep (qs @ ps) (dev s) = fold pstep ?ps (dev s1)"
      unfolding ps s1(4) by (simp_all add: tdo_trace_append)
    have stored: "map_option (stored_bits (tdo_trace pstep tdo (qs @ ps) (dev s))) ins =
        map_option (stored_bits (tdo_trace pstep tdo ?ps (dev s1))) ?ins"
      unfolding all stored_bits_append [OF len(2)] by (cases ins) simp_all
    have "xpcusb_bits lib (Some ws) l (Suc k) ?i xts ins s =
        xpcusb_bits lib (Some ws) l k (n - k) \<lparr>in_bits = 0, out_bits = 0, xts_buf = b\<rparr> ?ins s1"
      unfolding step using True s1(1) by simp
    then show ?thesis
      using Suc.IH [OF refl _ fresh _ s1(3) rest] Suc.prems(2) unfolding stored all(2) by simp
  qed
qed

lemma stream_ok:
  assumes "ok s" "0 < n" "n \<le> 32 * length ws" "4096 \<le> length j" "\<And>x. ins = Some x \<Longrightarrow> n \<le> 32 * length x"
  shows "\<exists>s'. cable_xpcusb_readwrite_stream lib j (Some ws) ins (int n) l s =
       Some (0, map_option (stored_bits (tdo_trace pstep tdo (stream_packets ws n l) (dev s))) ins, s')
     \<and> ok s' \<and> dev s' = fold pstep (stream_packets ws n l) (dev s)"
proof -
  let ?xts = "\<lparr>in_bits = 0, out_bits = 0, xts_buf = take CPLD_MAX_BYTES j\<rparr>"
  have fresh: "xts_holds ?xts (map packet_change [])"
    using assms(4) xts_holds_Nil by (simp add: CPLD_MAX_BYTES_def)
  obtain xts' ins' s1 qs where loop: "xpcusb_bits lib (Some ws) l n 0 ?xts ins s = Some ((xts', ins'), s1)"
    "xts_holds xts' (map packet_change qs)" "length qs < 8191" "ok s1"
    "\<And>x. ins' = Some x \<Longrightarrow> length qs \<le> 32 * length x"
    "fold pstep qs (dev s1) = fold pstep (stream_packets ws n l) (dev s)"
    "map_option (stored_bits (tdo_trace pstep tdo qs (dev s1))) ins' =
      map_option (stored_bits (tdo_trace pstep tdo (stream_packets ws n l) (dev s))) ins"
    using bits_ok [OF assms(3) _ _ fresh _ assms(1), of "stream_packets ws n l" l n ins] assms(5)
    by (auto simp: stream_packets_def)
  have bits: "in_bits xts' = length qs" using loop(2) by (simp add: xts_holds_def)
  let ?stop = "do { xts \<leftarrow> (if in_bits xts' mod 4 = 0 then xpcusb_add_bit_for_ext_transfer xts' False False False False else Some xts');
      ((ret, _, instream), s) \<leftarrow> xpcusb_do_ext_transfer lib xts ins' s1;
      (if ret \<noteq> 0 then None else Some (APP_ERR_NONE, instream, s)) }"
  have start: "cable_xpcusb_readwrite_stream lib j (Some ws) ins (int n) l s =
      (if in_bits xts' > 0 then ?stop else Some (0, ins', s1))"
    using assms(1) loop(1) by (simp add: cable_xpcusb_readwrite_stream_def xpcusb_open_if_necessary_def ok_def APP_ERR_NONE_def)
  show ?thesis
  proof (cases "qs = []")
    case True
    then show ?thesis using start loop(4,6,7) bits by (cases ins') simp_all
  next
    case False
    let ?tr = "tdo_trace pstep tdo qs (dev s1)"
    have ne: "?tr \<noteq> []" using False by (metis length_0_conv length_tdo_trace)
    have same: "map_option (put_bits ?tr) ins' = map_option (stored_bits (tdo_trace pstep tdo (stream_packets ws n l) (dev s))) ins"
      unfolding loop(7) [symmetric] using ne loop(3) by (cases ins') (simp_all add: stored_bits_short)
    obtain xts cs where xts: "(if in_bits xts' mod 4 = 0 then xpcusb_add_bit_for_ext_transfer xts' False False False False else Some xts') = Some xts"
      "xts_holds xts cs" "length cs mod 4 \<noteq> 0" "length cs < 8192"
      "cpld_run pin_step tdo cs (dev s1) = (?tr, fold pstep qs (dev s1))"
    proof (cases "length qs mod 4 = 0")
      case True
      obtain xts where "xpcusb_add_bit_for_ext_transfer xts' False False False False = Some xts"
        "xts_holds xts (map packet_change qs @ [no_change])"
        using add_bit_ok [OF loop(2), of False False False False] loop(3) by (auto simp: no_change_def)
      then show thesis
        using that [of xts "map packet_change qs @ [no_change]"] True loop(3) bits by (simp add: run_packets mod_Suc)
    next
      case False
      then show thesis using that [of xts' "map packet_change qs"] loop(2,3) bits by (simp add: run_packets)
    qed
    obtain b s2 where "xpcusb_do_ext_transfer lib xts ins' s1 =
        Some ((0, \<lparr>in_bits = 0, out_bits = 0, xts_buf = b\<rparr>, map_option (put_bits ?tr) ins'), s2)" "ok s2"
      "dev s2 = fold pstep qs (dev s1)"
      using transfer_ok [OF xts(2,3,4) loop(4) xts(5) ne, of ins'] loop(5) by auto
    then show ?thesis using start xts(1) False bits same loop(6) by (auto simp: APP_ERR_NONE_def)
  qed
qed

end


subsection \<open>The box on a device\<close>

text \<open>What has been announced, and the reply not yet read.\<close>

record 'd cpld =
  cp_dev :: 'd
  cp_bits :: nat
  cp_reply :: "u8 list"

definition cpld_lib :: "(bool \<Rightarrow> bool \<Rightarrow> 'd \<Rightarrow> 'd) \<Rightarrow> ('d \<Rightarrow> bool) \<Rightarrow> 'd cpld libusb" where
  "cpld_lib step tdo =
     \<lparr>lu_scan = (\<lambda>x. ([[\<lparr>idVendor = 0x1D6B, idProduct = 2\<rparr>], [\<lparr>idVendor = 0x3FD, idProduct = 8\<rparr>]], x)),
      lu_open = (\<lambda>d x. (True, x)), lu_reset = (\<lambda>x. (0, x)), lu_close = (\<lambda>x. x),
      lu_control_msg = (\<lambda>_ _ req v n x. ((int n, replicate n 1), if req = 0xA6 then x\<lparr>cp_bits := v\<rparr> else x)),
      lu_set_configuration = (\<lambda>x. (0, x)), lu_claim_interface = (\<lambda>x. (0, x)), lu_release_interface = (\<lambda>x. (0, x)),
      lu_bulk_write = (\<lambda>_ b x. let (tr, d) = cpld_run step tdo (cpld_changes b (cp_bits x)) (cp_dev x) in
        (int (length b), x\<lparr>cp_dev := d, cp_reply := cpld_reply tr\<rparr>)),
      lu_bulk_read = (\<lambda>_ k x. ((int (length (take k (cp_reply x))), take k (cp_reply x)), x\<lparr>cp_reply := drop k (cp_reply x)\<rparr>)),
      lu_timer_create = (\<lambda>x. (0, x)), lu_timer_settime = (\<lambda>x. (0, x)), lu_timer_gettime = (\<lambda>x. ((0, 5), x))\<rparr>"

lemma cpld_box_lib: "cpld_box (cpld_lib step tdo) cp_dev (\<lambda>x. cp_reply x = []) step tdo"
  by unfold_locales (auto simp: cpld_lib_def)

interpretation cpld_tap: cpld_box "cpld_lib (tck_cycle False) tdo_mux_out" cp_dev "\<lambda>x. cp_reply x = []" "tck_cycle False" tdo_mux_out
  by (rule cpld_box_lib)

subsection \<open>What the driver promises\<close>

text \<open>
  C35. A stream through the driver of the Xilinx cable takes the device through the steps that were asked for,
  whatever its length and in however many transfers, with no step for the bit that is added to avoid a
  multiple of four. A stream that is read and has up to 8191 bits, which is one transfer, comes back as the
  shared routine would give it, although the reply packs the bits behind its last whole word differently.
  Of a longer one, each transfer is stored from the start of the buffer on, over the one before.
\<close>

lemma xpc_stream_shifts:
  assumes "cpld_box lib xdev idle pin_step tdo"
    and "xp_open s" "cpld_ctrl s" "idle (xp_bus s)"
    and "0 < n" "n \<le> 32 * length ws" "n \<le> 32 * length ins" "4096 \<le> length j"
    and tr: "tr = tdo_trace (packet_step (\<lambda>_. pin_step)) tdo (stream_packets ws n l) (xdev (xp_bus s))"
    and d: "d = fold (packet_step (\<lambda>_. pin_step)) (stream_packets ws n l) (xdev (xp_bus s))"
  shows "(\<exists>s'. stream_out_func (dlc9_cable_driver lib j k) ws (int n) l s = Some (0, s')
       \<and> xp_open s' \<and> cpld_ctrl s' \<and> idle (xp_bus s') \<and> xdev (xp_bus s') = d)
     \<and> (\<exists>ins' s'. stream_inout_func (dlc9_cable_driver lib j k) ws ins (int n) l s = Some (0, ins', s')
       \<and> ins' = stored_bits tr ins \<and> (n < 8192 \<longrightarrow> ins' = pack_bits tr @ drop ((n + 31) div 32) ins)
       \<and> xp_open s' \<and> cpld_ctrl s' \<and> idle (xp_bus s') \<and> xdev (xp_bus s') = d)"
proof -
  note run = cpld_box.stream_ok [OF assms(1) _ assms(5,6,8)]
  have ok: "cpld_box.ok idle s" using assms(2-4) by (simp add: cpld_box.ok_def [OF assms(1)])
  have len: "length tr = n" by (simp add: tr)
  then have ne: "tr \<noteq> []" using assms(5) by fastforce
  note driver = dlc9_cable_driver_def cable_xpcusb_write_stream_def
  show ?thesis
    using run [OF ok, of None l] run [OF ok, of "Some ins" l] assms(7) stored_bits_short [OF ne, of ins]
    unfolding cpld_box.ok_def [OF assms(1)] tr [symmetric] d [symmetric]
    by (auto simp: driver len)
qed

definition xpc_shifting :: "debug_dev cpld xpcusb" where
  "xpc_shifting =
     (xpcusb_start \<lparr>cp_dev = power_on_dev\<lparr>TAP_state := Shift_DR\<rparr>, cp_bits = 0, cp_reply = []\<rparr>)
       \<lparr>xp_open := True, cpld_ctrl := True\<rparr>"

lemma xpc_stream_shifts_witness:
  "\<exists>s'. stream_inout_func (dlc9_cable_driver (cpld_lib (tck_cycle False) tdo_mux_out) (replicate 4096 0) 0) [0, 0] [7, 7, 7] 36 True xpc_shifting =
     Some (0, [IDCODE_VALUE, 0, 7], s') \<and> TAP_state (cp_dev (xp_bus s')) = Exit1_DR"
proof -
  have "pack_bits (tdo_trace (packet_step (\<lambda>_. tck_cycle False)) tdo_mux_out (stream_packets [0, 0] 36 True)
        (power_on_dev\<lparr>TAP_state := Shift_DR\<rparr>)) = [IDCODE_VALUE, 0]"
    "TAP_state (fold (packet_step (\<lambda>_. tck_cycle False)) (stream_packets [0, 0] 36 True)
        (power_on_dev\<lparr>TAP_state := Shift_DR\<rparr>)) = Exit1_DR"
    by code_simp+
  then show ?thesis
    using xpc_stream_shifts [OF cpld_tap.cpld_box_axioms _ _ _ _ _ _ _ refl refl, where s = xpc_shifting and n = 36
      and ws = "[0, 0]" and ins = "[7, 7, 7]" and j = "replicate 4096 0" and l = True and k = 0]
    by (auto simp: xpc_shifting_def xpcusb_start_def)
qed

text \<open>
  C36. A read of more than 8191 bits does not return what the device gave. Each transfer stores its bits
  from the first word of the buffer on, so those of the second one replace those of the first, the words
  behind them keep the bits of the first one, and the driver reports no error.
\<close>

lemma xpc_long_read_overwritten:
  assumes "cpld_box lib xdev idle pin_step tdo"
    and "xp_open s" "cpld_ctrl s" "idle (xp_bus s)"
    and "8191 < n" "n < 16383" "n \<le> 32 * length ws" "n \<le> 32 * length ins" "4096 \<le> length j"
    and tr: "tr = tdo_trace (packet_step (\<lambda>_. pin_step)) tdo (stream_packets ws n l) (xdev (xp_bus s))"
  shows "\<exists>s'. stream_inout_func (dlc9_cable_driver lib j k) ws ins (int n) l s =
     Some (0, pack_bits (drop 8191 tr) @ drop ((n - 8191 + 31) div 32) (pack_bits (take 8191 tr) @ drop 256 ins), s')"
proof -
  have ok: "cpld_box.ok idle s" using assms(2-4) by (simp add: cpld_box.ok_def [OF assms(1)])
  have n: "0 < n" using assms(5) by simp
  have len: "length tr = n" by (simp add: tr)
  have first: "length (take 8191 tr) = 8191" and second: "drop 8191 tr \<noteq> []" "length (drop 8191 tr) < 8192"
    using assms(5,6) len by simp_all
  have "stored_bits (take 8191 tr @ drop 8191 tr) ins =
      pack_bits (drop 8191 tr) @ drop ((n - 8191 + 31) div 32) (pack_bits (take 8191 tr) @ drop 256 ins)"
    unfolding stored_bits_append [OF first] stored_bits_short [OF second] first using assms(5) by (simp add: len)
  then show ?thesis
    using cpld_box.stream_ok [OF assms(1) ok n assms(7,9), of "Some ins" l] assms(8) unfolding tr [symmetric]
    by (auto simp: dlc9_cable_driver_def)
qed

lemma high_trace: "tdo_trace step (\<lambda>_. True) ps d = replicate (length ps) True"
  by (induction ps arbitrary: d) simp_all

lemma xpc_long_read_overwritten_witness:
  "\<exists>ins' s'. stream_inout_func (dlc9_cable_driver (cpld_lib (\<lambda>_ _ d. d) (\<lambda>_. True)) (replicate 4096 0) 0)
      (replicate 256 0) (replicate 256 0) 8192 False
      ((xpcusb_start \<lparr>cp_dev = (), cp_bits = 0, cp_reply = []\<rparr>)\<lparr>xp_open := True, cpld_ctrl := True\<rparr>) = Some (0, ins', s')
    \<and> ins' ! 0 = 1"
proof -
  let ?s = "(xpcusb_start \<lparr>cp_dev = (), cp_bits = 0, cp_reply = []\<rparr>)\<lparr>xp_open := True, cpld_ctrl := True\<rparr>"
  have "pack_bits (drop 8191 (replicate 8192 True)) = [1]"
    by (simp add: pack_bits_single word_of_bits_def)
  then show ?thesis
    using xpc_long_read_overwritten [OF cpld_box_lib [of "\<lambda>_ _ d. d" "\<lambda>_. True"], where s = ?s and n = 8192 and ws = "replicate 256 0"
      and ins = "replicate 256 0" and j = "replicate 4096 0" and l = False and k = 0]
    by (auto simp: xpcusb_start_def high_trace)
qed

text \<open>
  When the cable can not be opened, a bit read through the driver still succeeds: the error of the
  stream is a positive number, and only a negative one is passed on. The value is that of a variable
  that was never set.
\<close>

lemma xpc_failed_open_reads_junk:
  assumes "\<not> xp_open s" "xp_device s = Some dv" "\<not> fst (lu_open lib dv (xp_bus s))"
  shows "\<exists>s'. bit_inout_func (dlc9_cable_driver lib j k) p s = Some (0, ucast (k AND 1), s')"
proof -
  obtain u where "lu_open lib dv (xp_bus s) = (False, u)" using assms(3) by (metis fst_conv surj_pair)
  then have "cable_xpcusb_open_cable lib s = Some (APP_ERR_USB, s\<lparr>xp_bus := u, xp_open := False\<rparr>)"
    using assms(2) by (simp add: cable_xpcusb_open_cable_def usb_open_cable_def)
  then show ?thesis
    using assms(1)
    by (simp add: dlc9_cable_driver_def cable_xpcusb_cpld_readwrite_bit_def cable_xpcusb_readwrite_stream_def
        xpcusb_open_if_necessary_def APP_ERR_USB_def APP_ERR_NONE_def)
qed

lemma xpc_failed_open_reads_junk_witness:
  "\<exists>s'. bit_inout_func (dlc9_cable_driver ((cpld_lib (\<lambda>_ _ d. d) (\<lambda>_. False))\<lparr>lu_open := \<lambda>_ x. (False, x)\<rparr>) (replicate 4096 0) 1) 0
      ((xpcusb_start \<lparr>cp_dev = (), cp_bits = 0, cp_reply = []\<rparr>)\<lparr>xp_device := Some \<lparr>idVendor = 0x3FD, idProduct = 8\<rparr>\<rparr>) = Some (0, 1, s')"
  using xpc_failed_open_reads_junk [where lib = "(cpld_lib (\<lambda>_ _ d. d) (\<lambda>_. False))\<lparr>lu_open := \<lambda>_ x. (False, x)\<rparr>"
    and s = "(xpcusb_start \<lparr>cp_dev = (), cp_bits = 0, cp_reply = []\<rparr>)\<lparr>xp_device := Some \<lparr>idVendor = 0x3FD, idProduct = 8\<rparr>\<rparr>"
    and j = "replicate 4096 0" and k = 1 and p = 0]
  by (simp add: xpcusb_start_def)

end
