(* ===== verification/Cable_Ft2232.thy ===== *)
theory Cable_Ft2232
  imports Cable_Ft245
begin

unbundle bit_operations_syntax

text \<open>
  cable_ft2232.c: the driver of the FT2232, a USB chip with a serial engine (MPSSE), over libftdi. Commands
  are collected in a buffer, and what they give back is read when it is asked for. The calls and the
  command codes of libftdi are the record \<open>mpsse_lib\<close> over the state \<open>'u\<close> of the bus and of what
  hangs on it; \<open>None\<close> is a loop that does not end, a null pointer, or an access outside of a buffer.
  Messages have no counterpart.
\<close>

subsection \<open>libftdi\<close>

text \<open>
  A read returns what the call returns, and the bytes it has put into the buffer. \<open>mf_malloc\<close> is whether
  memory was there.
\<close>

record 'u mpsse_lib =
  mf_init :: "'u \<Rightarrow> int \<times> 'u"
  mf_usb_open_desc :: "u32 \<Rightarrow> u32 \<Rightarrow> 'u \<Rightarrow> int \<times> 'u"
  mf_deinit :: "'u \<Rightarrow> unit \<times> 'u"
  mf_usb_close :: "'u \<Rightarrow> int \<times> 'u"
  mf_usb_purge_buffers :: "'u \<Rightarrow> int \<times> 'u"
  mf_usb_reset :: "'u \<Rightarrow> int \<times> 'u"
  mf_write_data_set_chunksize :: "nat \<Rightarrow> 'u \<Rightarrow> int \<times> 'u"
  mf_read_data_set_chunksize :: "nat \<Rightarrow> 'u \<Rightarrow> int \<times> 'u"
  mf_set_latency_timer :: "nat \<Rightarrow> 'u \<Rightarrow> int \<times> 'u"
  mf_set_bitmode_mpsse :: "u8 \<Rightarrow> 'u \<Rightarrow> int \<times> 'u"
  mf_write_data :: "u8 list \<Rightarrow> 'u \<Rightarrow> int \<times> 'u"
  mf_read_data :: "nat \<Rightarrow> 'u \<Rightarrow> (int \<times> u8 list) \<times> 'u"
  mf_malloc :: "'u \<Rightarrow> bool \<times> 'u"
  MPSSE_WRITE_NEG :: u8
  MPSSE_BITMODE :: u8
  MPSSE_LSB :: u8
  MPSSE_DO_WRITE :: u8
  MPSSE_DO_READ :: u8
  MPSSE_WRITE_TMS :: u8
  SET_BITS_LOW :: u8
  SET_BITS_HIGH :: u8
  TCK_DIVISOR :: u8
  LOOPBACK_END :: u8
  SEND_IMMEDIATE :: u8

subsection \<open>State\<close>

text \<open>
  \<open>fp_ftdic\<close> is whether the context is there. Of the two buffers the lists hold the bytes that have been
  written; nothing else in them is ever read.
\<close>

record ftdi_param_t =
  fp_ftdic :: bool
  send_buf_len :: u32
  send_buffered :: u32
  send_buf :: "u8 list option"
  recv_buf_len :: u32
  to_recv :: u32
  recv_write_idx :: u32
  recv_read_idx :: u32
  recv_buf :: "u8 list option"

record 'u ft2232 =
  f2_bus :: 'u
  f2_vid :: u32
  f2_pid :: u32
  ft2232_device :: "ftdi_param_t option"

definition ft2232_start :: "'u \<Rightarrow> 'u ft2232" where
  "ft2232_start u = \<lparr>f2_bus = u, f2_vid = 0x0403, f2_pid = 0x6010, ft2232_device = None\<rparr>"

definition FTDX_MAXSEND :: u32 where "FTDX_MAXSEND = 4096"
definition FTDX_MAXSEND_MPSSE :: nat where "FTDX_MAXSEND_MPSSE = 65536"
definition FTDI_MAXRECV :: u32 where "FTDI_MAXRECV = 256"

text \<open>The wrappers of the calls of libftdi only print.\<close>

definition my_ftdi :: "('u \<Rightarrow> 'a \<times> 'u) \<Rightarrow> 'u ft2232 \<Rightarrow> 'a \<times> 'u ft2232" where
  "my_ftdi f s = (let (x, u) = f (f2_bus s) in (x, s\<lparr>f2_bus := u\<rparr>))"

definition set_params :: "ftdi_param_t \<Rightarrow> 'u ft2232 \<Rightarrow> 'u ft2232" where
  "set_params p s = s\<lparr>ft2232_device := Some p\<rparr>"

subsection \<open>Opening\<close>

definition usbconn_ftdi_common_open :: "'u mpsse_lib \<Rightarrow> 'u ft2232 \<Rightarrow> int \<times> 'u ft2232" where
  "usbconn_ftdi_common_open lib s =
     (let (err, s) = my_ftdi (mf_usb_open_desc lib (f2_vid s) (f2_pid s)) s in
      if err \<noteq> 0 then (let (_, s) = my_ftdi (mf_deinit lib) s in (-1, s)) else (0, s))"

definition seq_purge :: "'u mpsse_lib \<Rightarrow> 'u ft2232 \<Rightarrow> int \<times> 'u ft2232" where
  "seq_purge lib s =
     (let (r, s) = my_ftdi (mf_usb_purge_buffers lib) s in
      if r < 0 then (-1, s)
      else (let ((r, _), s) = my_ftdi (mf_read_data lib 1) s in (if r < 0 then -1 else 0, s)))"

definition seq_reset :: "'u mpsse_lib \<Rightarrow> 'u ft2232 \<Rightarrow> int \<times> 'u ft2232" where
  "seq_reset lib s =
     (let (r, s) = my_ftdi (mf_usb_reset lib) s in
      if r < 0 then (-1, s) else (let (r, s) = seq_purge lib s in (if r < 0 then -1 else 0, s)))"

subsection \<open>The buffers\<close>

text \<open>Reading until something comes, or an error.\<close>

partial_function (option) read_until :: "'u mpsse_lib \<Rightarrow> int \<Rightarrow> 'u \<Rightarrow> ((int \<times> u8 list) \<times> 'u) option" where
  "read_until lib n u =
     (if n < 0 then None
      else
        (let ((rv, bs), u) = mf_read_data lib (nat n) u in
         if rv = 0 then read_until lib n u
         else if rv > n then None
         else Some ((rv, take (nat rv) bs), u)))"

declare read_until.simps [code]

text \<open>The bytes put at an index of a buffer of \<open>cap\<close> bytes.\<close>

definition put_bytes :: "nat \<Rightarrow> nat \<Rightarrow> u8 list \<Rightarrow> u8 list \<Rightarrow> u8 list option" where
  "put_bytes cap i bs b = (if i > length b \<or> i + length bs > cap then None else Some (take i b @ bs @ drop (i + length bs) b))"

text \<open>
  The comparison of the number of bytes written is one of unsigned numbers, so an error passes it. An error of
  the read is added to the index and taken from the count of bytes to come.
\<close>

definition receive_scheduled :: "'u mpsse_lib \<Rightarrow> ftdi_param_t \<Rightarrow> 'u ft2232 \<Rightarrow> (bool \<times> 'u ft2232) option" where
  "receive_scheduled lib p s =
     (let end = recv_write_idx p + to_recv p;
          (got, s) = (if end > recv_buf_len p \<and> recv_buf p \<noteq> None then my_ftdi (mf_malloc lib) s else (True, s));
          p = p\<lparr>recv_buf_len := (if end > recv_buf_len p then end else recv_buf_len p),
                recv_buf := (if got then recv_buf p else None)\<rparr> in
      case recv_buf p of
        None \<Rightarrow> Some (False, set_params p s)
      | Some b \<Rightarrow>
          do { ((rv, bs), u) \<leftarrow> read_until lib (sint (to_recv p)) (f2_bus s);
               b \<leftarrow> put_bytes (unat (recv_buf_len p)) (unat (recv_write_idx p)) bs b;
               Some (True, set_params (p\<lparr>recv_buf := Some b, to_recv := to_recv p - of_int rv,
                 recv_write_idx := recv_write_idx p + of_int rv\<rparr>) (s\<lparr>f2_bus := u\<rparr>)) })"

definition usbconn_ftdi_flush :: "'u mpsse_lib \<Rightarrow> 'u ft2232 \<Rightarrow> (int \<times> 'u ft2232) option" where
  "usbconn_ftdi_flush lib s =
     do { p \<leftarrow> ft2232_device s;
          (if \<not> fp_ftdic p then Some (-1, s)
           else if send_buffered p = 0 then Some (0, s)
           else
             do { b \<leftarrow> send_buf p;
                  let (xferred, s) = my_ftdi (mf_write_data lib (take (unat (send_buffered p)) b)) s;
                  (if of_int xferred < send_buffered p then Some (-1, s)
                   else
                     (let p = p\<lparr>send_buffered := 0\<rparr> in
                      if to_recv p = 0 then Some (if xferred < 0 then -1 else xferred, set_params p s)
                      else
                        do { (ok, s) \<leftarrow> receive_scheduled lib p s;
                             Some (if \<not> ok \<or> xferred < 0 then -1 else xferred, s) })) }) }"

text \<open>\<open>b\<close>: what is in the buffer of the caller. Less than asked for counts as all of it.\<close>

definition usbconn_ftdi_read :: "'u mpsse_lib \<Rightarrow> nat \<Rightarrow> u8 list \<Rightarrow> 'u ft2232 \<Rightarrow> ((int \<times> u8 list) \<times> 'u ft2232) option" where
  "usbconn_ftdi_read lib len b s =
     do { p \<leftarrow> ft2232_device s;
          (if \<not> fp_ftdic p then Some ((-1, b), s)
           else
             do { (r, s) \<leftarrow> usbconn_ftdi_flush lib s;
                  (if r < 0 then Some ((-1, b), s)
                   else if len = 0 then Some ((0, b), s)
                   else
                     do { p \<leftarrow> ft2232_device s;
                          let cpy = min (sint (recv_write_idx p - recv_read_idx p)) (int len);
                          let rest = int len - cpy;
                          (b, p) \<leftarrow> (if cpy > 0 then
                            do { rb \<leftarrow> recv_buf p;
                                 (if unat (recv_read_idx p) + nat cpy > length rb then None else Some ());
                                 b \<leftarrow> put_bytes (length b) 0 (take (nat cpy) (drop (unat (recv_read_idx p)) rb)) b;
                                 let p = p\<lparr>recv_read_idx := recv_read_idx p + of_int cpy\<rparr>;
                                 Some (b, if recv_read_idx p = recv_write_idx p then p\<lparr>recv_read_idx := 0, recv_write_idx := 0\<rparr> else p) }
                            else Some (b, p));
                          let s = set_params p s;
                          (if rest > 0 then
                             (if cpy < 0 then None
                              else
                                do { ((rv, bs), u) \<leftarrow> read_until lib rest (f2_bus s);
                                     b \<leftarrow> put_bytes (length b) (nat cpy) bs b;
                                     Some ((if rv < 0 then -1 else int len, b), s\<lparr>f2_bus := u\<rparr>) })
                           else Some ((int len, b), s)) }) }) }"

text \<open>\<open>recv\<close>: the bytes the command gives back; negative to send it at once.\<close>

definition usbconn_ftdi_write :: "'u mpsse_lib \<Rightarrow> u8 list \<Rightarrow> int \<Rightarrow> 'u ft2232 \<Rightarrow> (int \<times> 'u ft2232) option" where
  "usbconn_ftdi_write lib bs recv s =
     do { p \<leftarrow> ft2232_device s;
          (if \<not> fp_ftdic p then Some (-1, s)
           else
             do { (xferred, s) \<leftarrow> (if to_recv p + of_int recv > FTDI_MAXRECV \<or> (send_buffered p > FTDX_MAXSEND \<and> to_recv p = 0)
                    then usbconn_ftdi_flush lib s else Some (0, s));
                  (if xferred < 0 then Some (-1, s)
                   else
                     do { p \<leftarrow> ft2232_device s;
                          let end = send_buffered p + of_nat (length bs);
                          let (got, s) = (if end > send_buf_len p \<and> send_buf p \<noteq> None then my_ftdi (mf_malloc lib) s else (True, s));
                          let p = p\<lparr>send_buf_len := (if end > send_buf_len p then end else send_buf_len p),
                                    send_buf := (if got then send_buf p else None)\<rparr>;
                          (case send_buf p of
                             None \<Rightarrow> Some (-1, set_params p s)
                           | Some b \<Rightarrow>
                               do { b \<leftarrow> put_bytes (unat (send_buf_len p)) (unat (send_buffered p)) bs b;
                                    let s = set_params (p\<lparr>send_buf := Some b, send_buffered := end,
                                      to_recv := (if recv > 0 then to_recv p + of_int recv else to_recv p)\<rparr>) s;
                                    (xferred, s) \<leftarrow> (if recv < 0 then usbconn_ftdi_flush lib s else Some (xferred, s));
                                    Some (if xferred < 0 then -1 else int (length bs), s) }) }) }) }"

subsection \<open>The connection\<close>

text \<open>Steps up to the first that fails.\<close>

fun mpsse_steps :: "('u ft2232 \<Rightarrow> (int \<times> 'u ft2232) option) list \<Rightarrow> 'u ft2232 \<Rightarrow> (int \<times> 'u ft2232) option" where
  "mpsse_steps [] s = Some (0, s)"
| "mpsse_steps (f # fs) s = do { (r, s) \<leftarrow> f s; (if r < 0 then Some (r, s) else mpsse_steps fs s) }"

definition usbconn_ftdi_mpsse_open :: "'u mpsse_lib \<Rightarrow> 'u ft2232 \<Rightarrow> (int \<times> 'u ft2232) option" where
  "usbconn_ftdi_mpsse_open lib s =
     do { _ \<leftarrow> ft2232_device s;
          let (r, s) = usbconn_ftdi_common_open lib s;
          (if r < 0 then Some (-1, s)
           else
             do { (r, s) \<leftarrow> mpsse_steps
                    [\<lambda>s. Some (seq_reset lib s), \<lambda>s. Some (seq_purge lib s),
                     \<lambda>s. Some (my_ftdi (mf_write_data_set_chunksize lib FTDX_MAXSEND_MPSSE) s),
                     \<lambda>s. Some (my_ftdi (mf_read_data_set_chunksize lib FTDX_MAXSEND_MPSSE) s),
                     \<lambda>s. Some (my_ftdi (mf_set_latency_timer lib 16) s),
                     \<lambda>s. Some (my_ftdi (mf_set_bitmode_mpsse lib 0x0B) s),
                     \<lambda>s. Some (my_ftdi (mf_usb_reset lib) s),
                     \<lambda>s. Some (seq_purge lib s),
                     usbconn_ftdi_write lib [TCK_DIVISOR lib, 0, 0] 0,
                     usbconn_ftdi_write lib [LOOPBACK_END lib] 0,
                     \<lambda>s. do { ((r, _), s) \<leftarrow> usbconn_ftdi_read lib 0 [] s; Some (r, s) },
                     \<lambda>s. Some (my_ftdi (mf_usb_reset lib) s),
                     \<lambda>s. Some (seq_purge lib s)] s;
                  (if r < 0 then
                     do { p \<leftarrow> ft2232_device s;
                          let (_, s) = my_ftdi (mf_usb_close lib) s;
                          let (_, s) = my_ftdi (mf_deinit lib) s;
                          Some (-1, set_params (p\<lparr>fp_ftdic := False\<rparr>) s) }
                   else Some (0, s)) }) }"

definition usbconn_ftdi_close :: "'u mpsse_lib \<Rightarrow> 'u ft2232 \<Rightarrow> 'u ft2232 option" where
  "usbconn_ftdi_close lib s =
     do { p \<leftarrow> ft2232_device s;
          (if \<not> fp_ftdic p then Some s
           else
             (let (_, s) = my_ftdi (mf_usb_close lib) s; (_, s) = my_ftdi (mf_deinit lib) s in
              Some (set_params (p\<lparr>fp_ftdic := False\<rparr>) s))) }"

text \<open>The pointer to the freed structure is dangling, which the model shows as null.\<close>

definition usbconn_ftdi_free :: "'u ft2232 \<Rightarrow> 'u ft2232 option" where
  "usbconn_ftdi_free s = do { _ \<leftarrow> ft2232_device s; Some (s\<lparr>ft2232_device := None\<rparr>) }"

text \<open>
  Five pieces of memory. When one is missing the function goes on to look into the parameters after it has
  freed them, or through the null pointer.
\<close>

definition usbconn_ftdi_connect :: "'u mpsse_lib \<Rightarrow> 'u ft2232 \<Rightarrow> 'u ft2232 option" where
  "usbconn_ftdi_connect lib s =
     (let (m1, s) = my_ftdi (mf_malloc lib) s; (m2, s) = my_ftdi (mf_malloc lib) s; (m3, s) = my_ftdi (mf_malloc lib) s;
          (m4, s) = (if m2 then my_ftdi (mf_malloc lib) s else (False, s));
          (m5, s) = (if m2 then my_ftdi (mf_malloc lib) s else (False, s)) in
      if \<not> (m1 \<and> m2 \<and> m3 \<and> m4 \<and> m5) then None
      else
        (let (_, s) = my_ftdi (mf_init lib) s;
             s = set_params \<lparr>fp_ftdic = True, send_buf_len = FTDX_MAXSEND, send_buffered = 0, send_buf = Some [],
                   recv_buf_len = FTDI_MAXRECV, to_recv = 0, recv_write_idx = 0, recv_read_idx = 0, recv_buf = Some []\<rparr> s;
             (r, s) = usbconn_ftdi_common_open lib s in
         if r \<noteq> 0 then usbconn_ftdi_free s
         else (let (_, s) = my_ftdi (mf_usb_close lib) s in Some s)))"

subsection \<open>Commands\<close>

text \<open>Memory for a command; the result of \<open>malloc\<close> is used unchecked, and never freed.\<close>

definition command_memory :: "'u mpsse_lib \<Rightarrow> 'u ft2232 \<Rightarrow> (unit \<times> 'u ft2232) option" where
  "command_memory lib s = (let (got, s) = my_ftdi (mf_malloc lib) s in if got then Some ((), s) else None)"

text \<open>\<open>data\<close>: the bytes still to go; \<open>recv\<close>: the bytes that will come back.\<close>

function bytes_loop :: "'u mpsse_lib \<Rightarrow> u8 \<Rightarrow> bool \<Rightarrow> u8 list \<Rightarrow> int \<Rightarrow> 'u ft2232 \<Rightarrow> (int \<times> 'u ft2232) option" where
  "bytes_loop lib opcode postread data recv s =
     (if data = [] then Some (recv, s)
      else
        (let chunk = take 65536 data; n = length chunk;
             cmd = [opcode, of_nat (n - 1), of_nat ((n - 1) div 256)] @ chunk in
         case usbconn_ftdi_write lib cmd (if postread then int n else 0) s of
           None \<Rightarrow> None
         | Some (xferred, s) \<Rightarrow>
             if xferred \<noteq> int (length cmd) then Some (-1, s)
             else bytes_loop lib opcode postread (drop 65536 data) (if postread then recv + int n else recv) s))"
  by pat_completeness auto
termination by (relation "measure (\<lambda>(_, _, _, data, _, _). length data)") auto

declare bytes_loop.simps [simp del]

definition cable_ft2232_write_bytes :: "'u mpsse_lib \<Rightarrow> u8 list \<Rightarrow> nat \<Rightarrow> bool \<Rightarrow> 'u ft2232 \<Rightarrow> (int \<times> 'u ft2232) option" where
  "cable_ft2232_write_bytes lib bf len postread s =
     (if len = 0 then Some (0, s)
      else if len > length bf then None
      else
        do { (_, s) \<leftarrow> command_memory lib s;
             let opcode = MPSSE_DO_WRITE lib OR MPSSE_LSB lib OR MPSSE_WRITE_NEG lib;
             bytes_loop lib (if postread then opcode OR MPSSE_DO_READ lib else opcode) postread (take len bf) 0 s })"

text \<open>\<open>i\<close>: the bit of the buffer that is next.\<close>

function bits_loop ::
  "'u mpsse_lib \<Rightarrow> u8 \<Rightarrow> bool \<Rightarrow> bool \<Rightarrow> u8 list \<Rightarrow> nat \<Rightarrow> nat \<Rightarrow> int \<Rightarrow> 'u ft2232 \<Rightarrow> (int \<times> 'u ft2232) option" where
  "bits_loop lib opcode postread with_tms bf i len recv s =
     (if len = 0 then Some (recv, s)
      else
        (let n = min len (if with_tms then 1 else 8) in
         case word_at bf (i div 8) of
           None \<Rightarrow> None
         | Some b \<Rightarrow>
             (let cmd = [opcode, of_nat (n - 1), if with_tms then 0x01 OR push_bit 7 (drop_bit (i mod 8) b) else b] in
              case usbconn_ftdi_write lib cmd (if postread then 1 else 0) s of
                None \<Rightarrow> None
              | Some (xferred, s) \<Rightarrow>
                  if xferred \<noteq> 3 then Some (-1, s)
                  else bits_loop lib opcode postread with_tms bf (if with_tms then i + 1 else i + 8) (len - n)
                         (if postread then recv + 1 else recv) s)))"
  by pat_completeness auto
termination by (relation "measure (\<lambda>(_, _, _, _, _, _, len, _, _). len)") auto

declare bits_loop.simps [simp del]

definition cable_ft2232_write_bits ::
  "'u mpsse_lib \<Rightarrow> u8 list \<Rightarrow> nat \<Rightarrow> bool \<Rightarrow> bool \<Rightarrow> 'u ft2232 \<Rightarrow> (int \<times> 'u ft2232) option" where
  "cable_ft2232_write_bits lib bf len postread with_tms s =
     (if len = 0 then Some (0, s)
      else
        do { (_, s) \<leftarrow> command_memory lib s;
             let opcode = (if \<not> with_tms then MPSSE_DO_WRITE lib OR MPSSE_LSB lib OR MPSSE_WRITE_NEG lib OR MPSSE_BITMODE lib
               else MPSSE_WRITE_TMS lib OR MPSSE_LSB lib OR MPSSE_BITMODE lib OR MPSSE_WRITE_NEG lib);
             bits_loop lib (if postread then opcode OR MPSSE_DO_READ lib else opcode) postread with_tms bf 0 len 0 s })"

text \<open>One bit: \<open>i\<close> is its place in the buffer. A negative shift count is undefined.\<close>

fun unpack_bits :: "u8 list \<Rightarrow> nat \<Rightarrow> nat \<Rightarrow> nat list \<Rightarrow> u8 list \<Rightarrow> u8 list option" where
  "unpack_bits src bits_per_packet offset [] bf = Some bf"
| "unpack_bits src bits_per_packet offset (i # is) bf =
     (let dst_row = i div 8; dst_col = i mod 8;
          src_row = (i - offset) div bits_per_packet; src_col = (i - offset) mod bits_per_packet in
      do { d \<leftarrow> word_at bf dst_row;
           b \<leftarrow> word_at src src_row;
           (if dst_col < src_col then None else Some ());
           bf \<leftarrow> put_at bf dst_row ((d AND NOT (push_bit dst_col 1)) OR push_bit (dst_col - src_col) (b AND push_bit src_col 1));
           unpack_bits src bits_per_packet offset is bf })"

text \<open>\<open>j\<close>: the memory for the packets, which is not initialised.\<close>

definition cable_ft2232_read_packed_bits ::
  "'u mpsse_lib \<Rightarrow> u8 \<Rightarrow> u8 list \<Rightarrow> nat \<Rightarrow> nat \<Rightarrow> nat \<Rightarrow> 'u ft2232 \<Rightarrow> ((int \<times> u8 list) \<times> 'u ft2232) option" where
  "cable_ft2232_read_packed_bits lib j bf packet_len bits_per_packet offset s =
     (if packet_len = 0 \<or> bits_per_packet = 0 then Some ((0, bf), s)
      else
        do { (_, s) \<leftarrow> command_memory lib s;
             ((r, src), s) \<leftarrow> usbconn_ftdi_read lib packet_len (replicate packet_len j) s;
             (if r < 0 then Some ((-1, bf), s)
              else if bits_per_packet < 8 then
                do { bf \<leftarrow> unpack_bits (map (drop_bit (8 - bits_per_packet)) src) bits_per_packet offset
                       [offset..<packet_len * bits_per_packet + offset] bf;
                     Some ((if r < 1 then -1 else 0, bf), s) }
              else if bits_per_packet = 8 then
                do { bf \<leftarrow> put_bytes (length bf) (offset div 8) src bf; Some ((if r < 1 then -1 else 0, bf), s) }
              else Some ((-1, bf), s)) })"

subsection \<open>Streams\<close>

text \<open>
  Whole bytes, then bits, then the bit with TMS. The results are dropped. A length too small for the bit
  with TMS gives a negative shift count or index.
\<close>

definition cable_ft2232_write_stream ::
  "'u mpsse_lib \<Rightarrow> u8 list \<Rightarrow> int \<Rightarrow> bool \<Rightarrow> bool \<Rightarrow> 'u ft2232 \<Rightarrow> (int \<times> 'u ft2232) option" where
  "cable_ft2232_write_stream lib bf len postread with_tms s =
     (if len - of_bool with_tms < 0 then (if with_tms then None else Some (0, s))
      else
        (let len_bytes = nat (len - of_bool with_tms) div 8; len_bits = nat (len - of_bool with_tms) mod 8 in
         do { (_, s) \<leftarrow> (if len_bytes > 0 then cable_ft2232_write_bytes lib bf len_bytes postread s else Some (0, s));
              (_, s) \<leftarrow> (if len_bits > 0 then cable_ft2232_write_bits lib (drop len_bytes bf) len_bits postread False s else Some (0, s));
              (if with_tms then
                 do { b \<leftarrow> word_at bf len_bytes;
                      (_, s) \<leftarrow> cable_ft2232_write_bits lib [drop_bit len_bits b] 1 postread True s;
                      Some (0, s) }
               else Some (0, s)) }))"

definition cable_ft2232_read_stream ::
  "'u mpsse_lib \<Rightarrow> u8 \<Rightarrow> u8 list \<Rightarrow> int \<Rightarrow> bool \<Rightarrow> 'u ft2232 \<Rightarrow> ((int \<times> u8 list) \<times> 'u ft2232) option" where
  "cable_ft2232_read_stream lib j bf len with_tms s =
     (if len - of_bool with_tms < 0 then
        (if with_tms then None else Some ((0, bf), s))
      else
        (let len_bytes = nat (len - of_bool with_tms) div 8; len_bits = nat (len - of_bool with_tms) mod 8 in
         do { ((_, bf), s) \<leftarrow> (if len_bytes > 0 then cable_ft2232_read_packed_bits lib j bf len_bytes 8 0 s else Some ((0, bf), s));
              ((_, bf), s) \<leftarrow> (if len_bits > 0 then cable_ft2232_read_packed_bits lib j bf 1 len_bits (len_bytes * 8) s else Some ((0, bf), s));
              ((_, bf), s) \<leftarrow> (if with_tms then cable_ft2232_read_packed_bits lib j bf 1 1 (len_bits + len_bytes * 8) s else Some ((0, bf), s));
              Some ((0, bf), s) }))"

subsection \<open>The driver\<close>

definition cable_ftdi_flush :: "'u mpsse_lib \<Rightarrow> 'u ft2232 op" where
  "cable_ftdi_flush lib s = do { (_, s) \<leftarrow> usbconn_ftdi_flush lib s; Some (APP_ERR_NONE, s) }"

definition cable_ftdi_init :: "'u mpsse_lib \<Rightarrow> 'u ft2232 op" where
  "cable_ftdi_init lib s =
     do { (_, s) \<leftarrow> command_memory lib s;
          s \<leftarrow> usbconn_ftdi_connect lib s;
          (res, s) \<leftarrow> usbconn_ftdi_mpsse_open lib s;
          let e1 = (if res \<noteq> 0 then APP_ERR_USB else 0);
          (n, s) \<leftarrow> usbconn_ftdi_write lib
            [SET_BITS_LOW lib, 0x00, 0x1B, TCK_DIVISOR lib, 0x01, 0x00, SET_BITS_HIGH lib, NOT 0x04, 0x04, SEND_IMMEDIATE lib] 0 s;
          let e2 = (if n \<noteq> 10 then APP_ERR_USB else 0);
          (_, s) \<leftarrow> usbconn_ftdi_flush lib s;
          Some (e1 OR e2, s) }"

definition cable_ftdi_close :: "'u mpsse_lib \<Rightarrow> 'u ft2232 op" where
  "cable_ftdi_close lib s =
     do { s \<leftarrow> usbconn_ftdi_close lib s; s \<leftarrow> usbconn_ftdi_free s; Some (APP_ERR_NONE, s) }"

definition cable_ftdi_write_bit :: "'u mpsse_lib \<Rightarrow> u8 \<Rightarrow> 'u ft2232 op" where
  "cable_ftdi_write_bit lib packet s =
     do { (r, s) \<leftarrow> cable_ft2232_write_stream lib [of_bool (packet AND TDO \<noteq> 0)] 1 False (packet AND TMS \<noteq> 0) s;
          (_, s) \<leftarrow> cable_ftdi_flush lib s;
          Some (if r < 0 then APP_ERR_COMM else APP_ERR_NONE, s) }"

text \<open>\<open>k\<close>: what is in the variable for the bit, of which one bit is replaced.\<close>

definition cable_ftdi_read_write_bit :: "'u mpsse_lib \<Rightarrow> u8 \<Rightarrow> u8 \<Rightarrow> u8 \<Rightarrow> 'u ft2232 \<Rightarrow> (u32 \<times> u8 \<times> 'u ft2232) option" where
  "cable_ftdi_read_write_bit lib j k packet_out s =
     do { (r1, s) \<leftarrow> cable_ft2232_write_stream lib [of_bool (packet_out AND TDO \<noteq> 0)] 1 True (packet_out AND TMS \<noteq> 0) s;
          ((r2, b), s) \<leftarrow> cable_ft2232_read_stream lib j [k] 1 (packet_out AND TMS \<noteq> 0) s;
          bit_in \<leftarrow> word_at b 0;
          Some (if r1 < 0 \<or> r2 < 0 then APP_ERR_COMM else APP_ERR_NONE, bit_in, s) }"

definition cable_ftdi_write_stream :: "'u mpsse_lib \<Rightarrow> u32 list \<Rightarrow> int \<Rightarrow> bool \<Rightarrow> 'u ft2232 op" where
  "cable_ftdi_write_stream lib stream len_bits set_last_bit s =
     do { (r, s) \<leftarrow> cable_ft2232_write_stream lib (bytes_of_words stream) len_bits False set_last_bit s;
          (_, s) \<leftarrow> cable_ftdi_flush lib s;
          Some (if r < 0 then APP_ERR_COMM else APP_ERR_NONE, s) }"

definition cable_ftdi_read_stream ::
  "'u mpsse_lib \<Rightarrow> u8 \<Rightarrow> u32 list \<Rightarrow> u32 list \<Rightarrow> int \<Rightarrow> bool \<Rightarrow> 'u ft2232 \<Rightarrow> (u32 \<times> u32 list \<times> 'u ft2232) option" where
  "cable_ftdi_read_stream lib j outstream instream len_bits set_last_bit s =
     do { (r1, s) \<leftarrow> cable_ft2232_write_stream lib (bytes_of_words outstream) len_bits True set_last_bit s;
          ((r2, b), s) \<leftarrow> cable_ft2232_read_stream lib j (bytes_of_words instream) len_bits set_last_bit s;
          Some ((if r1 < 0 then APP_ERR_COMM else APP_ERR_NONE) OR (if r2 < 0 then APP_ERR_COMM else APP_ERR_NONE),
                words_of_bytes b, s) }"

definition cable_ftdi_opt :: "u32 \<Rightarrow> int \<Rightarrow> string \<Rightarrow> 'u ft2232 op" where
  "cable_ftdi_opt j c arg s =
     (if c = int (of_char CHR ''p'') then
        (case scan_id j arg of
           None \<Rightarrow> Some (APP_ERR_BAD_PARAM, s) | Some v \<Rightarrow> Some (APP_ERR_NONE, s\<lparr>f2_pid := v\<rparr>))
      else if c = int (of_char CHR ''v'') then
        (case scan_id j arg of
           None \<Rightarrow> Some (APP_ERR_BAD_PARAM, s) | Some v \<Rightarrow> Some (APP_ERR_NONE, s\<lparr>f2_vid := v\<rparr>))
      else Some (APP_ERR_BAD_PARAM, s))"

text \<open>\<open>inout_func\<close> and \<open>out_func\<close> are null.\<close>

definition ft2232_cable_driver :: "'u mpsse_lib \<Rightarrow> u32 \<Rightarrow> u8 \<Rightarrow> u8 \<Rightarrow> 'u ft2232 jtag_cable_t" where
  "ft2232_cable_driver lib i j k =
     \<lparr>name = ''ft2232'', inout_func = (\<lambda>_ _. None), out_func = (\<lambda>_ _. None),
      init_func = cable_ftdi_init lib, opt_func = cable_ftdi_opt i,
      bit_out_func = cable_ftdi_write_bit lib, bit_inout_func = cable_ftdi_read_write_bit lib j k,
      stream_out_func = cable_ftdi_write_stream lib, stream_inout_func = cable_ftdi_read_stream lib j,
      flush_func = Some (cable_ftdi_flush lib), opts = Some ''p:v:'',
      help_text = Some (''-p [PID] Alteranate PID for USB device (hex value)'' @ [CHR 0x0A, CHR 0x09]
        @ ''-v [VID] Alternate VID for USB device (hex value)'' @ [CHR 0x0A])\<rparr>"

end
