(* ===== verification/Ft2232_Streams.thy ===== *)
theory Ft2232_Streams
  imports Cable_Ft2232
begin

unbundle bit_operations_syntax

text \<open>
  What the driver of the FT2232 makes of a stream. The chip, as the comments of the source describe it, is
  the locale \<open>mpsse_box\<close>: commands with whole bytes, with up to eight bits, and with one bit and TMS, each of
  which can give back what TDO was. Behind it is a device that is told the level of TDI at each clock, and
  the level of TMS where a command sets it: no command of the driver takes TMS back to low, so what the
  line is in between is left to the device. The buffers of the driver are transparent: what it is
  about depends only on the commands, not on when they are sent or their answers read.
\<close>

subsection \<open>Commands\<close>

datatype mpsse_cmd = Bytes bool "u8 list" | Bits bool nat u8 | WithTms bool bool

definition mpsse_opcode :: "'u mpsse_lib \<Rightarrow> bool \<Rightarrow> u8 \<Rightarrow> u8" where
  "mpsse_opcode lib postread opcode = (if postread then opcode OR MPSSE_DO_READ lib else opcode)"

fun mpsse_bytes :: "'u mpsse_lib \<Rightarrow> mpsse_cmd \<Rightarrow> u8 list" where
  "mpsse_bytes lib (Bytes r bs) =
     [mpsse_opcode lib r (MPSSE_DO_WRITE lib OR MPSSE_LSB lib OR MPSSE_WRITE_NEG lib),
      of_nat (length bs - 1), of_nat ((length bs - 1) div 256)] @ bs"
| "mpsse_bytes lib (Bits r n b) =
     [mpsse_opcode lib r (MPSSE_DO_WRITE lib OR MPSSE_LSB lib OR MPSSE_WRITE_NEG lib OR MPSSE_BITMODE lib), of_nat (n - 1), b]"
| "mpsse_bytes lib (WithTms r b) =
     [mpsse_opcode lib r (MPSSE_WRITE_TMS lib OR MPSSE_LSB lib OR MPSSE_BITMODE lib OR MPSSE_WRITE_NEG lib), 0,
      0x01 OR push_bit 7 (of_bool b)]"

fun mpsse_ok :: "mpsse_cmd \<Rightarrow> bool" where
  "mpsse_ok (Bytes r bs) \<longleftrightarrow> bs \<noteq> [] \<and> length bs \<le> 65536"
| "mpsse_ok (Bits r n b) \<longleftrightarrow> 0 < n \<and> n \<le> 8"
| "mpsse_ok (WithTms r b) \<longleftrightarrow> True"

text \<open>The clocks of a command, as packets: TDI, and whether TMS is set.\<close>

fun mpsse_packets :: "mpsse_cmd \<Rightarrow> u8 list" where
  "mpsse_packets (Bytes r bs) = map of_bool (byte_bits bs)"
| "mpsse_packets (Bits r n b) = map (\<lambda>i. of_bool (bit b i)) [0..<n]"
| "mpsse_packets (WithTms r b) = [of_bool b OR TMS]"

text \<open>\<open>pad\<close>: the byte in which up to eight levels come back.\<close>

fun mpsse_reply :: "(bool list \<Rightarrow> u8) \<Rightarrow> mpsse_cmd \<Rightarrow> bool list \<Rightarrow> u8 list" where
  "mpsse_reply pad (Bytes r bs) tr = (if r then bytes_of_bits tr else [])"
| "mpsse_reply pad (Bits r n b) tr = (if r then [pad tr] else [])"
| "mpsse_reply pad (WithTms r b) tr = (if r then [pad tr] else [])"

definition tms_step :: "(bool option \<Rightarrow> bool \<Rightarrow> 'd \<Rightarrow> 'd) \<Rightarrow> u8 \<Rightarrow> 'd \<Rightarrow> 'd" where
  "tms_step step p = step (if bit p 1 then Some True else None) (bit p 0)"

fun mpsse_run ::
  "(bool list \<Rightarrow> u8) \<Rightarrow> (u8 \<Rightarrow> 'd \<Rightarrow> 'd) \<Rightarrow> ('d \<Rightarrow> bool) \<Rightarrow> mpsse_cmd list \<Rightarrow> 'd \<Rightarrow> u8 list \<times> 'd" where
  "mpsse_run pad step tdo [] d = ([], d)"
| "mpsse_run pad step tdo (c # cs) d =
     (let (rs, d') = mpsse_run pad step tdo cs (fold step (mpsse_packets c) d) in
      (mpsse_reply pad c (tdo_trace step tdo (mpsse_packets c) d) @ rs, d'))"

lemma mpsse_run_append:
  "mpsse_run pad step tdo (as @ bs) d =
     (fst (mpsse_run pad step tdo as d) @ fst (mpsse_run pad step tdo bs (snd (mpsse_run pad step tdo as d))),
      snd (mpsse_run pad step tdo bs (snd (mpsse_run pad step tdo as d))))"
  by (induction as arbitrary: d) (simp_all add: split_beta Let_def)

lemma mpsse_run_single:
  "mpsse_run pad step tdo [c] d = (mpsse_reply pad c (tdo_trace step tdo (mpsse_packets c) d), fold step (mpsse_packets c) d)"
  by simp

locale mpsse_box =
  fixes lib :: "'u mpsse_lib"
    and mdev :: "'u \<Rightarrow> 'd" and fifo :: "'u \<Rightarrow> u8 list"
    and step :: "bool option \<Rightarrow> bool \<Rightarrow> 'd \<Rightarrow> 'd" and tdo :: "'d \<Rightarrow> bool" and pad :: "bool list \<Rightarrow> u8"
  assumes box_pad: "i < length tr \<Longrightarrow> length tr \<le> 8 \<Longrightarrow> bit (pad tr) (8 - length tr + i) = tr ! i"
    and box_write: "fifo u = [] \<Longrightarrow> \<forall>c \<in> set cs. mpsse_ok c \<Longrightarrow>
       mpsse_run pad (tms_step step) tdo cs (mdev u) = (rs, d) \<Longrightarrow>
       \<exists>u'. mf_write_data lib (concat (map (mpsse_bytes lib) cs)) u = (int (length (concat (map (mpsse_bytes lib) cs))), u')
         \<and> fifo u' = rs \<and> mdev u' = d"
    and box_read: "fifo u \<noteq> [] \<Longrightarrow>
       \<exists>u'. mf_read_data lib (length (fifo u)) u = ((int (length (fifo u)), fifo u), u') \<and> fifo u' = [] \<and> mdev u' = mdev u"
    and box_memory: "\<exists>u'. mf_malloc lib u = (True, u') \<and> fifo u' = fifo u \<and> mdev u' = mdev u"

subsection \<open>What the buffers hold\<close>

context mpsse_box
begin

abbreviation "run \<equiv> mpsse_run pad (tms_step step) tdo"
abbreviation "code cs \<equiv> concat (map (mpsse_bytes lib) cs)"

text \<open>
  \<open>cs\<close>: the commands not yet sent; \<open>rs\<close>: the bytes not yet given to the reader, those the commands will
  bring included; \<open>d\<close>: the device when all is done; \<open>n\<close> and \<open>m\<close>: bounds of what is in the buffers.
\<close>

definition buffered :: "mpsse_cmd list \<Rightarrow> u8 list \<Rightarrow> 'd \<Rightarrow> nat \<Rightarrow> nat \<Rightarrow> 'u ft2232 \<Rightarrow> bool" where
  "buffered cs rs d n m s \<longleftrightarrow> (\<exists>p sb rb. ft2232_device s = Some p \<and> fp_ftdic p \<and> send_buf p = Some sb \<and> recv_buf p = Some rb
     \<and> fifo (f2_bus s) = [] \<and> (\<forall>c \<in> set cs. mpsse_ok c)
     \<and> unat (send_buffered p) = length (code cs) \<and> length (code cs) \<le> length sb \<and> take (length (code cs)) sb = code cs
     \<and> length (code cs) \<le> n \<and> n < 2 ^ 30
     \<and> unat (to_recv p) = length (fst (run cs (mdev (f2_bus s)))) \<and> d = snd (run cs (mdev (f2_bus s)))
     \<and> unat (recv_read_idx p) \<le> unat (recv_write_idx p) \<and> unat (recv_write_idx p) \<le> length rb
     \<and> unat (recv_write_idx p) + unat (to_recv p) \<le> m \<and> m < 2 ^ 30
     \<and> rs = drop (unat (recv_read_idx p)) (take (unat (recv_write_idx p)) rb) @ fst (run cs (mdev (f2_bus s))))"

lemma reads_all:
  assumes "fifo u \<noteq> []" "length (fifo u) = k"
  shows "\<exists>u'. read_until lib (int k) u = Some ((int k, fifo u), u') \<and> fifo u' = [] \<and> mdev u' = mdev u"
proof -
  obtain u' where "mf_read_data lib k u = ((int k, fifo u), u')" "fifo u' = []" "mdev u' = mdev u"
    using box_read [OF assms(1)] assms(2) by auto
  then show ?thesis using assms by (subst read_until.simps) auto
qed

lemma buffered_mono: "buffered cs rs d n m s \<Longrightarrow> n \<le> n' \<Longrightarrow> n' < 2 ^ 30 \<Longrightarrow> m \<le> m' \<Longrightarrow> m' < 2 ^ 30 \<Longrightarrow> buffered cs rs d n' m' s"
  unfolding buffered_def by (elim exE conjE) (intro exI conjI; (assumption | linarith))

lemma code_empty: "code cs = [] \<longleftrightarrow> cs = []"
proof (cases cs)
  case (Cons c cs')
  then show ?thesis by (cases c) simp_all
qed simp

end

lemma small_u32: "unat (a :: u32) + k < 2 ^ 32 \<Longrightarrow> unat (a + of_nat k) = unat a + k"
  by (simp add: unat_word_ariths unat_of_nat mod_less)

lemma sint_small_u32: "unat (a :: u32) < 2 ^ 31 \<Longrightarrow> sint a = int (unat a)"
proof -
  assume "unat a < 2 ^ 31"
  then have "int (unat a) < int (2 ^ 31)" unfolding of_nat_less_iff .
  then have "uint a < 2 ^ 31" by simp
  moreover have "- (2 ^ 31) \<le> uint a" by (rule order_trans [OF _ unsigned_greater_eq]) simp
  ultimately have "signed_take_bit 31 (uint a) = uint a" by (intro signed_take_bit_int_eq_self)
  then show ?thesis by (simp add: sint_uint)
qed

lemma u32_of_unat: "unat (a :: u32) = k \<Longrightarrow> a = of_nat k"
  by auto

context mpsse_box
begin

lemma flush_ok:
  assumes "buffered cs rs d n m s"
  shows "\<exists>r s'. usbconn_ftdi_flush lib s = Some (r, s') \<and> 0 \<le> r \<and> buffered [] rs d 0 m s'"
proof -
  obtain p sb rb where p: "ft2232_device s = Some p" "fp_ftdic p" "send_buf p = Some sb" "recv_buf p = Some rb"
    "fifo (f2_bus s) = []" "\<forall>c \<in> set cs. mpsse_ok c"
    "unat (send_buffered p) = length (code cs)" "length (code cs) \<le> length sb" "take (length (code cs)) sb = code cs"
    "length (code cs) \<le> n" "n < 2 ^ 30"
    "unat (to_recv p) = length (fst (run cs (mdev (f2_bus s))))" "d = snd (run cs (mdev (f2_bus s)))"
    "unat (recv_read_idx p) \<le> unat (recv_write_idx p)" "unat (recv_write_idx p) \<le> length rb"
    "unat (recv_write_idx p) + unat (to_recv p) \<le> m" "m < 2 ^ 30"
    "rs = drop (unat (recv_read_idx p)) (take (unat (recv_write_idx p)) rb) @ fst (run cs (mdev (f2_bus s)))"
    using assms unfolding buffered_def by blast
  show ?thesis
  proof (cases "cs = []")
    case True
    then have "send_buffered p = 0" using p(7) by (simp add: unat_eq_zero)
    then show ?thesis using p True by (auto simp: usbconn_ftdi_flush_def buffered_def)
  next
    case False
    then have pos: "0 < length (code cs)" using code_empty by blast
    obtain u1 where u1: "mf_write_data lib (code cs) (f2_bus s) = (int (length (code cs)), u1)"
      "fifo u1 = fst (run cs (mdev (f2_bus s)))" "mdev u1 = d"
      using box_write [OF p(5,6), of "fst (run cs (mdev (f2_bus s)))" d] p(13) by auto
    have sent: "send_buffered p = of_nat (length (code cs))" by (rule u32_of_unat [OF p(7)])
    let ?p = "p\<lparr>send_buffered := 0\<rparr>" and ?s = "s\<lparr>f2_bus := u1\<rparr>"
    have some: "send_buffered p \<noteq> 0" using p(7) pos by auto
    have start: "usbconn_ftdi_flush lib s =
        (if to_recv p = 0 then Some (int (length (code cs)), set_params ?p ?s)
         else do { (ok, s) \<leftarrow> receive_scheduled lib ?p ?s; Some (if \<not> ok then -1 else int (length (code cs)), s) })"
      using p(1-3,7-9) u1(1) some by (simp add: usbconn_ftdi_flush_def my_ftdi_def sent Let_def)
    show ?thesis
    proof (cases "to_recv p = 0")
      case True
      then have none: "fst (run cs (mdev (f2_bus s))) = []" using p(12) by simp
      with u1 True p have "buffered [] rs d 0 m (set_params ?p ?s)" by (simp add: buffered_def set_params_def)
      with start True show ?thesis by simp
    next
      case False
      let ?k = "length (fifo u1)" and ?w = "unat (recv_write_idx p)"
      have k: "unat (to_recv p) = ?k" "fifo u1 \<noteq> []" using p(12) u1(2) False by (auto simp: unat_eq_zero)
      have small: "unat (to_recv p) < 2 ^ 31" using p(16,17) by simp
      have ask: "sint (to_recv p) = int ?k" using sint_small_u32 [OF small] k(1) by simp
      have count: "to_recv p = of_nat ?k" by (rule u32_of_unat [OF k(1)])
      have ask': "sint (of_nat ?k :: u32) = int ?k" using ask unfolding count .
      have index: "unat (recv_write_idx p + of_nat ?k) = ?w + ?k" using p(16,17) k(1) by (intro small_u32) simp
      let ?stop = "recv_write_idx p + to_recv p"
      obtain s2 where s2: "(if ?stop > recv_buf_len p \<and> recv_buf p \<noteq> None then my_ftdi (mf_malloc lib) ?s else (True, ?s)) = (True, s2)"
        "fifo (f2_bus s2) = fifo u1" "mdev (f2_bus s2) = d"
      proof (cases "?stop > recv_buf_len p")
        case True
        obtain u2 where "mf_malloc lib u1 = (True, u2)" "fifo u2 = fifo u1" "mdev u2 = mdev u1" using box_memory by blast
        with True p(4) u1(3) show thesis by (intro that [of "?s\<lparr>f2_bus := u2\<rparr>"]) (simp_all add: my_ftdi_def)
      next
        case False
        with u1(3) show thesis by (intro that [of ?s]) simp_all
      qed
      obtain u3 where u3: "read_until lib (int ?k) (f2_bus s2) = Some ((int ?k, fifo u1), u3)" "fifo u3 = []" "mdev u3 = d"
        using reads_all [of "f2_bus s2" ?k] s2(2,3) k(2) by auto
      let ?rb = "take ?w rb @ fifo u1 @ drop (?w + ?k) rb"
      let ?q = "?p\<lparr>recv_buf_len := (if ?stop > recv_buf_len p then ?stop else recv_buf_len p), recv_buf := Some ?rb, to_recv := 0,
        recv_write_idx := recv_write_idx p + of_nat ?k\<rparr>"
      have cap: "\<not> recv_buf_len p < recv_write_idx p + of_nat ?k \<Longrightarrow> \<not> unat (recv_buf_len p) < ?w + ?k"
        using index by (simp add: word_less_nat_alt)
      have "receive_scheduled lib ?p ?s = Some (True, set_params ?q (s2\<lparr>f2_bus := u3\<rparr>))"
        using s2(1) p(4,15) u3(1) count cap index by (simp add: receive_scheduled_def Let_def put_bytes_def ask')
      moreover have "buffered [] rs d 0 m (set_params ?q (s2\<lparr>f2_bus := u3\<rparr>))"
        using p(2,3,14-18) u1(2) u3 k(1) by (simp add: buffered_def set_params_def index index [unfolded u1(2)])
      ultimately show ?thesis using start False by auto
    qed
  qed
qed

lemma write_ok:
  assumes "buffered cs rs d n m s" "mpsse_ok c"
    and reply: "reply = mpsse_reply pad c (tdo_trace (tms_step step) tdo (mpsse_packets c) d)"
    and room: "n + length (mpsse_bytes lib c) < 2 ^ 30" "m + length reply < 2 ^ 30"
  shows "\<exists>cs' s'. usbconn_ftdi_write lib (mpsse_bytes lib c) (int (length reply)) s = Some (int (length (mpsse_bytes lib c)), s')
     \<and> buffered cs' (rs @ reply) (fold (tms_step step) (mpsse_packets c) d) (n + length (mpsse_bytes lib c)) (m + length reply) s'"
proof -
  let ?bs = "mpsse_bytes lib c" and ?k = "length reply"
  obtain p0 where p0: "ft2232_device s = Some p0" "fp_ftdic p0" using assms(1) unfolding buffered_def by blast
  obtain xferred s1 cs1 where s1: "(if to_recv p0 + of_int (int ?k) > FTDI_MAXRECV \<or> (send_buffered p0 > FTDX_MAXSEND \<and> to_recv p0 = 0)
      then usbconn_ftdi_flush lib s else Some (0, s)) = Some (xferred, s1)" "0 \<le> xferred" "buffered cs1 rs d n m s1"
  proof (cases "to_recv p0 + of_int (int ?k) > FTDI_MAXRECV \<or> (send_buffered p0 > FTDX_MAXSEND \<and> to_recv p0 = 0)")
    case True
    obtain r s' where flush: "usbconn_ftdi_flush lib s = Some (r, s')" "0 \<le> r" "buffered [] rs d 0 m s'"
      using flush_ok [OF assms(1)] by blast
    have "buffered [] rs d n m s'" using room by (intro buffered_mono [OF flush(3)]) simp_all
    with True flush show thesis by (intro that [of r s' "[]"]) simp_all
  next
    case False
    show thesis
    proof (rule that)
      show "(if to_recv p0 + of_int (int ?k) > FTDI_MAXRECV \<or> (send_buffered p0 > FTDX_MAXSEND \<and> to_recv p0 = 0)
          then usbconn_ftdi_flush lib s else Some (0, s)) = Some (0, s)"
        using False by (rule if_not_P)
    qed (use assms(1) in simp_all)
  qed
  obtain p sb rb where p: "ft2232_device s1 = Some p" "fp_ftdic p" "send_buf p = Some sb" "recv_buf p = Some rb"
    "fifo (f2_bus s1) = []" "\<forall>c \<in> set cs1. mpsse_ok c"
    "unat (send_buffered p) = length (code cs1)" "length (code cs1) \<le> length sb" "take (length (code cs1)) sb = code cs1"
    "length (code cs1) \<le> n"
    "unat (to_recv p) = length (fst (run cs1 (mdev (f2_bus s1))))" "d = snd (run cs1 (mdev (f2_bus s1)))"
    "unat (recv_read_idx p) \<le> unat (recv_write_idx p)" "unat (recv_write_idx p) \<le> length rb"
    "unat (recv_write_idx p) + unat (to_recv p) \<le> m"
    "rs = drop (unat (recv_read_idx p)) (take (unat (recv_write_idx p)) rb) @ fst (run cs1 (mdev (f2_bus s1)))"
    using s1(3) unfolding buffered_def by blast
  let ?stop = "send_buffered p + of_nat (length ?bs)"
  have upto: "unat ?stop = length (code cs1) + length ?bs" using small_u32 [of "send_buffered p" "length ?bs"] room(1) p(7,10) by simp
  have recv: "unat (if int ?k > 0 then to_recv p + of_int (int ?k) else to_recv p) = unat (to_recv p) + ?k"
    using small_u32 [of "to_recv p" ?k] room(2) p(15) by auto
  obtain s2 where s2: "(if ?stop > send_buf_len p \<and> send_buf p \<noteq> None then my_ftdi (mf_malloc lib) s1 else (True, s1)) = (True, s2)"
    "fifo (f2_bus s2) = []" "mdev (f2_bus s2) = mdev (f2_bus s1)"
  proof (cases "?stop > send_buf_len p")
    case True
    obtain u2 where "mf_malloc lib (f2_bus s1) = (True, u2)" "fifo u2 = fifo (f2_bus s1)" "mdev u2 = mdev (f2_bus s1)"
      using box_memory by blast
    with True p(3,5) show thesis by (intro that [of "s1\<lparr>f2_bus := u2\<rparr>"]) (simp_all add: my_ftdi_def)
  next
    case False
    with p(5) show thesis by (intro that [of s1]) simp_all
  qed
  let ?sb = "take (length (code cs1)) sb @ ?bs @ drop (length (code cs1) + length ?bs) sb"
  let ?q = "p\<lparr>send_buf_len := (if ?stop > send_buf_len p then ?stop else send_buf_len p), send_buf := Some ?sb, send_buffered := ?stop,
    to_recv := (if int ?k > 0 then to_recv p + of_int (int ?k) else to_recv p)\<rparr>"
  have cap: "length (code cs1) + length ?bs \<le> unat (if ?stop > send_buf_len p then ?stop else send_buf_len p)"
    using upto by (simp add: word_less_nat_alt)
  have "usbconn_ftdi_write lib ?bs (int ?k) s = Some (int (length ?bs), set_params ?q s2)"
    using p0 s1(1,2) p(1,3,7,8) s2(1) cap by (simp add: usbconn_ftdi_write_def Let_def put_bytes_def)
  moreover have all: "run (cs1 @ [c]) (mdev (f2_bus s1)) = (fst (run cs1 (mdev (f2_bus s1))) @ reply, fold (tms_step step) (mpsse_packets c) d)"
    unfolding mpsse_run_append mpsse_run_single p(12) [symmetric] reply by simp
  then have "buffered (cs1 @ [c]) (rs @ reply) (fold (tms_step step) (mpsse_packets c) d) (n + length ?bs) (m + ?k) (set_params ?q s2)"
    unfolding buffered_def using p(2,4,6,8-10,13-16) p(11) s2(2,3) assms(2) upto recv room by (simp add: set_params_def)
  ultimately show ?thesis by blast
qed

lemma read_ok:
  assumes "buffered cs rs d n m s" "0 < k" "k \<le> length rs" "length b = k"
  shows "\<exists>s'. usbconn_ftdi_read lib k b s = Some ((int k, take k rs), s')
     \<and> buffered [] (drop k rs) d 0 (if k = length rs then 0 else m) s'"
proof -
  obtain p0 where p0: "ft2232_device s = Some p0" "fp_ftdic p0" using assms(1) unfolding buffered_def by blast
  obtain r s1 where s1: "usbconn_ftdi_flush lib s = Some (r, s1)" "0 \<le> r" "buffered [] rs d 0 m s1"
    using flush_ok [OF assms(1)] by blast
  obtain p sb rb where p: "ft2232_device s1 = Some p" "fp_ftdic p" "send_buf p = Some sb" "recv_buf p = Some rb"
    "fifo (f2_bus s1) = []" "unat (send_buffered p) = 0" "unat (to_recv p) = 0" "d = mdev (f2_bus s1)"
    "unat (recv_read_idx p) \<le> unat (recv_write_idx p)" "unat (recv_write_idx p) \<le> length rb"
    "unat (recv_write_idx p) \<le> m" "m < 2 ^ 30" "rs = drop (unat (recv_read_idx p)) (take (unat (recv_write_idx p)) rb)"
    using s1(3) unfolding buffered_def by auto
  let ?r = "unat (recv_read_idx p)" and ?w = "unat (recv_write_idx p)"
  have len: "length rs = ?w - ?r" using p(10,13) by simp
  have diff: "unat (recv_write_idx p - recv_read_idx p) = ?w - ?r" using p(9) by (simp add: unat_sub word_le_nat_alt)
  have gap: "sint (recv_write_idx p - recv_read_idx p) = int (?w - ?r)"
    using sint_small_u32 [of "recv_write_idx p - recv_read_idx p"] p(11,12) unfolding diff by simp
  then have cpy: "min (sint (recv_write_idx p - recv_read_idx p)) (int k) = int k" using assms(3) len by simp
  have pos: "0 < sint (recv_write_idx p - recv_read_idx p)" unfolding gap using assms(2,3) len by linarith
  have idx: "unat (recv_read_idx p + of_nat k) = ?r + k" using small_u32 [of "recv_read_idx p" k] assms(3) len p(9,11,12) by simp
  have bytes: "take k (drop ?r rb) = take k rs" using assms(3) len p(9) unfolding p(13) by (simp add: take_drop min_def)
  let ?q = "p\<lparr>recv_read_idx := recv_read_idx p + of_nat k\<rparr>"
  let ?q' = "if recv_read_idx ?q = recv_write_idx ?q then ?q\<lparr>recv_read_idx := 0, recv_write_idx := 0\<rparr> else ?q"
  have fits: "?r + k \<le> length rb" using assms(3) len p(9,10) by linarith
  have "usbconn_ftdi_read lib k b s = Some ((int k, take k rs), set_params ?q' s1)"
    using p0 s1(1,2) assms(2-4) p(1,4) fits bytes pos
    by (simp add: usbconn_ftdi_read_def Let_def cpy put_bytes_def)
  moreover have "buffered [] (drop k rs) d 0 (if k = length rs then 0 else m) (set_params ?q' s1)"
  proof (cases "recv_read_idx p + of_nat k = recv_write_idx p")
    case True
    then have "k = length rs" using idx len by simp
    with True p show ?thesis by (simp add: buffered_def set_params_def)
  next
    case False
    have "?r + k \<le> ?w" using assms(3) len p(9) by linarith
    moreover have "?r + k \<noteq> ?w" using False idx by (metis unsigned_word_eqI)
    ultimately have "k \<noteq> length rs" "?r + k \<le> ?w" using len by simp_all
    with False p idx show ?thesis by (simp add: buffered_def set_params_def add.commute)
  qed
  ultimately show ?thesis by blast
qed

lemma memory_ok:
  assumes "buffered cs rs d n m s"
  shows "\<exists>s'. command_memory lib s = Some ((), s') \<and> buffered cs rs d n m s'"
proof -
  obtain u' where u': "mf_malloc lib (f2_bus s) = (True, u')" "fifo u' = fifo (f2_bus s)" "mdev u' = mdev (f2_bus s)"
    using box_memory by blast
  have "buffered cs rs d n m (s\<lparr>f2_bus := u'\<rparr>)" using assms u'(2,3) by (simp add: buffered_def)
  with u'(1) show ?thesis by (simp add: command_memory_def my_ftdi_def)
qed

end

lemma bytes_of_bits_append:
  assumes "length xs = 8 * k"
  shows "bytes_of_bits (xs @ ys) = bytes_of_bits xs @ bytes_of_bits ys"
proof (rule nth_equalityI)
  show "length (bytes_of_bits (xs @ ys)) = length (bytes_of_bits xs @ bytes_of_bits ys)" using assms by simp
  fix i assume "i < length (bytes_of_bits (xs @ ys))"
  then have i: "i < length (xs @ ys) div 8" by simp
  have "bit (bytes_of_bits (xs @ ys) ! i) j = bit ((bytes_of_bits xs @ bytes_of_bits ys) ! i) j" if "j < 8" for j
  proof (cases "i < k")
    case True
    then have "8 * i + j < length xs" "i < length xs div 8" using that assms by simp_all
    then show ?thesis using True that i assms by (simp add: nth_append bit_bytes_of_bits)
  next
    case False
    then obtain q where q: "i = k + q" using le_Suc_ex by (metis not_less)
    then have "q < length ys div 8" using i assms by simp
    then show ?thesis using that i assms q bit_bytes_of_bits [OF i that] by (simp add: nth_append bit_bytes_of_bits algebra_simps)
  qed
  then show "bytes_of_bits (xs @ ys) ! i = (bytes_of_bits xs @ bytes_of_bits ys) ! i" by (intro bit_word_eqI) simp
qed

lemma bytes_of_bits_Nil [simp]: "bytes_of_bits [] = []"
  by (simp add: bytes_of_bits_def)

context mpsse_box
begin

abbreviation "fstep \<equiv> tms_step step"
abbreviation "trace \<equiv> tdo_trace fstep tdo"

abbreviation "bytes_code \<equiv> MPSSE_DO_WRITE lib OR MPSSE_LSB lib OR MPSSE_WRITE_NEG lib"

lemma bytes_loop_ok:
  "buffered cs rs d n m s \<Longrightarrow> n + 4 * length data < 2 ^ 30 \<Longrightarrow> m + length data < 2 ^ 30 \<Longrightarrow> ps = map of_bool (byte_bits data) \<Longrightarrow>
   \<exists>r cs' s'. bytes_loop lib (mpsse_opcode lib postread bytes_code) postread data recv s = Some (r, s')
     \<and> buffered cs' (rs @ (if postread then bytes_of_bits (trace ps d) else [])) (fold fstep ps d) (n + 4 * length data)
         (m + (if postread then length data else 0)) s'"
proof (induction "length data" arbitrary: data cs rs d n m s recv ps rule: less_induct)
  case less
  show ?case
  proof (cases "data = []")
    case True
    with less.prems show ?thesis by (subst bytes_loop.simps) auto
  next
    case False
    let ?chunk = "take 65536 data" and ?rest = "drop 65536 data"
    let ?c = "Bytes postread ?chunk" and ?ps = "map of_bool (byte_bits (take 65536 data))"
    let ?qs = "map of_bool (byte_bits (drop 65536 data))"
    have c: "mpsse_ok ?c" using False by simp
    have pos: "0 < length ?chunk" using False by simp
    have split: "length ?chunk + length ?rest = length data" by simp
    let ?reply = "mpsse_reply pad ?c (trace (mpsse_packets ?c) d)"
    have reply: "?reply = (if postread then bytes_of_bits (trace ?ps d) else [])" by simp
    have len: "int (length ?reply) = (if postread then int (length ?chunk) else 0)" by simp
    have size: "length (mpsse_bytes lib ?c) = 3 + length ?chunk" "length ?reply \<le> length ?chunk" by simp_all
    then have room: "n + length (mpsse_bytes lib ?c) < 2 ^ 30" "m + length ?reply < 2 ^ 30"
      using less.prems(2,3) pos split by linarith+
    obtain cs1 s1 where s1: "usbconn_ftdi_write lib (mpsse_bytes lib ?c) (int (length ?reply)) s = Some (int (length (mpsse_bytes lib ?c)), s1)"
      "buffered cs1 (rs @ ?reply) (fold fstep ?ps d) (n + length (mpsse_bytes lib ?c)) (m + length ?reply) s1"
      using write_ok [OF less.prems(1) c refl room] by auto
    let ?n = "n + 4 * length ?chunk" and ?m = "m + (if postread then length ?chunk else 0)"
    have s1': "buffered cs1 (rs @ ?reply) (fold fstep ?ps d) ?n ?m s1"
      using less.prems(2,3) pos split size(1) by (intro buffered_mono [OF s1(2)]) (linarith | simp)+
    have shorter: "length ?rest < length data" using False by simp
    have room': "?n + 4 * length ?rest < 2 ^ 30" "?m + length ?rest < 2 ^ 30"
      using less.prems(2,3) split by simp_all
    obtain r cs' s' where rest: "bytes_loop lib (mpsse_opcode lib postread bytes_code) postread ?rest
        (if postread then recv + int (length ?chunk) else recv) s1 = Some (r, s')"
      "buffered cs' ((rs @ ?reply) @ (if postread then bytes_of_bits (trace ?qs (fold fstep ?ps d)) else []))
        (fold fstep ?qs (fold fstep ?ps d)) (?n + 4 * length ?rest) (?m + (if postread then length ?rest else 0)) s'"
      using less.hyps [OF shorter s1' room' refl] by blast
    have ps: "ps = ?ps @ ?qs" unfolding less.prems(4) map_append [symmetric] byte_bits_append [symmetric] by simp
    have eight: "length (trace ?ps d) = 8 * length ?chunk" by simp
    have "bytes_loop lib (mpsse_opcode lib postread bytes_code) postread data recv s = Some (r, s')"
      using False s1(1) rest(1) unfolding len by (subst bytes_loop.simps) (simp add: Let_def)
    moreover have e1: "?n + 4 * length ?rest = n + 4 * length data"
      "?m + (if postread then length ?rest else 0) = m + (if postread then length data else 0)" using split by (linarith, simp)
    have e2: "(rs @ ?reply) @ (if postread then bytes_of_bits (trace ?qs (fold fstep ?ps d)) else []) =
        rs @ (if postread then bytes_of_bits (trace ps d) else [])"
      unfolding ps tdo_trace_append bytes_of_bits_append [OF eight] reply by simp
    have e3: "fold fstep ?qs (fold fstep ?ps d) = fold fstep ps d" unfolding ps by simp
    note rest(2) [unfolded e1 e2 e3]
    ultimately show ?thesis by blast
  qed
qed

lemma write_bytes_ok:
  assumes "buffered cs rs d n m s" "len \<le> length bf" "n + 4 * len < 2 ^ 30" "m + len < 2 ^ 30"
    and ps: "ps = map of_bool (byte_bits (take len bf))"
  shows "\<exists>r cs' s'. (if len > 0 then cable_ft2232_write_bytes lib bf len postread s else Some (0, s)) = Some (r, s')
     \<and> buffered cs' (rs @ (if postread then bytes_of_bits (trace ps d) else [])) (fold fstep ps d) (n + 4 * len)
         (m + (if postread then len else 0)) s'"
proof (cases "len = 0")
  case True
  with assms show ?thesis by auto
next
  case False
  obtain s1 where s1: "command_memory lib s = Some ((), s1)" "buffered cs rs d n m s1" using memory_ok [OF assms(1)] by blast
  have "length (take len bf) = len" using assms(2) by simp
  then show ?thesis
    using bytes_loop_ok [OF s1(2), of "take len bf" ps postread 0] assms(3,4) ps False s1(1) assms(2)
    by (cases postread) (simp_all add: cable_ft2232_write_bytes_def mpsse_opcode_def)
qed

lemma write_bits_ok:
  assumes "buffered cs rs d n m s" "len < 8" "0 < len \<longrightarrow> b < length bf" "n + 3 < 2 ^ 30" "m + 1 < 2 ^ 30"
    and ps: "ps = map (\<lambda>i. of_bool (bit (bf ! b) i)) [0..<len]"
  shows "\<exists>r cs' s'. (if len > 0 then cable_ft2232_write_bits lib (drop b bf) len postread False s else Some (0, s)) = Some (r, s')
     \<and> buffered cs' (rs @ (if postread \<and> 0 < len then [pad (trace ps d)] else [])) (fold fstep ps d) (n + 3)
         (m + (if postread \<and> 0 < len then 1 else 0)) s'"
proof (cases "len = 0")
  case True
  then show ?thesis using assms(4,5) buffered_mono [OF assms(1), of "n + 3" m] by (auto simp: ps)
next
  case False
  let ?c = "Bits postread len (bf ! b)"
  obtain s1 where s1: "command_memory lib s = Some ((), s1)" "buffered cs rs d n m s1" using memory_ok [OF assms(1)] by blast
  have size: "length (mpsse_bytes lib ?c) = 3" by simp
  have reply: "mpsse_reply pad ?c (trace (mpsse_packets ?c) d) = (if postread then [pad (trace ps d)] else [])" by (simp add: ps)
  have ok: "mpsse_ok ?c" using False assms(2) by simp
  obtain cs2 s2 where s2: "usbconn_ftdi_write lib (mpsse_bytes lib ?c) (if postread then 1 else 0) s1 = Some (3, s2)"
    "buffered cs2 (rs @ (if postread then [pad (trace ps d)] else [])) (fold fstep ps d) (n + 3) (m + (if postread then 1 else 0)) s2"
    using write_ok [OF s1(2) ok reply [symmetric], unfolded size] assms(4,5) by (cases postread) (auto simp: ps)
  have at: "word_at (drop b bf) 0 = Some (bf ! b)" using assms(3) False by simp
  have "min len 8 = len" using assms(2) by simp
  then have "cable_ft2232_write_bits lib (drop b bf) len postread False s = Some (if postread then 1 else 0, s2)"
    using False s1(1) s2(1) at
    by (simp add: cable_ft2232_write_bits_def bits_loop.simps [of lib _ postread False _ 0 len] bits_loop.simps [of lib _ postread False _ _ 0]
        mpsse_opcode_def Let_def)
  with s2(2) False show ?thesis by auto
qed

lemma tms_byte: "0x01 OR push_bit 7 b = 0x01 OR push_bit 7 (of_bool (bit b 0) :: u8)"
proof -
  have "push_bit 7 b = push_bit 7 (of_bool (bit b 0) :: u8)"
    by (rule bit_word_eqI) (auto simp: bit_push_bit_iff bit_of_bool_iff dest: less_antisym)
  then show ?thesis by simp
qed

lemma write_tms_ok:
  assumes "buffered cs rs d n m s" "n + 3 < 2 ^ 30" "m + 1 < 2 ^ 30" and ps: "ps = [of_bool (bit b 0) OR TMS]"
  shows "\<exists>r cs' s'. cable_ft2232_write_bits lib [b] 1 postread True s = Some (r, s')
     \<and> buffered cs' (rs @ (if postread then [pad (trace ps d)] else [])) (fold fstep ps d) (n + 3) (m + (if postread then 1 else 0)) s'"
proof -
  let ?c = "WithTms postread (bit b 0)"
  obtain s1 where s1: "command_memory lib s = Some ((), s1)" "buffered cs rs d n m s1" using memory_ok [OF assms(1)] by blast
  have size: "length (mpsse_bytes lib ?c) = 3" by simp
  have reply: "mpsse_reply pad ?c (trace (mpsse_packets ?c) d) = (if postread then [pad (trace ps d)] else [])" by (simp add: ps)
  obtain cs2 s2 where s2: "usbconn_ftdi_write lib (mpsse_bytes lib ?c) (if postread then 1 else 0) s1 = Some (3, s2)"
    "buffered cs2 (rs @ (if postread then [pad (trace ps d)] else [])) (fold fstep ps d) (n + 3) (m + (if postread then 1 else 0)) s2"
    using write_ok [OF s1(2) _ reply [symmetric], unfolded size] assms(2,3) by (cases postread) (auto simp: ps)
  have "cable_ft2232_write_bits lib [b] 1 postread True s = Some (if postread then 1 else 0, s2)"
    using s1(1) s2(1) tms_byte [of b]
    by (simp add: cable_ft2232_write_bits_def bits_loop.simps [of lib _ postread True _ 0] bits_loop.simps [of lib _ postread True _ _ 0]
        mpsse_opcode_def Let_def)
  with s2(2) show ?thesis by blast
qed

end

subsection \<open>Streams\<close>

text \<open>The packets of a stream, and what comes back for the levels \<open>tr\<close>.\<close>

definition byte_packets :: "u8 list \<Rightarrow> nat \<Rightarrow> bool \<Rightarrow> u8 list" where
  "byte_packets bf n l = map (\<lambda>i. of_bool (byte_bits bf ! i) OR (if l \<and> Suc i = n then TMS else 0)) [0..<n]"

definition stream_reply :: "(bool list \<Rightarrow> u8) \<Rightarrow> nat \<Rightarrow> nat \<Rightarrow> bool \<Rightarrow> bool list \<Rightarrow> u8 list" where
  "stream_reply pad B b l tr =
     bytes_of_bits (take (8 * B) tr) @ (if 0 < b then [pad (take b (drop (8 * B) tr))] else [])
       @ (if l then [pad (drop (8 * B + b) tr)] else [])"

lemma byte_packets_words: "n \<le> 32 * length ws \<Longrightarrow> byte_packets (bytes_of_words ws) n l = stream_packets ws n l"
proof -
  assume n: "n \<le> 32 * length ws"
  have "byte_bits (bytes_of_words ws) = stream_bits ws (32 * length ws)"
    using stream_bytes [of "4 * length ws" ws] by simp
  with n show ?thesis by (auto simp: byte_packets_def stream_packets_def stream_packet_def stream_bits_def TDO_def)
qed

lemma byte_bits_take: "m \<le> length bf \<Longrightarrow> byte_bits (take m bf) = take (8 * m) (byte_bits bf)"
  "m \<le> length bf \<Longrightarrow> byte_bits (drop m bf) = drop (8 * m) (byte_bits bf)"
proof -
  assume "m \<le> length bf"
  then have "length (byte_bits (take m bf)) = 8 * m" by simp
  moreover have "byte_bits bf = byte_bits (take m bf) @ byte_bits (drop m bf)" by (simp flip: byte_bits_append)
  ultimately show "byte_bits (take m bf) = take (8 * m) (byte_bits bf)" "byte_bits (drop m bf) = drop (8 * m) (byte_bits bf)"
    by simp_all
qed

text \<open>A stream is its whole bytes, the bits left over, and the bit with TMS.\<close>

lemma byte_packets_split:
  assumes "n = 8 * B + b + of_bool l" "b < 8" "n \<le> 8 * length bf"
  shows "byte_packets bf n l = map of_bool (byte_bits (take B bf)) @ map (\<lambda>i. of_bool (bit (bf ! B) i)) [0..<b]
    @ (if l then [of_bool (bit (bf ! B) b) OR TMS] else [])"
    "0 < b \<or> l \<longrightarrow> B < length bf" "B \<le> length bf"
proof -
  have "8 * B \<le> 8 * length bf" using assms(1,3) by linarith
  moreover have "8 * B < 8 * length bf" if "0 < b \<or> l" using assms(1,3) that by (cases l) auto
  ultimately show B: "0 < b \<or> l \<longrightarrow> B < length bf" "B \<le> length bf" by simp_all
  have rest: "byte_bits bf ! (8 * B + i) = bit (bf ! B) i" if "8 * B + i < n" "i < 8" for i
    using that assms(3) by (simp add: nth_byte_bits)
  have "[0..<n] = [0..<8 * B] @ map (\<lambda>i. i + 8 * B) [0..<b] @ (if l then [8 * B + b] else [])"
    using assms(1) upt_add_eq_append [of 0 "8 * B" b] by (cases l) (simp_all add: map_add_upt add.commute)
  then have "byte_packets bf n l = map (\<lambda>i. of_bool (byte_bits bf ! i)) [0..<8 * B] @ map (\<lambda>i. of_bool (byte_bits bf ! (8 * B + i))) [0..<b]
      @ (if l then [of_bool (byte_bits bf ! (8 * B + b)) OR TMS] else [])"
    using assms(1) by (auto simp: byte_packets_def add.commute)
  moreover have "map (\<lambda>i. of_bool (byte_bits bf ! i)) [0..<8 * B] = (map of_bool (byte_bits (take B bf)) :: u8 list)"
    using B(2) by (simp add: byte_bits_take list_eq_iff_nth_eq)
  moreover have "map (\<lambda>i. of_bool (byte_bits bf ! (8 * B + i))) [0..<b] = (map (\<lambda>i. of_bool (bit (bf ! B) i)) [0..<b] :: u8 list)"
    using assms(1,2) by (simp add: rest)
  moreover have "l \<Longrightarrow> byte_bits bf ! (8 * B + b) = bit (bf ! B) b" using assms(1,2) by (intro rest) simp_all
  ultimately show "byte_packets bf n l = map of_bool (byte_bits (take B bf)) @ map (\<lambda>i. of_bool (bit (bf ! B) i)) [0..<b]
    @ (if l then [of_bool (bit (bf ! B) b) OR TMS] else [])" by auto
qed

context mpsse_box
begin

lemma write_stream_ok:
  assumes "buffered [] [] d 0 0 s" "n = 8 * B + b + of_bool l" "b < 8" "n \<le> 8 * length bf" "n < 2 ^ 29"
    and tr: "tr = trace (byte_packets bf n l) d"
  shows "\<exists>cs s'. cable_ft2232_write_stream lib bf (int n) postread l s = Some (0, s')
     \<and> buffered cs (if postread then stream_reply pad B b l tr else []) (fold fstep (byte_packets bf n l) d)
         (4 * B + 6) (if postread then B + of_bool (0 < b) + of_bool l else 0) s'"
proof -
  note split = byte_packets_split [OF assms(2-4)]
  let ?p1 = "map of_bool (byte_bits (take B bf)) :: u8 list" and ?p2 = "map (\<lambda>i. of_bool (bit (bf ! B) i)) [0..<b] :: u8 list"
  let ?p3 = "[of_bool (bit (bf ! B) b) OR TMS] :: u8 list"
  let ?d1 = "fold fstep ?p1 d" let ?d2 = "fold fstep ?p2 ?d1"
  let ?r1 = "if postread then bytes_of_bits (trace ?p1 d) else []"
  let ?r2 = "if postread \<and> 0 < b then [pad (trace ?p2 ?d1)] else []"
  let ?r3 = "if postread then [pad (trace ?p3 ?d2)] else []"
  have small: "4 * B + 6 < 2 ^ 30" "B + 2 < 2 ^ 30" using assms(2,5) by simp_all
  obtain x1 cs1 s1 where s1: "(if B > 0 then cable_ft2232_write_bytes lib bf B postread s else Some (0, s)) = Some (x1, s1)"
    "buffered cs1 ?r1 ?d1 (4 * B) (if postread then B else 0) s1"
    using write_bytes_ok [OF assms(1) split(3) _ _ refl, of postread] small by auto
  have "4 * B + 3 < 2 ^ 30" "(if postread then B else 0) + 1 < (2 :: nat) ^ 30" using small by simp_all
  then obtain x2 cs2 s2 where s2: "(if b > 0 then cable_ft2232_write_bits lib (drop B bf) b postread False s1 else Some (0, s1)) = Some (x2, s2)"
    "buffered cs2 (?r1 @ ?r2) ?d2 (4 * B + 3) ((if postread then B else 0) + (if postread \<and> 0 < b then 1 else 0)) s2"
    using write_bits_ok [OF s1(2) assms(3) _ _ _ refl, of B bf postread] split(2) by blast
  have len: "int n - of_bool l = int (8 * B + b)" unfolding assms(2) by simp
  have parts: "nat (int n - of_bool l) div 8 = B" "nat (int n - of_bool l) mod 8 = b" "\<not> int n - of_bool l < 0"
    unfolding len nat_int using assms(3) by simp_all
  have start: "cable_ft2232_write_stream lib bf (int n) postread l s =
      (if l then do { b' \<leftarrow> word_at bf B; (_, s) \<leftarrow> cable_ft2232_write_bits lib [drop_bit b b'] 1 postread True s2; Some (0, s) }
       else Some (0, s2))"
    unfolding cable_ft2232_write_stream_def Let_def parts using s1(1) s2(1) parts(3) by simp
  have trace: "tr = trace ?p1 d @ trace ?p2 ?d1 @ (if l then trace ?p3 ?d2 else [])"
    unfolding tr split(1) tdo_trace_append by simp
  have l1: "length (trace ?p1 d) = 8 * B" using split(3) by simp
  have reply: "stream_reply pad B b l tr = bytes_of_bits (trace ?p1 d) @ (if 0 < b then [pad (trace ?p2 ?d1)] else [])
      @ (if l then [pad (trace ?p3 ?d2)] else [])"
    unfolding stream_reply_def trace using l1 by simp
  show ?thesis
  proof (cases l)
    case False
    have "buffered cs2 (?r1 @ ?r2) ?d2 (4 * B + 6) (if postread then B + of_bool (0 < b) else 0) s2"
      using small by (intro buffered_mono [OF s2(2)]) auto
    moreover have "(if postread then stream_reply pad B b l tr else []) = ?r1 @ ?r2" unfolding reply using False by simp
    moreover have "fold fstep (byte_packets bf n l) d = ?d2" unfolding split(1) using False by simp
    ultimately show ?thesis using start False by auto
  next
    case True
    have "bit (drop_bit b (bf ! B)) 0 = bit (bf ! B) b" by (simp add: bit_drop_bit_eq)
    then have p3: "?p3 = [of_bool (bit (drop_bit b (bf ! B)) 0) OR TMS]" by simp
    have "4 * B + 3 + 3 < 2 ^ 30" "(if postread then B else 0) + (if postread \<and> 0 < b then 1 else 0) + 1 < (2 :: nat) ^ 30"
      using small by simp_all
    then obtain x3 cs3 s3 where s3: "cable_ft2232_write_bits lib [drop_bit b (bf ! B)] 1 postread True s2 = Some (x3, s3)"
      "buffered cs3 ((?r1 @ ?r2) @ ?r3) (fold fstep ?p3 ?d2) (4 * B + 3 + 3)
        ((if postread then B else 0) + (if postread \<and> 0 < b then 1 else 0) + (if postread then 1 else 0)) s3"
      using write_tms_ok [OF s2(2) _ _ p3, of postread] by blast
    have "buffered cs3 ((?r1 @ ?r2) @ ?r3) (fold fstep ?p3 ?d2) (4 * B + 6) (if postread then B + of_bool (0 < b) + 1 else 0) s3"
      using small by (intro buffered_mono [OF s3(2)]) auto
    moreover have "(if postread then stream_reply pad B b l tr else []) = (?r1 @ ?r2) @ ?r3" unfolding reply using True by simp
    moreover have "fold fstep (byte_packets bf n l) d = fold fstep ?p3 ?d2" unfolding split(1) using True by simp
    ultimately show ?thesis using start s3(1) split(2) True by auto
  qed
qed

end

text \<open>The levels put into a buffer from bit \<open>off\<close> on.\<close>

definition patch :: "nat \<Rightarrow> bool list \<Rightarrow> bool list \<Rightarrow> bool list" where
  "patch off tr xs = take off xs @ tr @ drop (off + length tr) xs"

lemma nth_patch:
  assumes "off + length tr \<le> length xs" "q < length xs"
  shows "patch off tr xs ! q = (if off \<le> q \<and> q < off + length tr then tr ! (q - off) else xs ! q)"
  using assms by (auto simp: patch_def nth_append)

lemma length_patch: "off + length tr \<le> length xs \<Longrightarrow> length (patch off tr xs) = length xs"
  by (simp add: patch_def)

lemma merge_bit:
  assumes "k \<le> c" "c < 8"
  shows "bit ((d AND NOT (push_bit c 1)) OR push_bit (c - k) (v AND push_bit k 1) :: u8) j \<longleftrightarrow> (if j = c then bit v k else bit d j)"
proof (cases "j < 8")
  case True
  have "bit (push_bit (c - k) (v AND push_bit k 1)) j \<longleftrightarrow> j = c \<and> bit v k"
    using assms True by (auto simp: bit_push_bit_iff bit_and_iff bit_exp_iff possible_bit_word)
  then show ?thesis using True by (auto simp: bit_or_iff bit_and_iff bit_not_iff bit_exp_iff possible_bit_word)
next
  case False
  then show ?thesis using assms(2) bit_imp_le_length by fastforce
qed

lemma unpack_ok:
  assumes "\<And>i. i < m \<Longrightarrow> bit v i = tr ! i" "length tr = m" "off mod 8 + m \<le> 8" "off + m \<le> 8 * length bf"
  shows "\<exists>bf'. unpack_bits [v] m off [off..<off + m] bf = Some bf' \<and> byte_bits bf' = patch off tr (byte_bits bf)"
proof -
  have "k \<le> m \<Longrightarrow> off + m \<le> 8 * length bf \<Longrightarrow>
      \<exists>bf'. unpack_bits [v] m off [off + k..<off + m] bf = Some bf' \<and> length bf' = length bf
        \<and> (\<forall>q < 8 * length bf. byte_bits bf' ! q = (if off + k \<le> q \<and> q < off + m then tr ! (q - off) else byte_bits bf ! q))" for k bf
  proof (induction "m - k" arbitrary: k bf)
    case 0
    then show ?case by (intro exI [of _ bf]) auto
  next
    case (Suc x)
    then have k: "k < m" by simp
    let ?i = "off + k"
    let ?row = "?i div 8" and ?col = "?i mod 8"
    have col: "?col = off mod 8 + k" "k \<le> ?col" "?col < 8"
    proof -
      have "?i mod 8 = (off mod 8 + k) mod 8" by (simp add: mod_add_left_eq)
      also have "\<dots> = off mod 8 + k" using k assms(3) by (intro mod_less) linarith
      finally show "?col = off mod 8 + k" .
      then show "k \<le> ?col" by simp
    qed simp
    have row: "?row < length bf" using k Suc.prems(2) by (simp add: less_mult_imp_div_less mult.commute)
    let ?b = "(bf ! ?row AND NOT (push_bit ?col 1)) OR push_bit (?col - k) (v AND push_bit k 1)"
    let ?bf = "bf[?row := ?b]"
    have upt: "[?i..<off + m] = ?i # [off + Suc k..<off + m]" using k by (simp add: upt_conv_Cons)
    have "unpack_bits [v] m off [?i..<off + m] bf = unpack_bits [v] m off [off + Suc k..<off + m] ?bf"
      using k row col(2) unfolding upt by (simp add: Let_def)
    moreover have "x = m - Suc k" "Suc k \<le> m" "off + m \<le> 8 * length ?bf" using Suc.hyps(2) k Suc.prems(2) by simp_all
    from Suc.hyps(1) [OF this] obtain bf' where bf': "unpack_bits [v] m off [off + Suc k..<off + m] ?bf = Some bf'" "length bf' = length bf"
      "\<forall>q < 8 * length bf. byte_bits bf' ! q = (if off + Suc k \<le> q \<and> q < off + m then tr ! (q - off) else byte_bits ?bf ! q)"
      unfolding length_list_update by blast
    have "byte_bits ?bf ! q = (if q = ?i then tr ! k else byte_bits bf ! q)" if q: "q < 8 * length bf" for q
    proof -
      have qr: "q div 8 < length bf" using q by (simp add: less_mult_imp_div_less mult.commute)
      have same: "q = ?i \<longleftrightarrow> q div 8 = ?row \<and> q mod 8 = ?col" by (metis div_mult_mod_eq)
      show ?thesis
      proof (cases "q div 8 = ?row")
        case True
        then have "byte_bits ?bf ! q = bit ?b (q mod 8)" using q row by (simp add: nth_byte_bits)
        also have "\<dots> = (if q mod 8 = ?col then bit v k else bit (bf ! ?row) (q mod 8))" by (rule merge_bit [OF col(2,3)])
        finally show ?thesis using True q assms(1) [OF k] unfolding same by (simp add: nth_byte_bits)
      next
        case False
        then show ?thesis using q qr unfolding same by (simp add: nth_byte_bits)
      qed
    qed
    with bf'(3) have "\<forall>q < 8 * length bf. byte_bits bf' ! q = (if ?i \<le> q \<and> q < off + m then tr ! (q - off) else byte_bits bf ! q)"
      using k by (auto simp: le_Suc_eq Suc_le_eq)
    with calculation bf'(1,2) show ?case by (intro exI [of _ bf']) simp
  qed
  from this [of 0 bf] assms(4) obtain bf' where bf': "unpack_bits [v] m off [off..<off + m] bf = Some bf'" "length bf' = length bf"
    "\<forall>q < 8 * length bf. byte_bits bf' ! q = (if off \<le> q \<and> q < off + m then tr ! (q - off) else byte_bits bf ! q)"
    by auto
  have "byte_bits bf' = patch off tr (byte_bits bf)"
    using bf'(2,3) assms(2,4) by (intro nth_equalityI) (simp_all add: length_patch nth_patch)
  with bf'(1) show ?thesis by blast
qed

context mpsse_box
begin

lemma read_bytes_ok:
  assumes "buffered cs (bytes_of_bits tr @ rs) d n m s" "length tr = 8 * B" "0 < B" "B \<le> length bf"
  shows "\<exists>r bf' s'. cable_ft2232_read_packed_bits lib j bf B 8 0 s = Some ((r, bf'), s')
     \<and> byte_bits bf' = patch 0 tr (byte_bits bf) \<and> buffered [] rs d 0 (if rs = [] then 0 else m) s'"
proof -
  obtain s1 where s1: "command_memory lib s = Some ((), s1)" "buffered cs (bytes_of_bits tr @ rs) d n m s1"
    using memory_ok [OF assms(1)] by blast
  obtain s2 where s2: "usbconn_ftdi_read lib B (replicate B j) s1 = Some ((int B, bytes_of_bits tr), s2)"
    "buffered [] rs d 0 (if rs = [] then 0 else m) s2"
    using read_ok [OF s1(2) assms(3), of "replicate B j"] assms(2) by auto
  let ?bf = "bytes_of_bits tr @ drop B bf"
  have "cable_ft2232_read_packed_bits lib j bf B 8 0 s = Some ((0, ?bf), s2)"
    using s1(1) s2(1) assms(2-4) by (simp add: cable_ft2232_read_packed_bits_def put_bytes_def)
  moreover have "byte_bits ?bf = patch 0 tr (byte_bits bf)"
    using assms(2,4) by (simp add: byte_bits_append byte_bits_of_bits byte_bits_take patch_def)
  ultimately show ?thesis using s2(2) by blast
qed

lemma read_bits_ok:
  assumes "buffered cs (pad tr # rs) d n m s" "length tr = b" "0 < b" "b < 8" "off mod 8 + b \<le> 8" "off + b \<le> 8 * length bf"
  shows "\<exists>r bf' s'. cable_ft2232_read_packed_bits lib j bf 1 b off s = Some ((r, bf'), s')
     \<and> byte_bits bf' = patch off tr (byte_bits bf) \<and> buffered [] rs d 0 (if rs = [] then 0 else m) s'"
proof -
  obtain s1 where s1: "command_memory lib s = Some ((), s1)" "buffered cs (pad tr # rs) d n m s1"
    using memory_ok [OF assms(1)] by blast
  obtain s2 where s2: "usbconn_ftdi_read lib 1 [j] s1 = Some ((1, [pad tr]), s2)" "buffered [] rs d 0 (if rs = [] then 0 else m) s2"
    using read_ok [OF s1(2), of 1 "[j]"] by auto
  have "bit (drop_bit (8 - b) (pad tr)) i = tr ! i" if "i < b" for i
    using box_pad [of i tr] that assms(2,4) by (simp add: bit_drop_bit_eq)
  from unpack_ok [OF this assms(2,5,6)] obtain bf' where
    "unpack_bits [drop_bit (8 - b) (pad tr)] b off [off..<off + b] bf = Some bf'" "byte_bits bf' = patch off tr (byte_bits bf)"
    by blast
  moreover from this(1) have "cable_ft2232_read_packed_bits lib j bf 1 b off s = Some ((0, bf'), s2)"
    using s1(1) s2(1) assms(3,4) by (simp add: cable_ft2232_read_packed_bits_def add.commute)
  ultimately show ?thesis using s2(2) by blast
qed

lemma read_stream_ok:
  assumes "buffered cs (stream_reply pad B b l tr) d n0 m s" "n = 8 * B + b + of_bool l" "b < 8" "0 < n" "n \<le> 8 * length bf" "length tr = n"
  shows "\<exists>bf' s'. cable_ft2232_read_stream lib j bf (int n) l s = Some ((0, bf'), s')
     \<and> byte_bits bf' = patch 0 tr (byte_bits bf) \<and> buffered [] [] d 0 0 s'"
proof -
  let ?t1 = "take (8 * B) tr" and ?t2 = "take b (drop (8 * B) tr)" and ?t3 = "drop (8 * B + b) tr"
  let ?r2 = "if 0 < b then [pad ?t2] else []" and ?r3 = "if l then [pad ?t3] else []"
  have len: "length ?t1 = 8 * B" "length ?t2 = b" "length ?t3 = of_bool l" "B \<le> length bf" using assms(2,5,6) by (auto simp: min_def)
  have none: "bytes_of_bits ?t1 = []" if "B = 0" using that by simp
  obtain x1 bf1 cs1 n1 m1 s1 where s1: "(if B > 0 then cable_ft2232_read_packed_bits lib j bf B 8 0 s else Some ((0, bf), s)) = Some ((x1, bf1), s1)"
    "byte_bits bf1 = patch 0 ?t1 (byte_bits bf)" "buffered cs1 (?r2 @ ?r3) d n1 m1 s1" "?r2 @ ?r3 = [] \<Longrightarrow> cs1 = [] \<and> n1 = 0 \<and> m1 = 0"
  proof (cases "B = 0")
    case True
    then show thesis using assms(1,2,4) none by (intro that [of 0 bf s cs n0 m]) (auto simp: stream_reply_def patch_def)
  next
    case False
    then have "0 < B" by simp
    with read_bytes_ok [OF assms(1) [unfolded stream_reply_def] len(1) _ len(4), of j] show thesis
      by (auto intro: that)
  qed
  have len1: "length bf1 = length bf"
    using arg_cong [OF s1(2), of length] len(1,4) by (simp add: length_patch)
  obtain x2 bf2 cs2 n2 m2 s2 where s2: "(if b > 0 then cable_ft2232_read_packed_bits lib j bf1 1 b (B * 8) s1 else Some ((0, bf1), s1)) = Some ((x2, bf2), s2)"
    "byte_bits bf2 = patch (8 * B) ?t2 (byte_bits bf1)" "buffered cs2 ?r3 d n2 m2 s2" "?r3 = [] \<Longrightarrow> cs2 = [] \<and> n2 = 0 \<and> m2 = 0"
  proof (cases "b = 0")
    case True
    then show thesis using s1(3,4) by (intro that [of 0 bf1 s1 cs1 n1 m1]) (auto simp: patch_def)
  next
    case False
    then have b: "0 < b" by simp
    have "B * 8 mod 8 + b \<le> 8" "B * 8 + b \<le> 8 * length bf1" using assms(2,3,5) len1 by simp_all
    from read_bits_ok [OF _ len(2) b assms(3) this, of cs1 ?r3 d n1 m1 s1 j] s1(3) b show thesis
      by (auto simp: mult.commute intro: that)
  qed
  have len2: "length bf2 = length bf"
    using arg_cong [OF s2(2), of length] len(2) len1 assms(2,5) by (simp add: length_patch)
  obtain x3 bf3 s3 where s3: "(if l then cable_ft2232_read_packed_bits lib j bf2 1 1 (b + B * 8) s2 else Some ((0, bf2), s2)) = Some ((x3, bf3), s3)"
    "byte_bits bf3 = patch (8 * B + b) ?t3 (byte_bits bf2)" "buffered [] [] d 0 0 s3"
  proof (cases l)
    case False
    then show thesis using s2(3,4) len(3) by (intro that [of 0 bf2 s2]) (auto simp: patch_def)
  next
    case True
    have "(b + B * 8) mod 8 + 1 \<le> 8" "b + B * 8 + 1 \<le> 8 * length bf2" using assms(2,3,5) len2 True by simp_all
    from read_bits_ok [OF _ _ _ _ this, of cs2 ?t3 "[]" d n2 m2 s2 j] s2(3) True len(3) show thesis
      by (auto simp: ac_simps intro: that)
  qed
  have l8: "int n - of_bool l = int (8 * B + b)" unfolding assms(2) by simp
  have parts: "nat (int n - of_bool l) div 8 = B" "nat (int n - of_bool l) mod 8 = b" "\<not> int n - of_bool l < 0"
    unfolding l8 nat_int using assms(3) by simp_all
  have "cable_ft2232_read_stream lib j bf (int n) l s = Some ((0, bf3), s3)"
    unfolding cable_ft2232_read_stream_def Let_def parts using s1(1) s2(1) s3(1) parts(3) by simp
  moreover have "byte_bits bf3 = patch 0 tr (byte_bits bf)"
  proof -
    have "patch (8 * B + b) ?t3 (patch (8 * B) ?t2 (patch 0 ?t1 xs)) = patch 0 tr xs" if "n \<le> length xs" for xs
    proof (rule nth_equalityI)
      have fits: "0 + length ?t1 \<le> length xs" "8 * B + length ?t2 \<le> length xs" "8 * B + b + length ?t3 \<le> length xs" "0 + length tr \<le> length xs"
        using that assms(2,6) len by simp_all
      then show "length (patch (8 * B + b) ?t3 (patch (8 * B) ?t2 (patch 0 ?t1 xs))) = length (patch 0 tr xs)"
        by (simp add: length_patch)
      fix q assume "q < length (patch (8 * B + b) ?t3 (patch (8 * B) ?t2 (patch 0 ?t1 xs)))"
      then have "q < length xs" using fits by (simp add: length_patch)
      then show "patch (8 * B + b) ?t3 (patch (8 * B) ?t2 (patch 0 ?t1 xs)) ! q = patch 0 tr xs ! q"
        using fits that assms(2,6) len(1-3) by (auto simp: nth_patch length_patch)
    qed
    then show ?thesis using s1(2) s2(2) s3(2) assms(5) by simp
  qed
  ultimately show ?thesis using s3(3) by blast
qed

end

subsection \<open>The chip on a device\<close>

text \<open>The codes are those of ftdi.h: 0x19, 0x1B and 0x4B for the three commands, and 0x20 more to read.\<close>

record 'd mpsse =
  mp_dev :: 'd
  mp_fifo :: "u8 list"

fun mpsse_parse :: "u8 list \<Rightarrow> mpsse_cmd list" where
  "mpsse_parse (code # a # b # bs) =
     (if code = 0x19 \<or> code = 0x39 then
        (let n = unat a + 256 * unat b + 1 in Bytes (code = 0x39) (take n bs) # mpsse_parse (drop n bs))
      else if code = 0x1B \<or> code = 0x3B then Bits (code = 0x3B) (unat a + 1) b # mpsse_parse bs
      else if code = 0x4B \<or> code = 0x6B then WithTms (code = 0x6B) (bit b 7) # mpsse_parse bs
      else [])"
| "mpsse_parse _ = []"

definition reply_pad :: "bool list \<Rightarrow> u8" where
  "reply_pad tr = push_bit (8 - length tr) (horner_sum of_bool 2 tr)"

definition mpsse_chip :: "(bool option \<Rightarrow> bool \<Rightarrow> 'd \<Rightarrow> 'd) \<Rightarrow> ('d \<Rightarrow> bool) \<Rightarrow> 'd mpsse mpsse_lib" where
  "mpsse_chip step tdo =
     \<lparr>mf_init = (\<lambda>x. (0, x)), mf_usb_open_desc = (\<lambda>_ _ x. (0, x)), mf_deinit = (\<lambda>x. ((), x)), mf_usb_close = (\<lambda>x. (0, x)),
      mf_usb_purge_buffers = (\<lambda>x. (0, x)), mf_usb_reset = (\<lambda>x. (0, x)), mf_write_data_set_chunksize = (\<lambda>_ x. (0, x)),
      mf_read_data_set_chunksize = (\<lambda>_ x. (0, x)), mf_set_latency_timer = (\<lambda>_ x. (0, x)), mf_set_bitmode_mpsse = (\<lambda>_ x. (0, x)),
      mf_write_data = (\<lambda>bs x. let (rs, d) = mpsse_run reply_pad (tms_step step) tdo (mpsse_parse bs) (mp_dev x) in
        (int (length bs), x\<lparr>mp_dev := d, mp_fifo := mp_fifo x @ rs\<rparr>)),
      mf_read_data = (\<lambda>k x. ((int (length (take k (mp_fifo x))), take k (mp_fifo x)), x\<lparr>mp_fifo := drop k (mp_fifo x)\<rparr>)),
      mf_malloc = (\<lambda>x. (True, x)),
      MPSSE_WRITE_NEG = 0x01, MPSSE_BITMODE = 0x02, MPSSE_LSB = 0x08, MPSSE_DO_WRITE = 0x10, MPSSE_DO_READ = 0x20,
      MPSSE_WRITE_TMS = 0x40, SET_BITS_LOW = 0x80, SET_BITS_HIGH = 0x82, TCK_DIVISOR = 0x86, LOOPBACK_END = 0x85, SEND_IMMEDIATE = 0x87\<rparr>"

lemma length_code:
  assumes "0 < n" "n \<le> 65536"
  shows "unat (of_nat (n - 1) :: u8) + 256 * unat (of_nat ((n - 1) div 256) :: u8) + 1 = n"
proof -
  have "(n - 1) div 256 < 256" using assms by (simp add: less_mult_imp_div_less)
  then have "unat (of_nat ((n - 1) div 256) :: u8) = (n - 1) div 256" by (simp add: unat_of_nat)
  moreover have "unat (of_nat (n - 1) :: u8) = (n - 1) mod 256" by (simp only: unat_of_nat) simp
  ultimately show ?thesis using assms(1) by simp
qed

lemma chip_bytes:
  "mpsse_bytes (mpsse_chip step tdo) (Bytes r bs) = (if r then 0x39 else 0x19) # of_nat (length bs - 1) # of_nat ((length bs - 1) div 256) # bs"
  "mpsse_bytes (mpsse_chip step tdo) (Bits r n b) = [if r then 0x3B else 0x1B, of_nat (n - 1), b]"
  "mpsse_bytes (mpsse_chip step tdo) (WithTms r t) = [if r then 0x6B else 0x4B, 0, 0x01 OR push_bit 7 (of_bool t)]"
  by (simp_all add: mpsse_opcode_def mpsse_chip_def)

lemma chip_write:
  "mpsse_run reply_pad (tms_step step) tdo (mpsse_parse bs) (mp_dev x) = (rs, d) \<Longrightarrow>
   mf_write_data (mpsse_chip step tdo) bs x = (int (length bs), x\<lparr>mp_dev := d, mp_fifo := mp_fifo x @ rs\<rparr>)"
  by (simp add: mpsse_chip_def)

lemma parse_bytes:
  "unat a + 256 * unat b + 1 = length bs \<Longrightarrow> mpsse_parse ((if r then 0x39 else 0x19) # a # b # bs @ rest) = Bytes r bs # mpsse_parse rest"
  by (cases r) (simp_all add: Let_def)

lemma parse_code: "\<forall>c \<in> set cs. mpsse_ok c \<Longrightarrow> mpsse_parse (concat (map (mpsse_bytes (mpsse_chip step tdo)) cs)) = cs"
proof (induction cs)
  case (Cons c cs)
  then have IH: "mpsse_parse (concat (map (mpsse_bytes (mpsse_chip step tdo)) cs)) = cs" and ok: "mpsse_ok c" by simp_all
  show ?case
  proof (cases c)
    case (Bytes r bs)
    then have bs: "0 < length bs" "length bs \<le> 65536" using ok by simp_all
    show ?thesis unfolding Bytes list.map concat.simps chip_bytes append_Cons parse_bytes [OF length_code [OF bs]] IH ..
  next
    case (Bits r n b)
    then have "n - 1 < 256" "0 < n" using ok by auto
    then have "unat (of_nat (n - 1) :: u8) + 1 = n" by (simp only: unat_of_nat) simp
    then show ?thesis using IH unfolding Bits list.map concat.simps chip_bytes by (cases r) (simp_all del: One_nat_def of_nat_diff)
  next
    case (WithTms r t)
    show ?thesis using IH unfolding WithTms list.map concat.simps chip_bytes by (cases r; cases t) simp_all
  qed
qed simp

lemma mpsse_box_chip: "mpsse_box (mpsse_chip step tdo) mp_dev mp_fifo step tdo reply_pad"
proof unfold_locales
  fix i :: nat and tr :: "bool list"
  assume "i < length tr" "length tr \<le> 8"
  then show "bit (reply_pad tr) (8 - length tr + i) = tr ! i"
    by (auto simp: reply_pad_def bit_push_bit_iff bit_horner_sum_bit_word_iff)
next
  fix u :: "'a mpsse" and cs rs d
  assume "mp_fifo u = []" "\<forall>c \<in> set cs. mpsse_ok c" "mpsse_run reply_pad (tms_step step) tdo cs (mp_dev u) = (rs, d)"
  then show "\<exists>u'. mf_write_data (mpsse_chip step tdo) (concat (map (mpsse_bytes (mpsse_chip step tdo)) cs)) u =
      (int (length (concat (map (mpsse_bytes (mpsse_chip step tdo)) cs))), u') \<and> mp_fifo u' = rs \<and> mp_dev u' = d"
    using chip_write [of step tdo "concat (map (mpsse_bytes (mpsse_chip step tdo)) cs)" u rs d] parse_code [of cs step tdo] by simp
qed (simp_all add: mpsse_chip_def)

text \<open>A line TMS that keeps its level until a command sets it.\<close>

definition hold_tms :: "bool option \<Rightarrow> bool \<Rightarrow> bool \<times> debug_dev \<Rightarrow> bool \<times> debug_dev" where
  "hold_tms t tdi x = (let level = (case t of Some b \<Rightarrow> b | None \<Rightarrow> fst x) in (level, tck_cycle False level tdi (snd x)))"

interpretation mpsse_tap: mpsse_box "mpsse_chip hold_tms (\<lambda>x. tdo_mux_out (snd x))" mp_dev mp_fifo hold_tms "\<lambda>x. tdo_mux_out (snd x)" reply_pad
  by (rule mpsse_box_chip)


subsection \<open>What the driver promises\<close>

text \<open>The chip is open, and nothing is waiting in any buffer.\<close>

definition ft2232_idle :: "('u \<Rightarrow> u8 list) \<Rightarrow> 'u ft2232 \<Rightarrow> bool" where
  "ft2232_idle fifo s \<longleftrightarrow> (\<exists>p. ft2232_device s = Some p \<and> fp_ftdic p \<and> send_buffered p = 0 \<and> to_recv p = 0
     \<and> recv_write_idx p = 0 \<and> recv_read_idx p = 0 \<and> send_buf p \<noteq> None \<and> recv_buf p \<noteq> None \<and> fifo (f2_bus s) = [])"

context mpsse_box
begin

lemma idle_buffered: "buffered [] [] d 0 0 s \<longleftrightarrow> ft2232_idle fifo s \<and> mdev (f2_bus s) = d"
  by (auto simp: buffered_def ft2232_idle_def unat_eq_zero)

lemma driver_write:
  assumes "ft2232_idle fifo s" "0 < n" "n \<le> 32 * length ws" "n < 2 ^ 29"
  shows "\<exists>s'. cable_ftdi_write_stream lib ws (int n) l s = Some (0, s') \<and> ft2232_idle fifo s'
     \<and> mdev (f2_bus s') = fold fstep (stream_packets ws n l) (mdev (f2_bus s))"
proof -
  define B b where "B = (n - of_bool l) div 8" and "b = (n - of_bool l) mod 8"
  have n: "n = 8 * B + b + of_bool l" "b < 8" using assms(2) by (auto simp: B_def b_def)
  have room: "n \<le> 8 * length (bytes_of_words ws)" using assms(3) by simp
  have start: "buffered [] [] (mdev (f2_bus s)) 0 0 s" using assms(1) idle_buffered by blast
  obtain cs s1 where s1: "cable_ft2232_write_stream lib (bytes_of_words ws) (int n) False l s = Some (0, s1)"
    "buffered cs [] (fold fstep (stream_packets ws n l) (mdev (f2_bus s))) (4 * B + 6) 0 s1"
    using write_stream_ok [OF start n room assms(4) refl, of False] unfolding byte_packets_words [OF assms(3)] by auto
  obtain r s2 where "usbconn_ftdi_flush lib s1 = Some (r, s2)" "buffered [] [] (fold fstep (stream_packets ws n l) (mdev (f2_bus s))) 0 0 s2"
    using flush_ok [OF s1(2)] by blast
  with s1(1) show ?thesis unfolding idle_buffered
    by (auto simp: cable_ftdi_write_stream_def cable_ftdi_flush_def APP_ERR_NONE_def)
qed

lemma driver_read:
  assumes "ft2232_idle fifo s" "0 < n" "n \<le> 32 * length ws" "n \<le> 32 * length ins" "n < 2 ^ 29"
    and tr: "tr = trace (stream_packets ws n l) (mdev (f2_bus s))"
  shows "\<exists>ins' s'. cable_ftdi_read_stream lib j ws ins (int n) l s = Some (0, ins', s') \<and> length ins' = length ins
     \<and> stream_bits ins' (32 * length ins) = tr @ drop n (stream_bits ins (32 * length ins))
     \<and> ft2232_idle fifo s' \<and> mdev (f2_bus s') = fold fstep (stream_packets ws n l) (mdev (f2_bus s))"
proof -
  define B b where "B = (n - of_bool l) div 8" and "b = (n - of_bool l) mod 8"
  have n: "n = 8 * B + b + of_bool l" "b < 8" using assms(2) by (auto simp: B_def b_def)
  let ?d = "fold fstep (stream_packets ws n l) (mdev (f2_bus s))"
  have room: "n \<le> 8 * length (bytes_of_words ws)" "n \<le> 8 * length (bytes_of_words ins)" using assms(3,4) by simp_all
  have start: "buffered [] [] (mdev (f2_bus s)) 0 0 s" using assms(1) idle_buffered by blast
  obtain cs m s1 where s1: "cable_ft2232_write_stream lib (bytes_of_words ws) (int n) True l s = Some (0, s1)"
    "buffered cs (stream_reply pad B b l tr) ?d (4 * B + 6) m s1"
    using write_stream_ok [OF start n room(1) assms(5) refl, of True] unfolding byte_packets_words [OF assms(3)] tr [symmetric] by auto
  have len: "length tr = n" by (simp add: tr)
  obtain bf s2 where s2: "cable_ft2232_read_stream lib j (bytes_of_words ins) (int n) l s1 = Some ((0, bf), s2)"
    "byte_bits bf = patch 0 tr (byte_bits (bytes_of_words ins))" "buffered [] [] ?d 0 0 s2"
    using read_stream_ok [OF s1(2) n assms(2) room(2) len] by blast
  have all: "byte_bits (bytes_of_words ins) = stream_bits ins (32 * length ins)"
    using stream_bytes [of "4 * length ins" ins] by simp
  have "8 * length bf = 32 * length ins"
    using arg_cong [OF s2(2), of length] len assms(4) by (simp add: length_patch)
  then have bf: "length bf = 4 * length ins" by simp
  then have words: "length (words_of_bytes bf) = length ins" by (simp add: length_words_of_bytes)
  then have "bytes_of_words (words_of_bytes bf) = bf" using bytes_of_words_of_bytes [of bf] bf by simp
  then have "byte_bits bf = stream_bits (words_of_bytes bf) (32 * length ins)"
    using stream_bytes [of "4 * length ins" "words_of_bytes bf"] bf words by simp
  then have "stream_bits (words_of_bytes bf) (32 * length ins) = tr @ drop n (stream_bits ins (32 * length ins))"
    using s2(2) len by (simp add: all patch_def)
  with s1(1) s2(1,3) words show ?thesis unfolding idle_buffered by (auto simp: cable_ftdi_read_stream_def APP_ERR_NONE_def)
qed

end

text \<open>
  C37. A stream through the driver of the FT2232 takes the device through the clocks that were asked for, with
  TMS set at the last one if wanted, and what is read back are the levels of TDO before each clock, at
  the places of their bits; the other bits of the buffer keep their values. This holds although commands
  wait in a buffer until it is full or an answer is wanted, and answers wait in another, and
  although bytes, bits and the bit with TMS come back in different forms. Every call returns, with
  nothing left in the buffers.
\<close>

lemma ft2232_streams:
  assumes "mpsse_box lib mdev fifo step tdo pad" "ft2232_idle fifo s"
    and "0 < n" "n \<le> 32 * length ws" "n \<le> 32 * length ins" "n < 2 ^ 29"
    and tr: "tr = tdo_trace (tms_step step) tdo (stream_packets ws n l) (mdev (f2_bus s))"
    and d: "d = fold (tms_step step) (stream_packets ws n l) (mdev (f2_bus s))"
  shows "(\<exists>s'. stream_out_func (ft2232_cable_driver lib i j k) ws (int n) l s = Some (0, s') \<and> ft2232_idle fifo s' \<and> mdev (f2_bus s') = d)
     \<and> (\<exists>ins' s'. stream_inout_func (ft2232_cable_driver lib i j k) ws ins (int n) l s = Some (0, ins', s') \<and> length ins' = length ins
       \<and> stream_bits ins' (32 * length ins) = tr @ drop n (stream_bits ins (32 * length ins)) \<and> ft2232_idle fifo s' \<and> mdev (f2_bus s') = d)"
  using mpsse_box.driver_write [OF assms(1-4,6)] mpsse_box.driver_read [OF assms(1-7)]
  by (simp add: ft2232_cable_driver_def d)

definition ft2232_shifting :: "(bool \<times> debug_dev) mpsse ft2232" where
  "ft2232_shifting =
     (ft2232_start \<lparr>mp_dev = (False, power_on_dev\<lparr>TAP_state := Shift_DR\<rparr>), mp_fifo = []\<rparr>)
       \<lparr>ft2232_device := Some \<lparr>fp_ftdic = True, send_buf_len = FTDX_MAXSEND, send_buffered = 0, send_buf = Some [],
          recv_buf_len = FTDI_MAXRECV, to_recv = 0, recv_write_idx = 0, recv_read_idx = 0, recv_buf = Some []\<rparr>\<rparr>"

lemma ft2232_streams_witness:
  "\<exists>ins' s'. stream_inout_func (ft2232_cable_driver (mpsse_chip hold_tms (\<lambda>x. tdo_mux_out (snd x))) 0 0 0) [0, 0] [7, 7, 7] 35 True ft2232_shifting
      = Some (0, ins', s')
    \<and> stream_bits ins' 96 = map (bit IDCODE_VALUE) [0..<32] @ replicate 32 False @ replicate 3 True @ replicate 29 False
    \<and> TAP_state (snd (mp_dev (f2_bus s'))) = Exit1_DR"
proof -
  let ?d = "(False, power_on_dev\<lparr>TAP_state := Shift_DR\<rparr>)"
  have tr: "tdo_trace (tms_step hold_tms) (\<lambda>x. tdo_mux_out (snd x)) (stream_packets [0, 0] 35 True) ?d = map (bit IDCODE_VALUE) [0..<32] @ replicate 3 False"
    by code_simp
  have exit: "TAP_state (snd (fold (tms_step hold_tms) (stream_packets [0, 0] 35 True) ?d)) = Exit1_DR" by code_simp
  have rest: "drop 35 (stream_bits [7, 7, 7] 96) = replicate 29 False @ replicate 3 True @ replicate 29 False" by code_simp
  have idle: "ft2232_idle mp_fifo ft2232_shifting"
    by (simp add: ft2232_idle_def ft2232_shifting_def ft2232_start_def)
  have dev: "mp_dev (f2_bus ft2232_shifting) = ?d" by (simp add: ft2232_shifting_def ft2232_start_def)
  have n: "(0 :: nat) < 35" "35 \<le> 32 * length [0 :: u32, 0]" "35 \<le> 32 * length [7 :: u32, 7, 7]" "(35 :: nat) < 2 ^ 29" by simp_all
  obtain ins' s' where run: "stream_inout_func (ft2232_cable_driver (mpsse_chip hold_tms (\<lambda>x. tdo_mux_out (snd x))) 0 0 0) [0, 0] [7, 7, 7] (int 35) True
      ft2232_shifting = Some (0, ins', s')"
    "stream_bits ins' (32 * length [7 :: u32, 7, 7]) = (map (bit IDCODE_VALUE) [0..<32] @ replicate 3 False) @ drop 35 (stream_bits [7, 7, 7] (32 * length [7 :: u32, 7, 7]))"
    "mp_dev (f2_bus s') = fold (tms_step hold_tms) (stream_packets [0, 0] 35 True) ?d"
    using ft2232_streams [OF mpsse_tap.mpsse_box_axioms idle n refl refl, where l = True and i = 0 and j = 0 and k = 0] unfolding dev tr by blast
  have "stream_bits ins' 96 = map (bit IDCODE_VALUE) [0..<32] @ replicate 32 False @ replicate 3 True @ replicate 29 False"
    using run(2) rest replicate_add [of 3 29 False] by (simp only: list.size append_assoc append_Cons append_Nil) simp
  then show ?thesis using run(1,3) exit by (intro exI [of _ ins'] exI [of _ s']) simp
qed

lemma u32_of_negative: "- 1000 \<le> x \<Longrightarrow> x < 0 \<Longrightarrow> \<not> (of_int x :: u32) < 3"
proof -
  assume x: "- 1000 \<le> x" "x < 0"
  have "uint (of_int x :: u32) = (x + 2 ^ 32) mod 2 ^ 32" by (simp add: uint_word_of_int)
  also have "\<dots> = x + 2 ^ 32" using x by (intro mod_pos_pos_trivial) simp_all
  finally show ?thesis using x by (simp add: word_less_def)
qed

text \<open>One command of three bytes is in the buffer, and its answer has been asked for.\<close>

definition one_scheduled :: "'u ft2232 \<Rightarrow> bool" where
  "one_scheduled s \<longleftrightarrow> (\<exists>p. ft2232_device s = Some p \<and> fp_ftdic p \<and> send_buffered p = 3 \<and> to_recv p = 1
     \<and> recv_write_idx p = 0 \<and> recv_read_idx p = 0 \<and> (\<exists>b. send_buf p = Some b \<and> 3 \<le> length b) \<and> recv_buf p \<noteq> None)"

lemma idle_write:
  assumes "ft2232_idle f s" "\<And>u. fst (mf_malloc lib u)" "length cmd = 3"
  shows "\<exists>s'. usbconn_ftdi_write lib cmd 1 s = Some (3, s') \<and> one_scheduled s'"
proof -
  obtain p sb where p: "ft2232_device s = Some p" "fp_ftdic p" "send_buffered p = 0" "to_recv p = 0" "recv_write_idx p = 0"
    "recv_read_idx p = 0" "send_buf p = Some sb" "recv_buf p \<noteq> None"
    using assms(1) unfolding ft2232_idle_def by auto
  obtain u where u: "mf_malloc lib (f2_bus s) = (True, u)" using assms(2) [of "f2_bus s"] by (cases "mf_malloc lib (f2_bus s)") simp
  have "send_buf_len p < 3 \<longleftrightarrow> unat (send_buf_len p) < 3" by (simp add: word_less_nat_alt)
  then show ?thesis
    using p u assms(3)
    by (auto simp: usbconn_ftdi_write_def FTDI_MAXRECV_def FTDX_MAXSEND_def my_ftdi_def put_bytes_def set_params_def one_scheduled_def Let_def)
qed

lemma scheduled_read:
  assumes "one_scheduled s" "\<And>u. fst (mf_malloc lib u)"
    and "\<And>b u. - 1000 \<le> fst (mf_write_data lib b u) \<and> fst (mf_write_data lib b u) < 0" "\<And>k u. fst (fst (mf_read_data lib k u)) < 0"
  shows "\<exists>s'. usbconn_ftdi_read lib n b s = Some ((-1, b), s')"
proof -
  obtain p sb rb where p: "ft2232_device s = Some p" "fp_ftdic p" "send_buffered p = 3" "to_recv p = 1" "recv_write_idx p = 0"
    "send_buf p = Some sb" "recv_buf p = Some rb"
    using assms(1) unfolding one_scheduled_def by auto
  obtain x u where w: "mf_write_data lib (take 3 sb) (f2_bus s) = (x, u)" by fastforce
  have x: "- 1000 \<le> x" "x < 0" using assms(3) [of "take 3 sb" "f2_bus s"] w by simp_all
  have read: "\<exists>rv u'. read_until lib 1 v = Some ((rv, []), u')" for v
  proof -
    obtain rv bs u' where "mf_read_data lib 1 v = ((rv, bs), u')" by (metis prod.exhaust)
    moreover have "rv < 0" using calculation assms(4) [of 1 v] by simp
    ultimately show ?thesis by (subst read_until.simps) simp
  qed
  obtain rv1 u1 where r1: "read_until lib 1 u = Some ((rv1, []), u1)" using read by blast
  obtain v where m: "mf_malloc lib u = (True, v)" using assms(2) [of u] by (cases "mf_malloc lib u") simp
  obtain rv2 u2 where r2: "read_until lib 1 v = Some ((rv2, []), u2)" using read by blast
  have "\<exists>s'. usbconn_ftdi_flush lib s = Some (-1, s')"
    using p w x u32_of_negative [OF x] r1 r2 m
    by (simp add: usbconn_ftdi_flush_def receive_scheduled_def my_ftdi_def put_bytes_def Let_def)
  then show ?thesis using p by (auto simp: usbconn_ftdi_read_def)
qed

lemma memory_taken:
  assumes "\<And>u. fst (mf_malloc lib u)"
  shows "\<exists>u. command_memory lib s = Some ((), s\<lparr>f2_bus := u\<rparr>)"
  using assms [of "f2_bus s"] by (cases "mf_malloc lib (f2_bus s)") (auto simp: command_memory_def my_ftdi_def)

lemma idle_bit_written:
  assumes "ft2232_idle f s" "\<And>u. fst (mf_malloc lib u)"
  shows "\<exists>s'. cable_ft2232_write_stream lib [b] 1 True with_tms s = Some (0, s') \<and> one_scheduled s'"
proof -
  let ?o = "(if \<not> with_tms then MPSSE_DO_WRITE lib OR MPSSE_LSB lib OR MPSSE_WRITE_NEG lib OR MPSSE_BITMODE lib
             else MPSSE_WRITE_TMS lib OR MPSSE_LSB lib OR MPSSE_BITMODE lib OR MPSSE_WRITE_NEG lib) OR MPSSE_DO_READ lib"
  let ?cmd = "[?o, 0, if with_tms then 0x01 OR push_bit 7 b else b]"
  obtain u where u: "command_memory lib s = Some ((), s\<lparr>f2_bus := u\<rparr>)" using memory_taken [OF assms(2)] by blast
  have "ft2232_idle (\<lambda>_. []) (s\<lparr>f2_bus := u\<rparr>)" using assms(1) by (auto simp: ft2232_idle_def)
  from idle_write [OF this assms(2), of ?cmd]
  obtain s' where s': "usbconn_ftdi_write lib ?cmd 1 (s\<lparr>f2_bus := u\<rparr>) = Some (3, s')" "one_scheduled s'" by auto
  have "bits_loop lib opc True with_tms bf i 0 1 s' = Some (1, s')" for opc bf i by (simp add: bits_loop.simps)
  then have "cable_ft2232_write_bits lib [b] 1 True with_tms s = Some (1, s')"
    using u s'(1) by (auto simp: cable_ft2232_write_bits_def bits_loop.simps [of lib _ True _ _ 0 "Suc 0"] word_at_def Let_def)
  then show ?thesis using s'(2) by (cases with_tms) (simp_all add: cable_ft2232_write_stream_def word_at_def)
qed

lemma one_scheduled_bus [simp]: "one_scheduled (s\<lparr>f2_bus := u\<rparr>) \<longleftrightarrow> one_scheduled s"
  by (simp add: one_scheduled_def)

text \<open>
  The driver of the FT2232 does not notice a cable that is unplugged: when every write and every read
  fails, a bit read through it still succeeds, and the variable for the bit keeps whatever it held. The results of
  the commands are dropped on the way up, so the error code that the driver would give is never given.
\<close>

lemma ft2232_unplugged_unnoticed:
  assumes "ft2232_idle f s" "\<And>u. fst (mf_malloc lib u)"
    and "\<And>b u. - 1000 \<le> fst (mf_write_data lib b u) \<and> fst (mf_write_data lib b u) < 0" "\<And>k u. fst (fst (mf_read_data lib k u)) < 0"
  shows "\<exists>s'. bit_inout_func (ft2232_cable_driver lib i j k) p s = Some (0, k, s')"
proof -
  let ?b = "of_bool (p AND TDO \<noteq> 0)" and ?t = "p AND TMS \<noteq> 0"
  obtain s1 where s1: "cable_ft2232_write_stream lib [?b] 1 True ?t s = Some (0, s1)" "one_scheduled s1"
    using idle_bit_written [OF assms(1,2)] by blast
  obtain u where u: "command_memory lib s1 = Some ((), s1\<lparr>f2_bus := u\<rparr>)" using memory_taken [OF assms(2)] by blast
  obtain s2 where "usbconn_ftdi_read lib 1 [j] (s1\<lparr>f2_bus := u\<rparr>) = Some ((-1, [j]), s2)"
    using scheduled_read [OF _ assms(2-4)] s1(2) by (metis one_scheduled_bus)
  then have "cable_ft2232_read_packed_bits lib j [k] 1 1 0 s1 = Some ((-1, [k]), s2)"
    using u by (simp add: cable_ft2232_read_packed_bits_def)
  then have "cable_ft2232_read_stream lib j [k] 1 ?t s1 = Some ((0, [k]), s2)"
    by (cases ?t) (simp_all add: cable_ft2232_read_stream_def)
  with s1(1) show ?thesis by (simp add: ft2232_cable_driver_def cable_ftdi_read_write_bit_def word_at_def APP_ERR_NONE_def)
qed

lemma ft2232_unplugged_unnoticed_witness:
  "\<exists>s'. bit_inout_func (ft2232_cable_driver ((mpsse_chip hold_tms (\<lambda>x. tdo_mux_out (snd x)))
      \<lparr>mf_write_data := (\<lambda>_ u. (-1, u)), mf_read_data := (\<lambda>_ u. ((-1, []), u))\<rparr>) 0 0 0x55) (TDO OR TMS) ft2232_shifting = Some (0, 0x55, s')"
proof -
  have "ft2232_idle mp_fifo ft2232_shifting" by (simp add: ft2232_idle_def ft2232_shifting_def ft2232_start_def)
  then show ?thesis by (rule ft2232_unplugged_unnoticed) (simp_all add: mpsse_chip_def)
qed

lemma scheduled_read_overruns:
  assumes "one_scheduled s" "\<And>u. fst (mf_malloc lib u)"
    and "\<And>b u. fst (mf_write_data lib b u) = int (length b)" "\<And>k u. fst (fst (mf_read_data lib k u)) = -1"
  shows "usbconn_ftdi_read lib 1 b s = None"
proof -
  obtain p sb rb where p: "ft2232_device s = Some p" "fp_ftdic p" "send_buffered p = 3" "to_recv p = 1" "recv_write_idx p = 0"
    "recv_read_idx p = 0" "send_buf p = Some sb" "3 \<le> length sb" "recv_buf p = Some rb"
    using assms(1) unfolding one_scheduled_def by auto
  obtain u where w: "mf_write_data lib (take 3 sb) (f2_bus s) = (3, u)"
    using assms(3) [of "take 3 sb" "f2_bus s"] p(8) by (cases "mf_write_data lib (take 3 sb) (f2_bus s)") simp
  have read: "\<exists>u'. read_until lib 1 v = Some ((-1, []), u')" for v
  proof -
    obtain rv bs u' where "mf_read_data lib 1 v = ((rv, bs), u')" by (metis prod.exhaust)
    moreover have "rv = -1" using calculation assms(4) [of 1 v] by simp
    ultimately show ?thesis by (subst read_until.simps) simp
  qed
  obtain u1 where r1: "read_until lib 1 u = Some ((-1, []), u1)" using read by blast
  obtain v where m: "mf_malloc lib u = (True, v)" using assms(2) [of u] by (cases "mf_malloc lib u") simp
  obtain u2 where r2: "read_until lib 1 v = Some ((-1, []), u2)" using read by blast
  obtain q s' where "usbconn_ftdi_flush lib s = Some (3, s')" "ft2232_device s' = Some q" "recv_write_idx q = -1" "recv_read_idx q = 0"
    using p w r1 r2 m
    by (cases "recv_buf_len p = 0")
      (simp_all add: usbconn_ftdi_flush_def receive_scheduled_def my_ftdi_def put_bytes_def set_params_def Let_def)
  then show ?thesis using p by (simp add: usbconn_ftdi_read_def)
qed

text \<open>
  C38. When the commands get through but the answer is an error, a bit read through the driver of the FT2232 ends in an
  access outside of a buffer: the error code, \<open>-1\<close>, is added to the index at which the received bytes end, so
  that less than none are there to be copied, and what is still missing would be read to the place before the
  buffer of the caller.
\<close>

lemma ft2232_failed_read_overruns:
  assumes "ft2232_idle f s" "\<And>u. fst (mf_malloc lib u)"
    and "\<And>b u. fst (mf_write_data lib b u) = int (length b)" "\<And>k u. fst (fst (mf_read_data lib k u)) = -1"
  shows "bit_inout_func (ft2232_cable_driver lib i j k) p s = None"
proof -
  let ?b = "of_bool (p AND TDO \<noteq> 0)" and ?t = "p AND TMS \<noteq> 0"
  obtain s1 where s1: "cable_ft2232_write_stream lib [?b] 1 True ?t s = Some (0, s1)" "one_scheduled s1"
    using idle_bit_written [OF assms(1,2)] by blast
  obtain u where u: "command_memory lib s1 = Some ((), s1\<lparr>f2_bus := u\<rparr>)" using memory_taken [OF assms(2)] by blast
  have "usbconn_ftdi_read lib 1 [j] (s1\<lparr>f2_bus := u\<rparr>) = None"
    using scheduled_read_overruns [OF _ assms(2-4)] s1(2) by simp
  then have "cable_ft2232_read_packed_bits lib j [k] 1 1 0 s1 = None"
    using u by (simp add: cable_ft2232_read_packed_bits_def)
  then have "cable_ft2232_read_stream lib j [k] 1 ?t s1 = None"
    by (cases ?t) (simp_all add: cable_ft2232_read_stream_def)
  with s1(1) show ?thesis by (simp add: ft2232_cable_driver_def cable_ftdi_read_write_bit_def)
qed

lemma ft2232_failed_read_overruns_witness:
  "bit_inout_func (ft2232_cable_driver ((mpsse_chip hold_tms (\<lambda>x. tdo_mux_out (snd x)))
      \<lparr>mf_write_data := (\<lambda>b u. (int (length b), u)), mf_read_data := (\<lambda>_ u. ((-1, []), u))\<rparr>) 0 0 0) TDO ft2232_shifting = None"
proof -
  have "ft2232_idle mp_fifo ft2232_shifting" by (simp add: ft2232_idle_def ft2232_shifting_def ft2232_start_def)
  then show ?thesis by (rule ft2232_failed_read_overruns) (simp_all add: mpsse_chip_def)
qed

end
