(* ===== verification/Jsp_Shape.thy ===== *)
theory Jsp_Shape
  imports Jsp_Queues
begin

text \<open>
  The buffers of the serial port server, under everything the client, the hardware and the system may do:
  their indices stay inside of them, also when more bytes come than fit.
\<close>

subsection \<open>Indices\<close>

text \<open>
  The shape of the two buffers: the one for the hardware is well-formed, the indices of the one for the
  client are places of the buffer, whatever its counter says.
\<close>

definition ring_shape :: "ring \<Rightarrow> bool" where
  "ring_shape r \<longleftrightarrow> length (rb_buf r) = JSP_BUFFER_SIZE \<and> rb_rd r < JSP_BUFFER_SIZE \<and> rb_wr r < JSP_BUFFER_SIZE"

definition jsp_shape :: "('s, 'z) jsp_process_scheme \<Rightarrow> bool" where
  "jsp_shape w \<longleftrightarrow> ring_ok (jsp_tohw w) \<and> ring_shape (jsp_fromhw w)"

lemma jsp_shapeI: "jsp_shape w \<Longrightarrow> jsp_tohw w' = jsp_tohw w \<Longrightarrow> jsp_fromhw w' = jsp_fromhw w \<Longrightarrow> jsp_shape w'"
  by (simp add: jsp_shape_def)

lemma ring_shape_drop [simp]: "ring_shape r \<Longrightarrow> ring_shape (ring_drop n r)"
  by (simp add: ring_shape_def ring_drop_def)

lemma ring_shape_fill [simp]: "ring_shape r \<Longrightarrow> ring_shape (fold ring_put bs r)"
  by (induction bs arbitrary: r) (simp_all add: ring_shape_def ring_put_def)

lemma ring_clear_ok: "length (rb_buf r) = JSP_BUFFER_SIZE \<Longrightarrow> ring_ok (ring_clear r) \<and> ring_shape (ring_clear r)"
  by (simp add: ring_ok_def ring_shape_def ring_clear_def)

lemma jsp_queue_shape: "jsp_shape w \<Longrightarrow> jsp_queue_data_from_client w = Some w' \<Longrightarrow> jsp_shape w'"
proof -
  assume w: "jsp_shape w" "jsp_queue_data_from_client w = Some w'"
  then have "ring_ok (jsp_tohw w')" "same_but_input w w'" using jsp_queue_law [of w] by (auto simp: jsp_shape_def)
  moreover have "jsp_fromhw w' = jsp_fromhw w" using calculation(2) unfolding same_but_input_def by (cases w, cases w') simp
  ultimately show ?thesis using w(1) by (simp add: jsp_shape_def)
qed

lemma jsp_send_shape [simp]: "jsp_shape w \<Longrightarrow> jsp_shape (jsp_send w)"
  by (simp add: jsp_shape_def jsp_send_def Let_def split: prod.split option.split)

lemma jsp_transact_shape:
  assumes "jsp_shape w" "jsp_hardware_transact c w = Some w'"
  shows "jsp_shape w'"
proof -
  let ?n = "if rb_count (jsp_tohw w) > 8 then 8 else rb_count (jsp_tohw w)"
  obtain e r st where hw: "dbg_serial_sndrcv c ?n (ring_peek ?n (jsp_tohw w)) (jtag w) = Some (e, r, st)"
    using assms(2) unfolding jsp_hardware_transact_def Let_def by (auto simp: on_jtag2_def split: Option.bind_splits)
  show ?thesis
  proof (cases "e = APP_ERR_NONE")
    case False
    then have "w' = w\<lparr>jtag := st\<rparr>" using assms(2) hw unfolding jsp_hardware_transact_def Let_def by (simp add: on_jtag2_def)
    with assms(1) show ?thesis by (simp add: jsp_shape_def)
  next
    case True
    then obtain data k where r: "r = Some (data, k)" and
      w': "w' = w\<lparr>jtag := st, jsp_tohw := ring_drop k (jsp_tohw w), jsp_fromhw := fold ring_put data (jsp_fromhw w)\<rparr>"
      using assms(2) hw unfolding jsp_hardware_transact_def Let_def by (auto simp: on_jtag2_def split: Option.bind_splits if_splits)
    have "k \<le> length (ring_contents (jsp_tohw w))"
      using serial_sndrcv_range [OF hw [unfolded r]] by (simp split: if_splits)
    with assms(1) rq.leave_law [of "jsp_tohw w" k] w' show ?thesis by (simp add: jsp_shape_def)
  qed
qed

lemma jsp_welcome_frame [simp]: "jsp_tohw (jsp_print_welcome w) = jsp_tohw w" "jsp_fromhw (jsp_print_welcome w) = jsp_fromhw w"
  by (simp_all add: jsp_print_welcome_def jsp_send_all_def Let_def split_beta)

lemma jsp_pass_shape:
  assumes "jsp_shape w" "jsp_server_pass c fd sel w = Some w'"
  shows "jsp_shape w'"
proof -
  consider "\<not> jsp_server_running w" | "jsp_server_running w" "jsp_client_fd w = -1" | "jsp_serve c sel w = Some w'"
    using assms(2) by (auto simp: jsp_server_pass_def split: if_splits)
  then show ?thesis
  proof cases
    case 1
    then show ?thesis using assms by (auto simp: jsp_server_pass_def jsp_client_close_def jsp_shape_def)
  next
    case 2
    then show ?thesis
      using assms ring_clear_ok [of "jsp_tohw w"] ring_clear_ok [of "jsp_fromhw w"]
      by (auto simp: jsp_server_pass_def jsp_accept_def jsp_shape_def ring_shape_def ring_ok_def Let_def split: if_splits)
  next
    case 3
    have tail: "jsp_shape w'" if "jsp_shape u" "(let u = jsp_send_data_to_client u in
        if jsp_target_is_running u then jsp_hardware_transact c u else Some u) = Some w'" for u
      using that jsp_transact_shape [of "jsp_send_data_to_client u" c w']
      by (auto simp: jsp_send_data_to_client_def Let_def split: if_splits)
    have status: "jsp_shape u" if "jsp_monitor_status w = Some u" for u
      using jsp_monitor_status_frame [OF that] assms(1) by (simp add: jsp_shape_def)
    show ?thesis
      using 3 assms(1) status jsp_queue_shape tail
      unfolding jsp_serve_def by (auto split: select_result.splits Option.bind_splits if_splits)
  qed
qed

text \<open>
  C27. Whatever the client sends and reads, whatever the hardware answers, and however often the thread goes
  round, the buffers of the serial port server keep their shape: the arrays their size, the read and write
  indices inside of them, and the buffer for the hardware never more than full. So even the bytes that
  overflow the buffer for the client are written inside of it.
\<close>

theorem jsp_buffers_keep_shape:
  assumes "(\<lambda>w w'. \<exists>fd sel. jsp_server_pass c fd sel w = Some w')\<^sup>*\<^sup>* w w'" "jsp_shape w"
  shows "jsp_shape w'"
  using assms by (induction rule: rtranclp_induct) (blast intro: jsp_pass_shape)+

theorem jsp_buffers_keep_shape_witness:
  "\<exists>w'. (\<lambda>w w'. \<exists>fd sel. jsp_server_pass talking fd sel w = Some w')\<^sup>*\<^sup>* ((terminal [] full_ring)\<lparr>jsp_sends := [Snd_error, Snd_error]\<rparr>) w'
     \<and> rb_count (jsp_fromhw w') = 257 \<and> jsp_shape w'"
proof -
  let ?w = "(terminal [] full_ring)\<lparr>jsp_sends := [Snd_error, Snd_error]\<rparr>"
  let ?w1 = "?w\<lparr>jsp_sends := []\<rparr>"
  let ?w2 = "?w1\<lparr>jtag := lone_jtag DC_JSP, jsp_tohw := ring_drop 0 empty_ring, jsp_fromhw := ring_put 0x41 full_ring\<rparr>"
  have "jsp_send_data_to_client ?w = ?w1" by (simp add: jsp_send_data_to_client_def jsp_send_def JSP_BUFFER_SIZE_def)
  moreover have "ring_peek 0 empty_ring = []" by (simp add: ring_peek_def)
  ultimately have "jsp_server_pass talking 0 Select_timeout ?w = Some ?w2"
    using serial_talks by (simp add: jsp_server_pass_def jsp_serve_def jsp_hardware_transact_def on_jtag2_def)
  then have run: "(\<lambda>w w'. \<exists>fd sel. jsp_server_pass talking fd sel w = Some w')\<^sup>*\<^sup>* ?w ?w2"
    by (intro r_into_rtranclp) blast
  have "ring_shape full_ring" by (simp add: ring_shape_def full_ring_def JSP_BUFFER_SIZE_def)
  then have "jsp_shape ?w2" by (intro jsp_buffers_keep_shape [OF run]) (simp add: jsp_shape_def)
  with run show ?thesis by (intro exI [of _ ?w2]) (simp add: ring_put_def JSP_BUFFER_SIZE_def)
qed

end
