(* ===== verification/Spec2Isabelle.thy ===== *)
theory Spec2Isabelle
  imports Bsdl_Roundtrip Bridge_Main Cable_Ft245 Sim_Library Xpc_Streams Ft2232_Streams Jsp_Shape
begin

text \<open>
  Verification of adv_jtag_bridge, the bridge between GDB and a processor behind a JTAG cable
  (src/rtl/minisoc/adv_debug_sys/Software/adv_jtag_bridge). The rest of the repository is hardware
  descriptions; of these only what the bridge talks to is modelled, and only to state what the bridge
  achieves.

  \<^bold>\<open>The program.\<close> GDB connects over TCP to the RSP server (rsp-server.c). Its requests become calls
  of the debug API (dbg_api.c), which takes a mutex, and, by the kind of the debug hardware, runs a
  transaction of the advanced (adv_dbg_commands.c) or the legacy debug unit (legacy_dbg_commands.c).
  These are made of transactions on the JTAG chain (chain_commands.c), which are made of calls of the
  cable driver in use (cable_common.c and the drivers). A second thread, the hardware monitor
  (hardware_monitor.c), owns the run state of the CPU: the servers send it stall and unstall commands
  over pipes, it polls the CPU and reports halts. A second server (hwp_server.c) lets another client
  use the hardware watchpoints GDB does not; a third (jsp_server.c) connects a terminal to the serial
  port of the debug unit. Each server runs in a thread of its own. Before any of them starts, the main
  program (adv_jtag_bridge.c) reads the command line, enumerates the chain and finds the place of the
  target in it, with what it knows of the devices from BSDL files (bsdl.c, bsdl_parse.c).

  \<^bold>\<open>The theories, bottom up.\<close>
  \<^item> Prelude: word types, buffers, the convention that \<open>None\<close> is a call that does not come back.
  \<^item> Errcodes: errcodes.c and the scratchpad growth of utilities.c.
  \<^item> Cable_Common: the driver table and the bit-bang routines; the locale \<open>jtag_cable\<close> is what the
    upper layers rely on, interpreted by bit-banging on any device. Cable_Parallel: the three
    parallel-port drivers and what they do to the wires.
  \<^item> Libusb: the calls of libusb, the timers of utilities.c, opening a device. Packet_Streams: the stream
    functions the USB-Blaster drivers have in common, and the locale \<open>packet_cable\<close> of what they need.
    Cable_Usbblaster, Usbblaster_Streams: the driver over libusb and what its streams do to the device.
    Cable_Ft245: the driver over libftdi and the unused cable_usbblaster_ftdi.c.
  \<^item> Cable_Xpc: the driver of the Xilinx cable, whose CPLD takes changes of the lines packed by four.
    Xpc_Streams: the CPLD as the locale \<open>cpld_box\<close>, and what streams do to the device behind it.
  \<^item> Cable_Ft2232: the driver of the FT2232, which collects commands for the chip in one buffer and answers in
    another. Ft2232_Streams: the chip as the locale \<open>mpsse_box\<close>; the buffers are transparent, and a stream
    reaches the device behind the chip; what becomes of an error.
  \<^item> Cable_Sim: the drivers for simulated hardware, over a socket and over files. Sim_Library: the plugin
    in the simulator and the module that calls it, with which the first keeps the contract of a cable.
  \<^item> Debug_Hardware: tap_top.v, the module register of adbg_top.v and adbg_crc32.v.
  \<^item> Chain_Commands: the record \<open>jtag\<close> (the globals of the bridge below the servers) and the
    transactions on the chain. Tap_Transactions: their walks through the TAP.
  \<^item> Adv_Dbg_Commands, Adv_Dbg_Bursts: module selection, register accesses, bursts with CRC, the serial
    port; the CRC is the hardware's, bursts return and report data only with a matching CRC.
  \<^item> Legacy_Dbg_Commands: the frames of the older unit.
  \<^item> Dbg_Api: every call of the API, with the mutex.
  \<^item> Hardware_Monitor: the record \<open>bridge\<close> (the \<open>jtag\<close> state, pipes, connections, run state), the
    registration of servers, one pass of the thread; \<open>monitor_step\<close> is the step relation of the
    process (passes, registrations that may fail, departures, commands) and the invariant is by rule induction on it.
  \<^item> Hwp_Watchpoints: the pool of hardware watchpoints, as the locale \<open>watchpoint_pool\<close>.
  \<^item> Rsp_Codec: hexadecimal conversions, escapes, \<open>sscanf\<close>. Rsp_Matchpoints: the hash table of
    breakpoints, as the locale \<open>matchpoint_table\<close>, a finite map.
  \<^item> Rsp_Link: the record \<open>rsp_bridge\<close> (the \<open>bridge\<close> and the globals of rsp-server.c), characters and
    packets. Rsp_Packets: retransmission, round trip between \<open>put_packet\<close> and \<open>get_packet\<close>, bounds.
  \<^item> Rsp_Server: the handlers of registers, memory, continue and step. Rsp_Dispatch: queries,
    matchpoints, the dispatcher, the connection of a client, one call of \<open>handle_rsp\<close>.
  \<^item> Rsp_Invariants: what every call of the server and every pass of the monitor keeps.
    Rsp_Requests: what single requests achieve, down to the calls of the debug API.
    Rsp_Defects: where the handlers do not do what their comments promise; \<open>interleaved\<close> puts passes of
    the monitor between the calls of a handler, for the one whose order matters.
  \<^item> Hwp_Link: characters and packets of the HWP server. Hwp_Server: the record \<open>process\<close> (the
    \<open>rsp_bridge\<close> and the globals of hwp_server.c), its requests, one pass of its thread. Hwp_Requests:
    the relation \<open>process_step\<close> of the three threads, its invariant, and the register writes that
    move watchpoints between the servers.
  \<^item> Jsp_Server: the record \<open>jsp_process\<close> (the \<open>process\<close> and the globals of jsp_server.c) and every
    function of the serial port server. Jsp_Queues: its ring buffers as the locale \<open>byte_queue\<close>; a pass
    keeps the bytes in order; overflow and the end of a connection. Jsp_Shape: no index leaves them.
  \<^item> C_Strings: the string functions of C. Bsdl_Parse: the reader of device descriptions. Bsdl_Files:
    lines, and when a loop over them ends. Bsdl_Roundtrip: a description in the usual layout is read
    back. Bsdl_Lookup: the lookup over the files, as the locale \<open>lookup_cache\<close>.
  \<^item> Bridge_Setup: the record \<open>startup\<close> (the \<open>jtag\<close> state, the descriptions, the globals of the main
    program), the command line, the configuration of the chain. Chain_Setup: what the configuration
    finds out, and that an instruction then reaches the target alone.
  \<^item> Self_Test: the test of the target, over the calls of the debug API it makes; what its verdicts
    depend on. Bridge_Main: \<open>main\<close> up to the servers, the relation \<open>program_step\<close> of all threads, and
    that the start-up establishes what the threads keep.

  \<^bold>\<open>State and effects.\<close> An operation is a function from the state to an optional result and new state.
  \<open>None\<close> is \<open>exit\<close>, a lock taken twice, blocking for ever, or undefined behaviour. The state of the
  wires and of whatever hangs on them is the type variable \<open>'s\<close>; the driver is a record of functions, as
  in C. The answers of the operating system (\<open>malloc\<close>, \<open>read\<close>, \<open>write\<close>, \<open>select\<close>, \<open>accept\<close> and so on) are
  lists in the state or arguments, so that every failure is a branch. Uninitialised locals that can be read
  are arguments or the field \<open>junk\<close>.

  \<^bold>\<open>Bounds and fuel.\<close> The retry loops of bursts and legacy transactions run on fuel: an attempt is
  repeated only after a bus error, at most MAX_BUS_ERRORS times, or when \<open>retry_do\<close> allows it, which
  NUM_SOFT_RETRIES bounds; \<open>burst_fuel_enough\<close> shows that fuel never ends a run. \<open>put_packet\<close> and
  \<open>get_packet\<close> recurse on the answers still to come, and need none: every retry consumes an answer.
  The loops of the BSDL reader that may not end are partial functions, whose value is then \<open>None\<close>.

  \<^bold>\<open>Not modelled.\<close> The busy-wait, messages, the parallel ports of Windows, and the options other than those
  both builds default to. Threads are interleaved at the granularity of the steps of \<open>monitor_step\<close>, \<open>bridge_step\<close> and \<open>process_step\<close>,
  and of \<open>interleaved\<close> where the calls of one handler are separated. The models of the devices take TMS and TDI
  and change TDO with the rising edge of TCK; the real TDO changes with the falling one, which gives the same
  levels to drivers that read it while the clock is low, before the edge that shifts. A last word that is not full is padded with zeros.
\<close>

end
